(* ===== verification/Prelude.thy ===== *)
theory Prelude
  imports Main "HOL-Library.Multiset" "HOL-Library.Char_ord" "HOL-Library.List_Lexorder" "HOL-Library.Product_Lexorder"
begin

section \<open>Prelude: handlers as state-and-error actions, rows of a table\<close>

text \<open>
  The generic part of the library.  A handler of the backend is an action: it takes a state
  and returns an error or a value, and the state it leaves behind, which an error does not
  undo (a handler that throws half-way keeps the writes it made, as an \<open>async\<close> method does).
  \<open>transact\<close> is the exception: Prisma's \<open>$transaction\<close> rolls its writes back on an error.

  The second half is the vocabulary of tables: a table is a list of rows, looked up by a key,
  and the operations on it have the contract that the locale \<open>db_table\<close> states.

  Collections: \<open>act_simps\<close> unfolds actions applied to a state, \<open>keeps_intro\<close> are the rules
  that show that an action keeps an invariant, \<open>row_simps\<close> are the facts on table rows.
\<close>

named_theorems act_simps
named_theorems keeps_intro
named_theorems row_simps

subsection \<open>Actions\<close>

type_synonym ('e, 's, 'a) act = "'s \<Rightarrow> ('e + 'a) \<times> 's"

definition ret :: "'a \<Rightarrow> ('e, 's, 'a) act" where
  "ret x = (\<lambda>s. (Inr x, s))"

definition throw :: "'e \<Rightarrow> ('e, 's, 'a) act" where
  "throw e = (\<lambda>s. (Inl e, s))"

definition bnd :: "('e, 's, 'a) act \<Rightarrow> ('a \<Rightarrow> ('e, 's, 'b) act) \<Rightarrow> ('e, 's, 'b) act" where
  "bnd m f = (\<lambda>s. case m s of (Inl e, t) \<Rightarrow> (Inl e, t) | (Inr x, t) \<Rightarrow> f x t)"

definition gets :: "('s \<Rightarrow> 'a) \<Rightarrow> ('e, 's, 'a) act" where
  "gets f = (\<lambda>s. (Inr (f s), s))"

definition upd :: "('s \<Rightarrow> 's) \<Rightarrow> ('e, 's, unit) act" where
  "upd f = (\<lambda>s. (Inr (), f s))"

definition check :: "bool \<Rightarrow> 'e \<Rightarrow> ('e, 's, unit) act" where
  "check b e = (\<lambda>s. (if b then Inr () else Inl e, s))"

definition fetch :: "('s \<Rightarrow> 'a option) \<Rightarrow> 'e \<Rightarrow> ('e, 's, 'a) act" where
  "fetch f e = (\<lambda>s. (case f s of None \<Rightarrow> Inl e | Some x \<Rightarrow> Inr x, s))"

definition from_sum :: "'e + 'a \<Rightarrow> ('e, 's, 'a) act" where
  "from_sum r = (\<lambda>s. (r, s))"

definition transact :: "('e, 's, 'a) act \<Rightarrow> ('e, 's, 'a) act" where
  "transact m = (\<lambda>s. case m s of (Inl e, _) \<Rightarrow> (Inl e, s) | (Inr x, t) \<Rightarrow> (Inr x, t))"

definition swallow :: "('e, 's, 'a) act \<Rightarrow> ('e, 's, unit) act" where
  "swallow m = (\<lambda>s. (Inr (), snd (m s)))"

fun each :: "('x \<Rightarrow> ('e, 's, unit) act) \<Rightarrow> 'x list \<Rightarrow> ('e, 's, unit) act" where
  "each f [] = ret ()"
| "each f (x # xs) = bnd (f x) (\<lambda>_. each f xs)"

lemma ret_apply [act_simps, simp]: "ret x s = (Inr x, s)"
  by (simp add: ret_def)

lemma throw_apply [act_simps, simp]: "throw e s = (Inl e, s)"
  by (simp add: throw_def)

lemma gets_apply [act_simps, simp]: "gets f s = (Inr (f s), s)"
  by (simp add: gets_def)

lemma upd_apply [act_simps, simp]: "upd f s = (Inr (), f s)"
  by (simp add: upd_def)

lemma check_apply [act_simps, simp]: "check b e s = (if b then (Inr (), s) else (Inl e, s))"
  by (simp add: check_def)

lemma fetch_apply [act_simps, simp]:
  "fetch f e s = (case f s of None \<Rightarrow> (Inl e, s) | Some x \<Rightarrow> (Inr x, s))"
  by (simp add: fetch_def split: option.splits)

lemma from_sum_apply [act_simps, simp]: "from_sum r s = (r, s)"
  by (simp add: from_sum_def)

lemma bnd_apply [act_simps]:
  "bnd m f s = (case m s of (Inl e, t) \<Rightarrow> (Inl e, t) | (Inr x, t) \<Rightarrow> f x t)"
  by (simp add: bnd_def)

lemma bnd_Inr [simp]: "m s = (Inr x, t) \<Longrightarrow> bnd m f s = f x t"
  by (simp add: bnd_apply)

lemma bnd_Inl [simp]: "m s = (Inl e, t) \<Longrightarrow> bnd m f s = (Inl e, t)"
  by (simp add: bnd_apply)

lemma bnd_check [act_simps]: "bnd (check b e) f s = (if b then f () s else (Inl e, s))"
  by (simp add: bnd_apply)

lemma bnd_fetch [act_simps]:
  "bnd (fetch g e) f s = (case g s of None \<Rightarrow> (Inl e, s) | Some x \<Rightarrow> f x s)"
  by (simp add: bnd_apply split: option.splits)

lemma bnd_upd [act_simps]: "bnd (upd g) f s = f () (g s)"
  by (simp add: bnd_apply)

lemma bnd_gets [act_simps]: "bnd (gets g) f s = f (g s) s"
  by (simp add: bnd_apply)

lemma bnd_assoc: "bnd (bnd m f) g = bnd m (\<lambda>x. bnd (f x) g)"
  by (rule ext) (simp add: bnd_apply split: prod.splits sum.splits)

lemma bnd_ret [simp]: "bnd m ret = m"
  by (rule ext) (simp add: bnd_apply split: prod.splits sum.splits)

lemma transact_Inl [simp]: "m s = (Inl e, t) \<Longrightarrow> transact m s = (Inl e, s)"
  by (simp add: transact_def)

lemma transact_Inr [simp]: "m s = (Inr x, t) \<Longrightarrow> transact m s = (Inr x, t)"
  by (simp add: transact_def)

lemma transact_apply [act_simps]:
  "transact m s = (case m s of (Inl e, _) \<Rightarrow> (Inl e, s) | (Inr x, t) \<Rightarrow> (Inr x, t))"
  by (simp add: transact_def)

text \<open>A transaction that reports an error has changed nothing.\<close>

lemma transact_all_or_nothing: "transact m s = (Inl e, t) \<Longrightarrow> t = s"
  by (auto simp: transact_def split: prod.splits sum.splits)

lemma bnd_eq_Inr_conv:
  "bnd m f s = (Inr y, t) \<longleftrightarrow> (\<exists>x u. m s = (Inr x, u) \<and> f x u = (Inr y, t))"
  by (auto simp: bnd_apply split: prod.splits sum.splits)

lemma bnd_eq_Inl_conv:
  "bnd m f s = (Inl e, t) \<longleftrightarrow>
     m s = (Inl e, t) \<or> (\<exists>x u. m s = (Inr x, u) \<and> f x u = (Inl e, t))"
  by (auto simp: bnd_apply split: prod.splits sum.splits)

subsection \<open>Actions that keep an invariant\<close>

definition keeps :: "('s \<Rightarrow> bool) \<Rightarrow> ('e, 's, 'a) act \<Rightarrow> bool" where
  "keeps I m \<longleftrightarrow> (\<forall>s. I s \<longrightarrow> I (snd (m s)))"

lemma keepsD: "keeps I m \<Longrightarrow> I s \<Longrightarrow> m s = (r, t) \<Longrightarrow> I t"
  by (auto simp: keeps_def dest: spec [of _ s])

lemma keeps_ret [keeps_intro]: "keeps I (ret x)"
  by (simp add: keeps_def)

lemma keeps_throw [keeps_intro]: "keeps I (throw e)"
  by (simp add: keeps_def)

lemma keeps_gets [keeps_intro]: "keeps I (gets f)"
  by (simp add: keeps_def)

lemma keeps_check [keeps_intro]: "keeps I (check b e)"
  by (simp add: keeps_def)

lemma keeps_fetch [keeps_intro]: "keeps I (fetch f e)"
  by (simp add: keeps_def split: option.splits)

lemma keeps_from_sum [keeps_intro]: "keeps I (from_sum r)"
  by (simp add: keeps_def)

lemma keeps_upd: "(\<And>s. I s \<Longrightarrow> I (f s)) \<Longrightarrow> keeps I (upd f)"
  by (simp add: keeps_def)

lemma keeps_bnd [keeps_intro]: "keeps I m \<Longrightarrow> (\<And>x. keeps I (f x)) \<Longrightarrow> keeps I (bnd m f)"
  unfolding keeps_def
proof (intro allI impI)
  fix s
  assume m: "\<forall>s. I s \<longrightarrow> I (snd (m s))" and f: "\<And>x. \<forall>s. I s \<longrightarrow> I (snd (f x s))" and s: "I s"
  obtain r t where r: "m s = (r, t)" by (cases "m s")
  with m s have t: "I t" by (metis snd_conv)
  with f show "I (snd (bnd m f s))"
    by (cases r) (simp_all add: bnd_apply r)
qed

lemma keeps_transact [keeps_intro]: "keeps I m \<Longrightarrow> keeps I (transact m)"
  unfolding keeps_def transact_def by (simp add: split_beta split: sum.splits)

lemma keeps_swallow [keeps_intro]: "keeps I m \<Longrightarrow> keeps I (swallow m)"
  by (auto simp: keeps_def swallow_def)

lemma keeps_each [keeps_intro]: "(\<And>x. keeps I (f x)) \<Longrightarrow> keeps I (each f xs)"
  by (induction xs) (auto intro: keeps_intro)

lemma keeps_if [keeps_intro]:
  "(b \<Longrightarrow> keeps I m) \<Longrightarrow> (\<not> b \<Longrightarrow> keeps I n) \<Longrightarrow> keeps I (if b then m else n)"
  by simp

lemma keeps_case_option [keeps_intro]:
  "keeps I m \<Longrightarrow> (\<And>x. keeps I (f x)) \<Longrightarrow> keeps I (case o' of None \<Rightarrow> m | Some x \<Rightarrow> f x)"
  by (cases o') auto

text \<open>
  An action is \<open>inert\<close> for an observation of the state when it never changes it: the frame
  condition of a handler, and a special case of keeping an invariant.
\<close>

definition inert :: "('s \<Rightarrow> 'o) \<Rightarrow> ('e, 's, 'a) act \<Rightarrow> bool" where
  "inert obs m \<longleftrightarrow> (\<forall>s. obs (snd (m s)) = obs s)"

lemma inert_iff_keeps: "inert obs m \<longleftrightarrow> (\<forall>v. keeps (\<lambda>s. obs s = v) m)"
  by (auto simp: inert_def keeps_def)

lemma inertD: "inert obs m \<Longrightarrow> m s = (r, t) \<Longrightarrow> obs t = obs s"
  by (metis inert_def snd_conv)

text \<open>An action that takes states of one invariant to states of another.\<close>

definition leads :: "('s \<Rightarrow> bool) \<Rightarrow> ('s \<Rightarrow> bool) \<Rightarrow> ('e, 's, 'a) act \<Rightarrow> bool" where
  "leads I J m \<longleftrightarrow> (\<forall>s. I s \<longrightarrow> J (snd (m s)))"

lemma leadsD: "leads I J m \<Longrightarrow> I s \<Longrightarrow> m s = (r, t) \<Longrightarrow> J t"
  by (auto simp: leads_def dest: spec [of _ s])

lemma leads_keeps: "keeps I m \<Longrightarrow> (\<And>s. I s \<Longrightarrow> J s) \<Longrightarrow> leads I J m"
  by (simp add: keeps_def leads_def)

lemma leads_bnd:
  assumes "keeps I m" and "\<And>s. I s \<Longrightarrow> J s" and "\<And>x. leads I J (f x)"
  shows "leads I J (bnd m f)"
  unfolding leads_def
proof (intro allI impI)
  fix s
  assume s: "I s"
  obtain r t where r: "m s = (r, t)" by (cases "m s")
  with keepsD [OF assms(1) s r] assms(2,3) show "J (snd (bnd m f s))"
    by (cases r) (simp_all add: bnd_apply leads_def)
qed

lemma leads_upd: "(\<And>s. I s \<Longrightarrow> J (f s)) \<Longrightarrow> leads I J (upd f)"
  by (simp add: leads_def)

lemma leads_transact: "leads I J m \<Longrightarrow> (\<And>s. I s \<Longrightarrow> J s) \<Longrightarrow> leads I J (transact m)"
  unfolding leads_def transact_def by (simp add: split_beta split: sum.splits)

lemma leads_bnd_right:
  assumes "leads I J m" and "\<And>x. keeps J (f x)"
  shows "leads I J (bnd m f)"
  unfolding leads_def
proof (intro allI impI)
  fix s
  assume s: "I s"
  obtain r t where r: "m s = (r, t)" by (cases "m s")
  with leadsD [OF assms(1) s r] assms(2) show "J (snd (bnd m f s))"
    by (cases r) (simp_all add: bnd_apply keeps_def)
qed

subsection \<open>Sequencing results without a state\<close>

definition sum_bind :: "'e + 'a \<Rightarrow> ('a \<Rightarrow> 'e + 'b) \<Rightarrow> 'e + 'b" where
  "sum_bind r f = (case r of Inl e \<Rightarrow> Inl e | Inr x \<Rightarrow> f x)"

lemma sum_bind_simps [simp]: "sum_bind (Inl e) f = Inl e" "sum_bind (Inr x) f = f x"
  by (simp_all add: sum_bind_def)

lemma sum_bind_cong [fundef_cong]:
  "r = r' \<Longrightarrow> (\<And>x. r' = Inr x \<Longrightarrow> f x = g x) \<Longrightarrow> sum_bind r f = sum_bind r' g"
  by (cases r') simp_all

lemma sum_bind_eq_Inr: "sum_bind r f = Inr y \<longleftrightarrow> (\<exists>x. r = Inr x \<and> f x = Inr y)"
  by (cases r) simp_all

lemma sum_bind_eq_Inl: "sum_bind r f = Inl e \<longleftrightarrow> r = Inl e \<or> (\<exists>x. r = Inr x \<and> f x = Inl e)"
  by (cases r) simp_all

subsection \<open>Rows of a table\<close>

definition find_row :: "('r \<Rightarrow> 'k) \<Rightarrow> 'k \<Rightarrow> 'r list \<Rightarrow> 'r option" where
  "find_row key k rows = List.find (\<lambda>r. key r = k) rows"

definition set_rows :: "('r \<Rightarrow> bool) \<Rightarrow> ('r \<Rightarrow> 'r) \<Rightarrow> 'r list \<Rightarrow> 'r list" where
  "set_rows p f rows = map (\<lambda>r. if p r then f r else r) rows"

definition drop_rows :: "('r \<Rightarrow> bool) \<Rightarrow> 'r list \<Rightarrow> 'r list" where
  "drop_rows p rows = filter (\<lambda>r. \<not> p r) rows"

definition count_rows :: "('r \<Rightarrow> bool) \<Rightarrow> 'r list \<Rightarrow> nat" where
  "count_rows p rows = length (filter p rows)"

definition some_row :: "('r \<Rightarrow> bool) \<Rightarrow> 'r list \<Rightarrow> bool" where
  "some_row p rows = list_ex p rows"

text \<open>\<open>orderBy\<close> with a descending key, ties broken by the following components of the key.\<close>

definition order_desc :: "('r \<Rightarrow> 'k :: linorder) \<Rightarrow> 'r list \<Rightarrow> 'r list" where
  "order_desc k rows = rev (sort_key k rows)"

lemma find_row_Nil [simp]: "find_row key k [] = None"
  by (simp add: find_row_def)

lemma find_row_Cons [simp]:
  "find_row key k (r # rows) = (if key r = k then Some r else find_row key k rows)"
  by (simp add: find_row_def)

lemma set_rows_simps [simp]:
  "set_rows p f [] = []"
  "set_rows p f (r # rows) = (if p r then f r else r) # set_rows p f rows"
  by (simp_all add: set_rows_def)

lemma drop_rows_simps [simp]:
  "drop_rows p [] = []"
  "drop_rows p (r # rows) = (if p r then drop_rows p rows else r # drop_rows p rows)"
  by (simp_all add: drop_rows_def)

lemma count_rows_simps [simp]:
  "count_rows p [] = 0"
  "count_rows p (r # rows) = (if p r then Suc (count_rows p rows) else count_rows p rows)"
  by (simp_all add: count_rows_def)

lemma find_row_SomeD: "find_row key k rows = Some r \<Longrightarrow> r \<in> set rows \<and> key r = k"
  by (induction rows) (auto split: if_splits)

lemma find_row_None_iff: "find_row key k rows = None \<longleftrightarrow> k \<notin> key ` set rows"
  by (induction rows) auto

lemma find_row_eq_Some_iff:
  "distinct (map key rows) \<Longrightarrow> find_row key k rows = Some r \<longleftrightarrow> r \<in> set rows \<and> key r = k"
  by (induction rows) (auto simp: image_iff)

lemma find_row_append [row_simps]:
  "find_row key k (xs @ ys) = (case find_row key k xs of None \<Rightarrow> find_row key k ys | Some r \<Rightarrow> Some r)"
  by (induction xs) auto

lemma find_row_set_rows [row_simps]:
  "(\<And>r. r \<in> set rows \<Longrightarrow> p r \<Longrightarrow> key (f r) = key r) \<Longrightarrow>
     find_row key k (set_rows p f rows) = map_option (\<lambda>r. if p r then f r else r) (find_row key k rows)"
  by (induction rows) auto

lemma find_row_drop_rows [row_simps]:
  "distinct (map key rows) \<Longrightarrow>
     find_row key k (drop_rows p rows) =
       (case find_row key k rows of None \<Rightarrow> None | Some r \<Rightarrow> if p r then None else Some r)"
proof (induction rows)
  case (Cons a rows)
  then show ?case
    by (cases "find_row key k rows") (auto dest!: find_row_SomeD intro: rev_image_eqI)
qed simp

lemma map_set_rows [row_simps]:
  "(\<And>r. p r \<Longrightarrow> g (f r) = g r) \<Longrightarrow> map g (set_rows p f rows) = map g rows"
  by (induction rows) auto

lemma distinct_set_key:
  assumes keys: "distinct (map key rows)" and vals: "distinct (map g rows)"
    and free: "\<And>r. r \<in> set rows \<Longrightarrow> g r = s \<Longrightarrow> key r = i"
    and f: "\<And>r. r \<in> set rows \<Longrightarrow> key r = i \<Longrightarrow> g (f r) = s"
  shows "distinct (map g (set_rows (\<lambda>r. key r = i) f rows))"
proof -
  have "inj_on (\<lambda>r. g (if key r = i then f r else r)) (set rows)"
  proof (rule inj_onI)
    fix x y
    assume xy: "x \<in> set rows" "y \<in> set rows"
      and eq: "g (if key x = i then f x else x) = g (if key y = i then f y else y)"
    have "key x = key y \<or> g x = g y"
      using eq free [OF xy(1)] free [OF xy(2)] f [OF xy(1)] f [OF xy(2)] by (auto split: if_splits)
    then show "x = y" using keys vals xy by (auto simp: distinct_map inj_on_eq_iff)
  qed
  moreover have "distinct rows" using keys by (simp add: distinct_map)
  ultimately show ?thesis by (simp add: set_rows_def distinct_map comp_def)
qed

lemma same_key: "distinct (map key rows) \<Longrightarrow> x \<in> set rows \<Longrightarrow> y \<in> set rows \<Longrightarrow> key x = key y \<Longrightarrow> x = y"
  unfolding distinct_map by (blast dest: inj_onD)

lemma set_set_rows: "set (set_rows p f rows) = (\<lambda>r. if p r then f r else r) ` set rows"
  by (simp add: set_rows_def)

lemma set_drop_rows [row_simps]: "set (drop_rows p rows) = {r \<in> set rows. \<not> p r}"
  by (auto simp: drop_rows_def)

lemma distinct_map_drop_rows: "distinct (map key rows) \<Longrightarrow> distinct (map key (drop_rows p rows))"
  by (simp add: drop_rows_def distinct_map_filter)

lemma distinct_map_snoc: "distinct (map key rows) \<Longrightarrow> key r \<notin> key ` set rows \<Longrightarrow> distinct (map key (rows @ [r]))"
  by simp

lemma count_rows_append [row_simps]: "count_rows p (xs @ ys) = count_rows p xs + count_rows p ys"
  by (simp add: count_rows_def)

lemma count_rows_drop_le: "count_rows p (drop_rows q rows) \<le> count_rows p rows"
  by (induction rows) auto

lemma count_rows_set_le:
  "(\<And>r. r \<in> set rows \<Longrightarrow> q r \<Longrightarrow> p (f r) \<Longrightarrow> p r) \<Longrightarrow> count_rows p (set_rows q f rows) \<le> count_rows p rows"
  by (induction rows) (auto simp: le_SucI)

lemma count_rows_eq_0_iff [row_simps]: "count_rows p rows = 0 \<longleftrightarrow> (\<forall>r \<in> set rows. \<not> p r)"
  by (induction rows) auto

lemma count_rows_pos_iff [row_simps]: "0 < count_rows p rows \<longleftrightarrow> (\<exists>r \<in> set rows. p r)"
  by (induction rows) auto

lemma some_row_iff [row_simps]: "some_row p rows \<longleftrightarrow> (\<exists>r \<in> set rows. p r)"
  by (simp add: some_row_def list_ex_iff)

lemma set_order_desc [simp]: "set (order_desc k rows) = set rows"
  by (simp add: order_desc_def)

lemma distinct_map_order_desc [simp]: "distinct (map g (order_desc k rows)) = distinct (map g rows)"
proof -
  have "mset (map g (order_desc k rows)) = mset (map g rows)"
    by (simp add: order_desc_def)
  then show ?thesis by (metis mset_eq_imp_distinct_iff)
qed

lemma length_order_desc [simp]: "length (order_desc k rows) = length rows"
  by (simp add: order_desc_def)

lemma distinct_map_filter_rows [intro]: "distinct (map g rows) \<Longrightarrow> distinct (map g (filter p rows))"
  by (simp add: distinct_map_filter)

text \<open>
  A table of a state: \<open>rows\<close> reads it, \<open>over\<close> rewrites it, \<open>key\<close> is the primary key.  The laws
  are those of a record field; the lemmas are what the services rely on, whatever the table.
\<close>

locale db_table =
  fixes key :: "'r \<Rightarrow> 'k"
    and rows :: "'w \<Rightarrow> 'r list"
    and over :: "('r list \<Rightarrow> 'r list) \<Rightarrow> 'w \<Rightarrow> 'w"
  assumes rows_over: "rows (over f w) = f (rows w)"
    and over_over: "over f (over g w) = over (f \<circ> g) w"
begin

lemma look_insert:
  "k \<notin> key ` set (rows w) \<Longrightarrow> key r = k \<Longrightarrow>
     find_row key j (rows (over (\<lambda>rs. rs @ [r]) w)) = (if j = k then Some r else find_row key j (rows w))"
  by (auto simp: rows_over row_simps find_row_None_iff [symmetric] split: option.splits)

lemma look_update:
  "(\<And>r. key (f r) = key r) \<Longrightarrow>
     find_row key j (rows (over (set_rows (\<lambda>r. key r = k) f) w)) =
       (if j = k then map_option f (find_row key k (rows w)) else find_row key j (rows w))"
  by (cases "find_row key j (rows w)"; cases "j = k")
    (auto simp: rows_over find_row_set_rows dest: find_row_SomeD)

lemma look_delete:
  "distinct (map key (rows w)) \<Longrightarrow>
     find_row key j (rows (over (drop_rows (\<lambda>r. key r = k)) w)) =
       (if j = k then None else find_row key j (rows w))"
  by (cases "find_row key j (rows w)")
    (auto simp: rows_over find_row_drop_rows dest: find_row_SomeD)

lemma keys_insert:
  "distinct (map key (rows w)) \<Longrightarrow> key r \<notin> key ` set (rows w) \<Longrightarrow>
     distinct (map key (rows (over (\<lambda>rs. rs @ [r]) w)))"
  by (simp add: rows_over)

lemma keys_update:
  "distinct (map key (rows w)) \<Longrightarrow> (\<And>r. key (f r) = key r) \<Longrightarrow>
     distinct (map key (rows (over (set_rows p f) w)))"
  by (simp add: rows_over row_simps)

lemma keys_delete:
  "distinct (map key (rows w)) \<Longrightarrow> distinct (map key (rows (over (drop_rows p) w)))"
  by (simp add: rows_over distinct_map_drop_rows)

lemma update_update:
  "(\<And>r. key (g r) = key r) \<Longrightarrow>
     over (set_rows (\<lambda>r. key r = k) f) (over (set_rows (\<lambda>r. key r = k) g) w) =
       over (set_rows (\<lambda>r. key r = k) (f \<circ> g)) w"
proof -
  assume g: "\<And>r. key (g r) = key r"
  have "set_rows (\<lambda>r. key r = k) f \<circ> set_rows (\<lambda>r. key r = k) g = set_rows (\<lambda>r. key r = k) (f \<circ> g)"
    by (rule ext) (auto simp: set_rows_def g)
  then show ?thesis by (simp add: over_over)
qed

end

end
