(* ===== verification/Errors.thy ===== *)
theory Errors
  imports Prelude
begin

section \<open>Error codes, domain exceptions and the problem+json filter\<close>

text \<open>
  \<open>src/common/errors\<close> and \<open>src/common/filters/all-exceptions.filter.ts\<close>.  Every handler of
  the backend ends in a value or in one of the exceptions of \<open>app_error\<close>; the global filter
  renders an exception as an RFC-7807 document, whose \<open>code\<close> is the contract with clients.
  The human-readable detail texts are not modelled, except where they carry data.
\<close>

datatype error_code =
    AUTH_UNAUTHENTICATED | AUTH_FORBIDDEN | AUTH_PLUGIN_TOKEN_INVALID
  | ASSET_NOT_FOUND | ASSET_PUBLISH_BLOCKED | ASSET_ARCHIVE_BLOCKED
  | ASSET_CANNOT_CHANGE_ENGINE | ASSET_SLUG_TAKEN
  | VERSION_NOT_FOUND | VERSION_SEMVER_INVALID | VERSION_DUPLICATE
  | VERSION_NOT_LATEST_PUBLISH_FIRST | VERSION_CANNOT_CHANGE_SEMVER
  | FILE_UPLOAD_INIT_FAILED | FILE_UPLOAD_NOT_FOUND
  | LIBRARY_DUPLICATE
  | COMMENT_NOT_FOUND | COMMENT_DEPTH_EXCEEDED
  | COMMENT_LITE_TIPTAP_VIOLATION | COMMENT_LONG_TIPTAP_VIOLATION
  | REQUEST_NOT_FOUND | REQUEST_DUPLICATE_LINK
  | CATEGORY_NOT_FOUND | LICENSE_NOT_FOUND | USER_NOT_FOUND
  | IDEMPOTENCY_KEY_REUSED
  | CONFIRMATION_REQUIRED | CONFIRMATION_EXPIRED | RATE_LIMIT_EXCEEDED
  | ADMIN_CANNOT_REMOVE_LAST_ADMIN | ADMIN_CANNOT_DEMOTE_BOOTSTRAP
  | CATEGORY_IN_USE | LICENSE_IN_USE | TAG_IN_USE | FEATURED_ACTIVE_CAP_REACHED

fun code_string :: "error_code \<Rightarrow> string" where
  "code_string AUTH_UNAUTHENTICATED = ''auth.unauthenticated''"
| "code_string AUTH_FORBIDDEN = ''auth.forbidden''"
| "code_string AUTH_PLUGIN_TOKEN_INVALID = ''auth.plugin_token_invalid''"
| "code_string ASSET_NOT_FOUND = ''asset.not_found''"
| "code_string ASSET_PUBLISH_BLOCKED = ''asset.publish_blocked''"
| "code_string ASSET_ARCHIVE_BLOCKED = ''asset.archive_blocked''"
| "code_string ASSET_CANNOT_CHANGE_ENGINE = ''asset.cannot_change_engine''"
| "code_string ASSET_SLUG_TAKEN = ''asset.slug_taken''"
| "code_string VERSION_NOT_FOUND = ''version.not_found''"
| "code_string VERSION_SEMVER_INVALID = ''version.semver_invalid''"
| "code_string VERSION_DUPLICATE = ''version.duplicate''"
| "code_string VERSION_NOT_LATEST_PUBLISH_FIRST = ''version.not_latest_publish_first''"
| "code_string VERSION_CANNOT_CHANGE_SEMVER = ''version.cannot_change_semver''"
| "code_string FILE_UPLOAD_INIT_FAILED = ''file.upload_init_failed''"
| "code_string FILE_UPLOAD_NOT_FOUND = ''file.upload_not_found''"
| "code_string LIBRARY_DUPLICATE = ''library.duplicate''"
| "code_string COMMENT_NOT_FOUND = ''comment.not_found''"
| "code_string COMMENT_DEPTH_EXCEEDED = ''comment.depth_exceeded''"
| "code_string COMMENT_LITE_TIPTAP_VIOLATION = ''comment.lite_tiptap_violation''"
| "code_string COMMENT_LONG_TIPTAP_VIOLATION = ''comment.long_tiptap_violation''"
| "code_string REQUEST_NOT_FOUND = ''request.not_found''"
| "code_string REQUEST_DUPLICATE_LINK = ''request.duplicate_link''"
| "code_string CATEGORY_NOT_FOUND = ''category.not_found''"
| "code_string LICENSE_NOT_FOUND = ''license.not_found''"
| "code_string USER_NOT_FOUND = ''user.not_found''"
| "code_string IDEMPOTENCY_KEY_REUSED = ''idempotency.key_reused_different_body''"
| "code_string CONFIRMATION_REQUIRED = ''confirmation.required''"
| "code_string CONFIRMATION_EXPIRED = ''confirmation.expired''"
| "code_string RATE_LIMIT_EXCEEDED = ''rate_limit.exceeded''"
| "code_string ADMIN_CANNOT_REMOVE_LAST_ADMIN = ''admin.cannot_remove_last_admin''"
| "code_string ADMIN_CANNOT_DEMOTE_BOOTSTRAP = ''admin.cannot_demote_bootstrap''"
| "code_string CATEGORY_IN_USE = ''category.in_use''"
| "code_string LICENSE_IN_USE = ''license.in_use''"
| "code_string TAG_IN_USE = ''tag.in_use''"
| "code_string FEATURED_ACTIVE_CAP_REACHED = ''featured.active_cap_reached''"

record problem_field =
  pf_path :: string
  pf_code :: string

text \<open>
  \<open>DomainException\<close> and its four subclasses, a NestJS \<open>HttpException\<close> (by status), and any
  other thrown value: a \<open>TypeError\<close>, a Prisma error (by the constraint that failed) or an
  error of a remote service.
\<close>

datatype other_error =
    TypeError
  | UniqueViolation string
  | ForeignKeyViolation string
  | RecordNotFound string
  | RemoteFailure string

datatype app_error =
    NotFoundDomain error_code
  | ConflictDomain error_code "problem_field list option"
  | ForbiddenDomain error_code
  | BadRequestDomain error_code "problem_field list option"
  | PlainDomain nat error_code
  | HttpExc nat "problem_field list option"
  | OtherError other_error

abbreviation Conflict :: "error_code \<Rightarrow> app_error" where
  "Conflict c \<equiv> ConflictDomain c None"

abbreviation BadRequest :: "error_code \<Rightarrow> app_error" where
  "BadRequest c \<equiv> BadRequestDomain c None"

abbreviation Unauthorized :: app_error where
  "Unauthorized \<equiv> HttpExc 401 None"

abbreviation Forbidden :: app_error where
  "Forbidden \<equiv> HttpExc 403 None"

fun status_of :: "app_error \<Rightarrow> nat" where
  "status_of (NotFoundDomain _) = 404"
| "status_of (ConflictDomain _ _) = 409"
| "status_of (ForbiddenDomain _) = 403"
| "status_of (BadRequestDomain _ _) = 400"
| "status_of (PlainDomain n _) = n"
| "status_of (HttpExc n _) = n"
| "status_of (OtherError _) = 500"

fun domain_code :: "app_error \<Rightarrow> error_code option" where
  "domain_code (NotFoundDomain c) = Some c"
| "domain_code (ConflictDomain c _) = Some c"
| "domain_code (ForbiddenDomain c) = Some c"
| "domain_code (BadRequestDomain c _) = Some c"
| "domain_code (PlainDomain _ c) = Some c"
| "domain_code (HttpExc _ _) = None"
| "domain_code (OtherError _) = None"

subsection \<open>The filter\<close>

fun digit_char :: "nat \<Rightarrow> char" where
  "digit_char n = char_of (48 + n)"

fun show_nat :: "nat \<Rightarrow> string" where
  "show_nat n = (if n < 10 then [digit_char n] else show_nat (n div 10) @ [digit_char (n mod 10)])"

declare show_nat.simps [simp del]

record problem =
  p_type :: string
  p_title :: string
  p_status :: nat
  p_instance :: string
  p_code :: string
  p_fields :: "problem_field list option"

text \<open>The class names of the NestJS exceptions the code throws (\<open>exception.name\<close>).\<close>

fun http_exception_name :: "nat \<Rightarrow> string" where
  "http_exception_name n =
     (if n = 400 then ''BadRequestException''
      else if n = 401 then ''UnauthorizedException''
      else if n = 403 then ''ForbiddenException''
      else if n = 404 then ''NotFoundException''
      else ''HttpException'')"

text \<open>
  \<open>exception.constructor.name\<close> without the suffix \<open>Exception\<close>, for the domain exceptions.
\<close>

fun domain_title :: "app_error \<Rightarrow> string" where
  "domain_title (NotFoundDomain _) = ''NotFoundDomain''"
| "domain_title (ConflictDomain _ _) = ''ConflictDomain''"
| "domain_title (ForbiddenDomain _) = ''ForbiddenDomain''"
| "domain_title (BadRequestDomain _ _) = ''BadRequestDomain''"
| "domain_title (PlainDomain _ _) = ''Domain''"
| "domain_title (HttpExc n _) = http_exception_name n"
| "domain_title (OtherError _) = ''InternalServerError''"

fun domain_fields :: "app_error \<Rightarrow> problem_field list option" where
  "domain_fields (ConflictDomain _ fs) = fs"
| "domain_fields (BadRequestDomain _ fs) = fs"
| "domain_fields (HttpExc _ fs) = fs"
| "domain_fields _ = None"

definition to_problem :: "string \<Rightarrow> app_error \<Rightarrow> string \<Rightarrow> problem" where
  "to_problem base e inst =
     (case domain_code e of
        Some c \<Rightarrow>
          \<lparr>p_type = base @ ''/errors/'' @ code_string c, p_title = domain_title e,
           p_status = status_of e, p_instance = inst, p_code = code_string c,
           p_fields = domain_fields e\<rparr>
      | None \<Rightarrow>
          (case e of
             HttpExc n fs \<Rightarrow>
               (let code = ''http.'' @ show_nat n
                in \<lparr>p_type = base @ ''/errors/'' @ code, p_title = domain_title e,
                    p_status = n, p_instance = inst, p_code = code, p_fields = fs\<rparr>)
           | _ \<Rightarrow>
               \<lparr>p_type = base @ ''/errors/http.500'', p_title = ''InternalServerError'',
                p_status = 500, p_instance = inst, p_code = ''http.500'', p_fields = None\<rparr>))"

text \<open>The branch of the filter that logs at error level and reports to Sentry.\<close>

definition reported_to_sentry :: "problem \<Rightarrow> bool" where
  "reported_to_sentry p \<longleftrightarrow> 500 \<le> p_status p"

subsection \<open>The code of a problem identifies the error\<close>

lemma code_string_inj [simp]: "code_string c = code_string d \<longleftrightarrow> c = d"
  by (cases c; cases d; simp)

definition read_nat :: "string \<Rightarrow> nat" where
  "read_nat = foldl (\<lambda>a c. a * 10 + (of_char c - 48)) 0"

lemma read_show_nat [simp]: "read_nat (show_nat n) = n"
proof (induction n rule: show_nat.induct)
  case (1 n)
  show ?case
  proof (cases "n < 10")
    case True
    then show ?thesis by (simp add: show_nat.simps [of n] read_nat_def)
  next
    case False
    with 1 have "foldl (\<lambda>a c. a * 10 + (of_char c - 48)) 0 (show_nat (n div 10)) = n div 10"
      by (simp add: read_nat_def)
    with False show ?thesis by (simp add: show_nat.simps [of n] read_nat_def)
  qed
qed

lemma show_nat_inj [simp]: "show_nat m = show_nat n \<longleftrightarrow> m = n"
  by (metis read_show_nat)

lemma show_nat_nonempty [simp]: "show_nat n \<noteq> []"
  by (subst show_nat.simps) simp

lemma code_string_not_http: "code_string c \<noteq> ''http.'' @ xs"
  by (cases c) simp_all

lemma to_problem_status: "p_status (to_problem base e inst) = status_of e"
  by (cases e) (simp_all add: to_problem_def Let_def)

text \<open>
  The code in an error response identifies the domain error: a client that switches on it never
  mistakes one error for another, nor for a plain HTTP or internal error.
\<close>

theorem problem_code_identifies:
  "p_code (to_problem base e inst) = code_string c \<longleftrightarrow> domain_code e = Some c"
proof (cases "domain_code e")
  case None
  have "''http.'' @ show_nat n \<noteq> code_string c" for n
    using code_string_not_http [of c "show_nat n"] by metis
  moreover have "''http.500'' \<noteq> code_string c"
    using code_string_not_http [of c "''500''"] by auto
  ultimately show ?thesis using None by (cases e) (simp_all add: to_problem_def Let_def)
next
  case (Some d)
  then show ?thesis by (auto simp: to_problem_def)
qed

end
