(* ===== verification/Json.thy ===== *)
theory Json
  imports Errors "HOL-Library.AList"
begin

section \<open>JSON values, JSON.stringify and JSON.parse\<close>

text \<open>
  The values that cross the program's boundaries: TipTap documents, cursors, cached entries and
  JSON columns.  A JavaScript string is represented by the bytes of its UTF-8 form, as a
  \<open>string\<close>; an object is an association list in insertion order (\<open>AList.update\<close> is
  assignment to a property: in place when the key exists, appended otherwise).  Numbers are
  integers: the parser accepts the whole number syntax and keeps the integer part.

  \<open>json_text\<close> is \<open>JSON.stringify\<close> and \<open>json_parse\<close> is \<open>JSON.parse\<close>, \<open>None\<close> where it throws.
  The parser's fuel is twice the length of the text plus one, which is always enough
  (\<open>json_parse_fuel\<close>); \<open>json_parse_text\<close> is the round trip.
\<close>

datatype json =
    JNull
  | JBool bool
  | JNum int
  | JStr string
  | JArr "json list"
  | JObj "(string \<times> json) list"

fun get_prop :: "json \<Rightarrow> string \<Rightarrow> json option" where
  "get_prop (JObj fs) k = map_of fs k"
| "get_prop _ k = None"

fun truthy :: "json \<Rightarrow> bool" where
  "truthy JNull = False"
| "truthy (JBool b) = b"
| "truthy (JNum n) = (n \<noteq> 0)"
| "truthy (JStr s) = (s \<noteq> [])"
| "truthy _ = True"

subsection \<open>JSON.stringify\<close>

abbreviation quote_char :: char where "quote_char \<equiv> CHR 0x22"

abbreviation backslash :: char where "backslash \<equiv> CHR 0x5C"

fun hex_char :: "nat \<Rightarrow> char" where
  "hex_char n = (if n < 10 then char_of (48 + n) else char_of (87 + n))"

definition escape_char :: "char \<Rightarrow> string" where
  "escape_char c =
     (if c = quote_char then [backslash, quote_char]
      else if c = backslash then [backslash, backslash]
      else if c = CHR 0x08 then [backslash, CHR ''b'']
      else if c = CHR 0x09 then [backslash, CHR ''t'']
      else if c = CHR 0x0A then [backslash, CHR ''n'']
      else if c = CHR 0x0C then [backslash, CHR ''f'']
      else if c = CHR 0x0D then [backslash, CHR ''r'']
      else if of_char c < (32 :: nat) then
        [backslash, CHR ''u'', CHR ''0'', CHR ''0'',
         hex_char (of_char c div 16), hex_char (of_char c mod 16)]
      else [c])"

definition quote_string :: "string \<Rightarrow> string" where
  "quote_string s = quote_char # concat (map escape_char s) @ [quote_char]"

definition show_int :: "int \<Rightarrow> string" where
  "show_int n = (if n < 0 then CHR ''-'' # show_nat (nat (- n)) else show_nat (nat n))"

fun join_with :: "string \<Rightarrow> string list \<Rightarrow> string" where
  "join_with d [] = []"
| "join_with d [x] = x"
| "join_with d (x # y # xs) = x @ d @ join_with d (y # xs)"

fun json_text :: "json \<Rightarrow> string" where
  "json_text JNull = ''null''"
| "json_text (JBool b) = (if b then ''true'' else ''false'')"
| "json_text (JNum n) = show_int n"
| "json_text (JStr s) = quote_string s"
| "json_text (JArr vs) = CHR ''['' # join_with '','' (map json_text vs) @ '']''"
| "json_text (JObj fs) =
     CHR ''{'' # join_with '','' (map (\<lambda>p. quote_string (fst p) @ '':'' @ json_text (snd p)) fs) @ ''}''"

subsection \<open>JSON.parse\<close>

definition is_ws :: "char \<Rightarrow> bool" where
  "is_ws c \<longleftrightarrow> c = CHR 0x20 \<or> c = CHR 0x09 \<or> c = CHR 0x0A \<or> c = CHR 0x0D"

definition skip_ws :: "string \<Rightarrow> string" where
  "skip_ws s = dropWhile is_ws s"

definition is_digit :: "char \<Rightarrow> bool" where
  "is_digit c \<longleftrightarrow> (48 :: nat) \<le> of_char c \<and> of_char c < (58 :: nat)"

definition hex_val :: "char \<Rightarrow> nat option" where
  "hex_val c =
     (let n = of_char c :: nat in
      if 48 \<le> n \<and> n < 58 then Some (n - 48)
      else if 97 \<le> n \<and> n < 103 then Some (n - 87)
      else if 65 \<le> n \<and> n < 71 then Some (n - 55)
      else None)"

fun hex4 :: "char \<Rightarrow> char \<Rightarrow> char \<Rightarrow> char \<Rightarrow> nat option" where
  "hex4 a b c d =
     (case (hex_val a, hex_val b, hex_val c, hex_val d) of
        (Some w, Some x, Some y, Some z) \<Rightarrow> Some (((w * 16 + x) * 16 + y) * 16 + z)
      | _ \<Rightarrow> None)"

definition utf8_unit :: "nat \<Rightarrow> string" where
  "utf8_unit n =
     (if n < 128 then [char_of n]
      else if n < 2048 then [char_of (192 + n div 64), char_of (128 + n mod 64)]
      else [char_of (224 + n div 4096), char_of (128 + n div 64 mod 64), char_of (128 + n mod 64)])"

definition unescape :: "char \<Rightarrow> char option" where
  "unescape c =
     (if c = quote_char \<or> c = backslash \<or> c = CHR ''/'' then Some c
      else if c = CHR ''b'' then Some (CHR 0x08)
      else if c = CHR ''t'' then Some (CHR 0x09)
      else if c = CHR ''n'' then Some (CHR 0x0A)
      else if c = CHR ''f'' then Some (CHR 0x0C)
      else if c = CHR ''r'' then Some (CHR 0x0D)
      else None)"

definition prefixed :: "string \<Rightarrow> (string \<times> string) option \<Rightarrow> (string \<times> string) option" where
  "prefixed p r = map_option (\<lambda>(x, t). (p @ x, t)) r"

fun parse_chars :: "string \<Rightarrow> (string \<times> string) option" where
  "parse_chars [] = None"
| "parse_chars (c # cs) =
     (if c = quote_char then Some ([], cs)
      else if c = backslash then
        (case cs of
           [] \<Rightarrow> None
         | e # r \<Rightarrow>
             (if e = CHR ''u'' then
                (case r of
                   w # x # y # z # r' \<Rightarrow>
                     (case hex4 w x y z of
                        None \<Rightarrow> None
                      | Some n \<Rightarrow> prefixed (utf8_unit n) (parse_chars r'))
                 | _ \<Rightarrow> None)
              else (case unescape e of None \<Rightarrow> None | Some u \<Rightarrow> prefixed [u] (parse_chars r))))
      else if of_char c < (32 :: nat) then None
      else prefixed [c] (parse_chars cs))"

text \<open>An optional fraction and an optional exponent are read and dropped.\<close>

definition skip_fraction :: "string \<Rightarrow> string option" where
  "skip_fraction s =
     (case s of
        c # r \<Rightarrow>
          if c = CHR ''.'' then
            (if takeWhile is_digit r = [] then None else Some (dropWhile is_digit r))
          else Some s
      | [] \<Rightarrow> Some s)"

definition skip_exponent :: "string \<Rightarrow> string option" where
  "skip_exponent s =
     (case s of
        c # r \<Rightarrow>
          if c = CHR ''e'' \<or> c = CHR ''E'' then
            (let r' = (case r of
                         d # t \<Rightarrow> if d = CHR ''+'' \<or> d = CHR ''-'' then t else r
                       | [] \<Rightarrow> r)
             in if takeWhile is_digit r' = [] then None else Some (dropWhile is_digit r'))
          else Some s
      | [] \<Rightarrow> Some s)"

definition parse_unsigned :: "string \<Rightarrow> (nat \<times> string) option" where
  "parse_unsigned s =
     (let ds = takeWhile is_digit s; r = dropWhile is_digit s in
      if ds = [] \<or> (hd ds = CHR ''0'' \<and> tl ds \<noteq> []) then None
      else
        (case skip_fraction r of
           None \<Rightarrow> None
         | Some r1 \<Rightarrow>
             (case skip_exponent r1 of None \<Rightarrow> None | Some r2 \<Rightarrow> Some (read_nat ds, r2))))"

definition parse_number :: "string \<Rightarrow> (json \<times> string) option" where
  "parse_number s =
     (case s of
        c # r \<Rightarrow>
          if c = CHR ''-''
          then map_option (\<lambda>(n, t). (JNum (- int n), t)) (parse_unsigned r)
          else map_option (\<lambda>(n, t). (JNum (int n), t)) (parse_unsigned s)
      | [] \<Rightarrow> None)"

definition parse_word :: "string \<Rightarrow> json \<Rightarrow> string \<Rightarrow> (json \<times> string) option" where
  "parse_word w v s = (if take (length w) s = w then Some (v, drop (length w) s) else None)"

fun parse_value :: "nat \<Rightarrow> string \<Rightarrow> (json \<times> string) option"
and parse_elems :: "nat \<Rightarrow> string \<Rightarrow> (json list \<times> string) option"
and parse_members ::
  "nat \<Rightarrow> (string \<times> json) list \<Rightarrow> string \<Rightarrow> ((string \<times> json) list \<times> string) option"
where
  "parse_value 0 s = None"
| "parse_value (Suc n) s =
     (case skip_ws s of
        [] \<Rightarrow> None
      | c # r \<Rightarrow>
          if c = quote_char then map_option (\<lambda>(x, t). (JStr x, t)) (parse_chars r)
          else if c = CHR ''{'' then
            (case skip_ws r of
               [] \<Rightarrow> None
             | d # r' \<Rightarrow>
                 if d = CHR ''}'' then Some (JObj [], r')
                 else map_option (\<lambda>(fs, t). (JObj fs, t)) (parse_members n [] r))
          else if c = CHR ''['' then
            (case skip_ws r of
               [] \<Rightarrow> None
             | d # r' \<Rightarrow>
                 if d = CHR '']'' then Some (JArr [], r')
                 else map_option (\<lambda>(vs, t). (JArr vs, t)) (parse_elems n r))
          else if c = CHR ''n'' then parse_word ''null'' JNull (c # r)
          else if c = CHR ''t'' then parse_word ''true'' (JBool True) (c # r)
          else if c = CHR ''f'' then parse_word ''false'' (JBool False) (c # r)
          else parse_number (c # r))"
| "parse_elems 0 s = None"
| "parse_elems (Suc n) s =
     (case parse_value n s of
        None \<Rightarrow> None
      | Some (v, r) \<Rightarrow>
          (case skip_ws r of
             [] \<Rightarrow> None
           | c # r' \<Rightarrow>
               if c = CHR '','' then map_option (\<lambda>(vs, t). (v # vs, t)) (parse_elems n r')
               else if c = CHR '']'' then Some ([v], r')
               else None))"
| "parse_members 0 acc s = None"
| "parse_members (Suc n) acc s =
     (case skip_ws s of
        [] \<Rightarrow> None
      | c # r \<Rightarrow>
          if c \<noteq> quote_char then None
          else
            (case parse_chars r of
               None \<Rightarrow> None
             | Some (k, r1) \<Rightarrow>
                 (case skip_ws r1 of
                    [] \<Rightarrow> None
                  | d # r2 \<Rightarrow>
                      if d \<noteq> CHR '':'' then None
                      else
                        (case parse_value n r2 of
                           None \<Rightarrow> None
                         | Some (v, r3) \<Rightarrow>
                             (case skip_ws r3 of
                                [] \<Rightarrow> None
                              | e # r4 \<Rightarrow>
                                  if e = CHR '','' then parse_members n (AList.update k v acc) r4
                                  else if e = CHR ''}'' then Some (AList.update k v acc, r4)
                                  else None)))))"

definition json_parse :: "string \<Rightarrow> json option" where
  "json_parse s =
     (case parse_value (Suc (2 * length s)) s of
        None \<Rightarrow> None
      | Some (v, r) \<Rightarrow> if skip_ws r = [] then Some v else None)"

subsection \<open>The parser consumes its input, so its fuel is enough\<close>

lemma skip_ws_length: "length (skip_ws s) \<le> length s"
  by (simp add: skip_ws_def length_dropWhile_le)

lemma skip_ws_Cons: "skip_ws s = c # r \<Longrightarrow> length r < length s"
  by (metis Suc_le_lessD length_Cons skip_ws_length)

lemma parse_chars_shorter: "parse_chars s = Some (x, t) \<Longrightarrow> length t < length s"
proof (induction s arbitrary: x t rule: parse_chars.induct)
  case (2 c cs)
  show ?case
  proof (cases "c = quote_char \<or> c \<noteq> backslash")
    case True
    with 2 show ?thesis by (auto simp: prefixed_def split: if_splits dest!: less_SucI)
  next
    case False
    then obtain e r where cs: "cs = e # r" using 2 by (auto split: list.splits)
    show ?thesis
    proof (cases "e = CHR ''u''")
      case True
      with 2 False cs show ?thesis 
        by (auto simp: prefixed_def split: list.splits option.splits simp del: hex4.simps) force
    next
      case e: False
      with 2 False cs show ?thesis
        by (auto simp: prefixed_def split: option.splits) force
    qed
  qed
qed simp

lemma skip_fraction_length: "skip_fraction s = Some t \<Longrightarrow> length t \<le> length s"
  by (auto simp: skip_fraction_def split: list.splits if_splits intro: le_SucI length_dropWhile_le)

lemma skip_exponent_length: "skip_exponent s = Some t \<Longrightarrow> length t \<le> length s"
  by (auto simp: skip_exponent_def Let_def split: list.splits if_splits
      intro: le_SucI length_dropWhile_le)

lemma parse_unsigned_shorter: "parse_unsigned s = Some (n, t) \<Longrightarrow> length t < length s"
proof -
  assume p: "parse_unsigned s = Some (n, t)"
  then have "takeWhile is_digit s \<noteq> []" and "length t \<le> length (dropWhile is_digit s)"
    by (auto simp: parse_unsigned_def Let_def split: if_splits option.splits
        dest: skip_fraction_length skip_exponent_length intro: le_trans)
  moreover have "length s = length (takeWhile is_digit s) + length (dropWhile is_digit s)"
    by (metis length_append takeWhile_dropWhile_id)
  ultimately show ?thesis by (cases "takeWhile is_digit s") simp_all
qed

lemma parse_number_shorter: "parse_number s = Some (v, t) \<Longrightarrow> length t < length s"
  by (auto simp: parse_number_def split: list.splits if_splits dest!: parse_unsigned_shorter)

lemma parse_word_shorter: "parse_word w v s = Some (v', t) \<Longrightarrow> w \<noteq> [] \<Longrightarrow> length t < length s"
  by (cases s) (auto simp: parse_word_def split: if_splits)

lemma parse_members_SucE:
  assumes "parse_members (Suc n) acc s = Some (fs, t)"
  obtains r k r1 r2 v r3 e r4 where
    "skip_ws s = quote_char # r" "parse_chars r = Some (k, r1)" "skip_ws r1 = CHR '':'' # r2"
    "parse_value n r2 = Some (v, r3)" "skip_ws r3 = e # r4"
    "e = CHR '','' \<and> parse_members n (AList.update k v acc) r4 = Some (fs, t) \<or>
     e \<noteq> CHR '','' \<and> e = CHR ''}'' \<and> fs = AList.update k v acc \<and> t = r4"
proof -
  from assms obtain r k r1 where 1: "skip_ws s = quote_char # r" "parse_chars r = Some (k, r1)"
    by (auto split: list.splits if_splits option.splits)
  with assms obtain r2 v r3 where 2: "skip_ws r1 = CHR '':'' # r2" "parse_value n r2 = Some (v, r3)"
    by (auto split: list.splits if_splits option.splits)
  with assms 1 obtain e r4 where 3: "skip_ws r3 = e # r4" by (auto split: list.splits)
  with assms 1 2 show ?thesis by (intro that [OF 1 2 3]) (auto split: if_splits)
qed

lemma parse_shorter:
  "parse_value n s = Some (v, t) \<Longrightarrow> length t < length s"
  "parse_elems n s = Some (vs, t) \<Longrightarrow> length t < length s"
  "parse_members n acc s = Some (fs, t) \<Longrightarrow> length t < length s"
proof (induction n s and n s and n acc s arbitrary: v t and vs t and fs t
    rule: parse_value_parse_elems_parse_members.induct)
  case (2 n s)
  from 2(3) obtain c r where c: "skip_ws s = c # r" by (auto split: list.splits)
  then have r: "length r < length s" by (rule skip_ws_Cons)
  then show ?case using 2(3) c
    by (fastforce split: if_splits list.splits dest: skip_ws_Cons parse_chars_shorter 
        parse_word_shorter parse_number_shorter 2(1,2))
next
  case (4 n s)
  then obtain v' r where v: "parse_value n s = Some (v', r)" by (auto split: option.splits)
  with 4 obtain c r' where c: "skip_ws r = c # r'" by (auto split: list.splits)
  have "length r' < length s" using 4(1) [OF v] skip_ws_Cons [OF c] by simp
  with 4(2,3) v c show ?case by (fastforce split: if_splits)
next
  case (6 n acc s)
  from 6(3) obtain r k r1 r2 v r3 e r4 where *:
    "skip_ws s = quote_char # r" "parse_chars r = Some (k, r1)" "skip_ws r1 = CHR '':'' # r2"
    "parse_value n r2 = Some (v, r3)" "skip_ws r3 = e # r4"
    "e = CHR '','' \<and> parse_members n (AList.update k v acc) r4 = Some (fs, t) \<or>
     e \<noteq> CHR '','' \<and> e = CHR ''}'' \<and> fs = AList.update k v acc \<and> t = r4"
    by (rule parse_members_SucE)
  have "length r3 < length r2" by (rule 6(1)) (use * in auto)
  then have "length r4 < length s"
    using skip_ws_Cons [OF *(1)] parse_chars_shorter [OF *(2)] skip_ws_Cons [OF *(3)]
      skip_ws_Cons [OF *(5)] by simp
  moreover have "length t \<le> length r4"
    using * 6(2) by (auto dest: 6(2) [THEN less_imp_le, rotated -1])
  ultimately show ?case by simp
qed simp_all
lemma parse_fuel_step:
  "2 * length s < n \<Longrightarrow> parse_value (Suc n) s = parse_value n s"
  "2 * length s + 1 < n \<Longrightarrow> parse_elems (Suc n) s = parse_elems n s"
  "2 * length s < n \<Longrightarrow> parse_members (Suc n) acc s = parse_members n acc s"
proof (induction n arbitrary: s acc)
  case (Suc n)
  {
    case 1
    show ?case
    proof (cases "skip_ws s")
      case (Cons c r)
      then have r: "2 * length r + 1 < n" using skip_ws_Cons [OF Cons] 1 by simp
      have "parse_elems (Suc n) r = parse_elems n r" by (rule Suc.IH) (use r in simp)
      moreover have "parse_members (Suc n) [] r = parse_members n [] r"
        by (rule Suc.IH) (use r in simp)
      ultimately show ?thesis
        unfolding parse_value.simps(2) [of "Suc n" s] parse_value.simps(2) [of n s]
        by (simp only: Cons list.case)
    qed simp
  next
    case 2
    have v: "parse_value (Suc n) s = parse_value n s"
      using 2 by (intro Suc.IH) simp
    show ?case
    proof (cases "parse_value n s")
      case (Some p)
      obtain w r where p: "p = (w, r)" by (cases p)
      have "length r < length s" using Some p parse_shorter(1) by blast
      then have "parse_elems (Suc n) r' = parse_elems n r'" if "skip_ws r = c # r'" for c r'
        using 2 skip_ws_Cons [OF that] by (intro Suc.IH) simp
      with v Some p show ?thesis
        by (auto simp del: parse_value.simps parse_elems.simps simp: parse_elems.simps(2) split: list.splits)
    qed (use v in \<open>simp del: parse_value.simps\<close>)
  next
    case 3
    have v: "parse_value (Suc n) u = parse_value n u" if "length u < length s" for u
      using 3 that by (intro Suc.IH) simp
    have m: "parse_members (Suc n) a u = parse_members n a u" if "length u < length s" for u a
      using 3 that by (intro Suc.IH) simp
    have shorter: "length r4 < length s \<and> length r2 < length s"
      if "skip_ws s = c # r" "parse_chars r = Some (k, r1)" "skip_ws r1 = d # r2"
        "parse_value n r2 = Some (w, r3)" "skip_ws r3 = e # r4" for c r k r1 d r2 w r3 e r4
      using skip_ws_Cons [OF that(1)] parse_chars_shorter [OF that(2)] skip_ws_Cons [OF that(3)]
        parse_shorter(1) [OF that(4)] skip_ws_Cons [OF that(5)] by simp
    have r2: "length r2 < length s"
      if "skip_ws s = c # r" "parse_chars r = Some (k, r1)" "skip_ws r1 = d # r2" for c r k r1 d r2
      using skip_ws_Cons [OF that(1)] parse_chars_shorter [OF that(2)] skip_ws_Cons [OF that(3)]
      by simp
    show ?case
      unfolding parse_members.simps(2) [of "Suc n" acc s] parse_members.simps(2) [of n acc s]
      by (auto simp del: parse_value.simps parse_members.simps simp: v [OF r2] m
          split: list.splits option.splits dest: shorter)
  }
qed simp_all

lemma json_parse_fuel:
  "2 * length s < n \<Longrightarrow> parse_value n s = parse_value (Suc (2 * length s)) s"
proof (induction n)
  case (Suc n)
  then show ?case
  proof (cases "2 * length s < n")
    case True
    with Suc show ?thesis by (simp only: parse_fuel_step(1))
  next
    case False
    with Suc.prems have "n = 2 * length s" by simp
    then show ?thesis by simp
  qed
qed simp
subsection \<open>Parsing a printed value gives it back\<close>

lemma hex_val_hex_char: "d < 16 \<Longrightarrow> hex_val (hex_char d) = Some d"
  by (auto simp: hex_val_def Let_def)

lemma parse_chars_escape:
  "parse_chars (escape_char c @ r) = prefixed [c] (parse_chars r)"
proof -
  have "utf8_unit (of_char c) = [c]" if "of_char c < (32 :: nat)"
    using that by (simp add: utf8_unit_def)
  moreover have "(of_char c div 16 * 16 + of_char c mod 16 :: nat) = of_char c"
    by (rule div_mult_mod_eq)
  moreover have "of_char c div 16 < (16::nat)" if "of_char c < (32 :: nat)"
    using that by auto
  moreover have "hex_val CHR ''0'' = Some 0" by (simp add: hex_val_def)
  ultimately show ?thesis
    by (simp add: escape_char_def unescape_def hex_val_hex_char del: hex_char.simps)
qed

lemma parse_chars_quoted:
  "parse_chars (concat (map escape_char s) @ quote_char # r) = Some (s, r)"
  by (induction s) (simp_all add: parse_chars_escape prefixed_def del: parse_chars.simps(2), simp)

lemma is_digit_show_nat: "c \<in> set (show_nat n) \<Longrightarrow> is_digit c"
proof (induction n rule: show_nat.induct)
  case (1 n)
  then show ?case
    by (cases "n < 10") (auto simp: show_nat.simps [of n] is_digit_def)
qed

lemma hd_show_nat: "hd (show_nat n) = CHR ''0'' \<Longrightarrow> n = 0"
proof (induction n rule: show_nat.induct)
  case (1 n)
  show ?case
  proof (cases "n < 10")
    case True
    with 1(2) show ?thesis
      by (auto simp: show_nat.simps [of n] dest!: arg_cong [where f = "of_char :: char \<Rightarrow> nat"])
  next
    case False
    with 1 show ?thesis by (auto simp: show_nat.simps [of n])
  qed
qed

definition follows :: "string \<Rightarrow> bool" where
  "follows r \<longleftrightarrow> r = [] \<or> hd r \<in> {CHR '','', CHR '']'', CHR ''}''}"

lemma parse_unsigned_show_nat:
  assumes "follows r"
  shows "parse_unsigned (show_nat n @ r) = Some (n, r)"
proof -
  have r: "takeWhile is_digit r = [] \<and> dropWhile is_digit r = r \<and> skip_fraction r = Some r \<and> skip_exponent r = Some r"
    using assms by (cases r) (auto simp: follows_def is_digit_def skip_fraction_def skip_exponent_def)
  have tw: "takeWhile is_digit (show_nat n @ r) = show_nat n" "dropWhile is_digit (show_nat n @ r) = r"
    using r by (auto simp: is_digit_show_nat takeWhile_append2 dropWhile_append2)
  have "tl (show_nat n) = []" if "hd (show_nat n) = CHR ''0''"
    using hd_show_nat [OF that] by (simp add: show_nat.simps)
  then show ?thesis by (auto simp: parse_unsigned_def Let_def tw r)
qed

lemma parse_number_show_int: 
  assumes "follows r"
  shows "parse_number (show_int n @ r) = Some (JNum n, r)"
proof (cases "n < 0")
  case True
  then show ?thesis
    by (simp add: show_int_def parse_number_def parse_unsigned_show_nat [OF assms])
next
  case False
  obtain c cs where c: "show_nat (nat n) = c # cs" by (cases "show_nat (nat n)") auto
  then have "is_digit c" using is_digit_show_nat [of c "nat n"] by simp
  then have "c \<noteq> CHR ''-''" by (auto simp: is_digit_def)
  with False c parse_unsigned_show_nat [OF assms, of "nat n"] show ?thesis
    by (simp add: show_int_def parse_number_def)
qed

fun js_plain :: "json \<Rightarrow> bool" where
  "js_plain (JArr vs) = (\<forall>v \<in> set vs. js_plain v)"
| "js_plain (JObj fs) = (distinct (map fst fs) \<and> (\<forall>p \<in> set fs. js_plain (snd p)))"
| "js_plain _ = True"

text \<open>\<open>s\<close> is parsed as \<open>v\<close> followed by \<open>r\<close>, with any fuel from some bound on.\<close>

definition reads :: "(nat \<Rightarrow> string \<Rightarrow> ('v \<times> string) option) \<Rightarrow> string \<Rightarrow> 'v \<Rightarrow> string \<Rightarrow> bool" where
  "reads p s v r \<longleftrightarrow> (\<exists>N. \<forall>n \<ge> N. p n s = Some (v, r))"

lemma reads_SucI:
  assumes "reads p s v r" and "\<And>n. p n s = Some (v, r) \<Longrightarrow> q (Suc n) t = Some (w, u)"
  shows "reads q t w u"
proof -
  from assms(1) obtain N where N: "\<And>n. N \<le> n \<Longrightarrow> p n s = Some (v, r)" by (auto simp: reads_def)
  have "q n t = Some (w, u)" if "Suc N \<le> n" for n
    using that N [of "n - 1"] assms(2) [of "n - 1"] by (cases n) auto
  then show ?thesis by (auto simp: reads_def)
qed

lemma reads_SucI2:
  assumes "reads p s v r" and "reads p' s' v' r'"
    and "\<And>n. p n s = Some (v, r) \<Longrightarrow> p' n s' = Some (v', r') \<Longrightarrow> q (Suc n) t = Some (w, u)"
  shows "reads q t w u"
proof -
  from assms(1) obtain N where N: "\<And>n. N \<le> n \<Longrightarrow> p n s = Some (v, r)" by (auto simp: reads_def)
  from assms(2) obtain M where M: "\<And>n. M \<le> n \<Longrightarrow> p' n s' = Some (v', r')" by (auto simp: reads_def)
  have "q n t = Some (w, u)" if "Suc (max N M) \<le> n" for n
    using that N [of "n - 1"] M [of "n - 1"] assms(3) [of "n - 1"] by (cases n) auto
  then show ?thesis by (auto simp: reads_def)
qed

lemma reads_valueI: "(\<And>n. parse_value (Suc n) s = Some (v, r)) \<Longrightarrow> reads parse_value s v r"
  unfolding reads_def by (rule exI [of _ 1]) (auto simp: Suc_le_eq gr0_conv_Suc)

lemma skip_ws_non [simp]: "\<not> is_ws c \<Longrightarrow> skip_ws (c # r) = c # r"
  by (simp add: skip_ws_def)

lemma is_ws_simps [simp]:
  "\<not> is_ws quote_char" "\<not> is_ws CHR ''{''" "\<not> is_ws CHR ''}''" "\<not> is_ws CHR ''[''"
  "\<not> is_ws CHR '']''" "\<not> is_ws CHR '',''" "\<not> is_ws CHR '':''" "\<not> is_ws CHR ''n''"
  "\<not> is_ws CHR ''t''" "\<not> is_ws CHR ''f''" "\<not> is_ws CHR ''-''"
  by (simp_all add: is_ws_def)

lemma show_int_head: "\<exists>c cs. show_int n = c # cs \<and> (c = CHR ''-'' \<or> is_digit c)"
  by (cases "show_int n")
    (auto simp: show_int_def split: if_splits dest: is_digit_show_nat,
     metis is_digit_show_nat list.set_intros(1))

lemma json_text_head: "\<exists>c cs. json_text v = c # cs \<and> \<not> is_ws c \<and> c \<noteq> CHR '']''"
proof (cases v)
  case (JNum n)
  with show_int_head [of n] show ?thesis by (auto simp: is_digit_def is_ws_def)
qed (auto simp: quote_string_def)

lemma reads_number: 
  assumes "follows r"
  shows "reads parse_value (show_int n @ r) (JNum n) r"
proof -
  obtain c cs where c: "show_int n = c # cs" "c = CHR ''-'' \<or> is_digit c"
    using show_int_head by blast
  have "\<not> is_ws c \<and> c \<noteq> quote_char \<and> c \<notin> {CHR ''{'', CHR ''['', CHR ''n'', CHR ''t'', CHR ''f''}"
    using c(2) by (auto simp: is_digit_def is_ws_def)
  with parse_number_show_int [OF assms, of n] c(1) show ?thesis
    by (intro reads_valueI) simp
qed

lemma reads_elems:
  assumes "vs \<noteq> []" and "\<And>v r. v \<in> set vs \<Longrightarrow> follows r \<Longrightarrow> reads parse_value (json_text v @ r) v r"
  shows "reads parse_elems (join_with '','' (map json_text vs) @ CHR '']'' # r) vs r"
  using assms
proof (induction "'',''" "map json_text vs" arbitrary: vs rule: join_with.induct)
  case (2 x)
  then obtain v where vs: "vs = [v]" by auto
  have "follows (CHR '']'' # r)" by (simp add: follows_def)
  with 2 vs have "reads parse_value (json_text v @ CHR '']'' # r) v (CHR '']'' # r)" by simp
  then show ?case by (rule reads_SucI) (simp add: vs)
next
  case (3 x y xs)
  then obtain v w ws where vs: "vs = v # w # ws" and tl: "y # xs = map json_text (w # ws)" by auto
  let ?t = "join_with '','' (map json_text (w # ws)) @ CHR '']'' # r"
  have "reads parse_value (json_text v @ CHR '','' # ?t) v (CHR '','' # ?t)"
    using 3(4) vs by (simp add: follows_def)
  moreover have "reads parse_elems ?t (w # ws) r"
    using 3(1) [OF tl] 3(4) vs tl by auto
  ultimately show ?case by (rule reads_SucI2) (simp add: vs)
qed simp

lemma alist_update_new: "k \<notin> fst ` set acc \<Longrightarrow> AList.update k v acc = acc @ [(k, v)]"
  by (induction acc) auto

abbreviation member_text :: "string \<times> json \<Rightarrow> string" where
  "member_text p \<equiv> quote_string (fst p) @ '':'' @ json_text (snd p)"

lemma reads_members:
  assumes "fs \<noteq> []" and "distinct (map fst (acc @ fs))"
    and "\<And>p r. p \<in> set fs \<Longrightarrow> follows r \<Longrightarrow> reads parse_value (json_text (snd p) @ r) (snd p) r"
  shows "reads (\<lambda>n. parse_members n acc) (join_with '','' (map member_text fs) @ CHR ''}'' # r) (acc @ fs) r"
  using assms
proof (induction "'',''" "map member_text fs" arbitrary: fs acc rule: join_with.induct)
  case (2 x)
  then obtain k v where fs: "fs = [(k, v)]" by auto
  have "reads parse_value (json_text v @ CHR ''}'' # r) v (CHR ''}'' # r)"
    using 2 fs by (auto simp: follows_def)
  then show ?case
    by (rule reads_SucI) (use 2 in \<open>simp add: fs quote_string_def parse_chars_quoted alist_update_new\<close>)
next
  case (3 x y xs)
  then obtain k v w ws where fs: "fs = (k, v) # w # ws" and tl: "y # xs = map member_text (w # ws)" 
    by auto
  let ?t = "join_with '','' (map member_text (w # ws)) @ CHR ''}'' # r"
  have "reads parse_value (json_text v @ CHR '','' # ?t) v (CHR '','' # ?t)"
    using 3(5) [of "(k, v)"] fs by (simp add: follows_def)
  moreover have "reads (\<lambda>n. parse_members n (acc @ [(k, v)])) ?t (acc @ [(k, v)] @ w # ws) r"
    using 3(1) [OF tl, of "acc @ [(k, v)]"] 3(4,5) fs tl by auto
  ultimately show ?case
    by (rule reads_SucI2) (use 3(4) in \<open>simp add: fs quote_string_def parse_chars_quoted alist_update_new\<close>)
qed simp


lemma reads_json_text: "js_plain v \<Longrightarrow> follows r \<Longrightarrow> reads parse_value (json_text v @ r) v r"
proof (induction v arbitrary: r)
  case JNull
  show ?case by (rule reads_valueI) (simp add: parse_word_def)
next
  case (JBool b)
  show ?case by (cases b) (auto intro!: reads_valueI simp: parse_word_def)
next
  case (JNum n)
  then show ?case by (simp add: reads_number)
next
  case (JStr s)
  show ?case by (rule reads_valueI) (simp add: quote_string_def parse_chars_quoted)
next
  case (JArr vs)
  show ?case
  proof (cases "vs = []")
    case True
    then show ?thesis by (intro reads_valueI) simp
  next
    case False
    let ?t = "join_with '','' (map json_text vs) @ CHR '']'' # r"
    have e: "reads parse_elems ?t vs r"
      using JArr by (intro reads_elems [OF False]) simp_all
    obtain w ws where vs: "vs = w # ws" using False by (cases vs) auto
    obtain c cs where c: "skip_ws ?t = c # cs" "c \<noteq> CHR '']''"
      using json_text_head [of w] by (cases ws) (auto simp: vs)
    show ?thesis
      by (rule reads_SucI [OF e]) (use c in simp)
  qed
next
  case (JObj fs)
  show ?case
  proof (cases "fs = []")
    case True
    then show ?thesis by (intro reads_valueI) simp
  next
    case False
    let ?t = "join_with '','' (map member_text fs) @ CHR ''}'' # r"
    have e: "reads (\<lambda>n. parse_members n []) ?t ([] @ fs) r"
    proof (rule reads_members [OF False])
      show "distinct (map fst ([] @ fs))" using JObj.prems by simp
      fix p q assume p: "p \<in> set fs" "follows q"
      have "snd p \<in> Basic_BNFs.snds p" by (simp add: snds.simps)
      with p JObj.IH [of p "snd p" q] JObj.prems
      show "reads parse_value (json_text (snd p) @ q) (snd p) q" by simp
    qed
    obtain p ps where fs: "fs = p # ps" using False by (cases fs) auto
    have c: "\<exists>cs. ?t = quote_char # cs"
      by (cases ps) (simp_all add: fs quote_string_def)
    show ?thesis
      by (rule reads_SucI [OF e]) (use c in auto)
  qed
qed

lemma json_parse_text: 
  assumes "js_plain v"
  shows "json_parse (json_text v) = Some v"
proof -
  let ?s = "json_text v"
  from reads_json_text [OF assms, of "[]"] obtain N
    where N: "\<And>n. N \<le> n \<Longrightarrow> parse_value n ?s = Some (v, [])"
    by (auto simp: reads_def follows_def)
  have "parse_value (max N (Suc (2 * length ?s))) ?s = parse_value (Suc (2 * length ?s)) ?s"
    by (rule json_parse_fuel) simp
  with N [of "max N (Suc (2 * length ?s))"] have "parse_value (Suc (2 * length ?s)) ?s = Some (v, [])"
    by simp
  then show ?thesis unfolding json_parse_def by (simp add: skip_ws_def)
qed
end
