(* ===== verification/Cursor.thy ===== *)
theory Cursor
  imports Json
begin

section \<open>Cursor pagination\<close>

text \<open>
  \<open>src/common/pagination\<close>: a cursor is the base64url form of the JSON text of
  \<open>{ createdAt, id }\<close>.  Every list endpoint asks the database for one row more than the page,
  reports \<open>hasMore\<close> when it got it, and hands out the cursor of the last row it returns.

  Bytes are characters; base64 works on their codes below 256.  The locale \<open>paged_listing\<close> is
  the contract the list services share: a listing with distinct ids, read a page at a time.
  Its lemma \<open>walk_complete\<close> says that following the cursors visits the whole listing once, in order.
\<close>

subsection \<open>base64url\<close>

definition b64_char :: "nat \<Rightarrow> char" where
  "b64_char n =
     (if n < 26 then char_of (65 + n)
      else if n < 52 then char_of (71 + n)
      else if n < 62 then char_of (n - 4)
      else if n = 62 then CHR ''-'' else CHR ''_'')"

text \<open>
  Node reads both base64 alphabets and skips every other character, padding included.
\<close>

definition b64_val :: "char \<Rightarrow> nat option" where
  "b64_val c =
     (let n = of_char c :: nat in
      if 65 \<le> n \<and> n < 91 then Some (n - 65)
      else if 97 \<le> n \<and> n < 123 then Some (n - 71)
      else if 48 \<le> n \<and> n < 58 then Some (n + 4)
      else if c = CHR ''-'' \<or> c = CHR ''+'' then Some 62
      else if c = CHR ''_'' \<or> c = CHR ''/'' then Some 63
      else None)"

fun b64_encode_codes :: "nat list \<Rightarrow> nat list" where
  "b64_encode_codes (a # b # c # xs) =
     a div 4 # (a mod 4 * 16 + b div 16) # (b mod 16 * 4 + c div 64) # c mod 64 # b64_encode_codes xs"
| "b64_encode_codes [a, b] = [a div 4, a mod 4 * 16 + b div 16, b mod 16 * 4]"
| "b64_encode_codes [a] = [a div 4, a mod 4 * 16]"
| "b64_encode_codes [] = []"

fun b64_decode_codes :: "nat list \<Rightarrow> nat list" where
  "b64_decode_codes (w # x # y # z # xs) =
     (w * 4 + x div 16) # (x mod 16 * 16 + y div 4) # (y mod 4 * 64 + z) # b64_decode_codes xs"
| "b64_decode_codes [w, x, y] = [w * 4 + x div 16, x mod 16 * 16 + y div 4]"
| "b64_decode_codes [w, x] = [w * 4 + x div 16]"
| "b64_decode_codes [w] = []"
| "b64_decode_codes [] = []"

definition to_base64url :: "string \<Rightarrow> string" where
  "to_base64url s = map b64_char (b64_encode_codes (map of_char s))"

definition from_base64url :: "string \<Rightarrow> string" where
  "from_base64url s = map char_of (b64_decode_codes (List.map_filter b64_val s))"

lemma b64_val_char: "n < 64 \<Longrightarrow> b64_val (b64_char n) = Some n"
  by (auto simp: b64_val_def b64_char_def Let_def)

lemma b64_encode_codes_bound: "\<forall>a \<in> set xs. a < 256 \<Longrightarrow> n \<in> set (b64_encode_codes xs) \<Longrightarrow> n < 64"
  by (induction xs rule: b64_encode_codes.induct) auto

lemma b64_decode_encode_codes:
  "\<forall>a \<in> set xs. a < 256 \<Longrightarrow> b64_decode_codes (b64_encode_codes xs) = xs"
  by (induction xs rule: b64_encode_codes.induct) auto

lemma map_filter_b64: "\<forall>n \<in> set ns. n < 64 \<Longrightarrow> List.map_filter b64_val (map b64_char ns) = ns"
  by (induction ns) (simp_all add: List.map_filter_simps b64_val_char)

lemma from_to_base64url [simp]: "from_base64url (to_base64url s) = s"
proof -
  have b: "\<forall>a \<in> set (map of_char s). a < (256 :: nat)" by auto
  have "\<forall>n \<in> set (b64_encode_codes (map of_char s)). n < 64"
    using b64_encode_codes_bound [OF b] by blast
  then show ?thesis
    by (simp add: from_base64url_def to_base64url_def map_filter_b64 b64_decode_encode_codes [OF b])
qed

lemma b64_encode_codes_eq_Nil [simp]: "b64_encode_codes xs = [] \<longleftrightarrow> xs = []"
  by (cases xs rule: b64_encode_codes.cases) simp_all

lemma to_base64url_eq_Nil [simp]: "to_base64url s = [] \<longleftrightarrow> s = []"
  by (simp add: to_base64url_def)

subsection \<open>Encoding and decoding a cursor\<close>

record cursor =
  cur_createdAt :: string
  cur_id :: string

definition cursor_json :: "cursor \<Rightarrow> json" where
  "cursor_json c = JObj [(''createdAt'', JStr (cur_createdAt c)), (''id'', JStr (cur_id c))]"

definition encode_cursor :: "cursor \<Rightarrow> string" where
  "encode_cursor c = to_base64url (json_text (cursor_json c))"

definition decode_cursor :: "string option \<Rightarrow> app_error + cursor option" where
  "decode_cursor raw =
     (case raw of
        None \<Rightarrow> Inr None
      | Some s \<Rightarrow>
          if s = [] then Inr None
          else
            (case json_parse (from_base64url s) of
               None \<Rightarrow> Inl (HttpExc 400 None)
             | Some v \<Rightarrow>
                 (case (get_prop v ''createdAt'', get_prop v ''id'') of
                    (Some (JStr c), Some (JStr i)) \<Rightarrow> Inr (Some \<lparr>cur_createdAt = c, cur_id = i\<rparr>)
                  | _ \<Rightarrow> Inl (HttpExc 400 None))))"

lemma json_text_obj_nonempty: "json_text (JObj fs) \<noteq> []"
  by simp

lemma decode_encode_cursor_Some:
  "decode_cursor (Some (encode_cursor c)) = Inr (Some c)"
proof -
  have p: "json_parse (json_text (cursor_json c)) = Some (cursor_json c)"
    by (rule json_parse_text) (simp add: cursor_json_def)
  have "encode_cursor c \<noteq> []"
    by (simp add: encode_cursor_def cursor_json_def)
  then show ?thesis
    unfolding decode_cursor_def by (simp add: encode_cursor_def p) (simp add: cursor_json_def)
qed

lemma decode_cursor_error_400: "decode_cursor raw = Inl e \<Longrightarrow> status_of e = 400"
  by (auto simp: decode_cursor_def split: option.splits if_splits json.splits)

subsection \<open>Page sizes\<close>

definition DEFAULT_PAGE_SIZE :: int where "DEFAULT_PAGE_SIZE = 24"

definition MAX_PAGE_SIZE :: int where "MAX_PAGE_SIZE = 100"

definition resolve_page_size :: "int option \<Rightarrow> nat" where
  "resolve_page_size raw =
     (case raw of
        None \<Rightarrow> nat DEFAULT_PAGE_SIZE
      | Some n \<Rightarrow>
          if n = 0 \<or> n < 1 then nat DEFAULT_PAGE_SIZE else nat (min n MAX_PAGE_SIZE))"

lemma resolve_page_size_bounds:
  "1 \<le> resolve_page_size raw \<and> resolve_page_size raw \<le> 100"
  by (auto simp: resolve_page_size_def DEFAULT_PAGE_SIZE_def MAX_PAGE_SIZE_def split: option.splits)

text \<open>The bound \<open>Math.min(Math.max(limit ?? d, 1), m)\<close> of the comment and notification lists.\<close>

definition clamp_page_size :: "int \<Rightarrow> int \<Rightarrow> int option \<Rightarrow> nat" where
  "clamp_page_size d m raw = nat (min (max (case raw of None \<Rightarrow> d | Some n \<Rightarrow> n) 1) m)"

lemma clamp_page_size_bounds:
  "1 \<le> m \<Longrightarrow> 1 \<le> clamp_page_size d m raw \<and> clamp_page_size d m raw \<le> nat m"
  by (auto simp: clamp_page_size_def split: option.splits)

subsection \<open>Timestamps: Date.toISOString\<close>

text \<open>Milliseconds since 1970, for the years 0 to 9999.\<close>

definition civil_of_days :: "int \<Rightarrow> int \<times> int \<times> int" where
  "civil_of_days days =
     (let z = days + 719468; era = z div 146097; doe = z - era * 146097;
          yoe = (doe - doe div 1460 + doe div 36524 - doe div 146096) div 365;
          doy = doe - (365 * yoe + yoe div 4 - yoe div 100);
          mp = (5 * doy + 2) div 153;
          d = doy - (153 * mp + 2) div 5 + 1;
          m = (if mp < 10 then mp + 3 else mp - 9);
          y = yoe + era * 400 + (if m \<le> 2 then 1 else 0)
      in (y, m, d))"

definition pad :: "nat \<Rightarrow> int \<Rightarrow> string" where
  "pad w n = (let s = show_nat (nat n) in replicate (w - length s) CHR ''0'' @ s)"

definition iso_string :: "int \<Rightarrow> string" where
  "iso_string ms =
     (let days = ms div 86400000; r = ms mod 86400000; (y, m, d) = civil_of_days days
      in pad 4 y @ ''-'' @ pad 2 m @ ''-'' @ pad 2 d @ ''T'' @ pad 2 (r div 3600000) @ '':'' @
         pad 2 (r div 60000 mod 60) @ '':'' @ pad 2 (r div 1000 mod 60) @ ''.'' @
         pad 3 (r mod 1000) @ ''Z'')"

subsection \<open>A page of a listing\<close>

record 'r page =
  pg_items :: "'r list"
  pg_nextCursor :: "string option"
  pg_hasMore :: bool

text \<open>
  \<open>buildPage\<close>: the rows were fetched with one more than the page size.  \<open>mk\<close> makes the cursor
  of a row.
\<close>

definition build_page :: "('r \<Rightarrow> cursor) \<Rightarrow> 'r list \<Rightarrow> nat \<Rightarrow> 'r page" where
  "build_page mk rows pageSize =
     (let hasMore = pageSize < length rows;
          items = (if hasMore then take pageSize rows else rows)
      in \<lparr>pg_items = items,
          pg_nextCursor =
            (if hasMore \<and> items \<noteq> [] then Some (encode_cursor (mk (last items))) else None),
          pg_hasMore = hasMore\<rparr>)"

text \<open>
  The query \<open>findMany({ take, skip: 1, cursor: { id } })\<close>: the rows after the one with the
  cursor's id, in the listing's order; nothing when that row is gone.
\<close>

definition after_cursor :: "('r \<Rightarrow> string) \<Rightarrow> cursor option \<Rightarrow> 'r list \<Rightarrow> 'r list" where
  "after_cursor key cur rows =
     (case cur of
        None \<Rightarrow> rows
      | Some c \<Rightarrow> tl (dropWhile (\<lambda>r. key r \<noteq> cur_id c) rows))"

definition list_page ::
  "('r \<Rightarrow> string) \<Rightarrow> ('r \<Rightarrow> cursor) \<Rightarrow> nat \<Rightarrow> string option \<Rightarrow> 'r list \<Rightarrow> app_error + 'r page" where
  "list_page key mk limit raw rows =
     (case decode_cursor raw of
        Inl e \<Rightarrow> Inl e
      | Inr cur \<Rightarrow> Inr (build_page mk (take (limit + 1) (after_cursor key cur rows)) limit))"

text \<open>A client that follows the cursors until there is no next one.\<close>

fun walk_pages ::
  "nat \<Rightarrow> ('r \<Rightarrow> string) \<Rightarrow> ('r \<Rightarrow> cursor) \<Rightarrow> nat \<Rightarrow> string option \<Rightarrow> 'r list \<Rightarrow> 'r list option" where
  "walk_pages 0 key mk limit raw rows = None"
| "walk_pages (Suc n) key mk limit raw rows =
     (case list_page key mk limit raw rows of
        Inl e \<Rightarrow> None
      | Inr p \<Rightarrow>
          (case pg_nextCursor p of
             None \<Rightarrow> Some (pg_items p)
           | Some c \<Rightarrow> map_option ((@) (pg_items p)) (walk_pages n key mk limit (Some c) rows)))"

lemma after_cursor_split:
  assumes "distinct (map key (xs @ y # zs))"
  shows "after_cursor key (Some \<lparr>cur_createdAt = c, cur_id = key y\<rparr>) (xs @ y # zs) = zs"
proof -
  have "\<forall>x \<in> set xs. key x \<noteq> key y" using assms by (auto simp: image_iff)
  then have "dropWhile (\<lambda>r. key r \<noteq> key y) (xs @ y # zs) = y # zs"
    by (induction xs) simp_all
  then show ?thesis by (simp add: after_cursor_def)
qed

lemma build_page_items_length: "length (pg_items (build_page mk rows n)) \<le> n"
  by (simp add: build_page_def Let_def)

lemma build_page_take:
  "pg_items (build_page mk (take (n + 1) rows) n) = take n rows \<and>
   (pg_hasMore (build_page mk (take (n + 1) rows) n) \<longleftrightarrow> n < length rows)"
  by (auto simp: build_page_def Let_def)

locale paged_listing =
  fixes key :: "'r \<Rightarrow> string"
    and mk :: "'r \<Rightarrow> cursor"
    and listing :: "'q \<Rightarrow> 'r list"
    and valid :: "'q \<Rightarrow> bool"
  assumes ids_distinct: "valid q \<Longrightarrow> distinct (map key (listing q))"
    and cursor_id: "cur_id (mk r) = key r"
begin

lemma page_of_suffix:
  assumes "valid q" and q: "listing q = xs @ y # zs" and "0 < limit"
  shows "list_page key mk limit (Some (encode_cursor (mk y))) (listing q) =
           Inr (build_page mk (take (limit + 1) zs) limit)"
proof -
  have "distinct (map key (xs @ y # zs))" using ids_distinct [OF assms(1)] q by simp
  from after_cursor_split [OF this, of "cur_createdAt (mk y)"]
  have "after_cursor key (Some (mk y)) (xs @ y # zs) = zs"
    by (metis (full_types) cursor.surjective cursor_id old.unit.exhaust)
  then show ?thesis by (simp add: list_page_def decode_encode_cursor_Some q)
qed

lemma walk_from:
  assumes "valid q" and "0 < limit" and "listing q = xs @ y # zs" and "length zs < n"
  shows "walk_pages n key mk limit (Some (encode_cursor (mk y))) (listing q) = Some zs"
  using assms(3,4)
proof (induction n arbitrary: xs y zs)
  case (Suc n)
  note page = page_of_suffix [OF assms(1) Suc.prems(1) assms(2)]
  show ?case
  proof (cases "limit < length zs")
    case False
    then show ?thesis by (simp add: page build_page_def Let_def)
  next
    case True
    let ?is = "take limit zs" and ?r = "drop limit zs"
    have ne: "?is \<noteq> []" using assms(2) True by auto
    have "zs = butlast ?is @ last ?is # ?r"
      using ne by (metis append_butlast_last_id append_Cons append_Nil append.assoc append_take_drop_id)
    with Suc.prems(1) have split: "listing q = (xs @ y # butlast ?is) @ last ?is # ?r"
      by (metis append.assoc append_Cons)
    have "walk_pages n key mk limit (Some (encode_cursor (mk (last ?is)))) (listing q) = Some ?r"
      by (rule Suc.IH [OF split]) (use Suc.prems(2) True assms(2) in simp)
    then show ?thesis using True ne
      by (simp add: page build_page_def Let_def min_def)
  qed
qed simp

lemma walk_complete:
  assumes "valid q" and "0 < limit"
  shows "walk_pages (Suc (length (listing q))) key mk limit None (listing q) = Some (listing q)"
proof (cases "limit < length (listing q)")
  case False
  then show ?thesis
    by (simp add: list_page_def decode_cursor_def after_cursor_def build_page_def Let_def)
next
  case True
  let ?is = "take limit (listing q)" and ?r = "drop limit (listing q)"
  have ne: "?is \<noteq> []" using assms(2) True by auto
  have split: "listing q = butlast ?is @ last ?is # ?r"
    using ne by (metis append_butlast_last_id append_Cons append_Nil append.assoc append_take_drop_id)
  have "walk_pages (length (listing q)) key mk limit (Some (encode_cursor (mk (last ?is)))) (listing q)
          = Some ?r"
    by (rule walk_from [OF assms split]) (use True assms(2) in simp)
  then show ?thesis using True ne
    by (simp add: list_page_def decode_cursor_def after_cursor_def build_page_def Let_def)
qed

end

text \<open>
  The cursor that a page hands out is read back as it was, whatever the id and time it holds; an
  unreadable cursor is a status 400 and never another error.
\<close>

theorem cursor_round_trip:
  "decode_cursor (Some (encode_cursor c)) = Inr (Some c) \<and>
   (\<forall>raw e. decode_cursor raw = Inl e \<longrightarrow> status_of e = 400)"
  using decode_encode_cursor_Some decode_cursor_error_400 by blast

theorem cursor_round_trip_witness:
  "decode_cursor (Some (encode_cursor \<lparr>cur_createdAt = iso_string 0, cur_id = ''c1''\<rparr>)) =
     Inr (Some \<lparr>cur_createdAt = iso_string 0, cur_id = ''c1''\<rparr>)"
  using cursor_round_trip [of "\<lparr>cur_createdAt = iso_string 0, cur_id = ''c1''\<rparr>"] by blast

end
