(* ===== verification/Schema.thy ===== *)
theory Schema
  imports Cursor
begin

section \<open>The database schema and the state of the backend\<close>

text \<open>
  \<open>prisma/schema.prisma\<close> as records, one per table, and the \<open>world\<close> the services work on: the
  tables, the Redis keys, the jobs handed to the queues and the objects of the bucket.

  A timestamp is an integer of milliseconds; an id is a string the caller of an operation
  supplies where the schema says \<open>@default(cuid())\<close>.  The tables are lists of rows in insertion
  order.  \<open>users_ok\<close>, \<open>assets_ok\<close> and their like are the unique constraints that the database enforces.
\<close>

subsection \<open>Enumerations\<close>

datatype locale_code = LEn | LId

datatype asset_engine =
    UNITY | UNREAL | BLENDER | STANDALONE_3D | AUDIO_ENGINE | IMAGE_ENGINE | VIDEO_ENGINE
  | OTHER_ENGINE | ENGINE_AGNOSTIC

datatype asset_status = DRAFT | PUBLISHED | ARCHIVED | DELETED

datatype analysis_status = PENDING | ANALYZING | READY | FAILED

datatype file_kind =
    UNITYPACKAGE | UPLUGIN | UPROJECT | FBX | OBJ | GLB | GLTF | BLEND | MAYA | TEXTURE_2D
  | SPRITE | AUDIO | VIDEO | ANIMATION | SHADER | SCRIPT_CS | SCRIPT_CPP | SCRIPT_PY
  | DOCUMENT | ARCHIVE | OTHER_KIND

datatype comment_kind = COMMENT | ISSUE

datatype issue_status = OPEN | ACKNOWLEDGED | RESOLVED

datatype report_category = MALICIOUS_FILE | BROKEN_ASSET

datatype report_status = R_OPEN | R_REVIEWING | R_ACTIONED | R_DISMISSED

datatype request_status = SENT | IN_REVIEW | Q_PENDING | APPROVED | REJECTED

datatype download_source = WEB | UNITY_PLUGIN | UNREAL_PLUGIN

datatype notification_type =
    COMMENT_CREATED | COMMENT_REPLY | ISSUE_CREATED | ISSUE_STATUS_CHANGED | REQUEST_CREATED
  | REQUEST_STATUS_CHANGED | REPORT_CREATED | REPORT_RECEIVED_FOR_YOUR_ASSET
  | FEATURED_FEATURED | VERSION_PUBLISHED | ANALYZER_FAILED | ADMIN_PROMOTED | ADMIN_DEMOTED

subsection \<open>Rows\<close>

record user_row =
  u_id :: string
  u_sub :: string
  u_email :: string
  u_name :: string
  u_locale :: locale_code
  u_isAdmin :: bool
  u_createdAt :: int
  u_deletedAt :: "int option"

record asset_row =
  a_id :: string
  a_slug :: string
  a_title :: string
  a_ownerId :: string
  a_categoryId :: string
  a_licenseId :: string
  a_engine :: asset_engine
  a_status :: asset_status
  a_thumbnailKey :: "string option"
  a_thumbnailVariants :: "json option"
  a_thumbnailAuto :: "string option"
  a_previewMedia :: "json option"
  a_requiresEmptyProject :: bool
  a_createdAt :: int
  a_updatedAt :: int
  a_publishedAt :: "int option"
  a_archivedAt :: "int option"

record translation_row =
  tr_id :: string
  tr_assetId :: string
  tr_locale :: locale_code
  tr_short :: string
  tr_long :: json
  tr_createdAt :: int

record version_row =
  v_id :: string
  v_assetId :: string
  v_semver :: string
  v_releaseNotes :: json
  v_s3Prefix :: string
  v_bytesTotal :: int
  v_fileCount :: nat
  v_manifest :: "json option"
  v_status :: analysis_status
  v_isLatest :: bool
  v_createdAt :: int
  v_publishedAt :: "int option"

record file_row =
  f_id :: string
  f_versionId :: string
  f_s3Key :: string
  f_relPath :: string
  f_bytes :: int
  f_mime :: string
  f_kind :: file_kind
  f_sortOrder :: int
  f_meta :: "json option"
  f_createdAt :: int

record compat_row =
  ec_versionId :: string
  ec_engineVersion :: string
  ec_pipelines :: "string list"
  ec_targets :: "string list"

record category_row =
  c_id :: string
  c_slug :: string
  c_name :: json
  c_iconKey :: "string option"
  c_sortOrder :: int
  c_isActive :: bool

record tag_row =
  t_id :: string
  t_slug :: string
  t_name :: string
  t_createdAt :: int

record asset_tag_row =
  at_assetId :: string
  at_tagId :: string

record license_row =
  l_id :: string
  l_slug :: string
  l_name :: string
  l_description :: json
  l_fullText :: json
  l_isActive :: bool
  l_sortOrder :: int

record library_row =
  li_id :: string
  li_userId :: string
  li_assetId :: string
  li_hidden :: bool
  li_addedAt :: int

record download_row =
  d_id :: string
  d_userId :: string
  d_assetId :: string
  d_versionId :: string
  d_fileId :: "string option"
  d_ipHash :: string
  d_country :: "string option"
  d_userAgent :: string
  d_source :: download_source
  d_createdAt :: int

record comment_row =
  cm_id :: string
  cm_assetId :: string
  cm_authorId :: string
  cm_parentId :: "string option"
  cm_kind :: comment_kind
  cm_body :: json
  cm_status :: "issue_status option"
  cm_depth :: nat
  cm_editedAt :: "int option"
  cm_deletedAt :: "int option"
  cm_createdAt :: int

record report_row =
  r_id :: string
  r_reporterId :: string
  r_assetId :: string
  r_category :: report_category
  r_notes :: string
  r_status :: report_status
  r_adminNotes :: "string option"
  r_createdAt :: int
  r_resolvedAt :: "int option"

record request_row =
  q_id :: string
  q_requesterId :: string
  q_assetLink :: string
  q_assetType :: string
  q_intendedUse :: string
  q_price :: "string option"
  q_notes :: "string option"
  q_status :: request_status
  q_adminComment :: "string option"
  q_createdAt :: int
  q_updatedAt :: int

record featured_row =
  fs_id :: string
  fs_assetId :: string
  fs_sortOrder :: int
  fs_bannerKey :: "string option"
  fs_title :: "string option"
  fs_short :: "json option"
  fs_isActive :: bool

record notification_row =
  n_id :: string
  n_userId :: string
  n_type :: notification_type
  n_payload :: json
  n_readAt :: "int option"
  n_createdAt :: int

record token_row =
  pt_id :: string
  pt_userId :: string
  pt_label :: string
  pt_hash :: string
  pt_lastUsedAt :: "int option"
  pt_revokedAt :: "int option"
  pt_expiresAt :: int
  pt_createdAt :: int

record audit_row =
  au_actorId :: "string option"
  au_action :: string
  au_subjectType :: string
  au_subjectId :: string
  au_metadata :: "json option"
  au_createdAt :: int

record media_row =
  em_id :: string
  em_key :: string
  em_uploaderId :: string
  em_referenced :: bool
  em_createdAt :: int

record usage_row =
  tu_tagId :: string
  tu_count :: nat

record stats_row =
  ast_assetId :: string
  ast_totalDownloads :: nat
  ast_totalSaves :: nat
  ast_last7d :: nat
  ast_last30d :: nat

record dependency_row =
  dp_versionId :: string
  dp_name :: string
  dp_version :: "string option"
  dp_source :: string

record daily_row =
  dd_assetId :: string
  dd_date :: int
  dd_count :: nat
  dd_uniqueUsers :: nat
  dd_byCountry :: "(string \<times> nat) list"
  dd_bySource :: "(string \<times> nat) list"

record storage_row =
  sg_date :: int
  sg_bucket :: string
  sg_prefix :: string
  sg_bytes :: int
  sg_objectCount :: nat

record storage_user_row =
  su_date :: int
  su_userId :: string
  su_bytes :: int
  su_assetCount :: nat

record storage_asset_row =
  sa_date :: int
  sa_assetId :: string
  sa_bytes :: int

text \<open>The log of webhook attempts, a Mongo collection, and the mails handed to the transport.\<close>

record delivery_row =
  wd_deliveryId :: string
  wd_event :: notification_type
  wd_success :: bool
  wd_attempt :: nat
  wd_httpStatus :: "int option"
  wd_responseBody :: string
  wd_envelope :: json
  wd_error :: "string option"
  wd_createdAt :: int

record mail =
  ml_to :: string
  ml_subject :: string
  ml_html :: string
  ml_text :: string

subsection \<open>Jobs\<close>

text \<open>
  \<open>src/modules/jobs/contracts/index.ts\<close>: the payload of every queue.  A job is what a producer
  hands to \<open>Queue.add\<close>: the payload and the custom job id, if it sets one.
\<close>

datatype queue =
    ANALYZE_Q | ANALYZE_VERSION_Q | GLTF_CONVERT_Q | THUMBNAIL_VARIANTS_Q | THUMBNAIL_RENDER_Q
  | SEARCH_INDEX_Q | SEARCH_INDEX_BATCH_Q | NOTIFY_Q | WEBHOOK_Q | ARCHIVE_PURGE_Q
  | AUDIT_PURGE_Q | EDITOR_MEDIA_GC_Q | ANALYTICS_ROLLUP_Q | STORAGE_ROLLUP_Q

datatype analyze_reason = FAN_IN | REANALYZE

datatype search_reason =
    ASSET_PUBLISH | ASSET_UPDATE | ASSET_ARCHIVE | ASSET_RESTORE | ASSET_DELETE | ASSET_STATS

datatype channel = InAppChannel | WsChannel | EmailChannel | WebhookChannel

record user_ref =
  ur_id :: string
  ur_email :: "string option"
  ur_name :: "string option"

record notify_job =
  nj_recipient :: string
  nj_type :: notification_type
  nj_payload :: json
  nj_drop :: "channel list"
  nj_actor :: "user_ref option"

record webhook_job =
  wj_event :: notification_type
  wj_recipient :: "user_ref option"
  wj_actor :: "user_ref option"
  wj_payload :: json

datatype job_payload =
    AnalyzeFileJob string string "string option"
  | AnalyzeVersionJob string analyze_reason
  | GltfConvertJob string string string file_kind
  | ThumbnailVariantsJob string string
  | ThumbnailRenderJob string string
  | SearchIndexJob string search_reason
  | NotifyJob notify_job
  | WebhookDeliveryJob webhook_job
  | TriggeredJob queue string

record job =
  jb_id :: "string option"
  jb_payload :: job_payload

subsection \<open>The state\<close>

text \<open>A Redis value is a text or an \<open>INCR\<close> counter; a key without an expiry has \<open>None\<close>.\<close>

datatype redis_val = RText string | RInt int

record redis_entry =
  re_val :: redis_val
  re_expires :: "int option"

type_synonym redis_map = "string \<Rightarrow> redis_entry option"

text \<open>What Meilisearch is asked to do to an index: a call queues a task and returns, and the engine runs the tasks later.\<close>

datatype search_task =
    AddDocuments string "(string \<times> json) list"
  | DeleteDocuments string "string list"
  | DeleteIndex string
  | CreateIndex string

record world =
  users :: "user_row list"
  assets :: "asset_row list"
  asset_texts :: "translation_row list"
  versions :: "version_row list"
  files :: "file_row list"
  compats :: "compat_row list"
  categories :: "category_row list"
  tags :: "tag_row list"
  asset_tags :: "asset_tag_row list"
  licenses :: "license_row list"
  library :: "library_row list"
  downloads :: "download_row list"
  comments :: "comment_row list"
  reports :: "report_row list"
  requests :: "request_row list"
  featured :: "featured_row list"
  notifications :: "notification_row list"
  plugin_tokens :: "token_row list"
  audit_logs :: "audit_row list"
  editor_media :: "media_row list"
  tag_usage :: "usage_row list"
  asset_stats :: "stats_row list"
  redis :: redis_map
  dirty :: "string list"
  jobs :: "job list"
  s3_objects :: "string list"
  dependencies :: "dependency_row list"
  download_daily :: "daily_row list"
  storage_daily :: "storage_row list"
  storage_user_daily :: "storage_user_row list"
  storage_asset_daily :: "storage_asset_row list"
  search_tasks :: "search_task list"
  analysis_reports :: "(string \<times> json) list"
  deliveries :: "delivery_row list"
  fanout :: "(string \<times> json) list"
  outbox :: "mail list"
  queue_down :: bool

definition empty_world :: world where
  "empty_world =
     \<lparr>users = [], assets = [], asset_texts = [], versions = [], files = [], compats = [],
      categories = [], tags = [], asset_tags = [], licenses = [], library = [], downloads = [],
      comments = [], reports = [], requests = [], featured = [], notifications = [],
      plugin_tokens = [], audit_logs = [], editor_media = [], tag_usage = [], asset_stats = [],
      redis = Map.empty, dirty = [], jobs = [], s3_objects = [],
      dependencies = [], download_daily = [], storage_daily = [], storage_user_daily = [],
      storage_asset_daily = [], search_tasks = [], analysis_reports = [],
      deliveries = [], fanout = [], outbox = [], queue_down = False\<rparr>"

lemma empty_world_simps [simp]:
  "users empty_world = []"
  "assets empty_world = []"
  "asset_texts empty_world = []"
  "versions empty_world = []"
  "files empty_world = []"
  "compats empty_world = []"
  "categories empty_world = []"
  "tags empty_world = []"
  "asset_tags empty_world = []"
  "licenses empty_world = []"
  "library empty_world = []"
  "downloads empty_world = []"
  "comments empty_world = []"
  "reports empty_world = []"
  "requests empty_world = []"
  "featured empty_world = []"
  "notifications empty_world = []"
  "plugin_tokens empty_world = []"
  "audit_logs empty_world = []"
  "editor_media empty_world = []"
  "tag_usage empty_world = []"
  "asset_stats empty_world = []"
  "dirty empty_world = []"
  "jobs empty_world = []"
  "s3_objects empty_world = []"
  "dependencies empty_world = []"
  "download_daily empty_world = []"
  "storage_daily empty_world = []"
  "storage_user_daily empty_world = []"
  "storage_asset_daily empty_world = []"
  "search_tasks empty_world = []"
  "analysis_reports empty_world = []"
  "deliveries empty_world = []"
  "fanout empty_world = []"
  "outbox empty_world = []"
  "\<not> queue_down empty_world"
  "redis empty_world = Map.empty"
  by (simp_all add: empty_world_def)

type_synonym 'a handler = "(app_error, world, 'a) act"

subsection \<open>Constraints\<close>

definition users_ok :: "world \<Rightarrow> bool" where
  "users_ok w \<longleftrightarrow> distinct (map u_id (users w)) \<and> distinct (map u_sub (users w))"

definition assets_ok :: "world \<Rightarrow> bool" where
  "assets_ok w \<longleftrightarrow> distinct (map a_id (assets w)) \<and> distinct (map a_slug (assets w))"

definition versions_ok :: "world \<Rightarrow> bool" where
  "versions_ok w \<longleftrightarrow>
     distinct (map v_id (versions w)) \<and> distinct (map (\<lambda>v. (v_assetId v, v_semver v)) (versions w))"

definition featured_ok :: "world \<Rightarrow> bool" where
  "featured_ok w \<longleftrightarrow>
     distinct (map fs_id (featured w)) \<and> distinct (map fs_assetId (featured w)) \<and>
     distinct (map fs_sortOrder (featured w))"

definition library_ok :: "world \<Rightarrow> bool" where
  "library_ok w \<longleftrightarrow>
     distinct (map li_id (library w)) \<and> distinct (map (\<lambda>l. (li_userId l, li_assetId l)) (library w))"

subsection \<open>Tables\<close>

definition user_by :: "string \<Rightarrow> world \<Rightarrow> user_row option" where
  "user_by i w = find_row u_id i (users w)"

definition asset_by :: "string \<Rightarrow> world \<Rightarrow> asset_row option" where
  "asset_by i w = find_row a_id i (assets w)"

definition version_by :: "string \<Rightarrow> world \<Rightarrow> version_row option" where
  "version_by i w = find_row v_id i (versions w)"

definition asset_files :: "string \<Rightarrow> world \<Rightarrow> file_row list" where
  "asset_files vid w = filter (\<lambda>f. f_versionId f = vid) (files w)"

definition set_asset :: "string \<Rightarrow> (asset_row \<Rightarrow> asset_row) \<Rightarrow> world \<Rightarrow> world" where
  "set_asset i f = assets_update (set_rows (\<lambda>a. a_id a = i) f)"

definition set_version :: "string \<Rightarrow> (version_row \<Rightarrow> version_row) \<Rightarrow> world \<Rightarrow> world" where
  "set_version i f = versions_update (set_rows (\<lambda>v. v_id v = i) f)"

lemma queue_down_set [simp]: "queue_down (set_asset i f w) = queue_down w" "queue_down (set_version j g w) = queue_down w"
  by (simp_all add: set_asset_def set_version_def)

interpretation user_tab: db_table u_id users users_update
  by unfold_locales simp_all

interpretation asset_tab: db_table a_id assets assets_update
  by unfold_locales simp_all

interpretation version_tab: db_table v_id versions versions_update
  by unfold_locales simp_all

interpretation file_tab: db_table f_id files files_update
  by unfold_locales simp_all

interpretation comment_tab: db_table cm_id comments comments_update
  by unfold_locales simp_all

interpretation report_tab: db_table r_id reports reports_update
  by unfold_locales simp_all

interpretation request_tab: db_table q_id requests requests_update
  by unfold_locales simp_all

interpretation featured_tab: db_table fs_id featured featured_update
  by unfold_locales simp_all

interpretation category_tab: db_table c_id categories categories_update
  by unfold_locales simp_all

interpretation license_tab: db_table l_id licenses licenses_update
  by unfold_locales simp_all

interpretation tag_tab: db_table t_id tags tags_update
  by unfold_locales simp_all

interpretation token_tab: db_table pt_id plugin_tokens plugin_tokens_update
  by unfold_locales simp_all

interpretation library_tab: db_table li_id library library_update
  by unfold_locales simp_all

interpretation notification_tab: db_table n_id notifications notifications_update
  by unfold_locales simp_all

lemmas asset_look = asset_tab.look_update asset_tab.look_insert asset_tab.look_delete

lemmas version_look = version_tab.look_update version_tab.look_insert version_tab.look_delete

lemma asset_by_set_asset [row_simps]:
  "(\<And>a. a_id (f a) = a_id a) \<Longrightarrow>
     asset_by j (set_asset i f w) = (if j = i then map_option f (asset_by i w) else asset_by j w)"
  unfolding asset_by_def set_asset_def by (rule asset_tab.look_update)

lemma version_by_set_version [row_simps]:
  "(\<And>v. v_id (f v) = v_id v) \<Longrightarrow>
     version_by j (set_version i f w) = (if j = i then map_option f (version_by i w) else version_by j w)"
  unfolding version_by_def set_version_def by (rule version_tab.look_update)

lemma asset_byD: "asset_by i w = Some a \<Longrightarrow> a \<in> set (assets w) \<and> a_id a = i"
  unfolding asset_by_def by (rule find_row_SomeD)

lemma version_byD: "version_by i w = Some v \<Longrightarrow> v \<in> set (versions w) \<and> v_id v = i"
  unfolding version_by_def by (rule find_row_SomeD)

lemma user_byD: "user_by i w = Some u \<Longrightarrow> u \<in> set (users w) \<and> u_id u = i"
  unfolding user_by_def by (rule find_row_SomeD)

lemma set_asset_frame [simp]:
  "users (set_asset i f w) = users w" "versions (set_asset i f w) = versions w"
  "files (set_asset i f w) = files w" "jobs (set_asset i f w) = jobs w"
  "comments (set_asset i f w) = comments w" "featured (set_asset i f w) = featured w"
  "categories (set_asset i f w) = categories w" "licenses (set_asset i f w) = licenses w"
  "asset_texts (set_asset i f w) = asset_texts w" "tags (set_asset i f w) = tags w"
  "asset_tags (set_asset i f w) = asset_tags w" "s3_objects (set_asset i f w) = s3_objects w"
  "assets (set_asset i f w) = set_rows (\<lambda>a. a_id a = i) f (assets w)"
  by (simp_all add: set_asset_def)

lemma set_version_frame [simp]:
  "users (set_version i f w) = users w" "assets (set_version i f w) = assets w"
  "files (set_version i f w) = files w" "jobs (set_version i f w) = jobs w"
  "s3_objects (set_version i f w) = s3_objects w"
  "versions (set_version i f w) = set_rows (\<lambda>v. v_id v = i) f (versions w)"
  by (simp_all add: set_version_def)

end
