(* ===== verification/Redis.thy ===== *)
theory Redis
  imports Schema
begin

section \<open>Redis: keys with an expiry, and the read-through cache\<close>

text \<open>
  The Redis commands the code uses (\<open>GET\<close>, \<open>SET ... EX\<close>, \<open>DEL\<close>, \<open>INCRBY\<close>, \<open>EXPIRE\<close>) on a map of
  keys to values with an expiry in milliseconds, and \<open>src/infra/redis/cached.service.ts\<close> on top
  of them.  The locale \<open>read_through\<close> is the contract a cached listing relies on: a read returns
  a value that the fetcher produced at some earlier state, and after an invalidation the value
  of the present state.
\<close>

subsection \<open>Commands\<close>

definition redis_live :: "int \<Rightarrow> redis_entry \<Rightarrow> bool" where
  "redis_live now e = (case re_expires e of None \<Rightarrow> True | Some t \<Rightarrow> now < t)"

fun redis_text :: "redis_val \<Rightarrow> string" where
  "redis_text (RText s) = s"
| "redis_text (RInt n) = show_int n"

fun redis_int :: "redis_val \<Rightarrow> int" where
  "redis_int (RInt n) = n"
| "redis_int (RText s) = 0"

definition redis_get :: "int \<Rightarrow> string \<Rightarrow> redis_map \<Rightarrow> string option" where
  "redis_get now k m =
     (case m k of None \<Rightarrow> None | Some e \<Rightarrow> if redis_live now e then Some (redis_text (re_val e)) else None)"

definition redis_set_ex :: "int \<Rightarrow> string \<Rightarrow> string \<Rightarrow> int \<Rightarrow> redis_map \<Rightarrow> redis_map" where
  "redis_set_ex now k v ttl m = m(k := Some \<lparr>re_val = RText v, re_expires = Some (now + ttl * 1000)\<rparr>)"

definition redis_del :: "string list \<Rightarrow> redis_map \<Rightarrow> redis_map" where
  "redis_del ks m = (\<lambda>k. if k \<in> set ks then None else m k)"

definition redis_incrby :: "int \<Rightarrow> int \<Rightarrow> string \<Rightarrow> redis_map \<Rightarrow> int \<times> redis_map" where
  "redis_incrby now n k m =
     (case m k of
        None \<Rightarrow> (n, m(k := Some \<lparr>re_val = RInt n, re_expires = None\<rparr>))
      | Some e \<Rightarrow>
          if redis_live now e
          then (redis_int (re_val e) + n, m(k := Some (e\<lparr>re_val := RInt (redis_int (re_val e) + n)\<rparr>)))
          else (n, m(k := Some \<lparr>re_val = RInt n, re_expires = None\<rparr>)))"

definition redis_expire :: "int \<Rightarrow> string \<Rightarrow> int \<Rightarrow> redis_map \<Rightarrow> redis_map" where
  "redis_expire now k sec m =
     (case m k of None \<Rightarrow> m | Some e \<Rightarrow> m(k := Some (e\<lparr>re_expires := Some (now + sec * 1000)\<rparr>)))"

lemma redis_get_set_ex [simp]:
  "redis_get t k (redis_set_ex now j v ttl m) =
     (if k = j then (if t < now + ttl * 1000 then Some v else None) else redis_get t k m)"
  by (simp add: redis_get_def redis_set_ex_def redis_live_def)

lemma redis_get_del [simp]:
  "redis_get t k (redis_del ks m) = (if k \<in> set ks then None else redis_get t k m)"
  by (simp add: redis_get_def redis_del_def)

lemma redis_del_same [simp]: "redis_del [k] m k = None"
  by (simp add: redis_del_def)

lemma redis_incrby_other: "j \<noteq> k \<Longrightarrow> snd (redis_incrby now n k m) j = m j"
  by (simp add: redis_incrby_def split: option.splits)

lemma redis_expire_other: "j \<noteq> k \<Longrightarrow> redis_expire now k s m j = m j"
  by (simp add: redis_expire_def split: option.splits)

subsection \<open>CachedService\<close>

text \<open>
  \<open>up\<close> says whether Redis answers: a failing read is a miss, a failing write is ignored, and a
  text that does not parse is dropped.
\<close>

definition get_or_fetch ::
  "bool \<Rightarrow> int \<Rightarrow> string \<Rightarrow> int \<Rightarrow> (world \<Rightarrow> json) \<Rightarrow> json handler" where
  "get_or_fetch up now key ttl fetcher =
     (\<lambda>w. let hit = (if up then redis_get now key (redis w) else None);
              parsed = (case hit of None \<Rightarrow> None | Some s \<Rightarrow> if s = [] then None else json_parse s)
          in case parsed of
               Some v \<Rightarrow> (Inr v, w)
             | None \<Rightarrow>
                 let value = fetcher w
                 in (Inr value,
                     if up then redis_update (redis_set_ex now key (json_text value) ttl) w else w))"

definition cache_invalidate :: "bool \<Rightarrow> string list \<Rightarrow> unit handler" where
  "cache_invalidate up keys =
     (if keys = [] then ret () else upd (\<lambda>w. if up then redis_update (redis_del keys) w else w))"

text \<open>What a key may hold: nothing, or the text of a value that \<open>P\<close> allows.\<close>

definition cache_holds :: "string \<Rightarrow> (json \<Rightarrow> bool) \<Rightarrow> world \<Rightarrow> bool" where
  "cache_holds key P w \<longleftrightarrow>
     (\<forall>e. redis w key = Some e \<longrightarrow> (\<exists>v. P v \<and> js_plain v \<and> redis_text (re_val e) = json_text v))"

locale read_through =
  fixes read :: "bool \<Rightarrow> int \<Rightarrow> json handler"
    and key :: string
    and ttl :: int
    and fetcher :: "world \<Rightarrow> json"
    and valid :: "world \<Rightarrow> bool"
  assumes read_eq: "read up now = get_or_fetch up now key ttl fetcher"
    and plain: "valid w \<Longrightarrow> js_plain (fetcher w)"
    and independent: "fetcher (redis_update f w) = fetcher w"
begin

lemma read_total: "\<exists>v w'. read up now w = (Inr v, w')"
  by (auto simp: read_eq get_or_fetch_def Let_def split: option.splits)

lemma read_frame: "redis_update (\<lambda>_. m) (snd (read up now w)) = redis_update (\<lambda>_. m) w"
  by (cases up) (simp_all add: read_eq get_or_fetch_def Let_def split: option.splits)

lemma read_fetched:
  assumes "cache_holds key P w" and "P (fetcher w)" and "valid w" and "read up now w = (Inr v, w')"
  shows "P v \<and> cache_holds key P w'"
proof (cases "\<exists>u. (if up then redis_get now key (redis w) else None) = Some u")
  case True
  then obtain u e where u: "up" "redis_get now key (redis w) = Some u" and e: "redis w key = Some e"
    "u = redis_text (re_val e)"
    by (auto simp: redis_get_def split: if_splits option.splits)
  with assms(1) obtain x where x: "P x" "js_plain x" "u = json_text x" by (auto simp: cache_holds_def)
  have "u \<noteq> []" using json_parse_text [OF x(2)] x(3) by (auto simp: json_parse_def skip_ws_def)
  with u x json_parse_text [OF x(2)] have "read up now w = (Inr x, w)"
    by (simp add: read_eq get_or_fetch_def)
  with assms x show ?thesis by simp
next
  case False
  then have "v = fetcher w" and "w' = (if up then redis_update (redis_set_ex now key (json_text (fetcher w)) ttl) w else w)"
    using assms(4) by (auto simp: read_eq get_or_fetch_def Let_def split: if_splits)
  with assms(1,2) show ?thesis
    using plain [OF assms(3)] by (auto simp: cache_holds_def redis_set_ex_def)
qed

lemma read_after_invalidate:
  assumes "cache_invalidate True (ks @ key # js) w = (Inr (), w1)" and "read up now w1 = (Inr v, w2)"
  shows "v = fetcher w"
proof -
  have w1: "w1 = redis_update (redis_del (ks @ key # js)) w"
    using assms(1) by (simp add: cache_invalidate_def)
  have "v = fetcher w1"
    using assms(2) by (auto simp: w1 read_eq get_or_fetch_def Let_def split: if_splits)
  then show ?thesis by (simp add: w1 independent)
qed

lemma read_expired:
  assumes "redis_get now key (redis w) = None" and "read up now w = (Inr v, w')"
  shows "v = fetcher w"
  using assms by (auto simp: read_eq get_or_fetch_def Let_def split: if_splits)

end

end
