(* ===== verification/TipTap.thy ===== *)
theory TipTap
  imports Schema
begin

section \<open>TipTap documents\<close>

text \<open>
  \<open>src/common/tiptap/validate.ts\<close>: the structural walk that sanitises the rich-text JSON of
  comments, release notes and descriptions, with its two allowlists.  The walk runs on any JSON
  value the request body can hold; reading a property of \<open>null\<close> is a \<open>TypeError\<close>.

  The abstract side is \<open>tt_node\<close>, the documents the editor can produce, and \<open>admissible\<close>, which
  of them an allowlist accepts; \<open>render\<close> is their JSON form.  The walk returns renderings of
  admissible documents only, and leaves each of those as it is.
\<close>

subsection \<open>Allowlists\<close>

record tiptap_allowlist =
  al_nodes :: "string list"
  al_marks :: "string list"
  al_nodeAttrs :: "string \<Rightarrow> string list option"
  al_markAttrs :: "string \<Rightarrow> string list option"
  al_maxBytes :: nat
  al_maxHeadingLevel :: "int option"

definition FULL_TIPTAP_ALLOWLIST :: tiptap_allowlist where
  "FULL_TIPTAP_ALLOWLIST =
     \<lparr>al_nodes =
        [''doc'', ''paragraph'', ''heading'', ''bulletList'', ''orderedList'', ''listItem'',
         ''blockquote'', ''codeBlock'', ''image'', ''video'', ''embed'', ''horizontalRule'',
         ''hardBreak'', ''table'', ''tableRow'', ''tableCell'', ''tableHeader'', ''text''],
      al_marks =
        [''bold'', ''italic'', ''underline'', ''strike'', ''code'', ''link'', ''highlight'',
         ''textStyle'', ''subscript'', ''superscript''],
      al_nodeAttrs = map_of
        [(''heading'', [''level'']),
         (''image'', [''src'', ''alt'', ''title'', ''width'', ''height'']),
         (''video'', [''src'', ''poster'', ''width'', ''height'']),
         (''embed'', [''src'', ''provider'']),
         (''codeBlock'', [''language'']),
         (''tableCell'', [''colspan'', ''rowspan'', ''colwidth'']),
         (''tableHeader'', [''colspan'', ''rowspan'', ''colwidth''])],
      al_markAttrs = map_of
        [(''link'', [''href'', ''target'', ''rel'']),
         (''highlight'', [''color'']),
         (''textStyle'', [''color''])],
      al_maxBytes = 100 * 1024,
      al_maxHeadingLevel = Some 3\<rparr>"

definition LITE_TIPTAP_ALLOWLIST :: tiptap_allowlist where
  "LITE_TIPTAP_ALLOWLIST =
     \<lparr>al_nodes =
        [''doc'', ''paragraph'', ''bulletList'', ''orderedList'', ''listItem'', ''codeBlock'',
         ''hardBreak'', ''text'', ''mention'', ''image''],
      al_marks = [''bold'', ''italic'', ''code'', ''link''],
      al_nodeAttrs = map_of
        [(''codeBlock'', [''language'']),
         (''mention'', [''id'', ''label'']),
         (''image'', [''src'', ''alt'', ''title''])],
      al_markAttrs = map_of [(''link'', [''href'', ''target'', ''rel''])],
      al_maxBytes = 24 * 1024,
      al_maxHeadingLevel = None\<rparr>"

subsection \<open>The walk\<close>

text \<open>\<open>Object.entries\<close>: arrays and strings have index keys, other primitives none.\<close>

fun json_entries :: "json \<Rightarrow> (string \<times> json) list" where
  "json_entries (JObj fs) = fs"
| "json_entries (JArr vs) = zip (map show_nat [0..<length vs]) vs"
| "json_entries (JStr s) = zip (map show_nat [0..<length s]) (map (\<lambda>c. JStr [c]) s)"
| "json_entries _ = []"

definition index_path :: "string \<Rightarrow> string \<Rightarrow> nat \<Rightarrow> string" where
  "index_path path what i = path @ ''.'' @ what @ ''['' @ show_nat i @ '']''"

definition type_of :: "json \<Rightarrow> string option" where
  "type_of v = (case get_prop v ''type'' of Some (JStr t) \<Rightarrow> Some t | _ \<Rightarrow> None)"

definition has_type :: "string list \<Rightarrow> json \<Rightarrow> bool" where
  "has_type allowed v = (case type_of v of None \<Rightarrow> False | Some t \<Rightarrow> t \<in> set allowed)"

definition filter_attrs :: "string list option \<Rightarrow> json option \<Rightarrow> (string \<times> json) list" where
  "filter_attrs allowed attrs =
     (case (allowed, attrs) of
        (Some ks, Some a) \<Rightarrow>
          if truthy a then filter (\<lambda>p. fst p \<in> set ks) (json_entries a) else []
      | _ \<Rightarrow> [])"

definition heading_violations :: "tiptap_allowlist \<Rightarrow> string \<Rightarrow> json \<Rightarrow> problem_field list" where
  "heading_violations al path node =
     (if type_of node = Some ''heading'' then
        (case get_prop node ''attrs'' of
           None \<Rightarrow> []
         | Some a \<Rightarrow>
             (case get_prop a ''level'' of
                Some (JNum l) \<Rightarrow>
                  let mx = (case al_maxHeadingLevel al of None \<Rightarrow> 3 | Some m \<Rightarrow> m)
                  in if l < 1 \<or> mx < l
                     then [\<lparr>pf_path = path @ ''.attrs.level'', pf_code = ''heading.level_out_of_range''\<rparr>]
                     else []
              | _ \<Rightarrow> []))
      else [])"

definition link_attrs :: "(string \<times> json) list \<Rightarrow> (string \<times> json) list" where
  "link_attrs attrs =
     (let a = AList.update ''rel'' (JStr ''noopener nofollow'') attrs
      in case map_of a ''target'' of
           Some t \<Rightarrow> if truthy t then a else AList.update ''target'' (JStr ''_blank'') a
         | None \<Rightarrow> AList.update ''target'' (JStr ''_blank'') a)"

definition clean_mark :: "tiptap_allowlist \<Rightarrow> string \<Rightarrow> json \<Rightarrow> json" where
  "clean_mark al t mark =
     (let a0 = filter_attrs (al_markAttrs al t) (get_prop mark ''attrs'');
          a = (if t = ''link'' then link_attrs a0 else a0)
      in JObj ((''type'', JStr t) # (if a \<noteq> [] then [(''attrs'', JObj a)] else [])))"

fun walk_marks ::
  "tiptap_allowlist \<Rightarrow> string \<Rightarrow> nat \<Rightarrow> json list \<Rightarrow> app_error + problem_field list \<times> json list" where
  "walk_marks al path i [] = Inr ([], [])"
| "walk_marks al path i (m # ms) =
     (if m = JNull then Inl (OtherError TypeError)
      else
        (case type_of m of
           Some t \<Rightarrow>
             if t \<in> set (al_marks al)
             then sum_bind (walk_marks al path (Suc i) ms) (\<lambda>(vs, out). Inr (vs, clean_mark al t m # out))
             else sum_bind (walk_marks al path (Suc i) ms) (\<lambda>(vs, out).
                    Inr (\<lparr>pf_path = index_path path ''marks'' i, pf_code = ''mark.disallowed''\<rparr> # vs, out))
         | None \<Rightarrow>
             sum_bind (walk_marks al path (Suc i) ms) (\<lambda>(vs, out).
               Inr (\<lparr>pf_path = index_path path ''marks'' i, pf_code = ''mark.disallowed''\<rparr> # vs, out))))"

definition marks_of ::
  "tiptap_allowlist \<Rightarrow> string \<Rightarrow> json \<Rightarrow> app_error + problem_field list \<times> json list" where
  "marks_of al path node =
     (case get_prop node ''marks'' of
        None \<Rightarrow> Inr ([], [])
      | Some m \<Rightarrow>
          if truthy m
          then (case m of JArr ms \<Rightarrow> walk_marks al path 0 ms | _ \<Rightarrow> Inl (OtherError TypeError))
          else Inr ([], []))"

definition children_of :: "json \<Rightarrow> json list" where
  "children_of node = (case get_prop node ''content'' of Some (JArr cs) \<Rightarrow> cs | _ \<Rightarrow> [])"

definition text_of :: "json \<Rightarrow> string option" where
  "text_of node = (case get_prop node ''text'' of Some (JStr s) \<Rightarrow> Some s | _ \<Rightarrow> None)"

definition opt_field :: "string \<Rightarrow> json list \<Rightarrow> (string \<times> json) list" where
  "opt_field k vs = (if vs = [] then [] else [(k, JArr vs)])"

definition node_json ::
  "string \<Rightarrow> (string \<times> json) list \<Rightarrow> json list \<Rightarrow> string option \<Rightarrow> json list \<Rightarrow> json" where
  "node_json t attrs marks txt content =
     JObj ((''type'', JStr t) # (if attrs \<noteq> [] then [(''attrs'', JObj attrs)] else [])
           @ opt_field ''marks'' marks
           @ (case txt of None \<Rightarrow> [] | Some s \<Rightarrow> [(''text'', JStr s)])
           @ opt_field ''content'' content)"

lemma size_map_of: "map_of fs k = Some v \<Longrightarrow> size v < size (JObj fs)"
proof (induction fs)
  case (Cons p fs)
  then show ?case by (cases p) (auto split: if_splits)
qed simp

lemma size_get_prop: "get_prop v k = Some u \<Longrightarrow> size u < size v"
  by (cases v) (use size_map_of in auto)

lemma size_children_of: "size_list size (children_of v) \<le> size v"
  by (auto simp: children_of_def dest!: size_get_prop split: option.splits json.splits)

function walk :: "tiptap_allowlist \<Rightarrow> string \<Rightarrow> json \<Rightarrow> app_error + problem_field list \<times> json"
and walk_children ::
  "tiptap_allowlist \<Rightarrow> string \<Rightarrow> nat \<Rightarrow> json list \<Rightarrow> app_error + problem_field list \<times> json list"
where
  "walk al path node =
     (if node = JNull then Inl (OtherError TypeError)
      else if \<not> has_type (al_nodes al) node
      then Inr ([\<lparr>pf_path = path, pf_code = ''node.disallowed''\<rparr>],
                JObj (case get_prop node ''type'' of None \<Rightarrow> [] | Some t \<Rightarrow> [(''type'', t)]))
      else
        (let t = the (type_of node)
         in sum_bind (marks_of al path node) (\<lambda>(mvs, marks).
            sum_bind (walk_children al path 0 (children_of node)) (\<lambda>(cvs, content).
              Inr (heading_violations al path node @ mvs @ cvs,
                   node_json t (filter_attrs (al_nodeAttrs al t) (get_prop node ''attrs''))
                     marks (text_of node) content)))))"
| "walk_children al path i [] = Inr ([], [])"
| "walk_children al path i (c # cs) =
     sum_bind (walk al (index_path path ''content'' i) c) (\<lambda>(vs, out).
     sum_bind (walk_children al path (Suc i) cs) (\<lambda>(ws, outs). Inr (vs @ ws, out # outs)))"
  by pat_completeness auto

termination
  by (relation "measure (\<lambda>x. case x of Inl (al, path, v) \<Rightarrow> 2 * size v + 2
                                     | Inr (al, path, i, cs) \<Rightarrow> 2 * size_list size cs + 1)")
    (auto simp: le_imp_less_Suc size_children_of)

declare walk.simps [simp del]

lemma walk_listed:
  "type_of node = Some t \<Longrightarrow> t \<in> set (al_nodes al) \<Longrightarrow>
     walk al path node =
       sum_bind (marks_of al path node) (\<lambda>(mvs, marks).
       sum_bind (walk_children al path 0 (children_of node)) (\<lambda>(cvs, content).
         Inr (heading_violations al path node @ mvs @ cvs,
              node_json t (filter_attrs (al_nodeAttrs al t) (get_prop node ''attrs''))
                marks (text_of node) content)))"
  by (auto simp: walk.simps [of al path node] has_type_def type_of_def)

definition validate_tiptap :: "tiptap_allowlist \<Rightarrow> error_code \<Rightarrow> json \<Rightarrow> app_error + json" where
  "validate_tiptap al code doc =
     (if (case doc of JObj _ \<Rightarrow> False | JArr _ \<Rightarrow> False | _ \<Rightarrow> True) then Inl (BadRequest code)
      else if al_maxBytes al < length (json_text doc) then Inl (BadRequest code)
      else if type_of doc \<noteq> Some ''doc'' then Inl (BadRequest code)
      else sum_bind (walk al ''$'' doc) (\<lambda>(vs, out).
             if vs \<noteq> [] then Inl (BadRequestDomain code (Some vs)) else Inr out))"

definition validate_lite_tiptap :: "json \<Rightarrow> app_error + json" where
  "validate_lite_tiptap = validate_tiptap LITE_TIPTAP_ALLOWLIST COMMENT_LITE_TIPTAP_VIOLATION"

definition validate_full_tiptap :: "json \<Rightarrow> app_error + json" where
  "validate_full_tiptap = validate_tiptap FULL_TIPTAP_ALLOWLIST COMMENT_LONG_TIPTAP_VIOLATION"

subsection \<open>What an allowlist accepts\<close>

datatype tt_mark = TMark string "(string \<times> json) list"

datatype tt_node = TNode string "(string \<times> json) list" "tt_mark list" "string option" "tt_node list"

fun render_mark :: "tt_mark \<Rightarrow> json" where
  "render_mark (TMark t attrs) =
     JObj ((''type'', JStr t) # (if attrs \<noteq> [] then [(''attrs'', JObj attrs)] else []))"

fun render :: "tt_node \<Rightarrow> json" where
  "render (TNode t attrs marks txt content) =
     node_json t attrs (map render_mark marks) txt (map render content)"

definition attrs_within :: "string list option \<Rightarrow> (string \<times> json) list \<Rightarrow> bool" where
  "attrs_within allowed attrs =
     (\<forall>p \<in> set attrs. case allowed of None \<Rightarrow> False | Some ks \<Rightarrow> fst p \<in> set ks)"

definition safe_link :: "(string \<times> json) list \<Rightarrow> bool" where
  "safe_link attrs \<longleftrightarrow>
     map_of attrs ''rel'' = Some (JStr ''noopener nofollow'') \<and>
     (case map_of attrs ''target'' of None \<Rightarrow> False | Some t \<Rightarrow> truthy t)"

fun admissible_mark :: "tiptap_allowlist \<Rightarrow> tt_mark \<Rightarrow> bool" where
  "admissible_mark al (TMark t attrs) \<longleftrightarrow>
     t \<in> set (al_marks al) \<and> attrs_within (al_markAttrs al t) attrs \<and>
     (t = ''link'' \<longrightarrow> safe_link attrs)"

definition heading_in_range :: "tiptap_allowlist \<Rightarrow> (string \<times> json) list \<Rightarrow> bool" where
  "heading_in_range al attrs =
     (case map_of attrs ''level'' of
        Some (JNum l) \<Rightarrow> 1 \<le> l \<and> l \<le> (case al_maxHeadingLevel al of None \<Rightarrow> 3 | Some m \<Rightarrow> m)
      | _ \<Rightarrow> True)"

fun admissible :: "tiptap_allowlist \<Rightarrow> tt_node \<Rightarrow> bool" where
  "admissible al (TNode t attrs marks txt content) \<longleftrightarrow>
     t \<in> set (al_nodes al) \<and> attrs_within (al_nodeAttrs al t) attrs \<and>
     (t = ''heading'' \<longrightarrow> heading_in_range al attrs) \<and>
     (\<forall>m \<in> set marks. admissible_mark al m) \<and> (\<forall>n \<in> set content. admissible al n)"

text \<open>Allowlists whose links may carry \<open>rel\<close> and \<open>target\<close> and whose headings may carry \<open>level\<close>.\<close>

definition link_ready :: "tiptap_allowlist \<Rightarrow> bool" where
  "link_ready al =
     ((case al_markAttrs al ''link'' of
        None \<Rightarrow> False | Some ks \<Rightarrow> ''rel'' \<in> set ks \<and> ''target'' \<in> set ks))"

lemma lite_link_ready [simp]: "link_ready LITE_TIPTAP_ALLOWLIST"
  by (simp add: link_ready_def LITE_TIPTAP_ALLOWLIST_def)

lemma full_link_ready [simp]: "link_ready FULL_TIPTAP_ALLOWLIST"
  by (simp add: link_ready_def FULL_TIPTAP_ALLOWLIST_def)

subsection \<open>Facts on attribute lists\<close>

lemma update_same: "map_of xs k = Some v \<Longrightarrow> AList.update k v xs = xs"
  by (induction xs) (auto split: if_splits)

lemma set_AList_update: "p \<in> set (AList.update k v xs) \<Longrightarrow> p \<in> set xs \<or> p = (k, v)"
  by (induction xs) (auto split: if_splits)

lemma filter_attrs_within: "attrs_within allowed (filter_attrs allowed a)"
  by (auto simp: attrs_within_def filter_attrs_def split: option.splits)

lemma attrs_within_update:
  "attrs_within (Some ks) xs \<Longrightarrow> k \<in> set ks \<Longrightarrow> attrs_within (Some ks) (AList.update k v xs)"
  by (auto simp: attrs_within_def dest!: set_AList_update)

lemma filter_attrs_id:
  "attrs_within allowed attrs \<Longrightarrow>
     filter_attrs allowed (if attrs \<noteq> [] then Some (JObj attrs) else None) = attrs"
  by (cases allowed; cases attrs) (auto simp: attrs_within_def filter_attrs_def)

lemma link_attrs_id: "safe_link attrs \<Longrightarrow> link_attrs attrs = attrs"
  by (auto simp: safe_link_def link_attrs_def update_same Let_def split: option.splits)

lemma link_attrs_safe: "safe_link (link_attrs attrs)"
  by (auto simp: safe_link_def link_attrs_def Let_def update_conv' split: option.splits)

lemma link_attrs_within:
  "link_ready al \<Longrightarrow> attrs_within (al_markAttrs al ''link'') attrs \<Longrightarrow>
     attrs_within (al_markAttrs al ''link'') (link_attrs attrs)"
  by (auto simp: link_ready_def link_attrs_def Let_def attrs_within_update split: option.splits)

lemma map_of_filter_keys: "P k \<Longrightarrow> map_of (filter (\<lambda>p. P (fst p)) xs) k = map_of xs k"
  by (induction xs) auto

subsection \<open>Reading a rendered node\<close>

lemma get_prop_node_json [simp]:
  "get_prop (node_json t a m x c) ''type'' = Some (JStr t)"
  "get_prop (node_json t a m x c) ''attrs'' = (if a \<noteq> [] then Some (JObj a) else None)"
  "get_prop (node_json t a m x c) ''marks'' = (if m \<noteq> [] then Some (JArr m) else None)"
  "get_prop (node_json t a m x c) ''text'' = map_option JStr x"
  "get_prop (node_json t a m x c) ''content'' = (if c \<noteq> [] then Some (JArr c) else None)"
  by (auto simp: node_json_def opt_field_def split: option.splits)

lemma node_json_not_null [simp]: "node_json t a m x c \<noteq> JNull"
  by (simp add: node_json_def)

lemma type_of_node_json [simp]: "type_of (node_json t a m x c) = Some t"
  by (simp add: type_of_def)

lemma children_of_node_json [simp]: "children_of (node_json t a m x c) = c"
  by (simp add: children_of_def)

lemma text_of_node_json [simp]: "text_of (node_json t a m x c) = x"
  by (cases x) (simp_all add: text_of_def)

lemma type_of_render_mark [simp]: "type_of (render_mark (TMark t a)) = Some t"
  by (simp add: type_of_def)

lemma get_prop_attrs_render_mark [simp]:
  "get_prop (render_mark (TMark t a)) ''attrs'' = (if a \<noteq> [] then Some (JObj a) else None)"
  by simp

subsection \<open>The walk returns admissible documents, and leaves them as they are\<close>

lemma type_of_nonnull: "type_of v = Some t \<Longrightarrow> v \<noteq> JNull"
  by (auto simp: type_of_def)

lemma clean_mark_sound:
  assumes "link_ready al" and "t \<in> set (al_marks al)"
  shows "\<exists>m. clean_mark al t v = render_mark m \<and> admissible_mark al m"
proof -
  let ?a0 = "filter_attrs (al_markAttrs al t) (get_prop v ''attrs'')"
  let ?a = "if t = ''link'' then link_attrs ?a0 else ?a0"
  have "admissible_mark al (TMark t ?a)"
    using assms by (auto simp: link_attrs_safe link_attrs_within filter_attrs_within)
  moreover have "clean_mark al t v = render_mark (TMark t ?a)"
    by (simp add: clean_mark_def Let_def)
  ultimately show ?thesis by blast
qed

lemma clean_mark_render:
  "admissible_mark al (TMark t a) \<Longrightarrow> clean_mark al t (render_mark (TMark t a)) = render_mark (TMark t a)"
  unfolding clean_mark_def get_prop_attrs_render_mark
  by (simp add: filter_attrs_id link_attrs_id Let_def)

lemma walk_marks_sound:
  "link_ready al \<Longrightarrow> walk_marks al path i ms = Inr ([], out) \<Longrightarrow>
     \<exists>marks. out = map render_mark marks \<and> (\<forall>m \<in> set marks. admissible_mark al m)"
proof (induction ms arbitrary: i out)
  case (Cons m ms)
  from Cons.prems(2) obtain t out' where t: "type_of m = Some t" "t \<in> set (al_marks al)"
    and rest: "walk_marks al path (Suc i) ms = Inr ([], out')" and out: "out = clean_mark al t m # out'"
    by (auto simp: sum_bind_eq_Inr split: if_splits option.splits)
  from Cons.IH [OF Cons.prems(1) rest] obtain marks
    where "out' = map render_mark marks" "\<forall>m \<in> set marks. admissible_mark al m" by blast
  moreover obtain mk where "clean_mark al t m = render_mark mk" "admissible_mark al mk"
    using clean_mark_sound [OF Cons.prems(1) t(2)] by blast
  ultimately show ?case using out by (intro exI [of _ "mk # marks"]) simp
qed simp

lemma walk_marks_render:
  "\<forall>m \<in> set marks. admissible_mark al m \<Longrightarrow>
     walk_marks al path i (map render_mark marks) = Inr ([], map render_mark marks)"
proof (induction marks arbitrary: i)
  case (Cons m marks)
  obtain t a where m: "m = TMark t a" by (cases m)
  from Cons.prems m have adm: "admissible_mark al (TMark t a)" "t \<in> set (al_marks al)" by simp_all
  have "render_mark m \<noteq> JNull" by (simp add: m)
  with Cons show ?case
    unfolding list.map walk_marks.simps by (simp only: m type_of_render_mark) (use adm in \<open>simp add: clean_mark_render del: render_mark.simps\<close>)
qed simp

lemma show_nat_not_level: "show_nat n \<noteq> ''level''"
proof
  assume eq: "show_nat n = ''level''"
  have "is_digit (CHR ''l'')" by (rule is_digit_show_nat [of _ n]) (simp add: eq)
  then show False by (simp add: is_digit_def)
qed

lemma entries_level: "map_of (json_entries a) ''level'' = get_prop a ''level''"
proof (cases a)
  case (JArr vs)
  have "''level'' \<notin> fst ` set (json_entries a)"
    by (auto simp: JArr set_zip) (metis show_nat_not_level)
  then show ?thesis using JArr by (simp add: map_of_eq_None_iff)
next
  case (JStr s)
  have "''level'' \<notin> fst ` set (json_entries a)"
    by (auto simp: JStr set_zip) (metis show_nat_not_level)
  then show ?thesis using JStr by (simp add: map_of_eq_None_iff)
qed simp_all

lemma heading_sound:
  assumes "heading_violations al path v = []" and "type_of v = Some ''heading''"
  shows "heading_in_range al (filter_attrs ks (get_prop v ''attrs''))"
proof (cases "ks = None \<or> get_prop v ''attrs'' = None")
  case True
  then show ?thesis by (auto simp: heading_in_range_def filter_attrs_def split: option.splits)
next
  case False
  then obtain k a where k: "ks = Some k" "get_prop v ''attrs'' = Some a" by (cases ks) auto
  then show ?thesis
  proof (cases "''level'' \<in> set k \<and> truthy a")
    case True
    then have "map_of (filter_attrs ks (Some a)) ''level'' = get_prop a ''level''"
      by (simp add: filter_attrs_def k map_of_filter_keys [where P = "\<lambda>x. x \<in> set k"] entries_level)
    with assms k show ?thesis
      by (auto simp: heading_in_range_def heading_violations_def Let_def split: option.splits json.splits if_splits)
  next
    case False
    then have "map_of (filter_attrs ks (Some a)) ''level'' = None"
      by (auto simp: filter_attrs_def k map_of_eq_None_iff)
    then show ?thesis by (simp add: heading_in_range_def k)
  qed
qed

lemma heading_render:
  "(t = ''heading'' \<Longrightarrow> heading_in_range al a) \<Longrightarrow> heading_violations al path (node_json t a m x c) = []"
  by (auto simp: heading_violations_def heading_in_range_def Let_def split: option.splits json.splits)

lemma marks_of_sound:
  "link_ready al \<Longrightarrow> marks_of al path v = Inr ([], out) \<Longrightarrow>
     \<exists>marks. out = map render_mark marks \<and> (\<forall>m \<in> set marks. admissible_mark al m)"
  by (auto simp: marks_of_def split: option.splits if_splits json.splits dest: walk_marks_sound)

lemma marks_of_render:
  "\<forall>m \<in> set marks. admissible_mark al m \<Longrightarrow>
     marks_of al path (node_json t a (map render_mark marks) x c) = Inr ([], map render_mark marks)"
  by (auto simp: marks_of_def walk_marks_render)

lemma walk_sound:
  "link_ready al \<Longrightarrow> walk al path v = Inr ([], out) \<Longrightarrow> \<exists>n. out = render n \<and> admissible al n"
  "link_ready al \<Longrightarrow> walk_children al path i vs = Inr ([], outs) \<Longrightarrow>
     \<exists>ns. outs = map render ns \<and> (\<forall>n \<in> set ns. admissible al n)"
proof (induction al path v and al path i vs arbitrary: out and outs rule: walk_walk_children.induct)
  case (1 al path node)
  from 1(3) have ok: "node \<noteq> JNull" "has_type (al_nodes al) node"
    by (auto simp: walk.simps [of al path node] split: if_splits)
  then obtain t where t: "type_of node = Some t" "t \<in> set (al_nodes al)"
    by (auto simp: has_type_def split: option.splits)
  with 1(3) ok obtain ms cs where hv: "heading_violations al path node = []"
    and ms: "marks_of al path node = Inr ([], ms)"
    and cs: "walk_children al path 0 (children_of node) = Inr ([], cs)"
    and out: "out = node_json t (filter_attrs (al_nodeAttrs al t) (get_prop node ''attrs'')) ms (text_of node) cs"
    by (auto simp: walk.simps [of al path node] sum_bind_eq_Inr)
  from marks_of_sound [OF 1(2) ms] obtain marks
    where marks: "ms = map render_mark marks" "\<forall>m \<in> set marks. admissible_mark al m" by blast
  have "\<exists>ns. cs = map render ns \<and> (\<forall>n \<in> set ns. admissible al n)"
    by (rule 1(1) [OF ok(1) _ _ ms refl 1(2) cs]) (use ok t in simp_all)
  then obtain ns where ns: "cs = map render ns" "\<forall>n \<in> set ns. admissible al n" by blast
  let ?n = "TNode t (filter_attrs (al_nodeAttrs al t) (get_prop node ''attrs'')) marks (text_of node) ns"
  have "admissible al ?n"
    using t marks(2) ns(2) hv by (auto simp: filter_attrs_within heading_sound)
  moreover have "out = render ?n" by (simp add: out marks ns)
  ultimately show ?case by blast
next
  case (3 al path i c cs)
  from 3(4) obtain o1 os where c: "walk al (index_path path ''content'' i) c = Inr ([], o1)"
    and cs: "walk_children al path (Suc i) cs = Inr ([], os)" and outs: "outs = o1 # os"
    by (auto simp: sum_bind_eq_Inr)
  from 3(1) [OF 3(3) c] obtain n where n: "o1 = render n" "admissible al n" by blast
  from 3(2) [OF c refl 3(3) cs] obtain ns where "os = map render ns" "\<forall>n \<in> set ns. admissible al n" by blast
  with n outs show ?case by (intro exI [of _ "n # ns"]) simp
qed simp

lemma walk_render:
  "admissible al n \<Longrightarrow> walk al path (render n) = Inr ([], render n)"
proof (induction n arbitrary: path)
  case (TNode t a marks x ns)
  have kids: "walk_children al path i (map render ms) = Inr ([], map render ms)"
    if "set ms \<subseteq> set ns" for path i ms
    using that
  proof (induction ms arbitrary: i)
    case (Cons m ms)
    then show ?case using TNode by simp
  qed simp
  have adm: "t \<in> set (al_nodes al)" "attrs_within (al_nodeAttrs al t) a"
    "t = ''heading'' \<Longrightarrow> heading_in_range al a" "\<forall>m \<in> set marks. admissible_mark al m"
    using TNode.prems by simp_all
  have "walk al path (node_json t a (map render_mark marks) x (map render ns)) =
          Inr ([], node_json t a (map render_mark marks) x (map render ns))"
    unfolding walk.simps [of al path "node_json t a (map render_mark marks) x (map render ns)"]
    by (simp add: has_type_def marks_of_render [OF adm(4)] kids adm(1) heading_render [OF adm(3)]
        filter_attrs_id [OF adm(2)])
  then show ?case by simp
qed

lemma walk_type: "walk al path v = Inr ([], out) \<Longrightarrow> type_of out = type_of v"
  by (auto simp: walk.simps [of al path v] has_type_def sum_bind_eq_Inr split: if_splits option.splits)

subsection \<open>Properties\<close>

text \<open>
  C10: whatever the request body holds, a document that validation lets through is the rendering
  of an admissible document: only listed nodes and marks, only listed attributes, heading levels
  in range, and every link with the forced \<open>rel\<close> and a target.
\<close>

theorem validate_tiptap_sanitises:
  assumes "link_ready al" and "validate_tiptap al code doc = Inr out"
  shows "\<exists>n. out = render n \<and> admissible al n \<and> type_of out = Some ''doc''"
proof -
  from assms(2) have w: "walk al ''$'' doc = Inr ([], out)" and d: "type_of doc = Some ''doc''"
    by (auto simp: validate_tiptap_def sum_bind_eq_Inr split: if_splits)
  show ?thesis using walk_sound(1) [OF assms(1) w] walk_type [OF w] d by metis
qed

definition sample_doc :: json where
  "sample_doc =
     JObj [(''type'', JStr ''doc''), (''content'',
       JArr [JObj [(''type'', JStr ''paragraph''), (''attrs'', JObj [(''onclick'', JStr ''x'')])]])]"

definition sample_clean :: json where
  "sample_clean =
     JObj [(''type'', JStr ''doc''), (''content'', JArr [JObj [(''type'', JStr ''paragraph'')]])]"

lemma sample_doc_validates:
  "validate_tiptap LITE_TIPTAP_ALLOWLIST code sample_doc = Inr sample_clean"
proof -
  have "length (json_text sample_doc) = 71" by code_simp
  moreover have "walk LITE_TIPTAP_ALLOWLIST ''$'' sample_doc = Inr ([], sample_clean)"
    by (simp add: walk_listed sample_doc_def sample_clean_def LITE_TIPTAP_ALLOWLIST_def type_of_def
        marks_of_def children_of_def heading_violations_def filter_attrs_def text_of_def
        node_json_def opt_field_def)
  moreover have "al_maxBytes LITE_TIPTAP_ALLOWLIST = 24576" by (simp add: LITE_TIPTAP_ALLOWLIST_def)
  moreover have "type_of sample_doc = Some ''doc''" by (simp add: sample_doc_def type_of_def)
  ultimately show ?thesis
    unfolding validate_tiptap_def by (simp add: sample_doc_def)
qed

theorem validate_tiptap_sanitises_witness:
  "\<exists>n. sample_clean = render n \<and> admissible LITE_TIPTAP_ALLOWLIST n \<and>
     type_of sample_clean = Some ''doc''"
  by (rule validate_tiptap_sanitises [OF lite_link_ready sample_doc_validates])

text \<open>
  C11: an admissible document of at most the allowed size is accepted unchanged, so validating
  what was stored is a no-op.
\<close>

theorem validate_tiptap_accepts_admissible:
  assumes "admissible al n" and "type_of (render n) = Some ''doc''"
    and "length (json_text (render n)) \<le> al_maxBytes al"
  shows "validate_tiptap al code (render n) = Inr (render n)"
proof -
  have "\<exists>fs. render n = JObj fs" by (cases n) (simp add: node_json_def)
  with assms show ?thesis by (auto simp: validate_tiptap_def walk_render)
qed

theorem validate_tiptap_accepts_admissible_witness:
  "validate_tiptap FULL_TIPTAP_ALLOWLIST COMMENT_LONG_TIPTAP_VIOLATION
     (render (TNode ''doc'' [] [] None [TNode ''heading'' [(''level'', JNum 2)] [] None []])) =
   Inr (render (TNode ''doc'' [] [] None [TNode ''heading'' [(''level'', JNum 2)] [] None []]))"
proof (rule validate_tiptap_accepts_admissible)
  show "admissible FULL_TIPTAP_ALLOWLIST
          (TNode ''doc'' [] [] None [TNode ''heading'' [(''level'', JNum 2)] [] None []])"
    by (simp add: FULL_TIPTAP_ALLOWLIST_def attrs_within_def heading_in_range_def)
  show "type_of (render (TNode ''doc'' [] [] None [TNode ''heading'' [(''level'', JNum 2)] [] None []]))
          = Some ''doc''"
    by simp
  have "length (json_text (render (TNode ''doc'' [] [] None
            [TNode ''heading'' [(''level'', JNum 2)] [] None []]))) = 65"
    by code_simp
  then show "length (json_text (render (TNode ''doc'' [] [] None
            [TNode ''heading'' [(''level'', JNum 2)] [] None []]))) \<le> al_maxBytes FULL_TIPTAP_ALLOWLIST"
    by (simp add: FULL_TIPTAP_ALLOWLIST_def)
qed

text \<open>
  The violations of a refused document come in one response; a \<open>null\<close> where a node or a mark
  should be is not among them, it is a \<open>TypeError\<close> and so a status 500.
\<close>

lemma walk_error:
  "walk al path v = Inl e \<Longrightarrow> e = OtherError TypeError"
  "walk_children al path i vs = Inl e \<Longrightarrow> e = OtherError TypeError"
proof (induction al path v and al path i vs arbitrary: e and e rule: walk_walk_children.induct)
  case (1 al path node)
  have marks: "marks_of al path node = Inl e \<Longrightarrow> e = OtherError TypeError" for e
  proof -
    have "walk_marks al path i ms = Inl e \<Longrightarrow> e = OtherError TypeError" for i ms
      by (induction ms arbitrary: i) (auto simp: sum_bind_eq_Inl split: if_splits option.splits)
    then show "marks_of al path node = Inl e \<Longrightarrow> e = OtherError TypeError"
      by (auto simp: marks_of_def split: option.splits if_splits json.splits)
  qed
  show ?case
  proof (cases "node = JNull \<or> \<not> has_type (al_nodes al) node")
    case True
    then show ?thesis using 1(2) by (auto simp: walk.simps [of al path node] split: if_splits)
  next
    case False
    with 1(2) consider "marks_of al path node = Inl e"
      | mvs ms where "marks_of al path node = Inr (mvs, ms)"
          "walk_children al path 0 (children_of node) = Inl e"
      by (auto simp: walk.simps [of al path node] sum_bind_eq_Inl Let_def)
    then show ?thesis
    proof cases
      case 1
      then show ?thesis by (rule marks)
    next
      case 2
      show ?thesis by (rule 1(1) [OF _ _ refl 2(1) refl 2(2)]) (use False in simp_all)
    qed
  qed
next
  case (3 al path i c cs)
  from 3(3) consider "walk al (index_path path ''content'' i) c = Inl e"
    | vs o1 where "walk al (index_path path ''content'' i) c = Inr (vs, o1)"
        "walk_children al path (Suc i) cs = Inl e"
    by (auto simp: sum_bind_eq_Inl)
  then show ?case
  proof cases
    case 1
    then show ?thesis by (rule 3(1))
  next
    case 2
    show ?thesis by (rule 3(2) [OF 2(1) refl 2(2)])
  qed
qed simp

text \<open>
  A \<open>null\<close> among the children of a document is answered with status 500, not with the 400 that
  every other malformed document gets.
\<close>

theorem validate_lite_null_child:
  "validate_lite_tiptap (JObj [(''type'', JStr ''doc''), (''content'', JArr (JNull # cs))]) =
     (if 24576 < length (json_text (JObj [(''type'', JStr ''doc''), (''content'', JArr (JNull # cs))]))
      then Inl (BadRequest COMMENT_LITE_TIPTAP_VIOLATION) else Inl (OtherError TypeError))"
  by (simp add: validate_lite_tiptap_def validate_tiptap_def walk_listed type_of_def marks_of_def
      children_of_def LITE_TIPTAP_ALLOWLIST_def walk.simps [of _ _ JNull] del: json_text.simps)

end
