(* ===== verification/Guards.thy ===== *)
theory Guards
  imports Redis TipTap
begin

section \<open>Guards, idempotency and auditing\<close>

text \<open>
  The cross-cutting parts of \<open>src/common\<close> that decide whether a request runs: the fixed-window
  rate limit, the confirmation of destructive actions, the role check, the idempotency records,
  the request id and the audit interceptor.  Time is a parameter in milliseconds; \<open>Date.parse\<close>
  and SHA-256 are parameters of the definitions that use them.
\<close>

subsection \<open>Rate limit\<close>

datatype rate_limit_scope = ScopeUser | ScopeIp | ScopeGlobal

record rate_limit_config =
  rl_windowSec :: int
  rl_max :: int
  rl_scope :: rate_limit_scope
  rl_name :: string

fun identifier_for :: "rate_limit_scope \<Rightarrow> string \<Rightarrow> string option \<Rightarrow> string option" where
  "identifier_for ScopeUser ip userId = userId"
| "identifier_for ScopeIp ip userId = Some ip"
| "identifier_for ScopeGlobal ip userId = Some ''all''"

definition window_start :: "int \<Rightarrow> int \<Rightarrow> int" where
  "window_start win now = now div (1000 * win) * win"

definition rate_key :: "string \<Rightarrow> string \<Rightarrow> int \<Rightarrow> string" where
  "rate_key name ident start = ''rl:'' @ name @ '':'' @ ident @ '':'' @ show_int start"

definition rate_limit_guard ::
  "rate_limit_config option \<Rightarrow> int \<Rightarrow> string \<Rightarrow> string option \<Rightarrow> (app_error, redis_map, bool) act" where
  "rate_limit_guard config now ip userId =
     (case config of
        None \<Rightarrow> ret True
      | Some cfg \<Rightarrow>
          (case identifier_for (rl_scope cfg) ip userId of
             None \<Rightarrow> ret True
           | Some ident \<Rightarrow>
               if ident = [] then ret True
               else
                 (\<lambda>m. let key = rate_key (rl_name cfg) ident (window_start (rl_windowSec cfg) now);
                          (used, m1) = redis_incrby now 1 key m;
                          m2 = (if used = 1 then redis_expire now key (rl_windowSec cfg) m1 else m1)
                      in if rl_max cfg < used then (Inl (PlainDomain 429 RATE_LIMIT_EXCEEDED), m2)
                         else (Inr True, m2))))"

text \<open>The answers to a sequence of requests of one handler, each an address, a user and a time.\<close>

fun rate_limit_run ::
  "rate_limit_config \<Rightarrow> (string \<times> string option \<times> int) list \<Rightarrow> redis_map \<Rightarrow> bool list" where
  "rate_limit_run cfg [] m = []"
| "rate_limit_run cfg ((ip, u, now) # es) m =
     (case rate_limit_guard (Some cfg) now ip u m of
        (Inl _, m') \<Rightarrow> False # rate_limit_run cfg es m'
      | (Inr _, m') \<Rightarrow> True # rate_limit_run cfg es m')"

definition in_window :: "rate_limit_config \<Rightarrow> string \<Rightarrow> int \<Rightarrow> string \<times> string option \<times> int \<Rightarrow> bool" where
  "in_window cfg ident start e =
     (case e of (ip, u, now) \<Rightarrow>
        identifier_for (rl_scope cfg) ip u = Some ident \<and> window_start (rl_windowSec cfg) now = start)"

definition admitted_in :: "rate_limit_config \<Rightarrow> string \<Rightarrow> int \<Rightarrow> (string \<times> string option \<times> int) list \<Rightarrow> bool list \<Rightarrow> nat" where
  "admitted_in cfg ident start es rs =
     length (filter (\<lambda>(e, ok). ok \<and> in_window cfg ident start e) (zip es rs))"

lemma is_digit_show_int: "c \<in> set (show_int n) \<Longrightarrow> c \<noteq> CHR '':''"
  by (auto simp: show_int_def is_digit_def dest!: is_digit_show_nat split: if_splits)

lemma show_int_inj: "show_int a = show_int b \<Longrightarrow> a = b"
proof -
  have m: "show_nat n \<noteq> CHR ''-'' # s" for n s
  proof
    assume "show_nat n = CHR ''-'' # s"
    then have "is_digit (CHR ''-'')" using is_digit_show_nat [of "CHR ''-''" n] by simp
    then show False by (simp add: is_digit_def)
  qed
  show "show_int a = show_int b \<Longrightarrow> a = b"
    using m m [symmetric] by (auto simp: show_int_def split: if_splits)
qed

lemma split_at_colon:
  assumes "xs @ CHR '':'' # ds = ys @ CHR '':'' # es"
    and "CHR '':'' \<notin> set ds" and "CHR '':'' \<notin> set es"
  shows "xs = ys \<and> ds = es"
proof -
  have t: "takeWhile (\<lambda>c. c \<noteq> CHR '':'') (rev (zs @ CHR '':'' # fs)) = rev fs"
    if "CHR '':'' \<notin> set fs" for zs fs :: string
    using that by (simp add: takeWhile_append)
  have "rev ds = rev es" using t [OF assms(2), of xs] t [OF assms(3), of ys] assms(1) by simp
  with assms(1) show ?thesis by simp
qed

lemma rate_key_inj: "rate_key n i s = rate_key n j t \<longleftrightarrow> i = j \<and> s = t"
proof
  assume "rate_key n i s = rate_key n j t"
  then have "i @ CHR '':'' # show_int s = j @ CHR '':'' # show_int t" by (simp add: rate_key_def)
  then have "i = j \<and> show_int s = show_int t"
    by (rule split_at_colon) (use is_digit_show_int in blast)+
  then show "i = j \<and> s = t" using show_int_inj by blast
qed simp

text \<open>The counter of a window, while requests of that window still come.\<close>

definition window_count :: "rate_limit_config \<Rightarrow> string \<Rightarrow> int \<Rightarrow> int \<Rightarrow> redis_map \<Rightarrow> bool" where
  "window_count cfg ident start n m \<longleftrightarrow>
     (case m (rate_key (rl_name cfg) ident start) of
        None \<Rightarrow> n = 0
      | Some e \<Rightarrow> re_val e = RInt n \<and> 0 < n \<and>
          (case re_expires e of None \<Rightarrow> True | Some t \<Rightarrow> (start + rl_windowSec cfg) * 1000 \<le> t))"

lemma window_start_bounds:
  "0 < win \<Longrightarrow> window_start win now = s \<Longrightarrow> s * 1000 \<le> now \<and> now < (s + win) * 1000"
proof -
  assume win: "0 < win" and s: "window_start win now = s"
  have "now = now div (1000 * win) * (1000 * win) + now mod (1000 * win)"
    by (rule div_mult_mod_eq [symmetric])
  moreover have "0 \<le> now mod (1000 * win)" "now mod (1000 * win) < 1000 * win"
    using win by simp_all
  moreover have "now div (1000 * win) * (1000 * win) = s * 1000"
    using s by (simp add: window_start_def mult.assoc mult.commute mult.left_commute)
  ultimately show ?thesis by (simp add: algebra_simps)
qed

lemma rate_limit_guard_same:
  assumes "0 < rl_windowSec cfg" and "in_window cfg ident start (ip, u, now)" and "ident \<noteq> []"
    and "window_count cfg ident start n m" and "0 \<le> n"
  shows "\<exists>m'. rate_limit_guard (Some cfg) now ip u m =
             (if rl_max cfg < n + 1 then Inl (PlainDomain 429 RATE_LIMIT_EXCEEDED) else Inr True, m') \<and>
           window_count cfg ident start (n + 1) m'"
proof -
  let ?k = "rate_key (rl_name cfg) ident start"
  have i: "identifier_for (rl_scope cfg) ip u = Some ident"
    and s: "window_start (rl_windowSec cfg) now = start"
    using assms(2) by (simp_all add: in_window_def)
  from window_start_bounds [OF assms(1) s]
  have now: "start * 1000 \<le> now" "now < (start + rl_windowSec cfg) * 1000" by simp_all
  show ?thesis
  proof (cases "m ?k")
    case None
    with assms(4) have "n = 0" by (simp add: window_count_def)
    with None now show ?thesis
      by (auto simp: rate_limit_guard_def i s assms(3) redis_incrby_def redis_expire_def
          window_count_def Let_def algebra_simps)
  next
    case (Some e)
    with assms(4) now have e: "re_val e = RInt n" "0 < n" "redis_live now e"
      by (auto simp: window_count_def redis_live_def split: option.splits)
    with Some assms(4) show ?thesis
      by (auto simp: rate_limit_guard_def i s assms(3) redis_incrby_def window_count_def Let_def)
  qed
qed

lemma rate_limit_guard_other:
  assumes "\<not> in_window cfg ident start (ip, u, now)" and "window_count cfg ident start n m"
    and "rate_limit_guard (Some cfg) now ip u m = (r, m')"
  shows "window_count cfg ident start n m'"
proof (cases "identifier_for (rl_scope cfg) ip u")
  case None
  with assms show ?thesis by (simp add: rate_limit_guard_def)
next
  case (Some j)
  let ?k = "rate_key (rl_name cfg) j (window_start (rl_windowSec cfg) now)"
  have ne: "rate_key (rl_name cfg) ident start \<noteq> ?k"
    using assms(1) Some by (auto simp: rate_key_inj in_window_def)
  show ?thesis
  proof (cases "j = []")
    case True
    with Some assms show ?thesis by (simp add: rate_limit_guard_def)
  next
    case False
    obtain used m1 where inc: "redis_incrby now 1 ?k m = (used, m1)" by fastforce
    have "m' (rate_key (rl_name cfg) ident start) = m (rate_key (rl_name cfg) ident start)"
      using assms(3) redis_incrby_other [OF ne, of now 1 m] redis_expire_other [OF ne, of now "rl_windowSec cfg" m1]
      by (auto simp: rate_limit_guard_def Some False inc Let_def split: if_splits)
    with assms(2) show ?thesis by (simp add: window_count_def)
  qed
qed

lemma rate_limit_run_bound:
  assumes "0 < rl_windowSec cfg" and "ident \<noteq> []"
  shows "window_count cfg ident start n m \<Longrightarrow> 0 \<le> n \<Longrightarrow>
     int (admitted_in cfg ident start es (rate_limit_run cfg es m)) \<le> max 0 (rl_max cfg - n)"
proof (induction es arbitrary: n m)
  case Nil
  then show ?case by (simp add: admitted_in_def)
next
  case (Cons e es)
  obtain ip u now where e: "e = (ip, u, now)" by (cases e)
  show ?case
  proof (cases "in_window cfg ident start e")
    case True
    from rate_limit_guard_same [OF assms(1) True [unfolded e] assms(2) Cons.prems] obtain m' where
      m': "rate_limit_guard (Some cfg) now ip u m =
             (if rl_max cfg < n + 1 then Inl (PlainDomain 429 RATE_LIMIT_EXCEEDED) else Inr True, m')"
      and c: "window_count cfg ident start (n + 1) m'" by blast
    from Cons.IH [OF c] Cons.prems(2) True m' show ?thesis
      by (auto simp: e admitted_in_def split: if_splits)
  next
    case False
    obtain r m' where m': "rate_limit_guard (Some cfg) now ip u m = (r, m')" by fastforce
    from Cons.IH [OF rate_limit_guard_other [OF False [unfolded e] Cons.prems(1) m'] Cons.prems(2)] False m'
    show ?thesis by (cases r) (auto simp: e admitted_in_def)
  qed
qed

text \<open>
  C38: In any interleaving of requests, at most \<open>max\<close> of one identity are admitted in one window,
  when the window's key was not there before.
\<close>

theorem rate_limit_at_most_max:
  assumes "0 < rl_windowSec cfg" and "0 \<le> rl_max cfg" and "ident \<noteq> []"
    and "m (rate_key (rl_name cfg) ident start) = None"
  shows "int (admitted_in cfg ident start es (rate_limit_run cfg es m)) \<le> rl_max cfg"
  using rate_limit_run_bound [OF assms(1,3), of start 0 m es] assms(2,4)
  by (simp add: window_count_def)

definition reports_limit :: rate_limit_config where
  "reports_limit = \<lparr>rl_windowSec = 60, rl_max = 1, rl_scope = ScopeUser, rl_name = ''reports.create''\<rparr>"

theorem rate_limit_at_most_max_witness:
  "int (admitted_in reports_limit ''u1'' 60
     [(''ip'', Some ''u1'', 61000), (''ip'', Some ''u1'', 62000)]
     (rate_limit_run reports_limit
        [(''ip'', Some ''u1'', 61000), (''ip'', Some ''u1'', 62000)] Map.empty)) \<le> 1"
  using rate_limit_at_most_max [of reports_limit "''u1''" Map.empty 60
      "[(''ip'', Some ''u1'', 61000), (''ip'', Some ''u1'', 62000)]"]
  by (simp add: reports_limit_def)

subsection \<open>Confirmation of destructive actions\<close>

definition CONFIRMATION_PHRASE :: string where "CONFIRMATION_PHRASE = ''I understand''"

definition CONFIRMATION_WINDOW_SEC :: int where "CONFIRMATION_WINDOW_SEC = 60"

text \<open>\<open>date_parse\<close> is \<open>Date.parse\<close>, with \<open>None\<close> for a result that is not finite.\<close>

definition confirmation_guard ::
  "(json \<Rightarrow> int option) \<Rightarrow> bool \<Rightarrow> int \<Rightarrow> json option \<Rightarrow> app_error + bool" where
  "confirmation_guard date_parse required now body =
     (if \<not> required then Inr True
      else
        (let b = (case body of None \<Rightarrow> JObj [] | Some JNull \<Rightarrow> JObj [] | Some v \<Rightarrow> v)
         in if get_prop b ''confirm'' \<noteq> Some (JStr CONFIRMATION_PHRASE)
            then Inl (BadRequest CONFIRMATION_REQUIRED)
            else
              (case get_prop b ''confirmedAt'' of
                 None \<Rightarrow> Inl (BadRequest CONFIRMATION_REQUIRED)
               | Some at \<Rightarrow>
                   if \<not> truthy at then Inl (BadRequest CONFIRMATION_REQUIRED)
                   else
                     (case date_parse at of
                        None \<Rightarrow> Inl (BadRequest CONFIRMATION_REQUIRED)
                      | Some ts \<Rightarrow>
                          if CONFIRMATION_WINDOW_SEC * 1000 < now - ts
                          then Inl (BadRequest CONFIRMATION_EXPIRED)
                          else Inr True))))"

text \<open>
  A request to a destructive action passes exactly when its body has the phrase and a time
  that is not more than 60 seconds in the past.  A time in the future passes too, and keeps
  passing until 60 seconds after it.
\<close>

theorem confirmation_guard_passes_iff:
  "confirmation_guard date_parse True now body = Inr ok \<longleftrightarrow>
     ok \<and>
     (\<exists>b at ts. body = Some b \<and> get_prop b ''confirm'' = Some (JStr ''I understand'') \<and>
        get_prop b ''confirmedAt'' = Some at \<and> truthy at \<and> date_parse at = Some ts \<and>
        now \<le> ts + 60000)"
proof -
  have n: "get_prop (case body of None \<Rightarrow> JObj [] | Some JNull \<Rightarrow> JObj [] | Some v \<Rightarrow> v) k =
             (case body of None \<Rightarrow> None | Some b \<Rightarrow> get_prop b k)" for k
    by (cases body) (auto split: json.splits)
  show ?thesis
    unfolding confirmation_guard_def Let_def n
    by (auto simp: CONFIRMATION_PHRASE_def CONFIRMATION_WINDOW_SEC_def split: option.splits if_splits)
qed

subsection \<open>Roles\<close>

datatype app_role = RoleUser | RoleContributor | RoleAdmin

fun role_rank :: "app_role \<Rightarrow> nat" where
  "role_rank RoleUser = 0"
| "role_rank RoleContributor = 1"
| "role_rank RoleAdmin = 2"

instantiation app_role :: linorder
begin

definition less_eq_app_role :: "app_role \<Rightarrow> app_role \<Rightarrow> bool" where
  "less_eq_app_role r s \<longleftrightarrow> role_rank r \<le> role_rank s"

definition less_app_role :: "app_role \<Rightarrow> app_role \<Rightarrow> bool" where
  "less_app_role r s \<longleftrightarrow> role_rank r < role_rank s"

instance
proof
  fix x y :: app_role
  show "x \<le> y \<Longrightarrow> y \<le> x \<Longrightarrow> x = y"
    by (cases x; cases y; simp add: less_eq_app_role_def)
qed (auto simp: less_eq_app_role_def less_app_role_def)

end

text \<open>\<open>who\<close> is the role of \<open>request.user\<close>, \<open>None\<close> for a request without a user.\<close>

definition roles_guard :: "app_role list option \<Rightarrow> app_role option \<Rightarrow> app_error + bool" where
  "roles_guard required who =
     (case required of
        None \<Rightarrow> Inr True
      | Some rs \<Rightarrow>
          if rs = [] then Inr True
          else
            (case who of
               None \<Rightarrow> Inl Forbidden
             | Some r \<Rightarrow>
                 let min_rank = Min (set (map role_rank rs))
                 in if role_rank r < min_rank then Inl Forbidden else Inr True))"

text \<open>
  A role guard passes exactly the principals whose role is at least one of the roles it
  lists, in the order user, contributor, admin.
\<close>

theorem roles_guard_passes_iff:
  assumes "rs \<noteq> []"
  shows "roles_guard (Some rs) who = Inr True \<longleftrightarrow>
           (case who of None \<Rightarrow> False | Some r \<Rightarrow> \<exists>q \<in> set rs. q \<le> r)"
proof (cases who)
  case (Some r)
  have "Min (set (map role_rank rs)) \<le> role_rank r \<longleftrightarrow> (\<exists>q \<in> set rs. role_rank q \<le> role_rank r)"
    using assms by (auto simp: Min_le_iff)
  with assms Some show ?thesis
    by (auto simp: roles_guard_def Let_def less_eq_app_role_def not_less)
qed (use assms in \<open>simp add: roles_guard_def\<close>)

theorem roles_guard_passes_iff_witness:
  "roles_guard (Some [RoleContributor]) (Some RoleAdmin) = Inr True \<longleftrightarrow> True"
  using roles_guard_passes_iff [of "[RoleContributor]" "Some RoleAdmin"]
  by (simp add: less_eq_app_role_def)

text \<open>\<open>AdminGuard\<close> runs the Keycloak guard first; that guard's result is \<open>keycloak\<close>.\<close>

definition admin_guard :: "app_error + bool \<Rightarrow> (bool option) \<Rightarrow> app_error + bool" where
  "admin_guard keycloak isAdmin =
     (case keycloak of
        Inl e \<Rightarrow> Inl e
      | Inr ok \<Rightarrow>
          if \<not> ok then Inr False
          else (case isAdmin of Some True \<Rightarrow> Inr True | _ \<Rightarrow> Inl Forbidden))"

lemma admin_guard_passes: "admin_guard k a = Inr True \<Longrightarrow> k = Inr True \<and> a = Some True"
  by (auto simp: admin_guard_def split: sum.splits if_splits option.splits bool.splits)

subsection \<open>Request ids\<close>

definition request_id :: "string option \<Rightarrow> string option \<Rightarrow> string \<Rightarrow> string" where
  "request_id requestHeader amznHeader uuid =
     (let inbound = (case requestHeader of Some s \<Rightarrow> Some s | None \<Rightarrow> amznHeader)
      in case inbound of
           Some s \<Rightarrow> if s \<noteq> [] \<and> length s \<le> 200 then s else uuid
         | None \<Rightarrow> uuid)"

lemma request_id_bounded: "length uuid \<le> 200 \<Longrightarrow> length (request_id h a uuid) \<le> 200"
  by (auto simp: request_id_def Let_def split: option.splits)

subsection \<open>Idempotency records\<close>

definition IDEMPOTENCY_TTL_SECONDS :: int where "IDEMPOTENCY_TTL_SECONDS = 24 * 60 * 60"

record idempotency_record =
  ir_bodyHash :: string
  ir_status :: int
  ir_response :: json

definition idem_key :: "string \<Rightarrow> string \<Rightarrow> string \<Rightarrow> string" where
  "idem_key userId route key = ''idem:'' @ userId @ '':'' @ route @ '':'' @ key"

definition hash_body :: "(string \<Rightarrow> string) \<Rightarrow> json option \<Rightarrow> string" where
  "hash_body sha body = sha (json_text (case body of None \<Rightarrow> JNull | Some v \<Rightarrow> v))"

definition idem_json :: "idempotency_record \<Rightarrow> json" where
  "idem_json r =
     JObj [(''bodyHash'', JStr (ir_bodyHash r)), (''status'', JNum (ir_status r)),
           (''response'', ir_response r)]"

definition idem_of_json :: "json \<Rightarrow> idempotency_record option" where
  "idem_of_json v =
     (case (get_prop v ''bodyHash'', get_prop v ''status'', get_prop v ''response'') of
        (Some (JStr h), Some (JNum n), Some x) \<Rightarrow> Some \<lparr>ir_bodyHash = h, ir_status = n, ir_response = x\<rparr>
      | _ \<Rightarrow> None)"

definition idem_lookup ::
  "(string \<Rightarrow> string) \<Rightarrow> int \<Rightarrow> string \<Rightarrow> string \<Rightarrow> string \<Rightarrow> json option \<Rightarrow>
     (app_error, redis_map, idempotency_record option) act" where
  "idem_lookup sha now userId route key body =
     (\<lambda>m. (case redis_get now (idem_key userId route key) m of
             None \<Rightarrow> Inr None
           | Some raw \<Rightarrow>
               if raw = [] then Inr None
               else
                 (case json_parse raw of
                    None \<Rightarrow> Inl (OtherError TypeError)
                  | Some v \<Rightarrow>
                      (case idem_of_json v of
                         None \<Rightarrow> Inl (OtherError TypeError)
                       | Some r \<Rightarrow>
                           if ir_bodyHash r \<noteq> hash_body sha body
                           then Inl (Conflict IDEMPOTENCY_KEY_REUSED)
                           else Inr (Some r))), m))"

definition idem_store ::
  "(string \<Rightarrow> string) \<Rightarrow> int \<Rightarrow> string \<Rightarrow> string \<Rightarrow> string \<Rightarrow> json option \<Rightarrow> int \<Rightarrow> json \<Rightarrow>
     (app_error, redis_map, unit) act" where
  "idem_store sha now userId route key body status response =
     upd (redis_set_ex now (idem_key userId route key)
            (json_text (idem_json \<lparr>ir_bodyHash = hash_body sha body, ir_status = status,
                                   ir_response = response\<rparr>))
            IDEMPOTENCY_TTL_SECONDS)"

text \<open>
  Within a day, a retry with the same body is answered with the stored status and response,
  and a retry whose body hashes differently is refused as a conflict.
\<close>

theorem idempotency_replay:
  assumes "js_plain response" and "idem_store sha t0 u r k body status response m = (Inr (), m1)"
    and "t < t0 + 86400000"
  shows "fst (idem_lookup sha t u r k body' m1) =
           (if hash_body sha body' = hash_body sha body
            then Inr (Some \<lparr>ir_bodyHash = hash_body sha body, ir_status = status, ir_response = response\<rparr>)
            else Inl (Conflict IDEMPOTENCY_KEY_REUSED))"
proof -
  let ?r = "\<lparr>ir_bodyHash = hash_body sha body, ir_status = status, ir_response = response\<rparr>"
  have parse: "json_parse (json_text (idem_json ?r)) = Some (idem_json ?r)"
    by (rule json_parse_text) (simp add: idem_json_def assms(1))
  have "idem_of_json (idem_json ?r) = Some ?r" by (simp add: idem_of_json_def idem_json_def)
  moreover have "redis_get t (idem_key u r k) m1 = Some (json_text (idem_json ?r))"
    using assms(2,3) by (auto simp: idem_store_def IDEMPOTENCY_TTL_SECONDS_def)
  moreover have "json_text (idem_json ?r) \<noteq> []" by (simp add: idem_json_def)
  ultimately show ?thesis by (simp add: idem_lookup_def parse)
qed

theorem idempotency_replay_witness:
  "fst (idem_lookup (\<lambda>s. s) 5000 ''u'' ''r'' ''k'' None
         (snd (idem_store (\<lambda>s. s) 0 ''u'' ''r'' ''k'' None 201 JNull Map.empty))) =
   Inr (Some \<lparr>ir_bodyHash = ''null'', ir_status = 201, ir_response = JNull\<rparr>)"
  using idempotency_replay [of JNull "\<lambda>s. s" 0 "''u''" "''r''" "''k''" None 201 Map.empty
      "snd (idem_store (\<lambda>s. s) 0 ''u'' ''r'' ''k'' None 201 JNull Map.empty)" 5000 None]
  by (simp add: idem_store_def hash_body_def)

lemma idem_lookup_expired:
  "idem_store sha t0 u r k body status response m = (Inr (), m1) \<Longrightarrow> t0 + 86400000 \<le> t \<Longrightarrow>
     fst (idem_lookup sha t u r k body' m1) = Inr None"
  by (auto simp: idem_store_def idem_lookup_def IDEMPOTENCY_TTL_SECONDS_def)

subsection \<open>The audit interceptor\<close>

record audit_request =
  ar_params :: "json option"
  ar_body :: "json option"
  ar_query :: "json option"
  ar_method :: string
  ar_url :: string
  ar_userId :: "string option"

fun js_string :: "json \<Rightarrow> string" where
  "js_string JNull = ''null''"
| "js_string (JBool b) = (if b then ''true'' else ''false'')"
| "js_string (JNum n) = show_int n"
| "js_string (JStr s) = s"
| "js_string (JArr vs) = join_with '','' (map (\<lambda>v. if v = JNull then [] else js_string v) vs)"
| "js_string (JObj fs) = ''[object Object]''"

fun follow_path :: "string list \<Rightarrow> json option \<Rightarrow> json option" where
  "follow_path [] c = c"
| "follow_path (p # ps) c =
     (case c of
        Some (JObj fs) \<Rightarrow> follow_path ps (map_of fs p)
      | Some (JArr vs) \<Rightarrow> follow_path ps (map_of (json_entries (JArr vs)) p)
      | _ \<Rightarrow> None)"

text \<open>\<open>subjectParam\<close> is given as the section and the names after it.\<close>

definition resolve_subject_id :: "audit_request \<Rightarrow> (string \<times> string list) option \<Rightarrow> string option" where
  "resolve_subject_id req param =
     (let (sec, rest) = (case param of None \<Rightarrow> (''params'', [''id'']) | Some p \<Rightarrow> p);
          root = (if sec = ''params'' then ar_params req
                  else if sec = ''body'' then ar_body req
                  else if sec = ''query'' then ar_query req else None)
      in case root of
           None \<Rightarrow> None
         | Some r \<Rightarrow>
             if \<not> truthy r then None
             else if rest = [] then (case r of JStr s \<Rightarrow> Some s | _ \<Rightarrow> None)
             else
               (case follow_path rest (Some r) of
                  None \<Rightarrow> None
                | Some JNull \<Rightarrow> None
                | Some v \<Rightarrow> Some (js_string v)))"

definition lower_char :: "char \<Rightarrow> char" where
  "lower_char c = (let n = of_char c :: nat in if 65 \<le> n \<and> n \<le> 90 then char_of (n + 32) else c)"

definition secret_key :: "string \<Rightarrow> bool" where
  "secret_key k =
     (let l = map lower_char k
      in list_ex (\<lambda>p. list_ex (\<lambda>i. take (length p) (drop i l) = p) [0..<length l])
           [''token'', ''secret'', ''password'', ''pepper'', ''keycloakaccesstoken'', ''devicetoken''])"

fun redact :: "json \<Rightarrow> json" where
  "redact (JObj fs) = JObj (map (\<lambda>(k, v). (k, if secret_key k then JStr ''[redacted]'' else v)) fs)"
| "redact (JArr vs) = JObj (json_entries (JArr vs))"
| "redact v = v"

definition audit_metadata :: "audit_request \<Rightarrow> json" where
  "audit_metadata req =
     JObj ((case ar_params req of None \<Rightarrow> [] | Some p \<Rightarrow> [(''params'', redact p)])
           @ (case ar_body req of None \<Rightarrow> [] | Some b \<Rightarrow> [(''body'', redact b)])
           @ [(''method'', JStr (ar_method req)), (''url'', JStr (ar_url req))])"

definition audit_record ::
  "int \<Rightarrow> string option \<Rightarrow> string \<Rightarrow> string \<Rightarrow> string \<Rightarrow> json option \<Rightarrow> unit handler" where
  "audit_record now actor action stype sid meta =
     upd (audit_logs_update (\<lambda>rs. rs @
       [\<lparr>au_actorId = actor, au_action = action, au_subjectType = stype, au_subjectId = sid,
         au_metadata = Some (case meta of None \<Rightarrow> JObj [] | Some v \<Rightarrow> v), au_createdAt = now\<rparr>]))"

record audit_config =
  ac_action :: string
  ac_subjectType :: string
  ac_subjectParam :: "(string \<times> string list) option"

definition audited :: "int \<Rightarrow> audit_config option \<Rightarrow> audit_request \<Rightarrow> 'a handler \<Rightarrow> 'a handler" where
  "audited now config req h =
     (case config of
        None \<Rightarrow> h
      | Some cfg \<Rightarrow>
          bnd h (\<lambda>x.
          bnd (audit_record now (ar_userId req) (ac_action cfg) (ac_subjectType cfg)
                 (case resolve_subject_id req (ac_subjectParam cfg) of None \<Rightarrow> ''unknown'' | Some s \<Rightarrow> s)
                 (Some (audit_metadata req)))
            (\<lambda>_. ret x)))"

text \<open>
  An audited handler leaves exactly one more row in the audit log when it succeeds and none
  when it fails, and it changes neither the handler's answer nor the rest of what it did.
\<close>

theorem audited_logs_successes:
  assumes "h w = (r, w1)" and "audited now (Some cfg) req h w = (r', w2)"
  shows "r' = r \<and>
         (\<exists>row. audit_logs_update (\<lambda>_. audit_logs w1) w2 = w1 \<and>
            audit_logs w2 = audit_logs w1 @ (case r of Inl _ \<Rightarrow> [] | Inr _ \<Rightarrow> [row]) \<and>
            au_action row = ac_action cfg \<and> au_actorId row = ar_userId req \<and> au_createdAt row = now)"
proof -
  let ?row = "\<lparr>au_actorId = ar_userId req, au_action = ac_action cfg, au_subjectType = ac_subjectType cfg,
     au_subjectId = (case resolve_subject_id req (ac_subjectParam cfg) of None \<Rightarrow> ''unknown'' | Some s \<Rightarrow> s),
     au_metadata = Some (audit_metadata req), au_createdAt = now\<rparr>"
  from assms show ?thesis
    by (intro conjI exI [of _ ?row]; cases r)
      (auto simp: audited_def audit_record_def bnd_apply)
qed

theorem audited_logs_successes_witness:
  "\<exists>row. audit_logs (snd (audited 7 (Some \<lparr>ac_action = ''x'', ac_subjectType = ''y'', ac_subjectParam = None\<rparr>)
       \<lparr>ar_params = None, ar_body = None, ar_query = None, ar_method = ''POST'', ar_url = ''/'', ar_userId = None\<rparr>
       (ret ()) empty_world)) = [row]"
proof -
  let ?cfg = "\<lparr>ac_action = ''x'', ac_subjectType = ''y'', ac_subjectParam = None\<rparr>"
  let ?req = "\<lparr>ar_params = None, ar_body = None, ar_query = None, ar_method = ''POST'', ar_url = ''/'', ar_userId = None\<rparr>"
  obtain r' w2 where eq: "audited 7 (Some ?cfg) ?req (ret ()) empty_world = (r', w2)" by fastforce
  have h: "ret () empty_world = (Inr (), empty_world)" by simp
  from audited_logs_successes [OF h eq] show ?thesis by (auto simp: eq)
qed

lemma redact_hides: "secret_key k \<Longrightarrow> get_prop (redact (JObj fs)) k \<in> {None, Some (JStr ''[redacted]'')}"
  by (induction fs) auto

end
