(* ===== verification/Jobs.thy ===== *)
theory Jobs
  imports Guards
begin

section \<open>The job producer\<close>

text \<open>
  \<open>src/modules/jobs/jobs.producer.ts\<close> and \<open>queue-names.ts\<close>: every enqueue operation appends a
  job to the world's list, in the order of the calls, or fails when the Redis of the queues does not answer, which
  the field \<open>queue_down\<close> of the world says.  Which of the jobs BullMQ
  takes is in \<open>Producer\<close>; what a worker does with a job is in the theories of the workers.
\<close>

fun queue_name :: "queue \<Rightarrow> string" where
  "queue_name ANALYZE_Q = ''analyze''"
| "queue_name ANALYZE_VERSION_Q = ''analyze-version''"
| "queue_name GLTF_CONVERT_Q = ''gltf-convert''"
| "queue_name THUMBNAIL_VARIANTS_Q = ''thumbnail-variants''"
| "queue_name THUMBNAIL_RENDER_Q = ''thumbnail-render''"
| "queue_name SEARCH_INDEX_Q = ''search-index''"
| "queue_name SEARCH_INDEX_BATCH_Q = ''search-index-batch''"
| "queue_name NOTIFY_Q = ''notify''"
| "queue_name WEBHOOK_Q = ''webhook''"
| "queue_name ARCHIVE_PURGE_Q = ''archive-purge''"
| "queue_name AUDIT_PURGE_Q = ''audit-purge''"
| "queue_name EDITOR_MEDIA_GC_Q = ''editor-media-gc''"
| "queue_name ANALYTICS_ROLLUP_Q = ''analytics-rollup''"
| "queue_name STORAGE_ROLLUP_Q = ''storage-rollup''"

fun queue_concurrency :: "queue \<Rightarrow> nat" where
  "queue_concurrency ANALYZE_Q = 2"
| "queue_concurrency ANALYZE_VERSION_Q = 2"
| "queue_concurrency GLTF_CONVERT_Q = 2"
| "queue_concurrency THUMBNAIL_VARIANTS_Q = 4"
| "queue_concurrency THUMBNAIL_RENDER_Q = 2"
| "queue_concurrency SEARCH_INDEX_Q = 4"
| "queue_concurrency SEARCH_INDEX_BATCH_Q = 1"
| "queue_concurrency NOTIFY_Q = 8"
| "queue_concurrency WEBHOOK_Q = 2"
| "queue_concurrency ARCHIVE_PURGE_Q = 1"
| "queue_concurrency AUDIT_PURGE_Q = 1"
| "queue_concurrency EDITOR_MEDIA_GC_Q = 1"
| "queue_concurrency ANALYTICS_ROLLUP_Q = 1"
| "queue_concurrency STORAGE_ROLLUP_Q = 1"

fun queue_of :: "job_payload \<Rightarrow> queue" where
  "queue_of (AnalyzeFileJob _ _ _) = ANALYZE_Q"
| "queue_of (AnalyzeVersionJob _ _) = ANALYZE_VERSION_Q"
| "queue_of (GltfConvertJob _ _ _ _) = GLTF_CONVERT_Q"
| "queue_of (ThumbnailVariantsJob _ _) = THUMBNAIL_VARIANTS_Q"
| "queue_of (ThumbnailRenderJob _ _) = THUMBNAIL_RENDER_Q"
| "queue_of (SearchIndexJob _ _) = SEARCH_INDEX_Q"
| "queue_of (NotifyJob _) = NOTIFY_Q"
| "queue_of (WebhookDeliveryJob _) = WEBHOOK_Q"
| "queue_of (TriggeredJob q _) = q"

fun analyze_reason_name :: "analyze_reason \<Rightarrow> string" where
  "analyze_reason_name FAN_IN = ''fan-in''"
| "analyze_reason_name REANALYZE = ''reanalyze''"

fun search_reason_name :: "search_reason \<Rightarrow> string" where
  "search_reason_name ASSET_PUBLISH = ''asset.publish''"
| "search_reason_name ASSET_UPDATE = ''asset.update''"
| "search_reason_name ASSET_ARCHIVE = ''asset.archive''"
| "search_reason_name ASSET_RESTORE = ''asset.restore''"
| "search_reason_name ASSET_DELETE = ''asset.delete''"
| "search_reason_name ASSET_STATS = ''asset.stats''"

definition queue_failed :: app_error where
  "queue_failed = OtherError (RemoteFailure ''queue'')"

definition submit :: "string option \<Rightarrow> job_payload \<Rightarrow> unit handler" where
  "submit i p =
     bnd (gets queue_down) (\<lambda>down.
     bnd (check (\<not> down) queue_failed) (\<lambda>_.
     upd (jobs_update (\<lambda>js. js @ [\<lparr>jb_id = i, jb_payload = p\<rparr>]))))"

definition sanitize_colons :: "string \<Rightarrow> string" where
  "sanitize_colons s = concat (map (\<lambda>c. if c = CHR '':'' then ''__'' else [c]) s)"

definition enqueueAnalyzeFile :: "string \<Rightarrow> string \<Rightarrow> string option \<Rightarrow> unit handler" where
  "enqueueAnalyzeFile versionId fileId kindHint =
     submit (Some (versionId @ ''__'' @ fileId)) (AnalyzeFileJob versionId fileId kindHint)"

definition enqueueAnalyzeVersion :: "string \<Rightarrow> analyze_reason \<Rightarrow> unit handler" where
  "enqueueAnalyzeVersion versionId reason =
     submit (Some (versionId @ ''__'' @ analyze_reason_name reason)) (AnalyzeVersionJob versionId reason)"

definition enqueueGltfConvert :: "string \<Rightarrow> string \<Rightarrow> string \<Rightarrow> file_kind \<Rightarrow> unit handler" where
  "enqueueGltfConvert versionId fileId sourceKey sourceKind =
     submit (Some fileId) (GltfConvertJob versionId fileId sourceKey sourceKind)"

definition enqueueThumbnailVariants :: "string \<Rightarrow> string \<Rightarrow> unit handler" where
  "enqueueThumbnailVariants assetId sourceKey =
     submit (Some (sanitize_colons sourceKey)) (ThumbnailVariantsJob assetId sourceKey)"

definition enqueueThumbnailRender :: "string \<Rightarrow> string \<Rightarrow> unit handler" where
  "enqueueThumbnailRender versionId glbKey =
     submit (Some (versionId @ ''__'' @ glbKey)) (ThumbnailRenderJob versionId glbKey)"

definition enqueueSearchIndex :: "string \<Rightarrow> search_reason \<Rightarrow> unit handler" where
  "enqueueSearchIndex assetId reason =
     submit (Some (assetId @ ''__'' @ search_reason_name reason)) (SearchIndexJob assetId reason)"

definition enqueueNotify :: "notify_job \<Rightarrow> unit handler" where
  "enqueueNotify j = submit None (NotifyJob j)"

definition enqueueWebhook :: "webhook_job \<Rightarrow> unit handler" where
  "enqueueWebhook j = submit None (WebhookDeliveryJob j)"

lemmas enqueue_defs =
  enqueueAnalyzeFile_def enqueueAnalyzeVersion_def enqueueGltfConvert_def
  enqueueThumbnailVariants_def enqueueThumbnailRender_def enqueueSearchIndex_def
  enqueueNotify_def enqueueWebhook_def

lemma submit_apply [act_simps, simp]:
  "submit i p w =
     (if queue_down w then (Inl queue_failed, w) else (Inr (), jobs_update (\<lambda>js. js @ [\<lparr>jb_id = i, jb_payload = p\<rparr>]) w))"
  by (simp add: submit_def act_simps)

lemma sanitize_colons_clean: "CHR '':'' \<notin> set (sanitize_colons s)"
  by (auto simp: sanitize_colons_def split: if_splits)

lemma keeps_submit: "(\<And>w f. I w \<Longrightarrow> I (jobs_update f w)) \<Longrightarrow> keeps I (submit i p)"
  by (simp add: keeps_def)

lemma queue_name_inj: "queue_name q = queue_name r \<longleftrightarrow> q = r"
  by (cases q; cases r; simp)

text \<open>The notification helpers that several services share.\<close>

fun notification_type_name :: "notification_type \<Rightarrow> string" where
  "notification_type_name COMMENT_CREATED = ''COMMENT_CREATED''"
| "notification_type_name COMMENT_REPLY = ''COMMENT_REPLY''"
| "notification_type_name ISSUE_CREATED = ''ISSUE_CREATED''"
| "notification_type_name ISSUE_STATUS_CHANGED = ''ISSUE_STATUS_CHANGED''"
| "notification_type_name REQUEST_CREATED = ''REQUEST_CREATED''"
| "notification_type_name REQUEST_STATUS_CHANGED = ''REQUEST_STATUS_CHANGED''"
| "notification_type_name REPORT_CREATED = ''REPORT_CREATED''"
| "notification_type_name REPORT_RECEIVED_FOR_YOUR_ASSET = ''REPORT_RECEIVED_FOR_YOUR_ASSET''"
| "notification_type_name FEATURED_FEATURED = ''FEATURED_FEATURED''"
| "notification_type_name VERSION_PUBLISHED = ''VERSION_PUBLISHED''"
| "notification_type_name ANALYZER_FAILED = ''ANALYZER_FAILED''"
| "notification_type_name ADMIN_PROMOTED = ''ADMIN_PROMOTED''"
| "notification_type_name ADMIN_DEMOTED = ''ADMIN_DEMOTED''"

definition user_ref_of :: "user_row \<Rightarrow> user_ref" where
  "user_ref_of u = \<lparr>ur_id = u_id u, ur_email = Some (u_email u), ur_name = Some (u_name u)\<rparr>"

definition user_ref_json :: "user_row \<Rightarrow> json" where
  "user_ref_json u =
     JObj [(''id'', JStr (u_id u)), (''displayName'', JStr (u_name u)), (''email'', JStr (u_email u))]"

definition asset_ref_fields :: "asset_row \<Rightarrow> (string \<times> json) list" where
  "asset_ref_fields a =
     [(''assetId'', JStr (a_id a)), (''assetSlug'', JStr (a_slug a)), (''assetTitle'', JStr (a_title a))]"

definition notify_of :: "string \<Rightarrow> notification_type \<Rightarrow> (string \<times> json) list \<Rightarrow> user_row \<Rightarrow> notify_job" where
  "notify_of recipient ty payload actor =
     \<lparr>nj_recipient = recipient, nj_type = ty, nj_payload = JObj payload, nj_drop = [], nj_actor = Some (user_ref_of actor)\<rparr>"

end
