(* ===== verification/Auth.thy ===== *)
theory Auth
  imports Jobs
begin

section \<open>Authentication: plugin tokens, principals and the auth guards\<close>

text \<open>
  \<open>src/infra/keycloak\<close>, \<open>src/modules/auth/auth.service.ts\<close> and the bull-board guard of
  \<open>src/modules/jobs/admin-queue-auth.guard.ts\<close>.  The verification of a Keycloak token
  (\<open>jwks\<close>), the HMAC of a plugin token (\<open>hmac\<close>), \<open>Date.parse\<close> and the random tokens and ids are
  parameters.  \<open>toLowerCase\<close> is modelled on ASCII letters.

  The life of a plugin token is a step relation: issue, verify, refresh and revoke, at times that
  do not go back.  A token that is revoked or expired stays so.
\<close>

subsection \<open>Strings\<close>

definition lower :: "string \<Rightarrow> string" where
  "lower s = map lower_char s"

text \<open>The single-byte characters that \<open>trim\<close> removes: tab to carriage return, and the space.\<close>

definition is_blank :: "char \<Rightarrow> bool" where
  "is_blank c \<longleftrightarrow> c = CHR 0x20 \<or> c = CHR 0x09 \<or> c = CHR 0x0A \<or> c = CHR 0x0B \<or> c = CHR 0x0C \<or> c = CHR 0x0D"

definition trim :: "string \<Rightarrow> string" where
  "trim s = rev (dropWhile is_blank (rev (dropWhile is_blank s)))"

fun split_on :: "char \<Rightarrow> string \<Rightarrow> string list" where
  "split_on c [] = [[]]"
| "split_on c (x # xs) =
     (if x = c then [] # split_on c xs
      else (case split_on c xs of [] \<Rightarrow> [[x]] | p # ps \<Rightarrow> (x # p) # ps))"

definition starts_with :: "string \<Rightarrow> string \<Rightarrow> bool" where
  "starts_with p s \<longleftrightarrow> take (length p) s = p"

subsection \<open>Plugin device tokens\<close>

record token_config =
  tc_hmac :: "string \<Rightarrow> string"
  tc_ttlDays :: int

record issued_token =
  it_deviceId :: string
  it_token :: string
  it_expiresAt :: int

definition new_expiry :: "token_config \<Rightarrow> int \<Rightarrow> int" where
  "new_expiry cfg now = now + tc_ttlDays cfg * 86400000"

text \<open>\<open>i\<close> is the row's fresh id and \<open>tok\<close> the random token.\<close>

definition issue_token ::
  "token_config \<Rightarrow> int \<Rightarrow> string \<Rightarrow> string \<Rightarrow> string \<Rightarrow> string \<Rightarrow> issued_token handler" where
  "issue_token cfg now i tok userId label =
     bnd (gets (\<lambda>w. some_row (\<lambda>r. pt_hash r = tc_hmac cfg tok) (plugin_tokens w))) (\<lambda>taken.
     bnd (check (\<not> taken) (OtherError (UniqueViolation ''plugin_device_tokens.tokenHash''))) (\<lambda>_.
     bnd (upd (plugin_tokens_update (\<lambda>rs. rs @
            [\<lparr>pt_id = i, pt_userId = userId, pt_label = label, pt_hash = tc_hmac cfg tok,
              pt_lastUsedAt = None, pt_revokedAt = None, pt_expiresAt = new_expiry cfg now,
              pt_createdAt = now\<rparr>]))) (\<lambda>_.
     ret \<lparr>it_deviceId = i, it_token = tok, it_expiresAt = new_expiry cfg now\<rparr>)))"

definition token_row_of :: "token_config \<Rightarrow> string \<Rightarrow> world \<Rightarrow> token_row option" where
  "token_row_of cfg tok w = find_row pt_hash (tc_hmac cfg tok) (plugin_tokens w)"

definition token_active :: "int \<Rightarrow> token_row \<Rightarrow> bool" where
  "token_active now r \<longleftrightarrow> pt_revokedAt r = None \<and> \<not> pt_expiresAt r < now"

text \<open>\<open>touch_ok\<close>: whether the write of \<open>lastUsedAt\<close> succeeds; its failure is ignored.\<close>

definition verify_and_touch ::
  "token_config \<Rightarrow> bool \<Rightarrow> int \<Rightarrow> string \<Rightarrow> (user_row \<times> token_row) option handler" where
  "verify_and_touch cfg touch_ok now tok =
     (\<lambda>w. case token_row_of cfg tok w of
        None \<Rightarrow> (Inr None, w)
      | Some r \<Rightarrow>
          if \<not> token_active now r then (Inr None, w)
          else
            (let stale = (case pt_lastUsedAt r of None \<Rightarrow> True | Some t \<Rightarrow> 60000 < now - t);
                 w' = (if stale \<and> touch_ok
                       then plugin_tokens_update
                              (set_rows (\<lambda>x. pt_id x = pt_id r) (pt_lastUsedAt_update (\<lambda>_. Some now))) w
                       else w)
             in (Inr (case user_by (pt_userId r) w of None \<Rightarrow> None | Some u \<Rightarrow> Some (u, r)), w')))"

definition refresh_expiry :: "token_config \<Rightarrow> int \<Rightarrow> string \<Rightarrow> int option handler" where
  "refresh_expiry cfg now tok =
     (\<lambda>w. case token_row_of cfg tok w of
        None \<Rightarrow> (Inr None, w)
      | Some r \<Rightarrow>
          if \<not> token_active now r then (Inr None, w)
          else
            (Inr (Some (new_expiry cfg now)),
             plugin_tokens_update
               (set_rows (\<lambda>x. pt_hash x = tc_hmac cfg tok)
                  (\<lambda>x. x\<lparr>pt_expiresAt := new_expiry cfg now, pt_lastUsedAt := Some now\<rparr>)) w))"

definition revoke_by_device_id :: "int \<Rightarrow> string \<Rightarrow> string \<Rightarrow> bool handler" where
  "revoke_by_device_id now userId deviceId =
     (let hit = (\<lambda>r. pt_id r = deviceId \<and> pt_userId r = userId \<and> pt_revokedAt r = None)
      in bnd (gets (\<lambda>w. 0 < count_rows hit (plugin_tokens w))) (\<lambda>any.
         bnd (upd (plugin_tokens_update (set_rows hit (pt_revokedAt_update (\<lambda>_. Some now))))) (\<lambda>_.
         ret any)))"

definition list_active_devices :: "int \<Rightarrow> string \<Rightarrow> world \<Rightarrow> token_row list" where
  "list_active_devices now userId w =
     order_desc (\<lambda>r. case pt_lastUsedAt r of None \<Rightarrow> (1 :: int, 0) | Some t \<Rightarrow> (0, t))
       (filter (\<lambda>r. pt_userId r = userId \<and> pt_revokedAt r = None \<and> now < pt_expiresAt r)
          (plugin_tokens w))"

subsection \<open>The life of a token\<close>

inductive token_step :: "token_config \<Rightarrow> int \<times> world \<Rightarrow> int \<times> world \<Rightarrow> bool" for cfg where
  step_issue: "t \<le> t' \<Longrightarrow> issue_token cfg t' i tok u l w = (r, w') \<Longrightarrow> token_step cfg (t, w) (t', w')"
| step_verify: "t \<le> t' \<Longrightarrow> verify_and_touch cfg b t' tok w = (r, w') \<Longrightarrow> token_step cfg (t, w) (t', w')"
| step_refresh: "t \<le> t' \<Longrightarrow> refresh_expiry cfg t' tok w = (r, w') \<Longrightarrow> token_step cfg (t, w) (t', w')"
| step_revoke: "t \<le> t' \<Longrightarrow> revoke_by_device_id t' u d w = (r, w') \<Longrightarrow> token_step cfg (t, w) (t', w')"

inductive_cases token_stepE: "token_step cfg (t, w) (t', w')"

inductive token_run :: "token_config \<Rightarrow> int \<times> world \<Rightarrow> int \<times> world \<Rightarrow> bool" for cfg where
  run_refl: "token_run cfg s s"
| run_step: "token_run cfg s s' \<Longrightarrow> token_step cfg s' s'' \<Longrightarrow> token_run cfg s s''"

definition token_dead :: "token_config \<Rightarrow> string \<Rightarrow> int \<times> world \<Rightarrow> bool" where
  "token_dead cfg tok s =
     (\<exists>r. token_row_of cfg tok (snd s) = Some r \<and> \<not> token_active (fst s) r)"

lemma token_row_append:
  "token_row_of cfg tok w = Some r \<Longrightarrow>
     token_row_of cfg tok (plugin_tokens_update (\<lambda>rs. rs @ [x]) w) = Some r"
  by (simp add: token_row_of_def find_row_append)

lemma token_row_set:
  "(\<And>r. pt_hash (f r) = pt_hash r) \<Longrightarrow>
     token_row_of cfg tok (plugin_tokens_update (set_rows p f) w) =
       map_option (\<lambda>r. if p r then f r else r) (token_row_of cfg tok w)"
  by (simp add: token_row_of_def find_row_set_rows)

lemma token_dead_later: "token_dead cfg tok (t, w) \<Longrightarrow> t \<le> t' \<Longrightarrow> token_dead cfg tok (t', w)"
  by (auto simp: token_dead_def token_active_def)

lemma issue_token_world:
  assumes "issue_token cfg t i tok u l w = (r, w')"
  shows "w' = w \<or> (\<exists>y. w' = plugin_tokens_update (\<lambda>rs. rs @ [y]) w)"
proof (cases "some_row (\<lambda>r. pt_hash r = tc_hmac cfg tok) (plugin_tokens w)")
  case True
  with assms show ?thesis by (simp add: issue_token_def act_simps)
next
  case False
  with assms show ?thesis by (simp add: issue_token_def act_simps) blast
qed

lemma verify_and_touch_world:
  assumes "verify_and_touch cfg b t tok w = (r, w')"
  shows "w' = w \<or> (\<exists>p. w' = plugin_tokens_update (set_rows p (pt_lastUsedAt_update (\<lambda>_. Some t))) w)"
  using assms unfolding verify_and_touch_def Let_def
  by (simp split: option.splits if_splits) blast+

lemma refresh_expiry_world:
  assumes "refresh_expiry cfg t tok w = (r, w')"
  shows "w' = w \<or> (\<exists>y. token_row_of cfg tok w = Some y \<and> token_active t y \<and>
        w' = plugin_tokens_update
               (set_rows (\<lambda>x. pt_hash x = tc_hmac cfg tok)
                  (\<lambda>x. x\<lparr>pt_expiresAt := new_expiry cfg t, pt_lastUsedAt := Some t\<rparr>)) w)"
  using assms unfolding refresh_expiry_def
  by (simp split: option.splits if_splits)

lemma token_dead_step:
  assumes "token_step cfg s s'" and "token_dead cfg tok s"
  shows "token_dead cfg tok s'"
proof -
  have dead: "\<exists>x. token_row_of cfg tok w = Some x \<and> \<not> token_active t' x"
    if "s = (t, w)" "t \<le> t'" for t t' w
    using token_dead_later [of cfg tok t w t'] assms(2) that by (simp add: token_dead_def)
  show ?thesis
  using assms(1)
proof cases
  case (step_issue t t' i tk u l w r w')
  from dead [OF step_issue(1,3)] obtain x
    where x: "token_row_of cfg tok w = Some x" "\<not> token_active t' x" by blast
  from issue_token_world [OF step_issue(4)] consider "w' = w"
    | y where "w' = plugin_tokens_update (\<lambda>rs. rs @ [y]) w" by blast
  then have "token_row_of cfg tok w' = Some x"
    using x(1) token_row_append [OF x(1)] by cases simp_all
  with x(2) show ?thesis by (simp add: token_dead_def step_issue(2))
next
  case (step_verify t t' b tk w r w')
  from dead [OF step_verify(1,3)] obtain x
    where x: "token_row_of cfg tok w = Some x" "\<not> token_active t' x" by blast
  from verify_and_touch_world [OF step_verify(4)] consider "w' = w"
    | p where "w' = plugin_tokens_update (set_rows p (pt_lastUsedAt_update (\<lambda>_. Some t'))) w"
    by blast
  then show ?thesis
  proof cases
    case 1
    with x show ?thesis by (simp add: token_dead_def step_verify(2))
  next
    case 2
    with x show ?thesis by (simp add: token_dead_def step_verify(2) token_row_set token_active_def)
  qed
next
  case (step_refresh t t' tk w r w')
  from dead [OF step_refresh(1,3)] obtain x
    where x: "token_row_of cfg tok w = Some x" "\<not> token_active t' x" by blast
  have h: "pt_hash x = tc_hmac cfg tok"
    using x(1) find_row_SomeD unfolding token_row_of_def by metis
  from refresh_expiry_world [OF step_refresh(4)] consider "w' = w"
    | y where "token_row_of cfg tk w = Some y" "token_active t' y"
        "w' = plugin_tokens_update
               (set_rows (\<lambda>x. pt_hash x = tc_hmac cfg tk)
                  (\<lambda>x. x\<lparr>pt_expiresAt := new_expiry cfg t', pt_lastUsedAt := Some t'\<rparr>)) w"
    by blast
  then show ?thesis
  proof cases
    case 1
    with x show ?thesis by (simp add: token_dead_def step_refresh(2))
  next
    case 2
    have "tc_hmac cfg tk \<noteq> tc_hmac cfg tok" using x 2(1,2) by (auto simp: token_row_of_def)
    with x h 2(3) show ?thesis by (simp add: token_dead_def step_refresh(2) token_row_set)
  qed
next
  case (step_revoke t t' u d w r w')
  from dead [OF step_revoke(1,3)] obtain x
    where x: "token_row_of cfg tok w = Some x" "\<not> token_active t' x" by blast
  from step_revoke(4) obtain p where "w' = plugin_tokens_update (set_rows p (pt_revokedAt_update (\<lambda>_. Some t'))) w"
    by (simp add: revoke_by_device_id_def Let_def act_simps) blast
  with x show ?thesis
    by (simp add: token_dead_def step_revoke(2) token_row_set token_active_def)
qed
qed

lemma token_dead_run: "token_run cfg s s' \<Longrightarrow> token_dead cfg tok s \<Longrightarrow> token_dead cfg tok s'"
  by (induction rule: token_run.induct) (auto dest: token_dead_step)

lemma token_dead_verify: "token_dead cfg tok (t, w) \<Longrightarrow> verify_and_touch cfg b t tok w = (Inr None, w)"
  by (auto simp: token_dead_def verify_and_touch_def)

text \<open>
  C8: once a token is revoked or has expired, no sequence of issuing, verifying, refreshing and
  revoking, of any tokens and at any later times, makes it verify again.
\<close>

theorem dead_token_never_verifies:
  assumes "token_dead cfg tok s" and "token_run cfg s (t, w)"
  shows "verify_and_touch cfg b t tok w = (Inr None, w)"
  using token_dead_verify token_dead_run [OF assms(2,1)] by blast

definition token_cfg0 :: token_config where
  "token_cfg0 = \<lparr>tc_hmac = (\<lambda>s. s), tc_ttlDays = 90\<rparr>"

definition revoked_world :: world where
  "revoked_world = empty_world\<lparr>plugin_tokens :=
     [\<lparr>pt_id = ''d'', pt_userId = ''u'', pt_label = ''l'', pt_hash = ''tok'', pt_lastUsedAt = None,
       pt_revokedAt = Some 5, pt_expiresAt = 1000, pt_createdAt = 0\<rparr>]\<rparr>"

theorem dead_token_never_verifies_witness:
  "verify_and_touch token_cfg0 True 20 ''tok'' (snd (refresh_expiry token_cfg0 10 ''tok'' revoked_world)) =
     (Inr None, snd (refresh_expiry token_cfg0 10 ''tok'' revoked_world))"
proof (rule dead_token_never_verifies)
  show "token_dead token_cfg0 ''tok'' (6, revoked_world)"
    by (simp add: token_dead_def token_cfg0_def revoked_world_def token_row_of_def token_active_def)
  obtain r w' where eq: "refresh_expiry token_cfg0 10 ''tok'' revoked_world = (r, w')" by fastforce
  have "token_step token_cfg0 (6, revoked_world) (10, w')" by (rule step_refresh [OF _ eq]) simp
  moreover have "token_step token_cfg0 (10, w') (20, snd (verify_and_touch token_cfg0 False 20 ''x'' w'))"
    by (rule step_verify [of _ _ _ False _ _ "fst (verify_and_touch token_cfg0 False 20 ''x'' w')"]) simp_all
  moreover have "snd (verify_and_touch token_cfg0 False 20 ''x'' w') = w'"
    by (simp add: verify_and_touch_def Let_def split: option.splits)
  ultimately show "token_run token_cfg0 (6, revoked_world)
      (20, snd (refresh_expiry token_cfg0 10 ''tok'' revoked_world))"
    using run_step [OF run_step [OF run_refl]] by (metis eq snd_conv)
qed

text \<open>
  A token just issued to a user authenticates as that user until it expires, and the database
  keeps its hash, not the token.
\<close>

theorem issued_token_verifies:
  assumes "issue_token cfg now i tok (u_id u) label w = (Inr issued, w')"
    and "user_by (u_id u) w = Some u" and "now \<le> t" and "t \<le> it_expiresAt issued"
  shows "\<exists>r w''. verify_and_touch cfg b t tok w' = (Inr (Some (u, r)), w'') \<and>
           pt_userId r = u_id u \<and> pt_hash r = tc_hmac cfg tok"
proof -
  let ?r = "\<lparr>pt_id = i, pt_userId = u_id u, pt_label = label, pt_hash = tc_hmac cfg tok,
     pt_lastUsedAt = None, pt_revokedAt = None, pt_expiresAt = new_expiry cfg now, pt_createdAt = now\<rparr>"
  from assms(1) have free: "\<forall>r \<in> set (plugin_tokens w). pt_hash r \<noteq> tc_hmac cfg tok"
    and w': "w' = plugin_tokens_update (\<lambda>rs. rs @ [?r]) w" and e: "it_expiresAt issued = new_expiry cfg now"
    by (auto simp: issue_token_def act_simps some_row_iff split: if_splits)
  from free have "find_row pt_hash (tc_hmac cfg tok) (plugin_tokens w) = None"
    by (auto simp: find_row_None_iff)
  then have row: "token_row_of cfg tok w' = Some ?r" by (simp add: token_row_of_def w' find_row_append)
  have "user_by (u_id u) w' = Some u" using assms(2) by (simp add: user_by_def w')
  then show ?thesis
    using assms(4) e row by (auto simp: verify_and_touch_def token_active_def Let_def)
qed

definition alice :: user_row where
  "alice = \<lparr>u_id = ''u'', u_sub = ''s'', u_email = ''a@b'', u_name = ''Alice'', u_locale = LEn,
     u_isAdmin = False, u_createdAt = 0, u_deletedAt = None\<rparr>"

theorem issued_token_verifies_witness:
  "\<exists>r w''. verify_and_touch token_cfg0 True 5000 ''tok''
       (snd (issue_token token_cfg0 0 ''d'' ''tok'' ''u'' ''l'' (empty_world\<lparr>users := [alice]\<rparr>))) =
       (Inr (Some (alice, r)), w'') \<and> pt_userId r = ''u'' \<and> pt_hash r = ''tok''"
  using issued_token_verifies [of token_cfg0 0 "''d''" "''tok''" alice "''l''" "empty_world\<lparr>users := [alice]\<rparr>"
      "\<lparr>it_deviceId = ''d'', it_token = ''tok'', it_expiresAt = 7776000000\<rparr>"
      "snd (issue_token token_cfg0 0 ''d'' ''tok'' ''u'' ''l'' (empty_world\<lparr>users := [alice]\<rparr>))" 5000 True]
  by (simp add: issue_token_def act_simps some_row_def alice_def user_by_def token_cfg0_def new_expiry_def)

subsection \<open>Roles and principals\<close>

record claims =
  cl_sub :: string
  cl_email :: "string option"
  cl_name :: "string option"
  cl_preferred :: "string option"

definition resolve_role :: "user_row \<Rightarrow> world \<Rightarrow> app_role" where
  "resolve_role u w =
     (if u_isAdmin u then RoleAdmin
      else if some_row (\<lambda>a. a_ownerId a = u_id u \<and> a_status a \<in> {PUBLISHED, ARCHIVED}) (assets w)
      then RoleContributor else RoleUser)"

definition display_name :: "claims \<Rightarrow> string \<Rightarrow> string" where
  "display_name c email =
     (case cl_name c of
        Some n \<Rightarrow> n
      | None \<Rightarrow> (case cl_preferred c of Some n \<Rightarrow> n | None \<Rightarrow> takeWhile (\<lambda>x. x \<noteq> CHR ''@'') email))"

text \<open>
  \<open>prisma.user.upsert\<close> by the Keycloak subject: the update leaves \<open>isAdmin\<close> alone unless the
  email is the bootstrap address.  \<open>email\<close> is unique as well, so either branch can fail on it.
\<close>

definition upsert_user :: "string \<Rightarrow> int \<Rightarrow> string \<Rightarrow> claims \<Rightarrow> user_row handler" where
  "upsert_user bootstrap now i c =
     (let email = lower (case cl_email c of None \<Rightarrow> [] | Some e \<Rightarrow> e);
          name = display_name c email;
          boot = (email = lower bootstrap)
      in if email = [] then throw Unauthorized
         else
           bnd (gets (\<lambda>w. find_row u_sub (cl_sub c) (users w))) (\<lambda>found.
           bnd (gets (\<lambda>w. some_row (\<lambda>u. u_email u = email \<and> u_sub u \<noteq> cl_sub c) (users w))) (\<lambda>taken.
           bnd (check (\<not> taken) (OtherError (UniqueViolation ''users.email''))) (\<lambda>_.
           case found of
             Some u \<Rightarrow>
               (let f = (\<lambda>u. u\<lparr>u_email := email, u_name := name, u_isAdmin := u_isAdmin u \<or> boot\<rparr>)
                in bnd (upd (users_update (set_rows (\<lambda>x. u_sub x = cl_sub c) f))) (\<lambda>_. ret (f u)))
           | None \<Rightarrow>
               (let u = \<lparr>u_id = i, u_sub = cl_sub c, u_email = email, u_name = name,
                         u_locale = LEn, u_isAdmin = boot, u_createdAt = now, u_deletedAt = None\<rparr>
                in bnd (upd (users_update (\<lambda>us. us @ [u]))) (\<lambda>_. ret u))))))"

fun locale_name :: "locale_code \<Rightarrow> string" where
  "locale_name LEn = ''en''"
| "locale_name LId = ''id''"

fun role_name :: "app_role \<Rightarrow> string" where
  "role_name RoleUser = ''user''"
| "role_name RoleContributor = ''contributor''"
| "role_name RoleAdmin = ''admin''"

definition serialize_user :: "user_row \<Rightarrow> json" where
  "serialize_user u =
     JObj [(''id'', JStr (u_id u)), (''keycloakSub'', JStr (u_sub u)), (''email'', JStr (u_email u)),
           (''displayName'', JStr (u_name u)), (''locale'', JStr (locale_name (u_locale u))),
           (''isAdmin'', JBool (u_isAdmin u)), (''createdAt'', JStr (iso_string (u_createdAt u))),
           (''deletedAt'', case u_deletedAt u of None \<Rightarrow> JNull | Some t \<Rightarrow> JStr (iso_string t))]"

definition principal_json :: "user_row \<Rightarrow> app_role \<Rightarrow> json" where
  "principal_json u r = JObj [(''user'', serialize_user u), (''role'', JStr (role_name r))]"

definition str_prop :: "json \<Rightarrow> string \<Rightarrow> string option" where
  "str_prop v k = (case get_prop v k of Some (JStr s) \<Rightarrow> Some s | _ \<Rightarrow> None)"

definition bool_prop :: "json \<Rightarrow> string \<Rightarrow> bool" where
  "bool_prop v k = (case get_prop v k of Some x \<Rightarrow> truthy x | None \<Rightarrow> False)"

definition deserialize_user :: "(string \<Rightarrow> int option) \<Rightarrow> json \<Rightarrow> user_row option" where
  "deserialize_user date_parse v =
     (case (str_prop v ''id'', str_prop v ''keycloakSub'', str_prop v ''email'',
            str_prop v ''displayName'', str_prop v ''locale'', str_prop v ''createdAt'') of
        (Some i, Some k, Some e, Some n, Some l, Some c) \<Rightarrow>
          Some \<lparr>u_id = i, u_sub = k, u_email = e, u_name = n,
                u_locale = (if l = ''id'' then LId else LEn),
                u_isAdmin = bool_prop v ''isAdmin'',
                u_createdAt = (case date_parse c of None \<Rightarrow> 0 | Some t \<Rightarrow> t),
                u_deletedAt = (case str_prop v ''deletedAt'' of None \<Rightarrow> None | Some d \<Rightarrow> date_parse d)\<rparr>
      | _ \<Rightarrow> None)"

definition role_of_name :: "string \<Rightarrow> app_role" where
  "role_of_name s =
     (if s = ''admin'' then RoleAdmin else if s = ''contributor'' then RoleContributor else RoleUser)"

definition PRINCIPAL_CACHE_TTL_SEC :: int where "PRINCIPAL_CACHE_TTL_SEC = 30"

definition principal_cache_key :: "string \<Rightarrow> string" where
  "principal_cache_key sub = ''authz:principal:'' @ sub"

definition cached_principal ::
  "(string \<Rightarrow> int option) \<Rightarrow> bool \<Rightarrow> int \<Rightarrow> string \<Rightarrow> world \<Rightarrow> (user_row \<times> app_role) option" where
  "cached_principal date_parse up now sub w =
     (case (if up then redis_get now (principal_cache_key sub) (redis w) else None) of
        None \<Rightarrow> None
      | Some s \<Rightarrow>
          if s = [] then None
          else
            (case json_parse s of
               None \<Rightarrow> None
             | Some v \<Rightarrow>
                 (case (get_prop v ''user'', str_prop v ''role'') of
                    (Some u, Some r) \<Rightarrow>
                      map_option (\<lambda>u. (u, role_of_name r)) (deserialize_user date_parse u)
                  | _ \<Rightarrow> None)))"

text \<open>\<open>up\<close>: whether Redis answers; \<open>i\<close> is the id of a row that the upsert may create.\<close>

definition resolve_principal ::
  "(string \<Rightarrow> int option) \<Rightarrow> string \<Rightarrow> bool \<Rightarrow> int \<Rightarrow> string \<Rightarrow> claims \<Rightarrow> (user_row \<times> app_role) handler" where
  "resolve_principal date_parse bootstrap up now i c =
     bnd (gets (cached_principal date_parse up now (cl_sub c))) (\<lambda>cached.
     case cached of
       Some p \<Rightarrow> ret p
     | None \<Rightarrow>
         bnd (upsert_user bootstrap now i c) (\<lambda>u.
         bnd (gets (resolve_role u)) (\<lambda>role.
         bnd (upd (\<lambda>w. if up
                then redis_update (redis_set_ex now (principal_cache_key (cl_sub c))
                       (json_text (principal_json u role)) PRINCIPAL_CACHE_TTL_SEC) w
                else w)) (\<lambda>_.
         ret (u, role)))))"

lemma serialize_user_plain: "js_plain (principal_json u r)"
  by (auto simp: principal_json_def serialize_user_def split: option.splits)

lemma role_of_role_name [simp]: "role_of_name (role_name r) = r"
  by (cases r) (simp_all add: role_of_name_def)

lemma deserialize_serialize:
  assumes "\<And>t. t \<in> {u_createdAt u} \<union> set_option (u_deletedAt u) \<Longrightarrow> date_parse (iso_string t) = Some t"
  shows "deserialize_user date_parse (serialize_user u) = Some u"
proof -
  have l: "(if locale_name (u_locale u) = ''id'' then LId else LEn) = u_locale u"
    by (cases "u_locale u") simp_all
  have d: "(case str_prop (serialize_user u) ''deletedAt'' of None \<Rightarrow> None | Some d \<Rightarrow> date_parse d) = u_deletedAt u"
    using assms by (cases "u_deletedAt u") (simp_all add: str_prop_def serialize_user_def)
  have c: "date_parse (iso_string (u_createdAt u)) = Some (u_createdAt u)" using assms by simp
  have props: "str_prop (serialize_user u) ''id'' = Some (u_id u)"
    "str_prop (serialize_user u) ''keycloakSub'' = Some (u_sub u)"
    "str_prop (serialize_user u) ''email'' = Some (u_email u)"
    "str_prop (serialize_user u) ''displayName'' = Some (u_name u)"
    "str_prop (serialize_user u) ''locale'' = Some (locale_name (u_locale u))"
    "str_prop (serialize_user u) ''createdAt'' = Some (iso_string (u_createdAt u))"
    "bool_prop (serialize_user u) ''isAdmin'' = u_isAdmin u"
    by (simp_all add: str_prop_def bool_prop_def serialize_user_def)
  show ?thesis by (simp add: deserialize_user_def props d c l)
qed

lemma cached_principal_hit:
  assumes "\<And>t. t \<in> {u_createdAt u} \<union> set_option (u_deletedAt u) \<Longrightarrow> date_parse (iso_string t) = Some t"
    and "t < t0 + 30000"
  shows "cached_principal date_parse True t sub
           (redis_update (redis_set_ex t0 (principal_cache_key sub) (json_text (principal_json u r))
              PRINCIPAL_CACHE_TTL_SEC) w) = Some (u, r)"
proof -
  let ?s = "json_text (principal_json u r)"
  have p: "json_parse ?s = Some (principal_json u r)" by (rule json_parse_text [OF serialize_user_plain])
  have "?s \<noteq> []" by (simp add: principal_json_def)
  moreover have "get_prop (principal_json u r) ''user'' = Some (serialize_user u)"
    "str_prop (principal_json u r) ''role'' = Some (role_name r)"
    by (simp_all add: principal_json_def str_prop_def)
  ultimately show ?thesis
    using deserialize_serialize [OF assms(1)] assms(2)
    by (simp add: cached_principal_def p PRINCIPAL_CACHE_TTL_SEC_def)
qed

lemma upsert_user_admin:
  assumes "upsert_user bootstrap now i c w = (Inr u, w')"
    and "lower (case cl_email c of None \<Rightarrow> [] | Some e \<Rightarrow> e) \<noteq> lower bootstrap"
  shows "u_isAdmin u = (case find_row u_sub (cl_sub c) (users w) of None \<Rightarrow> False | Some v \<Rightarrow> u_isAdmin v)"
  using assms
  by (auto simp: upsert_user_def Let_def act_simps split: if_splits option.splits)

lemma upsert_user_frame:
  "upsert_user bootstrap now i c w = (r, w') \<Longrightarrow> assets w' = assets w \<and> redis w' = redis w"
  by (auto simp: upsert_user_def Let_def act_simps split: if_splits option.splits)

lemma resolve_role_users: "resolve_role u (users_update f w) = resolve_role u w"
  by (simp add: resolve_role_def)

text \<open>
  A resolved principal is the cached one, at most 30 seconds old, or the one the database gives
  now; and the one just stored is what the next 30 seconds of requests with that subject see,
  provided \<open>Date.parse\<close> reads back the times of the row as \<open>toISOString\<close> writes them.
\<close>

theorem resolve_principal_cached_30s:
  assumes iso: "\<And>t. t \<in> {u_createdAt u} \<union> set_option (u_deletedAt u) \<Longrightarrow> date_parse (iso_string t) = Some t"
    and "cached_principal date_parse True now (cl_sub c) w = None"
    and "resolve_principal date_parse bootstrap True now i c w = (Inr (u, role), w1)"
    and "now \<le> t" and "t < now + 30000"
  shows "role = resolve_role u w \<and>
         resolve_principal date_parse bootstrap True t j c w1 = (Inr (u, role), w1)"
proof -
  from assms(2,3) obtain w' where up: "upsert_user bootstrap now i c w = (Inr u, w')"
    and role: "role = resolve_role u w'"
    and w1: "w1 = redis_update (redis_set_ex now (principal_cache_key (cl_sub c))
                     (json_text (principal_json u role)) PRINCIPAL_CACHE_TTL_SEC) w'"
    by (auto simp: resolve_principal_def bnd_eq_Inr_conv)
  have "cached_principal date_parse True t (cl_sub c) w1 = Some (u, role)"
    unfolding w1 by (rule cached_principal_hit [OF iso assms(5)])
  moreover have "resolve_role u w' = resolve_role u w"
    using upsert_user_frame [OF up] by (simp add: resolve_role_def)
  ultimately show ?thesis by (simp add: resolve_principal_def act_simps role)
qed

definition alice_claims :: claims where
  "alice_claims = \<lparr>cl_sub = ''s'', cl_email = Some ''a@b'', cl_name = Some ''Alice'', cl_preferred = None\<rparr>"

definition date_parse0 :: "string \<Rightarrow> int option" where
  "date_parse0 s = (if s = iso_string 0 then Some 0 else None)"

lemma alice_upsert:
  "upsert_user ''root@b'' 0 ''x'' alice_claims (empty_world\<lparr>users := [alice]\<rparr>) =
     (Inr alice, empty_world\<lparr>users := [alice]\<rparr>)"
  by (simp add: upsert_user_def alice_claims_def alice_def lower_def lower_char_def Let_def act_simps
      display_name_def some_row_def)

theorem resolve_principal_cached_30s_witness:
  "resolve_principal date_parse0 ''root@b'' True 29000 ''y'' alice_claims
     (snd (resolve_principal date_parse0 ''root@b'' True 0 ''x'' alice_claims (empty_world\<lparr>users := [alice]\<rparr>))) =
   (Inr (alice, RoleUser),
    snd (resolve_principal date_parse0 ''root@b'' True 0 ''x'' alice_claims (empty_world\<lparr>users := [alice]\<rparr>)))"
proof -
  let ?w = "empty_world\<lparr>users := [alice]\<rparr>"
  have none: "cached_principal date_parse0 True 0 (cl_sub alice_claims) ?w = None"
    by (simp add: cached_principal_def redis_get_def)
  have role: "resolve_role alice ?w = RoleUser"
    by (simp add: resolve_role_def alice_def some_row_def)
  let ?r = "resolve_principal date_parse0 ''root@b'' True 0 ''x'' alice_claims ?w"
  have eq: "?r = (Inr (alice, RoleUser), snd ?r)"
    by (simp add: resolve_principal_def act_simps none alice_upsert role)
  show ?thesis
    by (rule resolve_principal_cached_30s [OF _ none eq, THEN conjunct2])
      (auto simp: alice_def date_parse0_def)
qed

subsection \<open>The guards\<close>

text \<open>
  A guard ends with the user and role it attaches to the request, or with none on a public route.
  \<open>header\<close> is the \<open>Authorization\<close> header.
\<close>

record auth_env =
  ae_jwks :: "string \<Rightarrow> claims option"
  ae_tokens :: token_config
  ae_date_parse :: "string \<Rightarrow> int option"
  ae_bootstrap :: string

type_synonym identity = "(user_row \<times> app_role) option"

definition extract_bearer :: "string option \<Rightarrow> string option" where
  "extract_bearer header =
     (case header of
        None \<Rightarrow> None
      | Some raw \<Rightarrow>
          if raw = [] then None
          else
            (case split_on CHR '' '' raw of
               scheme # value # _ \<Rightarrow>
                 if lower scheme \<noteq> ''bearer'' \<or> value = [] then None else Some (trim value)
             | _ \<Rightarrow> None))"

definition extract_plugin_token :: "string option \<Rightarrow> string option" where
  "extract_plugin_token header =
     (case header of
        None \<Rightarrow> None
      | Some raw \<Rightarrow>
          if raw = [] then None
          else
            (case split_on CHR '' '' raw of
               scheme # value # _ \<Rightarrow>
                 if scheme \<noteq> ''PluginToken'' \<or> value = [] then None else Some (trim value)
             | _ \<Rightarrow> None))"

definition truthy_str :: "string option \<Rightarrow> bool" where
  "truthy_str s = (case s of None \<Rightarrow> False | Some x \<Rightarrow> x \<noteq> [])"

definition keycloak_auth_guard ::
  "auth_env \<Rightarrow> bool \<Rightarrow> bool \<Rightarrow> int \<Rightarrow> string \<Rightarrow> string option \<Rightarrow> identity handler" where
  "keycloak_auth_guard env isPublic up now i header =
     (if isPublic then ret None
      else
        (case extract_bearer header of
           None \<Rightarrow> throw Unauthorized
         | Some tok \<Rightarrow>
             if tok = [] then throw Unauthorized
             else
               (case ae_jwks env tok of
                  None \<Rightarrow> throw Unauthorized
                | Some c \<Rightarrow>
                    bnd (resolve_principal (ae_date_parse env) (ae_bootstrap env) up now i c) (\<lambda>p.
                    ret (Some p)))))"

definition plugin_token_guard ::
  "auth_env \<Rightarrow> bool \<Rightarrow> bool \<Rightarrow> int \<Rightarrow> string option \<Rightarrow> identity handler" where
  "plugin_token_guard env isPublic up now header =
     (if isPublic then ret None
      else
        (case extract_plugin_token header of
           None \<Rightarrow> throw Unauthorized
         | Some tok \<Rightarrow>
             if tok = [] then throw Unauthorized
             else
               bnd (verify_and_touch (ae_tokens env) up now tok) (\<lambda>verified.
               case verified of
                 None \<Rightarrow> throw (PlainDomain 401 AUTH_PLUGIN_TOKEN_INVALID)
               | Some (u, r) \<Rightarrow> bnd (gets (resolve_role u)) (\<lambda>role. ret (Some (u, role))))))"

definition has_bearer :: "string option \<Rightarrow> bool" where
  "has_bearer header = (case header of None \<Rightarrow> False | Some h \<Rightarrow> starts_with ''bearer '' (lower h))"

definition flexible_auth_guard ::
  "auth_env \<Rightarrow> bool \<Rightarrow> bool \<Rightarrow> int \<Rightarrow> string \<Rightarrow> string option \<Rightarrow> identity handler" where
  "flexible_auth_guard env isPublic up now i header =
     (if isPublic then ret None
      else if truthy_str (extract_plugin_token header) then plugin_token_guard env isPublic up now header
      else if has_bearer header then keycloak_auth_guard env isPublic up now i header
      else throw Unauthorized)"

definition optional_auth_guard ::
  "auth_env \<Rightarrow> bool \<Rightarrow> bool \<Rightarrow> int \<Rightarrow> string \<Rightarrow> string option \<Rightarrow> identity handler" where
  "optional_auth_guard env isPublic up now i header =
     (if \<not> has_bearer header \<and> \<not> truthy_str (extract_plugin_token header) then ret None
      else
        (\<lambda>w. case flexible_auth_guard env isPublic up now i header w of
           (Inl _, w') \<Rightarrow> (Inr None, w')
         | (Inr p, w') \<Rightarrow> (Inr p, w')))"

text \<open>The bull-board guard also takes the token of the query and never uses the cache.\<close>

definition admin_queue_token :: "string option \<Rightarrow> json option \<Rightarrow> string option" where
  "admin_queue_token header access_token =
     (case extract_bearer header of
        Some t \<Rightarrow> Some t
      | None \<Rightarrow>
          (case access_token of
             Some (JStr s) \<Rightarrow> if s \<noteq> [] then Some s else None
           | Some (JArr (JStr s # _)) \<Rightarrow> Some s
           | _ \<Rightarrow> None))"

definition admin_queue_auth_guard ::
  "auth_env \<Rightarrow> int \<Rightarrow> string \<Rightarrow> string option \<Rightarrow> json option \<Rightarrow> identity handler" where
  "admin_queue_auth_guard env now i header access_token =
     (case admin_queue_token header access_token of
        None \<Rightarrow> throw Unauthorized
      | Some tok \<Rightarrow>
          if tok = [] then throw Unauthorized
          else
            (case ae_jwks env tok of
               None \<Rightarrow> throw Unauthorized
             | Some c \<Rightarrow>
                 bnd (upsert_user (ae_bootstrap env) now i c) (\<lambda>u.
                 bnd (check (u_isAdmin u) Forbidden) (\<lambda>_.
                 bnd (gets (resolve_role u)) (\<lambda>role. ret (Some (u, role)))))))"

lemma admin_queue_only_admins:
  "admin_queue_auth_guard env now i h a w = (Inr (Some (u, r)), w') \<Longrightarrow> u_isAdmin u \<and> r = RoleAdmin"
  by (auto simp: admin_queue_auth_guard_def bnd_eq_Inr_conv resolve_role_def
      split: option.splits if_splits)

text \<open>
  C9: on a protected route the flexible guard lets a request through only with an identity, and that
  identity comes from a plugin token that is active at that moment, of its owner, or from a bearer
  token that Keycloak verified.
\<close>

theorem flexible_auth_sound:
  assumes "flexible_auth_guard env False up now i header w = (Inr p, w')"
  shows "\<exists>u role. p = Some (u, role) \<and>
     ((\<exists>tok r. extract_plugin_token header = Some tok \<and>
         token_row_of (ae_tokens env) tok w = Some r \<and> token_active now r \<and>
         user_by (pt_userId r) w = Some u) \<or>
      (\<exists>tok c. extract_bearer header = Some tok \<and> ae_jwks env tok = Some c \<and>
         resolve_principal (ae_date_parse env) (ae_bootstrap env) up now i c w = (Inr (u, role), w')))"
proof (cases "truthy_str (extract_plugin_token header)")
  case True
  then obtain tok where tok: "extract_plugin_token header = Some tok" "tok \<noteq> []"
    by (auto simp: truthy_str_def split: option.splits)
  with assms True obtain u r w1 role where
    v: "verify_and_touch (ae_tokens env) up now tok w = (Inr (Some (u, r)), w1)" and p: "p = Some (u, role)"
    by (auto simp: flexible_auth_guard_def plugin_token_guard_def bnd_eq_Inr_conv split: option.splits)
  have "token_row_of (ae_tokens env) tok w = Some r \<and> token_active now r \<and> user_by (pt_userId r) w = Some u"
    using v by (auto simp: verify_and_touch_def Let_def split: option.splits if_splits)
  with p tok show ?thesis by blast
next
  case False
  with assms show ?thesis
    by (auto simp: flexible_auth_guard_def keycloak_auth_guard_def bnd_eq_Inr_conv
        split: if_splits option.splits)
qed

lemma lower_bearer: "lower ''Bearer'' = ''bearer''" "lower ''Bearer t'' = ''bearer t''"
  by code_simp+

theorem flexible_auth_sound_witness:
  "\<exists>u role. Some (alice, RoleUser) = Some (u, role) \<and>
     ((\<exists>tok r. extract_plugin_token (Some ''Bearer t'') = Some tok \<and>
         token_row_of token_cfg0 tok (empty_world\<lparr>users := [alice]\<rparr>) = Some r \<and> token_active 0 r \<and>
         user_by (pt_userId r) (empty_world\<lparr>users := [alice]\<rparr>) = Some u) \<or>
      (\<exists>tok c. extract_bearer (Some ''Bearer t'') = Some tok \<and>
         (if tok = ''t'' then Some alice_claims else None) = Some c \<and>
         resolve_principal date_parse0 ''root@b'' False 0 ''x'' c (empty_world\<lparr>users := [alice]\<rparr>) =
           (Inr (u, role), empty_world\<lparr>users := [alice]\<rparr>)))"
proof -
  let ?env = "\<lparr>ae_jwks = (\<lambda>t. if t = ''t'' then Some alice_claims else None), ae_tokens = token_cfg0,
     ae_date_parse = date_parse0, ae_bootstrap = ''root@b''\<rparr>"
  let ?w = "empty_world\<lparr>users := [alice]\<rparr>"
  have "resolve_role alice ?w = RoleUser" by (simp add: resolve_role_def alice_def some_row_def)
  then have "resolve_principal date_parse0 ''root@b'' False 0 ''x'' alice_claims ?w = (Inr (alice, RoleUser), ?w)"
    by (simp add: resolve_principal_def act_simps cached_principal_def alice_upsert)
  then have "flexible_auth_guard ?env False False 0 ''x'' (Some ''Bearer t'') ?w = (Inr (Some (alice, RoleUser)), ?w)"
    by (simp add: flexible_auth_guard_def keycloak_auth_guard_def extract_plugin_token_def
        extract_bearer_def truthy_str_def has_bearer_def starts_with_def lower_bearer
        trim_def is_blank_def Let_def act_simps)
  from flexible_auth_sound [OF this] show ?thesis by simp
qed

end
