(* ===== verification/Users.thy ===== *)
theory Users
  imports Auth
begin

section \<open>Users: profiles, the admin list, promotion and demotion\<close>

text \<open>
  \<open>src/modules/users\<close> and the user-facing half of \<open>src/modules/auth/auth.service.ts\<close>.  The avatar of
  a profile is presentation and left out.  Case-insensitive matching is modelled on ASCII letters.
\<close>

subsection \<open>UsersService\<close>

definition contains :: "string \<Rightarrow> string \<Rightarrow> bool" where
  "contains needle hay = list_ex (\<lambda>i. starts_with needle (drop i hay)) [0..<Suc (length hay)]"

definition contains_ci :: "string \<Rightarrow> string \<Rightarrow> bool" where
  "contains_ci needle hay = contains (lower needle) (lower hay)"

definition find_by_id_or_throw :: "string \<Rightarrow> user_row handler" where
  "find_by_id_or_throw i = fetch (user_by i) (HttpExc 404 None)"

definition update_locale :: "string \<Rightarrow> locale_code \<Rightarrow> user_row handler" where
  "update_locale i l =
     bnd (fetch (user_by i) (OtherError (RecordNotFound ''User''))) (\<lambda>u.
     bnd (upd (users_update (set_rows (\<lambda>x. u_id x = i) (u_locale_update (\<lambda>_. l))))) (\<lambda>_.
     ret (u\<lparr>u_locale := l\<rparr>)))"

definition update_display_name :: "string \<Rightarrow> string \<Rightarrow> user_row handler" where
  "update_display_name i n =
     bnd (fetch (user_by i) (OtherError (RecordNotFound ''User''))) (\<lambda>u.
     bnd (upd (users_update (set_rows (\<lambda>x. u_id x = i) (u_name_update (\<lambda>_. n))))) (\<lambda>_.
     ret (u\<lparr>u_name := n\<rparr>)))"

definition search_users :: "string \<Rightarrow> int \<Rightarrow> world \<Rightarrow> user_row list" where
  "search_users q limit w =
     (let needle = trim q
      in if length needle < 2 then []
         else take (nat (min limit 20))
           (sort_key (\<lambda>u. (if u_isAdmin u then 0 else 1 :: int, u_name u))
              (filter (\<lambda>u. u_deletedAt u = None \<and>
                          (contains_ci needle (u_email u) \<or> contains_ci needle (u_name u)))
                 (users w))))"

record public_profile =
  pp_id :: string
  pp_name :: string
  pp_joinedAt :: int
  pp_published :: nat
  pp_email :: "string option"

definition published_count :: "string \<Rightarrow> world \<Rightarrow> nat" where
  "published_count uid w = count_rows (\<lambda>a. a_ownerId a = uid \<and> a_status a = PUBLISHED) (assets w)"

definition get_public_profile :: "string \<Rightarrow> user_row option \<Rightarrow> world \<Rightarrow> app_error + public_profile" where
  "get_public_profile i requester w =
     (case user_by i w of
        None \<Rightarrow> Inl (NotFoundDomain USER_NOT_FOUND)
      | Some u \<Rightarrow>
          if u_deletedAt u \<noteq> None then Inl (NotFoundDomain USER_NOT_FOUND)
          else Inr \<lparr>pp_id = u_id u, pp_name = u_name u, pp_joinedAt = u_createdAt u,
                    pp_published = published_count (u_id u) w,
                    pp_email = (case requester of
                        None \<Rightarrow> None
                      | Some r \<Rightarrow> if u_id r = u_id u \<or> u_isAdmin r then Some (u_email u) else None)\<rparr>)"

lemma profile_email_private:
  "get_public_profile i requester w = Inr p \<Longrightarrow> pp_email p \<noteq> None \<Longrightarrow>
     \<exists>r. requester = Some r \<and> (u_id r = i \<or> u_isAdmin r)"
  using user_byD [of i w]
  by (auto simp: get_public_profile_def split: option.splits if_splits)

subsection \<open>AuthService\<close>

record me_response =
  me_user :: user_row
  me_role :: app_role
  me_hasPublished :: bool
  me_unread :: nat

definition build_me :: "user_row \<Rightarrow> app_role \<Rightarrow> world \<Rightarrow> me_response" where
  "build_me u role w =
     \<lparr>me_user = u, me_role = role,
      me_hasPublished = some_row (\<lambda>a. a_ownerId a = u_id u \<and> a_status a = PUBLISHED) (assets w),
      me_unread = count_rows (\<lambda>n. n_userId n = u_id u \<and> n_readAt n = None) (notifications w)\<rparr>"

definition exchange_plugin_token ::
  "auth_env \<Rightarrow> int \<Rightarrow> string \<Rightarrow> string \<Rightarrow> string \<Rightarrow> string \<Rightarrow> string \<Rightarrow> issued_token handler" where
  "exchange_plugin_token env now uid tid random access_token label =
     (case ae_jwks env access_token of
        None \<Rightarrow> throw Unauthorized
      | Some c \<Rightarrow>
          if \<not> truthy_str (cl_email c) then throw Unauthorized
          else
            bnd (upsert_user (ae_bootstrap env) now uid c) (\<lambda>u.
            issue_token (ae_tokens env) now tid random (u_id u) label))"

definition refresh_plugin_token :: "auth_env \<Rightarrow> int \<Rightarrow> string \<Rightarrow> int handler" where
  "refresh_plugin_token env now tok =
     bnd (refresh_expiry (ae_tokens env) now tok) (\<lambda>next.
     case next of None \<Rightarrow> throw Unauthorized | Some t \<Rightarrow> ret t)"

definition revoke_plugin_device :: "int \<Rightarrow> string \<Rightarrow> string \<Rightarrow> unit handler" where
  "revoke_plugin_device now userId deviceId =
     bnd (revoke_by_device_id now userId deviceId) (\<lambda>_. ret ())"

text \<open>Revoking touches only the caller's own devices.\<close>

lemma revoke_only_own:
  assumes "revoke_plugin_device now userId deviceId w = (r, w')"
  shows "filter (\<lambda>r. pt_userId r \<noteq> userId) (plugin_tokens w') =
         filter (\<lambda>r. pt_userId r \<noteq> userId) (plugin_tokens w)"
proof -
  have "filter (\<lambda>r. pt_userId r \<noteq> userId)
          (set_rows (\<lambda>r. pt_id r = deviceId \<and> pt_userId r = userId \<and> pt_revokedAt r = None)
             (pt_revokedAt_update (\<lambda>_. Some now)) rs) = filter (\<lambda>r. pt_userId r \<noteq> userId) rs" for rs
    by (induction rs) auto
  with assms show ?thesis
    by (auto simp: revoke_plugin_device_def revoke_by_device_id_def Let_def act_simps)
qed

subsection \<open>AdminUsersService\<close>

record admin_users_query =
  aq_q :: "string option"
  aq_isAdmin :: "bool option"

definition admin_user_match :: "admin_users_query \<Rightarrow> user_row \<Rightarrow> bool" where
  "admin_user_match query u \<longleftrightarrow>
     u_deletedAt u = None \<and>
     (case aq_q query of
        None \<Rightarrow> True
      | Some s \<Rightarrow> s = [] \<or> contains_ci s (u_email u) \<or> contains_ci s (u_name u)) \<and>
     (case aq_isAdmin query of None \<Rightarrow> True | Some b \<Rightarrow> u_isAdmin u = b)"

definition admin_user_listing :: "admin_users_query \<times> world \<Rightarrow> user_row list" where
  "admin_user_listing =
     (\<lambda>(query, w). order_desc (\<lambda>u. (u_createdAt u, u_id u)) (filter (admin_user_match query) (users w)))"

definition user_cursor :: "user_row \<Rightarrow> cursor" where
  "user_cursor u = \<lparr>cur_createdAt = iso_string (u_createdAt u), cur_id = u_id u\<rparr>"

definition admin_list_users ::
  "admin_users_query \<Rightarrow> int option \<Rightarrow> string option \<Rightarrow> world \<Rightarrow> app_error + user_row page" where
  "admin_list_users query limit raw w =
     list_page u_id user_cursor (resolve_page_size limit) raw (admin_user_listing (query, w))"

interpretation admin_users: paged_listing u_id user_cursor admin_user_listing
    "\<lambda>(query, w). distinct (map u_id (users w))"
  by unfold_locales (auto simp: admin_user_listing_def user_cursor_def)

definition role_change_payload :: "string \<Rightarrow> user_row \<Rightarrow> json" where
  "role_change_payload field admin = JObj [(field, user_ref_json admin)]"

definition promote :: "bool \<Rightarrow> int \<Rightarrow> string \<Rightarrow> user_row \<Rightarrow> unit handler" where
  "promote up now i admin =
     bnd (fetch (user_by i) (NotFoundDomain USER_NOT_FOUND)) (\<lambda>target.
     if u_isAdmin target then ret ()
     else
       bnd (upd (users_update (set_rows (\<lambda>u. u_id u = i) (u_isAdmin_update (\<lambda>_. True))))) (\<lambda>_.
       bnd (cache_invalidate up [principal_cache_key (u_sub target)]) (\<lambda>_.
       bnd (enqueueNotify
              \<lparr>nj_recipient = i, nj_type = ADMIN_PROMOTED,
               nj_payload = role_change_payload ''promotedBy'' admin, nj_drop = [],
               nj_actor = Some (user_ref_of admin)\<rparr>) (\<lambda>_.
       audit_record now (Some (u_id admin)) ''user.promote'' ''User'' i
         (Some (JObj [(''email'', JStr (u_email target))]))))))"

definition demote :: "string \<Rightarrow> bool \<Rightarrow> int \<Rightarrow> string \<Rightarrow> user_row \<Rightarrow> unit handler" where
  "demote bootstrap up now i admin =
     bnd (fetch (user_by i) (NotFoundDomain USER_NOT_FOUND)) (\<lambda>target.
     if \<not> u_isAdmin target then ret ()
     else
       bnd (check (lower (u_email target) \<noteq> lower bootstrap) (Conflict ADMIN_CANNOT_DEMOTE_BOOTSTRAP)) (\<lambda>_.
       bnd (gets (\<lambda>w. count_rows (\<lambda>u. u_isAdmin u \<and> u_deletedAt u = None \<and> u_id u \<noteq> i) (users w))) (\<lambda>remaining.
       bnd (check (remaining \<noteq> 0) (Conflict ADMIN_CANNOT_REMOVE_LAST_ADMIN)) (\<lambda>_.
       bnd (upd (users_update (set_rows (\<lambda>u. u_id u = i) (u_isAdmin_update (\<lambda>_. False))))) (\<lambda>_.
       bnd (cache_invalidate up [principal_cache_key (u_sub target)]) (\<lambda>_.
       bnd (enqueueNotify
              \<lparr>nj_recipient = i, nj_type = ADMIN_DEMOTED,
               nj_payload = role_change_payload ''demotedBy'' admin, nj_drop = [],
               nj_actor = Some (user_ref_of admin)\<rparr>) (\<lambda>_.
       audit_record now (Some (u_id admin)) ''user.demote'' ''User'' i
         (Some (JObj [(''email'', JStr (u_email target))])))))))))"

definition has_active_admin :: "world \<Rightarrow> bool" where
  "has_active_admin w = some_row (\<lambda>u. u_isAdmin u \<and> u_deletedAt u = None) (users w)"

definition is_bootstrap_admin :: "string \<Rightarrow> user_row \<Rightarrow> bool" where
  "is_bootstrap_admin bootstrap u \<longleftrightarrow> u_isAdmin u \<and> lower (u_email u) = lower bootstrap"

lemma demote_cases:
  assumes "demote bootstrap up now i admin w = (r, w')"
  obtains "w' = w"
    | target where "user_by i w = Some target" "u_isAdmin target" "r = (if queue_down w then Inl queue_failed else Inr ())"
        "lower (u_email target) \<noteq> lower bootstrap"
        "\<exists>u \<in> set (users w). u_isAdmin u \<and> u_deletedAt u = None \<and> u_id u \<noteq> i"
        "users w' = set_rows (\<lambda>u. u_id u = i) (u_isAdmin_update (\<lambda>_. False)) (users w)"
        "redis w' = (if up then redis_del [principal_cache_key (u_sub target)] (redis w) else redis w)"
        "assets w' = assets w"
proof (cases "user_by i w")
  case None
  with assms show ?thesis by (auto simp: demote_def act_simps intro: that(1))
next
  case (Some target)
  show ?thesis
  proof (cases "w' = w")
    case True
    then show ?thesis by (rule that(1))
  next
    case False
    with assms Some have "u_isAdmin target" "r = (if queue_down w then Inl queue_failed else Inr ())" "lower (u_email target) \<noteq> lower bootstrap"
      "\<exists>u \<in> set (users w). u_isAdmin u \<and> u_deletedAt u = None \<and> u_id u \<noteq> i"
      "users w' = set_rows (\<lambda>u. u_id u = i) (u_isAdmin_update (\<lambda>_. False)) (users w)"
      "redis w' = (if up then redis_del [principal_cache_key (u_sub target)] (redis w) else redis w)"
      "assets w' = assets w"
      by (auto simp: demote_def act_simps cache_invalidate_def enqueueNotify_def audit_record_def
          count_rows_pos_iff split: if_splits)
    then show ?thesis by (rule that(2) [OF Some])
  qed
qed

text \<open>
  Demotion never leaves the system without an admin, and never takes the flag from the bootstrap
  admin.
\<close>

theorem demote_keeps_admins:
  assumes "demote bootstrap up now i admin w = (r, w')"
  shows "(has_active_admin w \<longrightarrow> has_active_admin w') \<and>
         (distinct (map u_id (users w)) \<longrightarrow>
            (\<forall>u \<in> set (users w). is_bootstrap_admin bootstrap u \<longrightarrow> u \<in> set (users w')))"
  using assms
proof (cases rule: demote_cases)
  case (2 target)
  from 2(5) obtain v where "v \<in> set (users w)" "u_isAdmin v" "u_deletedAt v = None" "u_id v \<noteq> i" by blast
  then have "has_active_admin w'"
    by (auto simp: has_active_admin_def some_row_iff 2(6) set_set_rows intro!: bexI [of _ v])
  moreover have "u \<in> set (users w')"
    if "distinct (map u_id (users w))" "u \<in> set (users w)" "is_bootstrap_admin bootstrap u" for u
  proof -
    have "u_id u \<noteq> i"
    proof
      assume "u_id u = i"
      with that(1,2) have "user_by i w = Some u" by (simp add: user_by_def find_row_eq_Some_iff)
      with 2(1,4) that(3) show False by (simp add: is_bootstrap_admin_def)
    qed
    with that(2) show ?thesis by (auto simp: 2(6) set_set_rows)
  qed
  ultimately show ?thesis by blast
qed simp

definition bob :: user_row where
  "bob = \<lparr>u_id = ''b'', u_sub = ''sb'', u_email = ''bob@b'', u_name = ''Bob'', u_locale = LEn,
     u_isAdmin = True, u_createdAt = 1, u_deletedAt = None\<rparr>"

definition root :: user_row where
  "root = \<lparr>u_id = ''r'', u_sub = ''sr'', u_email = ''root@b'', u_name = ''Root'', u_locale = LEn,
     u_isAdmin = True, u_createdAt = 0, u_deletedAt = None\<rparr>"

definition admins_world :: world where
  "admins_world = empty_world\<lparr>users := [root, bob]\<rparr>"

theorem demote_keeps_admins_witness:
  "has_active_admin (snd (demote ''root@b'' True 5 ''b'' root admins_world)) \<and>
   root \<in> set (users (snd (demote ''root@b'' True 5 ''b'' root admins_world)))"
proof -
  obtain r w' where eq: "demote ''root@b'' True 5 ''b'' root admins_world = (r, w')" by fastforce
  have "has_active_admin admins_world" "distinct (map u_id (users admins_world))"
    "root \<in> set (users admins_world)" "is_bootstrap_admin ''root@b'' root"
    by (simp_all add: has_active_admin_def admins_world_def some_row_def root_def bob_def is_bootstrap_admin_def)
  with demote_keeps_admins [OF eq] show ?thesis by (simp add: eq)
qed

text \<open>
  A demotion applies at once: the next request of the demoted user, within the time the cached
  principal would have lived, is resolved without the admin role.
\<close>

theorem demotion_applies_at_once:
  assumes "demote bootstrap True now i admin w = (Inr (), w')"
    and "distinct (map u_id (users w))" and "distinct (map u_sub (users w))"
    and "user_by i w = Some target" and "cl_sub c = u_sub target"
    and "lower (case cl_email c of None \<Rightarrow> [] | Some e \<Rightarrow> e) \<noteq> lower bootstrap"
    and "resolve_principal date_parse bootstrap True t j c w' = (Inr (u, role), w'')"
  shows "u_isAdmin target \<longrightarrow> \<not> u_isAdmin u \<and> role \<noteq> RoleAdmin"
proof (intro impI)
  assume adm: "u_isAdmin target"
  from assms(1) show "\<not> u_isAdmin u \<and> role \<noteq> RoleAdmin"
  proof (cases rule: demote_cases)
    case 1
    with assms(1,4) adm have False
      by (auto simp: demote_def act_simps cache_invalidate_def enqueueNotify_def audit_record_def
          split: if_splits dest!: arg_cong [where f = audit_logs])
    then show ?thesis ..
  next
    case (2 tg)
    with assms(4) have tg: "tg = target" by simp
    have "cached_principal date_parse True t (cl_sub c) w' = None"
      by (simp add: cached_principal_def 2(7) tg assms(5))
    with assms(7) obtain w1 where up: "upsert_user bootstrap t j c w' = (Inr u, w1)"
      and role: "role = resolve_role u w1"
      by (auto simp: resolve_principal_def bnd_eq_Inr_conv)
    have "find_row u_sub (cl_sub c) (users w) = Some target"
      using user_byD [OF assms(4)] by (simp add: assms(3,5) find_row_eq_Some_iff)
    then have "find_row u_sub (cl_sub c) (users w') = Some (target\<lparr>u_isAdmin := False\<rparr>)"
      using user_byD [OF assms(4)] by (simp add: 2(6) find_row_set_rows)
    with upsert_user_admin [OF up assms(6)] have "\<not> u_isAdmin u" by simp
    then show ?thesis by (simp add: role resolve_role_def)
  qed
qed

definition bob_claims :: claims where
  "bob_claims = \<lparr>cl_sub = ''sb'', cl_email = Some ''bob@b'', cl_name = Some ''Bob'', cl_preferred = None\<rparr>"

theorem demotion_applies_at_once_witness:
  "\<exists>u role. fst (resolve_principal date_parse0 ''root@b'' True 6 ''z'' bob_claims
       (snd (demote ''root@b'' True 5 ''b'' root admins_world))) = Inr (u, role) \<and>
     \<not> u_isAdmin u \<and> role \<noteq> RoleAdmin"
proof -
  obtain w' where d: "demote ''root@b'' True 5 ''b'' root admins_world = (Inr (), w')"
    and us: "users w' = [root, bob\<lparr>u_isAdmin := False\<rparr>]"
    and re: "redis w' (principal_cache_key ''sb'') = None"
    by (simp add: demote_def act_simps admins_world_def user_by_def root_def bob_def lower_def lower_char_def
        cache_invalidate_def enqueueNotify_def audit_record_def)
  have ok: "distinct (map u_id (users admins_world))" "distinct (map u_sub (users admins_world))"
    "user_by ''b'' admins_world = Some bob"
    by (simp_all add: admins_world_def root_def bob_def user_by_def)
  have none: "cached_principal date_parse0 True 6 (cl_sub bob_claims) w' = None"
    by (simp add: cached_principal_def redis_get_def bob_claims_def re)
  obtain u w1 where up: "upsert_user ''root@b'' 6 ''z'' bob_claims w' = (Inr u, w1)"
    by (simp add: upsert_user_def bob_claims_def us root_def bob_def lower_def lower_char_def
        display_name_def some_row_def Let_def act_simps)
  obtain role w'' where res: "resolve_principal date_parse0 ''root@b'' True 6 ''z'' bob_claims w' = (Inr (u, role), w'')"
    by (simp add: resolve_principal_def act_simps none up)
  have ne: "lower (case cl_email bob_claims of None \<Rightarrow> [] | Some e \<Rightarrow> e) \<noteq> lower ''root@b''"
    by (simp add: bob_claims_def lower_def lower_char_def)
  have sub: "cl_sub bob_claims = u_sub bob" by (simp add: bob_claims_def bob_def)
  from demotion_applies_at_once [OF d ok sub ne res] show ?thesis
    by (simp add: d res) (simp add: bob_def)
qed

text \<open>
  An admin who follows the cursors of the user list sees every matching user exactly once, newest
  first, whatever page size was asked for.
\<close>

theorem admin_user_pages_complete:
  assumes "distinct (map u_id (users w))"
  shows "walk_pages (Suc (length (admin_user_listing (query, w)))) u_id user_cursor
           (resolve_page_size limit) None (admin_user_listing (query, w)) =
         Some (admin_user_listing (query, w))"
  by (rule admin_users.walk_complete) (use assms resolve_page_size_bounds [of limit] in auto)

theorem admin_user_pages_complete_witness:
  "walk_pages (Suc (length (admin_user_listing (\<lparr>aq_q = None, aq_isAdmin = None\<rparr>, admins_world)))) u_id user_cursor
     (resolve_page_size (Some 1)) None (admin_user_listing (\<lparr>aq_q = None, aq_isAdmin = None\<rparr>, admins_world)) =
   Some [bob, root]"
proof -
  have d: "distinct (map u_id (users admins_world))" by (simp add: admins_world_def bob_def root_def)
  have l: "admin_user_listing (\<lparr>aq_q = None, aq_isAdmin = None\<rparr>, admins_world) = [bob, root]"
    by (simp add: admin_user_listing_def admins_world_def admin_user_match_def bob_def root_def order_desc_def)
  from admin_user_pages_complete [OF d, of "\<lparr>aq_q = None, aq_isAdmin = None\<rparr>" "Some 1"]
  show ?thesis unfolding l .
qed

end
