(* ===== verification/Text.thy ===== *)
theory Text
  imports Auth
begin

section \<open>Slugs, localized values and previews of text\<close>

text \<open>
  \<open>src/modules/assets/slug.ts\<close>, \<open>TagsService.toSlug\<close> and \<open>src/common/i18n/locale-resolver.ts\<close>.
  \<open>nfkd\<close> is \<open>s.toLowerCase().normalize('NFKD')\<close> as a list of code points, from the Unicode tables
  of the runtime; everything after it is modelled.  The random hex digits are parameters.
\<close>

subsection \<open>Slugs\<close>

definition is_word_code :: "nat \<Rightarrow> bool" where
  "is_word_code n \<longleftrightarrow>
     (48 \<le> n \<and> n \<le> 57) \<or> (65 \<le> n \<and> n \<le> 90) \<or> n = 95 \<or> (97 \<le> n \<and> n \<le> 122)"

text \<open>The code points that \<open>\s\<close> matches in a JavaScript regular expression.\<close>

definition is_space_code :: "nat \<Rightarrow> bool" where
  "is_space_code n \<longleftrightarrow>
     (9 \<le> n \<and> n \<le> 13) \<or> n = 32 \<or> n = 160 \<or> n = 5760 \<or> (8192 \<le> n \<and> n \<le> 8202) \<or>
     n = 8232 \<or> n = 8233 \<or> n = 8239 \<or> n = 8287 \<or> n = 12288 \<or> n = 65279"

definition trim_codes :: "nat list \<Rightarrow> nat list" where
  "trim_codes s = rev (dropWhile is_space_code (rev (dropWhile is_space_code s)))"

lemma dash_spaces_term [termination_simp]: "length (dropWhile is_space_code xs) < Suc (length xs)"
  by (simp add: le_imp_less_Suc length_dropWhile_le)

fun dash_spaces :: "nat list \<Rightarrow> nat list" where
  "dash_spaces [] = []"
| "dash_spaces (x # xs) =
     (if is_space_code x then 45 # dash_spaces (dropWhile is_space_code xs) else x # dash_spaces xs)"

definition slug_codes :: "(string \<Rightarrow> nat list) \<Rightarrow> nat \<Rightarrow> string \<Rightarrow> string" where
  "slug_codes nfkd n s =
     map char_of (take n (dash_spaces (trim_codes
       (filter (\<lambda>c. is_word_code c \<or> is_space_code c \<or> c = 45) (nfkd s)))))"

definition slugify :: "(string \<Rightarrow> nat list) \<Rightarrow> string \<Rightarrow> string \<Rightarrow> string" where
  "slugify nfkd random title = (let s = slug_codes nfkd 80 title in if s = [] then random else s)"

definition append_slug_suffix :: "string \<Rightarrow> string \<Rightarrow> string" where
  "append_slug_suffix random slug = slug @ ''-'' @ random"

definition tag_slug :: "(string \<Rightarrow> nat list) \<Rightarrow> string \<Rightarrow> string" where
  "tag_slug nfkd displayName = slug_codes nfkd 50 displayName"

definition slug_char :: "char \<Rightarrow> bool" where
  "slug_char c = (let n = of_char c in is_word_code n \<or> n = 45)"

lemma dash_spaces_codes:
  "\<forall>c \<in> set xs. is_word_code c \<or> is_space_code c \<or> c = 45 \<Longrightarrow>
     \<forall>c \<in> set (dash_spaces xs). is_word_code c \<or> c = 45"
proof (induction xs rule: dash_spaces.induct)
  case (2 x xs)
  then show ?case by (auto dest: set_dropWhileD)
qed simp

lemma slug_codes_chars: "\<forall>c \<in> set (slug_codes nfkd n s). slug_char c"
proof -
  let ?f = "filter (\<lambda>c. is_word_code c \<or> is_space_code c \<or> c = 45) (nfkd s)"
  have "\<forall>c \<in> set (trim_codes ?f). is_word_code c \<or> is_space_code c \<or> c = 45"
    by (auto simp: trim_codes_def dest!: set_dropWhileD)
  then have "\<forall>c \<in> set (dash_spaces (trim_codes ?f)). is_word_code c \<or> c = 45"
    by (rule dash_spaces_codes)
  moreover have "is_word_code c \<or> c = 45 \<Longrightarrow> c < 256" for c by (auto simp: is_word_code_def)
  ultimately show ?thesis
    unfolding slug_codes_def slug_char_def by (auto simp: Let_def dest!: in_set_takeD)
qed

text \<open>
  Whatever the title, its slug is not empty, has at most 80 characters and only letters, digits,
  underscores and dashes, so it needs no escaping in a URL (the random fallback is hex).
\<close>

theorem slugify_url_safe:
  assumes "random \<noteq> []" and "length random \<le> 80" and "\<forall>c \<in> set random. slug_char c"
  shows "slugify nfkd random title \<noteq> [] \<and> length (slugify nfkd random title) \<le> 80 \<and>
         (\<forall>c \<in> set (slugify nfkd random title). slug_char c)"
proof (cases "slug_codes nfkd 80 title = []")
  case True
  with assms show ?thesis by (simp add: slugify_def)
next
  case False
  have "length (slug_codes nfkd 80 title) \<le> 80" by (simp add: slug_codes_def)
  with False slug_codes_chars [of nfkd 80 title] show ?thesis by (simp add: slugify_def)
qed

theorem slugify_url_safe_witness:
  "slugify (\<lambda>s. map of_char (lower s)) ''0a1b'' ''My  Asset!'' \<noteq> [] \<and>
   length (slugify (\<lambda>s. map of_char (lower s)) ''0a1b'' ''My  Asset!'') \<le> 80"
proof -
  have r: "\<forall>c \<in> set ''0a1b''. slug_char c" by code_simp
  have n: "''0a1b'' \<noteq> []" "length ''0a1b'' \<le> 80" by simp_all
  show ?thesis
    using slugify_url_safe [OF n r, of "\<lambda>s. map of_char (lower s)" "''My  Asset!''"] by blast
qed

subsection \<open>Localized values\<close>

definition non_null :: "json option \<Rightarrow> json option" where
  "non_null v = (case v of Some x \<Rightarrow> if x = JNull then None else Some x | None \<Rightarrow> None)"

definition resolve_localized :: "json option \<Rightarrow> locale_code \<Rightarrow> json option" where
  "resolve_localized value loc =
     (case value of
        None \<Rightarrow> None
      | Some v \<Rightarrow>
          if \<not> truthy v then None
          else
            (case non_null (get_prop v (locale_name loc)) of
               Some x \<Rightarrow> Some x
             | None \<Rightarrow> map_option snd (List.find (\<lambda>p. snd p \<noteq> JNull) (json_entries v))))"

definition pick_translation :: "translation_row list \<Rightarrow> locale_code \<Rightarrow> translation_row option" where
  "pick_translation rows loc =
     (if rows = [] then None
      else (case find_row tr_locale loc rows of Some r \<Rightarrow> Some r | None \<Rightarrow> Some (hd rows)))"

lemma resolve_localized_requested:
  "map_of fs (locale_name loc) = Some v \<Longrightarrow> v \<noteq> JNull \<Longrightarrow>
     resolve_localized (Some (JObj fs)) loc = Some v"
  by (simp add: resolve_localized_def non_null_def)

lemma find_Some_mem: "List.find P xs = Some x \<Longrightarrow> x \<in> set xs \<and> P x"
  by (induction xs) (auto split: if_splits)

lemma resolve_localized_plain:
  assumes "js_plain v" and "resolve_localized (Some v) loc = Some x"
  shows "js_plain x"
proof (cases v)
  case (JObj fs)
  with assms show ?thesis
    by (auto simp: resolve_localized_def non_null_def split: option.splits if_splits
        dest!: map_of_SomeD find_Some_mem)
next
  case (JArr vs)
  with assms show ?thesis
    by (auto simp: resolve_localized_def non_null_def split: option.splits
        dest!: find_Some_mem set_zip_rightD)
next
  case (JStr s)
  with assms show ?thesis
    by (auto simp: resolve_localized_def non_null_def split: option.splits if_splits
        dest!: find_Some_mem set_zip_rightD)
qed (use assms in \<open>auto simp: resolve_localized_def non_null_def split: if_splits option.splits\<close>)

text \<open>\<open>resolveLocalized\<close> finds a value whenever some locale has one.\<close>

lemma find_exists: "p \<in> set xs \<Longrightarrow> P p \<Longrightarrow> \<exists>q. List.find P xs = Some q"
  by (induction xs) auto

lemma resolve_localized_complete:
  assumes "p \<in> set fs" and "snd p \<noteq> JNull"
  shows "resolve_localized (Some (JObj fs)) loc \<noteq> None"
proof -
  obtain q where "List.find (\<lambda>p. snd p \<noteq> JNull) fs = Some q"
    using find_exists [OF assms(1), of "\<lambda>p. snd p \<noteq> JNull"] assms(2) by blast
  then show ?thesis by (simp add: resolve_localized_def split: option.splits)
qed

lemma pick_translation_some: "rows \<noteq> [] \<Longrightarrow> \<exists>r. pick_translation rows loc = Some r \<and> r \<in> set rows"
  by (auto simp: pick_translation_def split: option.splits dest: find_row_SomeD)

end
