(* ===== verification/Catalog.thy ===== *)
theory Catalog
  imports Users Text
begin

section \<open>Categories, licenses and tags\<close>

text \<open>
  \<open>src/modules/categories\<close>, \<open>src/modules/licenses\<close> and \<open>src/modules/tags\<close>: the public listings, read
  through the Redis cache, and the admin operations that change them and drop the cache.  The cached
  listings are interpretations of \<open>read_through\<close>.

  A listing is the JSON the response carries.  Presigned icon links are left out.
\<close>

subsection \<open>Categories\<close>

definition category_by :: "string \<Rightarrow> world \<Rightarrow> category_row option" where
  "category_by i w = find_row c_id i (categories w)"

definition license_by :: "string \<Rightarrow> world \<Rightarrow> license_row option" where
  "license_by i w = find_row l_id i (licenses w)"

definition category_find_or_throw :: "string \<Rightarrow> category_row handler" where
  "category_find_or_throw i = fetch (category_by i) (NotFoundDomain CATEGORY_NOT_FOUND)"

definition category_cache_key :: "locale_code \<Rightarrow> string" where
  "category_cache_key l = ''cache:categories:v1:locale:'' @ locale_name l"

definition optional_field :: "string \<Rightarrow> string option \<Rightarrow> (string \<times> json) list" where
  "optional_field k v = (case v of None \<Rightarrow> [] | Some s \<Rightarrow> [(k, JStr s)])"

definition localized_or :: "json \<Rightarrow> locale_code \<Rightarrow> string \<Rightarrow> json" where
  "localized_or v loc d = (case resolve_localized (Some v) loc of None \<Rightarrow> JStr d | Some x \<Rightarrow> x)"

definition category_dto :: "locale_code \<Rightarrow> world \<Rightarrow> category_row \<Rightarrow> json" where
  "category_dto loc w c =
     JObj ([(''id'', JStr (c_id c)), (''slug'', JStr (c_slug c)),
            (''name'', localized_or (c_name c) loc (c_slug c))]
           @ optional_field ''iconKey'' (c_iconKey c)
           @ [(''sortOrder'', JNum (c_sortOrder c)),
              (''assetCount'', JNum (int (count_rows (\<lambda>a. a_status a = PUBLISHED \<and> a_categoryId a = c_id c)
                                          (assets w))))])"

definition compute_category_list :: "locale_code \<Rightarrow> world \<Rightarrow> json" where
  "compute_category_list loc w =
     JArr (map (category_dto loc w) (sort_key c_sortOrder (filter c_isActive (categories w))))"

definition category_list :: "locale_code \<Rightarrow> bool \<Rightarrow> int \<Rightarrow> json handler" where
  "category_list loc up now = get_or_fetch up now (category_cache_key loc) 600 (compute_category_list loc)"

definition invalidate_categories :: "bool \<Rightarrow> unit handler" where
  "invalidate_categories up = cache_invalidate up [category_cache_key LEn, category_cache_key LId]"

definition category_names_plain :: "world \<Rightarrow> bool" where
  "category_names_plain w \<longleftrightarrow> (\<forall>c \<in> set (categories w). js_plain (c_name c))"

lemma localized_or_plain: "js_plain v \<Longrightarrow> js_plain (localized_or v loc d)"
  by (auto simp: localized_or_def split: option.splits dest: resolve_localized_plain)

lemma compute_category_list_plain: "category_names_plain w \<Longrightarrow> js_plain (compute_category_list loc w)"
  by (auto simp: compute_category_list_def category_dto_def category_names_plain_def optional_field_def
      localized_or_plain split: option.splits)

lemma compute_category_list_redis:
  "compute_category_list loc (redis_update f w) = compute_category_list loc w"
  by (simp add: compute_category_list_def category_dto_def)

lemma category_list_eq:
  "category_list loc up now = get_or_fetch up now (category_cache_key loc) 600 (compute_category_list loc)"
  by (simp add: category_list_def)

interpretation categories_en: read_through "category_list LEn" "category_cache_key LEn" 600
    "compute_category_list LEn" category_names_plain
  by (unfold_locales; fact category_list_eq compute_category_list_plain compute_category_list_redis)

interpretation categories_id: read_through "category_list LId" "category_cache_key LId" 600
    "compute_category_list LId" category_names_plain
  by (unfold_locales; fact category_list_eq compute_category_list_plain compute_category_list_redis)

record create_category =
  cc_slug :: string
  cc_name :: json
  cc_iconKey :: "string option"
  cc_sortOrder :: "int option"
  cc_isActive :: "bool option"

record update_category =
  uc_slug :: "string option"
  uc_name :: "json option"
  uc_iconKey :: "string option"
  uc_sortOrder :: "int option"
  uc_isActive :: "bool option"

definition or_else :: "'a option \<Rightarrow> 'a \<Rightarrow> 'a" where
  "or_else v d = (case v of None \<Rightarrow> d | Some x \<Rightarrow> x)"

text \<open>\<open>{ ...existing, ...changes }\<close>.\<close>

definition json_merge :: "json \<Rightarrow> json \<Rightarrow> json" where
  "json_merge a b = JObj (foldl (\<lambda>fs (k, v). AList.update k v fs) (json_entries a) (json_entries b))"

definition create_category_row :: "bool \<Rightarrow> int \<Rightarrow> string \<Rightarrow> user_row \<Rightarrow> create_category \<Rightarrow> category_row handler" where
  "create_category_row up now i admin dto =
     bnd (gets (\<lambda>w. find_row c_slug (cc_slug dto) (categories w))) (\<lambda>existing.
     bnd (check (existing = None) (Conflict CATEGORY_IN_USE)) (\<lambda>_.
     (let row = \<lparr>c_id = i, c_slug = cc_slug dto, c_name = cc_name dto, c_iconKey = cc_iconKey dto,
                 c_sortOrder = or_else (cc_sortOrder dto) 999, c_isActive = or_else (cc_isActive dto) True\<rparr>
      in bnd (upd (categories_update (\<lambda>rs. rs @ [row]))) (\<lambda>_.
         bnd (invalidate_categories up) (\<lambda>_.
         bnd (audit_record now (Some (u_id admin)) ''category.create'' ''Category'' i
                (Some (JObj [(''slug'', JStr (cc_slug dto))]))) (\<lambda>_.
         ret row))))))"

definition reindex_category_assets :: "string \<Rightarrow> unit handler" where
  "reindex_category_assets cid =
     bnd (gets (\<lambda>w. take 5000 (filter (\<lambda>a. a_categoryId a = cid \<and> a_status a = PUBLISHED) (assets w)))) (\<lambda>as.
     each (\<lambda>a. enqueueSearchIndex (a_id a) ASSET_UPDATE) as)"

definition update_category_row ::
  "bool \<Rightarrow> int \<Rightarrow> string \<Rightarrow> user_row \<Rightarrow> update_category \<Rightarrow> json \<Rightarrow> category_row handler" where
  "update_category_row up now i admin dto changes =
     bnd (fetch (category_by i) (NotFoundDomain CATEGORY_NOT_FOUND)) (\<lambda>existing.
     bnd (gets (\<lambda>w. find_row c_slug (or_else (uc_slug dto) []) (categories w))) (\<lambda>collision.
     bnd (check (\<not> (truthy_str (uc_slug dto) \<and> uc_slug dto \<noteq> Some (c_slug existing) \<and> collision \<noteq> None))
            (Conflict CATEGORY_IN_USE)) (\<lambda>_.
     (let slug = or_else (uc_slug dto) (c_slug existing);
          f = (\<lambda>c. c\<lparr>c_slug := slug,
                     c_name := (case uc_name dto of
                         None \<Rightarrow> c_name existing
                       | Some n \<Rightarrow> if n = JNull then c_name existing else json_merge (c_name existing) n),
                     c_iconKey := (case uc_iconKey dto of None \<Rightarrow> c_iconKey existing | Some k \<Rightarrow> Some k),
                     c_sortOrder := or_else (uc_sortOrder dto) (c_sortOrder existing),
                     c_isActive := or_else (uc_isActive dto) (c_isActive existing)\<rparr>)
      in bnd (gets (\<lambda>w. some_row (\<lambda>c. c_slug c = slug \<and> c_id c \<noteq> i) (categories w))) (\<lambda>taken.
         bnd (check (\<not> taken) (OtherError (UniqueViolation ''categories.slug''))) (\<lambda>_.
         bnd (upd (categories_update (set_rows (\<lambda>c. c_id c = i) f))) (\<lambda>_.
         bnd (invalidate_categories up) (\<lambda>_.
         bnd (audit_record now (Some (u_id admin)) ''category.update'' ''Category'' i
                (Some (JObj [(''changes'', changes)]))) (\<lambda>_.
         bnd (reindex_category_assets i) (\<lambda>_.
         ret (f existing)))))))))))"

definition remove_category :: "bool \<Rightarrow> int \<Rightarrow> string \<Rightarrow> user_row \<Rightarrow> unit handler" where
  "remove_category up now i admin =
     bnd (gets (\<lambda>w. count_rows (\<lambda>a. a_categoryId a = i) (assets w))) (\<lambda>usage.
     bnd (check (usage = 0) (Conflict CATEGORY_IN_USE)) (\<lambda>_.
     bnd (fetch (category_by i) (NotFoundDomain CATEGORY_NOT_FOUND)) (\<lambda>row.
     bnd (upd (categories_update (drop_rows (\<lambda>c. c_id c = i)))) (\<lambda>_.
     bnd (invalidate_categories up) (\<lambda>_.
     audit_record now (Some (u_id admin)) ''category.delete'' ''Category'' i
       (Some (JObj [(''slug'', JStr (c_slug row))])))))))"

definition set_category_order :: "int \<times> string \<Rightarrow> unit handler" where
  "set_category_order p =
     bnd (fetch (category_by (snd p)) (OtherError (RecordNotFound ''Category''))) (\<lambda>_.
     upd (categories_update (set_rows (\<lambda>c. c_id c = snd p) (c_sortOrder_update (\<lambda>_. fst p)))))"

definition with_index :: "'a list \<Rightarrow> (int \<times> 'a) list" where
  "with_index xs = zip (map int [0..<length xs]) xs"

definition reorder_categories :: "bool \<Rightarrow> int \<Rightarrow> string list \<Rightarrow> user_row \<Rightarrow> unit handler" where
  "reorder_categories up now ids admin =
     bnd (transact (each set_category_order (with_index ids))) (\<lambda>_.
     bnd (invalidate_categories up) (\<lambda>_.
     audit_record now (Some (u_id admin)) ''category.reorder'' ''Category'' ''reorder''
       (Some (JObj [(''orderedIds'', JArr (map JStr ids))]))))"

definition ICON_MAX_BYTES :: int where "ICON_MAX_BYTES = 256 * 1024"

definition initiate_icon_upload :: "int \<Rightarrow> int \<Rightarrow> string \<Rightarrow> int \<Rightarrow> app_error + string \<times> string" where
  "initiate_icon_upload now presignSec uuid bytes =
     (if ICON_MAX_BYTES < bytes then Inl (BadRequest FILE_UPLOAD_INIT_FAILED)
      else Inr (''category-icons/'' @ uuid, iso_string (now + presignSec * 1000)))"

subsection \<open>Licenses\<close>

definition license_find_or_throw :: "string \<Rightarrow> license_row handler" where
  "license_find_or_throw i = fetch (license_by i) (NotFoundDomain LICENSE_NOT_FOUND)"

definition license_cache_key :: "locale_code \<Rightarrow> string" where
  "license_cache_key l = ''cache:licenses:v1:locale:'' @ locale_name l"

definition license_summary_fields :: "locale_code \<Rightarrow> license_row \<Rightarrow> (string \<times> json) list" where
  "license_summary_fields loc l =
     [(''id'', JStr (l_id l)), (''slug'', JStr (l_slug l)), (''name'', JStr (l_name l)),
      (''description'', localized_or (l_description l) loc []), (''sortOrder'', JNum (l_sortOrder l))]"

definition compute_license_list :: "locale_code \<Rightarrow> world \<Rightarrow> json" where
  "compute_license_list loc w =
     JArr (map (\<lambda>l. JObj (license_summary_fields loc l))
             (sort_key l_sortOrder (filter l_isActive (licenses w))))"

definition license_list :: "locale_code \<Rightarrow> bool \<Rightarrow> int \<Rightarrow> json handler" where
  "license_list loc up now = get_or_fetch up now (license_cache_key loc) 3600 (compute_license_list loc)"

definition license_detail :: "string \<Rightarrow> locale_code \<Rightarrow> json handler" where
  "license_detail i loc =
     bnd (license_find_or_throw i) (\<lambda>l.
     ret (JObj (license_summary_fields loc l @ [(''fullText'', localized_or (l_fullText l) loc [])])))"

definition invalidate_licenses :: "bool \<Rightarrow> unit handler" where
  "invalidate_licenses up = cache_invalidate up [license_cache_key LEn, license_cache_key LId]"

definition license_texts_plain :: "world \<Rightarrow> bool" where
  "license_texts_plain w \<longleftrightarrow> (\<forall>l \<in> set (licenses w). js_plain (l_description l))"

interpretation licenses_en: read_through "license_list LEn" "license_cache_key LEn" 3600
    "compute_license_list LEn" license_texts_plain
  by unfold_locales
    (auto simp: license_list_def compute_license_list_def license_summary_fields_def license_texts_plain_def
      localized_or_plain)

interpretation licenses_id: read_through "license_list LId" "license_cache_key LId" 3600
    "compute_license_list LId" license_texts_plain
  by unfold_locales
    (auto simp: license_list_def compute_license_list_def license_summary_fields_def license_texts_plain_def
      localized_or_plain)

record create_license =
  cl_slug' :: string
  cl_name' :: string
  cl_description' :: json
  cl_fullText' :: json
  cl_sortOrder' :: "int option"
  cl_isActive' :: "bool option"

record update_license =
  ul_name :: "string option"
  ul_description :: "json option"
  ul_fullText :: "json option"
  ul_sortOrder :: "int option"
  ul_isActive :: "bool option"

definition create_license_row :: "bool \<Rightarrow> int \<Rightarrow> string \<Rightarrow> user_row \<Rightarrow> create_license \<Rightarrow> license_row handler" where
  "create_license_row up now i admin dto =
     bnd (gets (\<lambda>w. find_row l_slug (cl_slug' dto) (licenses w))) (\<lambda>collision.
     bnd (check (collision = None) (Conflict LICENSE_IN_USE)) (\<lambda>_.
     (let row = \<lparr>l_id = i, l_slug = cl_slug' dto, l_name = cl_name' dto, l_description = cl_description' dto,
                 l_fullText = cl_fullText' dto, l_isActive = or_else (cl_isActive' dto) True,
                 l_sortOrder = or_else (cl_sortOrder' dto) 999\<rparr>
      in bnd (upd (licenses_update (\<lambda>rs. rs @ [row]))) (\<lambda>_.
         bnd (invalidate_licenses up) (\<lambda>_.
         bnd (audit_record now (Some (u_id admin)) ''license.create'' ''License'' i
                (Some (JObj [(''slug'', JStr (cl_slug' dto))]))) (\<lambda>_.
         ret row))))))"

definition merged_text :: "json \<Rightarrow> json option \<Rightarrow> json" where
  "merged_text old new =
     (case new of None \<Rightarrow> old | Some n \<Rightarrow> if n = JNull then old else json_merge old n)"

definition update_license_row ::
  "bool \<Rightarrow> int \<Rightarrow> string \<Rightarrow> user_row \<Rightarrow> update_license \<Rightarrow> json \<Rightarrow> license_row handler" where
  "update_license_row up now i admin dto changes =
     bnd (fetch (license_by i) (NotFoundDomain LICENSE_NOT_FOUND)) (\<lambda>existing.
     (let f = (\<lambda>l. l\<lparr>l_name := or_else (ul_name dto) (l_name existing),
                     l_description := merged_text (l_description existing) (ul_description dto),
                     l_fullText := merged_text (l_fullText existing) (ul_fullText dto),
                     l_sortOrder := or_else (ul_sortOrder dto) (l_sortOrder existing),
                     l_isActive := or_else (ul_isActive dto) (l_isActive existing)\<rparr>)
      in bnd (upd (licenses_update (set_rows (\<lambda>l. l_id l = i) f))) (\<lambda>_.
         bnd (invalidate_licenses up) (\<lambda>_.
         bnd (audit_record now (Some (u_id admin)) ''license.update'' ''License'' i
                (Some (JObj [(''changes'', changes)]))) (\<lambda>_.
         ret (f existing))))))"

definition remove_license :: "bool \<Rightarrow> int \<Rightarrow> string \<Rightarrow> user_row \<Rightarrow> unit handler" where
  "remove_license up now i admin =
     bnd (gets (\<lambda>w. count_rows (\<lambda>a. a_licenseId a = i) (assets w))) (\<lambda>usage.
     bnd (check (usage = 0) (Conflict LICENSE_IN_USE)) (\<lambda>_.
     bnd (fetch (license_by i) (NotFoundDomain LICENSE_NOT_FOUND)) (\<lambda>row.
     bnd (upd (licenses_update (drop_rows (\<lambda>l. l_id l = i)))) (\<lambda>_.
     bnd (invalidate_licenses up) (\<lambda>_.
     audit_record now (Some (u_id admin)) ''license.delete'' ''License'' i
       (Some (JObj [(''slug'', JStr (l_slug row))])))))))"

subsection \<open>Tags\<close>

definition tag_by :: "string \<Rightarrow> world \<Rightarrow> tag_row option" where
  "tag_by i w = find_row t_id i (tags w)"

definition tag_use_count :: "world \<Rightarrow> string \<Rightarrow> nat" where
  "tag_use_count w i = count_rows (\<lambda>x. at_tagId x = i) (asset_tags w)"

definition usage_count :: "world \<Rightarrow> string \<Rightarrow> nat option" where
  "usage_count w i = map_option tu_count (find_row tu_tagId i (tag_usage w))"

definition tag_dto :: "nat \<Rightarrow> tag_row \<Rightarrow> json" where
  "tag_dto n t = JObj [(''id'', JStr (t_id t)), (''slug'', JStr (t_slug t)),
     (''displayName'', JStr (t_name t)), (''usageCount'', JNum (int n))]"

definition autocomplete :: "string \<Rightarrow> int \<Rightarrow> world \<Rightarrow> json" where
  "autocomplete q limit w =
     (let needle = trim q; cap = nat (min (max limit 1) 20)
      in if needle = [] then JArr []
         else JArr (map (\<lambda>t. tag_dto (tag_use_count w (t_id t)) t)
                (take cap (sort_key (\<lambda>t. (- int (tag_use_count w (t_id t)), t_name t))
                   (filter (\<lambda>t. starts_with (lower needle) (t_slug t) \<or> contains_ci needle (t_name t))
                      (tags w))))))"

definition popular_cache_key :: "nat \<Rightarrow> string" where
  "popular_cache_key n = ''cache:tags:popular:v1:limit:'' @ show_nat n"

definition compute_popular :: "nat \<Rightarrow> world \<Rightarrow> json" where
  "compute_popular limit w =
     JArr (map (\<lambda>t. tag_dto (or_else (usage_count w (t_id t)) 0) t)
       (take limit (sort_key (\<lambda>t. (- int (or_else (usage_count w (t_id t)) 0), t_name t))
          (filter (\<lambda>t. 0 < or_else (usage_count w (t_id t)) 0) (tags w)))))"

definition popular_limit :: "int option \<Rightarrow> nat" where
  "popular_limit limit = nat (min (max (or_else limit 24) 1) 50)"

definition popular_tags :: "int option \<Rightarrow> bool \<Rightarrow> int \<Rightarrow> json handler" where
  "popular_tags limit up now =
     get_or_fetch up now (popular_cache_key (popular_limit limit)) 600 (compute_popular (popular_limit limit))"

definition popular_keys :: "string list" where
  "popular_keys = map popular_cache_key [1..<51]"

definition invalidate_popular :: "bool \<Rightarrow> unit handler" where
  "invalidate_popular up = cache_invalidate up popular_keys"

lemma popular_keys_nonempty [simp]: "popular_keys \<noteq> []"
  by (simp add: popular_keys_def)

lemma compute_popular_plain: "js_plain (compute_popular n w)"
  by (auto simp: compute_popular_def tag_dto_def)

lemma compute_popular_redis: "compute_popular n (redis_update f w) = compute_popular n w"
  by (simp add: compute_popular_def usage_count_def)

lemma popular_tags_default_eq:
  "popular_tags None up now = get_or_fetch up now (popular_cache_key 24) 600 (compute_popular 24)"
  by (simp add: popular_tags_def popular_limit_def or_else_def)

interpretation popular_default: read_through "popular_tags None" "popular_cache_key 24" 600 "compute_popular 24"
    "\<lambda>_. True"
  by unfold_locales (simp_all only: popular_tags_default_eq compute_popular_plain compute_popular_redis)

text \<open>
  \<open>upsertMany\<close>: distinct trimmed names, each upserted by its slug.  \<open>ids\<close> gives the id of a created
  row by position.
\<close>

definition upsert_tag :: "int \<Rightarrow> (string \<Rightarrow> nat list) \<Rightarrow> string \<Rightarrow> string \<Rightarrow> tag_row handler" where
  "upsert_tag now nfkd i name =
     (let slug = tag_slug nfkd name
      in bnd (gets (\<lambda>w. find_row t_slug slug (tags w))) (\<lambda>found.
         case found of
           Some t \<Rightarrow> bnd (upd (tags_update (set_rows (\<lambda>x. t_slug x = slug) (t_name_update (\<lambda>_. name))))) (\<lambda>_.
                     ret (t\<lparr>t_name := name\<rparr>))
         | None \<Rightarrow>
             (let t = \<lparr>t_id = i, t_slug = slug, t_name = name, t_createdAt = now\<rparr>
              in bnd (upd (tags_update (\<lambda>ts. ts @ [t]))) (\<lambda>_. ret t))))"

fun upsert_each :: "int \<Rightarrow> (string \<Rightarrow> nat list) \<Rightarrow> (string \<times> string) list \<Rightarrow> tag_row list handler" where
  "upsert_each now nfkd [] = ret []"
| "upsert_each now nfkd ((i, name) # xs) =
     bnd (upsert_tag now nfkd i name) (\<lambda>t. bnd (upsert_each now nfkd xs) (\<lambda>ts. ret (t # ts)))"

text \<open>\<open>Array.from(new Set(xs))\<close> keeps the first occurrence of each element.\<close>

fun uniq :: "'a list \<Rightarrow> 'a list" where
  "uniq [] = []"
| "uniq (x # xs) = x # filter (\<lambda>y. y \<noteq> x) (uniq xs)"

definition upsert_tags ::
  "int \<Rightarrow> (string \<Rightarrow> nat list) \<Rightarrow> (nat \<Rightarrow> string) \<Rightarrow> string list \<Rightarrow> tag_row list handler" where
  "upsert_tags now nfkd ids names =
     (let u = uniq (filter (\<lambda>n. n \<noteq> []) (map trim names))
      in upsert_each now nfkd (zip (map ids [0..<length u]) u))"

record merge_tags =
  mt_from :: "string list"
  mt_into :: string

definition merge_one :: "string \<Rightarrow> string \<Rightarrow> world \<Rightarrow> world" where
  "merge_one into src w =
     (let moved = map at_assetId (filter (\<lambda>x. at_tagId x = src) (asset_tags w));
          fresh = filter (\<lambda>a. \<lparr>at_assetId = a, at_tagId = into\<rparr> \<notin> set (asset_tags w)) moved
      in w\<lparr>asset_tags := drop_rows (\<lambda>x. at_tagId x = src)
              (asset_tags w @ map (\<lambda>a. \<lparr>at_assetId = a, at_tagId = into\<rparr>) fresh),
           tag_usage := drop_rows (\<lambda>u. tu_tagId u = src) (tag_usage w),
           tags := drop_rows (\<lambda>t. t_id t = src) (tags w)\<rparr>)"

fun merge_all :: "string \<Rightarrow> string list \<Rightarrow> world \<Rightarrow> world" where
  "merge_all into [] w = w"
| "merge_all into (s # ss) w = merge_all into ss (merge_one into s w)"

fun merge_touched :: "string \<Rightarrow> string list \<Rightarrow> world \<Rightarrow> string list" where
  "merge_touched into [] w = []"
| "merge_touched into (s # ss) w =
     map at_assetId (filter (\<lambda>x. at_tagId x = s) (asset_tags w)) @ merge_touched into ss (merge_one into s w)"

definition merge_tag_rows :: "bool \<Rightarrow> int \<Rightarrow> user_row \<Rightarrow> merge_tags \<Rightarrow> unit handler" where
  "merge_tag_rows up now admin dto =
     bnd (check (mt_into dto \<notin> set (mt_from dto)) (Conflict TAG_IN_USE)) (\<lambda>_.
     bnd (fetch (tag_by (mt_into dto)) (NotFoundDomain TAG_IN_USE)) (\<lambda>target.
     bnd (gets (\<lambda>w. map t_id (filter (\<lambda>t. t_id t \<in> set (mt_from dto)) (tags w)))) (\<lambda>sources.
     bnd (check (length sources = length (mt_from dto)) (NotFoundDomain TAG_IN_USE)) (\<lambda>_.
     bnd (gets (merge_touched (mt_into dto) sources)) (\<lambda>touched.
     bnd (upd (merge_all (mt_into dto) sources)) (\<lambda>_.
     bnd (each (\<lambda>a. enqueueSearchIndex a ASSET_UPDATE) (uniq touched)) (\<lambda>_.
     bnd (invalidate_popular up) (\<lambda>_.
     audit_record now (Some (u_id admin)) ''tag.merge'' ''Tag'' (t_id target)
       (Some (JObj [(''fromTagIds'', JArr (map JStr (mt_from dto))),
                    (''touched'', JNum (int (length (uniq touched))))]))))))))))"

record update_tag =
  ut_slug :: "string option"
  ut_name :: "string option"

definition update_tag_row :: "bool \<Rightarrow> int \<Rightarrow> string \<Rightarrow> user_row \<Rightarrow> update_tag \<Rightarrow> json \<Rightarrow> tag_row handler" where
  "update_tag_row up now i admin dto changes =
     bnd (fetch (tag_by i) (NotFoundDomain TAG_IN_USE)) (\<lambda>row.
     bnd (gets (\<lambda>w. find_row t_slug (or_else (ut_slug dto) []) (tags w))) (\<lambda>collision.
     bnd (check (\<not> (truthy_str (ut_slug dto) \<and> ut_slug dto \<noteq> Some (t_slug row) \<and> collision \<noteq> None))
            (Conflict TAG_IN_USE)) (\<lambda>_.
     (let slug = or_else (ut_slug dto) (t_slug row);
          f = (\<lambda>t. t\<lparr>t_slug := slug, t_name := or_else (ut_name dto) (t_name row)\<rparr>)
      in bnd (gets (\<lambda>w. some_row (\<lambda>t. t_slug t = slug \<and> t_id t \<noteq> i) (tags w))) (\<lambda>taken.
         bnd (check (\<not> taken) (OtherError (UniqueViolation ''tags.slug''))) (\<lambda>_.
         bnd (upd (tags_update (set_rows (\<lambda>t. t_id t = i) f))) (\<lambda>_.
         bnd (gets (\<lambda>w. map at_assetId (filter (\<lambda>x. at_tagId x = i) (asset_tags w)))) (\<lambda>as.
         bnd (each (\<lambda>a. enqueueSearchIndex a ASSET_UPDATE) as) (\<lambda>_.
         bnd (invalidate_popular up) (\<lambda>_.
         bnd (audit_record now (Some (u_id admin)) ''tag.update'' ''Tag'' i
                (Some (JObj [(''changes'', changes)]))) (\<lambda>_.
         ret (f row))))))))))))"

definition remove_tag :: "bool \<Rightarrow> int \<Rightarrow> string \<Rightarrow> user_row \<Rightarrow> unit handler" where
  "remove_tag up now i admin =
     bnd (gets (\<lambda>w. tag_use_count w i)) (\<lambda>usage.
     bnd (check (usage = 0) (Conflict TAG_IN_USE)) (\<lambda>_.
     bnd (fetch (tag_by i) (NotFoundDomain TAG_IN_USE)) (\<lambda>row.
     bnd (upd (\<lambda>w. w\<lparr>tags := drop_rows (\<lambda>t. t_id t = i) (tags w),
                     tag_usage := drop_rows (\<lambda>u. tu_tagId u = i) (tag_usage w)\<rparr>)) (\<lambda>_.
     bnd (invalidate_popular up) (\<lambda>_.
     audit_record now (Some (u_id admin)) ''tag.delete'' ''Tag'' i
       (Some (JObj [(''slug'', JStr (t_slug row))])))))))"

record list_tags_query =
  lt_q :: "string option"
  lt_min :: "int option"
  lt_max :: "int option"

definition admin_tag_match :: "list_tags_query \<Rightarrow> world \<Rightarrow> tag_row \<Rightarrow> bool" where
  "admin_tag_match query w t \<longleftrightarrow>
     (case lt_q query of
        None \<Rightarrow> True
      | Some q \<Rightarrow> q = [] \<or> contains (lower q) (t_slug t) \<or> contains_ci q (t_name t)) \<and>
     (if lt_min query = None \<and> lt_max query = None then True
      else
        (case usage_count w (t_id t) of
           None \<Rightarrow> False
         | Some n \<Rightarrow>
             (case lt_min query of None \<Rightarrow> True | Some lo \<Rightarrow> lo \<le> int n) \<and>
             (case lt_max query of None \<Rightarrow> True | Some hi \<Rightarrow> int n \<le> hi)))"

text \<open>Ordered by display name, then by id descending.\<close>

definition admin_tag_listing :: "list_tags_query \<times> world \<Rightarrow> tag_row list" where
  "admin_tag_listing =
     (\<lambda>(query, w). sort_key t_name (order_desc t_id (filter (admin_tag_match query w) (tags w))))"

definition tag_cursor :: "tag_row \<Rightarrow> cursor" where
  "tag_cursor t = \<lparr>cur_createdAt = iso_string (t_createdAt t), cur_id = t_id t\<rparr>"

definition admin_list_tags ::
  "list_tags_query \<Rightarrow> int option \<Rightarrow> string option \<Rightarrow> world \<Rightarrow> app_error + tag_row page" where
  "admin_list_tags query limit raw w =
     list_page t_id tag_cursor (resolve_page_size limit) raw (admin_tag_listing (query, w))"

lemma distinct_map_sort_key: "distinct (map g (sort_key k xs)) = distinct (map g xs)"
proof -
  have "mset (map g (sort_key k xs)) = mset (map g xs)" by simp
  then show ?thesis by (metis mset_eq_imp_distinct_iff)
qed

interpretation admin_tags: paged_listing t_id tag_cursor admin_tag_listing
    "\<lambda>(query, w). distinct (map t_id (tags w))"
  by unfold_locales (auto simp: admin_tag_listing_def tag_cursor_def distinct_map_sort_key)

subsection \<open>Deleting only what is not in use\<close>

definition catalog_refs_ok :: "world \<Rightarrow> bool" where
  "catalog_refs_ok w \<longleftrightarrow>
     (\<forall>a \<in> set (assets w). a_categoryId a \<in> c_id ` set (categories w)) \<and>
     (\<forall>a \<in> set (assets w). a_licenseId a \<in> l_id ` set (licenses w)) \<and>
     (\<forall>x \<in> set (asset_tags w). at_tagId x \<in> t_id ` set (tags w))"

lemma catalog_refs_ok_cong:
  "assets w' = assets w \<Longrightarrow> categories w' = categories w \<Longrightarrow> licenses w' = licenses w \<Longrightarrow>
     asset_tags w' = asset_tags w \<Longrightarrow> tags w' = tags w \<Longrightarrow> catalog_refs_ok w' = catalog_refs_ok w"
  by (simp add: catalog_refs_ok_def)

lemma keeps_refs_invalidate [keeps_intro]: "keeps catalog_refs_ok (cache_invalidate up ks)"
  unfolding cache_invalidate_def
  by (intro keeps_intro keeps_upd) (auto cong: catalog_refs_ok_cong simp: catalog_refs_ok_def)

lemma keeps_refs_audit [keeps_intro]: "keeps catalog_refs_ok (audit_record now a b c d e)"
  unfolding audit_record_def by (rule keeps_upd) (simp add: catalog_refs_ok_def)

lemma image_drop: "v \<in> key ` S \<Longrightarrow> v \<noteq> i \<Longrightarrow> v \<in> key ` {r \<in> S. key r \<noteq> i}"
  by auto

lemma refs_drop_category:
  "catalog_refs_ok w \<Longrightarrow> count_rows (\<lambda>a. a_categoryId a = i) (assets w) = 0 \<Longrightarrow>
     catalog_refs_ok (categories_update (drop_rows (\<lambda>c. c_id c = i)) w)"
  by (simp add: catalog_refs_ok_def set_drop_rows count_rows_eq_0_iff image_drop)

lemma refs_drop_license:
  "catalog_refs_ok w \<Longrightarrow> count_rows (\<lambda>a. a_licenseId a = i) (assets w) = 0 \<Longrightarrow>
     catalog_refs_ok (licenses_update (drop_rows (\<lambda>l. l_id l = i)) w)"
  by (simp add: catalog_refs_ok_def set_drop_rows count_rows_eq_0_iff image_drop)

lemma refs_drop_tag:
  "catalog_refs_ok w \<Longrightarrow> tag_use_count w i = 0 \<Longrightarrow>
     catalog_refs_ok (w\<lparr>tags := drop_rows (\<lambda>t. t_id t = i) (tags w), tag_usage := us\<rparr>)"
  by (simp add: catalog_refs_ok_def set_drop_rows tag_use_count_def count_rows_eq_0_iff image_drop)

lemma keeps_guarded_delete:
  assumes "\<And>w. I w \<Longrightarrow> n w = 0 \<Longrightarrow> I (f w)" and "\<And>x. keeps I (m x)"
  shows "keeps I (bnd (gets n) (\<lambda>k. bnd (check (k = (0 :: nat)) e) (\<lambda>_. bnd (fetch g e') (\<lambda>x. bnd (upd f) (\<lambda>_. m x)))))"
  using assms by (auto simp: keeps_def bnd_gets bnd_check bnd_fetch bnd_upd split: option.splits)

text \<open>
  Deleting a category, a license or a tag never leaves an asset with a reference to it: a deletion
  that would is refused, whatever else it finds.
\<close>

theorem catalog_deletes_keep_references:
  "keeps catalog_refs_ok (remove_category up now i admin) \<and>
   keeps catalog_refs_ok (remove_license up now i admin) \<and>
   keeps catalog_refs_ok (remove_tag up now i admin)"
  unfolding remove_category_def remove_license_def remove_tag_def invalidate_categories_def
    invalidate_licenses_def invalidate_popular_def
  by (intro conjI keeps_guarded_delete refs_drop_category refs_drop_license refs_drop_tag)
    (assumption | intro keeps_intro)+

subsection \<open>Fresh listings after an admin change\<close>

inductive category_admin_op :: "world \<Rightarrow> world \<Rightarrow> bool" where
  op_create: "create_category_row True now i admin dto w = (Inr row, w') \<Longrightarrow> category_admin_op w w'"
| op_update: "update_category_row True now i admin udto ch w = (Inr row, w') \<Longrightarrow> category_admin_op w w'"
| op_remove: "remove_category True now i admin w = (Inr u, w') \<Longrightarrow> category_admin_op w w'"
| op_reorder: "reorder_categories True now ids admin w = (Inr u, w') \<Longrightarrow> category_admin_op w w'"

inductive_cases category_admin_opE: "category_admin_op w w'"

definition category_caches_dropped :: "world \<Rightarrow> bool" where
  "category_caches_dropped w \<longleftrightarrow>
     redis w (category_cache_key LEn) = None \<and> redis w (category_cache_key LId) = None"

lemma keeps_dropped_each_search: "keeps category_caches_dropped (each (\<lambda>a. enqueueSearchIndex (f a) r) as)"
  by (rule keeps_each) (simp add: enqueueSearchIndex_def keeps_def category_caches_dropped_def)

lemma invalidate_categories_drops:
  "invalidate_categories True w = (Inr u, w') \<Longrightarrow> category_caches_dropped w'"
  by (auto simp: invalidate_categories_def cache_invalidate_def category_caches_dropped_def redis_del_def)

lemma dropped_audit:
  "audit_record now a b c d e w = (r, w') \<Longrightarrow> category_caches_dropped w \<Longrightarrow> category_caches_dropped w'"
  by (auto simp: audit_record_def category_caches_dropped_def)

lemma category_admin_op_drops: "category_admin_op w w' \<Longrightarrow> category_caches_dropped w'"
proof (induction rule: category_admin_op.induct)
  case (op_create now i admin dto w row w')
  then show ?case
    by (auto simp: create_category_row_def bnd_eq_Inr_conv Let_def
        dest!: invalidate_categories_drops intro: dropped_audit)
next
  case (op_update now i admin udto ch w row w')
  then obtain w1 w2 v where "category_caches_dropped w1" "audit_record now (Some (u_id admin)) ''category.update'' ''Category'' i
                (Some (JObj [(''changes'', ch)])) w1 = (Inr (), w2)" "reindex_category_assets i w2 = (Inr v, w')"
    by (auto simp: update_category_row_def bnd_eq_Inr_conv Let_def dest!: invalidate_categories_drops)
  then show ?case
    using keeps_dropped_each_search [of a_id ASSET_UPDATE]
    by (auto simp: reindex_category_assets_def bnd_gets dest!: dropped_audit keepsD)
next
  case (op_remove now i admin w u w')
  then show ?case
    by (auto simp: remove_category_def bnd_eq_Inr_conv dest!: invalidate_categories_drops intro: dropped_audit)
next
  case (op_reorder now ids admin w u w')
  then show ?case
    by (auto simp: reorder_categories_def bnd_eq_Inr_conv dest!: invalidate_categories_drops intro: dropped_audit)
qed

text \<open>
  After any successful admin change of the categories, the public listing of either locale is the
  one of the changed database, however recently the old one was cached.
\<close>

theorem category_list_fresh_after_admin:
  assumes "category_admin_op w w'" and "category_list loc up t w' = (Inr v, w'')"
  shows "v = compute_category_list loc w'"
proof -
  have "redis_get t (category_cache_key loc) (redis w') = None"
    using category_admin_op_drops [OF assms(1)]
    by (cases loc) (auto simp: category_caches_dropped_def redis_get_def)
  then show ?thesis
    using assms(2) categories_en.read_expired categories_id.read_expired by (cases loc) blast+
qed

definition cat0 :: category_row where
  "cat0 = \<lparr>c_id = ''c'', c_slug = ''props'', c_name = JObj [(''en'', JStr ''Props'')], c_iconKey = None,
     c_sortOrder = 1, c_isActive = True\<rparr>"

lemma c_id_cat0: "c_id cat0 = ''c''"
  by (simp add: cat0_def)

theorem category_list_fresh_after_admin_witness:
  "fst (category_list LEn True 5 (snd (remove_category True 4 ''c'' root
       (snd (category_list LEn True 3 (empty_world\<lparr>categories := [cat0]\<rparr>)))))) = Inr (JArr [])"
proof -
  obtain v0 w where l: "category_list LEn True 3 (empty_world\<lparr>categories := [cat0]\<rparr>) = (Inr v0, w)"
    and w: "categories w = [cat0]" "assets w = []"
    by (simp add: category_list_def get_or_fetch_def redis_get_def Let_def)
  obtain w' where r: "remove_category True 4 ''c'' root w = (Inr (), w')" and c: "categories w' = []"
    by (simp add: remove_category_def act_simps w category_by_def invalidate_categories_def
        cache_invalidate_def audit_record_def c_id_cat0)
  obtain v w'' where v: "category_list LEn True 5 w' = (Inr v, w'')"
    using categories_en.read_total by blast
  from category_list_fresh_after_admin [OF op_remove [OF r] v] c
  show ?thesis by (simp add: l r v compute_category_list_def)
qed

subsection \<open>Merging tags\<close>

definition tagged :: "world \<Rightarrow> string \<Rightarrow> string set" where
  "tagged w a = {t. \<lparr>at_assetId = a, at_tagId = t\<rparr> \<in> set (asset_tags w)}"

lemma asset_tag_eta: "\<lparr>at_assetId = at_assetId x, at_tagId = at_tagId x\<rparr> = (x :: asset_tag_row)"
  by (cases x) simp

lemma tagged_merge_one:
  assumes "into \<noteq> src"
  shows "tagged (merge_one into src w) a =
           (if src \<in> tagged w a then insert into (tagged w a - {src}) else tagged w a)"
proof -
  have mem: "a \<in> at_assetId ` {x \<in> set (asset_tags w). at_tagId x = src} \<longleftrightarrow> src \<in> tagged w a"
    by (auto simp: tagged_def image_iff) (metis asset_tag_eta)
  then show ?thesis
    using assms by (auto simp: tagged_def merge_one_def Let_def set_drop_rows)
qed

lemma merge_one_tags: "tags (merge_one into src w) = drop_rows (\<lambda>t. t_id t = src) (tags w)"
  by (simp add: merge_one_def Let_def)

lemma tagged_merge_all:
  "into \<notin> set ss \<Longrightarrow>
     tagged (merge_all into ss w) a =
       (if tagged w a \<inter> set ss = {} then tagged w a else insert into (tagged w a - set ss))"
proof (induction ss arbitrary: w)
  case (Cons s ss)
  then show ?case by (auto simp: tagged_merge_one)
qed simp

lemma tags_merge_all: "t \<in> set (tags (merge_all into ss w)) \<longleftrightarrow> t \<in> set (tags w) \<and> t_id t \<notin> set ss"
  by (induction ss arbitrary: w) (auto simp: merge_one_tags set_drop_rows)

lemma each_submit: "each (\<lambda>a. enqueueSearchIndex a r) as w =
   (if queue_down w \<and> as \<noteq> [] then (Inl queue_failed, w)
    else (Inr (), jobs_update (\<lambda>js. js @ map (\<lambda>a. \<lparr>jb_id = Some (a @ ''__'' @ search_reason_name r), jb_payload = SearchIndexJob a r\<rparr>) as) w))"
proof (induction as arbitrary: w)
  case (Cons a as)
  then show ?case
    by (simp add: bnd_apply enqueueSearchIndex_def comp_def)
qed simp

lemma tagged_cong: "asset_tags w' = asset_tags w \<Longrightarrow> tagged w' a = tagged w a"
  by (simp add: tagged_def)

text \<open>
  Merging tags replaces, in the tags of every asset, the merged ones by the target, keeps every
  other tag and tags no asset that had none of them; the merged tags are gone and nothing else is.
\<close>

theorem merge_tags_replaces:
  assumes "merge_tag_rows up now admin dto w = (Inr u, w')"
  shows "(\<forall>a. tagged w' a = (if tagged w a \<inter> (set (mt_from dto) \<inter> t_id ` set (tags w)) = {} then tagged w a
                       else insert (mt_into dto) (tagged w a - (set (mt_from dto) \<inter> t_id ` set (tags w))))) \<and>
         set (tags w') = {t \<in> set (tags w). t_id t \<notin> set (mt_from dto)}"
proof -
  let ?ss = "map t_id (filter (\<lambda>t. t_id t \<in> set (mt_from dto)) (tags w))"
  have ss: "set ?ss = set (mt_from dto) \<inter> t_id ` set (tags w)" by auto
  from assms have into: "mt_into dto \<notin> set (mt_from dto)"
    and same: "asset_tags w' = asset_tags (merge_all (mt_into dto) ?ss w)"
      "tags w' = tags (merge_all (mt_into dto) ?ss w)"
    by (auto simp: merge_tag_rows_def act_simps each_submit invalidate_popular_def cache_invalidate_def
        audit_record_def split: if_splits option.splits)
  have "mt_into dto \<notin> set ?ss" using into by auto
  from tagged_merge_all [OF this, of w] have "tagged w' a = (if tagged w a \<inter> set ?ss = {} then tagged w a
      else insert (mt_into dto) (tagged w a - set ?ss))" for a
    using tagged_cong [OF same(1)] by simp
  moreover have "set (tags w') = {t \<in> set (tags w). t_id t \<notin> set (mt_from dto)}"
    using tags_merge_all [of _ "mt_into dto" ?ss w] by (auto simp: same(2))
  ultimately show ?thesis unfolding ss by blast
qed

definition tag_world :: world where
  "tag_world = empty_world\<lparr>tags := [\<lparr>t_id = ''x'', t_slug = ''x'', t_name = ''X'', t_createdAt = 0\<rparr>,
        \<lparr>t_id = ''y'', t_slug = ''y'', t_name = ''Y'', t_createdAt = 0\<rparr>],
     asset_tags := [\<lparr>at_assetId = ''a'', at_tagId = ''x''\<rparr>, \<lparr>at_assetId = ''b'', at_tagId = ''x''\<rparr>,
        \<lparr>at_assetId = ''b'', at_tagId = ''y''\<rparr>]\<rparr>"

lemma merge_all_queue: "queue_down (merge_all into ss w) = queue_down w"
  by (induction ss arbitrary: w) (simp_all add: merge_one_def Let_def)

lemma merge_tag_rows_succeeds:
  "mt_into dto \<notin> set (mt_from dto) \<Longrightarrow> tag_by (mt_into dto) w = Some target \<Longrightarrow>
     length (filter (\<lambda>t. t_id t \<in> set (mt_from dto)) (tags w)) = length (mt_from dto) \<Longrightarrow> \<not> queue_down w \<Longrightarrow>
     \<exists>w'. merge_tag_rows up now admin dto w = (Inr (), w')"
  by (simp add: merge_tag_rows_def bnd_check bnd_fetch bnd_gets bnd_upd bnd_apply each_submit merge_all_queue
      invalidate_popular_def cache_invalidate_def audit_record_def)

theorem merge_tags_replaces_witness:
  "tagged (snd (merge_tag_rows True 1 root \<lparr>mt_from = [''x''], mt_into = ''y''\<rparr> tag_world)) ''b'' = {''y''}"
proof -
  have "\<exists>w'. merge_tag_rows True 1 root \<lparr>mt_from = [''x''], mt_into = ''y''\<rparr> tag_world = (Inr (), w')"
    by (rule merge_tag_rows_succeeds) (simp_all add: tag_world_def tag_by_def)
  then obtain w' where m: "merge_tag_rows True 1 root \<lparr>mt_from = [''x''], mt_into = ''y''\<rparr> tag_world = (Inr (), w')"
    by blast
  have "asset_tags tag_world = [\<lparr>at_assetId = ''a'', at_tagId = ''x''\<rparr>, \<lparr>at_assetId = ''b'', at_tagId = ''x''\<rparr>,
        \<lparr>at_assetId = ''b'', at_tagId = ''y''\<rparr>]"
    by (simp add: tag_world_def)
  then have "\<And>t. t \<in> tagged tag_world ''b'' \<longleftrightarrow> t = ''x'' \<or> t = ''y''"
    by (simp add: tagged_def)
  then have tg: "tagged tag_world ''b'' = {''x'', ''y''}" by blast
  have ids: "set [''x''] \<inter> t_id ` set (tags tag_world) = {''x''}" by (simp add: tag_world_def)
  from merge_tags_replaces [OF m] have "tagged w' ''b'' = insert ''y'' (tagged tag_world ''b'' - {''x''})"
    by (simp only: ids tg merge_tags.simps) simp
  then show ?thesis by (simp add: m tg)
qed

end
