(* ===== verification/Assets.thy ===== *)
theory Assets
  imports Catalog TipTap
begin

section \<open>Assets: drafts, updates, the publish checklist and the status transitions\<close>

text \<open>
  \<open>src/modules/assets/assets.service.ts\<close>, \<open>publish-checklist.service.ts\<close> and
  \<open>assets-list.service.ts\<close>.  A handler takes the caller and the asset id; ids, times, random slug
  suffixes and the Unicode folding are parameters.  Where the database leaves the order of equal sort
  keys open, the later inserted row comes first.

  The locale \<open>owner_guarded\<close> is the contract of the handlers that only the owner or an admin may call:
  anybody else gets an error and changes nothing.  The presentation of an asset as a DTO with presigned
  links is left out; \<open>get_detail\<close> keeps who may see what.
\<close>

subsection \<open>Ownership\<close>

definition can_edit :: "asset_row \<Rightarrow> user_row \<Rightarrow> bool" where
  "can_edit a u \<longleftrightarrow> u_isAdmin u \<or> u_id u = a_ownerId a"

definition assert_can_edit :: "asset_row \<Rightarrow> user_row \<Rightarrow> unit handler" where
  "assert_can_edit a u = check (can_edit a u) (ForbiddenDomain AUTH_FORBIDDEN)"

text \<open>The first steps of every guarded handler: find the asset, check the caller, go on.\<close>

definition with_owned_asset :: "string \<Rightarrow> user_row \<Rightarrow> (asset_row \<Rightarrow> 'a handler) \<Rightarrow> 'a handler" where
  "with_owned_asset i u f =
     bnd (fetch (asset_by i) (NotFoundDomain ASSET_NOT_FOUND)) (\<lambda>a.
     bnd (assert_can_edit a u) (\<lambda>_. f a))"

locale owner_guarded =
  fixes op :: "string \<Rightarrow> user_row \<Rightarrow> 'a handler"
    and body :: "string \<Rightarrow> user_row \<Rightarrow> asset_row \<Rightarrow> 'a handler"
  assumes guarded: "op i u = with_owned_asset i u (body i u)"
begin

lemma missing: "asset_by i w = None \<Longrightarrow> op i u w = (Inl (NotFoundDomain ASSET_NOT_FOUND), w)"
  by (simp add: guarded with_owned_asset_def bnd_fetch)

lemma stranger:
  "asset_by i w = Some a \<Longrightarrow> \<not> can_edit a u \<Longrightarrow> op i u w = (Inl (ForbiddenDomain AUTH_FORBIDDEN), w)"
  by (simp add: guarded with_owned_asset_def bnd_fetch assert_can_edit_def bnd_check)

lemma owner: "asset_by i w = Some a \<Longrightarrow> can_edit a u \<Longrightarrow> op i u w = body i u a w"
  by (simp add: guarded with_owned_asset_def bnd_fetch assert_can_edit_def bnd_check)

lemma effect_authorised:
  "op i u w = (r, w') \<Longrightarrow> w' \<noteq> w \<or> (\<exists>x. r = Inr x) \<Longrightarrow> \<exists>a. asset_by i w = Some a \<and> can_edit a u"
  using missing [of i w u] stranger [of i w _ u] by (cases "asset_by i w") fastforce+

end

subsection \<open>Slugs\<close>

definition asset_by_slug :: "string \<Rightarrow> world \<Rightarrow> asset_row option" where
  "asset_by_slug s w = find_row a_slug s (assets w)"

text \<open>\<open>n\<close> attempts are left; \<open>sfx n\<close> is the random suffix of the attempt.\<close>

fun allocate_from :: "nat \<Rightarrow> (nat \<Rightarrow> string) \<Rightarrow> string \<Rightarrow> string handler" where
  "allocate_from 0 sfx slug = throw (Conflict ASSET_SLUG_TAKEN)"
| "allocate_from (Suc n) sfx slug =
     bnd (gets (asset_by_slug slug)) (\<lambda>taken.
     case taken of
       None \<Rightarrow> ret slug
     | Some _ \<Rightarrow> allocate_from n sfx (append_slug_suffix (sfx n) slug))"

definition allocate_slug ::
  "(string \<Rightarrow> nat list) \<Rightarrow> string \<Rightarrow> (nat \<Rightarrow> string) \<Rightarrow> string \<Rightarrow> string handler" where
  "allocate_slug nfkd rnd sfx title = allocate_from 5 sfx (slugify nfkd rnd title)"

lemma allocate_from_free:
  "allocate_from n sfx slug w = (Inr s, w') \<Longrightarrow> asset_by_slug s w = None \<and> w' = w"
  by (induction n arbitrary: slug) (auto simp: bnd_gets split: option.splits)

lemma allocate_from_state: "snd (allocate_from n sfx slug w) = w"
  by (induction n arbitrary: slug) (auto simp: bnd_gets split: option.splits)

lemma allocate_from_error: "allocate_from n sfx slug w = (Inl e, w') \<Longrightarrow> e = Conflict ASSET_SLUG_TAKEN"
  by (induction n arbitrary: slug) (auto simp: bnd_gets split: option.splits)

subsection \<open>Create\<close>

record translation_input =
  ti_locale :: locale_code
  ti_short :: string
  ti_long :: json

record create_asset =
  ca_title :: string
  ca_engine :: asset_engine
  ca_categoryId :: string
  ca_licenseId :: string
  ca_semver :: string
  ca_translations :: "translation_input list"
  ca_tags :: "string list option"
  ca_requiresEmpty :: "bool option"

text \<open>The fresh ids of one request: asset, version, translations and tags by position, and the slug's digits.\<close>

record fresh_ids =
  fr_asset :: string
  fr_version :: string
  fr_text :: "nat \<Rightarrow> string"
  fr_tag :: "nat \<Rightarrow> string"
  fr_slug :: string
  fr_suffix :: "nat \<Rightarrow> string"

fun map_sum :: "('a \<Rightarrow> 'e + 'b) \<Rightarrow> 'a list \<Rightarrow> 'e + 'b list" where
  "map_sum f [] = Inr []"
| "map_sum f (x # xs) = sum_bind (f x) (\<lambda>y. sum_bind (map_sum f xs) (\<lambda>ys. Inr (y # ys)))"

definition validated_text :: "translation_input \<Rightarrow> app_error + translation_input" where
  "validated_text t = sum_bind (validate_full_tiptap (ti_long t)) (\<lambda>d. Inr (t\<lparr>ti_long := d\<rparr>))"

definition version_prefix :: "string \<Rightarrow> string \<Rightarrow> string" where
  "version_prefix assetId semver = ''assets/'' @ assetId @ ''/v'' @ semver @ ''/''"

definition insert_text :: "int \<Rightarrow> string \<Rightarrow> string \<Rightarrow> translation_input \<Rightarrow> unit handler" where
  "insert_text now i assetId t =
     bnd (gets (\<lambda>w. some_row (\<lambda>r. tr_assetId r = assetId \<and> tr_locale r = ti_locale t) (asset_texts w))) (\<lambda>dup.
     bnd (check (\<not> dup) (OtherError (UniqueViolation ''asset_translations.assetId_locale''))) (\<lambda>_.
     upd (asset_texts_update (\<lambda>rs. rs @
       [\<lparr>tr_id = i, tr_assetId = assetId, tr_locale = ti_locale t, tr_short = ti_short t,
         tr_long = ti_long t, tr_createdAt = now\<rparr>]))))"

definition insert_asset_tag :: "string \<Rightarrow> string \<Rightarrow> unit handler" where
  "insert_asset_tag assetId tagId =
     bnd (gets (\<lambda>w. \<lparr>at_assetId = assetId, at_tagId = tagId\<rparr> \<in> set (asset_tags w))) (\<lambda>dup.
     bnd (check (\<not> dup) (OtherError (UniqueViolation ''asset_tags.pkey''))) (\<lambda>_.
     upd (asset_tags_update (\<lambda>rs. rs @ [\<lparr>at_assetId = assetId, at_tagId = tagId\<rparr>]))))"

definition create_asset_tx ::
  "int \<Rightarrow> fresh_ids \<Rightarrow> user_row \<Rightarrow> create_asset \<Rightarrow> string \<Rightarrow> translation_input list \<Rightarrow> string list \<Rightarrow> unit handler" where
  "create_asset_tx now fr owner dto slug texts tagIds =
     transact (
       bnd (gets (asset_by_slug slug)) (\<lambda>taken.
       bnd (check (taken = None) (OtherError (UniqueViolation ''assets.slug''))) (\<lambda>_.
       bnd (upd (assets_update (\<lambda>rs. rs @
              [\<lparr>a_id = fr_asset fr, a_slug = slug, a_title = ca_title dto, a_ownerId = u_id owner,
                a_categoryId = ca_categoryId dto, a_licenseId = ca_licenseId dto,
                a_engine = ca_engine dto, a_status = DRAFT, a_thumbnailKey = None,
                a_thumbnailVariants = None, a_thumbnailAuto = None, a_previewMedia = None,
                a_requiresEmptyProject = or_else (ca_requiresEmpty dto) False,
                a_createdAt = now, a_updatedAt = now, a_publishedAt = None, a_archivedAt = None\<rparr>]))) (\<lambda>_.
       bnd (each (\<lambda>(k, t). insert_text now (fr_text fr k) (fr_asset fr) t) (zip [0..<length texts] texts)) (\<lambda>_.
       bnd (upd (versions_update (\<lambda>rs. rs @
              [\<lparr>v_id = fr_version fr, v_assetId = fr_asset fr, v_semver = ca_semver dto,
                v_releaseNotes = JObj [], v_s3Prefix = ''assets/__pending__/v'' @ ca_semver dto @ ''/'',
                v_bytesTotal = 0, v_fileCount = 0, v_manifest = None, v_status = PENDING,
                v_isLatest = True, v_createdAt = now, v_publishedAt = None\<rparr>]))) (\<lambda>_.
       bnd (each (insert_asset_tag (fr_asset fr)) tagIds) (\<lambda>_.
       upd (versions_update (set_rows (\<lambda>v. v_assetId v = fr_asset fr)
              (v_s3Prefix_update (\<lambda>_. version_prefix (fr_asset fr) (ca_semver dto))))))))))))"

definition create_asset_row ::
  "(string \<Rightarrow> nat list) \<Rightarrow> bool \<Rightarrow> int \<Rightarrow> fresh_ids \<Rightarrow> create_asset \<Rightarrow> user_row \<Rightarrow> (string \<times> string) handler" where
  "create_asset_row nfkd up now fr dto owner =
     bnd (category_find_or_throw (ca_categoryId dto)) (\<lambda>_.
     bnd (license_find_or_throw (ca_licenseId dto)) (\<lambda>_.
     bnd (from_sum (map_sum validated_text (ca_translations dto))) (\<lambda>texts.
     bnd (allocate_slug nfkd (fr_slug fr) (fr_suffix fr) (ca_title dto)) (\<lambda>slug.
     bnd (case ca_tags dto of
            None \<Rightarrow> ret []
          | Some ts \<Rightarrow> if ts = [] then ret [] else upsert_tags now nfkd (fr_tag fr) ts) (\<lambda>tagRows.
     bnd (create_asset_tx now fr owner dto slug texts (map t_id tagRows)) (\<lambda>_.
     bnd (invalidate_categories up) (\<lambda>_.
     ret (fr_asset fr, slug))))))))"

subsection \<open>Semantic versions\<close>

definition digits :: "string \<Rightarrow> bool" where
  "digits s \<longleftrightarrow> s \<noteq> [] \<and> list_all is_digit s"

text \<open>\<open>SEMVER_REGEX\<close>, and the looser pattern of the update handler.\<close>

definition is_semver :: "string \<Rightarrow> bool" where
  "is_semver s = (case split_on CHR ''.'' s of [a, b, c] \<Rightarrow> digits a \<and> digits b \<and> digits c | _ \<Rightarrow> False)"

definition pre_char :: "char \<Rightarrow> bool" where
  "pre_char c = (let n = of_char c :: nat in
     48 \<le> n \<and> n \<le> 57 \<or> 65 \<le> n \<and> n \<le> 90 \<or> 97 \<le> n \<and> n \<le> 122 \<or> c = CHR ''.'' \<or> c = CHR ''-'')"

definition is_semver_pre :: "string \<Rightarrow> bool" where
  "is_semver_pre s =
     (let core = takeWhile (\<lambda>c. c \<noteq> CHR ''-'') s; rest = dropWhile (\<lambda>c. c \<noteq> CHR ''-'') s
      in is_semver core \<and> (rest = [] \<or> tl rest \<noteq> [] \<and> list_all pre_char (tl rest)))"

subsection \<open>Update\<close>

record preview_item =
  pm_id :: string
  pm_kind :: string
  pm_key :: string
  pm_displayKey :: "string option"
  pm_label :: string
  pm_mime :: "string option"
  pm_visibility :: "string option"
  pm_warning :: "string option"

record update_asset =
  ua_title :: "string option"
  ua_slug :: "string option"
  ua_engine :: "asset_engine option"
  ua_semver :: "string option"
  ua_categoryId :: "string option"
  ua_licenseId :: "string option"
  ua_requiresEmpty :: "bool option"
  ua_previewMedia :: "preview_item list option"
  ua_translations :: "translation_input list option"
  ua_tags :: "string list option"

definition null_or :: "string option \<Rightarrow> json" where
  "null_or v = (case v of None \<Rightarrow> JNull | Some s \<Rightarrow> JStr s)"

definition preview_json :: "preview_item \<Rightarrow> json" where
  "preview_json m =
     JObj [(''id'', JStr (pm_id m)), (''kind'', JStr (pm_kind m)), (''key'', JStr (pm_key m)),
           (''displayKey'', null_or (pm_displayKey m)), (''label'', JStr (pm_label m)),
           (''mime'', null_or (pm_mime m)), (''visibility'', JStr (or_else (pm_visibility m) ''visible'')),
           (''warning'', null_or (pm_warning m))]"

text \<open>The fields that \<open>data\<close> collects; \<open>None\<close> is a key that was not set.\<close>

record asset_patch =
  ap_title :: "string option"
  ap_slug :: "string option"
  ap_engine :: "asset_engine option"
  ap_categoryId :: "string option"
  ap_licenseId :: "string option"
  ap_requires :: "bool option"
  ap_preview :: "json option"

definition truthy_opt :: "string option \<Rightarrow> string option" where
  "truthy_opt v = (if truthy_str v then v else None)"

definition asset_patch_of :: "asset_row \<Rightarrow> update_asset \<Rightarrow> asset_patch" where
  "asset_patch_of a dto =
     \<lparr>ap_title = truthy_opt (ua_title dto),
      ap_slug = (if truthy_str (ua_slug dto) \<and> ua_slug dto \<noteq> Some (a_slug a) then ua_slug dto else None),
      ap_engine = (if ua_engine dto = Some (a_engine a) then None else ua_engine dto),
      ap_categoryId = truthy_opt (ua_categoryId dto),
      ap_licenseId = truthy_opt (ua_licenseId dto),
      ap_requires = ua_requiresEmpty dto,
      ap_preview = map_option (\<lambda>ms. JArr (map preview_json (take 24 ms))) (ua_previewMedia dto)\<rparr>"

definition empty_patch :: asset_patch where
  "empty_patch = \<lparr>ap_title = None, ap_slug = None, ap_engine = None, ap_categoryId = None,
     ap_licenseId = None, ap_requires = None, ap_preview = None\<rparr>"

definition apply_patch :: "int \<Rightarrow> asset_patch \<Rightarrow> asset_row \<Rightarrow> asset_row" where
  "apply_patch now d a =
     a\<lparr>a_title := or_else (ap_title d) (a_title a), a_slug := or_else (ap_slug d) (a_slug a),
       a_engine := or_else (ap_engine d) (a_engine a),
       a_categoryId := or_else (ap_categoryId d) (a_categoryId a),
       a_licenseId := or_else (ap_licenseId d) (a_licenseId a),
       a_requiresEmptyProject := or_else (ap_requires d) (a_requiresEmptyProject a),
       a_previewMedia := (case ap_preview d of None \<Rightarrow> a_previewMedia a | Some p \<Rightarrow> Some p),
       a_updatedAt := now\<rparr>"

definition check_patch :: "string \<Rightarrow> asset_row \<Rightarrow> update_asset \<Rightarrow> asset_patch \<Rightarrow> unit handler" where
  "check_patch i a dto d =
     bnd (check (ap_slug d = None \<or> a_status a \<noteq> PUBLISHED) (BadRequest ASSET_PUBLISH_BLOCKED)) (\<lambda>_.
     bnd (gets (\<lambda>w. case ap_slug d of None \<Rightarrow> None | Some s \<Rightarrow> asset_by_slug s w)) (\<lambda>collision.
     bnd (check (case collision of None \<Rightarrow> True | Some c \<Rightarrow> a_id c = i) (Conflict ASSET_SLUG_TAKEN)) (\<lambda>_.
     bnd (check (ap_engine d = None \<or> a_status a \<noteq> PUBLISHED) (BadRequest ASSET_PUBLISH_BLOCKED)) (\<lambda>_.
     bnd (case ap_categoryId d of None \<Rightarrow> ret () | Some c \<Rightarrow> bnd (category_find_or_throw c) (\<lambda>_. ret ())) (\<lambda>_.
     case ap_licenseId d of None \<Rightarrow> ret () | Some l \<Rightarrow> bnd (license_find_or_throw l) (\<lambda>_. ret ()))))))"

definition upsert_text :: "int \<Rightarrow> string \<Rightarrow> string \<Rightarrow> translation_input \<Rightarrow> unit handler" where
  "upsert_text now i assetId t =
     bnd (from_sum (validated_text t)) (\<lambda>v.
     bnd (gets (\<lambda>w. some_row (\<lambda>r. tr_assetId r = assetId \<and> tr_locale r = ti_locale t) (asset_texts w))) (\<lambda>found.
     if found then
       upd (asset_texts_update (set_rows (\<lambda>r. tr_assetId r = assetId \<and> tr_locale r = ti_locale t)
              (\<lambda>r. r\<lparr>tr_short := ti_short v, tr_long := ti_long v\<rparr>)))
     else insert_text now i assetId v))"

definition replace_tags ::
  "int \<Rightarrow> (string \<Rightarrow> nat list) \<Rightarrow> (nat \<Rightarrow> string) \<Rightarrow> string \<Rightarrow> string list \<Rightarrow> unit handler" where
  "replace_tags now nfkd ids assetId names =
     bnd (upsert_tags now nfkd ids names) (\<lambda>ts.
     bnd (upd (asset_tags_update (drop_rows (\<lambda>x. at_assetId x = assetId)))) (\<lambda>_.
     each (insert_asset_tag assetId) (map t_id ts)))"

text \<open>The latest version of the update handler: \<open>isLatest\<close> first, then the newest.\<close>

definition latest_by_flag :: "string \<Rightarrow> world \<Rightarrow> version_row option" where
  "latest_by_flag i w =
     (case order_desc (\<lambda>v. (v_isLatest v, v_createdAt v)) (filter (\<lambda>v. v_assetId v = i) (versions w)) of
        [] \<Rightarrow> None | v # _ \<Rightarrow> Some v)"

definition update_semver :: "string \<Rightarrow> string \<Rightarrow> unit handler" where
  "update_semver i s =
     bnd (gets (latest_by_flag i)) (\<lambda>latest.
     case latest of
       None \<Rightarrow> ret ()
     | Some v \<Rightarrow>
         if v_semver v = s then ret ()
         else
           bnd (check (v_publishedAt v = None) (BadRequest ASSET_PUBLISH_BLOCKED)) (\<lambda>_.
           bnd (check (is_semver_pre s) (BadRequest ASSET_PUBLISH_BLOCKED)) (\<lambda>_.
           bnd (gets (\<lambda>w. some_row (\<lambda>x. v_assetId x = i \<and> v_semver x = s \<and> v_id x \<noteq> v_id v) (versions w))) (\<lambda>dupe.
           bnd (check (\<not> dupe) (Conflict VERSION_DUPLICATE)) (\<lambda>_.
           upd (set_version (v_id v) (\<lambda>x. x\<lparr>v_semver := s, v_s3Prefix := version_prefix i s\<rparr>)))))))"

definition update_asset_tx ::
  "int \<Rightarrow> (string \<Rightarrow> nat list) \<Rightarrow> fresh_ids \<Rightarrow> string \<Rightarrow> update_asset \<Rightarrow> asset_patch \<Rightarrow> unit handler" where
  "update_asset_tx now nfkd fr i dto d =
     transact (
       bnd (case ua_translations dto of
              None \<Rightarrow> ret ()
            | Some ts \<Rightarrow> each (\<lambda>(k, t). upsert_text now (fr_text fr k) i t) (zip [0..<length ts] ts)) (\<lambda>_.
       bnd (case ua_tags dto of None \<Rightarrow> ret () | Some ns \<Rightarrow> replace_tags now nfkd (fr_tag fr) i ns) (\<lambda>_.
       bnd (case truthy_opt (ua_semver dto) of None \<Rightarrow> ret () | Some s \<Rightarrow> update_semver i s) (\<lambda>_.
       if d = empty_patch then ret () else upd (set_asset i (apply_patch now d))))))"

definition update_asset_body ::
  "(string \<Rightarrow> nat list) \<Rightarrow> bool \<Rightarrow> int \<Rightarrow> fresh_ids \<Rightarrow> update_asset \<Rightarrow> string \<Rightarrow> user_row \<Rightarrow> asset_row \<Rightarrow> unit handler" where
  "update_asset_body nfkd up now fr dto i u a =
     (let d = asset_patch_of a dto
      in bnd (check_patch i a dto d) (\<lambda>_.
         bnd (update_asset_tx now nfkd fr i dto d) (\<lambda>_.
         bnd (invalidate_categories up) (\<lambda>_.
         if a_status a = PUBLISHED then enqueueSearchIndex i ASSET_UPDATE else ret ()))))"

definition update_asset_row ::
  "(string \<Rightarrow> nat list) \<Rightarrow> bool \<Rightarrow> int \<Rightarrow> fresh_ids \<Rightarrow> update_asset \<Rightarrow> string \<Rightarrow> user_row \<Rightarrow> unit handler" where
  "update_asset_row nfkd up now fr dto i u = with_owned_asset i u (update_asset_body nfkd up now fr dto i u)"

subsection \<open>The publish checklist\<close>

definition latest_created :: "string \<Rightarrow> world \<Rightarrow> version_row option" where
  "latest_created i w =
     (case order_desc v_createdAt (filter (\<lambda>v. v_assetId v = i) (versions w)) of
        [] \<Rightarrow> None | v # _ \<Rightarrow> Some v)"

definition violation :: "string \<Rightarrow> string \<Rightarrow> problem_field" where
  "violation field code = \<lparr>pf_path = field, pf_code = code\<rparr>"

definition version_violations :: "asset_row \<Rightarrow> version_row \<Rightarrow> world \<Rightarrow> problem_field list" where
  "version_violations a v w =
     (if is_semver (v_semver v) then [] else [violation ''version.semver'' ''semver.invalid'']) @
     (if asset_files (v_id v) w = [] then [violation ''version.files'' ''version.empty''] else []) @
     (if v_status v = READY then [] else [violation ''version.analysis'' ''analysis.incomplete'']) @
     (if a_engine a \<noteq> ENGINE_AGNOSTIC \<and> count_rows (\<lambda>c. ec_versionId c = v_id v) (compats w) = 0
      then [violation ''version.compatibility'' ''compatibility.missing''] else [])"

definition evaluate_checklist :: "asset_row \<Rightarrow> world \<Rightarrow> problem_field list" where
  "evaluate_checklist a w =
     (if truthy_str (a_thumbnailKey a) then [] else [violation ''thumbnail'' ''thumbnail.missing'']) @
     (if a_licenseId a \<noteq> [] then [] else [violation ''license'' ''license.missing'']) @
     (if a_categoryId a \<noteq> [] then [] else [violation ''category'' ''category.missing'']) @
     (if count_rows (\<lambda>t. tr_assetId t = a_id a) (asset_texts w) = 0
      then [violation ''translations'' ''translations.empty''] else []) @
     (case latest_created (a_id a) w of
        None \<Rightarrow> [violation ''version'' ''version.missing'']
      | Some v \<Rightarrow> version_violations a v w)"

subsection \<open>Publish, archive, restore and delete\<close>

definition publish_body :: "bool \<Rightarrow> int \<Rightarrow> string \<Rightarrow> user_row \<Rightarrow> asset_row \<Rightarrow> problem_field list handler" where
  "publish_body up now i u a =
     bnd (gets (evaluate_checklist a)) (\<lambda>violations.
     bnd (check (violations = []) (BadRequestDomain ASSET_PUBLISH_BLOCKED (Some violations))) (\<lambda>_.
     bnd (gets (latest_created i)) (\<lambda>latest.
     bnd (upd (set_asset i (\<lambda>a. a\<lparr>a_status := PUBLISHED, a_publishedAt := Some now, a_updatedAt := now\<rparr>))) (\<lambda>_.
     bnd (case latest of
            None \<Rightarrow> ret ()
          | Some v \<Rightarrow>
              if v_publishedAt v = None then upd (set_version (v_id v) (v_publishedAt_update (\<lambda>_. Some now)))
              else ret ()) (\<lambda>_.
     bnd (invalidate_categories up) (\<lambda>_.
     bnd (enqueueSearchIndex i ASSET_PUBLISH) (\<lambda>_. ret [])))))))"

definition publish_asset :: "bool \<Rightarrow> int \<Rightarrow> string \<Rightarrow> user_row \<Rightarrow> problem_field list handler" where
  "publish_asset up now i u = with_owned_asset i u (publish_body up now i u)"

definition transition_body ::
  "bool \<Rightarrow> int \<Rightarrow> asset_status \<Rightarrow> search_reason \<Rightarrow> string \<Rightarrow> user_row \<Rightarrow> asset_row \<Rightarrow> unit handler" where
  "transition_body up now next reason i u a =
     bnd (upd (set_asset i (\<lambda>a. a\<lparr>a_status := next, a_archivedAt := Some now, a_updatedAt := now\<rparr>))) (\<lambda>_.
     bnd (invalidate_categories up) (\<lambda>_.
     enqueueSearchIndex i reason))"

definition transition_status ::
  "bool \<Rightarrow> int \<Rightarrow> asset_status \<Rightarrow> search_reason \<Rightarrow> string \<Rightarrow> user_row \<Rightarrow> unit handler" where
  "transition_status up now next reason i u =
     with_owned_asset i u (transition_body up now next reason i u)"

definition archive_asset :: "bool \<Rightarrow> int \<Rightarrow> string \<Rightarrow> user_row \<Rightarrow> unit handler" where
  "archive_asset up now i u = transition_status up now ARCHIVED ASSET_ARCHIVE i u"

definition soft_delete_asset :: "bool \<Rightarrow> int \<Rightarrow> string \<Rightarrow> user_row \<Rightarrow> unit handler" where
  "soft_delete_asset up now i u = transition_status up now DELETED ASSET_DELETE i u"

definition restore_body :: "bool \<Rightarrow> int \<Rightarrow> string \<Rightarrow> user_row \<Rightarrow> asset_row \<Rightarrow> unit handler" where
  "restore_body up now i u a =
     bnd (check (a_status a = ARCHIVED \<or> a_status a = DELETED) (BadRequest ASSET_ARCHIVE_BLOCKED)) (\<lambda>_.
     bnd (upd (set_asset i (\<lambda>x. x\<lparr>a_status := PUBLISHED, a_archivedAt := None,
            a_publishedAt := Some (or_else (a_publishedAt a) now), a_updatedAt := now\<rparr>))) (\<lambda>_.
     bnd (invalidate_categories up) (\<lambda>_.
     enqueueSearchIndex i ASSET_RESTORE)))"

definition restore_asset :: "bool \<Rightarrow> int \<Rightarrow> string \<Rightarrow> user_row \<Rightarrow> unit handler" where
  "restore_asset up now i u = with_owned_asset i u (restore_body up now i u)"

interpretation update_guard: owner_guarded "update_asset_row nfkd up now fr dto" "update_asset_body nfkd up now fr dto"
  by unfold_locales (simp add: update_asset_row_def)

interpretation publish_guard: owner_guarded "publish_asset up now" "publish_body up now"
  by unfold_locales (simp add: publish_asset_def)

interpretation archive_guard: owner_guarded "archive_asset up now" "transition_body up now ARCHIVED ASSET_ARCHIVE"
  by unfold_locales (simp add: archive_asset_def transition_status_def)

interpretation delete_guard: owner_guarded "soft_delete_asset up now" "transition_body up now DELETED ASSET_DELETE"
  by unfold_locales (simp add: soft_delete_asset_def transition_status_def)

interpretation restore_guard: owner_guarded "restore_asset up now" "restore_body up now"
  by unfold_locales (simp add: restore_asset_def)

subsection \<open>Reading\<close>

record asset_detail =
  de_asset :: asset_row
  de_isSaved :: bool
  de_canEdit :: bool
  de_canArchive :: bool
  de_translation :: "translation_row option"
  de_totalDownloads :: nat
  de_totalSaves :: nat

definition find_asset :: "string \<Rightarrow> world \<Rightarrow> asset_row option" where
  "find_asset key w = List.find (\<lambda>a. a_id a = key \<or> a_slug a = key) (assets w)"

definition owner_or_admin :: "user_row option \<Rightarrow> asset_row \<Rightarrow> bool" where
  "owner_or_admin requester a =
     (case requester of None \<Rightarrow> False | Some u \<Rightarrow> u_id u = a_ownerId a \<or> u_isAdmin u)"

definition get_detail :: "string \<Rightarrow> user_row option \<Rightarrow> locale_code \<Rightarrow> world \<Rightarrow> app_error + asset_detail" where
  "get_detail key requester loc w =
     (case find_asset key w of
        None \<Rightarrow> Inl (NotFoundDomain ASSET_NOT_FOUND)
      | Some a \<Rightarrow>
          if a_status a \<noteq> PUBLISHED \<and> \<not> owner_or_admin requester a
          then Inl (NotFoundDomain ASSET_NOT_FOUND)
          else Inr
            \<lparr>de_asset = a,
             de_isSaved = (case requester of
                 None \<Rightarrow> False
               | Some u \<Rightarrow> some_row (\<lambda>l. li_userId l = u_id u \<and> li_assetId l = a_id a) (library w)),
             de_canEdit = owner_or_admin requester a,
             de_canArchive = (owner_or_admin requester a \<and> a_status a = PUBLISHED),
             de_translation = pick_translation (filter (\<lambda>t. tr_assetId t = a_id a) (asset_texts w)) loc,
             de_totalDownloads = count_rows (\<lambda>d. d_assetId d = a_id a) (downloads w),
             de_totalSaves = count_rows (\<lambda>l. li_assetId l = a_id a) (library w)\<rparr>)"

record asset_filters =
  fl_engine :: "asset_engine option"
  fl_categoryIds :: "string list option"
  fl_tagSlugs :: "string list option"
  fl_fileKinds :: "file_kind list option"
  fl_licenseSlug :: "string option"
  fl_pipelines :: "string list option"
  fl_targets :: "string list option"
  fl_ownerId :: "string option"

definition given :: "'a list option \<Rightarrow> bool" where
  "given xs = (case xs of None \<Rightarrow> False | Some l \<Rightarrow> l \<noteq> [])"

definition has_some :: "'a list option \<Rightarrow> 'a list \<Rightarrow> bool" where
  "has_some wanted xs = (\<not> given wanted \<or> list_ex (\<lambda>x. x \<in> set (or_else wanted [])) xs)"

definition version_filter :: "asset_filters \<Rightarrow> world \<Rightarrow> version_row \<Rightarrow> bool" where
  "version_filter f w v \<longleftrightarrow>
     (given (fl_fileKinds f) \<longrightarrow> has_some (fl_fileKinds f) (map f_kind (asset_files (v_id v) w))) \<and>
     (given (fl_pipelines f) \<or> given (fl_targets f) \<longrightarrow>
        some_row (\<lambda>c. ec_versionId c = v_id v \<and> has_some (fl_pipelines f) (ec_pipelines c) \<and>
                      has_some (fl_targets f) (ec_targets c)) (compats w))"

definition build_where :: "asset_filters \<Rightarrow> asset_status list \<Rightarrow> world \<Rightarrow> asset_row \<Rightarrow> bool" where
  "build_where f statuses w a \<longleftrightarrow>
     a_status a \<in> set statuses \<and>
     (case fl_engine f of None \<Rightarrow> True | Some e \<Rightarrow> a_engine a = e) \<and>
     (given (fl_categoryIds f) \<longrightarrow> a_categoryId a \<in> set (or_else (fl_categoryIds f) [])) \<and>
     (truthy_str (fl_ownerId f) \<longrightarrow> fl_ownerId f = Some (a_ownerId a)) \<and>
     (truthy_str (fl_licenseSlug f) \<longrightarrow>
        (case license_by (a_licenseId a) w of None \<Rightarrow> False | Some l \<Rightarrow> fl_licenseSlug f = Some (l_slug l))) \<and>
     (given (fl_tagSlugs f) \<longrightarrow>
        some_row (\<lambda>x. at_assetId x = a_id a \<and>
          (case tag_by (at_tagId x) w of None \<Rightarrow> False | Some t \<Rightarrow> t_slug t \<in> set (or_else (fl_tagSlugs f) [])))
          (asset_tags w)) \<and>
     (given (fl_fileKinds f) \<or> given (fl_pipelines f) \<or> given (fl_targets f) \<longrightarrow>
        some_row (\<lambda>v. v_assetId v = a_id a \<and> version_filter f w v) (versions w))"

datatype asset_sort = Newest | MostDownloaded | RecentlyUpdated | Alphabetical | MostSaved

fun order_assets :: "asset_sort \<Rightarrow> world \<Rightarrow> asset_row list \<Rightarrow> asset_row list" where
  "order_assets Newest w as =
     order_desc (\<lambda>a. (case a_publishedAt a of None \<Rightarrow> (0 :: int, 0) | Some t \<Rightarrow> (1, t), a_createdAt a, a_id a)) as"
| "order_assets MostDownloaded w as =
     order_desc (\<lambda>a. (count_rows (\<lambda>d. d_assetId d = a_id a) (downloads w), a_id a)) as"
| "order_assets MostSaved w as =
     order_desc (\<lambda>a. (count_rows (\<lambda>l. li_assetId l = a_id a) (library w), a_id a)) as"
| "order_assets RecentlyUpdated w as = order_desc (\<lambda>a. (a_updatedAt a, a_id a)) as"
| "order_assets Alphabetical w as = sort_key a_title (order_desc a_id as)"

record list_assets_query =
  lq_filters :: asset_filters
  lq_sort :: "asset_sort option"
  lq_includeUnpublished :: bool

definition listed_statuses :: "list_assets_query \<Rightarrow> user_row option \<Rightarrow> asset_status list" where
  "listed_statuses q requester =
     (if lq_includeUnpublished q \<and> (case requester of None \<Rightarrow> False | Some u \<Rightarrow> u_isAdmin u)
      then [DRAFT, PUBLISHED, ARCHIVED]
      else if truthy_str (fl_ownerId (lq_filters q)) \<and>
              (case requester of None \<Rightarrow> False
               | Some u \<Rightarrow> fl_ownerId (lq_filters q) = Some (u_id u) \<or> u_isAdmin u)
      then [DRAFT, PUBLISHED, ARCHIVED]
      else [PUBLISHED])"

definition asset_listing :: "(list_assets_query \<times> user_row option) \<times> world \<Rightarrow> asset_row list" where
  "asset_listing =
     (\<lambda>((q, requester), w). order_assets (or_else (lq_sort q) Newest) w
        (filter (build_where (lq_filters q) (listed_statuses q requester) w) (assets w)))"

definition asset_cursor :: "asset_row \<Rightarrow> cursor" where
  "asset_cursor a = \<lparr>cur_createdAt = iso_string (a_createdAt a), cur_id = a_id a\<rparr>"

definition list_from_postgres ::
  "list_assets_query \<Rightarrow> user_row option \<Rightarrow> int option \<Rightarrow> string option \<Rightarrow> world \<Rightarrow> app_error + asset_row page" where
  "list_from_postgres q requester limit raw w =
     list_page a_id asset_cursor (resolve_page_size limit) raw (asset_listing ((q, requester), w))"

definition hydrate_assets :: "string list \<Rightarrow> world \<Rightarrow> asset_row list" where
  "hydrate_assets ids w =
     List.map_filter (\<lambda>i. find_row a_id i (filter (\<lambda>a. a_id a \<in> set ids \<and> a_status a = PUBLISHED) (assets w))) ids"

definition recommended :: "string \<Rightarrow> world \<Rightarrow> app_error + asset_row list" where
  "recommended i w =
     (case asset_by i w of
        None \<Rightarrow> Inl (NotFoundDomain ASSET_NOT_FOUND)
      | Some a \<Rightarrow>
          let tagIds = map at_tagId (filter (\<lambda>x. at_assetId x = i) (asset_tags w))
          in Inr (take 6 (order_desc
               (\<lambda>c. (count_rows (\<lambda>d. d_assetId d = a_id c) (downloads w),
                     case a_publishedAt c of None \<Rightarrow> (1 :: int, 0) | Some t \<Rightarrow> (0, t)))
               (filter (\<lambda>c. a_id c \<noteq> i \<and> a_status c = PUBLISHED \<and> a_engine c = a_engine a \<and>
                   (a_categoryId c = a_categoryId a \<or>
                    some_row (\<lambda>x. at_assetId x = a_id c \<and> at_tagId x \<in> set tagIds) (asset_tags w)))
                 (assets w)))))"

interpretation asset_pages: paged_listing a_id asset_cursor asset_listing
    "\<lambda>(_, w). distinct (map a_id (assets w))"
proof unfold_locales
  fix q :: "(list_assets_query \<times> user_row option) \<times> world"
  assume "case q of (_, w) \<Rightarrow> distinct (map a_id (assets w))"
  moreover have "distinct (map a_id (order_assets s w xs)) = distinct (map a_id xs)" for s w xs
    by (cases s) (simp_all add: distinct_map_sort_key)
  ultimately show "distinct (map a_id (asset_listing q))"
    by (auto simp: asset_listing_def distinct_map_filter_rows split: prod.splits)
qed (simp add: asset_cursor_def)

subsection \<open>The calls that change an asset\<close>

datatype asset_call = UpdateCall update_asset fresh_ids | PublishCall | ArchiveCall | DeleteCall | RestoreCall

fun run_asset_call ::
  "(string \<Rightarrow> nat list) \<Rightarrow> bool \<Rightarrow> int \<Rightarrow> asset_call \<Rightarrow> string \<Rightarrow> user_row \<Rightarrow> unit handler" where
  "run_asset_call nfkd up now (UpdateCall dto fr) i u = update_asset_row nfkd up now fr dto i u"
| "run_asset_call nfkd up now PublishCall i u = bnd (publish_asset up now i u) (\<lambda>_. ret ())"
| "run_asset_call nfkd up now ArchiveCall i u = archive_asset up now i u"
| "run_asset_call nfkd up now DeleteCall i u = soft_delete_asset up now i u"
| "run_asset_call nfkd up now RestoreCall i u = restore_asset up now i u"

lemma publish_call_guarded:
  "bnd (publish_asset up now i u) (\<lambda>_. ret ()) = with_owned_asset i u (\<lambda>a. bnd (publish_body up now i u a) (\<lambda>_. ret ()))"
  by (simp add: publish_asset_def with_owned_asset_def bnd_assoc)

fun asset_call_body ::
  "(string \<Rightarrow> nat list) \<Rightarrow> bool \<Rightarrow> int \<Rightarrow> asset_call \<Rightarrow> string \<Rightarrow> user_row \<Rightarrow> asset_row \<Rightarrow> unit handler" where
  "asset_call_body nfkd up now (UpdateCall dto fr) i u a = update_asset_body nfkd up now fr dto i u a"
| "asset_call_body nfkd up now PublishCall i u a = bnd (publish_body up now i u a) (\<lambda>_. ret ())"
| "asset_call_body nfkd up now ArchiveCall i u a = transition_body up now ARCHIVED ASSET_ARCHIVE i u a"
| "asset_call_body nfkd up now DeleteCall i u a = transition_body up now DELETED ASSET_DELETE i u a"
| "asset_call_body nfkd up now RestoreCall i u a = restore_body up now i u a"

interpretation call_guard: owner_guarded "run_asset_call nfkd up now c" "asset_call_body nfkd up now c"
  by unfold_locales
    (cases c; simp add: update_asset_row_def publish_call_guarded archive_asset_def soft_delete_asset_def
      transition_status_def restore_asset_def; intro arg_cong [of _ _ "with_owned_asset _ _"] ext; simp)

text \<open>Every step but the last update of the asset row leaves the assets table alone.\<close>

lemma inert_assets_simps:
  "inert assets (invalidate_categories up)" "inert assets (enqueueSearchIndex i r)"
  "inert assets (category_find_or_throw c)" "inert assets (license_find_or_throw l)"
  by (simp_all add: inert_def invalidate_categories_def cache_invalidate_def enqueueSearchIndex_def
      category_find_or_throw_def license_find_or_throw_def split: option.splits)

lemma keeps_assets_upsert_tag [keeps_intro]:
  "(\<And>w f. I w \<Longrightarrow> I (tags_update f w)) \<Longrightarrow> keeps I (upsert_tag now nfkd i name)"
  unfolding upsert_tag_def Let_def by (intro keeps_intro keeps_upd)

lemma keeps_upsert_each:
  "(\<And>w f. I w \<Longrightarrow> I (tags_update f w)) \<Longrightarrow> keeps I (upsert_each now nfkd xs)"
  by (induction xs rule: upsert_each.induct [of _ now nfkd]) (auto intro!: keeps_intro)

lemma keeps_update_parts:
  assumes "\<And>w f. I w \<Longrightarrow> I (tags_update f w)" "\<And>w f. I w \<Longrightarrow> I (asset_tags_update f w)"
    "\<And>w f. I w \<Longrightarrow> I (asset_texts_update f w)" "\<And>w k f. I w \<Longrightarrow> I (set_version k f w)"
  shows "keeps I (upsert_text now j i t)" "keeps I (replace_tags now nfkd ids i ns)" "keeps I (update_semver i s)"
  unfolding upsert_text_def insert_text_def replace_tags_def insert_asset_tag_def update_semver_def
    upsert_tags_def Let_def
  by (intro keeps_intro keeps_upd keeps_upsert_each; erule assms)+

lemma keeps_update_tx:
  assumes "\<And>w f. I w \<Longrightarrow> I (tags_update f w)" "\<And>w f. I w \<Longrightarrow> I (asset_tags_update f w)"
    "\<And>w f. I w \<Longrightarrow> I (asset_texts_update f w)" "\<And>w k f. I w \<Longrightarrow> I (set_version k f w)"
    "\<And>w. I w \<Longrightarrow> I (set_asset i (apply_patch now d) w)"
  shows "keeps I (update_asset_tx now nfkd fr i dto d)"
  unfolding update_asset_tx_def
  by (intro keeps_intro keeps_upd) (auto intro!: keeps_intro keeps_upd keeps_update_parts assms split: prod.splits)

lemma keeps_call_tail:
  assumes "\<And>w f. I w \<Longrightarrow> I (redis_update f w)" "\<And>w f. I w \<Longrightarrow> I (jobs_update f w)"
  shows "keeps I (invalidate_categories up)" "keeps I (enqueueSearchIndex i r)"
  unfolding invalidate_categories_def cache_invalidate_def enqueueSearchIndex_def
  by (intro keeps_intro keeps_upd keeps_submit, auto intro: assms)+

lemma check_patch_state: "snd (check_patch i a dto d w) = w"
  by (simp add: check_patch_def act_simps category_find_or_throw_def license_find_or_throw_def split: option.splits)

lemma keeps_check_patch [keeps_intro]: "keeps I (check_patch i a dto d)"
  by (simp add: keeps_def check_patch_state)

lemma keeps_call_body:
  assumes "\<And>w f. I w \<Longrightarrow> I (tags_update f w)" "\<And>w f. I w \<Longrightarrow> I (asset_tags_update f w)"
    "\<And>w f. I w \<Longrightarrow> I (asset_texts_update f w)" "\<And>w k f. I w \<Longrightarrow> I (set_version k f w)"
    "\<And>w f. I w \<Longrightarrow> I (redis_update f w)" "\<And>w f. I w \<Longrightarrow> I (jobs_update f w)"
    "\<And>w f. I w \<Longrightarrow> (\<And>x. a_id (f x) = a_id x) \<Longrightarrow> I (set_asset i f w)"
  shows "keeps I (asset_call_body nfkd up now c i u a)"
  by (cases c)
    (auto simp: update_asset_body_def publish_body_def transition_body_def restore_body_def Let_def apply_patch_def
      intro!: keeps_intro keeps_upd keeps_update_tx keeps_call_tail assms)
subsection \<open>Who may change an asset, and what\<close>

text \<open>
  C17: a call to update, publish, archive, delete or restore an asset has an effect, or succeeds, only
  for its owner or an admin, and never touches another asset.
\<close>

theorem asset_calls_authorised:
  assumes "run_asset_call nfkd up now c i u w = (r, w')" and "w' \<noteq> w \<or> r = Inr ()"
  shows "(\<exists>a. asset_by i w = Some a \<and> (u_isAdmin u \<or> u_id u = a_ownerId a)) \<and>
         (\<forall>j. j \<noteq> i \<longrightarrow> asset_by j w' = asset_by j w)"
proof -
  obtain a where a: "asset_by i w = Some a" "can_edit a u"
    using call_guard.effect_authorised [OF assms(1)] assms(2) by blast
  then have run: "asset_call_body nfkd up now c i u a w = (r, w')"
    using assms(1) call_guard.owner [OF a] by simp
  have "asset_by j w' = asset_by j w" if "j \<noteq> i" for j
  proof -
    have "keeps (\<lambda>x. asset_by j x = asset_by j w) (asset_call_body nfkd up now c i u a)"
      by (rule keeps_call_body) (use that in \<open>simp_all add: asset_by_set_asset, simp_all add: asset_by_def\<close>)
    from keepsD [OF this refl run] show ?thesis .
  qed
  with a show ?thesis by (auto simp: can_edit_def)
qed

definition asset0 :: asset_row where
  "asset0 = \<lparr>a_id = ''a'', a_slug = ''rocks'', a_title = ''Rocks'', a_ownerId = ''u'', a_categoryId = ''c'',
     a_licenseId = ''l'', a_engine = UNITY, a_status = DRAFT, a_thumbnailKey = Some ''thumb'',
     a_thumbnailVariants = None, a_thumbnailAuto = None, a_previewMedia = None, a_requiresEmptyProject = False,
     a_createdAt = 0, a_updatedAt = 0, a_publishedAt = None, a_archivedAt = None\<rparr>"

definition version0 :: version_row where
  "version0 = \<lparr>v_id = ''v'', v_assetId = ''a'', v_semver = ''1.0.0'', v_releaseNotes = JObj [],
     v_s3Prefix = ''assets/a/v1.0.0/'', v_bytesTotal = 0, v_fileCount = 1, v_manifest = None, v_status = READY,
     v_isLatest = True, v_createdAt = 0, v_publishedAt = None\<rparr>"

lemma sample_simps [simp]:
  "a_id asset0 = ''a''" "a_slug asset0 = ''rocks''" "a_ownerId asset0 = ''u''" "a_status asset0 = DRAFT"
  "a_publishedAt asset0 = None" "a_engine asset0 = UNITY" "a_thumbnailKey asset0 = Some ''thumb''"
  "a_licenseId asset0 = ''l''" "a_categoryId asset0 = ''c''" "a_createdAt asset0 = 0"
  "v_id version0 = ''v''" "v_assetId version0 = ''a''" "v_semver version0 = ''1.0.0''" "v_status version0 = READY"
  "v_publishedAt version0 = None" "v_createdAt version0 = 0" "v_isLatest version0 = True"
  "u_id alice = ''u''" "u_isAdmin alice = False" "u_id bob = ''b''" "u_isAdmin bob = True"
  by (simp_all add: asset0_def version0_def alice_def bob_def)

definition draft_world :: world where
  "draft_world = empty_world\<lparr>assets := [asset0], versions := [version0]\<rparr>"

lemma draft_world_simps [simp]:
  "assets draft_world = [asset0]" "versions draft_world = [version0]" "files draft_world = []"
  "asset_by ''a'' draft_world = Some asset0" "\<not> queue_down draft_world"
  by (simp_all add: draft_world_def asset_by_def)

theorem asset_calls_authorised_witness:
  "\<exists>a. asset_by ''a'' draft_world = Some a \<and> (u_isAdmin alice \<or> u_id alice = a_ownerId a)"
proof -
  obtain w' where "run_asset_call nfkd up now ArchiveCall ''a'' alice draft_world = (Inr (), w')"
    by (cases up) (simp_all add: call_guard.owner archive_asset_def transition_status_def with_owned_asset_def assert_can_edit_def can_edit_def
        transition_body_def act_simps invalidate_categories_def cache_invalidate_def enqueueSearchIndex_def set_asset_def)
  from asset_calls_authorised [OF this] show ?thesis by blast
qed

text \<open>
  The frame of an update: a published asset keeps its slug and engine, and an error keeps everything, unless it is the queue
  that fails after the transaction.
\<close>

lemma transact_then_tail:
  assumes "bnd (transact m) (\<lambda>_. t) w = (Inl e, w')" and "\<And>s e s'. t s = (Inl e, s') \<Longrightarrow> e = queue_failed \<and> queue_down s'"
  shows "w' = w \<or> (e = queue_failed \<and> queue_down w')"
  using assms(1) assms(2) by (auto simp: bnd_eq_Inl_conv dest: transact_all_or_nothing)

lemma invalidate_then_index_fails:
  "bnd (invalidate_categories up) (\<lambda>_. if b then enqueueSearchIndex i r else ret ()) s = (Inl e, s') \<Longrightarrow>
   e = queue_failed \<and> queue_down s'"
  by (auto simp: invalidate_categories_def cache_invalidate_def act_simps enqueueSearchIndex_def split: if_splits)

lemma update_body_failed:
  "update_asset_body nfkd up now fr dto i u a w = (Inl e, w') \<Longrightarrow> w' = w \<or> (e = queue_failed \<and> queue_down w')"
  unfolding update_asset_body_def Let_def
  by (auto simp: bnd_eq_Inl_conv [of "check_patch _ _ _ _"] update_asset_tx_def
      dest!: arg_cong [of "check_patch _ _ _ _ _" _ snd]
      dest!: transact_then_tail [OF _ invalidate_then_index_fails] simp: check_patch_state)

text \<open>
  An update that reports an error has changed nothing, unless the queue failed to take the job of the reindex, which comes
  after the transaction; and an update of a published asset never changes its slug, engine, owner or status.
\<close>

theorem update_atomic_and_locked:
  assumes "update_asset_row nfkd up now fr dto i u w = (r, w')" and "asset_by i w = Some a"
  shows "(\<forall>e. r = Inl e \<longrightarrow> w' = w \<or> (e = queue_failed \<and> queue_down w')) \<and>
         (\<exists>b. asset_by i w' = Some b \<and> a_ownerId b = a_ownerId a \<and> a_status b = a_status a \<and>
            (a_status a = PUBLISHED \<longrightarrow> a_slug b = a_slug a \<and> a_engine b = a_engine a))"
proof (cases "can_edit a u")
  case False
  then show ?thesis using update_guard.stranger [OF assms(2)] assms by simp
next
  case True
  then have run: "update_asset_body nfkd up now fr dto i u a w = (r, w')"
    using assms(1) update_guard.owner [OF assms(2)] by simp
  let ?d = "asset_patch_of a dto"
  let ?locked = "\<lambda>b. a_ownerId b = a_ownerId a \<and> a_status b = a_status a \<and>
            (a_status a = PUBLISHED \<longrightarrow> a_slug b = a_slug a \<and> a_engine b = a_engine a)"
  have failed: "r = Inl e \<Longrightarrow> w' = w \<or> (e = queue_failed \<and> queue_down w')" for e using run update_body_failed by blast
  show ?thesis
  proof (cases "fst (check_patch i a dto ?d w) = Inr ()")
    case False
    with run have "w' = snd (check_patch i a dto ?d w)"
      by (auto simp: update_asset_body_def Let_def bnd_apply split: sum.splits prod.splits)
    with assms(2) show ?thesis by (auto simp: check_patch_state)
  next
    case True
    then have locked: "a_status a = PUBLISHED \<Longrightarrow> ap_slug ?d = None \<and> ap_engine ?d = None"
      by (auto simp: check_patch_def act_simps split: if_splits)
    let ?I = "\<lambda>s. \<exists>b. asset_by i s = Some b \<and> ?locked b"
    have "keeps ?I (update_asset_body nfkd up now fr dto i u a)"
      unfolding update_asset_body_def Let_def
      by (intro keeps_intro keeps_update_tx keeps_call_tail)
        (auto simp: asset_by_set_asset apply_patch_def or_else_def locked, auto simp: asset_by_def)
    from keepsD [OF this _ run] assms(2) have "?I w'" by blast
    with failed show ?thesis by blast
  qed
qed

definition no_update :: update_asset where
  "no_update = \<lparr>ua_title = None, ua_slug = None, ua_engine = None, ua_semver = None, ua_categoryId = None,
     ua_licenseId = None, ua_requiresEmpty = None, ua_previewMedia = None, ua_translations = None, ua_tags = None\<rparr>"

definition no_ids :: fresh_ids where
  "no_ids = \<lparr>fr_asset = ''n'', fr_version = ''nv'', fr_text = (\<lambda>_. ''nt''), fr_tag = (\<lambda>_. ''ng''),
     fr_slug = ''0a'', fr_suffix = (\<lambda>_. ''0b'')\<rparr>"

definition public_world :: world where
  "public_world = empty_world\<lparr>assets := [asset0\<lparr>a_status := PUBLISHED\<rparr>], versions := [version0]\<rparr>"

theorem update_atomic_and_locked_witness:
  "\<exists>b. asset_by ''a'' (snd (update_asset_row (\<lambda>_. []) True 5 no_ids (no_update\<lparr>ua_slug := Some ''x''\<rparr>) ''a'' alice public_world))
         = Some b \<and> a_slug b = ''rocks''"
proof -
  obtain r w' where u: "update_asset_row (\<lambda>_. []) True 5 no_ids (no_update\<lparr>ua_slug := Some ''x''\<rparr>) ''a'' alice public_world = (r, w')"
    by fastforce
  have "asset_by ''a'' public_world = Some (asset0\<lparr>a_status := PUBLISHED\<rparr>)"
    by (simp add: public_world_def asset_by_def)
  from update_atomic_and_locked [OF u this] show ?thesis by (auto simp: u)
qed

subsection \<open>Publishing\<close>

lemma checklist_empty:
  assumes "evaluate_checklist a w = []"
  obtains v where "latest_created (a_id a) w = Some v" "truthy_str (a_thumbnailKey a)" "a_licenseId a \<noteq> []"
    "a_categoryId a \<noteq> []" "\<exists>t \<in> set (asset_texts w). tr_assetId t = a_id a" "is_semver (v_semver v)"
    "asset_files (v_id v) w \<noteq> []" "v_status v = READY"
    "a_engine a \<noteq> ENGINE_AGNOSTIC \<Longrightarrow> \<exists>c \<in> set (compats w). ec_versionId c = v_id v"
proof -
  obtain v where v: "latest_created (a_id a) w = Some v" and vv: "version_violations a v w = []"
    using assms by (auto simp: evaluate_checklist_def split: option.splits)
  have e: "a_engine a \<noteq> ENGINE_AGNOSTIC \<Longrightarrow> \<exists>c \<in> set (compats w). ec_versionId c = v_id v"
    using vv by (auto simp: version_violations_def row_simps split: if_splits)
  show ?thesis
    by (rule that [OF v _ _ _ _ _ _ _ e])
      (use assms vv in \<open>auto simp: evaluate_checklist_def version_violations_def count_rows_eq_0_iff split: if_splits\<close>)
qed

lemma last_sort_key_max:
  assumes "x \<in> set xs"
  shows "k x \<le> k (last (sort_key k xs))"
proof -
  have s: "sorted (map k (sort_key k xs))" by simp
  have ne: "sort_key k xs \<noteq> []" using assms by (metis empty_iff list.set(1) set_sort)
  have "x \<in> set (sort_key k xs)" using assms by simp
  then obtain n where n: "n < length (sort_key k xs)" "sort_key k xs ! n = x" by (metis in_set_conv_nth)
  have "map k (sort_key k xs) ! n \<le> map k (sort_key k xs) ! (length (sort_key k xs) - 1)"
    by (rule sorted_nth_mono [OF s]) (use n in auto)
  then show ?thesis using n ne by (simp add: last_conv_nth)
qed

lemma hd_order_desc_max:
  assumes "order_desc k xs = y # ys"
  shows "y \<in> set xs \<and> (\<forall>x \<in> set xs. k x \<le> k y)"
proof -
  have r: "sort_key k xs = rev ys @ [y]"
    using arg_cong [OF assms, of rev] by (simp add: order_desc_def)
  then have y: "y = last (sort_key k xs)" and ne: "sort_key k xs \<noteq> []"
    by simp_all
  have "y \<in> set (sort_key k xs)" unfolding y using ne by (rule last_in_set)
  then show ?thesis using last_sort_key_max [of _ xs k] y by simp
qed

lemma latest_createdD:
  "latest_created i w = Some v \<Longrightarrow>
     v \<in> set (versions w) \<and> v_assetId v = i \<and> (\<forall>x \<in> set (versions w). v_assetId x = i \<longrightarrow> v_createdAt x \<le> v_createdAt v)"
  by (auto simp: latest_created_def split: list.splits dest: hd_order_desc_max)

text \<open>
  C13: an asset is published only when it has a thumbnail, a license, a category, a translation and a
  newest version that is plain semver, analysed, non-empty and, unless the asset is engine agnostic, has a
  declared compatibility; then it is public, its newest version is dated and the index job is queued.
\<close>

theorem publish_complete:
  assumes "publish_asset up now i u w = (Inr r, w')" and "versions_ok w"
  shows "\<exists>a v. asset_by i w = Some a \<and> truthy_str (a_thumbnailKey a) \<and> a_licenseId a \<noteq> [] \<and> a_categoryId a \<noteq> [] \<and>
     (\<exists>t \<in> set (asset_texts w). tr_assetId t = i) \<and>
     v \<in> set (versions w) \<and> v_assetId v = i \<and>
     (\<forall>x \<in> set (versions w). v_assetId x = i \<longrightarrow> v_createdAt x \<le> v_createdAt v) \<and>
     is_semver (v_semver v) \<and> asset_files (v_id v) w \<noteq> [] \<and> v_status v = READY \<and>
     (a_engine a = ENGINE_AGNOSTIC \<or> (\<exists>c \<in> set (compats w). ec_versionId c = v_id v)) \<and>
     asset_by i w' = Some (a\<lparr>a_status := PUBLISHED, a_publishedAt := Some now, a_updatedAt := now\<rparr>) \<and>
     version_by (v_id v) w' = Some (v\<lparr>v_publishedAt := Some (or_else (v_publishedAt v) now)\<rparr>) \<and>
     jobs w' = jobs w @ [\<lparr>jb_id = Some (i @ ''__asset.publish''), jb_payload = SearchIndexJob i ASSET_PUBLISH\<rparr>]"
proof -
  obtain a where a: "asset_by i w = Some a" "can_edit a u"
    using publish_guard.effect_authorised [OF assms(1)] by blast
  then have ai: "a_id a = i" using asset_byD by blast
  have run: "publish_body up now i u a w = (Inr r, w')"
    using assms(1) publish_guard.owner [OF a] by simp
  then have viol: "evaluate_checklist a w = []"
    by (auto simp: publish_body_def act_simps split: if_splits)
  from viol obtain v where v: "latest_created i w = Some v" "truthy_str (a_thumbnailKey a)" "a_licenseId a \<noteq> []"
    "a_categoryId a \<noteq> []" "\<exists>t \<in> set (asset_texts w). tr_assetId t = i" "is_semver (v_semver v)"
    "asset_files (v_id v) w \<noteq> []" "v_status v = READY"
    "a_engine a \<noteq> ENGINE_AGNOSTIC \<Longrightarrow> \<exists>c \<in> set (compats w). ec_versionId c = v_id v"
    by (rule checklist_empty) (auto simp: ai)
  let ?f = "\<lambda>a. a\<lparr>a_status := PUBLISHED, a_publishedAt := Some now, a_updatedAt := now\<rparr>"
  let ?j = "\<lambda>js. js @ [\<lparr>jb_id = Some (i @ ''__asset.publish''), jb_payload = SearchIndexJob i ASSET_PUBLISH\<rparr>]"
  have same: "assets w' = assets (set_asset i ?f w)" and j: "jobs w' = ?j (jobs w)"
    and vs: "versions w' = (if v_publishedAt v = None
      then set_rows (\<lambda>x. v_id x = v_id v) (v_publishedAt_update (\<lambda>_. Some now)) (versions w) else versions w)"
    using run by (auto simp: publish_body_def act_simps viol v(1) invalidate_categories_def cache_invalidate_def
        enqueueSearchIndex_def split: if_splits)
  have "asset_by i w' = asset_by i (set_asset i ?f w)" using same by (simp add: asset_by_def)
  then have b: "asset_by i w' = Some (?f a)" by (simp add: asset_by_set_asset a)
  have vw: "version_by (v_id v) w = Some v"
    using latest_createdD [OF v(1)] assms(2) by (simp add: version_by_def versions_ok_def find_row_eq_Some_iff)
  have vw': "version_by (v_id v) w' = (if v_publishedAt v = None
      then map_option (v_publishedAt_update (\<lambda>_. Some now)) (version_by (v_id v) w) else version_by (v_id v) w)"
    using version_tab.look_update [of "v_publishedAt_update (\<lambda>_. Some now)" "v_id v" "v_id v" w]
    by (simp add: version_by_def vs)
  have d: "version_by (v_id v) w' = Some (v\<lparr>v_publishedAt := Some (or_else (v_publishedAt v) now)\<rparr>)"
    by (cases "v_publishedAt v") (simp_all add: vw' vw or_else_def)
  from latest_createdD [OF v(1)] show ?thesis
    using a(1) b d j v(2-9) by blast
qed

lemma publish_succeeds:
  "asset_by i w = Some a \<Longrightarrow> can_edit a u \<Longrightarrow> evaluate_checklist a w = [] \<Longrightarrow> \<not> queue_down w \<Longrightarrow>
     \<exists>w'. publish_asset up now i u w = (Inr [], w')"
  by (cases "latest_created i w")
    (simp_all add: publish_guard.owner publish_body_def act_simps invalidate_categories_def cache_invalidate_def
      enqueueSearchIndex_def)

definition ready_world :: world where
  "ready_world = draft_world\<lparr>
     asset_texts := [\<lparr>tr_id = ''t'', tr_assetId = ''a'', tr_locale = LEn, tr_short = ''s'', tr_long = JObj [], tr_createdAt = 0\<rparr>],
     files := [\<lparr>f_id = ''f'', f_versionId = ''v'', f_s3Key = ''assets/a/v1.0.0/f'', f_relPath = ''x.png'', f_bytes = 1,
       f_mime = ''image/png'', f_kind = SPRITE, f_sortOrder = 0, f_meta = None, f_createdAt = 0\<rparr>],
     compats := [\<lparr>ec_versionId = ''v'', ec_engineVersion = ''6'', ec_pipelines = [''URP''], ec_targets = [''PC'']\<rparr>]\<rparr>"

lemma ready_world_simps [simp]:
  "assets ready_world = [asset0]" "versions ready_world = [version0]"
  "asset_by ''a'' ready_world = Some asset0" "versions_ok ready_world" "\<not> queue_down ready_world"
  by (simp_all add: ready_world_def asset_by_def versions_ok_def)

lemma ready_world_checked: "evaluate_checklist asset0 ready_world = []"
proof -
  have l: "latest_created ''a'' ready_world = Some version0"
    by (simp add: latest_created_def order_desc_def)
  have s: "is_semver ''1.0.0''" by code_simp
  have "version_violations asset0 version0 ready_world = []"
    by (simp add: version_violations_def s asset_files_def) (simp add: ready_world_def)
  then show ?thesis by (simp add: evaluate_checklist_def l truthy_str_def) (simp add: ready_world_def)
qed

theorem publish_complete_witness:
  "\<exists>w'. publish_asset True 5 ''a'' alice ready_world = (Inr [], w') \<and>
     asset_by ''a'' w' = Some (asset0\<lparr>a_status := PUBLISHED, a_publishedAt := Some 5, a_updatedAt := 5\<rparr>)"
proof -
  have "can_edit asset0 alice" by (simp add: can_edit_def)
  then obtain w' where p: "publish_asset True 5 ''a'' alice ready_world = (Inr [], w')"
    using publish_succeeds [OF ready_world_simps(3) _ ready_world_checked ready_world_simps(5)] by blast
  from publish_complete [OF p ready_world_simps(4)] show ?thesis by (auto simp: p)
qed

subsection \<open>The states the operations reach\<close>

inductive assets_reached :: "world \<Rightarrow> bool" where
  reached_init: "assets w = [] \<Longrightarrow> assets_reached w"
| reached_create:
    "assets_reached w \<Longrightarrow> fr_asset fr \<notin> a_id ` set (assets w) \<Longrightarrow>
       create_asset_row nfkd up now fr dto u w = (r, w') \<Longrightarrow> assets_reached w'"
| reached_call: "assets_reached w \<Longrightarrow> run_asset_call nfkd up now c i u w = (r', w') \<Longrightarrow> assets_reached w'"

definition assets_inv :: "world \<Rightarrow> bool" where
  "assets_inv w \<longleftrightarrow> assets_ok w \<and> (\<forall>a \<in> set (assets w). a_status a = PUBLISHED \<longrightarrow> a_publishedAt a \<noteq> None)"

lemma assets_inv_cong: "assets w' = assets w \<Longrightarrow> assets_inv w' = assets_inv w"
  by (simp add: assets_inv_def assets_ok_def)

lemma assets_inv_frame [simp]:
  "assets_inv (tags_update f w) = assets_inv w" "assets_inv (asset_tags_update g w) = assets_inv w"
  "assets_inv (asset_texts_update h w) = assets_inv w" "assets_inv (versions_update k w) = assets_inv w"
  "assets_inv (redis_update l w) = assets_inv w" "assets_inv (jobs_update m w) = assets_inv w"
  by (auto intro!: assets_inv_cong)

lemma assets_inv_set_asset:
  assumes "assets_inv w" and "\<And>a. a_id (f a) = a_id a" "\<And>a. a_slug (f a) = a_slug a"
    and "\<And>a. a_status (f a) = PUBLISHED \<Longrightarrow> a_publishedAt (f a) \<noteq> None"
  shows "assets_inv (set_asset i f w)"
  using assms by (auto simp: assets_inv_def assets_ok_def map_set_rows set_set_rows)

lemma apply_patch_idem: "apply_patch now d (apply_patch now d a) = apply_patch now d a"
  by (simp add: apply_patch_def or_else_def split: option.splits)

lemma apply_patch_id [simp]: "a_id (apply_patch now d a) = a_id a"
  by (simp add: apply_patch_def)

lemma set_apply_patch_idem:
  "set_rows (\<lambda>a. a_id a = i) (apply_patch now d) (set_rows (\<lambda>a. a_id a = i) (apply_patch now d) rows) =
     set_rows (\<lambda>a. a_id a = i) (apply_patch now d) rows"
  by (simp add: set_rows_def apply_patch_idem)

lemma update_tx_assets:
  assumes "update_asset_tx now nfkd fr i dto d w = (r, w')"
  shows "assets w' = assets w \<or> assets w' = set_rows (\<lambda>a. a_id a = i) (apply_patch now d) (assets w)"
proof -
  have "keeps (\<lambda>s. assets s = assets w \<or> assets s = set_rows (\<lambda>a. a_id a = i) (apply_patch now d) (assets w))
          (update_asset_tx now nfkd fr i dto d)"
    by (rule keeps_update_tx) (auto simp: set_apply_patch_idem)
  from keepsD [OF this _ assms] show ?thesis by blast
qed

lemma asset_by_slugD: "asset_by_slug s w = None \<Longrightarrow> s \<notin> a_slug ` set (assets w)"
  by (simp add: asset_by_slug_def find_row_None_iff)

lemma asset_by_slug_unique:
  assumes "assets_ok w" and "asset_by_slug s w = Some c" and "r \<in> set (assets w)" and "a_slug r = s"
  shows "a_id r = a_id c"
  using assms by (auto simp: assets_ok_def asset_by_slug_def find_row_eq_Some_iff inj_on_eq_iff distinct_map)

lemma check_patch_slug:
  assumes "check_patch i a dto d w = (Inr (), w)" and "ap_slug d = Some s" and "assets_ok w"
    and "x \<in> set (assets w)" and "a_slug x = s"
  shows "a_id x = i"
proof (cases "asset_by_slug s w")
  case None
  with asset_by_slugD assms(4,5) show ?thesis by blast
next
  case (Some c)
  with assms(1,2) have "a_id c = i" by (simp add: check_patch_def act_simps split: if_splits)
  with asset_by_slug_unique [OF assms(3) Some assms(4,5)] show ?thesis by simp
qed

lemma assets_inv_update_body:
  assumes "assets_inv w" and "asset_by i w = Some a" and "update_asset_body nfkd up now fr dto i u a w = (r, w')"
  shows "assets_inv w'"
proof -
  let ?d = "asset_patch_of a dto"
  let ?f = "apply_patch now ?d"
  show ?thesis
  proof (cases "fst (check_patch i a dto ?d w) = Inr ()")
    case False
    then have "w' = w"
      using assms(3) check_patch_state [of i a dto ?d w]
      by (cases "check_patch i a dto ?d w") (auto simp: update_asset_body_def Let_def bnd_apply split: sum.splits)
    with assms(1) show ?thesis by simp
  next
    case True
    then have c: "check_patch i a dto ?d w = (Inr (), w)"
      using check_patch_state [of i a dto ?d w] by (metis prod.collapse)
    obtain r1 w1 where tx: "update_asset_tx now nfkd fr i dto ?d w = (r1, w1)" by fastforce
    have free: "a_id x = i" if "ap_slug ?d = Some s" "x \<in> set (assets w)" "a_slug x = s" for s x
      using check_patch_slug [OF c that(1) _ that(2,3)] assms(1) by (simp add: assets_inv_def)
    have "assets_inv w1"
    proof (cases "assets w1 = assets w")
      case True
      then show ?thesis using assms(1) assets_inv_cong by blast
    next
      case False
      with update_tx_assets [OF tx] have s: "assets w1 = set_rows (\<lambda>a. a_id a = i) ?f (assets w)" by blast
      have ids: "map a_id (assets w1) = map a_id (assets w)"
        unfolding s by (rule map_set_rows) (simp add: apply_patch_def)
      have "distinct (map a_slug (assets w1))"
      proof (cases "ap_slug ?d")
        case None
        then have "map a_slug (assets w1) = map a_slug (assets w)"
          unfolding s by (intro map_set_rows) (simp add: apply_patch_def or_else_def)
        with assms(1) show ?thesis by (simp add: assets_inv_def assets_ok_def)
      next
        case (Some sl)
        show ?thesis unfolding s
          by (rule distinct_set_key [of _ _ _ sl])
            (use assms(1) free Some in \<open>simp_all add: assets_inv_def assets_ok_def apply_patch_def or_else_def\<close>)
      qed
      with ids assms(1) show ?thesis
        by (auto simp: assets_inv_def assets_ok_def s set_set_rows apply_patch_def)
    qed
    moreover have "keeps assets_inv (bnd (invalidate_categories up)
        (\<lambda>_. if a_status a = PUBLISHED then enqueueSearchIndex i ASSET_UPDATE else ret ()))"
      by (intro keeps_intro keeps_call_tail) simp_all
    ultimately show ?thesis
      using assms(3) by (auto simp: update_asset_body_def Let_def c tx bnd_apply keeps_def split: sum.splits)
  qed
qed

lemma assets_inv_call:
  assumes "assets_inv w" and "run_asset_call nfkd up now c i u w = (r, w')"
  shows "assets_inv w'"
proof (cases "\<exists>a. asset_by i w = Some a \<and> can_edit a u")
  case False
  then show ?thesis using call_guard.effect_authorised [OF assms(2)] assms(1) by blast
next
  case True
  then obtain a where a: "asset_by i w = Some a" "can_edit a u" by blast
  then have run: "asset_call_body nfkd up now c i u a w = (r, w')"
    using assms(2) call_guard.owner [OF a] by simp
  show ?thesis
  proof (cases "\<exists>dto fr. c = UpdateCall dto fr")
    case True
    then show ?thesis using assets_inv_update_body [OF assms(1) a(1)] run by auto
  next
    case False
    then have "keeps assets_inv (asset_call_body nfkd up now c i u a)"
      by (cases c)
        (auto simp: publish_body_def transition_body_def restore_body_def set_version_def
          intro!: keeps_intro keeps_upd keeps_call_tail assets_inv_set_asset)
    from keepsD [OF this assms(1) run] show ?thesis .
  qed
qed

lemma keeps_each_pair: "(\<And>k t. keeps I (f k t)) \<Longrightarrow> keeps I (each (\<lambda>(k, t). f k t) xs)"
  by (intro keeps_intro) (auto split: prod.splits)

lemma assets_create_tx:
  assumes "assets_inv w" and "fr_asset fr \<notin> a_id ` set (assets w)"
    and "create_asset_tx now fr u dto slug texts tagIds w = (r, w')"
  shows "assets_inv w'"
proof (cases "asset_by_slug slug w")
  case (Some a)
  then have "w' = w"
    using assms(3) by (simp add: create_asset_tx_def transact_apply bnd_gets bnd_check)
  with assms(1) show ?thesis by simp
next
  case None
  let ?row = "\<lparr>a_id = fr_asset fr, a_slug = slug, a_title = ca_title dto, a_ownerId = u_id u,
                a_categoryId = ca_categoryId dto, a_licenseId = ca_licenseId dto,
                a_engine = ca_engine dto, a_status = DRAFT, a_thumbnailKey = None,
                a_thumbnailVariants = None, a_thumbnailAuto = None, a_previewMedia = None,
                a_requiresEmptyProject = or_else (ca_requiresEmpty dto) False,
                a_createdAt = now, a_updatedAt = now, a_publishedAt = None, a_archivedAt = None\<rparr>"
  have w1: "assets_inv (assets_update (\<lambda>rs. rs @ [?row]) w)"
    using assms(1,2) asset_by_slugD [OF None] by (auto simp: assets_inv_def assets_ok_def)
  have "keeps assets_inv
         (bnd (each (\<lambda>(k, t). insert_text now (fr_text fr k) (fr_asset fr) t) (zip [0..<length texts] texts)) (\<lambda>_.
          bnd (upd (versions_update f)) (\<lambda>_.
          bnd (each (insert_asset_tag (fr_asset fr)) tagIds) (\<lambda>_. upd (versions_update g)))))" for f g
    unfolding insert_text_def insert_asset_tag_def
    by (intro keeps_intro keeps_upd keeps_each_pair) (simp_all)
  from this [unfolded keeps_def, rule_format, OF w1] show ?thesis
    using assms(1,3) None
    by (auto simp: create_asset_tx_def transact_apply bnd_gets bnd_check bnd_upd split: prod.splits sum.splits)
      (metis snd_conv)
qed

lemma assets_inv_create:
  assumes "assets_inv w" and "fr_asset fr \<notin> a_id ` set (assets w)"
    and "create_asset_row nfkd up now fr dto u w = (r, w')"
  shows "assets_inv w'"
proof -
  let ?I = "\<lambda>s. assets_inv s \<and> fr_asset fr \<notin> a_id ` set (assets s)"
  let ?tags = "case ca_tags dto of None \<Rightarrow> ret []
          | Some ts \<Rightarrow> if ts = [] then ret [] else upsert_tags now nfkd (fr_tag fr) ts"
  have tags: "keeps ?I ?tags"
    unfolding upsert_tags_def Let_def by (intro keeps_intro keeps_upsert_each) simp
  have tx: "leads ?I assets_inv (create_asset_tx now fr u dto slug texts tagIds)" for slug texts tagIds
    unfolding leads_def by (metis assets_create_tx prod.collapse)
  have slug: "keeps ?I (allocate_slug nfkd a b t)" for a b t
    by (simp add: keeps_def allocate_slug_def allocate_from_state)
  have "leads ?I assets_inv (create_asset_row nfkd up now fr dto u)"
    unfolding create_asset_row_def
    by (intro leads_bnd tags slug leads_bnd_right [OF tx] keeps_intro keeps_call_tail)
      (auto intro: keeps_intro simp: category_find_or_throw_def license_find_or_throw_def)
  from leadsD [OF this _ assms(3)] assms(1,2) show ?thesis by blast
qed

text \<open>
  C16: whatever sequence of creations and of calls to update, publish, archive, delete and restore the API
  receives, ids and slugs stay unique and a public asset always has a publication date.
\<close>

theorem reached_assets_inv: "assets_reached w \<Longrightarrow> assets_inv w"
proof (induction rule: assets_reached.induct)
  case (reached_init w)
  then show ?case by (simp add: assets_inv_def assets_ok_def)
qed (blast intro: assets_inv_create assets_inv_call)+

definition shop_world :: world where
  "shop_world = empty_world\<lparr>categories := [cat0], licenses := [\<lparr>l_id = ''l'', l_slug = ''mit'', l_name = ''MIT'',
     l_description = JObj [], l_fullText = JObj [], l_isActive = True, l_sortOrder = 1\<rparr>]\<rparr>"

definition create0 :: create_asset where
  "create0 = \<lparr>ca_title = ''A'', ca_engine = UNITY, ca_categoryId = ''c'', ca_licenseId = ''l'', ca_semver = ''1.0.0'',
     ca_translations = [], ca_tags = None, ca_requiresEmpty = None\<rparr>"

lemma slugify_empty: "slugify (\<lambda>_. []) rnd t = rnd"
  by (simp add: slugify_def slug_codes_def trim_codes_def)

lemma create0_runs:
  "\<exists>r w. create_asset_row (\<lambda>_. []) True 5 no_ids create0 alice shop_world = (r, w) \<and> map a_slug (assets w) = [''0a'']"
  by (simp add: create_asset_row_def act_simps category_find_or_throw_def license_find_or_throw_def category_by_def
      license_by_def shop_world_def create0_def c_id_cat0 no_ids_def allocate_slug_def slugify_empty eval_nat_numeral
      asset_by_slug_def create_asset_tx_def or_else_def invalidate_categories_def cache_invalidate_def)

theorem reached_assets_inv_witness:
  "assets_inv (snd (run_asset_call (\<lambda>_. []) True 6 ArchiveCall ''n'' alice
     (snd (create_asset_row (\<lambda>_. []) True 5 no_ids create0 alice shop_world)))) \<and>
   map a_slug (assets (snd (create_asset_row (\<lambda>_. []) True 5 no_ids create0 alice shop_world))) = [''0a'']"
proof -
  obtain r w where c: "create_asset_row (\<lambda>_. []) True 5 no_ids create0 alice shop_world = (r, w)"
    and s: "map a_slug (assets w) = [''0a'']"
    using create0_runs by (elim exE conjE) (rule that)
  obtain r' w' where a: "run_asset_call (\<lambda>_. []) True 6 ArchiveCall ''n'' alice w = (r', w')" by fastforce
  have "assets_reached shop_world" by (rule reached_init) (simp add: shop_world_def)
  from reached_create [OF this _ c] have "assets_reached w" by (simp add: shop_world_def)
  from reached_assets_inv [OF reached_call [OF this a]] s show ?thesis unfolding c a snd_conv by blast
qed

subsection \<open>Restoring skips the checklist\<close>

lemma transition_body_run:
  assumes "transition_body up now next reason i u a w = (r, w')"
  shows "r = (if queue_down w then Inl queue_failed else Inr ()) \<and> versions w' = versions w \<and> queue_down w' = queue_down w \<and>
     assets w' = set_rows (\<lambda>a. a_id a = i) (\<lambda>a. a\<lparr>a_status := next, a_archivedAt := Some now, a_updatedAt := now\<rparr>) (assets w)"
  using assms by (auto simp: transition_body_def act_simps invalidate_categories_def cache_invalidate_def enqueueSearchIndex_def
      set_asset_def split: if_splits)

lemma restore_body_run:
  assumes "restore_body up now i u a w = (r, w')" and "a_status a = ARCHIVED \<or> a_status a = DELETED"
  shows "r = (if queue_down w then Inl queue_failed else Inr ()) \<and> versions w' = versions w \<and> assets w' =
     set_rows (\<lambda>a. a_id a = i) (\<lambda>x. x\<lparr>a_status := PUBLISHED, a_archivedAt := None,
        a_publishedAt := Some (or_else (a_publishedAt a) now), a_updatedAt := now\<rparr>) (assets w)"
  using assms by (auto simp: restore_body_def act_simps invalidate_categories_def cache_invalidate_def enqueueSearchIndex_def
      set_asset_def split: if_splits)

lemma asset_by_set_rows:
  "assets w' = set_rows (\<lambda>a. a_id a = i) f (assets w) \<Longrightarrow> (\<And>a. a_id (f a) = a_id a) \<Longrightarrow>
     asset_by i w' = map_option f (asset_by i w)"
  using asset_tab.look_update [of f i i w] by (simp add: asset_by_def)

text \<open>
  The owner of a draft publishes it without any of the checklist's conditions by archiving it and
  restoring it.
\<close>

theorem archive_restore_publishes_draft:
  assumes "asset_by i w = Some a" and "u_id u = a_ownerId a" and "a_status a = DRAFT"
    and "archive_asset up t i u w = (r, w1)" and "restore_asset up t' i u w1 = (r', w2)"
  shows "r' = (if queue_down w then Inl queue_failed else Inr ()) \<and> (\<exists>b. asset_by i w2 = Some b \<and> a_status b = PUBLISHED \<and> a_thumbnailKey b = a_thumbnailKey a) \<and>
         versions w2 = versions w"
proof -
  have c: "can_edit b u" if "a_ownerId b = a_ownerId a" for b using that by (simp add: can_edit_def assms(2))
  have b1: "transition_body up t ARCHIVED ASSET_ARCHIVE i u a w = (r, w1)"
    using assms(4) archive_guard.owner [OF assms(1) c [OF refl]] by simp
  note t = transition_body_run [OF b1]
  then have w1: "asset_by i w1 = Some (a\<lparr>a_status := ARCHIVED, a_archivedAt := Some t, a_updatedAt := t\<rparr>)"
    using asset_by_set_rows [of w1 i _ w] assms(1) by simp
  have "restore_body up t' i u (a\<lparr>a_status := ARCHIVED, a_archivedAt := Some t, a_updatedAt := t\<rparr>) w1 = (r', w2)"
    using assms(5) restore_guard.owner [OF w1 c] by simp
  note r = restore_body_run [OF this]
  then have "asset_by i w2 = map_option (\<lambda>x. x\<lparr>a_status := PUBLISHED, a_archivedAt := None,
      a_publishedAt := Some (or_else (a_publishedAt a) t'), a_updatedAt := t'\<rparr>) (asset_by i w1)"
    by (intro asset_by_set_rows) simp_all
  with w1 r t show ?thesis by simp
qed

theorem archive_restore_publishes_draft_witness:
  "\<exists>w1 w2 b. archive_asset True 5 ''a'' alice (draft_world\<lparr>assets := [asset0\<lparr>a_thumbnailKey := None\<rparr>]\<rparr>) = (Inr (), w1) \<and>
     restore_asset True 6 ''a'' alice w1 = (Inr (), w2) \<and>
     asset_by ''a'' w2 = Some b \<and> a_status b = PUBLISHED \<and> a_thumbnailKey b = None"
proof -
  let ?w = "draft_world\<lparr>assets := [asset0\<lparr>a_thumbnailKey := None\<rparr>]\<rparr>"
  have a: "asset_by ''a'' ?w = Some (asset0\<lparr>a_thumbnailKey := None\<rparr>)" by (simp add: asset_by_def)
  obtain r w1 r' w2 where w: "archive_asset True 5 ''a'' alice ?w = (r, w1)" "restore_asset True 6 ''a'' alice w1 = (r', w2)"
    by fastforce
  have "can_edit (asset0\<lparr>a_thumbnailKey := None\<rparr>) alice" by (simp add: can_edit_def)
  with w(1) have "r = Inr ()"
    using archive_guard.owner [OF a] transition_body_run [of True 5 ARCHIVED ASSET_ARCHIVE "''a''" alice "asset0\<lparr>a_thumbnailKey := None\<rparr>" ?w]
    by simp
  with archive_restore_publishes_draft [OF a _ _ w] w show ?thesis by simp
qed

subsection \<open>Who sees what\<close>

lemma order_assets_set [simp]: "set (order_assets s w xs) = set xs"
  by (cases s) simp_all

lemma listed_statuses_visible:
  assumes "a_status a \<in> set (listed_statuses q requester)"
    and "truthy_str (fl_ownerId (lq_filters q)) \<Longrightarrow> fl_ownerId (lq_filters q) = Some (a_ownerId a)"
  shows "a_status a \<noteq> DELETED \<and> (a_status a = PUBLISHED \<or> owner_or_admin requester a)"
proof (cases requester)
  case None
  then show ?thesis using assms(1) by (simp add: listed_statuses_def)
next
  case (Some u)
  show ?thesis
  proof (cases "listed_statuses q requester = [PUBLISHED]")
    case True
    with assms(1) show ?thesis by simp
  next
    case False
    then have "u_isAdmin u \<or> u_id u = a_ownerId a" and "listed_statuses q requester = [DRAFT, PUBLISHED, ARCHIVED]"
      using assms(2) by (auto simp: listed_statuses_def Some split: if_splits)
    with assms(1) show ?thesis by (auto simp: owner_or_admin_def Some)
  qed
qed

lemma asset_listing_visible:
  "a \<in> set (asset_listing ((q, requester), w)) \<Longrightarrow>
     a_status a \<noteq> DELETED \<and> (a_status a = PUBLISHED \<or> owner_or_admin requester a)"
  by (rule listed_statuses_visible [of a q requester]) (simp_all add: asset_listing_def build_where_def)

lemma hydrated_published:
  assumes "a \<in> set (hydrate_assets ids w)"
  shows "a_status a = PUBLISHED"
proof -
  obtain i where "find_row a_id i (filter (\<lambda>a. a_id a \<in> set ids \<and> a_status a = PUBLISHED) (assets w)) = Some a"
    using assms by (auto simp: hydrate_assets_def List.map_filter_def)
  then show ?thesis by (auto dest: find_row_SomeD)
qed

lemma detail_visible:
  "get_detail key requester loc w = Inr d \<Longrightarrow> a_status (de_asset d) = PUBLISHED \<or> owner_or_admin requester (de_asset d)"
  by (auto simp: get_detail_def split: option.splits if_splits)

lemma recommended_published:
  "recommended i w = Inr as \<Longrightarrow> a \<in> set as \<Longrightarrow> a_status a = PUBLISHED"
  by (auto simp: recommended_def Let_def dest!: in_set_takeD split: option.splits)

definition query0 :: list_assets_query where
  "query0 = \<lparr>lq_filters = \<lparr>fl_engine = None, fl_categoryIds = None, fl_tagSlugs = None, fl_fileKinds = None,
        fl_licenseSlug = None, fl_pipelines = None, fl_targets = None, fl_ownerId = Some ''u''\<rparr>,
        lq_sort = None, lq_includeUnpublished = True\<rparr>"

text \<open>
  Following the cursors of an asset list, with any filter, order and page size, visits every listed
  asset once.
\<close>

theorem asset_pages_complete:
  assumes "distinct (map a_id (assets w))"
  shows "walk_pages (Suc (length (asset_listing (q, w)))) a_id asset_cursor (resolve_page_size limit) None
           (asset_listing (q, w)) = Some (asset_listing (q, w))"
  by (rule asset_pages.walk_complete) (use assms resolve_page_size_bounds [of limit] in auto)

theorem asset_pages_complete_witness:
  "walk_pages (Suc (length (asset_listing ((query0, None), draft_world)))) a_id asset_cursor (resolve_page_size (Some 1)) None
     (asset_listing ((query0, None), draft_world)) = Some (asset_listing ((query0, None), draft_world))"
  by (rule asset_pages_complete) simp

end
