(* ===== verification/Versions.thy ===== *)
theory Versions
  imports Assets
begin

section \<open>Versions of an asset\<close>

text \<open>
  \<open>src/modules/versions/versions.service.ts\<close>: creation, release notes, publication of a version, the
  compatibility matrix, re-analysis and the public list.  The invariant is that an asset has at most one
  latest version, and that publishing a version makes it that one.

  \<open>version_guarded\<close> is the contract of the operations on a version: the same as \<open>owner_guarded\<close>,
  through the asset the version belongs to.
\<close>

subsection \<open>Access\<close>

definition with_owned_version :: "string \<Rightarrow> user_row \<Rightarrow> (version_row \<Rightarrow> 'a handler) \<Rightarrow> 'a handler" where
  "with_owned_version vid u f =
     bnd (fetch (version_by vid) (NotFoundDomain VERSION_NOT_FOUND)) (\<lambda>v.
     bnd (fetch (asset_by (v_assetId v)) (OtherError (RecordNotFound ''Asset''))) (\<lambda>a.
     bnd (assert_can_edit a u) (\<lambda>_. f v)))"

definition owns_version :: "user_row \<Rightarrow> version_row \<Rightarrow> world \<Rightarrow> bool" where
  "owns_version u v w = (case asset_by (v_assetId v) w of None \<Rightarrow> False | Some a \<Rightarrow> can_edit a u)"

lemma with_owned_version_run:
  "version_by vid w = Some v \<Longrightarrow> owns_version u v w \<Longrightarrow> with_owned_version vid u f w = f v w"
  by (simp add: with_owned_version_def owns_version_def act_simps assert_can_edit_def split: option.splits)

lemma with_owned_version_effect:
  assumes "with_owned_version vid u f w = (r, w')" and "w' \<noteq> w \<or> (\<exists>x. r = Inr x)"
  shows "\<exists>v. version_by vid w = Some v \<and> owns_version u v w \<and> f v w = (r, w')"
  using assms by (auto simp: with_owned_version_def owns_version_def act_simps assert_can_edit_def
      split: option.splits if_splits)

lemma keeps_with_owned_version [keeps_intro]:
  "(\<And>v. keeps I (f v)) \<Longrightarrow> keeps I (with_owned_version vid u f)"
  unfolding with_owned_version_def assert_can_edit_def by (intro keeps_intro)

locale version_guarded =
  fixes op :: "string \<Rightarrow> user_row \<Rightarrow> 'a handler"
    and body :: "version_row \<Rightarrow> 'a handler"
  assumes guarded: "op vid u = with_owned_version vid u body"
begin

lemma missing: "version_by vid w = None \<Longrightarrow> op vid u w = (Inl (NotFoundDomain VERSION_NOT_FOUND), w)"
  by (simp add: guarded with_owned_version_def bnd_fetch)

lemma allowed: "version_by vid w = Some v \<Longrightarrow> owns_version u v w \<Longrightarrow> op vid u w = body v w"
  by (simp add: guarded with_owned_version_run)

lemma effect_allowed:
  "op vid u w = (r, w') \<Longrightarrow> w' \<noteq> w \<or> (\<exists>x. r = Inr x) \<Longrightarrow>
     \<exists>v. version_by vid w = Some v \<and> owns_version u v w \<and> body v w = (r, w')"
  using with_owned_version_effect unfolding guarded by blast

lemma keeps_op: "(\<And>v. keeps I (body v)) \<Longrightarrow> keeps I (op vid u)"
  unfolding guarded by (intro keeps_intro)

end

subsection \<open>Release notes\<close>

definition release_note :: "json \<Rightarrow> string \<Rightarrow> app_error + (string \<times> json) list" where
  "release_note input l =
     (case get_prop input l of
        None \<Rightarrow> Inr []
      | Some doc \<Rightarrow> if truthy doc then sum_bind (validate_lite_tiptap doc) (\<lambda>d. Inr [(l, d)]) else Inr [])"

definition validate_release_notes :: "json \<Rightarrow> app_error + json" where
  "validate_release_notes input =
     sum_bind (release_note input ''en'') (\<lambda>en.
     sum_bind (release_note input ''id'') (\<lambda>id'. Inr (JObj (en @ id'))))"

subsection \<open>Operations\<close>

text \<open>The Redis counter of the files of a version that are still to be analysed.\<close>

definition remaining_key :: "string \<Rightarrow> string" where
  "remaining_key vid = ''analyze:version:'' @ vid @ '':remaining''"

fun analysis_status_name :: "analysis_status \<Rightarrow> string" where
  "analysis_status_name PENDING = ''PENDING''"
| "analysis_status_name ANALYZING = ''ANALYZING''"
| "analysis_status_name READY = ''READY''"
| "analysis_status_name FAILED = ''FAILED''"

definition reanalyze_body :: "bool \<Rightarrow> version_row \<Rightarrow> unit handler" where
  "reanalyze_body up v =
     bnd (gets (asset_files (v_id v))) (\<lambda>fs.
     if fs = [] then ret ()
     else
       bnd (upd (set_version (v_id v) (v_status_update (\<lambda>_. PENDING)))) (\<lambda>_.
       bnd (check up (OtherError (RemoteFailure ''redis''))) (\<lambda>_.
       bnd (upd (redis_update (\<lambda>m. m(remaining_key (v_id v) :=
              Some \<lparr>re_val = RInt (int (length fs)), re_expires = None\<rparr>)))) (\<lambda>_.
       each (\<lambda>f. enqueueAnalyzeFile (v_id v) (f_id f) None) fs))))"

definition reanalyze :: "bool \<Rightarrow> string \<Rightarrow> user_row \<Rightarrow> unit handler" where
  "reanalyze up vid u = with_owned_version vid u (reanalyze_body up)"

definition version_summary :: "version_row \<Rightarrow> (string \<times> json) list" where
  "version_summary v =
     [(''id'', JStr (v_id v)), (''semver'', JStr (v_semver v)), (''isLatest'', JBool (v_isLatest v)),
      (''analysisStatus'', JStr (analysis_status_name (v_status v)))] @
     (case v_publishedAt v of None \<Rightarrow> [] | Some t \<Rightarrow> [(''publishedAt'', JStr (iso_string t))]) @
     [(''bytesTotal'', JStr (show_int (v_bytesTotal v))), (''fileCount'', JNum (int (v_fileCount v))),
      (''createdAt'', JStr (iso_string (v_createdAt v)))]"

definition visible_versions :: "string \<Rightarrow> user_row option \<Rightarrow> asset_row \<Rightarrow> world \<Rightarrow> version_row list" where
  "visible_versions i requester a w =
     order_desc v_createdAt (filter (\<lambda>v. v_assetId v = i \<and>
       (owner_or_admin requester a \<or> v_publishedAt v \<noteq> None \<and> v_status v = READY)) (versions w))"

definition list_versions :: "string \<Rightarrow> user_row option \<Rightarrow> world \<Rightarrow> app_error + json" where
  "list_versions i requester w =
     (case asset_by i w of
        None \<Rightarrow> Inl (NotFoundDomain ASSET_NOT_FOUND)
      | Some a \<Rightarrow> Inr (JArr (map (\<lambda>v. JObj (version_summary v)) (visible_versions i requester a w))))"

record create_version =
  cv_semver :: string
  cv_notes :: "json option"

definition version_semver_taken :: "string \<Rightarrow> string \<Rightarrow> world \<Rightarrow> bool" where
  "version_semver_taken i s w = some_row (\<lambda>v. v_assetId v = i \<and> v_semver v = s) (versions w)"

definition create_version_body :: "int \<Rightarrow> string \<Rightarrow> create_version \<Rightarrow> string \<Rightarrow> user_row \<Rightarrow> asset_row \<Rightarrow> string handler" where
  "create_version_body now new dto i u a =
     bnd (gets (version_semver_taken i (cv_semver dto))) (\<lambda>duplicate.
     bnd (check (\<not> duplicate) (Conflict VERSION_DUPLICATE)) (\<lambda>_.
     bnd (from_sum (case cv_notes dto of None \<Rightarrow> Inr (JObj []) | Some n \<Rightarrow> validate_release_notes n)) (\<lambda>notes.
     bnd (upd (versions_update (\<lambda>vs. vs @
            [\<lparr>v_id = new, v_assetId = i, v_semver = cv_semver dto, v_releaseNotes = notes,
              v_s3Prefix = version_prefix i (cv_semver dto), v_bytesTotal = 0, v_fileCount = 0,
              v_manifest = None, v_status = PENDING, v_isLatest = False, v_createdAt = now,
              v_publishedAt = None\<rparr>]))) (\<lambda>_.
     ret new))))"

definition create_version_row :: "int \<Rightarrow> string \<Rightarrow> create_version \<Rightarrow> string \<Rightarrow> user_row \<Rightarrow> string handler" where
  "create_version_row now new dto i u = with_owned_asset i u (create_version_body now new dto i u)"

definition update_version_body :: "json option \<Rightarrow> version_row \<Rightarrow> unit handler" where
  "update_version_body notes v =
     (case notes of
        None \<Rightarrow> ret ()
      | Some n \<Rightarrow>
          bnd (from_sum (validate_release_notes n)) (\<lambda>d.
          upd (set_version (v_id v) (v_releaseNotes_update (\<lambda>_. d)))))"

definition update_version_row :: "json option \<Rightarrow> string \<Rightarrow> user_row \<Rightarrow> unit handler" where
  "update_version_row notes vid u = with_owned_version vid u (update_version_body notes)"

definition make_latest :: "int \<Rightarrow> version_row \<Rightarrow> world \<Rightarrow> world" where
  "make_latest now v w =
     set_version (v_id v) (\<lambda>x. x\<lparr>v_isLatest := True, v_publishedAt := Some now\<rparr>)
       (versions_update (set_rows (\<lambda>x. v_assetId x = v_assetId v \<and> v_isLatest x \<and> v_id x \<noteq> v_id v)
          (v_isLatest_update (\<lambda>_. False))) w)"

definition publish_version_body :: "int \<Rightarrow> version_row \<Rightarrow> unit handler" where
  "publish_version_body now v =
     bnd (gets (\<lambda>w. length (asset_files (v_id v) w))) (\<lambda>n.
     bnd (check (n \<noteq> 0) (BadRequest ASSET_PUBLISH_BLOCKED)) (\<lambda>_.
     bnd (upd (make_latest now v)) (\<lambda>_.
     enqueueSearchIndex (v_assetId v) ASSET_UPDATE)))"

definition publish_version :: "int \<Rightarrow> string \<Rightarrow> user_row \<Rightarrow> unit handler" where
  "publish_version now vid u = with_owned_version vid u (publish_version_body now)"

record compat_input =
  ci_engineVersion :: string
  ci_pipelines :: "string list option"
  ci_targets :: "string list"

definition compat_row_of :: "string \<Rightarrow> compat_input \<Rightarrow> compat_row" where
  "compat_row_of vid c = \<lparr>ec_versionId = vid, ec_engineVersion = ci_engineVersion c,
     ec_pipelines = or_else (ci_pipelines c) [], ec_targets = ci_targets c\<rparr>"

definition set_compatibility_body :: "compat_input list \<Rightarrow> version_row \<Rightarrow> unit handler" where
  "set_compatibility_body rows v =
     upd (compats_update (\<lambda>cs. drop_rows (\<lambda>c. ec_versionId c = v_id v) cs @ map (compat_row_of (v_id v)) rows))"

definition set_compatibility :: "compat_input list \<Rightarrow> string \<Rightarrow> user_row \<Rightarrow> unit handler" where
  "set_compatibility rows vid u = with_owned_version vid u (set_compatibility_body rows)"

interpretation reanalyze_guard: version_guarded "reanalyze up" "reanalyze_body up"
  by unfold_locales (simp add: reanalyze_def)

interpretation update_version_guard: version_guarded "update_version_row notes" "update_version_body notes"
  by unfold_locales (simp add: update_version_row_def)

interpretation publish_version_guard: version_guarded "publish_version now" "publish_version_body now"
  by unfold_locales (simp add: publish_version_def)

interpretation compatibility_guard: version_guarded "set_compatibility rows" "set_compatibility_body rows"
  by unfold_locales (simp add: set_compatibility_def)

interpretation create_version_guard: owner_guarded "create_version_row now new dto" "create_version_body now new dto"
  by unfold_locales (simp add: create_version_row_def)

subsection \<open>At most one latest version\<close>

lemma versions_ok_same:
  "versions_ok w \<Longrightarrow> x \<in> set (versions w) \<Longrightarrow> y \<in> set (versions w) \<Longrightarrow> v_id x = v_id y \<Longrightarrow> x = y"
  by (auto simp: versions_ok_def distinct_map inj_on_eq_iff)

definition one_latest :: "world \<Rightarrow> bool" where
  "one_latest w \<longleftrightarrow>
     (\<forall>v \<in> set (versions w). \<forall>v' \<in> set (versions w).
        v_assetId v = v_assetId v' \<longrightarrow> v_isLatest v \<longrightarrow> v_isLatest v' \<longrightarrow> v_id v = v_id v')"

lemma one_latestI:
  "(\<And>v v'. v \<in> set (versions w) \<Longrightarrow> v' \<in> set (versions w) \<Longrightarrow> v_assetId v = v_assetId v' \<Longrightarrow>
       v_isLatest v \<Longrightarrow> v_isLatest v' \<Longrightarrow> v_id v = v_id v') \<Longrightarrow> one_latest w"
  unfolding one_latest_def by blast

lemma one_latestD:
  "one_latest w \<Longrightarrow> v \<in> set (versions w) \<Longrightarrow> v' \<in> set (versions w) \<Longrightarrow> v_assetId v = v_assetId v' \<Longrightarrow>
     v_isLatest v \<Longrightarrow> v_isLatest v' \<Longrightarrow> v_id v = v_id v'"
  unfolding one_latest_def by blast

definition versions_inv :: "world \<Rightarrow> bool" where
  "versions_inv w \<longleftrightarrow> versions_ok w \<and> one_latest w"

lemma versions_inv_cong: "versions w' = versions w \<Longrightarrow> versions_inv w' = versions_inv w"
  by (simp add: versions_inv_def versions_ok_def one_latest_def)

lemma versions_inv_frame [simp]:
  "versions_inv (tags_update f1 w) = versions_inv w" "versions_inv (asset_tags_update f2 w) = versions_inv w"
  "versions_inv (asset_texts_update f3 w) = versions_inv w" "versions_inv (redis_update f4 w) = versions_inv w"
  "versions_inv (jobs_update f5 w) = versions_inv w" "versions_inv (compats_update f6 w) = versions_inv w"
  "versions_inv (set_asset i f7 w) = versions_inv w" "versions_inv (assets_update f8 w) = versions_inv w"
  by (rule versions_inv_cong, simp)+

lemma versions_inv_map:
  assumes "versions_inv w" and "\<And>v. v_id (f v) = v_id v" "\<And>v. v_assetId (f v) = v_assetId v"
    "\<And>v. v_semver (f v) = v_semver v" "\<And>v. v_isLatest (f v) = v_isLatest v"
  shows "versions_inv (versions_update (set_rows p f) w)"
proof -
  obtain h where h: "h = (\<lambda>r. if p r then f r else r)" by blast
  then have same: "v_id (h r) = v_id r" "v_assetId (h r) = v_assetId r" "v_semver (h r) = v_semver r"
    "v_isLatest (h r) = v_isLatest r" for r using assms(2-5) by simp_all
  have vs: "versions (versions_update (set_rows p f) w) = map h (versions w)" by (simp add: set_rows_def h)
  have one: "one_latest w" and ok: "versions_ok w" using assms(1) by (simp_all add: versions_inv_def)
  have "one_latest (versions_update (set_rows p f) w)"
  proof (rule one_latestI, unfold vs set_map)
    fix y y'
    assume "y \<in> h ` set (versions w)" "y' \<in> h ` set (versions w)" and eq: "v_assetId y = v_assetId y'"
      "v_isLatest y" "v_isLatest y'"
    then obtain x x' where x: "x \<in> set (versions w)" "x' \<in> set (versions w)" "y = h x" "y' = h x'" by blast
    then show "v_id y = v_id y'" using one_latestD [OF one x(1,2)] eq by (simp add: same)
  qed
  moreover have "versions_ok (versions_update (set_rows p f) w)"
    using ok unfolding versions_ok_def vs by (simp add: same comp_def)
  ultimately show ?thesis by (simp add: versions_inv_def)
qed

lemma versions_inv_set_version:
  assumes "versions_inv w" and "\<And>v. v_id (f v) = v_id v" "\<And>v. v_assetId (f v) = v_assetId v"
    "\<And>v. v_semver (f v) = v_semver v" "\<And>v. v_isLatest (f v) = v_isLatest v"
  shows "versions_inv (set_version i f w)"
  unfolding set_version_def by (rule versions_inv_map) (use assms in simp_all)

lemma make_latest_versions:
  "versions (make_latest now v w) = map (\<lambda>x.
     if v_id x = v_id v then x\<lparr>v_isLatest := True, v_publishedAt := Some now\<rparr>
     else if v_assetId x = v_assetId v then x\<lparr>v_isLatest := False\<rparr> else x) (versions w)"
  by (auto simp: make_latest_def set_rows_def intro!: version_row.equality)

lemma make_latest_mem:
  assumes "y \<in> set (versions (make_latest now v w))" and "v_isLatest y"
    and "\<And>x. x \<in> set (versions w) \<Longrightarrow> v_id x = v_id v \<Longrightarrow> v_assetId x = v_assetId v"
  shows "v_id y = v_id v \<and> v_assetId y = v_assetId v \<or>
         v_assetId y \<noteq> v_assetId v \<and> y \<in> set (versions w)"
proof -
  from assms(1) obtain x where x: "x \<in> set (versions w)" "y =
     (if v_id x = v_id v then x\<lparr>v_isLatest := True, v_publishedAt := Some now\<rparr>
      else if v_assetId x = v_assetId v then x\<lparr>v_isLatest := False\<rparr> else x)"
    unfolding make_latest_versions by (auto simp del: if_split)
  show ?thesis
    using x assms(2,3) by (cases "v_id x = v_id v"; cases "v_assetId x = v_assetId v") simp_all
qed

lemma versions_inv_make_latest:
  assumes "versions_inv w" and "version_by vid w = Some v"
  shows "versions_inv (make_latest now v w)"
proof -
  have own: "v_assetId x = v_assetId v" if "x \<in> set (versions w)" "v_id x = v_id v" for x
    using version_byD [OF assms(2)] that assms(1)
    by (auto simp: versions_inv_def versions_ok_def distinct_map inj_on_eq_iff)
  have "map v_id (versions (make_latest now v w)) = map v_id (versions w)"
    "map (\<lambda>x. (v_assetId x, v_semver x)) (versions (make_latest now v w)) =
       map (\<lambda>x. (v_assetId x, v_semver x)) (versions w)"
    by (auto simp: make_latest_versions)
  then have "versions_ok (make_latest now v w)"
    using assms(1) by (simp add: versions_inv_def versions_ok_def)
  moreover have "one_latest (make_latest now v w)"
  proof (rule one_latestI)
    fix y y'
    assume mem: "y \<in> set (versions (make_latest now v w))" "y' \<in> set (versions (make_latest now v w))"
      and same: "v_assetId y = v_assetId y'" and latest: "v_isLatest y" "v_isLatest y'"
    have one: "one_latest w" using assms(1) by (simp add: versions_inv_def)
    from make_latest_mem [OF mem(1) latest(1) own] make_latest_mem [OF mem(2) latest(2) own]
    consider "v_id y = v_id v" "v_id y' = v_id v" | "y \<in> set (versions w)" "y' \<in> set (versions w)"
      using same by auto
    then show "v_id y = v_id y'"
      using one_latestD [OF one _ _ same latest] by cases simp_all
  qed
  ultimately show ?thesis by (simp add: versions_inv_def)
qed

lemma versions_inv_insert:
  assumes "versions_inv w" and "v_id v \<notin> v_id ` set (versions w)"
    and "(v_assetId v, v_semver v) \<notin> (\<lambda>v. (v_assetId v, v_semver v)) ` set (versions w)"
    and "v_isLatest v \<Longrightarrow> v_assetId v \<notin> v_assetId ` set (versions w)"
  shows "versions_inv (versions_update (\<lambda>vs. vs @ [v]) w)"
proof -
  have "one_latest (versions_update (\<lambda>vs. vs @ [v]) w)"
  proof (rule one_latestI)
    fix y y'
    assume mem: "y \<in> set (versions (versions_update (\<lambda>vs. vs @ [v]) w))"
        "y' \<in> set (versions (versions_update (\<lambda>vs. vs @ [v]) w))"
      and eq: "v_assetId y = v_assetId y'" and latest: "v_isLatest y" "v_isLatest y'"
    have one: "one_latest w" using assms(1) by (simp add: versions_inv_def)
    have new: "x \<in> set (versions w) \<Longrightarrow> v_isLatest v \<Longrightarrow> v_assetId x \<noteq> v_assetId v" for x
      using assms(4) by (metis image_eqI)
    consider "y = v" "y' = v" | "y = v" "y' \<in> set (versions w)" | "y \<in> set (versions w)" "y' = v"
      | "y \<in> set (versions w)" "y' \<in> set (versions w)" using mem by auto
    then show "v_id y = v_id y'"
    proof cases
      case 1 then show ?thesis by simp
    next
      case 2 with new [of y'] eq latest show ?thesis by simp
    next
      case 3 with new [of y] eq latest show ?thesis by simp
    next
      case 4 from one_latestD [OF one this eq latest] show ?thesis .
    qed
  qed
  then show ?thesis using assms(1-3) by (simp add: versions_inv_def versions_ok_def)
qed

lemma keeps_inv_version_op:
  "keeps versions_inv (reanalyze up vid u)" "keeps versions_inv (update_version_row notes vid u)"
  "keeps versions_inv (set_compatibility rows vid u)"
  unfolding reanalyze_def update_version_row_def set_compatibility_def reanalyze_body_def update_version_body_def
    set_compatibility_body_def enqueue_defs
  by (intro keeps_intro keeps_upd keeps_submit; simp add: versions_inv_set_version)+

lemma inv_publish_version:
  assumes "versions_inv w" and "publish_version now vid u w = (r, w')"
  shows "versions_inv w'"
proof (cases "w' = w")
  case True
  with assms(1) show ?thesis by simp
next
  case False
  then obtain v where v: "version_by vid w = Some v" and b: "publish_version_body now v w = (r, w')"
    using publish_version_guard.effect_allowed [OF assms(2)] by blast
  from b False versions_inv_make_latest [OF assms(1) v, of now] show ?thesis
    by (auto simp: publish_version_body_def act_simps enqueueSearchIndex_def split: if_splits)
qed

lemma inv_create_version:
  assumes "versions_inv w" and "new \<notin> v_id ` set (versions w)" and "create_version_row now new dto i u w = (r, w')"
  shows "versions_inv w'"
proof (cases "w' = w")
  case True
  with assms(1) show ?thesis by simp
next
  case False
  then obtain a where "create_version_body now new dto i u a w = (r, w')"
    using create_version_guard.effect_authorised [OF assms(3)] create_version_guard.owner assms(3) by metis
  with False obtain d where "\<not> version_semver_taken i (cv_semver dto) w"
    and w': "w' = versions_update (\<lambda>vs. vs @ [\<lparr>v_id = new, v_assetId = i, v_semver = cv_semver dto, v_releaseNotes = d,
              v_s3Prefix = version_prefix i (cv_semver dto), v_bytesTotal = 0, v_fileCount = 0,
              v_manifest = None, v_status = PENDING, v_isLatest = False, v_createdAt = now, v_publishedAt = None\<rparr>]) w"
    by (auto simp: create_version_body_def bnd_apply split: if_splits sum.splits)
  then show ?thesis
    using assms(1,2) by (auto simp: version_semver_taken_def some_row_iff image_iff intro!: versions_inv_insert)
qed


lemma inv_update_semver:
  assumes "versions_inv w" and "update_semver i s w = (r, w')"
  shows "versions_inv w'"
proof (cases "\<exists>v. latest_by_flag i w = Some v \<and> v_semver v \<noteq> s \<and>
    \<not> some_row (\<lambda>x. v_assetId x = i \<and> v_semver x = s \<and> v_id x \<noteq> v_id v) (versions w) \<and>
    w' = set_version (v_id v) (\<lambda>x. x\<lparr>v_semver := s, v_s3Prefix := version_prefix i s\<rparr>) w")
  case False
  with assms(2) have "w' = w"
    by (auto simp: update_semver_def act_simps split: option.splits if_splits)
  with assms(1) show ?thesis by simp
next
  case True
  then obtain v where v: "latest_by_flag i w = Some v"
    and free: "\<And>x. x \<in> set (versions w) \<Longrightarrow> v_assetId x = i \<Longrightarrow> v_semver x = s \<Longrightarrow> v_id x = v_id v"
    and w': "w' = set_version (v_id v) (\<lambda>x. x\<lparr>v_semver := s, v_s3Prefix := version_prefix i s\<rparr>) w"
    by (auto simp: some_row_iff)
  let ?f = "\<lambda>x :: version_row. x\<lparr>v_semver := s, v_s3Prefix := version_prefix i s\<rparr>"
  have vm: "v \<in> set (versions w)" "v_assetId v = i"
    using v by (auto simp: latest_by_flag_def split: list.splits dest: hd_order_desc_max)
  have ok: "distinct (map v_id (versions w))" and one: "one_latest w"
    using assms(1) by (simp_all add: versions_inv_def versions_ok_def)
  then have own: "x \<in> set (versions w) \<Longrightarrow> v_id x = v_id v \<Longrightarrow> x = v" for x
    using vm by (auto simp: distinct_map inj_on_eq_iff)
  have "distinct (map (\<lambda>v. (v_assetId v, v_semver v)) (set_rows (\<lambda>x. v_id x = v_id v) ?f (versions w)))"
    by (rule distinct_set_key [of _ _ _ "(i, s)"])
      (use assms(1) free own vm in \<open>auto simp: versions_inv_def versions_ok_def\<close>)
  moreover have "map v_id (set_rows (\<lambda>x. v_id x = v_id v) ?f (versions w)) = map v_id (versions w)"
    by (rule map_set_rows) simp
  moreover have "one_latest w'"
  proof (rule one_latestI)
    fix y y'
    assume mem: "y \<in> set (versions w')" "y' \<in> set (versions w')"
      and eq: "v_assetId y = v_assetId y'" and latest: "v_isLatest y" "v_isLatest y'"
    then obtain x x' where x: "x \<in> set (versions w)" "x' \<in> set (versions w)"
      and xy: "v_id y = v_id x" "v_assetId y = v_assetId x" "v_isLatest y = v_isLatest x"
        "v_id y' = v_id x'" "v_assetId y' = v_assetId x'" "v_isLatest y' = v_isLatest x'"
      by (auto simp: w' set_set_rows)
    from one_latestD [OF one x] eq latest xy show "v_id y = v_id y'" by simp
  qed
  ultimately show ?thesis using ok by (simp add: versions_inv_def versions_ok_def w')
qed

lemma inv_asset_call:
  assumes "versions_inv w" and "run_asset_call nfkd up now c i u w = (r, w')"
  shows "versions_inv w'"
proof (cases "\<exists>a. asset_by i w = Some a \<and> can_edit a u")
  case False
  then show ?thesis using call_guard.effect_authorised [OF assms(2)] assms(1) by blast
next
  case True
  then obtain a where a: "asset_by i w = Some a" "can_edit a u" by blast
  then have run: "asset_call_body nfkd up now c i u a w = (r, w')"
    using assms(2) call_guard.owner [OF a] by simp
  have sem: "keeps versions_inv (update_semver i s)" for s
    using inv_update_semver [of _ i s] unfolding keeps_def by (metis prod.collapse)
  have texts: "keeps versions_inv (upsert_text now j i t)" "keeps versions_inv (replace_tags now nfkd ids i ns)" for j t ids ns
    unfolding upsert_text_def insert_text_def replace_tags_def insert_asset_tag_def upsert_tags_def Let_def
    by (intro keeps_intro keeps_upd keeps_upsert_each; simp)+
  have "keeps versions_inv (update_asset_tx now nfkd fr i dto d)" for fr dto d
    unfolding update_asset_tx_def by (intro keeps_intro keeps_upd keeps_each_pair sem texts) simp
  then have "keeps versions_inv (asset_call_body nfkd up now c i u a)"
    by (cases c)
      (auto simp: update_asset_body_def publish_body_def transition_body_def restore_body_def Let_def
        intro!: keeps_intro keeps_upd keeps_call_tail versions_inv_set_version)
  from keepsD [OF this assms(1) run] show ?thesis .
qed

lemma inv_create_asset:
  assumes "versions_inv w" and "fr_version fr \<notin> v_id ` set (versions w)" and "fr_asset fr \<notin> v_assetId ` set (versions w)"
    and "create_asset_row nfkd up now fr dto u w = (r, w')"
  shows "versions_inv w'"
proof -
  let ?I = "\<lambda>s. versions_inv s \<and> fr_version fr \<notin> v_id ` set (versions s) \<and> fr_asset fr \<notin> v_assetId ` set (versions s)"
  have tags: "keeps ?I (case ca_tags dto of None \<Rightarrow> ret []
          | Some ts \<Rightarrow> if ts = [] then ret [] else upsert_tags now nfkd (fr_tag fr) ts)"
    unfolding upsert_tags_def Let_def by (intro keeps_intro keeps_upsert_each) simp
  have slug: "keeps ?I (allocate_slug nfkd a b t)" for a b t
    by (simp add: keeps_def allocate_slug_def allocate_from_state)
  have new: "versions_inv (versions_update (\<lambda>rs. rs @ [v]) s)"
    if "?I s" "v_id v = fr_version fr" "v_assetId v = fr_asset fr" for v s
    using that by (intro versions_inv_insert) (auto simp: image_iff)
  have tx: "leads ?I versions_inv (create_asset_tx now fr u dto slug texts tagIds)" for slug texts tagIds
    unfolding create_asset_tx_def insert_text_def insert_asset_tag_def
    by (intro leads_transact leads_bnd [where I = ?I] leads_bnd_right [OF leads_upd] keeps_intro keeps_upd keeps_each_pair
        versions_inv_map; (rule new)?) (simp_all)
  have "leads ?I versions_inv (create_asset_row nfkd up now fr dto u)"
    unfolding create_asset_row_def
    by (intro leads_bnd tags slug leads_bnd_right [OF tx] keeps_intro keeps_call_tail)
      (auto intro: keeps_intro simp: category_find_or_throw_def license_find_or_throw_def)
  from leadsD [OF this _ assms(4)] assms(1-3) show ?thesis by blast
qed

text \<open>Every sequence of asset and version operations.\<close>

inductive versions_reached :: "world \<Rightarrow> bool" where
  vr_init: "versions w = [] \<Longrightarrow> versions_reached w"
| vr_asset:
    "versions_reached w \<Longrightarrow> fr_version fr \<notin> v_id ` set (versions w) \<Longrightarrow> fr_asset fr \<notin> v_assetId ` set (versions w) \<Longrightarrow>
       create_asset_row nfkd up now fr dto u w = (r, w') \<Longrightarrow> versions_reached w'"
| vr_call: "versions_reached w \<Longrightarrow> run_asset_call nfkd up now c i u w = (r1, w') \<Longrightarrow> versions_reached w'"
| vr_create:
    "versions_reached w \<Longrightarrow> new \<notin> v_id ` set (versions w) \<Longrightarrow>
       create_version_row now new cdto i u w = (r2, w') \<Longrightarrow> versions_reached w'"
| vr_update: "versions_reached w \<Longrightarrow> update_version_row ns vid u w = (r3, w') \<Longrightarrow> versions_reached w'"
| vr_publish: "versions_reached w \<Longrightarrow> publish_version now vid u w = (r4, w') \<Longrightarrow> versions_reached w'"
| vr_compat: "versions_reached w \<Longrightarrow> set_compatibility rows vid u w = (r5, w') \<Longrightarrow> versions_reached w'"
| vr_reanalyze: "versions_reached w \<Longrightarrow> reanalyze up vid u w = (r6, w') \<Longrightarrow> versions_reached w'"

text \<open>
  C14: in every state that creating, updating and publishing assets and versions reaches, version ids are
  unique, no asset has two versions with the same semver and no asset has two latest versions.
\<close>

theorem reached_versions_inv: "versions_reached w \<Longrightarrow> versions_inv w"
proof (induction rule: versions_reached.induct)
  case (vr_init w)
  then show ?case by (simp add: versions_inv_def versions_ok_def one_latest_def)
next
  case (vr_asset w fr nfkd up now dto u r w')
  then show ?case by (blast intro: inv_create_asset)
next
  case (vr_create w new now cdto i u r2 w')
  then show ?case by (blast intro: inv_create_version)
qed (blast intro: inv_asset_call inv_publish_version keepsD [OF keeps_inv_version_op(1)]
    keepsD [OF keeps_inv_version_op(2)] keepsD [OF keeps_inv_version_op(3)])+

lemma two_versions:
  "\<exists>r w1 w2. create_asset_row (\<lambda>_. []) True 5 no_ids create0 alice shop_world = (r, w1) \<and>
     create_version_row 6 ''v2'' \<lparr>cv_semver = ''1.1.0'', cv_notes = None\<rparr> ''n'' alice w1 = (Inr ''v2'', w2) \<and>
     map v_id (versions w1) = [''nv''] \<and> map v_semver (versions w2) = [''1.0.0'', ''1.1.0'']"
  by (simp add: create_asset_row_def act_simps category_find_or_throw_def license_find_or_throw_def category_by_def
      license_by_def shop_world_def create0_def c_id_cat0 no_ids_def allocate_slug_def slugify_empty eval_nat_numeral
      asset_by_slug_def create_asset_tx_def or_else_def invalidate_categories_def cache_invalidate_def
      create_version_row_def with_owned_asset_def create_version_body_def version_semver_taken_def some_row_def
      asset_by_def assert_can_edit_def can_edit_def)

theorem reached_versions_inv_witness:
  "\<exists>w. versions_inv w \<and> map v_semver (versions w) = [''1.0.0'', ''1.1.0'']"
proof -
  obtain r w1 w2 where c: "create_asset_row (\<lambda>_. []) True 5 no_ids create0 alice shop_world = (r, w1)"
    and v: "create_version_row 6 ''v2'' \<lparr>cv_semver = ''1.1.0'', cv_notes = None\<rparr> ''n'' alice w1 = (Inr ''v2'', w2)"
    and ids: "map v_id (versions w1) = [''nv'']" and s: "map v_semver (versions w2) = [''1.0.0'', ''1.1.0'']"
    using two_versions by (elim exE conjE) (rule that)
  have new: "''v2'' \<notin> v_id ` set (versions w1)" using arg_cong [OF ids, of set] by simp
  have "versions_reached shop_world" by (rule vr_init) (simp add: shop_world_def)
  from vr_asset [OF this _ _ c] have "versions_reached w1" by (simp add: shop_world_def)
  from reached_versions_inv [OF vr_create [OF this new v]] s show ?thesis by (intro exI conjI)
qed

subsection \<open>Publishing a version\<close>

lemma make_latest_queue [simp]: "queue_down (make_latest now v w) = queue_down w"
  by (simp add: make_latest_def)

lemma publish_version_body_run:
  assumes "publish_version_body now v w = (Inr r, w')"
  shows "asset_files (v_id v) w \<noteq> [] \<and> versions w' = versions (make_latest now v w) \<and> jobs w' = jobs w @
    [\<lparr>jb_id = Some (v_assetId v @ ''__asset.update''), jb_payload = SearchIndexJob (v_assetId v) ASSET_UPDATE\<rparr>]"
proof (cases "asset_files (v_id v) w = []")
  case True
  with assms show ?thesis by (simp add: publish_version_body_def bnd_gets bnd_check)
next
  case False
  with assms have "w' = jobs_update (\<lambda>js. js @ [\<lparr>jb_id = Some (v_assetId v @ ''__asset.update''),
      jb_payload = SearchIndexJob (v_assetId v) ASSET_UPDATE\<rparr>]) (make_latest now v w)"
    by (simp add: publish_version_body_def bnd_gets bnd_check bnd_upd enqueueSearchIndex_def split: if_splits)
  with False show ?thesis by (simp add: make_latest_def)
qed

lemma publish_version_effect:
  assumes "publish_version now vid u w = (Inr r, w')" and "versions_ok w"
  shows "\<exists>v. version_by vid w = Some v \<and> asset_files vid w \<noteq> [] \<and>
     version_by vid w' = Some (v\<lparr>v_isLatest := True, v_publishedAt := Some now\<rparr>) \<and>
     (\<forall>x \<in> set (versions w'). v_assetId x = v_assetId v \<and> v_isLatest x \<longrightarrow> v_id x = vid) \<and>
     (\<forall>x \<in> set (versions w). v_assetId x \<noteq> v_assetId v \<longrightarrow> x \<in> set (versions w')) \<and>
     jobs w' = jobs w @ [\<lparr>jb_id = Some (v_assetId v @ ''__asset.update''), jb_payload = SearchIndexJob (v_assetId v) ASSET_UPDATE\<rparr>]"
proof -
  obtain v where v: "version_by vid w = Some v" and b: "publish_version_body now v w = (Inr r, w')"
    using publish_version_guard.effect_allowed [OF assms(1)] by blast
  have vi: "v \<in> set (versions w)" "v_id v = vid" using version_byD [OF v] by simp_all
  have own: "v_assetId x = v_assetId v" if "x \<in> set (versions w)" "v_id x = v_id v" for x
    using versions_ok_same [OF assms(2) that(1) vi(1) that(2)] by simp
  note run = publish_version_body_run [OF b]
  then have f: "asset_files vid w \<noteq> []" using vi by simp
  from run have same: "versions w' = versions (make_latest now v w)"
    and j: "jobs w' = jobs w @ [\<lparr>jb_id = Some (v_assetId v @ ''__asset.update''), jb_payload = SearchIndexJob (v_assetId v) ASSET_UPDATE\<rparr>]"
    by simp_all
  have "v_id x = vid" if "x \<in> set (versions w')" "v_assetId x = v_assetId v" "v_isLatest x" for x
    using make_latest_mem [OF that(1) [unfolded same] that(3) own] that(2) vi(2) by auto
  moreover have "x \<in> set (versions w')" if x: "x \<in> set (versions w)" "v_assetId x \<noteq> v_assetId v" for x
  proof -
    have "v_id x \<noteq> v_id v" using own [OF x(1)] x(2) by blast
    with x show ?thesis by (auto simp: same make_latest_versions image_iff)
  qed
  moreover have "version_by vid w' = Some (v\<lparr>v_isLatest := True, v_publishedAt := Some now\<rparr>)"
  proof -
    have ids: "map v_id (versions w') = map v_id (versions w)" by (simp add: same make_latest_versions comp_def)
    have "v\<lparr>v_isLatest := True, v_publishedAt := Some now\<rparr> \<in> set (versions w')"
      using vi by (auto simp: same make_latest_versions image_iff)
    then show ?thesis
      using ids assms(2) vi by (simp add: version_by_def versions_ok_def find_row_eq_Some_iff)
  qed
  ultimately show ?thesis using v f j by blast
qed

text \<open>
  Publishing a version succeeds only when it has a file; then it is the latest version of its asset and
  the only one, it is dated, the versions of other assets stay as they were and the asset is reindexed.
\<close>

theorem publish_version_latest:
  assumes "publish_version now vid u w = (Inr r, w')" and "versions_ok w"
  shows "\<exists>v. version_by vid w = Some v \<and> asset_files vid w \<noteq> [] \<and>
     version_by vid w' = Some (v\<lparr>v_isLatest := True, v_publishedAt := Some now\<rparr>) \<and>
     (\<forall>x \<in> set (versions w'). v_assetId x = v_assetId v \<and> v_isLatest x \<longrightarrow> v_id x = vid) \<and>
     (\<forall>x \<in> set (versions w). v_assetId x \<noteq> v_assetId v \<longrightarrow> x \<in> set (versions w')) \<and>
     jobs w' = jobs w @ [\<lparr>jb_id = Some (v_assetId v @ ''__asset.update''), jb_payload = SearchIndexJob (v_assetId v) ASSET_UPDATE\<rparr>]"
  using assms by (rule publish_version_effect)

definition upgrade_world :: world where
  "upgrade_world = ready_world\<lparr>versions := [version0, version0\<lparr>v_id := ''v2'', v_semver := ''2.0.0'', v_isLatest := False\<rparr>],
     files := [\<lparr>f_id = ''f'', f_versionId = ''v2'', f_s3Key = ''k'', f_relPath = ''x.png'', f_bytes = 1,
       f_mime = ''image/png'', f_kind = SPRITE, f_sortOrder = 0, f_meta = None, f_createdAt = 0\<rparr>]\<rparr>"

theorem publish_version_latest_witness:
  "\<exists>w' v. publish_version 5 ''v2'' alice upgrade_world = (Inr (), w') \<and>
     version_by ''v2'' w' = Some (v\<lparr>v_isLatest := True, v_publishedAt := Some 5\<rparr>)"
proof -
  have "versions_ok upgrade_world" by (simp add: upgrade_world_def versions_ok_def)
  moreover have "version_by ''v2'' upgrade_world = Some (version0\<lparr>v_id := ''v2'', v_semver := ''2.0.0'', v_isLatest := False\<rparr>)"
    and "owns_version alice (version0\<lparr>v_id := ''v2'', v_semver := ''2.0.0'', v_isLatest := False\<rparr>) upgrade_world"
    by (simp_all add: upgrade_world_def version_by_def owns_version_def asset_by_def can_edit_def)
  then obtain w' where p: "publish_version 5 ''v2'' alice upgrade_world = (Inr (), w')"
    by (simp add: publish_version_guard.allowed publish_version_body_def act_simps enqueueSearchIndex_def)
      (simp add: asset_files_def upgrade_world_def ready_world_def)
  ultimately show ?thesis using publish_version_latest [OF p] p by blast
qed

subsection \<open>What the public list shows\<close>

text \<open>
  Who is neither the owner nor an admin sees exactly the published versions that are analysed; the list
  never mixes assets and is ordered by creation time.
\<close>

theorem visible_versions_exact:
  "set (visible_versions i requester a w) =
     {v \<in> set (versions w). v_assetId v = i \<and> (owner_or_admin requester a \<or> v_publishedAt v \<noteq> None \<and> v_status v = READY)} \<and>
   sorted (rev (map v_createdAt (visible_versions i requester a w)))"
  by (auto simp: visible_versions_def order_desc_def rev_map)

end
