(* ===== verification/S3.thy ===== *)
theory S3
  imports Versions
begin

section \<open>The S3 wrapper\<close>

text \<open>
  \<open>src/infra/s3/s3.service.ts\<close>.  The AWS SDK and its signer are the parameter \<open>s3_client\<close>: one function
  per command, that may fail.  What the wrapper adds is modelled: the choice of the bucket, the batched
  and deduplicated signing, the paging of \<open>ListParts\<close>, the order of the completed parts and the errors it
  swallows.  The objects of the store are the \<open>s3_objects\<close> of the state, by bucket and key.
\<close>

datatype bucket_role = AssetsBucket | ThumbsBucket | EditorBucket

record s3_config =
  s3_bucket_assets :: string
  s3_bucket_thumbs :: string
  s3_bucket_editor :: string
  s3_presign_sec :: int

record list_reply =
  lr_parts :: "(int option \<times> string option) list"
  lr_truncated :: bool
  lr_next :: "string option"

record s3_client =
  sc_put_url :: "string \<Rightarrow> string \<Rightarrow> string \<Rightarrow> int \<Rightarrow> app_error + string"
  sc_get_url :: "string \<Rightarrow> string \<Rightarrow> int \<Rightarrow> app_error + string"
  sc_part_url :: "string \<Rightarrow> string \<Rightarrow> string \<Rightarrow> int \<Rightarrow> int \<Rightarrow> app_error + string"
  sc_create :: "string \<Rightarrow> string \<Rightarrow> string \<Rightarrow> app_error + string option"
  sc_list :: "string \<Rightarrow> string \<Rightarrow> string \<Rightarrow> string option \<Rightarrow> app_error + list_reply"
  sc_complete :: "string \<Rightarrow> string \<Rightarrow> string \<Rightarrow> (int \<times> string) list \<Rightarrow> app_error + unit"
  sc_abort :: "string \<Rightarrow> string \<Rightarrow> string \<Rightarrow> app_error + unit"
  sc_head :: "string \<Rightarrow> string \<Rightarrow> app_error + int option \<times> string option"
  sc_delete :: "string \<Rightarrow> string \<Rightarrow> app_error + unit"

fun bucket_for :: "s3_config \<Rightarrow> bucket_role \<Rightarrow> string" where
  "bucket_for cfg AssetsBucket = s3_bucket_assets cfg"
| "bucket_for cfg ThumbsBucket = s3_bucket_thumbs cfg"
| "bucket_for cfg EditorBucket = s3_bucket_editor cfg"

subsection \<open>Signing\<close>

definition presign_put :: "s3_config \<Rightarrow> s3_client \<Rightarrow> bucket_role \<Rightarrow> string \<Rightarrow> string \<Rightarrow> app_error + string" where
  "presign_put cfg c role key contentType =
     sc_put_url c (bucket_for cfg role) key contentType (s3_presign_sec cfg)"

definition presign_get :: "s3_config \<Rightarrow> s3_client \<Rightarrow> bucket_role \<Rightarrow> string \<Rightarrow> app_error + string" where
  "presign_get cfg c role key = sc_get_url c (bucket_for cfg role) key (s3_presign_sec cfg)"

definition presign_long_lived_get :: "s3_config \<Rightarrow> s3_client \<Rightarrow> bucket_role \<Rightarrow> string \<Rightarrow> int \<Rightarrow> app_error + string" where
  "presign_long_lived_get cfg c role key sec = sc_get_url c (bucket_for cfg role) key sec"

text \<open>\<open>Promise.all\<close> reports an error when one of its promises does: the first of the list here.\<close>

function presign_chunks :: "nat \<Rightarrow> (string \<Rightarrow> app_error + string) \<Rightarrow> string list \<Rightarrow> (string \<times> string) list \<Rightarrow>
    app_error + (string \<times> string) list" where
  "presign_chunks n f ks out =
     (if ks = [] \<or> n = 0 then Inr out
      else
        sum_bind (map_sum f (take n ks)) (\<lambda>urls.
        presign_chunks n f (drop n ks) (foldl (\<lambda>o' (k, u). AList.update k u o') out (zip (take n ks) urls))))"
  by pat_completeness auto
termination
  by (relation "measure (\<lambda>(n, f, ks, out). length ks)") auto

declare presign_chunks.simps [simp del]

definition presign_get_many :: "s3_config \<Rightarrow> s3_client \<Rightarrow> bucket_role \<Rightarrow> string list \<Rightarrow> app_error + (string \<times> string) list" where
  "presign_get_many cfg c role keys =
     (let u = uniq (filter (\<lambda>k. k \<noteq> []) keys)
      in if u = [] then Inr [] else presign_chunks 8 (presign_get cfg c role) u [])"

definition presign_parts ::
  "s3_config \<Rightarrow> s3_client \<Rightarrow> bucket_role \<Rightarrow> string \<Rightarrow> string \<Rightarrow> int list \<Rightarrow> app_error + (int \<times> string) list" where
  "presign_parts cfg c role key uploadId parts =
     map_sum (\<lambda>n. sum_bind (sc_part_url c (bucket_for cfg role) key uploadId n (s3_presign_sec cfg)) (\<lambda>u. Inr (n, u))) parts"

subsection \<open>Objects\<close>

definition object_id :: "s3_config \<Rightarrow> bucket_role \<Rightarrow> string \<Rightarrow> string" where
  "object_id cfg role key = bucket_for cfg role @ ''/'' @ key"

definition delete_object :: "s3_config \<Rightarrow> s3_client \<Rightarrow> bucket_role \<Rightarrow> string \<Rightarrow> unit handler" where
  "delete_object cfg c role key =
     bnd (from_sum (sc_delete c (bucket_for cfg role) key)) (\<lambda>_.
     upd (s3_objects_update (filter (\<lambda>o'. o' \<noteq> object_id cfg role key))))"

definition head_object :: "s3_config \<Rightarrow> s3_client \<Rightarrow> bucket_role \<Rightarrow> string \<Rightarrow> (int \<times> string option) option" where
  "head_object cfg c role key =
     (case sc_head c (bucket_for cfg role) key of
        Inl e \<Rightarrow> None
      | Inr (bytes, contentType) \<Rightarrow> Some (or_else bytes 0, contentType))"

subsection \<open>Multipart uploads\<close>

definition create_multipart :: "s3_config \<Rightarrow> s3_client \<Rightarrow> bucket_role \<Rightarrow> string \<Rightarrow> string \<Rightarrow> app_error + string" where
  "create_multipart cfg c role key contentType =
     sum_bind (sc_create c (bucket_for cfg role) key contentType) (\<lambda>i.
     if truthy_str i then Inr (or_else i []) else Inl (OtherError (RemoteFailure ''S3 did not return an UploadId.'')))"

definition complete_multipart ::
  "s3_config \<Rightarrow> s3_client \<Rightarrow> bucket_role \<Rightarrow> string \<Rightarrow> string \<Rightarrow> (int \<times> string) list \<Rightarrow> app_error + unit" where
  "complete_multipart cfg c role key uploadId parts =
     sc_complete c (bucket_for cfg role) key uploadId (sort_key fst parts)"

definition abort_multipart_upload :: "s3_config \<Rightarrow> s3_client \<Rightarrow> bucket_role \<Rightarrow> string \<Rightarrow> string \<Rightarrow> app_error + unit" where
  "abort_multipart_upload cfg c role key uploadId =
     (case sc_abort c (bucket_for cfg role) key uploadId of Inl e \<Rightarrow> Inr () | Inr x \<Rightarrow> Inr ())"

definition reply_parts :: "list_reply \<Rightarrow> (int \<times> string) list" where
  "reply_parts r =
     List.map_filter (\<lambda>(n, e). case (n, e) of (Some n', Some e') \<Rightarrow> if e' \<noteq> [] then Some (n', e') else None | _ \<Rightarrow> None)
       (lr_parts r)"

definition next_marker :: "list_reply \<Rightarrow> string option" where
  "next_marker r = (if lr_truncated r then truthy_opt (lr_next r) else None)"

text \<open>The loop of \<open>listParts\<close>: \<open>None\<close> is a loop that never ends.\<close>

partial_function (option) list_from ::
  "(string option \<Rightarrow> app_error + list_reply) \<Rightarrow> string option \<Rightarrow> (int \<times> string) list \<Rightarrow> (app_error + (int \<times> string) list) option" where
  "list_from send marker out =
     (case send marker of
        Inl e \<Rightarrow> Some (Inl e)
      | Inr r \<Rightarrow>
          (case next_marker r of
             None \<Rightarrow> Some (Inr (out @ reply_parts r))
           | Some m \<Rightarrow> list_from send (Some m) (out @ reply_parts r)))"

definition map_sum_right :: "('a \<Rightarrow> 'b) \<Rightarrow> 'e + 'a \<Rightarrow> 'e + 'b" where
  "map_sum_right f r = sum_bind r (\<lambda>x. Inr (f x))"

definition list_parts ::
  "s3_config \<Rightarrow> s3_client \<Rightarrow> bucket_role \<Rightarrow> string \<Rightarrow> string \<Rightarrow> (app_error + (int \<times> string) list) option" where
  "list_parts cfg c role key uploadId =
     map_option (map_sum_right (sort_key fst)) (list_from (sc_list c (bucket_for cfg role) key uploadId) None [])"


subsection \<open>Signing in batches is signing one by one\<close>

lemma uniq_set [simp]: "set (uniq xs) = set xs"
  by (induction xs) auto

lemma uniq_distinct [simp]: "distinct (uniq xs)"
  by (induction xs) auto

lemma map_sum_append: "map_sum f (xs @ ys) = sum_bind (map_sum f xs) (\<lambda>us. sum_bind (map_sum f ys) (\<lambda>vs. Inr (us @ vs)))"
proof (induction xs)
  case Nil
  then show ?case by (cases "map_sum f ys") simp_all
next
  case (Cons x xs)
  then show ?case by (cases "f x"; cases "map_sum f xs"; cases "map_sum f ys") simp_all
qed

lemma map_sum_length: "map_sum f xs = Inr ys \<Longrightarrow> length ys = length xs"
  by (induction xs arbitrary: ys) (auto simp: sum_bind_eq_Inr)

lemma update_new_key: "k \<notin> fst ` set out \<Longrightarrow> AList.update k v out = out @ [(k, v)]"
  by (induction out) auto

lemma fold_update_new:
  "distinct (map fst ps) \<Longrightarrow> fst ` set ps \<inter> fst ` set out = {} \<Longrightarrow>
     foldl (\<lambda>o' (k, u). AList.update k u o') out ps = out @ ps"
proof (induction ps arbitrary: out)
  case (Cons p ps)
  obtain k v where p: "p = (k, v)" by (cases p)
  with Cons.prems have "k \<notin> fst ` set out" by auto
  with Cons.prems Cons.IH [of "out @ [(k, v)]"] show ?case
    by (auto simp: p update_new_key)
qed simp

lemma presign_chunks_eq:
  assumes "0 < n" and "distinct ks" and "set ks \<inter> fst ` set out = {}"
  shows "presign_chunks n f ks out = sum_bind (map_sum f ks) (\<lambda>us. Inr (out @ zip ks us))"
  using assms(2,3)
proof (induction "length ks" arbitrary: ks out rule: less_induct)
  case less
  show ?case
  proof (cases "ks = []")
    case True
    then show ?thesis by (simp add: presign_chunks.simps)
  next
    case False
    have split: "map_sum f ks = sum_bind (map_sum f (take n ks)) (\<lambda>us. sum_bind (map_sum f (drop n ks)) (\<lambda>vs. Inr (us @ vs)))"
      using map_sum_append [of f "take n ks" "drop n ks"] by simp
    show ?thesis
    proof (cases "map_sum f (take n ks)")
      case (Inl e)
      with False assms(1) show ?thesis by (simp add: presign_chunks.simps [of n f ks out] split)
    next
      case (Inr us)
      have len: "length us = length (take n ks)" using Inr by (rule map_sum_length)
      have fst: "map fst (zip (take n ks) us) = take n ks" using len by simp
      then have "fst ` set (zip (take n ks) us) = set (take n ks)" by (metis set_map)
      moreover have "distinct (take n ks)" using less.prems(1) by simp
      ultimately have out: "foldl (\<lambda>o' (k, u). AList.update k u o') out (zip (take n ks) us) = out @ zip (take n ks) us"
        using less.prems(2) fst by (intro fold_update_new) (auto dest: in_set_takeD)
      have disj: "set (drop n ks) \<inter> fst ` set (out @ zip (take n ks) us) = {}"
        using less.prems set_take_disj_set_drop_if_distinct [of ks n n] \<open>fst ` set _ = set (take n ks)\<close>
        by (auto simp: image_Un dest: in_set_dropD)
      have "presign_chunks n f (drop n ks) (out @ zip (take n ks) us) =
              sum_bind (map_sum f (drop n ks)) (\<lambda>vs. Inr ((out @ zip (take n ks) us) @ zip (drop n ks) vs))"
        by (rule less.hyps) (use False assms(1) less.prems(1) disj in auto)
      moreover have "zip ks (us @ vs) = zip (take n ks) us @ zip (drop n ks) vs" for vs
        using zip_append2 [of ks us vs] len by (auto simp: min_def)
      ultimately show ?thesis using False assms(1)
        by (cases "map_sum f (drop n ks)") (simp_all add: presign_chunks.simps [of n f ks out] Inr out split)
    qed
  qed
qed

text \<open>
  The batched, deduplicated signing gives what signing every non-empty key one by one gives, and fails
  exactly when one of those does.
\<close>

theorem presign_get_many_reference:
  "presign_get_many cfg c role keys =
     (let u = uniq (filter (\<lambda>k. k \<noteq> []) keys)
      in map_sum_right (zip u) (map_sum (presign_get cfg c role) u))"
  using presign_chunks_eq [of 8 "uniq (filter (\<lambda>k. k \<noteq> []) keys)" "[]" "presign_get cfg c role"]
  by (simp add: presign_get_many_def Let_def map_sum_right_def)

subsection \<open>Listing the parts ends\<close>

lemma list_from_terminates:
  assumes "\<And>m r m'. send m = Inr r \<Longrightarrow> next_marker r = Some m' \<Longrightarrow> rank (Some m') < (rank m :: nat)"
  shows "\<exists>r. list_from send marker out = Some r"
proof (induction "rank marker" arbitrary: marker out rule: less_induct)
  case less
  show ?case
  proof (cases "send marker")
    case (Inl e)
    then show ?thesis by (simp add: list_from.simps)
  next
    case (Inr r)
    then show ?thesis
      using less [of "Some (the (next_marker r))" "out @ reply_parts r"] assms [OF Inr]
      by (cases "next_marker r") (simp_all add: list_from.simps [of send marker])
  qed
qed

text \<open>
  C40: the loop over the pages of \<open>ListParts\<close> ends whenever every truncated page names a marker further on
  (what S3 documents), and the parts it returns are in ascending order.
\<close>

theorem list_parts_terminates:
  assumes "\<And>m r m'. sc_list c (bucket_for cfg role) key uploadId m = Inr r \<Longrightarrow> next_marker r = Some m' \<Longrightarrow>
             rank (Some m') < (rank m :: nat)"
  shows "\<exists>r. list_parts cfg c role key uploadId = Some r \<and> (\<forall>ps. r = Inr ps \<longrightarrow> sorted (map fst ps))"
proof -
  obtain r where "list_from (sc_list c (bucket_for cfg role) key uploadId) None [] = Some r"
    using list_from_terminates [of "sc_list c (bucket_for cfg role) key uploadId" rank] assms by blast
  then show ?thesis
    by (cases r) (auto simp: list_parts_def map_sum_right_def)
qed

definition two_pages :: "string option \<Rightarrow> app_error + list_reply" where
  "two_pages m =
     (if m = None then Inr \<lparr>lr_parts = [(Some 2, Some ''b'')], lr_truncated = True, lr_next = Some ''2''\<rparr>
      else Inr \<lparr>lr_parts = [(Some 1, Some ''a''), (None, Some ''x'')], lr_truncated = False, lr_next = None\<rparr>)"

definition client0 :: s3_client where
  "client0 = \<lparr>sc_put_url = (\<lambda>b k t s. Inr (''put:'' @ k)), sc_get_url = (\<lambda>b k s. Inr (''get:'' @ k)),
     sc_part_url = (\<lambda>b k i n s. Inr ''part''), sc_create = (\<lambda>b k t. Inr (Some ''up'')),
     sc_list = (\<lambda>b k i. two_pages), sc_complete = (\<lambda>b k i ps. Inr ()), sc_abort = (\<lambda>b k i. Inr ()),
     sc_head = (\<lambda>b k. Inr (Some 7, None)), sc_delete = (\<lambda>b k. Inr ())\<rparr>"

definition cfg0 :: s3_config where
  "cfg0 = \<lparr>s3_bucket_assets = ''A'', s3_bucket_thumbs = ''T'', s3_bucket_editor = ''E'', s3_presign_sec = 900\<rparr>"

theorem list_parts_terminates_witness:
  "list_parts cfg0 client0 AssetsBucket ''k'' ''up'' = Some (Inr [(1, ''a''), (2, ''b'')])"
proof -
  have "\<exists>r. list_parts cfg0 client0 AssetsBucket ''k'' ''up'' = Some r \<and> (\<forall>ps. r = Inr ps \<longrightarrow> sorted (map fst ps))"
    by (rule list_parts_terminates [where rank = "\<lambda>m. if m = None then 1 else 0"])
      (auto simp: client0_def two_pages_def next_marker_def split: if_splits)
  moreover have "list_from two_pages None [] = Some (Inr [(2, ''b''), (1, ''a'')])"
    by (simp add: list_from.simps two_pages_def next_marker_def truthy_opt_def truthy_str_def reply_parts_def
        List.map_filter_simps)
  ultimately show ?thesis
    by (simp add: list_parts_def map_sum_right_def client0_def)
qed

end
