(* ===== verification/Files.thy ===== *)
theory Files
  imports S3
begin

section \<open>Uploads and the files of a version\<close>

text \<open>
  \<open>src/modules/files/files.service.ts\<close>.  An upload is a state machine whose state is a handle in Redis:
  it is initiated (a row with no bytes, a handle for a day), then completed or aborted, single-shot or in
  parts.  Completion recounts the version, drops the handle, bumps the fan-in counter of the version and
  queues the analysis.  \<open>S3\<close> is the wrapper of \<open>S3.thy\<close> over any client; a listing of parts that never
  ends is an error here (\<open>list_parts_terminates\<close> says when it ends).

  Redis is \<open>up\<close> or its commands throw.
\<close>

subsection \<open>Paths\<close>

definition normalize_path :: "string \<Rightarrow> app_error + string" where
  "normalize_path raw =
     (let stripped = trim (dropWhile (\<lambda>c. c = CHR ''/'') raw)
      in if stripped = [] then Inl (BadRequest FILE_UPLOAD_INIT_FAILED)
         else if ''..'' \<in> set (split_on CHR ''/'' stripped) then Inl (BadRequest FILE_UPLOAD_INIT_FAILED)
         else Inr stripped)"

subsection \<open>Handles\<close>

record upload_handle =
  uh_fileId :: "string option"
  uh_versionId :: "string option"
  uh_assetId :: "string option"
  uh_key :: string
  uh_role :: string
  uh_s3UploadId :: "string option"
  uh_multipart :: bool

definition HANDLE_TTL_SECONDS :: int where "HANDLE_TTL_SECONDS = 24 * 60 * 60"

definition handle_key :: "string \<Rightarrow> string" where
  "handle_key uploadId = ''upload:handle:'' @ uploadId"

text \<open>\<open>JSON.stringify\<close> keeps \<open>null\<close> (the file id) and leaves out what is undefined.\<close>

definition handle_json :: "upload_handle \<Rightarrow> json" where
  "handle_json h =
     JObj ([(''fileId'', null_or (uh_fileId h))] @ optional_field ''versionId'' (uh_versionId h) @
           optional_field ''assetId'' (uh_assetId h) @
           [(''key'', JStr (uh_key h)), (''role'', JStr (uh_role h))] @
           optional_field ''s3UploadId'' (uh_s3UploadId h) @ [(''multipart'', JBool (uh_multipart h))])"

definition handle_of_json :: "json \<Rightarrow> upload_handle" where
  "handle_of_json v =
     \<lparr>uh_fileId = str_prop v ''fileId'', uh_versionId = str_prop v ''versionId'', uh_assetId = str_prop v ''assetId'',
      uh_key = or_else (str_prop v ''key'') [], uh_role = or_else (str_prop v ''role'') [],
      uh_s3UploadId = str_prop v ''s3UploadId'', uh_multipart = bool_prop v ''multipart''\<rparr>"

definition redis_down :: app_error where
  "redis_down = OtherError (RemoteFailure ''redis'')"

definition save_handle :: "bool \<Rightarrow> int \<Rightarrow> string \<Rightarrow> upload_handle \<Rightarrow> unit handler" where
  "save_handle up now uploadId h =
     bnd (check up redis_down) (\<lambda>_.
     upd (redis_update (redis_set_ex now (handle_key uploadId) (json_text (handle_json h)) HANDLE_TTL_SECONDS)))"

definition load_handle :: "bool \<Rightarrow> int \<Rightarrow> string \<Rightarrow> upload_handle handler" where
  "load_handle up now uploadId =
     bnd (check up redis_down) (\<lambda>_.
     bnd (gets (\<lambda>w. redis_get now (handle_key uploadId) (redis w))) (\<lambda>raw.
     bnd (check (truthy_str raw) (NotFoundDomain FILE_UPLOAD_NOT_FOUND)) (\<lambda>_.
     bnd (fetch (\<lambda>_. json_parse (or_else raw [])) (OtherError TypeError)) (\<lambda>v.
     ret (handle_of_json v)))))"

definition drop_handle :: "bool \<Rightarrow> string \<Rightarrow> unit handler" where
  "drop_handle up uploadId =
     bnd (check up redis_down) (\<lambda>_. upd (redis_update (redis_del [handle_key uploadId])))"

subsection \<open>Shared steps\<close>

definition get_version_or_throw :: "string \<Rightarrow> user_row \<Rightarrow> version_row handler" where
  "get_version_or_throw vid u = with_owned_version vid u ret"

definition file_by :: "string \<Rightarrow> world \<Rightarrow> file_row option" where
  "file_by i w = find_row f_id i (files w)"

definition set_file :: "string \<Rightarrow> (file_row \<Rightarrow> file_row) \<Rightarrow> world \<Rightarrow> world" where
  "set_file i f = files_update (set_rows (\<lambda>x. f_id x = i) f)"

definition next_sort_order :: "string \<Rightarrow> world \<Rightarrow> int" where
  "next_sort_order vid w = int (length (asset_files vid w))"

definition recount :: "string \<Rightarrow> world \<Rightarrow> version_row \<Rightarrow> version_row" where
  "recount vid w v =
     v\<lparr>v_bytesTotal := sum_list (map f_bytes (asset_files vid w)), v_fileCount := length (asset_files vid w)\<rparr>"

definition recount_version :: "string \<Rightarrow> unit handler" where
  "recount_version vid =
     bnd (fetch (version_by vid) (OtherError (RecordNotFound ''AssetVersion''))) (\<lambda>_.
     upd (\<lambda>w. set_version vid (recount vid w) w))"

definition enqueue_after_completion :: "bool \<Rightarrow> int \<Rightarrow> file_row \<Rightarrow> unit handler" where
  "enqueue_after_completion up now f =
     bnd (check up redis_down) (\<lambda>_.
     bnd (upd (redis_update (\<lambda>m. snd (redis_incrby now 1 (remaining_key (f_versionId f)) m)))) (\<lambda>_.
     enqueueAnalyzeFile (f_versionId f) (f_id f) None))"

definition update_file_meta :: "string \<Rightarrow> (int \<times> string option) option \<Rightarrow> file_row handler" where
  "update_file_meta i head =
     bnd (fetch (file_by i) (OtherError (RecordNotFound ''AssetFile''))) (\<lambda>f.
     (let g = (\<lambda>x. x\<lparr>f_bytes := (case head of None \<Rightarrow> 0 | Some (n, _) \<Rightarrow> n),
                     f_mime := (case head of Some (_, Some t) \<Rightarrow> t | _ \<Rightarrow> f_mime x)\<rparr>)
      in bnd (upd (set_file i g)) (\<lambda>_. ret (g f))))"

definition finish_upload :: "bool \<Rightarrow> int \<Rightarrow> string \<Rightarrow> string \<Rightarrow> (int \<times> string option) option \<Rightarrow> unit handler" where
  "finish_upload up now uploadId fileId head =
     bnd (update_file_meta fileId head) (\<lambda>f.
     bnd (recount_version (f_versionId f)) (\<lambda>_.
     bnd (drop_handle up uploadId) (\<lambda>_.
     enqueue_after_completion up now f)))"

definition expires_at :: "s3_config \<Rightarrow> int \<Rightarrow> string" where
  "expires_at cfg now = iso_string (now + s3_presign_sec cfg * 1000)"

subsection \<open>Initiating\<close>

record initiate_upload_dto =
  iu_assetId :: string
  iu_versionId :: string
  iu_relativePath :: string
  iu_contentType :: string

text \<open>Fresh ids of a request: the file row and the upload, \<open>up_\<close> and a UUID.\<close>

record upload_ids =
  ui_file :: string
  ui_uuid :: string

definition create_file_row :: "int \<Rightarrow> string \<Rightarrow> version_row \<Rightarrow> string \<Rightarrow> string \<Rightarrow> file_row handler" where
  "create_file_row now i v path contentType =
     bnd (gets (next_sort_order (v_id v))) (\<lambda>n.
     (let f = \<lparr>f_id = i, f_versionId = v_id v, f_s3Key = v_s3Prefix v @ path, f_relPath = path, f_bytes = 0,
               f_mime = contentType, f_kind = OTHER_KIND, f_sortOrder = n, f_meta = None, f_createdAt = now\<rparr>
      in bnd (upd (files_update (\<lambda>fs. fs @ [f]))) (\<lambda>_. ret f)))"

text \<open>The steps that the two ways of initiating share, up to the row.\<close>

definition begin_upload :: "int \<Rightarrow> upload_ids \<Rightarrow> initiate_upload_dto \<Rightarrow> user_row \<Rightarrow> (version_row \<times> file_row) handler" where
  "begin_upload now ids dto u =
     bnd (get_version_or_throw (iu_versionId dto) u) (\<lambda>v.
     bnd (check (v_assetId v = iu_assetId dto) (BadRequest FILE_UPLOAD_INIT_FAILED)) (\<lambda>_.
     bnd (from_sum (normalize_path (iu_relativePath dto))) (\<lambda>path.
     bnd (create_file_row now (ui_file ids) v path (iu_contentType dto)) (\<lambda>f.
     ret (v, f)))))"

definition handle_of :: "version_row \<Rightarrow> file_row \<Rightarrow> string option \<Rightarrow> upload_handle" where
  "handle_of v f s3UploadId =
     \<lparr>uh_fileId = Some (f_id f), uh_versionId = Some (v_id v), uh_assetId = Some (v_assetId v), uh_key = f_s3Key f,
      uh_role = ''assets'', uh_s3UploadId = s3UploadId, uh_multipart = (s3UploadId \<noteq> None)\<rparr>"

definition upload_id :: "upload_ids \<Rightarrow> string" where
  "upload_id ids = ''up_'' @ ui_uuid ids"

record initiated =
  in_uploadId :: string
  in_urls :: "(int \<times> string) list"
  in_key :: string
  in_fileId :: string
  in_expiresAt :: string

definition initiate_upload ::
  "s3_config \<Rightarrow> s3_client \<Rightarrow> bool \<Rightarrow> int \<Rightarrow> upload_ids \<Rightarrow> initiate_upload_dto \<Rightarrow> user_row \<Rightarrow> initiated handler" where
  "initiate_upload cfg c up now ids dto u =
     bnd (begin_upload now ids dto u) (\<lambda>(v, f).
     bnd (from_sum (presign_put cfg c AssetsBucket (f_s3Key f) (iu_contentType dto))) (\<lambda>url.
     bnd (save_handle up now (upload_id ids) (handle_of v f None)) (\<lambda>_.
     ret \<lparr>in_uploadId = upload_id ids, in_urls = [(0, url)], in_key = f_s3Key f, in_fileId = f_id f,
          in_expiresAt = expires_at cfg now\<rparr>)))"

definition initiate_multipart ::
  "s3_config \<Rightarrow> s3_client \<Rightarrow> bool \<Rightarrow> int \<Rightarrow> upload_ids \<Rightarrow> initiate_upload_dto \<Rightarrow> nat \<Rightarrow> user_row \<Rightarrow> initiated handler" where
  "initiate_multipart cfg c up now ids dto partCount u =
     bnd (begin_upload now ids dto u) (\<lambda>(v, f).
     bnd (from_sum (create_multipart cfg c AssetsBucket (f_s3Key f) (iu_contentType dto))) (\<lambda>s3id.
     bnd (from_sum (presign_parts cfg c AssetsBucket (f_s3Key f) s3id (map (\<lambda>i. int i + 1) [0..<partCount]))) (\<lambda>urls.
     bnd (save_handle up now (upload_id ids) (handle_of v f (Some s3id))) (\<lambda>_.
     ret \<lparr>in_uploadId = upload_id ids, in_urls = urls, in_key = f_s3Key f, in_fileId = f_id f,
          in_expiresAt = expires_at cfg now\<rparr>))))"

subsection \<open>Completing and aborting\<close>

definition check_owner_of_handle :: "upload_handle \<Rightarrow> user_row \<Rightarrow> unit handler" where
  "check_owner_of_handle h u =
     (case truthy_opt (uh_versionId h) of
        None \<Rightarrow> ret ()
      | Some vid \<Rightarrow> bnd (get_version_or_throw vid u) (\<lambda>_. ret ()))"

definition complete_upload :: "s3_config \<Rightarrow> s3_client \<Rightarrow> bool \<Rightarrow> int \<Rightarrow> string \<Rightarrow> user_row \<Rightarrow> unit handler" where
  "complete_upload cfg c up now uploadId u =
     bnd (load_handle up now uploadId) (\<lambda>h.
     bnd (check (truthy_str (uh_fileId h) \<and> \<not> uh_multipart h) (BadRequest FILE_UPLOAD_INIT_FAILED)) (\<lambda>_.
     bnd (check_owner_of_handle h u) (\<lambda>_.
     finish_upload up now uploadId (or_else (uh_fileId h) []) (head_object cfg c AssetsBucket (uh_key h)))))"

definition sign_multipart_parts ::
  "s3_config \<Rightarrow> s3_client \<Rightarrow> bool \<Rightarrow> int \<Rightarrow> string \<Rightarrow> int list \<Rightarrow> user_row \<Rightarrow> (int \<times> string) list handler" where
  "sign_multipart_parts cfg c up now uploadId parts u =
     bnd (load_handle up now uploadId) (\<lambda>h.
     bnd (check (uh_multipart h \<and> truthy_str (uh_s3UploadId h)) (BadRequest FILE_UPLOAD_INIT_FAILED)) (\<lambda>_.
     bnd (check_owner_of_handle h u) (\<lambda>_.
     from_sum (presign_parts cfg c AssetsBucket (uh_key h) (or_else (uh_s3UploadId h) []) parts))))"

definition listed_parts :: "s3_config \<Rightarrow> s3_client \<Rightarrow> upload_handle \<Rightarrow> app_error + (int \<times> string) list" where
  "listed_parts cfg c h =
     (case list_parts cfg c AssetsBucket (uh_key h) (or_else (uh_s3UploadId h) []) of
        None \<Rightarrow> Inl (OtherError (RemoteFailure ''ListParts'')) | Some r \<Rightarrow> r)"

definition complete_multipart_upload :: "s3_config \<Rightarrow> s3_client \<Rightarrow> bool \<Rightarrow> int \<Rightarrow> string \<Rightarrow> user_row \<Rightarrow> unit handler" where
  "complete_multipart_upload cfg c up now uploadId u =
     bnd (load_handle up now uploadId) (\<lambda>h.
     bnd (check (uh_multipart h \<and> truthy_str (uh_s3UploadId h) \<and> truthy_str (uh_fileId h))
            (BadRequest FILE_UPLOAD_INIT_FAILED)) (\<lambda>_.
     bnd (check_owner_of_handle h u) (\<lambda>_.
     bnd (from_sum (listed_parts cfg c h)) (\<lambda>parts.
     bnd (check (parts \<noteq> []) (BadRequest FILE_UPLOAD_INIT_FAILED)) (\<lambda>_.
     bnd (from_sum (complete_multipart cfg c AssetsBucket (uh_key h) (or_else (uh_s3UploadId h) []) parts)) (\<lambda>_.
     finish_upload up now uploadId (or_else (uh_fileId h) []) (head_object cfg c AssetsBucket (uh_key h))))))))"

definition abort_multipart :: "s3_config \<Rightarrow> s3_client \<Rightarrow> bool \<Rightarrow> int \<Rightarrow> string \<Rightarrow> user_row \<Rightarrow> unit handler" where
  "abort_multipart cfg c up now uploadId u =
     bnd (load_handle up now uploadId) (\<lambda>h.
     bnd (check_owner_of_handle h u) (\<lambda>_.
     bnd (from_sum (case truthy_opt (uh_s3UploadId h) of
            None \<Rightarrow> Inr () | Some s \<Rightarrow> abort_multipart_upload cfg c AssetsBucket (uh_key h) s)) (\<lambda>_.
     bnd (case truthy_opt (uh_fileId h) of
            None \<Rightarrow> ret ()
          | Some fid \<Rightarrow>
              bnd (upd (files_update (drop_rows (\<lambda>f. f_id f = fid)))) (\<lambda>_.
              case truthy_opt (uh_versionId h) of None \<Rightarrow> ret () | Some vid \<Rightarrow> recount_version vid)) (\<lambda>_.
     drop_handle up uploadId))))"

subsection \<open>Order, deletion, thumbnails and editor media\<close>

text \<open>\<open>rank\<close>: the last position of a known id; an id that was left out gets the length of the list.\<close>

definition file_rank :: "string list \<Rightarrow> string \<Rightarrow> int" where
  "file_rank ordered i =
     (if i \<in> set ordered then int (length ordered - 1 - length (takeWhile (\<lambda>x. x \<noteq> i) (rev ordered)))
      else int (length ordered))"

definition reorder_files :: "string \<Rightarrow> string list \<Rightarrow> user_row \<Rightarrow> unit handler" where
  "reorder_files vid ordered u =
     bnd (get_version_or_throw vid u) (\<lambda>v.
     upd (files_update (set_rows (\<lambda>f. f_versionId f = v_id v)
            (\<lambda>f. f\<lparr>f_sortOrder := file_rank ordered (f_id f)\<rparr>))))"

definition delete_file :: "s3_config \<Rightarrow> s3_client \<Rightarrow> string \<Rightarrow> user_row \<Rightarrow> unit handler" where
  "delete_file cfg c fid u =
     bnd (fetch (file_by fid) (NotFoundDomain FILE_UPLOAD_NOT_FOUND)) (\<lambda>f.
     bnd (fetch (\<lambda>w. case version_by (f_versionId f) w of None \<Rightarrow> None | Some v \<Rightarrow> asset_by (v_assetId v) w)
            (OtherError (RecordNotFound ''Asset''))) (\<lambda>a.
     bnd (assert_can_edit a u) (\<lambda>_.
     bnd (swallow (delete_object cfg c AssetsBucket (f_s3Key f))) (\<lambda>_.
     bnd (upd (files_update (drop_rows (\<lambda>x. f_id x = fid)))) (\<lambda>_.
     recount_version (f_versionId f))))))"

definition thumbs_prefix :: "string \<Rightarrow> string" where
  "thumbs_prefix assetId = ''thumbs/'' @ assetId @ ''/''"

definition initiate_thumbnail ::
  "s3_config \<Rightarrow> s3_client \<Rightarrow> int \<Rightarrow> string \<Rightarrow> string \<Rightarrow> string \<Rightarrow> user_row \<Rightarrow> (string \<times> string \<times> string) handler" where
  "initiate_thumbnail cfg c now uuid contentType assetId u =
     with_owned_asset assetId u (\<lambda>_.
       (let key = thumbs_prefix assetId @ uuid
        in bnd (from_sum (presign_put cfg c ThumbsBucket key contentType)) (\<lambda>url. ret (url, key, expires_at cfg now))))"

definition complete_thumbnail :: "int \<Rightarrow> string \<Rightarrow> string \<Rightarrow> user_row \<Rightarrow> unit handler" where
  "complete_thumbnail now key assetId u =
     with_owned_asset assetId u (\<lambda>_.
       bnd (check (starts_with (thumbs_prefix assetId) key) (ForbiddenDomain AUTH_FORBIDDEN)) (\<lambda>_.
       bnd (upd (set_asset assetId (\<lambda>a. a\<lparr>a_thumbnailKey := Some key, a_updatedAt := now\<rparr>))) (\<lambda>_.
       enqueueThumbnailVariants assetId key)))"

definition editor_media_ttl :: int where "editor_media_ttl = 6 * 24 * 60 * 60"

definition initiate_editor_media ::
  "s3_config \<Rightarrow> s3_client \<Rightarrow> int \<Rightarrow> string \<Rightarrow> string \<Rightarrow> user_row \<Rightarrow> app_error + string \<times> string \<times> string \<times> string" where
  "initiate_editor_media cfg c now uuid contentType u =
     (let key = ''editor/'' @ u_id u @ ''/'' @ uuid
      in sum_bind (presign_put cfg c EditorBucket key contentType) (\<lambda>put.
         sum_bind (presign_long_lived_get cfg c EditorBucket key editor_media_ttl) (\<lambda>view.
         Inr (put, key, view, expires_at cfg now))))"

definition has_dots :: "string \<Rightarrow> bool" where
  "has_dots s = list_ex (\<lambda>i. take 2 (drop i s) = ''..'') [0..<length s]"

definition refresh_editor_media :: "s3_config \<Rightarrow> s3_client \<Rightarrow> int \<Rightarrow> string \<Rightarrow> user_row \<Rightarrow> app_error + string \<times> string" where
  "refresh_editor_media cfg c now key u =
     (if \<not> starts_with ''editor/'' key then Inl (BadRequest FILE_UPLOAD_INIT_FAILED)
      else if has_dots key then Inl (ForbiddenDomain AUTH_FORBIDDEN)
      else sum_bind (presign_long_lived_get cfg c EditorBucket key editor_media_ttl) (\<lambda>view.
             Inr (view, expires_at cfg now)))"


subsection \<open>Paths stay inside the prefix of the version\<close>

lemma normalize_path_safe:
  "normalize_path raw = Inr p \<Longrightarrow> p \<noteq> [] \<and> ''..'' \<notin> set (split_on CHR ''/'' p)"
  by (auto simp: normalize_path_def Let_def split: if_splits)

lemma begin_upload_run:
  assumes "begin_upload now ids dto u w = (Inr (v, f), w')"
  shows "version_by (iu_versionId dto) w = Some v \<and> owns_version u v w \<and> v_assetId v = iu_assetId dto \<and>
     f_id f = ui_file ids \<and> f_versionId f = v_id v \<and> f_s3Key f = v_s3Prefix v @ f_relPath f \<and> f_bytes f = 0 \<and>
     f_relPath f \<noteq> [] \<and> ''..'' \<notin> set (split_on CHR ''/'' (f_relPath f)) \<and>
     f_sortOrder f = next_sort_order (v_id v) w \<and> w' = files_update (\<lambda>fs. fs @ [f]) w"
proof -
  from assms obtain v1 w1 where g: "get_version_or_throw (iu_versionId dto) u w = (Inr v1, w1)"
    and r: "bnd (check (v_assetId v1 = iu_assetId dto) (BadRequest FILE_UPLOAD_INIT_FAILED)) (\<lambda>_.
     bnd (from_sum (normalize_path (iu_relativePath dto))) (\<lambda>path.
     bnd (create_file_row now (ui_file ids) v1 path (iu_contentType dto)) (\<lambda>f. ret (v1, f)))) w1 = (Inr (v, f), w')"
    by (auto simp: begin_upload_def bnd_eq_Inr_conv)
  from g have v1: "version_by (iu_versionId dto) w = Some v1" "owns_version u v1 w" "w1 = w"
    using with_owned_version_effect [of "iu_versionId dto" u ret w "Inr v1" w1]
    by (auto simp: get_version_or_throw_def)
  from r obtain path where "normalize_path (iu_relativePath dto) = Inr path"
    by (auto simp: act_simps split: if_splits sum.splits)
  with r v1 normalize_path_safe [OF this] show ?thesis
    by (auto simp: act_simps create_file_row_def Let_def split: if_splits)
qed

lemma handle_round_trip: "handle_of_json (handle_json h) = h"
  by (cases h) (auto simp: handle_of_json_def handle_json_def str_prop_def bool_prop_def null_or_def optional_field_def
      or_else_def split: option.splits)

lemma handle_json_plain: "js_plain (handle_json h)"
  by (auto simp: handle_json_def null_or_def optional_field_def split: option.splits)

lemma json_text_not_empty: "js_plain v \<Longrightarrow> json_text v \<noteq> []"
  using json_parse_text [of v] by (auto simp: json_parse_def skip_ws_def)

lemma save_load_handle:
  assumes "save_handle up t0 i h w = (Inr (), w')" and "t < t0 + 86400000"
  shows "load_handle True t i w' = (Inr h, w')"
proof -
  have w': "w' = redis_update (redis_set_ex t0 (handle_key i) (json_text (handle_json h)) HANDLE_TTL_SECONDS) w"
    using assms(1) by (auto simp: save_handle_def act_simps split: if_splits)
  have "redis_get t (handle_key i) (redis w') = Some (json_text (handle_json h))"
    using assms(2) by (simp add: w' HANDLE_TTL_SECONDS_def)
  then show ?thesis
    using json_text_not_empty [OF handle_json_plain] json_parse_text [OF handle_json_plain, of h]
    by (simp add: load_handle_def act_simps truthy_str_def or_else_def handle_round_trip)
qed

text \<open>
  C31: an upload, single-shot or in parts, is initiated only on a version the caller may edit; its S3 key is
  the version's prefix followed by a non-empty path without a parent segment, its row is appended to the
  version with no bytes, and its handle can be loaded for a day.
\<close>

theorem upload_initiated:
  assumes "initiate_upload cfg c up now ids dto u w = (Inr r, w') \<or>
           initiate_multipart cfg c up now ids dto n u w = (Inr r, w')"
  shows "\<exists>v f s3id. version_by (iu_versionId dto) w = Some v \<and> owns_version u v w \<and> v_assetId v = iu_assetId dto \<and>
     in_key r = v_s3Prefix v @ f_relPath f \<and> f_relPath f \<noteq> [] \<and> ''..'' \<notin> set (split_on CHR ''/'' (f_relPath f)) \<and>
     files w' = files w @ [f] \<and> f_s3Key f = in_key r \<and> f_versionId f = v_id v \<and> f_bytes f = 0 \<and>
     (\<forall>t. t < now + 86400000 \<longrightarrow> load_handle True t (in_uploadId r) w' = (Inr (handle_of v f s3id), w'))"
proof -
  from assms obtain v f w1 s3id where b: "begin_upload now ids dto u w = (Inr (v, f), w1)"
    and s: "save_handle up now (upload_id ids) (handle_of v f s3id) w1 = (Inr (), w')"
    and r: "in_uploadId r = upload_id ids" "in_key r = f_s3Key f"
    by (auto simp: initiate_upload_def initiate_multipart_def bnd_eq_Inr_conv)
  have w': "files w' = files w1"
    using s by (auto simp: save_handle_def act_simps split: if_splits)
  show ?thesis
    using begin_upload_run [OF b] save_load_handle [OF s] r w' by (intro exI [of _ v] exI [of _ f] exI [of _ s3id]) auto
qed


definition dto0 :: initiate_upload_dto where
  "dto0 = \<lparr>iu_assetId = ''a'', iu_versionId = ''v'', iu_relativePath = ''/x/y'', iu_contentType = ''t''\<rparr>"

definition ids0 :: upload_ids where
  "ids0 = \<lparr>ui_file = ''f0'', ui_uuid = ''1''\<rparr>"

lemma draft_version0: "version_by ''v'' draft_world = Some version0" "owns_version alice version0 draft_world"
  by (simp_all add: version_by_def owns_version_def can_edit_def)

lemma initiate0:
  "\<exists>r w'. initiate_upload cfg0 client0 True 5 ids0 dto0 alice draft_world = (Inr r, w') \<and> in_uploadId r = ''up_1''"
proof -
  have p: "normalize_path ''/x/y'' = Inr ''x/y''" by code_simp
  show ?thesis
    by (simp add: initiate_upload_def begin_upload_def get_version_or_throw_def with_owned_version_run [OF draft_version0]
        act_simps dto0_def p create_file_row_def Let_def presign_put_def client0_def save_handle_def upload_id_def ids0_def)
qed

theorem upload_initiated_witness:
  "\<exists>r w' h. initiate_upload cfg0 client0 True 5 ids0 dto0 alice draft_world = (Inr r, w') \<and>
     load_handle True 86400004 (in_uploadId r) w' = (Inr h, w')"
proof -
  obtain r w' where i: "initiate_upload cfg0 client0 True 5 ids0 dto0 alice draft_world = (Inr r, w')"
    using initiate0 by (elim exE conjE) (rule that)
  have "initiate_upload cfg0 client0 True 5 ids0 dto0 alice draft_world = (Inr r, w') \<or>
        initiate_multipart cfg0 client0 True 5 ids0 dto0 1 alice draft_world = (Inr r, w')"
    using i by (rule disjI1)
  from upload_initiated [OF this] i show ?thesis by auto
qed

subsection \<open>Completion\<close>

definition counters_exact :: "string \<Rightarrow> world \<Rightarrow> bool" where
  "counters_exact vid w \<longleftrightarrow>
     (\<forall>v \<in> set (versions w). v_id v = vid \<longrightarrow>
        v_bytesTotal v = sum_list (map f_bytes (asset_files vid w)) \<and> v_fileCount v = length (asset_files vid w))"

lemma recount_version_run:
  assumes "recount_version vid w = (Inr r, w')"
  shows "w' = set_version vid (recount vid w) w"
  using assms by (auto simp: recount_version_def act_simps split: option.splits)

lemma recount_exact:
  assumes "recount_version vid w = (Inr r, w')"
  shows "counters_exact vid w' \<and> files w' = files w \<and> redis w' = redis w \<and> jobs w' = jobs w \<and> assets w' = assets w"
proof -
  have w': "w' = set_version vid (recount vid w) w" using assms by (rule recount_version_run)
  have f: "files w' = files w" by (simp add: w')
  then have "asset_files vid w' = asset_files vid w" by (simp add: asset_files_def)
  moreover have "v_bytesTotal v = sum_list (map f_bytes (asset_files vid w)) \<and> v_fileCount v = length (asset_files vid w)"
    if "v \<in> set (versions w')" "v_id v = vid" for v
  proof -
    from that(1) obtain x where "v = (if v_id x = vid then recount vid w x else x)"
      unfolding w' set_version_frame set_set_rows by (elim imageE) (rule that)
    with that(2) show ?thesis by (cases "v_id x = vid") (simp_all add: recount_def)
  qed
  ultimately have "counters_exact vid w'" by (simp add: counters_exact_def)
  then show ?thesis using f by (simp add: w' set_version_def)
qed

lemma counters_exact_cong:
  "versions w' = versions w \<Longrightarrow> files w' = files w \<Longrightarrow> counters_exact vid w' = counters_exact vid w"
  by (simp add: counters_exact_def asset_files_def)

definition counter :: "string \<Rightarrow> redis_map \<Rightarrow> int" where
  "counter vid m = (case m (remaining_key vid) of None \<Rightarrow> 0 | Some e \<Rightarrow> redis_int (re_val e))"

lemma handle_key_not_counter: "handle_key i \<noteq> remaining_key vid"
  by (simp add: handle_key_def remaining_key_def)

text \<open>What a completion leaves behind, whichever way the file was uploaded.\<close>

lemma finish_upload_run:
  assumes "finish_upload up now i fid head w = (Inr r, w')" and "\<forall>e. redis w (remaining_key (f_versionId f)) = Some e \<longrightarrow> re_expires e = None"
    and "file_by fid w = Some f"
  shows "counters_exact (f_versionId f) w' \<and> redis w' (handle_key i) = None \<and>
     counter (f_versionId f) (redis w') = counter (f_versionId f) (redis w) + 1 \<and>
     jobs w' = jobs w @ [\<lparr>jb_id = Some (f_versionId f @ ''__'' @ fid), jb_payload = AnalyzeFileJob (f_versionId f) fid None\<rparr>]"
proof -
  let ?g = "\<lambda>x. x\<lparr>f_bytes := (case head of None \<Rightarrow> 0 | Some (n, _) \<Rightarrow> n),
                     f_mime := (case head of Some (_, Some t) \<Rightarrow> t | _ \<Rightarrow> f_mime x)\<rparr>"
  have fid: "f_id f = fid" using assms(3) by (auto simp: file_by_def dest: find_row_SomeD)
  from assms(1,3) obtain w1 r1 where rc: "recount_version (f_versionId f) (set_file fid ?g w) = (Inr r1, w1)"
    and rest: "bnd (drop_handle up i) (\<lambda>_. enqueue_after_completion up now (?g f)) w1 = (Inr r, w')"
    by (auto simp: finish_upload_def update_file_meta_def Let_def bnd_eq_Inr_conv)
  note ex = recount_exact [OF rc]
  have same: "redis (set_file fid ?g w) = redis w" "jobs (set_file fid ?g w) = jobs w"
    by (simp_all add: set_file_def)
  let ?m = "redis_del [handle_key i] (redis w)"
  from rest ex same have w': "redis w' = snd (redis_incrby now 1 (remaining_key (f_versionId f)) ?m)"
      "versions w' = versions w1" "files w' = files w1"
      "jobs w' = jobs w @ [\<lparr>jb_id = Some (f_versionId f @ ''__'' @ fid), jb_payload = AnalyzeFileJob (f_versionId f) fid None\<rparr>]"
    by (auto simp: drop_handle_def enqueue_after_completion_def act_simps enqueueAnalyzeFile_def fid split: if_splits)
  have "counter (f_versionId f) (redis w') = counter (f_versionId f) (redis w) + 1"
    using assms(2) handle_key_not_counter [of i "f_versionId f"]
    by (auto simp: w' counter_def redis_incrby_def redis_del_def redis_live_def split: option.splits)
  moreover have "redis w' (handle_key i) = None"
    using handle_key_not_counter [of i "f_versionId f"] by (simp add: w' redis_incrby_other)
  ultimately show ?thesis
    using ex counters_exact_cong [of w' w1] w' by simp
qed

lemma load_handle_state: "load_handle up now i w = (r, w') \<Longrightarrow> w' = w"
  by (auto simp: load_handle_def act_simps split: if_splits option.splits)

lemma check_owner_state: "check_owner_of_handle h u w = (r, w') \<Longrightarrow> w' = w"
  by (auto simp: check_owner_of_handle_def get_version_or_throw_def with_owned_version_def act_simps assert_can_edit_def
      split: if_splits option.splits)

lemma bnd_read:
  "(\<And>r t. m s = (r, t) \<Longrightarrow> t = s) \<Longrightarrow>
     bnd m f s = (Inr y, t) \<longleftrightarrow> (\<exists>x. m s = (Inr x, s) \<and> f x s = (Inr y, t))"
  by (cases "m s") (auto simp: bnd_apply split: sum.splits)

lemma complete_upload_split:
  assumes "complete_upload cfg c up now i u w = (Inr r, w')"
  shows "\<exists>h. load_handle up now i w = (Inr h, w) \<and> check_owner_of_handle h u w = (Inr (), w) \<and>
     truthy_str (uh_fileId h) \<and> \<not> uh_multipart h \<and>
     finish_upload up now i (or_else (uh_fileId h) []) (head_object cfg c AssetsBucket (uh_key h)) w = (Inr r, w')"
  using assms
  by (auto simp: complete_upload_def bnd_read [OF load_handle_state] bnd_read [OF check_owner_state] bnd_check
      split: if_splits)

lemma complete_multipart_split:
  assumes "complete_multipart_upload cfg c up now i u w = (Inr r, w')"
  shows "\<exists>h. load_handle up now i w = (Inr h, w) \<and> check_owner_of_handle h u w = (Inr (), w) \<and>
     truthy_str (uh_fileId h) \<and> uh_multipart h \<and>
     finish_upload up now i (or_else (uh_fileId h) []) (head_object cfg c AssetsBucket (uh_key h)) w = (Inr r, w')"
  using assms
  by (auto simp: complete_multipart_upload_def bnd_read [OF load_handle_state] bnd_read [OF check_owner_state]
      bnd_check bnd_apply [of "from_sum _"] split: if_splits sum.splits)

lemma load_dropped: "redis w (handle_key i) = None \<Longrightarrow>
   load_handle True now i w = (Inl (NotFoundDomain FILE_UPLOAD_NOT_FOUND), w)"
  by (simp add: load_handle_def act_simps redis_get_def truthy_str_def)

text \<open>
  C15: a completed upload, single-shot or in parts, leaves the byte and file counters of its version exact,
  adds one to the fan-in counter, queues one analysis of the file and can never be completed again: every
  later completion of the same upload is a 404 and changes nothing.
\<close>

theorem upload_completes_once:
  assumes "complete_upload cfg c True now i u w = (Inr r, w') \<or> complete_multipart_upload cfg c True now i u w = (Inr r, w')"
    and "load_handle True now i w = (Inr h, w)" and "file_by (or_else (uh_fileId h) []) w = Some f"
    and "\<forall>e. redis w (remaining_key (f_versionId f)) = Some e \<longrightarrow> re_expires e = None"
  shows "counters_exact (f_versionId f) w' \<and>
     counter (f_versionId f) (redis w') = counter (f_versionId f) (redis w) + 1 \<and>
     jobs w' = jobs w @ [\<lparr>jb_id = Some (f_versionId f @ ''__'' @ f_id f), jb_payload = AnalyzeFileJob (f_versionId f) (f_id f) None\<rparr>] \<and>
     complete_upload cfg c True t i u' w' = (Inl (NotFoundDomain FILE_UPLOAD_NOT_FOUND), w') \<and>
     complete_multipart_upload cfg c True t i u' w' = (Inl (NotFoundDomain FILE_UPLOAD_NOT_FOUND), w')"
proof -
  have fid: "f_id f = or_else (uh_fileId h) []" using assms(3) by (auto simp: file_by_def dest: find_row_SomeD)
  have "finish_upload True now i (or_else (uh_fileId h) []) (head_object cfg c AssetsBucket (uh_key h)) w = (Inr r, w')"
    using assms(1,2) complete_upload_split [of cfg c True now i u w r w'] complete_multipart_split [of cfg c True now i u w r w']
    by auto
  note fin = finish_upload_run [OF this assms(4,3)]
  then have gone: "load_handle True t i w' = (Inl (NotFoundDomain FILE_UPLOAD_NOT_FOUND), w')" by (simp add: load_dropped)
  show ?thesis using fin
    by (simp add: complete_upload_def complete_multipart_upload_def bnd_apply gone fid)
qed


definition done_handle :: upload_handle where
  "done_handle = \<lparr>uh_fileId = Some ''f0'', uh_versionId = Some ''v'', uh_assetId = Some ''a'', uh_key = ''k'',
     uh_role = ''assets'', uh_s3UploadId = None, uh_multipart = False\<rparr>"

definition file0 :: file_row where
  "file0 = \<lparr>f_id = ''f0'', f_versionId = ''v'', f_s3Key = ''k'', f_relPath = ''x'', f_bytes = 0, f_mime = ''t'',
     f_kind = OTHER_KIND, f_sortOrder = 0, f_meta = None, f_createdAt = 0\<rparr>"

definition upload_world :: world where
  "upload_world = draft_world\<lparr>files := [file0],
     redis := [handle_key ''up'' \<mapsto> \<lparr>re_val = RText (json_text (handle_json done_handle)), re_expires = None\<rparr>]\<rparr>"

lemma upload_world_handle: "load_handle True now ''up'' upload_world = (Inr done_handle, upload_world)"
  using json_text_not_empty [OF handle_json_plain] json_parse_text [OF handle_json_plain, of done_handle]
  by (simp add: load_handle_def act_simps truthy_str_def or_else_def handle_round_trip redis_get_def upload_world_def
      redis_live_def)

lemma upload_world_simps [simp]:
  "versions upload_world = [version0]" "assets upload_world = [asset0]" "files upload_world = [file0]"
  by (simp_all add: upload_world_def)

lemma complete0: "\<exists>w'. complete_upload cfg0 client0 True 5 ''up'' alice upload_world = (Inr (), w')"
proof -
  have h: "truthy_str (uh_fileId done_handle)" "\<not> uh_multipart done_handle" "or_else (uh_fileId done_handle) [] = ''f0''"
    "truthy_opt (uh_versionId done_handle) = Some ''v''"
    by (simp_all add: done_handle_def truthy_str_def or_else_def truthy_opt_def)
  have v: "version_by ''v'' upload_world = Some version0" "owns_version alice version0 upload_world"
    by (simp_all add: version_by_def owns_version_def asset_by_def can_edit_def)
  have f: "file_by ''f0'' upload_world = Some file0" "f_versionId file0 = ''v''" and q: "\<not> queue_down upload_world"
    by (simp_all add: file_by_def file0_def upload_world_def)
  have "\<exists>w'. finish_upload True 5 ''up'' ''f0'' x upload_world = (Inr (), w')" for x
    by (simp add: finish_upload_def update_file_meta_def Let_def act_simps f recount_version_def version_by_def
        set_file_def drop_handle_def enqueue_after_completion_def enqueueAnalyzeFile_def q)
  then show ?thesis
    by (simp add: complete_upload_def upload_world_handle h bnd_check check_owner_of_handle_def
        get_version_or_throw_def bnd_apply with_owned_version_run [OF v])
qed

theorem upload_completes_once_witness:
  "\<exists>w'. complete_upload cfg0 client0 True 5 ''up'' alice upload_world = (Inr (), w') \<and> counters_exact ''v'' w' \<and>
     complete_upload cfg0 client0 True 6 ''up'' alice w' = (Inl (NotFoundDomain FILE_UPLOAD_NOT_FOUND), w')"
proof -
  obtain w' where c: "complete_upload cfg0 client0 True 5 ''up'' alice upload_world = (Inr (), w')"
    using complete0 by (elim exE) (rule that)
  have f: "file_by (or_else (uh_fileId done_handle) []) upload_world = Some file0"
    by (simp add: file_by_def file0_def done_handle_def or_else_def)
  have e: "\<forall>e. redis upload_world (remaining_key (f_versionId file0)) = Some e \<longrightarrow> re_expires e = None"
    using handle_key_not_counter [of "''up''" "f_versionId file0"] by (simp add: upload_world_def)
  have v: "f_versionId file0 = ''v''" by (simp add: file0_def)
  from upload_completes_once [OF disjI1 [OF c] upload_world_handle f e, of 6 alice] show ?thesis
    unfolding v using c by (intro exI [of _ w']) simp
qed

subsection \<open>Deletion keeps the counters\<close>

text \<open>
  The owner's deletion of a file succeeds whatever S3 answers: its row is gone, every other row is still
  there and the counters of the version are exact.
\<close>

theorem delete_file_exact:
  assumes "file_by fid w = Some f" and "version_by (f_versionId f) w = Some v" and "owns_version u v w"
  shows "\<exists>w'. delete_file cfg c fid u w = (Inr (), w') \<and> file_by fid w' = None \<and> counters_exact (f_versionId f) w' \<and>
     (\<forall>x \<in> set (files w). f_id x \<noteq> fid \<longrightarrow> x \<in> set (files w'))"
proof -
  obtain a where a: "asset_by (v_assetId v) w = Some a" "can_edit a u"
    using assms(3) by (auto simp: owns_version_def split: option.splits)
  let ?s = "snd (delete_object cfg c AssetsBucket (f_s3Key f) w)"
  let ?d = "files_update (drop_rows (\<lambda>x. f_id x = fid)) ?s"
  have s: "files ?s = files w" "versions ?s = versions w"
    by (simp_all add: delete_object_def act_simps split: sum.splits)
  then have "version_by (f_versionId f) ?d = Some v" using assms(2) by (simp add: version_by_def)
  then obtain w' where r: "recount_version (f_versionId f) ?d = (Inr (), w')"
    by (simp add: recount_version_def act_simps)
  have "delete_file cfg c fid u w = recount_version (f_versionId f) ?d"
    by (simp add: delete_file_def act_simps assms(1,2) a assert_can_edit_def swallow_def)
  with r recount_exact [OF r] show ?thesis
    by (auto simp: s file_by_def find_row_None_iff set_drop_rows)
qed

theorem delete_file_exact_witness:
  "\<exists>w'. delete_file cfg0 client0 ''f0'' alice upload_world = (Inr (), w') \<and> counters_exact ''v'' w' \<and> file_by ''f0'' w' = None"
proof -
  have f: "file_by ''f0'' upload_world = Some file0" "f_versionId file0 = ''v''" by (simp_all add: file_by_def file0_def)
  have v: "version_by (f_versionId file0) upload_world = Some version0" "owns_version alice version0 upload_world"
    by (simp_all add: version_by_def owns_version_def asset_by_def can_edit_def f)
  from delete_file_exact [OF f(1) v] show ?thesis unfolding f(2) by blast
qed

subsection \<open>Reordering\<close>

text \<open>The order in which the detail of an asset shows the files.\<close>

definition shown_files :: "string \<Rightarrow> world \<Rightarrow> file_row list" where
  "shown_files vid w = sort_key (\<lambda>f. (f_sortOrder f, f_createdAt f)) (asset_files vid w)"

lemma takeWhile_rev_nth:
  assumes "distinct xs" and "k < length xs"
  shows "length (takeWhile (\<lambda>x. x \<noteq> xs ! k) (rev xs)) = length xs - 1 - k"
proof -
  have split: "rev xs = rev (drop (Suc k) xs) @ xs ! k # rev (take k xs)"
    using assms(2) by (metis append.assoc append_Cons append_Nil id_take_nth_drop rev.simps(2) rev_append)
  have "xs ! k \<notin> set (drop (Suc k) xs)"
    using assms by (metis Cons_nth_drop_Suc distinct.simps(2) distinct_drop)
  then have "takeWhile (\<lambda>x. x \<noteq> xs ! k) (rev xs) = rev (drop (Suc k) xs)"
    unfolding split by (subst takeWhile_append2) auto
  then show ?thesis by simp
qed

lemma file_rank_nth: "distinct ordered \<Longrightarrow> k < length ordered \<Longrightarrow> file_rank ordered (ordered ! k) = int k"
  by (simp add: file_rank_def takeWhile_rev_nth)

lemma file_rank_map: "distinct ordered \<Longrightarrow> map (file_rank ordered) ordered = map int [0..<length ordered]"
  by (rule nth_equalityI) (simp_all add: file_rank_nth)

lemma file_rank_inj: "distinct ordered \<Longrightarrow> inj_on (file_rank ordered) (set ordered)"
  by (rule inj_onI) (metis file_rank_nth in_set_conv_nth of_nat_eq_iff)

lemma file_rank_less_iff:
  assumes "distinct ordered"
  shows "file_rank ordered i < int (length ordered) \<longleftrightarrow> i \<in> set ordered"
proof (cases "i \<in> set ordered")
  case True
  then obtain k where "k < length ordered" "i = ordered ! k" by (metis in_set_conv_nth)
  then show ?thesis using True file_rank_nth [OF assms] by simp
next
  case False
  then show ?thesis by (simp add: file_rank_def)
qed

lemma file_rank_le: "file_rank ordered i \<le> int (length ordered)"
  by (auto simp: file_rank_def)

lemma sorted_split:
  "sorted (map k xs) \<Longrightarrow> (\<And>x y. k x \<le> k y \<Longrightarrow> P y \<Longrightarrow> P x) \<Longrightarrow> xs = filter P xs @ filter (\<lambda>x. \<not> P x) xs"
proof (induction xs)
  case (Cons x xs)
  show ?case
  proof (cases "P x")
    case True
    then show ?thesis using Cons by simp
  next
    case False
    then have "\<forall>y \<in> set xs. \<not> P y" using Cons.prems by auto
    then show ?thesis using False by (simp add: filter_empty_conv)
  qed
qed simp

lemma ranked_ids_unique:
  assumes "distinct ordered" and "distinct ids" and "set ids = set ordered"
    and "sorted (map (file_rank ordered) ids)"
  shows "ids = ordered"
proof -
  have d: "distinct (map (file_rank ordered) ids)" "distinct (map (file_rank ordered) ordered)"
    using assms(1-3) file_rank_inj [OF assms(1)] by (simp_all add: distinct_map)
  have s: "sorted (map (file_rank ordered) ordered)"
    unfolding file_rank_map [OF assms(1)] by (simp add: sorted_map sorted_wrt_upt)
  have "map (file_rank ordered) ids = map (file_rank ordered) ordered"
    by (rule sorted_distinct_set_unique [OF assms(4) d(1) s d(2)]) (simp add: assms(3))
  then show ?thesis
    using file_rank_inj [OF assms(1)] assms(3) by (simp add: map_inj_on)
qed


lemma filter_set_rows: "(\<And>x. P (g x) = P x) \<Longrightarrow> filter P (set_rows P g xs) = map g (filter P xs)"
  by (induction xs) auto

lemma asset_files_set_rows:
  "(\<And>f. f_versionId (g f) = f_versionId f) \<Longrightarrow> files w' = set_rows (\<lambda>f. f_versionId f = vid) g (files w) \<Longrightarrow>
     asset_files vid w' = map g (asset_files vid w)"
  by (simp add: asset_files_def filter_set_rows)

lemma ranked_files_split:
  assumes "distinct ordered" and "sorted (map (\<lambda>f. (f_sortOrder f, f_createdAt f)) fs)"
    and "\<forall>f \<in> set fs. f_sortOrder f = file_rank ordered (f_id f)"
    and "distinct (map f_id fs)" and "set ordered \<subseteq> f_id ` set fs"
  shows "\<exists>listed rest. fs = listed @ rest \<and> map f_id listed = ordered \<and>
     f_id ` set rest = f_id ` set fs - set ordered \<and> sorted (map f_createdAt rest)"
proof -
  let ?k = "\<lambda>f. (f_sortOrder f, f_createdAt f)"
  obtain l r where l: "l = filter (\<lambda>f. f_sortOrder f < int (length ordered)) fs"
    and r: "r = filter (\<lambda>f. \<not> f_sortOrder f < int (length ordered)) fs" by blast
  have fs: "fs = l @ r" unfolding l r by (rule sorted_split [OF assms(2)]) auto
  have in_l: "f \<in> set l \<longleftrightarrow> f \<in> set fs \<and> f_id f \<in> set ordered" for f
    using assms(3) file_rank_less_iff [OF assms(1)] by (auto simp: l)
  have in_r: "f \<in> set r \<longleftrightarrow> f \<in> set fs \<and> f_id f \<notin> set ordered" for f
    using assms(3) file_rank_less_iff [OF assms(1)] by (auto simp: r)
  have ks: "sorted (map ?k l)" "sorted (map ?k r)" using assms(2) unfolding fs by (simp_all add: sorted_append)
  have "map f_id l = ordered"
  proof (rule ranked_ids_unique [OF assms(1)])
    show "distinct (map f_id l)" using assms(4) unfolding fs by simp
    show "set (map f_id l) = set ordered" using assms(5) in_l by auto
    have "map (file_rank ordered) (map f_id l) = map f_sortOrder l" using assms(3) in_l by simp
    moreover have "sorted (map f_sortOrder l)" using ks(1) by (simp add: sorted_map) (erule sorted_wrt_mono_rel [rotated], auto)
    ultimately show "sorted (map (file_rank ordered) (map f_id l))" by (simp only:)
  qed
  moreover have "sorted (map f_createdAt r)"
  proof -
    have same: "f_sortOrder f = int (length ordered)" if "f \<in> set r" for f
      using that in_r [of f] assms(3) by (simp add: file_rank_def)
    show ?thesis using ks(2) unfolding sorted_map
      by (rule sorted_wrt_mono_rel [rotated]) (auto simp: same)
  qed
  moreover have "f_id ` set r = f_id ` set fs - set ordered" using in_r by auto
  ultimately show ?thesis using fs by blast
qed

text \<open>
  After a reorder the listed files come first, exactly in the order given; the files that were left out
  follow, all of them, by their creation time.
\<close>

theorem reorder_files_order:
  assumes "reorder_files vid ordered u w = (Inr r, w')" and "distinct ordered"
    and "distinct (map f_id (asset_files vid w))" and "set ordered \<subseteq> f_id ` set (asset_files vid w)"
  shows "\<exists>listed rest. shown_files vid w' = listed @ rest \<and> map f_id listed = ordered \<and>
     f_id ` set rest = f_id ` set (asset_files vid w) - set ordered \<and> sorted (map f_createdAt rest)"
proof -
  let ?g = "\<lambda>f :: file_row. f\<lparr>f_sortOrder := file_rank ordered (f_id f)\<rparr>"
  let ?k = "\<lambda>f :: file_row. (f_sortOrder f, f_createdAt f)"
  let ?fs = "shown_files vid w'"
  obtain v where "version_by vid w = Some v" and "w' = files_update (set_rows (\<lambda>f. f_versionId f = v_id v) ?g) w"
    using assms(1) with_owned_version_effect [of vid u ret w]
    by (auto simp: reorder_files_def get_version_or_throw_def bnd_eq_Inr_conv)
  then have "files w' = set_rows (\<lambda>f. f_versionId f = vid) ?g (files w)" using version_byD by fastforce
  then have af: "asset_files vid w' = map ?g (asset_files vid w)" by (intro asset_files_set_rows) simp_all
  have ids: "f_id ` set ?fs = f_id ` set (asset_files vid w)" by (simp add: shown_files_def af image_image)
  have "\<exists>listed rest. ?fs = listed @ rest \<and> map f_id listed = ordered \<and>
     f_id ` set rest = f_id ` set ?fs - set ordered \<and> sorted (map f_createdAt rest)"
  proof (rule ranked_files_split [OF assms(2)])
    show "sorted (map ?k ?fs)" by (simp add: shown_files_def)
    show "\<forall>f \<in> set ?fs. f_sortOrder f = file_rank ordered (f_id f)" by (auto simp: shown_files_def af)
    show "distinct (map f_id ?fs)"
      unfolding shown_files_def distinct_map_sort_key af using assms(3) by (simp add: comp_def)
    show "set ordered \<subseteq> f_id ` set ?fs" using assms(4) ids by simp
  qed
  then show ?thesis unfolding ids .
qed


definition abc_world :: world where
  "abc_world = draft_world\<lparr>files :=
     [file0\<lparr>f_id := ''a'', f_sortOrder := 2, f_createdAt := 1\<rparr>, file0\<lparr>f_id := ''b'', f_sortOrder := 1, f_createdAt := 2\<rparr>,
      file0\<lparr>f_id := ''c'', f_sortOrder := 0, f_createdAt := 3\<rparr>]\<rparr>"

lemma f_versionId_file0 [simp]: "f_versionId file0 = ''v''"
  by (simp add: file0_def)

lemma abc_version: "version_by ''v'' abc_world = Some version0" "owns_version alice version0 abc_world"
  by (simp_all add: abc_world_def version_by_def owns_version_def asset_by_def can_edit_def)

lemma abc_reorder:
  "reorder_files ''v'' ids alice abc_world = (Inr (), files_update (set_rows (\<lambda>f. f_versionId f = ''v'')
     (\<lambda>f. f\<lparr>f_sortOrder := file_rank ids (f_id f)\<rparr>)) abc_world)"
  by (simp add: reorder_files_def get_version_or_throw_def bnd_apply with_owned_version_run [OF abc_version])

lemma abc_files: "asset_files ''v'' abc_world = files abc_world"
  by (simp add: asset_files_def abc_world_def)

theorem reorder_files_order_witness:
  "\<exists>w' listed rest. reorder_files ''v'' [''b'', ''a''] alice abc_world = (Inr (), w') \<and>
     shown_files ''v'' w' = listed @ rest \<and> map f_id listed = [''b'', ''a'']"
proof -
  obtain w' where r: "reorder_files ''v'' [''b'', ''a''] alice abc_world = (Inr (), w')"
    by (simp add: abc_reorder)
  have "map f_id (asset_files ''v'' abc_world) = [''a'', ''b'', ''c'']" unfolding abc_files by (simp add: abc_world_def)
  then have d: "distinct (map f_id (asset_files ''v'' abc_world))"
    and s: "set [''b'', ''a''] \<subseteq> f_id ` set (asset_files ''v'' abc_world)"
    by (simp, metis (no_types) list.set_intros(1) list.set_intros(2) set_map empty_subsetI insert_subset list.simps(15) set_empty2)
  from reorder_files_order [OF r _ d s] r show ?thesis by (intro exI [of _ w']) auto
qed

text \<open>
  A reorder that lists only some files does not keep the relative order of the others: shown as c, b, a
  before, the files b and a come back as a, b when only c is listed.
\<close>

theorem reorder_partial_loses_order:
  "\<exists>w'. reorder_files ''v'' [''c''] alice abc_world = (Inr (), w') \<and>
     map f_id (shown_files ''v'' abc_world) = [''c'', ''b'', ''a''] \<and>
     map f_id (shown_files ''v'' w') = [''c'', ''a'', ''b'']"
  by (simp add: abc_reorder) (simp add: shown_files_def asset_files_def abc_world_def file_rank_def)

subsection \<open>Thumbnails\<close>

text \<open>
  An asset's thumbnail is only ever set, by its owner or an admin, to a key under the asset's own prefix,
  and the variants of that very key are queued, if the queue answers.
\<close>

theorem thumbnail_confined:
  assumes "complete_thumbnail now key i u w = (r, w')" and "w' \<noteq> w"
  shows "\<exists>a rest. asset_by i w = Some a \<and> can_edit a u \<and> key = ''thumbs/'' @ i @ ''/'' @ rest \<and>
     asset_by i w' = Some (a\<lparr>a_thumbnailKey := Some key, a_updatedAt := now\<rparr>) \<and>
     jobs w' = jobs w @ (if queue_down w then [] else [\<lparr>jb_id = Some (sanitize_colons key), jb_payload = ThumbnailVariantsJob i key\<rparr>])"
proof -
  let ?v = "set_asset i (\<lambda>a. a\<lparr>a_thumbnailKey := Some key, a_updatedAt := now\<rparr>) w"
  obtain a where a: "asset_by i w = Some a" "can_edit a u"
    and s: "starts_with (thumbs_prefix i) key"
    and w': "w' = (if queue_down w then ?v
      else jobs_update (\<lambda>js. js @ [\<lparr>jb_id = Some (sanitize_colons key), jb_payload = ThumbnailVariantsJob i key\<rparr>]) ?v)"
    using assms by (auto simp: complete_thumbnail_def with_owned_asset_def assert_can_edit_def act_simps
        enqueueThumbnailVariants_def split: option.splits if_splits)
  have "key = thumbs_prefix i @ drop (length (thumbs_prefix i)) key"
    using s by (metis append_take_drop_id starts_with_def)
  then have "key = ''thumbs/'' @ i @ ''/'' @ drop (length (thumbs_prefix i)) key" by (simp add: thumbs_prefix_def)
  moreover have "asset_by i w' = asset_by i (set_asset i (\<lambda>a. a\<lparr>a_thumbnailKey := Some key, a_updatedAt := now\<rparr>) w)"
    by (simp add: w' asset_by_def)
  ultimately show ?thesis using a by (auto simp: asset_by_set_asset w')
qed

theorem thumbnail_confined_witness:
  "\<exists>w'. complete_thumbnail 5 ''thumbs/a/k'' ''a'' alice draft_world = (Inr (), w') \<and>
     asset_by ''a'' w' = Some (asset0\<lparr>a_thumbnailKey := Some ''thumbs/a/k'', a_updatedAt := 5\<rparr>)"
proof -
  obtain w' where c: "complete_thumbnail 5 ''thumbs/a/k'' ''a'' alice draft_world = (Inr (), w')"
    and j: "jobs w' \<noteq> jobs draft_world"
    by (simp add: complete_thumbnail_def with_owned_asset_def assert_can_edit_def act_simps can_edit_def
        starts_with_def thumbs_prefix_def enqueueThumbnailVariants_def)
  from j have "w' \<noteq> draft_world" by (rule contrapos_nn) simp
  from thumbnail_confined [OF c this] c show ?thesis by (intro exI [of _ w']) simp
qed

subsection \<open>An upload that was only begun\<close>

text \<open>
  A version whose only upload was begun and never completed, so that it has no bytes, can be published.
\<close>

theorem begun_upload_publishes:
  assumes "begin_upload now ids dto u w = (Inr (v, f), w1)" and "versions_ok w" and "\<not> queue_down w"
  shows "\<exists>w2. publish_version t (v_id v) u w1 = (Inr (), w2) \<and> f_bytes f = 0 \<and>
     version_by (v_id v) w2 = Some (v\<lparr>v_isLatest := True, v_publishedAt := Some t\<rparr>)"
proof -
  note b = begin_upload_run [OF assms(1)]
  then have w1: "w1 = files_update (\<lambda>fs. fs @ [f]) w" and f: "f_versionId f = v_id v" by simp_all
  have vid: "iu_versionId dto = v_id v" using b version_byD [of "iu_versionId dto" w v] by simp
  have v: "version_by (v_id v) w1 = Some v" "owns_version u v w1"
  proof -
    have "version_by (v_id v) w = Some v" "owns_version u v w" using b vid by simp_all
    then show "version_by (v_id v) w1 = Some v" "owns_version u v w1"
      by (simp_all add: w1 version_by_def owns_version_def asset_by_def)
  qed
  have ne: "asset_files (v_id v) w1 \<noteq> []" and q: "\<not> queue_down w1" using assms(3) by (simp_all add: w1 asset_files_def f)
  obtain w2 where p: "publish_version t (v_id v) u w1 = (Inr (), w2)"
    using publish_version_guard.allowed [OF v] ne q
    by (simp add: publish_version_body_def act_simps enqueueSearchIndex_def)
  have "versions_ok w1" using assms(2) by (simp add: w1 versions_ok_def)
  from publish_version_effect [OF p this] v(1) b p show ?thesis by auto
qed


theorem begun_upload_publishes_witness:
  "\<exists>f w1 w2. begin_upload 5 ids0 dto0 alice draft_world = (Inr (version0, f), w1) \<and>
     publish_version 6 ''v'' alice w1 = (Inr (), w2)"
proof -
  have p: "normalize_path ''/x/y'' = Inr ''x/y''" by code_simp
  obtain f w1 where b: "begin_upload 5 ids0 dto0 alice draft_world = (Inr (version0, f), w1)"
    by (simp add: begin_upload_def get_version_or_throw_def with_owned_version_run [OF draft_version0]
        act_simps dto0_def p create_file_row_def Let_def)
  have "versions_ok draft_world" by (simp add: versions_ok_def)
  from begun_upload_publishes [OF b this draft_world_simps(5), of 6] b show ?thesis by auto
qed

end
