(* ===== verification/Comments.thy ===== *)
theory Comments
  imports Files
begin

section \<open>Comment threads\<close>

text \<open>
  \<open>src/modules/comments/comments.service.ts\<close> and \<open>src/common/avatar/avatar.ts\<close>: comments and issues on an
  asset, nested at most five deep.  A listing is a page of top-level rows; their live descendants are read by
  a recursive query (\<open>subtree\<close>, at most five hops) and stitched into trees (\<open>build_node\<close>; its fuel, five and the
  number of rows, bounds the depth of a thread, and \<open>thread_complete\<close> shows that no row is lost to it).

  The invariant \<open>comments_ok\<close> is what the service keeps: a reply lies one deeper than its parent on the same
  asset, nothing is deeper than four, and exactly the top-level issues have a status.
  Text is cut by bytes, which is what the code does for ASCII text.
\<close>

definition MAX_DEPTH :: nat where "MAX_DEPTH = 5"

definition COMMENT_PAGE_SIZE :: int where "COMMENT_PAGE_SIZE = 25"

definition comment_by :: "string \<Rightarrow> world \<Rightarrow> comment_row option" where
  "comment_by i w = find_row cm_id i (comments w)"

definition set_comment :: "string \<Rightarrow> (comment_row \<Rightarrow> comment_row) \<Rightarrow> world \<Rightarrow> world" where
  "set_comment i f = comments_update (set_rows (\<lambda>c. cm_id c = i) f)"

subsection \<open>Avatars\<close>

definition name_separator :: "char \<Rightarrow> bool" where
  "name_separator c \<longleftrightarrow> is_blank c \<or> c = CHR ''.'' \<or> c = CHR ''_'' \<or> c = CHR ''-''"

fun words :: "string \<Rightarrow> string list" where
  "words [] = [[]]"
| "words (c # s) =
     (if name_separator c then [] # words s
      else (case words s of [] \<Rightarrow> [[c]] | p # ps \<Rightarrow> (c # p) # ps))"

definition upper_char :: "char \<Rightarrow> char" where
  "upper_char c = (let n = of_char c :: nat in if 97 \<le> n \<and> n \<le> 122 then char_of (n - 32) else c)"

definition compute_initials :: "string option \<Rightarrow> string \<Rightarrow> string" where
  "compute_initials displayName email =
     (let name = trim (or_else displayName []);
          source = (if name \<noteq> [] then name else takeWhile (\<lambda>c. c \<noteq> CHR ''@'') email);
          parts = filter (\<lambda>p. p \<noteq> []) (words source)
      in (case parts of
            [] \<Rightarrow> ''?''
          | [p] \<Rightarrow> map upper_char (take 2 p)
          | p # _ \<Rightarrow> map upper_char [hd p, hd (last parts)]))"

definition avatar_palette :: "(string \<times> string) list" where
  "avatar_palette = [(''brand-blue'', ''ink-white''), (''brand-yellow'', ''ink-black''),
     (''brand-red'', ''ink-white''), (''brand-green'', ''ink-black'')]"

text \<open>\<open>digest0\<close> is the first byte of the SHA-256 digest of a text.\<close>

definition resolve_avatar :: "(string \<Rightarrow> nat) \<Rightarrow> string \<Rightarrow> string option \<Rightarrow> string \<Rightarrow> string \<times> string \<times> string" where
  "resolve_avatar digest0 userId displayName email =
     (compute_initials displayName email, avatar_palette ! (digest0 userId mod length avatar_palette))"

subsection \<open>Listing\<close>

text \<open>The recursive query: \<open>n\<close> hops are left below the rows with these ids.\<close>

fun subtree :: "nat \<Rightarrow> string list \<Rightarrow> world \<Rightarrow> comment_row list" where
  "subtree 0 ids w = []"
| "subtree (Suc n) ids w =
     (let level = filter (\<lambda>c. (\<exists>p \<in> set ids. cm_parentId c = Some p) \<and> cm_deletedAt c = None) (comments w)
      in level @ subtree n (map cm_id level) w)"

definition fetch_subtree :: "string list \<Rightarrow> world \<Rightarrow> comment_row list" where
  "fetch_subtree ids w = (if ids = [] then [] else sort_key cm_createdAt (subtree MAX_DEPTH ids w))"

datatype comment_tree = CommentNode comment_row "comment_tree list"

fun build_node :: "nat \<Rightarrow> comment_row list \<Rightarrow> comment_row \<Rightarrow> comment_tree" where
  "build_node 0 rows row = CommentNode row []"
| "build_node (Suc n) rows row =
     CommentNode row (map (build_node n rows) (filter (\<lambda>c. cm_parentId c = Some (cm_id row)) rows))"

definition to_tree :: "comment_row \<Rightarrow> comment_row list \<Rightarrow> comment_tree" where
  "to_tree t rows = build_node (MAX_DEPTH + length rows) (t # rows) t"

text \<open>The author block of a node: the user that the query joins in.\<close>

definition comment_author :: "(string \<Rightarrow> nat) \<Rightarrow> world \<Rightarrow> comment_row \<Rightarrow> string \<times> string \<times> string \<times> string" where
  "comment_author digest0 w c =
     (let author = user_by (cm_authorId c) w; name = map_option u_name author
      in (or_else name ''(unknown)'',
          resolve_avatar digest0 (cm_authorId c) name (case author of None \<Rightarrow> [] | Some u \<Rightarrow> u_email u)))"

record list_comments_query =
  lcq_cursor :: "string option"
  lcq_kind :: "comment_kind option"
  lcq_limit :: "int option"

definition top_comments :: "(string \<times> comment_kind option) \<times> world \<Rightarrow> comment_row list" where
  "top_comments =
     (\<lambda>((assetId, kind), w). order_desc cm_createdAt (filter (\<lambda>c. cm_assetId c = assetId \<and> cm_parentId c = None \<and>
        cm_deletedAt c = None \<and> (case kind of None \<Rightarrow> True | Some k \<Rightarrow> cm_kind c = k)) (comments w)))"

definition comment_cursor :: "comment_row \<Rightarrow> cursor" where
  "comment_cursor c = \<lparr>cur_createdAt = iso_string (cm_createdAt c), cur_id = cm_id c\<rparr>"

definition list_comments :: "string \<Rightarrow> list_comments_query \<Rightarrow> world \<Rightarrow> app_error + comment_tree page" where
  "list_comments assetId query w =
     sum_bind (list_page cm_id comment_cursor (clamp_page_size COMMENT_PAGE_SIZE 100 (lcq_limit query))
                 (lcq_cursor query) (top_comments ((assetId, lcq_kind query), w))) (\<lambda>p.
     (let rows = fetch_subtree (map cm_id (pg_items p)) w
      in Inr \<lparr>pg_items = map (\<lambda>t. to_tree t rows) (pg_items p), pg_nextCursor = pg_nextCursor p,
              pg_hasMore = pg_hasMore p\<rparr>))"

interpretation comment_pages: paged_listing cm_id comment_cursor top_comments
    "\<lambda>(_, w). distinct (map cm_id (comments w))"
  by unfold_locales (auto simp: top_comments_def comment_cursor_def)

subsection \<open>Writing\<close>

record create_comment =
  cc_kind :: comment_kind
  cc_parentId :: "string option"
  cc_body :: json

lemma size_content_less: "size (JArr cs) < n \<Longrightarrow> x \<in> set cs \<Longrightarrow> size x < n"
  using size_list_estimation' [of x cs "size x" size] by simp

function texts_of :: "json \<Rightarrow> string list" where
  "texts_of v =
     (case v of
        JObj fs \<Rightarrow>
          (case map_of fs ''text'' of Some (JStr s) \<Rightarrow> [s] | _ \<Rightarrow> []) @
          (case map_of fs ''content'' of Some (JArr cs) \<Rightarrow> concat (map texts_of cs) | _ \<Rightarrow> [])
      | _ \<Rightarrow> [])"
  by pat_completeness auto
termination
  by (relation "measure size")
    (auto dest!: size_map_of simp: size_list_estimation' less_trans dest: size_content_less)

declare texts_of.simps [simp del]

definition excerpt :: "json \<Rightarrow> string" where
  "excerpt doc = take 140 (join_with '' '' (texts_of doc))"

definition comment_payload :: "asset_row \<Rightarrow> string \<Rightarrow> user_row \<Rightarrow> json \<Rightarrow> (string \<times> json) list" where
  "comment_payload a commentId author body =
     asset_ref_fields a @ [(''commentId'', JStr commentId), (''commentExcerpt'', JStr (excerpt body)),
       (''author'', user_ref_json author)]"

definition parent_depth :: "string \<Rightarrow> string option \<Rightarrow> nat handler" where
  "parent_depth assetId parentId =
     (case truthy_opt parentId of
        None \<Rightarrow> ret 0
      | Some p \<Rightarrow>
          bnd (gets (comment_by p)) (\<lambda>row.
          bnd (check (case row of None \<Rightarrow> False | Some c \<Rightarrow> cm_assetId c = assetId) (NotFoundDomain COMMENT_NOT_FOUND)) (\<lambda>_.
          (let depth = (case row of None \<Rightarrow> 0 | Some c \<Rightarrow> cm_depth c + 1)
           in bnd (check (depth < MAX_DEPTH) (BadRequest COMMENT_DEPTH_EXCEEDED)) (\<lambda>_. ret depth)))))"

definition notify_comment :: "asset_row \<Rightarrow> string \<Rightarrow> create_comment \<Rightarrow> comment_kind \<Rightarrow> json \<Rightarrow> user_row \<Rightarrow> unit handler" where
  "notify_comment a i dto kind body author =
     (case truthy_opt (cc_parentId dto) of
        Some p \<Rightarrow>
          bnd (gets (comment_by p)) (\<lambda>parent.
          case parent of
            None \<Rightarrow> ret ()
          | Some c \<Rightarrow>
              if cm_authorId c \<noteq> u_id author
              then enqueueNotify (notify_of (cm_authorId c) COMMENT_REPLY
                     (comment_payload a i author body @ [(''parentCommentId'', JStr p)]) author)
              else ret ())
      | None \<Rightarrow>
          if a_ownerId a \<noteq> u_id author
          then enqueueNotify (notify_of (a_ownerId a) (if kind = ISSUE then ISSUE_CREATED else COMMENT_CREATED)
                 (comment_payload a i author body) author)
          else ret ())"

definition create_comment_row :: "int \<Rightarrow> string \<Rightarrow> string \<Rightarrow> create_comment \<Rightarrow> user_row \<Rightarrow> string handler" where
  "create_comment_row now i assetId dto author =
     bnd (fetch (asset_by assetId) (NotFoundDomain ASSET_NOT_FOUND)) (\<lambda>a.
     bnd (from_sum (validate_lite_tiptap (cc_body dto))) (\<lambda>body.
     bnd (parent_depth assetId (cc_parentId dto)) (\<lambda>depth.
     (let kind = (if truthy_str (cc_parentId dto) then COMMENT else cc_kind dto)
      in bnd (check (cc_parentId dto \<noteq> Some []) (OtherError (ForeignKeyViolation ''comments.parentId''))) (\<lambda>_.
         bnd (upd (comments_update (\<lambda>cs. cs @
                [\<lparr>cm_id = i, cm_assetId = assetId, cm_authorId = u_id author, cm_parentId = cc_parentId dto,
                  cm_kind = kind, cm_body = body, cm_status = (if kind = ISSUE then Some OPEN else None),
                  cm_depth = depth, cm_editedAt = None, cm_deletedAt = None, cm_createdAt = now\<rparr>]))) (\<lambda>_.
         bnd (notify_comment a i dto kind body author) (\<lambda>_. ret i)))))))"

definition edit_comment :: "int \<Rightarrow> string \<Rightarrow> json \<Rightarrow> user_row \<Rightarrow> unit handler" where
  "edit_comment now i body editor =
     bnd (gets (comment_by i)) (\<lambda>row.
     bnd (check (case row of None \<Rightarrow> False | Some c \<Rightarrow> cm_deletedAt c = None) (NotFoundDomain COMMENT_NOT_FOUND)) (\<lambda>_.
     bnd (check (case row of None \<Rightarrow> False | Some c \<Rightarrow> cm_authorId c = u_id editor) (ForbiddenDomain AUTH_FORBIDDEN)) (\<lambda>_.
     bnd (from_sum (validate_lite_tiptap body)) (\<lambda>doc.
     upd (set_comment i (\<lambda>c. c\<lparr>cm_body := doc, cm_editedAt := Some now\<rparr>))))))"

definition admin_delete_comment :: "int \<Rightarrow> string \<Rightarrow> user_row \<Rightarrow> unit handler" where
  "admin_delete_comment now i admin =
     bnd (check (u_isAdmin admin) (ForbiddenDomain AUTH_FORBIDDEN)) (\<lambda>_.
     bnd (fetch (comment_by i) (NotFoundDomain COMMENT_NOT_FOUND)) (\<lambda>_.
     upd (set_comment i (cm_deletedAt_update (\<lambda>_. Some now)))))"

fun issue_status_name :: "issue_status \<Rightarrow> string" where
  "issue_status_name OPEN = ''OPEN''"
| "issue_status_name ACKNOWLEDGED = ''ACKNOWLEDGED''"
| "issue_status_name RESOLVED = ''RESOLVED''"

definition asset_ref_or_empty :: "string \<Rightarrow> world \<Rightarrow> (string \<times> json) list" where
  "asset_ref_or_empty i w =
     [(''assetId'', JStr i),
      (''assetSlug'', JStr (case asset_by i w of None \<Rightarrow> [] | Some a \<Rightarrow> a_slug a)),
      (''assetTitle'', JStr (case asset_by i w of None \<Rightarrow> [] | Some a \<Rightarrow> a_title a))]"

definition set_issue_status :: "string \<Rightarrow> issue_status \<Rightarrow> user_row \<Rightarrow> unit handler" where
  "set_issue_status i status requester =
     bnd (fetch (comment_by i) (NotFoundDomain COMMENT_NOT_FOUND)) (\<lambda>row.
     bnd (fetch (asset_by (cm_assetId row)) (OtherError (RecordNotFound ''Asset''))) (\<lambda>a.
     bnd (check (cm_kind row = ISSUE \<and> cm_parentId row = None) (BadRequest COMMENT_NOT_FOUND)) (\<lambda>_.
     bnd (check (u_isAdmin requester \<or> a_ownerId a = u_id requester) (ForbiddenDomain AUTH_FORBIDDEN)) (\<lambda>_.
     bnd (upd (set_comment i (cm_status_update (\<lambda>_. Some status)))) (\<lambda>_.
     if cm_authorId row \<noteq> u_id requester
     then
       bnd (gets (asset_ref_or_empty (cm_assetId row))) (\<lambda>ref.
       enqueueNotify (notify_of (cm_authorId row) ISSUE_STATUS_CHANGED
         (ref @ [(''commentId'', JStr i), (''newStatus'', JStr (issue_status_name status)),
                 (''changedBy'', user_ref_json requester)]) requester))
     else ret ())))))"


subsection \<open>The invariant of the threads\<close>

definition comment_ok :: "comment_row list \<Rightarrow> comment_row \<Rightarrow> bool" where
  "comment_ok cs c \<longleftrightarrow>
     (case cm_parentId c of
        None \<Rightarrow> cm_depth c = 0
      | Some p \<Rightarrow> (\<exists>d \<in> set cs. cm_id d = p \<and> cm_assetId d = cm_assetId c \<and> cm_depth c = Suc (cm_depth d)) \<and> cm_kind c = COMMENT) \<and>
     cm_depth c < MAX_DEPTH \<and> (cm_status c \<noteq> None \<longleftrightarrow> cm_kind c = ISSUE)"

definition comments_ok :: "world \<Rightarrow> bool" where
  "comments_ok w \<longleftrightarrow> distinct (map cm_id (comments w)) \<and> (\<forall>c \<in> set (comments w). comment_ok (comments w) c)"

lemma comments_ok_cong: "comments w' = comments w \<Longrightarrow> comments_ok w' = comments_ok w"
  by (simp add: comments_ok_def)

lemma comment_ok_mono: "comment_ok cs c \<Longrightarrow> set cs \<subseteq> set ds \<Longrightarrow> comment_ok ds c"
  unfolding comment_ok_def by (auto split: option.splits)

lemma comments_ok_insert:
  assumes "comments_ok w" and "cm_id c \<notin> cm_id ` set (comments w)" and "comment_ok (comments w) c"
  shows "comments_ok (comments_update (\<lambda>cs. cs @ [c]) w)"
  using assms comment_ok_mono [of "comments w" _ "comments w @ [c]"] by (auto simp: comments_ok_def)

lemma comments_ok_set:
  assumes "comments_ok w" and "\<And>c. cm_id (f c) = cm_id c" "\<And>c. cm_parentId (f c) = cm_parentId c"
    "\<And>c. cm_assetId (f c) = cm_assetId c" "\<And>c. cm_depth (f c) = cm_depth c" "\<And>c. cm_kind (f c) = cm_kind c"
    and "\<And>c. c \<in> set (comments w) \<Longrightarrow> cm_id c = i \<Longrightarrow> (cm_status (f c) \<noteq> None) = (cm_status c \<noteq> None)"
  shows "comments_ok (set_comment i f w)"
proof -
  obtain h where h: "h = (\<lambda>c. if cm_id c = i then f c else c)" by blast
  have same: "cm_id (h c) = cm_id c" "cm_parentId (h c) = cm_parentId c" "cm_assetId (h c) = cm_assetId c"
    "cm_depth (h c) = cm_depth c" "cm_kind (h c) = cm_kind c" for c by (simp_all add: h assms(2-6))
  have st: "c \<in> set (comments w) \<Longrightarrow> (cm_status (h c) \<noteq> None) = (cm_status c \<noteq> None)" for c
    using assms(7) [of c] by (simp add: h)
  have cs: "comments (set_comment i f w) = map h (comments w)" by (simp add: set_comment_def set_rows_def h)
  have "comment_ok (map h (comments w)) (h c)" if c: "c \<in> set (comments w)" for c
  proof -
    have "comment_ok (comments w) c" using assms(1) c by (simp add: comments_ok_def)
    then show ?thesis unfolding comment_ok_def same st [OF c] by (auto simp: same split: option.splits)
  qed
  with assms(1) show ?thesis by (simp add: comments_ok_def cs same comp_def)
qed

lemma comments_ok_jobs [simp]: "comments_ok (jobs_update f w) = comments_ok w"
  by (rule comments_ok_cong) simp

lemma comment_byD: "comment_by i w = Some c \<Longrightarrow> c \<in> set (comments w) \<and> cm_id c = i"
  unfolding comment_by_def by (rule find_row_SomeD)

lemma parent_depth_run:
  assumes "parent_depth assetId p w = (Inr d, w')"
  shows "w' = w \<and> d < MAX_DEPTH \<and> (case truthy_opt p of None \<Rightarrow> d = 0
     | Some q \<Rightarrow> \<exists>c. comment_by q w = Some c \<and> cm_assetId c = assetId \<and> d = Suc (cm_depth c))"
  using assms by (auto simp: parent_depth_def act_simps Let_def MAX_DEPTH_def split: option.splits if_splits)

lemma keeps_notify_comment: "keeps comments_ok (notify_comment a i dto kind body author)"
  unfolding notify_comment_def enqueue_defs
  by (intro keeps_intro keeps_submit) simp_all

lemma create_comment_run:
  assumes "create_comment_row now i assetId dto author w = (r, w')" and "w' \<noteq> w"
  shows "\<exists>a body depth kind q. asset_by assetId w = Some a \<and> validate_lite_tiptap (cc_body dto) = Inr body \<and>
     parent_depth assetId (cc_parentId dto) w = (Inr depth, w) \<and> cc_parentId dto \<noteq> Some [] \<and>
     kind = (if truthy_str (cc_parentId dto) then COMMENT else cc_kind dto) \<and> r = (case q of Inl e \<Rightarrow> Inl e | Inr _ \<Rightarrow> Inr i) \<and>
     notify_comment a i dto kind body author (comments_update (\<lambda>cs. cs @
       [\<lparr>cm_id = i, cm_assetId = assetId, cm_authorId = u_id author, cm_parentId = cc_parentId dto,
         cm_kind = kind, cm_body = body, cm_status = (if kind = ISSUE then Some OPEN else None),
         cm_depth = depth, cm_editedAt = None, cm_deletedAt = None, cm_createdAt = now\<rparr>]) w) = (q, w')"
proof -
  obtain a where a: "asset_by assetId w = Some a"
    using assms by (cases "asset_by assetId w") (auto simp: create_comment_row_def act_simps)
  obtain body where b: "validate_lite_tiptap (cc_body dto) = Inr body"
    using assms a by (cases "validate_lite_tiptap (cc_body dto)") (auto simp: create_comment_row_def act_simps)
  have st: "snd (parent_depth assetId (cc_parentId dto) w) = w"
    by (auto simp: parent_depth_def act_simps Let_def split: option.splits)
  obtain depth where d: "parent_depth assetId (cc_parentId dto) w = (Inr depth, w)"
    using assms a b st by (cases "parent_depth assetId (cc_parentId dto) w"; cases "fst (parent_depth assetId (cc_parentId dto) w)")
      (auto simp: create_comment_row_def act_simps)
  show ?thesis
    using assms a b d
    by (auto simp: create_comment_row_def act_simps Let_def split: if_splits prod.splits sum.splits)
qed

inductive comments_reached :: "world \<Rightarrow> bool" where
  cr_init: "comments w = [] \<Longrightarrow> comments_reached w"
| cr_create:
    "comments_reached w \<Longrightarrow> i \<notin> cm_id ` set (comments w) \<Longrightarrow>
       create_comment_row now i assetId dto u w = (r1, w') \<Longrightarrow> comments_reached w'"
| cr_edit: "comments_reached w \<Longrightarrow> edit_comment now i body u w = (r2, w') \<Longrightarrow> comments_reached w'"
| cr_delete: "comments_reached w \<Longrightarrow> admin_delete_comment now i u w = (r3, w') \<Longrightarrow> comments_reached w'"
| cr_status: "comments_reached w \<Longrightarrow> set_issue_status i st u w = (r4, w') \<Longrightarrow> comments_reached w'"

lemma comments_ok_create:
  assumes "comments_ok w" and "i \<notin> cm_id ` set (comments w)" and "create_comment_row now i assetId dto u w = (r, w')"
  shows "comments_ok w'"
proof (cases "w' = w")
  case True
  with assms(1) show ?thesis by simp
next
  case False
  from create_comment_run [OF assms(3) False] obtain a body depth kind q
    where d: "parent_depth assetId (cc_parentId dto) w = (Inr depth, w)" and ne: "cc_parentId dto \<noteq> Some []"
      and kind: "kind = (if truthy_str (cc_parentId dto) then COMMENT else cc_kind dto)"
      and n: "notify_comment a i dto kind body u (comments_update (\<lambda>cs. cs @
       [\<lparr>cm_id = i, cm_assetId = assetId, cm_authorId = u_id u, cm_parentId = cc_parentId dto,
         cm_kind = kind, cm_body = body, cm_status = (if kind = ISSUE then Some OPEN else None),
         cm_depth = depth, cm_editedAt = None, cm_deletedAt = None, cm_createdAt = now\<rparr>]) w) = (q, w')"
    by (elim exE conjE) (rule that)
  let ?row = "\<lparr>cm_id = i, cm_assetId = assetId, cm_authorId = u_id u, cm_parentId = cc_parentId dto,
         cm_kind = kind, cm_body = body, cm_status = (if kind = ISSUE then Some OPEN else None),
         cm_depth = depth, cm_editedAt = None, cm_deletedAt = None, cm_createdAt = now\<rparr>"
  note pd = parent_depth_run [OF d]
  have "comment_ok (comments w) ?row"
  proof (cases "cc_parentId dto")
    case None
    with pd show ?thesis by (simp add: comment_ok_def truthy_opt_def truthy_str_def)
  next
    case (Some q)
    with ne have t: "truthy_opt (cc_parentId dto) = Some q" "truthy_str (cc_parentId dto)"
      by (auto simp: truthy_opt_def truthy_str_def)
    with pd obtain c where "comment_by q w = Some c" "cm_assetId c = assetId" "depth = Suc (cm_depth c)" by auto
    with comment_byD [of q w c] pd Some t(2) show ?thesis by (auto simp: comment_ok_def kind)
  qed
  then have "comments_ok (comments_update (\<lambda>cs. cs @ [?row]) w)"
    using assms(1,2) by (intro comments_ok_insert) simp_all
  from keepsD [OF keeps_notify_comment this n] show ?thesis .
qed

lemma comments_ok_edit:
  assumes "comments_ok w" and "edit_comment now i body u w = (r, w')"
  shows "comments_ok w'"
proof (cases "w' = w")
  case False
  with assms(2) obtain doc where "w' = set_comment i (\<lambda>c. c\<lparr>cm_body := doc, cm_editedAt := Some now\<rparr>) w"
    by (auto simp: edit_comment_def act_simps split: if_splits sum.splits)
  with assms(1) show ?thesis by (simp add: comments_ok_set)
qed (use assms in simp)

lemma comments_ok_delete:
  assumes "comments_ok w" and "admin_delete_comment now i u w = (r, w')"
  shows "comments_ok w'"
proof (cases "w' = w")
  case False
  with assms(2) have "w' = set_comment i (cm_deletedAt_update (\<lambda>_. Some now)) w"
    by (auto simp: admin_delete_comment_def act_simps split: if_splits option.splits)
  with assms(1) show ?thesis by (simp add: comments_ok_set)
qed (use assms in simp)

lemma comments_ok_same:
  assumes "comments_ok w" and "c \<in> set (comments w)" and "d \<in> set (comments w)" and "cm_id c = cm_id d"
  shows "c = d"
proof -
  have "inj_on cm_id (set (comments w))" using assms(1) by (simp add: comments_ok_def distinct_map)
  then show ?thesis using assms(4,2,3) by (rule inj_onD)
qed

lemma set_issue_status_run:
  assumes "set_issue_status i st u w = (r, w')" and "w' \<noteq> w"
  shows "\<exists>row a. comment_by i w = Some row \<and> asset_by (cm_assetId row) w = Some a \<and> cm_kind row = ISSUE \<and>
     cm_parentId row = None \<and> (u_isAdmin u \<or> a_ownerId a = u_id u) \<and>
     r = (if cm_authorId row \<noteq> u_id u \<and> queue_down w then Inl queue_failed else Inr ()) \<and>
     comments w' = comments (set_comment i (cm_status_update (\<lambda>_. Some st)) w) \<and>
     length (jobs w') = length (jobs w) + (if cm_authorId row \<noteq> u_id u \<and> \<not> queue_down w then 1 else 0)"
proof -
  obtain row where row: "comment_by i w = Some row"
    using assms by (cases "comment_by i w") (auto simp: set_issue_status_def act_simps)
  obtain a where a: "asset_by (cm_assetId row) w = Some a"
    using assms row by (cases "asset_by (cm_assetId row) w") (auto simp: set_issue_status_def act_simps)
  have k: "cm_kind row = ISSUE \<and> cm_parentId row = None" and o: "u_isAdmin u \<or> a_ownerId a = u_id u"
    using assms row a by (auto simp: set_issue_status_def act_simps split: if_splits)
  have "r = (if cm_authorId row \<noteq> u_id u \<and> queue_down w then Inl queue_failed else Inr ()) \<and> comments w' = comments (set_comment i (cm_status_update (\<lambda>_. Some st)) w) \<and>
      length (jobs w') = length (jobs w) + (if cm_authorId row \<noteq> u_id u \<and> \<not> queue_down w then 1 else 0)"
    using assms(1) row a k o
    by (cases "cm_authorId row \<noteq> u_id u") (auto simp: set_issue_status_def act_simps set_comment_def enqueueNotify_def split: if_splits)
  with row a k o show ?thesis by blast
qed

lemma comments_ok_status:
  assumes "comments_ok w" and "set_issue_status i st u w = (r, w')"
  shows "comments_ok w'"
proof (cases "w' = w")
  case False
  from set_issue_status_run [OF assms(2) False] obtain row where row: "comment_by i w = Some row" "cm_kind row = ISSUE"
    and w': "comments w' = comments (set_comment i (cm_status_update (\<lambda>_. Some st)) w)"
    by (elim exE conjE) (rule that)
  note r = comment_byD [OF row(1)]
  have "comment_ok (comments w) row" using assms(1) r by (simp add: comments_ok_def)
  then have some: "cm_status row \<noteq> None" using row(2) by (simp add: comment_ok_def)
  have "cm_status c \<noteq> None" if "c \<in> set (comments w)" "cm_id c = i" for c
  proof -
    have "c = row" using comments_ok_same [OF assms(1) that(1)] r that(2) by simp
    with some show ?thesis by simp
  qed
  then have "comments_ok (set_comment i (cm_status_update (\<lambda>_. Some st)) w)"
    using assms(1) by (intro comments_ok_set) simp_all
  then show ?thesis by (simp add: comments_ok_cong [OF w'])
qed (use assms in simp)

text \<open>
  In every state that creating, editing, deleting and triaging comments reaches, ids are unique, a reply
  lies on its parent's asset one level deeper, no comment is deeper than four, and exactly the top-level
  issues have a status.
\<close>

theorem reached_comments_ok: "comments_reached w \<Longrightarrow> comments_ok w"
proof (induction rule: comments_reached.induct)
  case (cr_init w)
  then show ?case by (simp add: comments_ok_def)
qed (blast intro: comments_ok_create comments_ok_edit comments_ok_delete comments_ok_status)+

subsection \<open>Threads are complete\<close>

fun tree_rows :: "comment_tree \<Rightarrow> comment_row list" where
  "tree_rows (CommentNode c ts) = c # concat (map tree_rows ts)"

inductive below :: "comment_row list \<Rightarrow> comment_row \<Rightarrow> comment_row \<Rightarrow> bool" where
  below_child: "c \<in> set rows \<Longrightarrow> cm_parentId c = Some (cm_id r) \<Longrightarrow> below rows r c"
| below_step: "d \<in> set rows \<Longrightarrow> cm_parentId d = Some (cm_id r) \<Longrightarrow> below rows d c \<Longrightarrow> below rows r c"

definition live_comments :: "world \<Rightarrow> comment_row list" where
  "live_comments w = filter (\<lambda>c. cm_deletedAt c = None) (comments w)"

lemma below_last:
  "below rows r c \<Longrightarrow> c \<in> set rows \<and> (\<exists>d. (d = r \<or> below rows r d) \<and> cm_parentId c = Some (cm_id d))"
  by (induction rule: below.induct) (auto intro: below_child below_step)

lemma child_depth:
  assumes "comments_ok w" and "r \<in> set (comments w)" and "c \<in> set (comments w)" and "cm_parentId c = Some (cm_id r)"
  shows "cm_depth c = Suc (cm_depth r)"
proof -
  have "comment_ok (comments w) c" using assms(1,3) by (simp add: comments_ok_def)
  then obtain d where "d \<in> set (comments w)" "cm_id d = cm_id r" "cm_depth c = Suc (cm_depth d)"
    using assms(4) by (auto simp: comment_ok_def)
  with comments_ok_same [OF assms(1) _ assms(2)] show ?thesis by metis
qed

lemma depth_bound: "comments_ok w \<Longrightarrow> c \<in> set (comments w) \<Longrightarrow> cm_depth c < MAX_DEPTH"
  by (simp add: comments_ok_def comment_ok_def)

lemma below_depth:
  "below rows r c \<Longrightarrow> comments_ok w \<Longrightarrow> set rows \<subseteq> set (comments w) \<Longrightarrow> r \<in> set (comments w) \<Longrightarrow>
     cm_depth r < cm_depth c"
proof (induction rule: below.induct)
  case (below_child c rows r)
  with child_depth [of w r c] show ?case by auto
next
  case (below_step d rows r c)
  with child_depth [of w r d] show ?case by auto
qed

lemma ancestor_unique:
  assumes ok: "comments_ok w" and sub: "set rows \<subseteq> set (comments w)"
    and mem: "d \<in> set (comments w)" "e \<in> set (comments w)" and deq: "cm_depth d = cm_depth e"
  shows "d = c \<or> below rows d c \<Longrightarrow> e = c \<or> below rows e c \<Longrightarrow> d = e"
proof (induction "cm_depth c" arbitrary: c rule: less_induct)
  case less
  have lt: "below rows x c \<Longrightarrow> x \<in> set (comments w) \<Longrightarrow> cm_depth x < cm_depth c" for x
    using below_depth [OF _ ok sub] by blast
  show ?case
  proof (cases "d = c \<or> e = c")
    case True
    with less.prems lt [OF _ mem(1)] lt [OF _ mem(2)] deq show ?thesis by auto
  next
    case False
    with less.prems have b: "below rows d c" "below rows e c" by auto
    from below_last [OF b(1)] obtain x where x: "x = d \<or> below rows d x" "cm_parentId c = Some (cm_id x)"
      and c: "c \<in> set rows" by blast
    from below_last [OF b(2)] obtain y where y: "y = e \<or> below rows e y" "cm_parentId c = Some (cm_id y)" by blast
    have mx: "x \<in> set (comments w)" and my: "y \<in> set (comments w)"
      using x(1) y(1) mem sub below_last by blast+
    have "y = x" using comments_ok_same [OF ok my mx] x(2) y(2) by simp
    moreover have "cm_depth x < cm_depth c" using child_depth [OF ok mx _ x(2)] c sub by auto
    ultimately show ?thesis using less.hyps x(1) y(1) by blast
  qed
qed

lemma distinct_concat_map:
  "distinct xs \<Longrightarrow> (\<And>x. x \<in> set xs \<Longrightarrow> distinct (f x)) \<Longrightarrow>
     (\<And>x y. x \<in> set xs \<Longrightarrow> y \<in> set xs \<Longrightarrow> x \<noteq> y \<Longrightarrow> set (f x) \<inter> set (f y) = {}) \<Longrightarrow>
     distinct (concat (map f xs))"
proof (induction xs)
  case (Cons a xs)
  have "set (f a) \<inter> set (concat (map f xs)) = {}"
  proof -
    have "set (f a) \<inter> set (f y) = {}" if "y \<in> set xs" for y
      using Cons.prems(1) that by (intro Cons.prems(3)) auto
    then show ?thesis by auto
  qed
  with Cons show ?case by simp
qed simp

lemma build_node_rows:
  "comments_ok w \<Longrightarrow> set rows \<subseteq> set (comments w) \<Longrightarrow> distinct rows \<Longrightarrow> r \<in> set (comments w) \<Longrightarrow>
     MAX_DEPTH \<le> Suc (cm_depth r + n) \<Longrightarrow>
     set (tree_rows (build_node n rows r)) = insert r {c. below rows r c} \<and> distinct (tree_rows (build_node n rows r))"
proof (induction n arbitrary: r)
  case 0
  have "\<not> below rows r c" for c
  proof
    assume b: "below rows r c"
    then have "c \<in> set (comments w)" using below_last 0(2) by blast
    with below_depth [OF b 0(1,2,4)] depth_bound [OF 0(1), of c] 0(5) show False by simp
  qed
  then show ?case by simp
next
  case (Suc n)
  define kids where "kids = filter (\<lambda>c. cm_parentId c = Some (cm_id r)) rows"
  have kd: "d \<in> set (comments w) \<and> cm_depth d = Suc (cm_depth r)" if "d \<in> set kids" for d
    using that Suc.prems(2) child_depth [OF Suc.prems(1,4)] by (auto simp: kids_def)
  have IH: "set (tree_rows (build_node n rows d)) = insert d {c. below rows d c} \<and>
      distinct (tree_rows (build_node n rows d))" if "d \<in> set kids" for d
    using kd [OF that] Suc.prems by (intro Suc.IH) auto
  have below: "below rows r c \<longleftrightarrow> (\<exists>d \<in> set kids. c = d \<or> below rows d c)" for c
    by (subst below.simps) (auto simp: kids_def)
  have disj: "set (tree_rows (build_node n rows d)) \<inter> set (tree_rows (build_node n rows e)) = {}"
    if de: "d \<in> set kids" "e \<in> set kids" "d \<noteq> e" for d e
  proof (rule ccontr)
    assume "\<not> ?thesis"
    then obtain c where "d = c \<or> below rows d c" "e = c \<or> below rows e c"
      using IH [OF de(1)] IH [OF de(2)] by auto
    with ancestor_unique [OF Suc.prems(1,2), of d e c] kd [OF de(1)] kd [OF de(2)] de(3) show False by simp
  qed
  have self: "\<not> below rows r r" using below_depth [OF _ Suc.prems(1,2,4)] by blast
  have rows: "tree_rows (build_node (Suc n) rows r) = r # concat (map (\<lambda>d. tree_rows (build_node n rows d)) kids)"
    by (simp add: kids_def comp_def)
  have set: "set (concat (map (\<lambda>d. tree_rows (build_node n rows d)) kids)) = {c. below rows r c}"
    using IH by (auto simp: below)
  have "distinct (concat (map (\<lambda>d. tree_rows (build_node n rows d)) kids))"
    by (rule distinct_concat_map) (use IH disj Suc.prems(3) in \<open>simp_all add: kids_def\<close>)
  with self show ?case unfolding rows by (simp add: set del: set_concat)
qed

text \<open>The rows that the recursive query reads are the live rows below the given ones, each once.\<close>

definition at_depth :: "nat \<Rightarrow> string list \<Rightarrow> world \<Rightarrow> bool" where
  "at_depth D ids w \<longleftrightarrow> (\<forall>p \<in> set ids. \<exists>d \<in> set (comments w). cm_id d = p \<and> cm_depth d = D)"

definition next_level :: "string list \<Rightarrow> world \<Rightarrow> comment_row list" where
  "next_level ids w =
     filter (\<lambda>c. (\<exists>p \<in> set ids. cm_parentId c = Some p) \<and> cm_deletedAt c = None) (comments w)"

lemma subtree_Suc: "subtree (Suc n) ids w = next_level ids w @ subtree n (map cm_id (next_level ids w)) w"
  by (simp add: next_level_def Let_def)

lemma next_level_depth:
  assumes "comments_ok w" and "at_depth D ids w" and "c \<in> set (next_level ids w)"
  shows "c \<in> set (comments w) \<and> cm_deletedAt c = None \<and> cm_depth c = Suc D"
proof -
  obtain p where c: "c \<in> set (comments w)" "cm_deletedAt c = None" and p: "p \<in> set ids" "cm_parentId c = Some p"
    using assms(3) by (auto simp: next_level_def)
  then obtain d where "d \<in> set (comments w)" "cm_id d = p" "cm_depth d = D" using assms(2) by (auto simp: at_depth_def)
  with child_depth [OF assms(1), of d c] c p show ?thesis by simp
qed

lemma at_depth_next: "comments_ok w \<Longrightarrow> at_depth D ids w \<Longrightarrow> at_depth (Suc D) (map cm_id (next_level ids w)) w"
  unfolding at_depth_def [of "Suc D"] by (auto dest: next_level_depth)

lemma subtree_sound:
  "comments_ok w \<Longrightarrow> at_depth D ids w \<Longrightarrow> c \<in> set (subtree n ids w) \<Longrightarrow>
     c \<in> set (comments w) \<and> cm_deletedAt c = None \<and> D < cm_depth c"
proof (induction n arbitrary: D ids)
  case (Suc n)
  from Suc.prems(3) consider "c \<in> set (next_level ids w)" | "c \<in> set (subtree n (map cm_id (next_level ids w)) w)"
    by (auto simp: subtree_Suc simp del: subtree.simps)
  then show ?case
  proof cases
    case 1
    with next_level_depth [OF Suc.prems(1,2)] show ?thesis by simp
  next
    case 2
    from Suc.IH [OF Suc.prems(1) at_depth_next [OF Suc.prems(1,2)] this] show ?thesis by simp
  qed
qed simp

lemma subtree_distinct: "comments_ok w \<Longrightarrow> at_depth D ids w \<Longrightarrow> distinct (subtree n ids w)"
proof (induction n arbitrary: D ids)
  case (Suc n)
  note deeper = subtree_sound [OF Suc.prems(1) at_depth_next [OF Suc.prems]]
  have "distinct (comments w)" using Suc.prems(1) by (simp add: comments_ok_def distinct_map)
  then have "distinct (next_level ids w)" by (simp add: next_level_def)
  moreover have "set (next_level ids w) \<inter> set (subtree n (map cm_id (next_level ids w)) w) = {}"
    using next_level_depth [OF Suc.prems] deeper by fastforce
  ultimately show ?case
    using Suc.IH [OF Suc.prems(1) at_depth_next [OF Suc.prems]] by (simp add: subtree_Suc del: subtree.simps)
qed simp

lemma subtree_closed:
  "comments_ok w \<Longrightarrow> at_depth D ids w \<Longrightarrow> MAX_DEPTH \<le> Suc (D + n) \<Longrightarrow> c \<in> set (live_comments w) \<Longrightarrow>
     cm_parentId c = Some p \<Longrightarrow> p \<in> set ids \<union> cm_id ` set (subtree n ids w) \<Longrightarrow> c \<in> set (subtree n ids w)"
proof (induction n arbitrary: D ids)
  case 0
  then have "c \<in> set (next_level ids w)" by (auto simp: next_level_def live_comments_def)
  from next_level_depth [OF 0(1,2) this] depth_bound [OF 0(1), of c] 0(3) show ?case by simp
next
  case (Suc n)
  show ?case
  proof (cases "p \<in> set ids")
    case True
    with Suc.prems(4,5) have "c \<in> set (next_level ids w)" by (auto simp: next_level_def live_comments_def)
    then show ?thesis by (simp add: subtree_Suc del: subtree.simps)
  next
    case False
    with Suc.prems(6) have "p \<in> set (map cm_id (next_level ids w)) \<union> cm_id ` set (subtree n (map cm_id (next_level ids w)) w)"
      by (auto simp: subtree_Suc simp del: subtree.simps)
    with Suc.prems(3) have "c \<in> set (subtree n (map cm_id (next_level ids w)) w)"
      by (intro Suc.IH [OF Suc.prems(1) at_depth_next [OF Suc.prems(1,2)] _ Suc.prems(4,5)]) simp_all
    then show ?thesis by (simp add: subtree_Suc del: subtree.simps)
  qed
qed

lemma below_mono: "below rows r c \<Longrightarrow> set rows \<subseteq> set rows' \<Longrightarrow> below rows' r c"
  by (induction rule: below.induct) (auto intro: below_child below_step)

lemma below_closed:
  "below live r c \<Longrightarrow>
     (\<And>c p. c \<in> set live \<Longrightarrow> cm_parentId c = Some p \<Longrightarrow> p \<in> P \<union> cm_id ` set rows \<Longrightarrow> c \<in> set rows) \<Longrightarrow>
     cm_id r \<in> P \<union> cm_id ` set rows \<Longrightarrow> below rows r c"
proof (induction rule: below.induct)
  case (below_child c live r)
  show ?case by (rule below.below_child) (rule below_child.prems(1) [OF below_child.hyps below_child.prems(2)], rule below_child.hyps)
next
  case (below_step d live r c)
  have d: "d \<in> set rows" by (rule below_step.prems(1) [OF below_step.hyps(1,2) below_step.prems(2)])
  then have "below rows d c" by (intro below_step.IH below_step.prems(1)) auto
  with d below_step.hyps(2) show ?case by (rule below.below_step)
qed

lemma below_root: "cm_parentId t = None \<Longrightarrow> below (t # rows) r c = below rows r c"
proof
  assume t: "cm_parentId t = None"
  assume "below (t # rows) r c"
  then show "below rows r c"
    by (induction "t # rows" r c rule: below.induct) (use t in \<open>auto intro: below.intros\<close>)
qed (erule below_mono, auto)

lemma thread_complete:
  assumes ok: "comments_ok w" and t: "t \<in> set (comments w)" "cm_parentId t = None" "cm_id t \<in> set ids"
    and ids: "at_depth 0 ids w"
  shows "set (tree_rows (to_tree t (fetch_subtree ids w))) = insert t {c. below (live_comments w) t c} \<and>
     distinct (tree_rows (to_tree t (fetch_subtree ids w)))"
proof -
  let ?rows = "fetch_subtree ids w"
  have ne: "ids \<noteq> []" using t(3) by auto
  have set: "set ?rows = set (subtree MAX_DEPTH ids w)" using ne by (simp add: fetch_subtree_def)
  have dist: "distinct ?rows" using ne subtree_distinct [OF ok ids] by (simp add: fetch_subtree_def)
  have sound: "c \<in> set ?rows \<Longrightarrow> c \<in> set (live_comments w) \<and> 0 < cm_depth c" for c
    using subtree_sound [OF ok ids] by (simp add: set live_comments_def)
  have "comment_ok (comments w) t" using ok t(1) by (simp add: comments_ok_def)
  then have "cm_depth t = 0" using t(2) by (simp add: comment_ok_def)
  then have "distinct (t # ?rows)" using sound [of t] dist by auto
  moreover have "set (t # ?rows) \<subseteq> set (comments w)" using t(1) sound by (auto simp: live_comments_def)
  ultimately have "set (tree_rows (to_tree t ?rows)) = insert t {c. below (t # ?rows) t c} \<and>
      distinct (tree_rows (to_tree t ?rows))"
    unfolding to_tree_def using t(1) by (intro build_node_rows [OF ok]) simp_all
  moreover have "below (t # ?rows) t c = below (live_comments w) t c" for c
  proof
    assume "below (live_comments w) t c"
    then have "below ?rows t c"
      by (rule below_closed [where P = "set ids"]) (use t(3) subtree_closed [OF ok ids, of MAX_DEPTH] in \<open>auto simp: set\<close>)
    then show "below (t # ?rows) t c" by (simp add: below_root [OF t(2)])
  next
    assume "below (t # ?rows) t c"
    then have "below ?rows t c" by (simp add: below_root [OF t(2)])
    then show "below (live_comments w) t c" by (rule below_mono) (use sound in auto)
  qed
  ultimately show ?thesis by simp
qed

lemma after_cursor_sub: "set (after_cursor key cur rows) \<subseteq> set rows"
proof -
  have tl: "set (tl xs) \<subseteq> set xs" for xs :: "'a list" by (cases xs) auto
  show ?thesis using tl set_dropWhileD by (fastforce simp: after_cursor_def split: option.splits)
qed

lemma page_items_sub: "list_page key mk n raw rows = Inr p \<Longrightarrow> set (pg_items p) \<subseteq> set rows"
  by (auto simp: list_page_def build_page_def Let_def split: sum.splits if_splits
      dest!: in_set_takeD subsetD [OF after_cursor_sub])

text \<open>
  C25: every tree of a listed page is one live top-level comment of the asset together with exactly its live
  descendants that are reached through live replies, each once: the five-hop query loses none and mixes none.
\<close>

theorem listed_threads_complete:
  assumes "comments_ok w" and "list_comments assetId query w = Inr p"
  shows "list_all (\<lambda>tree. \<exists>t. t \<in> set (comments w) \<and> cm_assetId t = assetId \<and> cm_parentId t = None \<and>
      cm_deletedAt t = None \<and> set (tree_rows tree) = insert t {c. below (live_comments w) t c} \<and>
      distinct (tree_rows tree)) (pg_items p)"
proof -
  from assms(2) obtain q where q: "list_page cm_id comment_cursor (clamp_page_size COMMENT_PAGE_SIZE 100 (lcq_limit query))
        (lcq_cursor query) (top_comments ((assetId, lcq_kind query), w)) = Inr q"
    and p: "pg_items p = map (\<lambda>t. to_tree t (fetch_subtree (map cm_id (pg_items q)) w)) (pg_items q)"
    by (auto simp: list_comments_def sum_bind_eq_Inr Let_def)
  have top: "t \<in> set (comments w) \<and> cm_assetId t = assetId \<and> cm_parentId t = None \<and> cm_deletedAt t = None"
    if "t \<in> set (pg_items q)" for t
    using page_items_sub [OF q] that by (auto simp: top_comments_def)
  have zero: "cm_depth t = 0" if "t \<in> set (pg_items q)" for t
  proof -
    from assms(1) top [OF that] have "comment_ok (comments w) t" by (simp add: comments_ok_def)
    with top [OF that] show ?thesis by (simp add: comment_ok_def)
  qed
  have "at_depth 0 (map cm_id (pg_items q)) w" using top zero by (auto simp: at_depth_def)
  with thread_complete [OF assms(1)] top show ?thesis by (fastforce simp: p list_all_iff)
qed

definition top_comment :: comment_row where
  "top_comment =
     \<lparr>cm_id = ''c1'', cm_assetId = ''a'', cm_authorId = ''u2'', cm_parentId = None, cm_kind = ISSUE, cm_body = JObj [],
      cm_status = Some OPEN, cm_depth = 0, cm_editedAt = None, cm_deletedAt = None, cm_createdAt = 10\<rparr>"

definition reply_comment :: comment_row where
  "reply_comment =
     \<lparr>cm_id = ''c2'', cm_assetId = ''a'', cm_authorId = ''u'', cm_parentId = Some ''c1'', cm_kind = COMMENT,
      cm_body = JObj [], cm_status = None, cm_depth = 1, cm_editedAt = None, cm_deletedAt = None, cm_createdAt = 20\<rparr>"

definition thread_world :: world where
  "thread_world = empty_world\<lparr>assets := [asset0], comments := [top_comment, reply_comment]\<rparr>"

lemma thread_world_ok: "comments_ok thread_world"
  by (simp add: comments_ok_def thread_world_def comment_ok_def top_comment_def reply_comment_def MAX_DEPTH_def)

theorem listed_threads_complete_witness:
  "list_all (\<lambda>tree. \<exists>t. t \<in> set (comments thread_world) \<and> cm_assetId t = ''a'' \<and> cm_parentId t = None \<and>
      cm_deletedAt t = None \<and> set (tree_rows tree) = insert t {c. below (live_comments thread_world) t c} \<and>
      distinct (tree_rows tree)) [CommentNode top_comment [CommentNode reply_comment []]]"
proof -
  let ?q = "\<lparr>lcq_cursor = None, lcq_kind = None, lcq_limit = None\<rparr>"
  have "list_comments ''a'' ?q thread_world = Inr \<lparr>pg_items = [CommentNode top_comment [CommentNode reply_comment []]],
     pg_nextCursor = None, pg_hasMore = False\<rparr>"
    by code_simp
  from listed_threads_complete [OF thread_world_ok this] show ?thesis by simp
qed

theorem reached_comments_ok_witness:
  "comments_ok (snd (set_issue_status ''x'' RESOLVED bob empty_world))"
  by (rule reached_comments_ok [OF cr_status [OF cr_init surjective_pairing]]) simp

text \<open>
  Only an admin or the asset's owner moves an issue: a call that changes anything was made by one of them
  on a top-level issue, sets the status of that row alone, and hands out one notification unless the caller
  wrote the issue; when the queue does not answer the status is set and the call fails.
\<close>

theorem set_issue_status_authorised:
  assumes "set_issue_status i status u w = (r, w')" and "w' \<noteq> w"
  shows "\<exists>row a. comment_by i w = Some row \<and> asset_by (cm_assetId row) w = Some a \<and> cm_kind row = ISSUE \<and>
     cm_parentId row = None \<and> (u_isAdmin u \<or> a_ownerId a = u_id u) \<and>
     r = (if cm_authorId row \<noteq> u_id u \<and> queue_down w then Inl queue_failed else Inr ()) \<and>
     comments w' = comments (set_comment i (cm_status_update (\<lambda>_. Some status)) w) \<and>
     length (jobs w') = length (jobs w) + (if cm_authorId row \<noteq> u_id u \<and> \<not> queue_down w then 1 else 0)"
  using assms by (rule set_issue_status_run)

theorem set_issue_status_authorised_witness:
  "\<exists>row a. comment_by ''c1'' thread_world = Some row \<and> asset_by (cm_assetId row) thread_world = Some a \<and>
     (u_isAdmin alice \<or> a_ownerId a = u_id alice)"
proof -
  obtain r w' where run: "set_issue_status ''c1'' RESOLVED alice thread_world = (r, w')" by fastforce
  have "map cm_status (comments (snd (set_issue_status ''c1'' RESOLVED alice thread_world))) = [Some RESOLVED, None]"
    by code_simp
  moreover have "map cm_status (comments thread_world) = [Some OPEN, None]" by code_simp
  ultimately have "w' \<noteq> thread_world" unfolding run by auto
  from set_issue_status_authorised [OF run this] show ?thesis by (elim exE conjE) (intro exI conjI)
qed

text \<open>
  A reply to a deleted comment is accepted, and no listing ever shows it: the service does not look at the
  parent's \<open>deletedAt\<close>, and the recursive query does not descend through a deleted row.
\<close>

lemma queue_down_comments: "queue_down (comments_update f w) = queue_down w"
  by simp

lemma reply_to_deleted_accepted:
  assumes "asset_by assetId w = Some a" and "validate_lite_tiptap (cc_body dto) = Inr body"
    and "cc_parentId dto = Some p" "p \<noteq> []"
    and "comment_by p w = Some d" "cm_assetId d = assetId" "Suc (cm_depth d) < MAX_DEPTH" and "\<not> queue_down w"
  shows "fst (create_comment_row now i assetId dto u w) = Inr i"
proof -
  have n: "\<exists>s. notify_comment a i dto k b u v = (Inr (), s)" if "\<not> queue_down v" for k b v
    using that by (auto simp: notify_comment_def act_simps enqueueNotify_def split: option.splits)
  have pd: "parent_depth assetId (cc_parentId dto) w = (Inr (Suc (cm_depth d)), w)"
    using assms(3-7) by (simp add: parent_depth_def act_simps Let_def truthy_opt_def truthy_str_def)
  obtain v where v: "notify_comment a i dto COMMENT body u (comments_update (\<lambda>cs. cs @
       [\<lparr>cm_id = i, cm_assetId = assetId, cm_authorId = u_id u, cm_parentId = Some p, cm_kind = COMMENT,
         cm_body = body, cm_status = None, cm_depth = Suc (cm_depth d), cm_editedAt = None, cm_deletedAt = None,
         cm_createdAt = now\<rparr>]) w) = (Inr (), v)"
    using n assms(8) by (metis queue_down_comments)
  have t: "truthy_str (Some p)" using assms(4) by (simp add: truthy_str_def)
  show ?thesis using assms(3,4) by (simp add: create_comment_row_def act_simps assms(1,2) pd [unfolded assms(3)] t v)
qed

lemma reply_to_deleted_lost:
  assumes "comments_ok w" and "d \<in> set (comments w)" "cm_deletedAt d \<noteq> None"
    and "cm_parentId c = Some (cm_id d)" and "t \<in> set (live_comments w)"
  shows "\<not> below (live_comments w) t c"
proof
  assume "below (live_comments w) t c"
  from below_last [OF this] obtain x where x: "x = t \<or> below (live_comments w) t x" "cm_id d = cm_id x"
    using assms(4) by auto
  then have "x \<in> set (live_comments w)" using assms(5) below_last by blast
  moreover from this have "x = d" using comments_ok_same [OF assms(1) _ assms(2)] x(2) by (simp add: live_comments_def)
  ultimately show False using assms(3) by (simp add: live_comments_def)
qed

end
