(* ===== verification/Moderation.thy ===== *)
theory Moderation
  imports Comments
begin

section \<open>Moderation: admin transitions, transfer and the immediate deletion\<close>

text \<open>
  \<open>src/modules/admin/assets-moderation.service.ts\<close>.  The listing and deleting commands of S3 and the
  document deletion of Meilisearch are parameters; what they do to the state is that a successful command
  is carried out.  The loop over the pages of a listing is a partial function whose \<open>None\<close> is a loop that
  never ends: \<open>looping\<close> handlers are handlers that contain it.  The deletion of an asset row follows the
  referential actions of \<open>prisma/schema.prisma\<close>: most tables cascade, downloads and reports refuse it
  (\<open>asset_referenced\<close>).
\<close>

subsection \<open>Handlers with a loop that may not end\<close>

type_synonym 'a looping = "world \<Rightarrow> ((app_error + 'a) \<times> world) option"

definition always :: "'a handler \<Rightarrow> 'a looping" where
  "always h = (\<lambda>w. Some (h w))"

definition lbnd :: "'a looping \<Rightarrow> ('a \<Rightarrow> 'b looping) \<Rightarrow> 'b looping" where
  "lbnd m f = (\<lambda>w. case m w of
     None \<Rightarrow> None
   | Some (r, s) \<Rightarrow> (case r of Inl e \<Rightarrow> Some (Inl e, s) | Inr x \<Rightarrow> f x s))"

lemma always_apply [act_simps, simp]: "always h w = Some (h w)"
  by (simp add: always_def)

lemma lbnd_Inr: "m w = Some (Inr x, s) \<Longrightarrow> lbnd m f w = f x s"
  by (simp add: lbnd_def)

lemma lbnd_Inl: "m w = Some (Inl e, s) \<Longrightarrow> lbnd m f w = Some (Inl e, s)"
  by (simp add: lbnd_def)

subsection \<open>Deleting the objects under a prefix\<close>

record object_page =
  op_keys :: "string list"
  op_truncated :: bool
  op_next :: "string option"

text \<open>A listing answers by bucket, prefix, continuation token and the objects there are.\<close>

record object_store =
  os_list :: "string \<Rightarrow> string \<Rightarrow> string option \<Rightarrow> string list \<Rightarrow> app_error + object_page"
  os_delete_many :: "string \<Rightarrow> string list \<Rightarrow> app_error + unit"

definition delete_many :: "s3_config \<Rightarrow> object_store \<Rightarrow> bucket_role \<Rightarrow> string list \<Rightarrow> unit handler" where
  "delete_many cfg st role keys =
     bnd (from_sum (os_delete_many st (bucket_for cfg role) keys)) (\<lambda>_.
     upd (s3_objects_update (filter (\<lambda>o'. o' \<notin> object_id cfg role ` set keys))))"

definition next_token :: "object_page \<Rightarrow> string option" where
  "next_token list = (if op_truncated list then truthy_opt (op_next list) else None)"

partial_function (option) delete_s3_prefix ::
  "s3_config \<Rightarrow> object_store \<Rightarrow> bucket_role \<Rightarrow> string \<Rightarrow> string option \<Rightarrow> world \<Rightarrow> ((app_error + unit) \<times> world) option" where
  "delete_s3_prefix cfg st role prefix token w =
     (case os_list st (bucket_for cfg role) prefix token (s3_objects w) of
        Inl e \<Rightarrow> Some (Inl e, w)
      | Inr list \<Rightarrow>
          (case (if op_keys list \<noteq> [] then delete_many cfg st role (op_keys list) else ret ()) w of
             (r, w') \<Rightarrow>
               (case r of
                  Inl e \<Rightarrow> Some (Inl e, w')
                | Inr _ \<Rightarrow>
                    (case next_token list of
                       None \<Rightarrow> Some (Inr (), w')
                     | Some t \<Rightarrow> delete_s3_prefix cfg st role prefix (Some t) w'))))"

text \<open>
  What S3 documents of a listing: it names existing keys of the prefix; a key that is still to come under
  the token is on the page or still to come under the next token; a truncated page is not empty and has a
  next token.  \<open>rest t k\<close> says that the key \<open>k\<close> is still to come under the token \<open>t\<close>.
\<close>

definition keys_under :: "s3_config \<Rightarrow> bucket_role \<Rightarrow> string \<Rightarrow> string list \<Rightarrow> string set" where
  "keys_under cfg role prefix objs = {k. object_id cfg role k \<in> set objs \<and> starts_with prefix k}"

definition lists_prefixes :: "s3_config \<Rightarrow> object_store \<Rightarrow> (string option \<Rightarrow> string \<Rightarrow> bool) \<Rightarrow> bool" where
  "lists_prefixes cfg st rest \<longleftrightarrow>
     (\<forall>k. rest None k) \<and>
     (\<forall>role prefix t objs list. os_list st (bucket_for cfg role) prefix t objs = Inr list \<longrightarrow>
        set (op_keys list) \<subseteq> keys_under cfg role prefix objs \<and>
        (\<forall>k \<in> keys_under cfg role prefix objs. rest t k \<longrightarrow>
           k \<in> set (op_keys list) \<or> (\<exists>n. next_token list = Some n \<and> rest (Some n) k)) \<and>
        (next_token list \<noteq> None \<longrightarrow> op_keys list \<noteq> []))"

definition not_under :: "s3_config \<Rightarrow> bucket_role \<Rightarrow> string \<Rightarrow> string list \<Rightarrow> string list" where
  "not_under cfg role prefix objs = filter (\<lambda>o'. \<not> starts_with (object_id cfg role prefix) o') objs"

lemma starts_with_append: "starts_with (b @ p) s \<longleftrightarrow> (\<exists>k. s = b @ k \<and> starts_with p k)"
proof
  assume "starts_with (b @ p) s"
  then have s: "take (length b + length p) s = b @ p" by (simp add: starts_with_def)
  have "s = take (length b + length p) s @ drop (length b + length p) s" by simp
  then have "s = b @ (p @ drop (length b + length p) s)" by (simp only: s append_assoc)
  moreover have "starts_with p (p @ drop (length b + length p) s)" by (simp add: starts_with_def)
  ultimately show "\<exists>k. s = b @ k \<and> starts_with p k" by blast
qed (auto simp: starts_with_def)

lemma under_iff:
  "starts_with (object_id cfg role prefix) o' \<longleftrightarrow> (\<exists>k. o' = object_id cfg role k \<and> starts_with prefix k)"
  using starts_with_append [of "bucket_for cfg role @ ''/''" prefix o'] by (simp add: object_id_def)

lemma object_id_inj [simp]: "object_id cfg role k = object_id cfg role j \<longleftrightarrow> k = j"
  by (simp add: object_id_def)

lemma not_under_after:
  assumes "set keys \<subseteq> keys_under cfg role prefix objs"
  shows "not_under cfg role prefix (filter (\<lambda>o'. o' \<notin> object_id cfg role ` set keys) objs) = not_under cfg role prefix objs"
proof -
  have "starts_with (object_id cfg role prefix) o'" if "o' \<in> object_id cfg role ` set keys" for o'
    using that assms by (auto simp: under_iff keys_under_def)
  then show ?thesis unfolding not_under_def filter_filter by (metis (mono_tags, lifting) filter_cong)
qed

text \<open>The loop ends, and when it reports success exactly the objects under the prefix are gone.\<close>

lemma delete_s3_prefix_result:
  assumes law: "lists_prefixes cfg st rest"
  shows "(\<And>k. k \<in> keys_under cfg role prefix (s3_objects w) \<Longrightarrow> rest token k) \<Longrightarrow>
    \<exists>r objs. delete_s3_prefix cfg st role prefix token w = Some (r, s3_objects_update (\<lambda>_. objs) w) \<and>
      not_under cfg role prefix objs = not_under cfg role prefix (s3_objects w) \<and> set objs \<subseteq> set (s3_objects w) \<and>
      (r = Inr () \<longrightarrow> objs = not_under cfg role prefix (s3_objects w))"
proof (induction "length (s3_objects w)" arbitrary: w token rule: less_induct)
  case less
  show ?case
  proof (cases "os_list st (bucket_for cfg role) prefix token (s3_objects w)")
    case (Inl e)
    then have "delete_s3_prefix cfg st role prefix token w = Some (Inl e, s3_objects_update (\<lambda>_. s3_objects w) w)"
      by (subst delete_s3_prefix.simps) simp
    then show ?thesis by blast
  next
    case list: (Inr list)
    from law list have keys: "set (op_keys list) \<subseteq> keys_under cfg role prefix (s3_objects w)"
      and cont: "\<And>k. k \<in> keys_under cfg role prefix (s3_objects w) \<Longrightarrow> rest token k \<Longrightarrow>
         k \<in> set (op_keys list) \<or> (\<exists>n. next_token list = Some n \<and> rest (Some n) k)"
      and ne: "next_token list \<noteq> None \<Longrightarrow> op_keys list \<noteq> []"
      unfolding lists_prefixes_def by blast+
    define objs where "objs = filter (\<lambda>o'. o' \<notin> object_id cfg role ` set (op_keys list)) (s3_objects w)"
    have same: "not_under cfg role prefix objs = not_under cfg role prefix (s3_objects w)"
      unfolding objs_def by (rule not_under_after [OF keys])
    have sub: "set objs \<subseteq> set (s3_objects w)" by (auto simp: objs_def)
    define run where "run = (if op_keys list \<noteq> [] then delete_many cfg st role (op_keys list) else ret ()) w"
    show ?thesis
    proof (cases "fst run")
      case (Inl e)
      then have "op_keys list \<noteq> []" "os_delete_many st (bucket_for cfg role) (op_keys list) = Inl e"
        by (auto simp: run_def delete_many_def act_simps split: if_splits sum.splits)
      then have "delete_s3_prefix cfg st role prefix token w = Some (Inl e, s3_objects_update (\<lambda>_. s3_objects w) w)"
        by (subst delete_s3_prefix.simps) (simp add: list delete_many_def act_simps)
      then show ?thesis by blast
    next
      case (Inr x)
      have run: "(if op_keys list \<noteq> [] then delete_many cfg st role (op_keys list) else ret ()) w =
          (Inr (), s3_objects_update (\<lambda>_. objs) w)"
        using Inr unfolding run_def by (auto simp: delete_many_def act_simps objs_def split: if_splits sum.splits)
      show ?thesis
      proof (cases "next_token list")
        case None
        have step: "delete_s3_prefix cfg st role prefix token w = Some (Inr (), s3_objects_update (\<lambda>_. objs) w)"
          by (subst delete_s3_prefix.simps) (simp add: list run None)
        have "starts_with (object_id cfg role prefix) o' \<longleftrightarrow> o' \<in> object_id cfg role ` set (op_keys list)"
          if mem: "o' \<in> set (s3_objects w)" for o'
        proof
          assume "starts_with (object_id cfg role prefix) o'"
          then obtain k where k: "o' = object_id cfg role k" "k \<in> keys_under cfg role prefix (s3_objects w)"
            using mem by (auto simp: under_iff keys_under_def)
          with cont [OF k(2) less.prems [OF k(2)]] None show "o' \<in> object_id cfg role ` set (op_keys list)" by simp
        next
          assume "o' \<in> object_id cfg role ` set (op_keys list)"
          with keys show "starts_with (object_id cfg role prefix) o'" by (auto simp: under_iff keys_under_def)
        qed
        then have "objs = not_under cfg role prefix (s3_objects w)"
          unfolding objs_def not_under_def by (auto intro!: filter_cong)
        with step same sub show ?thesis by blast
      next
        case (Some t)
        let ?w = "s3_objects_update (\<lambda>_. objs) w"
        have step: "delete_s3_prefix cfg st role prefix token w = delete_s3_prefix cfg st role prefix (Some t) ?w"
          by (subst delete_s3_prefix.simps) (simp add: list run Some)
        obtain k where k: "k \<in> set (op_keys list)" using ne Some by (cases "op_keys list") auto
        with keys have "object_id cfg role k \<in> set (s3_objects w)" by (auto simp: keys_under_def)
        with k have shorter: "length objs < length (s3_objects w)" unfolding objs_def by (intro length_filter_less) auto
        have "rest (Some t) j" if "j \<in> keys_under cfg role prefix objs" for j
        proof -
          have j: "j \<in> keys_under cfg role prefix (s3_objects w)" "j \<notin> set (op_keys list)"
            using that by (auto simp: keys_under_def objs_def)
          from cont [OF j(1) less.prems [OF j(1)]] j(2) Some show ?thesis by simp
        qed
        then have "\<exists>r os. delete_s3_prefix cfg st role prefix (Some t) ?w = Some (r, s3_objects_update (\<lambda>_. os) ?w) \<and>
            not_under cfg role prefix os = not_under cfg role prefix (s3_objects ?w) \<and> set os \<subseteq> set (s3_objects ?w) \<and>
            (r = Inr () \<longrightarrow> os = not_under cfg role prefix (s3_objects ?w))"
          by (intro less.hyps) (use shorter in simp_all)
        then show ?thesis using same sub by (auto simp: step)
      qed
    qed
  qed
qed

subsection \<open>Deleting an asset row\<close>

fun asset_status_name :: "asset_status \<Rightarrow> string" where
  "asset_status_name DRAFT = ''DRAFT''"
| "asset_status_name PUBLISHED = ''PUBLISHED''"
| "asset_status_name ARCHIVED = ''ARCHIVED''"
| "asset_status_name DELETED = ''DELETED''"

text \<open>Rows that refuse the deletion: \<open>Report.asset\<close>, \<open>Download.asset\<close> and \<open>Download.version\<close> do not cascade.\<close>

definition asset_version_ids :: "string \<Rightarrow> world \<Rightarrow> string list" where
  "asset_version_ids i w = map v_id (filter (\<lambda>v. v_assetId v = i) (versions w))"

definition asset_referenced :: "string \<Rightarrow> world \<Rightarrow> bool" where
  "asset_referenced i w \<longleftrightarrow>
     some_row (\<lambda>r. r_assetId r = i) (reports w) \<or>
     some_row (\<lambda>d. d_assetId d = i \<or> d_versionId d \<in> set (asset_version_ids i w)) (downloads w)"

definition cascade_asset :: "string \<Rightarrow> world \<Rightarrow> world" where
  "cascade_asset i w =
     (let vids = set (asset_version_ids i w)
      in w\<lparr>assets := drop_rows (\<lambda>a. a_id a = i) (assets w),
           asset_texts := drop_rows (\<lambda>t. tr_assetId t = i) (asset_texts w),
           versions := drop_rows (\<lambda>v. v_assetId v = i) (versions w),
           files := drop_rows (\<lambda>f. f_versionId f \<in> vids) (files w),
           compats := drop_rows (\<lambda>c. ec_versionId c \<in> vids) (compats w),
           dependencies := drop_rows (\<lambda>d. dp_versionId d \<in> vids) (dependencies w),
           asset_tags := drop_rows (\<lambda>t. at_assetId t = i) (asset_tags w),
           library := drop_rows (\<lambda>l. li_assetId l = i) (library w),
           comments := drop_rows (\<lambda>c. cm_assetId c = i) (comments w),
           featured := drop_rows (\<lambda>f. fs_assetId f = i) (featured w),
           asset_stats := drop_rows (\<lambda>s. ast_assetId s = i) (asset_stats w),
           download_daily := drop_rows (\<lambda>d. dd_assetId d = i) (download_daily w)\<rparr>)"

definition delete_asset_row :: "string \<Rightarrow> unit handler" where
  "delete_asset_row i =
     bnd (fetch (asset_by i) (OtherError (RecordNotFound ''Asset''))) (\<lambda>_.
     bnd (gets (asset_referenced i)) (\<lambda>referenced.
     bnd (check (\<not> referenced) (OtherError (ForeignKeyViolation ''assets''))) (\<lambda>_.
     upd (cascade_asset i))))"

subsection \<open>The operations\<close>

definition find_asset_or_throw :: "string \<Rightarrow> asset_row handler" where
  "find_asset_or_throw i = fetch (asset_by i) (NotFoundDomain ASSET_NOT_FOUND)"

definition moderation_audit :: "int \<Rightarrow> user_row \<Rightarrow> string \<Rightarrow> string \<Rightarrow> (string \<times> json) list \<Rightarrow> unit handler" where
  "moderation_audit now admin action i meta = audit_record now (Some (u_id admin)) action ''Asset'' i (Some (JObj meta))"

definition moderate_status ::
  "bool \<Rightarrow> int \<Rightarrow> asset_status \<Rightarrow> search_reason \<Rightarrow> string \<Rightarrow> string \<Rightarrow> user_row \<Rightarrow> string \<Rightarrow> unit handler" where
  "moderate_status up now next sr action i admin reason =
     bnd (check (trim reason \<noteq> []) (BadRequest ASSET_ARCHIVE_BLOCKED)) (\<lambda>_.
     bnd (find_asset_or_throw i) (\<lambda>a.
     bnd (upd (set_asset i (\<lambda>x. x\<lparr>a_status := next, a_archivedAt := Some now, a_updatedAt := now\<rparr>))) (\<lambda>_.
     bnd (invalidate_categories up) (\<lambda>_.
     bnd (enqueueSearchIndex i sr) (\<lambda>_.
     moderation_audit now admin action i
       [(''previousStatus'', JStr (asset_status_name (a_status a))), (''reason'', JStr reason)])))))"

definition moderate_archive :: "bool \<Rightarrow> int \<Rightarrow> string \<Rightarrow> user_row \<Rightarrow> string \<Rightarrow> unit handler" where
  "moderate_archive up now i admin reason =
     moderate_status up now ARCHIVED ASSET_ARCHIVE ''asset.admin_archive'' i admin reason"

definition moderate_soft_delete :: "bool \<Rightarrow> int \<Rightarrow> string \<Rightarrow> user_row \<Rightarrow> string \<Rightarrow> unit handler" where
  "moderate_soft_delete up now i admin reason =
     moderate_status up now DELETED ASSET_DELETE ''asset.admin_delete'' i admin reason"

definition moderate_restore :: "bool \<Rightarrow> int \<Rightarrow> string \<Rightarrow> user_row \<Rightarrow> unit handler" where
  "moderate_restore up now i admin =
     bnd (find_asset_or_throw i) (\<lambda>a.
     bnd (restore_body up now i admin a) (\<lambda>_.
     moderation_audit now admin ''asset.admin_restore'' i [(''previousStatus'', JStr (asset_status_name (a_status a)))]))"

definition delete_documents :: "(string list \<Rightarrow> app_error + unit) \<Rightarrow> string list \<Rightarrow> unit handler" where
  "delete_documents meili ids =
     bnd (from_sum (meili ids)) (\<lambda>_. upd (search_tasks_update (\<lambda>ts. ts @ [DeleteDocuments ''assets'' ids])))"

definition asset_doc_ids :: "string \<Rightarrow> string list" where
  "asset_doc_ids i = [i @ '':en'', i @ '':id'']"

definition drop_outside_thumbnail :: "s3_config \<Rightarrow> s3_client \<Rightarrow> asset_row \<Rightarrow> unit handler" where
  "drop_outside_thumbnail cfg c a =
     (case truthy_opt (a_thumbnailKey a) of
        None \<Rightarrow> ret ()
      | Some key \<Rightarrow>
          if starts_with (''thumbs/'' @ a_id a @ ''/'') key then ret ()
          else swallow (delete_object cfg c ThumbsBucket key))"

definition delete_asset_objects :: "s3_config \<Rightarrow> object_store \<Rightarrow> s3_client \<Rightarrow> asset_row \<Rightarrow> unit looping" where
  "delete_asset_objects cfg st c a =
     lbnd (delete_s3_prefix cfg st AssetsBucket (''assets/'' @ a_id a @ ''/'') None) (\<lambda>_.
     lbnd (delete_s3_prefix cfg st ThumbsBucket (''thumbs/'' @ a_id a @ ''/'') None) (\<lambda>_.
     always (drop_outside_thumbnail cfg c a)))"

definition force_delete ::
  "s3_config \<Rightarrow> object_store \<Rightarrow> s3_client \<Rightarrow> (string list \<Rightarrow> app_error + unit) \<Rightarrow> bool \<Rightarrow> int \<Rightarrow> string \<Rightarrow>
     user_row \<Rightarrow> string \<Rightarrow> unit looping" where
  "force_delete cfg st c meili up now i admin reason =
     lbnd (always (find_asset_or_throw i)) (\<lambda>a.
     lbnd (delete_asset_objects cfg st c a) (\<lambda>_.
     always
       (bnd (delete_asset_row i) (\<lambda>_.
        bnd (swallow (delete_documents meili (asset_doc_ids i))) (\<lambda>_.
        bnd (invalidate_categories up) (\<lambda>_.
        moderation_audit now admin ''asset.force_delete'' i
          [(''reason'', JStr reason), (''previousStatus'', JStr (asset_status_name (a_status a))),
           (''ownerId'', JStr (a_ownerId a))]))))))"

definition transfer_asset :: "int \<Rightarrow> string \<Rightarrow> user_row \<Rightarrow> string \<Rightarrow> unit handler" where
  "transfer_asset now i admin newOwnerId =
     bnd (find_asset_or_throw i) (\<lambda>a.
     bnd (gets (user_by newOwnerId)) (\<lambda>target.
     bnd (check (case target of None \<Rightarrow> False | Some u \<Rightarrow> u_deletedAt u = None) (NotFoundDomain USER_NOT_FOUND)) (\<lambda>_.
     bnd (upd (set_asset i (\<lambda>x. x\<lparr>a_ownerId := newOwnerId, a_updatedAt := now\<rparr>))) (\<lambda>_.
     bnd (enqueueSearchIndex i ASSET_UPDATE) (\<lambda>_.
     moderation_audit now admin ''asset.transfer'' i
       [(''previousOwnerId'', JStr (a_ownerId a)), (''newOwnerId'', JStr newOwnerId)])))))"

definition status_counts :: "world \<Rightarrow> (asset_status \<times> nat) list" where
  "status_counts w =
     foldl (\<lambda>out s. AList.update s (count_rows (\<lambda>a. a_status a = s) (assets w)) out)
       [(DRAFT, 0), (PUBLISHED, 0), (ARCHIVED, 0), (DELETED, 0)]
       (remdups (map a_status (assets w)))"

subsection \<open>The immediate deletion\<close>

definition asset_object :: "s3_config \<Rightarrow> string \<Rightarrow> string \<Rightarrow> bool" where
  "asset_object cfg i o' \<longleftrightarrow>
     starts_with (object_id cfg AssetsBucket (''assets/'' @ i @ ''/'')) o' \<or>
     starts_with (object_id cfg ThumbsBucket (''thumbs/'' @ i @ ''/'')) o'"






lemma delete_asset_row_cases:
  assumes "asset_by i w = Some a"
  shows "delete_asset_row i w =
     (if asset_referenced i w then (Inl (OtherError (ForeignKeyViolation ''assets'')), w) else (Inr (), cascade_asset i w))"
  by (simp add: delete_asset_row_def act_simps assms)

lemma cascade_asset_frame [simp]:
  "s3_objects (cascade_asset i w) = s3_objects w" "reports (cascade_asset i w) = reports w"
  "downloads (cascade_asset i w) = downloads w" "users (cascade_asset i w) = users w" "jobs (cascade_asset i w) = jobs w"
  "storage_asset_daily (cascade_asset i w) = storage_asset_daily w"
  by (simp_all add: cascade_asset_def Let_def)

lemma cascade_asset_assets [simp]: "assets (cascade_asset i w) = drop_rows (\<lambda>a. a_id a = i) (assets w)"
  by (simp add: cascade_asset_def Let_def)

lemma asset_version_ids_frame [simp]:
  "asset_version_ids j (search_tasks_update f w) = asset_version_ids j w"
  "asset_version_ids j (audit_logs_update g w) = asset_version_ids j w"
  "asset_version_ids j (s3_objects_update h w) = asset_version_ids j w"
  by (simp_all add: asset_version_ids_def)

lemma asset_version_ids_cascade:
  assumes "j \<noteq> i"
  shows "asset_version_ids j (cascade_asset i w) = asset_version_ids j w"
proof -
  have "filter (\<lambda>x. v_assetId x = j) (drop_rows (\<lambda>x. v_assetId x = i) vs) = filter (\<lambda>x. v_assetId x = j) vs"
    for vs :: "version_row list"
    using assms by (induction vs) auto
  then show ?thesis by (simp add: asset_version_ids_def cascade_asset_def Let_def)
qed


definition force_delete_tail :: "(string list \<Rightarrow> app_error + unit) \<Rightarrow> bool \<Rightarrow> int \<Rightarrow> string \<Rightarrow> user_row \<Rightarrow>
    (string \<times> json) list \<Rightarrow> unit handler" where
  "force_delete_tail meili up now i admin meta =
     bnd (swallow (delete_documents meili (asset_doc_ids i))) (\<lambda>_.
     bnd (invalidate_categories up) (\<lambda>_. moderation_audit now admin ''asset.force_delete'' i meta))"


definition removed_only :: "s3_config \<Rightarrow> asset_row \<Rightarrow> string list \<Rightarrow> string list \<Rightarrow> bool" where
  "removed_only cfg a old new \<longleftrightarrow>
     list_all (\<lambda>o'. o' \<in> set new \<or> asset_object cfg (a_id a) o' \<or>
       (\<exists>key. a_thumbnailKey a = Some key \<and> o' = object_id cfg ThumbsBucket key)) old"

lemma not_under_keeps:
  assumes "not_under cfg role p objs = not_under cfg role p old" and "o' \<in> set old" "\<not> starts_with (object_id cfg role p) o'"
  shows "o' \<in> set objs"
proof -
  have "o' \<in> set (not_under cfg role p objs)" unfolding assms(1) using assms(2,3) by (simp add: not_under_def)
  then show ?thesis by (simp add: not_under_def)
qed

lemma drop_outside_thumbnail_result:
  "\<exists>objs. drop_outside_thumbnail cfg c a w = (Inr (), s3_objects_update (\<lambda>_. objs) w) \<and> set objs \<subseteq> set (s3_objects w) \<and>
     (\<forall>o' \<in> set (s3_objects w). o' \<in> set objs \<or> (\<exists>key. a_thumbnailKey a = Some key \<and> o' = object_id cfg ThumbsBucket key))"
proof (cases "truthy_opt (a_thumbnailKey a)")
  case None
  then have "drop_outside_thumbnail cfg c a w = (Inr (), s3_objects_update (\<lambda>_. s3_objects w) w)"
    by (simp add: drop_outside_thumbnail_def)
  then show ?thesis by blast
next
  case (Some key)
  then have key: "a_thumbnailKey a = Some key" by (simp add: truthy_opt_def split: if_splits)
  show ?thesis
  proof (cases "starts_with (''thumbs/'' @ a_id a @ ''/'') key \<or> (\<exists>e. sc_delete c (bucket_for cfg ThumbsBucket) key = Inl e)")
    case True
    then have "drop_outside_thumbnail cfg c a w = (Inr (), s3_objects_update (\<lambda>_. s3_objects w) w)"
      by (auto simp: drop_outside_thumbnail_def Some swallow_def delete_object_def act_simps)
    then show ?thesis by blast
  next
    case False
    then have "drop_outside_thumbnail cfg c a w =
        (Inr (), s3_objects_update (\<lambda>_. filter (\<lambda>o'. o' \<noteq> object_id cfg ThumbsBucket key) (s3_objects w)) w)"
      by (cases "sc_delete c (bucket_for cfg ThumbsBucket) key")
        (auto simp: drop_outside_thumbnail_def Some swallow_def delete_object_def act_simps)
    with key show ?thesis by fastforce
  qed
qed

lemma objects_deleted:
  assumes law: "lists_prefixes cfg st rest"
  shows "\<exists>r objs. delete_asset_objects cfg st c a w = Some (r, s3_objects_update (\<lambda>_. objs) w) \<and>
     removed_only cfg a (s3_objects w) objs \<and> (r = Inr () \<longrightarrow> list_all (\<lambda>o'. \<not> asset_object cfg (a_id a) o') objs)"
proof -
  let ?A = "''assets/'' @ a_id a @ ''/''" and ?T = "''thumbs/'' @ a_id a @ ''/''"
  have rest: "rest None k" for k using law by (simp add: lists_prefixes_def)
  obtain r1 o1 where r1: "delete_s3_prefix cfg st AssetsBucket ?A None w = Some (r1, s3_objects_update (\<lambda>_. o1) w)"
    and n1: "not_under cfg AssetsBucket ?A o1 = not_under cfg AssetsBucket ?A (s3_objects w)"
    and ok1: "r1 = Inr () \<longrightarrow> o1 = not_under cfg AssetsBucket ?A (s3_objects w)"
    using delete_s3_prefix_result [OF law, where token = None and role = AssetsBucket and prefix = ?A and w = w] rest by blast
  have k1: "o' \<in> set o1 \<or> asset_object cfg (a_id a) o'" if "o' \<in> set (s3_objects w)" for o'
    using not_under_keeps [OF n1 that] by (auto simp: asset_object_def)
  show ?thesis
  proof (cases r1)
    case (Inl e)
    then have "delete_asset_objects cfg st c a w = Some (Inl e, s3_objects_update (\<lambda>_. o1) w)"
      using r1 by (simp add: delete_asset_objects_def lbnd_Inl)
    with k1 show ?thesis by (auto simp: removed_only_def list_all_iff)
  next
    case (Inr u1)
    let ?w = "s3_objects_update (\<lambda>_. o1) w"
    obtain r2 o2 where r2: "delete_s3_prefix cfg st ThumbsBucket ?T None ?w = Some (r2, s3_objects_update (\<lambda>_. o2) ?w)"
      and n2: "not_under cfg ThumbsBucket ?T o2 = not_under cfg ThumbsBucket ?T (s3_objects ?w)"
      and s2: "set o2 \<subseteq> set (s3_objects ?w)"
      and ok2: "r2 = Inr () \<longrightarrow> o2 = not_under cfg ThumbsBucket ?T (s3_objects ?w)"
      using delete_s3_prefix_result [OF law, where token = None and role = ThumbsBucket and prefix = ?T and w = ?w] rest by blast
    have k2: "o' \<in> set o2 \<or> asset_object cfg (a_id a) o'" if "o' \<in> set o1" for o'
      using not_under_keeps [OF n2, of o'] that by (auto simp: asset_object_def)
    have step: "delete_asset_objects cfg st c a w =
        lbnd (delete_s3_prefix cfg st ThumbsBucket ?T None) (\<lambda>_. always (drop_outside_thumbnail cfg c a)) ?w"
      using r1 Inr by (simp add: delete_asset_objects_def lbnd_Inr)
    show ?thesis
    proof (cases r2)
      case (Inl e)
      then have "delete_asset_objects cfg st c a w = Some (Inl e, s3_objects_update (\<lambda>_. o2) w)"
        using r2 by (simp add: step lbnd_Inl)
      with k1 k2 show ?thesis by (fastforce simp: removed_only_def list_all_iff)
    next
      case (Inr u2)
      let ?v = "s3_objects_update (\<lambda>_. o2) w"
      obtain o3 where o3: "drop_outside_thumbnail cfg c a ?v = (Inr (), s3_objects_update (\<lambda>_. o3) ?v)"
        and s3: "set o3 \<subseteq> set o2"
        and k3: "\<forall>o' \<in> set o2. o' \<in> set o3 \<or> (\<exists>key. a_thumbnailKey a = Some key \<and> o' = object_id cfg ThumbsBucket key)"
        using drop_outside_thumbnail_result [of cfg c a ?v] by auto
      have "delete_asset_objects cfg st c a w = Some (Inr (), s3_objects_update (\<lambda>_. o3) w)"
        using r2 Inr o3 by (simp add: step lbnd_Inr)
      moreover have "removed_only cfg a (s3_objects w) o3"
        unfolding removed_only_def list_all_iff using k1 k2 k3 by blast
      moreover have "\<not> asset_object cfg (a_id a) o'" if "o' \<in> set o3" for o'
        using that s3 ok1 ok2 Inr \<open>r1 = Inr u1\<close> by (auto simp: not_under_def asset_object_def)
      ultimately show ?thesis by (auto simp: list_all_iff)
    qed
  qed
qed

lemma force_delete_step:
  assumes "asset_by i w = Some a"
  shows "force_delete cfg st c meili up now i admin reason w =
     lbnd (delete_asset_objects cfg st c a) (\<lambda>_. always (bnd (delete_asset_row i) (\<lambda>_. force_delete_tail meili up now i admin
       [(''reason'', JStr reason), (''previousStatus'', JStr (asset_status_name (a_status a))),
        (''ownerId'', JStr (a_ownerId a))]))) w"
  using assms by (simp add: force_delete_def lbnd_def find_asset_or_throw_def force_delete_tail_def)

lemma asset_referenced_s3 [simp]: "asset_referenced i (s3_objects_update f w) = asset_referenced i w"
  by (simp add: asset_referenced_def asset_version_ids_def)


text \<open>
  An asset that was ever downloaded or reported cannot be deleted, and the attempt destroys its files: the
  objects are gone before the database refuses to delete the row, which stays as it was.
\<close>

theorem force_delete_loses_objects:
  assumes "lists_prefixes cfg st rest" and "asset_by i w = Some a" and "asset_referenced i w"
    and "delete_asset_objects cfg st c a w = Some (Inr (), w1)"
  shows "force_delete cfg st c meili up now i admin reason w = Some (Inl (OtherError (ForeignKeyViolation ''assets'')), w1) \<and>
     asset_by i w1 = Some a \<and> list_all (\<lambda>o'. \<not> asset_object cfg i o') (s3_objects w1)"
proof -
  obtain r objs where run: "delete_asset_objects cfg st c a w = Some (r, s3_objects_update (\<lambda>_. objs) w)"
    and none: "r = Inr () \<longrightarrow> list_all (\<lambda>o'. \<not> asset_object cfg (a_id a) o') objs"
    using objects_deleted [OF assms(1)] by blast
  with assms(4) have w1: "w1 = s3_objects_update (\<lambda>_. objs) w" and r: "r = Inr ()" by auto
  have a': "asset_by i w1 = Some a" using assms(2) by (simp add: asset_by_def w1)
  have "asset_referenced i w1" using assms(3) by (simp add: w1)
  then have "force_delete cfg st c meili up now i admin reason w = Some (Inl (OtherError (ForeignKeyViolation ''assets'')), w1)"
    using assms(4) by (simp add: force_delete_step [OF assms(2)] lbnd_def delete_asset_row_cases [OF a'] act_simps)
  with a' none r asset_byD [OF assms(2)] show ?thesis by (simp add: w1)
qed

subsection \<open>What the deletion leaves alone\<close>

lemma lbnd_frame:
  assumes "lbnd m f w = Some (r, w')" and "\<And>q s. m w = Some (q, s) \<Longrightarrow> obs s = obs w"
    and "\<And>x s. f x s = Some (r, w') \<Longrightarrow> obs w' = obs s"
  shows "obs w' = obs w"
  using assms by (auto simp: lbnd_def split: option.splits sum.splits)

text \<open>What no deletion of an asset touches.\<close>

definition bystanders :: "world \<Rightarrow> report_row list \<times> user_row list \<times> job list" where
  "bystanders w = (reports w, users w, jobs w)"

lemma delete_many_bystanders: "delete_many cfg st role ks w = (r, w') \<Longrightarrow> bystanders w' = bystanders w"
  by (cases "os_delete_many st (bucket_for cfg role) ks") (auto simp: delete_many_def act_simps bystanders_def)

lemma delete_s3_prefix_bystanders:
  assumes "delete_s3_prefix cfg st role prefix token w = Some p"
  shows "bystanders (snd p) = bystanders w"
proof (rule delete_s3_prefix.raw_induct [OF _ assms, where P = "\<lambda>cfg st role prefix token w p. bystanders (snd p) = bystanders w"])
  fix loop :: "s3_config \<Rightarrow> object_store \<Rightarrow> bucket_role \<Rightarrow> string \<Rightarrow> string option \<Rightarrow> world \<Rightarrow> ((app_error + unit) \<times> world) option"
    and cfg st role prefix token w p
  assume IH: "\<And>cfg st role prefix token w p. loop cfg st role prefix token w = Some p \<Longrightarrow> bystanders (snd p) = bystanders w"
    and eq: "(case os_list st (bucket_for cfg role) prefix token (s3_objects w) of
        Inl e \<Rightarrow> Some (Inl e, w)
      | Inr list \<Rightarrow>
          (case (if op_keys list \<noteq> [] then delete_many cfg st role (op_keys list) else ret ()) w of
             (r, w') \<Rightarrow>
               (case r of
                  Inl e \<Rightarrow> Some (Inl e, w')
                | Inr _ \<Rightarrow>
                    (case next_token list of
                       None \<Rightarrow> Some (Inr (), w')
                     | Some t \<Rightarrow> loop cfg st role prefix (Some t) w')))) = Some p"
  show "bystanders (snd p) = bystanders w"
  proof (cases "os_list st (bucket_for cfg role) prefix token (s3_objects w)")
    case (Inl e)
    with eq show ?thesis by auto
  next
    case (Inr list)
    obtain q v where run: "(if op_keys list \<noteq> [] then delete_many cfg st role (op_keys list) else ret ()) w = (q, v)"
      by fastforce
    have fr: "bystanders v = bystanders w" using run by (auto split: if_splits dest: delete_many_bystanders)
    show ?thesis
    proof (cases "q = Inr () \<and> next_token list \<noteq> None")
      case True
      then obtain t where t: "next_token list = Some t" "q = Inr ()" by auto
      have "loop cfg st role prefix (Some t) v = Some p" using eq Inr run t by simp
      from IH [OF this] fr show ?thesis by simp
    next
      case False
      then show ?thesis using eq Inr run fr by (cases q) auto
    qed
  qed
qed

lemma delete_asset_objects_bystanders:
  assumes "delete_asset_objects cfg st c a v = Some (q, s)"
  shows "bystanders s = bystanders v"
proof -
  have t: "bystanders x = bystanders y" if "drop_outside_thumbnail cfg c a y = (z, x)" for x y z
    using that by (auto simp: bystanders_def drop_outside_thumbnail_def swallow_def delete_object_def act_simps
        split: option.splits if_splits sum.splits)
  show ?thesis
    using assms unfolding delete_asset_objects_def
    by (elim lbnd_frame [where obs = bystanders]) (auto dest: delete_s3_prefix_bystanders t elim!: lbnd_frame [where obs = bystanders])
qed

lemma force_delete_bystanders:
  assumes "force_delete cfg st c meili up now i admin reason w = Some (r, w')"
  shows "bystanders w' = bystanders w"
proof -
  have tail: "bystanders s = bystanders v"
    if "bnd (delete_asset_row i) (\<lambda>_. force_delete_tail meili up now i admin meta) v = (q, s)" for v q s meta
    using that by (auto simp: bystanders_def delete_asset_row_def act_simps force_delete_tail_def swallow_def delete_documents_def
        invalidate_categories_def cache_invalidate_def moderation_audit_def audit_record_def split: option.splits if_splits sum.splits)
  show ?thesis
  proof (cases "asset_by i w")
    case None
    with assms show ?thesis by (simp add: force_delete_def lbnd_def find_asset_or_throw_def)
  next
    case (Some a)
    from assms show ?thesis unfolding force_delete_step [OF Some]
      by (rule lbnd_frame [where obs = bystanders]) (auto dest: delete_asset_objects_bystanders tail)
  qed
qed

lemma force_delete_reports:
  assumes "force_delete cfg st c meili up now i admin reason w = Some (r, w')"
  shows "reports w' = reports w" and "users w' = users w" and "jobs w' = jobs w"
  using force_delete_bystanders [OF assms] by (simp_all add: bystanders_def)

lemma force_delete_refused:
  assumes "lists_prefixes cfg st rest" and "asset_by i w = Some a" and "asset_referenced i w"
  shows "\<exists>e w'. force_delete cfg st c meili up now i admin reason w = Some (Inl e, w')"
proof -
  obtain r objs where run: "delete_asset_objects cfg st c a w = Some (r, s3_objects_update (\<lambda>_. objs) w)"
    using objects_deleted [OF assms(1)] by blast
  have a': "asset_by i (s3_objects_update (\<lambda>_. objs) w) = Some a" using assms(2) by (simp add: asset_by_def)
  show ?thesis
    using run assms(3) by (cases r) (auto simp: force_delete_step [OF assms(2)] lbnd_def delete_asset_row_cases [OF a'] act_simps)
qed

subsection \<open>A store that lists one key at a time\<close>

definition bucket_keys :: "string \<Rightarrow> string \<Rightarrow> string list \<Rightarrow> string list" where
  "bucket_keys b prefix objs = map (drop (length b + 1)) (filter (starts_with (b @ ''/'' @ prefix)) objs)"

definition one_by_one :: object_store where
  "one_by_one =
     \<lparr>os_list = (\<lambda>b prefix t objs.
        (let ks = bucket_keys b prefix objs
         in Inr \<lparr>op_keys = take 1 ks, op_truncated = (1 < length ks), op_next = Some ''next''\<rparr>)),
      os_delete_many = (\<lambda>b ks. Inr ())\<rparr>"

lemma bucket_keys_set: "set (bucket_keys (bucket_for cfg role) prefix objs) = keys_under cfg role prefix objs"
proof -
  obtain c where c: "c = bucket_for cfg role @ ''/''" by blast
  have ks: "bucket_keys (bucket_for cfg role) prefix objs = map (drop (length c)) (filter (starts_with (c @ prefix)) objs)"
    by (simp add: bucket_keys_def c)
  have id: "object_id cfg role k = c @ k" for k by (simp add: object_id_def c)
  show ?thesis
  proof (intro set_eqI iffI)
    fix k
    assume "k \<in> set (bucket_keys (bucket_for cfg role) prefix objs)"
    then obtain o' where "o' \<in> set objs" "starts_with (c @ prefix) o'" "k = drop (length c) o'" by (auto simp: ks)
    then show "k \<in> keys_under cfg role prefix objs" by (auto simp: keys_under_def id starts_with_append)
  next
    fix k
    assume "k \<in> keys_under cfg role prefix objs"
    then have "c @ k \<in> set objs" "starts_with (c @ prefix) (c @ k)" by (auto simp: keys_under_def id starts_with_append)
    then have "c @ k \<in> set (filter (starts_with (c @ prefix)) objs)" by simp
    from imageI [OF this, of "drop (length c)"] show "k \<in> set (bucket_keys (bucket_for cfg role) prefix objs)"
      by (simp add: ks)
  qed
qed

lemma one_by_one_lists: "lists_prefixes cfg one_by_one (\<lambda>_ _. True)"
proof -
  have "set (op_keys list) \<subseteq> keys_under cfg role prefix objs \<and>
      (\<forall>k \<in> keys_under cfg role prefix objs. k \<in> set (op_keys list) \<or> (\<exists>n. next_token list = Some n)) \<and>
      (next_token list \<noteq> None \<longrightarrow> op_keys list \<noteq> [])"
    if run: "os_list one_by_one (bucket_for cfg role) prefix t objs = Inr list" for role prefix t objs list
  proof -
    let ?ks = "bucket_keys (bucket_for cfg role) prefix objs"
    have list: "list = \<lparr>op_keys = take 1 ?ks, op_truncated = (1 < length ?ks), op_next = Some ''next''\<rparr>"
      using run by (simp add: one_by_one_def Let_def)
    show ?thesis
      unfolding list next_token_def bucket_keys_set [symmetric]
      by (cases ?ks) (auto simp: truthy_opt_def truthy_str_def)
  qed
  then show ?thesis by (simp add: lists_prefixes_def)
qed

definition takedown_world :: world where
  "takedown_world =
     draft_world\<lparr>s3_objects := [''A/assets/a/v1.0.0/x'', ''A/assets/b/v1.0.0/x'', ''T/thumbs/a/t'', ''A/assets/a/v1.0.0/y'']\<rparr>"




definition reported_world :: world where
  "reported_world = takedown_world\<lparr>reports :=
     [\<lparr>r_id = ''r'', r_reporterId = ''b'', r_assetId = ''a'', r_category = MALICIOUS_FILE, r_notes = ''virus'', r_status = R_OPEN,
       r_adminNotes = None, r_createdAt = 1, r_resolvedAt = None\<rparr>]\<rparr>"

lemma reported_world_facts:
  "asset_by ''a'' reported_world = Some asset0" "asset_referenced ''a'' reported_world"
  by (simp_all add: reported_world_def takedown_world_def asset_by_def asset_referenced_def some_row_def)

lemma reported_world_deletes:
  "delete_asset_objects cfg0 one_by_one client0 asset0 reported_world =
     Some (Inr (), s3_objects_update (\<lambda>_. [''A/assets/b/v1.0.0/x'']) reported_world)"
  by (simp add: delete_asset_objects_def lbnd_def delete_s3_prefix.simps one_by_one_def bucket_keys_def reported_world_def
      takedown_world_def starts_with_def cfg0_def next_token_def delete_many_def act_simps object_id_def
      truthy_opt_def truthy_str_def drop_outside_thumbnail_def asset0_def swallow_def delete_object_def client0_def)

theorem force_delete_loses_objects_witness:
  "\<exists>w1. force_delete cfg0 one_by_one client0 (\<lambda>_. Inr ()) True 5 ''a'' bob ''takedown'' reported_world =
      Some (Inl (OtherError (ForeignKeyViolation ''assets'')), w1) \<and> asset_by ''a'' w1 = Some asset0"
  using force_delete_loses_objects [OF one_by_one_lists reported_world_facts reported_world_deletes] by blast

end
