(* ===== verification/Pipeline.thy ===== *)
theory Pipeline
  imports Users Moderation Catalog
begin

section \<open>The way of a request: guards, handler, audit\<close>

text \<open>
  What surrounds the services of the API process: \<open>src/app.module.ts\<close> and the decorators of \<open>src/common\<close>.  A route
  carries the guards of its controller and of its method, the latter as the source lists them, from top to bottom, and the
  mark of the audit interceptor.  NestJS runs the guards, in an order that is the parameter \<open>sv_order\<close>, then the handler,
  then the interceptors.  Each guard may attach an identity to the request, which later guards, the handler and the audit
  row read.  The handlers start from bodies that the validation pipe (\<open>Dto\<close>) has accepted.
\<close>

datatype guard_ref = KeycloakG | FlexibleG | OptionalG | AdminG | RateLimitG rate_limit_config | ConfirmationG

record http_request =
  hr_authorization :: "string option"
  hr_idempotencyKey :: "string option"
  hr_ip :: string
  hr_raw :: audit_request

record server =
  sv_auth :: auth_env
  sv_up :: bool
  sv_now :: int
  sv_userId :: string
  sv_confirmDate :: "json \<Rightarrow> int option"
  sv_order :: "guard_ref list \<Rightarrow> guard_ref list \<Rightarrow> guard_ref list"

record route =
  rt_public :: bool
  rt_class :: "guard_ref list"
  rt_method :: "guard_ref list"
  rt_audit :: "audit_config option"

text \<open>
  The documented order: the guards of the controller before those of the method; decorators are applied from the bottom
  up and each appends its guards.
\<close>

definition nest_order :: "guard_ref list \<Rightarrow> guard_ref list \<Rightarrow> guard_ref list" where
  "nest_order cs ms = cs @ rev ms"

definition on_redis :: "(app_error, redis_map, 'a) act \<Rightarrow> 'a handler" where
  "on_redis m = (\<lambda>w. case m (redis w) of (r, k) \<Rightarrow> (r, redis_update (\<lambda>_. k) w))"

text \<open>A guard that lets a request pass without an identity leaves the one attached before.\<close>

definition attach :: "identity \<Rightarrow> identity handler \<Rightarrow> identity handler" where
  "attach who g = bnd g (\<lambda>found. ret (case found of None \<Rightarrow> who | Some p \<Rightarrow> Some p))"

definition identity_id :: "identity \<Rightarrow> string option" where
  "identity_id who = map_option (u_id \<circ> fst) who"

definition asks_redis :: "rate_limit_config \<Rightarrow> string \<Rightarrow> string option \<Rightarrow> bool" where
  "asks_redis cfg ip userId = truthy_str (identifier_for (rl_scope cfg) ip userId)"

fun run_guard :: "server \<Rightarrow> bool \<Rightarrow> http_request \<Rightarrow> guard_ref \<Rightarrow> identity \<Rightarrow> identity handler" where
  "run_guard sv pub rq KeycloakG who =
     attach who (keycloak_auth_guard (sv_auth sv) pub (sv_up sv) (sv_now sv) (sv_userId sv) (hr_authorization rq))"
| "run_guard sv pub rq FlexibleG who =
     attach who (flexible_auth_guard (sv_auth sv) pub (sv_up sv) (sv_now sv) (sv_userId sv) (hr_authorization rq))"
| "run_guard sv pub rq OptionalG who =
     attach who (optional_auth_guard (sv_auth sv) pub (sv_up sv) (sv_now sv) (sv_userId sv) (hr_authorization rq))"
| "run_guard sv pub rq AdminG who =
     bnd (attach who (keycloak_auth_guard (sv_auth sv) pub (sv_up sv) (sv_now sv) (sv_userId sv) (hr_authorization rq))) (\<lambda>who'.
     bnd (from_sum (admin_guard (Inr True) (map_option (u_isAdmin \<circ> fst) who'))) (\<lambda>_. ret who'))"
| "run_guard sv pub rq (RateLimitG cfg) who =
     bnd (check (sv_up sv \<or> \<not> asks_redis cfg (hr_ip rq) (identity_id who)) redis_down) (\<lambda>_.
     bnd (on_redis (rate_limit_guard (Some cfg) (sv_now sv) (hr_ip rq) (identity_id who))) (\<lambda>_. ret who))"
| "run_guard sv pub rq ConfirmationG who =
     bnd (from_sum (confirmation_guard (sv_confirmDate sv) True (sv_now sv) (ar_body (hr_raw rq)))) (\<lambda>_. ret who)"

fun run_guards :: "server \<Rightarrow> bool \<Rightarrow> http_request \<Rightarrow> guard_ref list \<Rightarrow> identity \<Rightarrow> identity handler" where
  "run_guards sv pub rq [] who = ret who"
| "run_guards sv pub rq (g # gs) who = bnd (run_guard sv pub rq g who) (run_guards sv pub rq gs)"

definition admit :: "server \<Rightarrow> route \<Rightarrow> http_request \<Rightarrow> identity handler" where
  "admit sv r rq = run_guards sv (rt_public r) rq (sv_order sv (rt_class r) (rt_method r)) None"

definition seen_by_audit :: "http_request \<Rightarrow> identity \<Rightarrow> audit_request" where
  "seen_by_audit rq who = (hr_raw rq)\<lparr>ar_userId := identity_id who\<rparr>"

definition serve :: "server \<Rightarrow> route \<Rightarrow> http_request \<Rightarrow> (identity \<Rightarrow> 'a handler) \<Rightarrow> 'a handler" where
  "serve sv r rq h =
     bnd (admit sv r rq) (\<lambda>who. audited (sv_now sv) (rt_audit r) (seen_by_audit rq who) (h who))"

text \<open>The same for a handler that may not return.\<close>

definition serve_looping :: "server \<Rightarrow> route \<Rightarrow> http_request \<Rightarrow> (identity \<Rightarrow> 'a looping) \<Rightarrow> 'a looping" where
  "serve_looping sv r rq h =
     lbnd (always (admit sv r rq)) (\<lambda>who.
     lbnd (h who) (\<lambda>x. always (audited (sv_now sv) (rt_audit r) (seen_by_audit rq who) (ret x))))"

text \<open>\<open>@AuthUser()\<close> yields what the guards attached; reading \<open>principal.user\<close> of nothing is a \<open>TypeError\<close>.\<close>

definition as_user :: "(user_row \<Rightarrow> 'a handler) \<Rightarrow> identity \<Rightarrow> 'a handler" where
  "as_user f who = (case who of None \<Rightarrow> throw (OtherError TypeError) | Some (u, _) \<Rightarrow> f u)"

definition as_user_looping :: "(user_row \<Rightarrow> 'a looping) \<Rightarrow> identity \<Rightarrow> 'a looping" where
  "as_user_looping f who = (case who of None \<Rightarrow> always (throw (OtherError TypeError)) | Some (u, _) \<Rightarrow> f u)"

definition reading :: "(world \<Rightarrow> app_error + 'a) \<Rightarrow> 'a handler" where
  "reading f = (\<lambda>w. (f w, w))"

subsection \<open>What the guards do\<close>

text \<open>The guards may write users, through the principal, tokens, whose last use they note, and Redis; nothing else.\<close>

definition guard_view :: "world \<Rightarrow> world" where
  "guard_view w = w\<lparr>users := [], plugin_tokens := [], redis := (\<lambda>_. None)\<rparr>"

lemma guard_view_simps [simp]:
  "guard_view (users_update f w) = guard_view w"
  "guard_view (plugin_tokens_update g w) = guard_view w"
  "guard_view (redis_update k w) = guard_view w"
  by (simp_all add: guard_view_def)

lemma keeps_pass [keeps_intro]: "(\<And>v. keeps I (f v)) \<Longrightarrow> keeps I (case p of (u, r) \<Rightarrow> f u)"
  by (cases p) simp

text \<open>The subjects whose verified claims carry the address of the bootstrap admin.\<close>

definition boot_subjects :: "auth_env \<Rightarrow> string set" where
  "boot_subjects env =
     {cl_sub c |tok c. ae_jwks env tok = Some c \<and> lower (or_else (cl_email c) []) = lower (ae_bootstrap env)}"

text \<open>
  The contract of an invariant that no guard can break: what the guards write is Redis, the last use of a token, and the
  row of the caller, who may become an admin only as one of the subjects \<open>B\<close>.
\<close>

locale guard_invariant =
  fixes I :: "world \<Rightarrow> bool" and B :: "string set"
  assumes redis_free: "I w \<Longrightarrow> I (redis_update k w)"
    and tokens_free: "I w \<Longrightarrow> I (plugin_tokens_update g w)"
    and user_refreshed: "I w \<Longrightarrow> \<forall>u. u_sub (f u) = u_sub u \<and> u_deletedAt (f u) = u_deletedAt u \<and>
        (u_isAdmin u \<longrightarrow> u_isAdmin (f u)) \<and> (u_isAdmin (f u) \<longrightarrow> u_isAdmin u \<or> s \<in> B) \<Longrightarrow>
      I (users_update (set_rows (\<lambda>x. u_sub x = s) f) w)"
    and user_added: "I w \<Longrightarrow> u_isAdmin u \<longrightarrow> u_sub u \<in> B \<Longrightarrow> I (users_update (\<lambda>us. us @ [u]) w)"
begin

lemma keeps_upsert_user:
  assumes "lower (or_else (cl_email c) []) = lower bootstrap \<longrightarrow> cl_sub c \<in> B"
  shows "keeps I (upsert_user bootstrap now i c)"
  unfolding upsert_user_def Let_def or_else_def [symmetric]
  using assms by (auto intro!: keeps_intro keeps_upd user_refreshed user_added split: option.splits)

lemma keeps_resolve_principal:
  assumes "lower (or_else (cl_email c) []) = lower bootstrap \<longrightarrow> cl_sub c \<in> B"
  shows "keeps I (resolve_principal dp bootstrap up now i c)"
  unfolding resolve_principal_def
  using assms by (auto intro!: keeps_intro keeps_upd keeps_upsert_user redis_free split: option.splits)

lemma keeps_keycloak: "boot_subjects env \<subseteq> B \<Longrightarrow> keeps I (keycloak_auth_guard env pub up now i h)"
  unfolding keycloak_auth_guard_def
  by (auto intro!: keeps_intro keeps_resolve_principal simp: boot_subjects_def split: option.splits)

lemma keeps_verify: "keeps I (verify_and_touch cfg up now tok)"
  unfolding keeps_def verify_and_touch_def by (auto simp: Let_def tokens_free split: option.splits)

lemma keeps_plugin: "keeps I (plugin_token_guard env pub up now h)"
  unfolding plugin_token_guard_def
  by (auto intro!: keeps_intro keeps_verify split: option.splits prod.splits)

lemma keeps_flexible: "boot_subjects env \<subseteq> B \<Longrightarrow> keeps I (flexible_auth_guard env pub up now i h)"
  unfolding flexible_auth_guard_def by (auto intro!: keeps_intro keeps_plugin keeps_keycloak)

lemma keeps_optional: "boot_subjects env \<subseteq> B \<Longrightarrow> keeps I (optional_auth_guard env pub up now i h)"
  using keeps_flexible [of env pub up now i h]
  by (auto simp: keeps_def optional_auth_guard_def split: prod.splits sum.splits)

lemma keeps_attach: "keeps I g \<Longrightarrow> keeps I (attach who g)"
  unfolding attach_def by (intro keeps_intro)

lemma keeps_on_redis: "keeps I (on_redis m)"
  by (auto simp: keeps_def on_redis_def redis_free split: prod.splits)

lemma keeps_guard: "boot_subjects (sv_auth sv) \<subseteq> B \<Longrightarrow> keeps I (run_guard sv pub rq g who)"
  by (cases g) (auto intro!: keeps_intro keeps_attach keeps_keycloak keeps_flexible keeps_optional keeps_on_redis)

lemma keeps_guards: "boot_subjects (sv_auth sv) \<subseteq> B \<Longrightarrow> keeps I (run_guards sv pub rq gs who)"
  by (induction gs arbitrary: who) (auto intro!: keeps_intro keeps_guard)

lemma keeps_admit: "boot_subjects (sv_auth sv) \<subseteq> B \<Longrightarrow> keeps I (admit sv r rq)"
  unfolding admit_def by (erule keeps_guards)

end

locale request_invariant = guard_invariant +
  assumes audit_free: "I w \<Longrightarrow> I (audit_logs_update f w)"
begin

lemma keeps_audited: "keeps I h \<Longrightarrow> keeps I (audited now c rq h)"
  unfolding audited_def audit_record_def
  by (auto intro!: keeps_intro keeps_upd audit_free split: option.splits)

lemma keeps_serve: "boot_subjects (sv_auth sv) \<subseteq> B \<Longrightarrow> (\<And>who. keeps I (h who)) \<Longrightarrow> keeps I (serve sv r rq h)"
  unfolding serve_def by (intro keeps_intro keeps_admit keeps_audited)

lemma keeps_serve_looping:
  assumes "\<And>who v x. h who v = Some x \<Longrightarrow> I v \<Longrightarrow> I (snd x)" and "serve_looping sv r rq h w = Some y" and "I w"
    and "boot_subjects (sv_auth sv) \<subseteq> B"
  shows "I (snd y)"
proof -
  obtain e v where a: "admit sv r rq w = (e, v)" by (cases "admit sv r rq w")
  with keepsD [OF keeps_admit [OF assms(4)] assms(3)] have v: "I v" by blast
  show ?thesis
  proof (cases e)
    case (Inl b)
    with a v assms(2) show ?thesis by (auto simp: serve_looping_def lbnd_def always_def)
  next
    case (Inr who)
    with a assms(2) obtain r' v' where h: "h who v = Some (r', v')"
      by (auto simp: serve_looping_def lbnd_def always_def split: option.splits)
    from assms(1) [OF this v] have v': "I v'" by simp
    have k: "keeps I (audited t c q (ret x))" for t c q and x :: 'a by (rule keeps_audited) (rule keeps_ret)
    from Inr a assms(2) h k v' show ?thesis
      by (auto simp: serve_looping_def lbnd_def always_def keeps_def split: sum.splits)
  qed
qed

end

interpretation guards_frame: guard_invariant "\<lambda>w. guard_view w = v" UNIV
  by unfold_locales simp_all

subsection \<open>Who gets through\<close>

text \<open>An order of guards that runs all of them.\<close>

definition runs_all :: "(guard_ref list \<Rightarrow> guard_ref list \<Rightarrow> guard_ref list) \<Rightarrow> bool" where
  "runs_all ord \<longleftrightarrow> (\<forall>cs ms. set (ord cs ms) = set cs \<union> set ms)"

lemma runs_all_nest: "runs_all nest_order"
  by (simp add: runs_all_def nest_order_def)

definition per_user :: "guard_ref \<Rightarrow> bool" where
  "per_user g = (case g of RateLimitG cfg \<Rightarrow> rl_scope cfg = ScopeUser | _ \<Rightarrow> True)"

definition signed_in_route :: "route \<Rightarrow> bool" where
  "signed_in_route r \<longleftrightarrow> \<not> rt_public r \<and> list_all per_user (rt_class r @ rt_method r) \<and>
     (KeycloakG \<in> set (rt_class r @ rt_method r) \<or> FlexibleG \<in> set (rt_class r @ rt_method r) \<or> AdminG \<in> set (rt_class r @ rt_method r))"

definition unknown_bearer :: "server \<Rightarrow> http_request \<Rightarrow> bool" where
  "unknown_bearer sv rq =
     (case extract_bearer (hr_authorization rq) of
        None \<Rightarrow> True
      | Some tok \<Rightarrow> tok = [] \<or> ae_jwks (sv_auth sv) tok = None)"

definition dead_plugin_token :: "server \<Rightarrow> http_request \<Rightarrow> world \<Rightarrow> bool" where
  "dead_plugin_token sv rq w =
     (case extract_plugin_token (hr_authorization rq) of
        None \<Rightarrow> True
      | Some tok \<Rightarrow>
          tok = [] \<or>
          (case token_row_of (ae_tokens (sv_auth sv)) tok w of
             None \<Rightarrow> True
           | Some r \<Rightarrow> \<not> token_active (sv_now sv) r))"

definition stranger :: "server \<Rightarrow> http_request \<Rightarrow> world \<Rightarrow> bool" where
  "stranger sv rq w \<longleftrightarrow> unknown_bearer sv rq \<and> dead_plugin_token sv rq w"

lemma stranger_without_header [simp]: "hr_authorization rq = None \<Longrightarrow> stranger sv rq w"
  by (simp add: stranger_def unknown_bearer_def dead_plugin_token_def extract_bearer_def extract_plugin_token_def)

lemma stranger_no_bearer:
  "stranger sv rq w \<Longrightarrow> keycloak_auth_guard (sv_auth sv) False up now i (hr_authorization rq) w = (Inl Unauthorized, w)"
  by (auto simp: stranger_def unknown_bearer_def keycloak_auth_guard_def act_simps split: option.splits)

lemma dead_token_unverified:
  assumes "case token_row_of cfg tok w of None \<Rightarrow> True | Some r \<Rightarrow> \<not> token_active now r"
  shows "verify_and_touch cfg touch_ok now tok w = (Inr None, w)"
  using assms by (cases "token_row_of cfg tok w") (simp_all add: verify_and_touch_def)

lemma stranger_no_plugin_token:
  assumes "stranger sv rq w"
  shows "\<exists>e. plugin_token_guard (sv_auth sv) False up (sv_now sv) (hr_authorization rq) w = (Inl e, w)"
proof (cases "extract_plugin_token (hr_authorization rq)")
  case (Some tok)
  show ?thesis
  proof (cases "tok = []")
    case True
    with Some show ?thesis by (simp add: plugin_token_guard_def throw_def)
  next
    case False
    with assms Some have "verify_and_touch (ae_tokens (sv_auth sv)) up (sv_now sv) tok w = (Inr None, w)"
      by (intro dead_token_unverified) (simp add: stranger_def dead_plugin_token_def)
    with Some False show ?thesis by (simp add: plugin_token_guard_def bnd_apply throw_def)
  qed
qed (simp add: plugin_token_guard_def throw_def)

lemma stranger_not_let_in:
  assumes "stranger sv rq w"
  shows "\<exists>e. flexible_auth_guard (sv_auth sv) False up (sv_now sv) i (hr_authorization rq) w = (Inl e, w)"
  using stranger_no_bearer [OF assms] stranger_no_plugin_token [OF assms, of up]
  by (auto simp: flexible_auth_guard_def act_simps)

lemma guard_for_stranger:
  assumes "stranger sv rq w" and "per_user g"
  shows "(\<exists>e. run_guard sv False rq g None w = (Inl e, w)) \<or>
     (run_guard sv False rq g None w = (Inr None, w) \<and> g \<notin> {KeycloakG, FlexibleG, AdminG})"
proof -
  obtain e where e: "flexible_auth_guard (sv_auth sv) False (sv_up sv) (sv_now sv) (sv_userId sv) (hr_authorization rq) w = (Inl e, w)"
    using stranger_not_let_in [OF assms(1)] by blast
  note stranger_no_bearer [OF assms(1), simp] e [simp]
  show ?thesis
    using assms(2)
    by (cases g) (auto simp: attach_def act_simps optional_auth_guard_def per_user_def identity_id_def
        asks_redis_def on_redis_def rate_limit_guard_def split: sum.splits)
qed

lemma guards_for_stranger:
  assumes "stranger sv rq w" and "list_all per_user gs"
  shows "(\<exists>e. run_guards sv False rq gs None w = (Inl e, w)) \<or>
     (run_guards sv False rq gs None w = (Inr None, w) \<and> set gs \<inter> {KeycloakG, FlexibleG, AdminG} = {})"
  using assms(2)
proof (induction gs)
  case (Cons g gs)
  then show ?case using guard_for_stranger [OF assms(1), of g]
    by (cases "\<exists>e. run_guard sv False rq g None w = (Inl e, w)") (auto simp: act_simps)
qed simp

lemma serve_stranger:
  assumes "stranger sv rq w" and "runs_all (sv_order sv)" and "signed_in_route r"
  shows "\<exists>e. serve sv r rq h w = (Inl e, w)"
    and "\<exists>e. serve_looping sv r rq h' w = Some (Inl e, w)"
proof -
  have gs: "set (sv_order sv (rt_class r) (rt_method r)) = set (rt_class r @ rt_method r)"
    using assms(2) by (simp add: runs_all_def)
  have "list_all per_user (sv_order sv (rt_class r) (rt_method r))"
    using assms(3) by (simp add: signed_in_route_def list_all_iff gs)
  from guards_for_stranger [OF assms(1) this] assms(3)
  obtain e where "admit sv r rq w = (Inl e, w)" by (auto simp: admit_def signed_in_route_def gs)
  then show "\<exists>e. serve sv r rq h w = (Inl e, w)" and "\<exists>e. serve_looping sv r rq h' w = Some (Inl e, w)"
    by (simp_all add: serve_def serve_looping_def lbnd_def always_def)
qed

text \<open>
  The callers whom the console answers, read off the request and the state alone: the bearer token is verified, and its
  subject is an admin according to the principal that Redis holds for it or, when Redis holds none, because a row of the
  table says so or because the address in the claims is that of the bootstrap admin.
\<close>

definition admin_caller :: "server \<Rightarrow> http_request \<Rightarrow> world \<Rightarrow> bool" where
  "admin_caller sv rq w \<longleftrightarrow>
     (\<exists>tok c. extract_bearer (hr_authorization rq) = Some tok \<and> tok \<noteq> [] \<and> ae_jwks (sv_auth sv) tok = Some c \<and>
        (case cached_principal (ae_date_parse (sv_auth sv)) (sv_up sv) (sv_now sv) (cl_sub c) w of
           Some (u, _) \<Rightarrow> u_isAdmin u
         | None \<Rightarrow>
             or_else (cl_email c) [] \<noteq> [] \<and>
             ((\<exists>u \<in> set (users w). u_sub u = cl_sub c \<and> u_isAdmin u) \<or>
              lower (or_else (cl_email c) []) = lower (ae_bootstrap (sv_auth sv)))))"

definition admin_route :: "route \<Rightarrow> bool" where
  "admin_route r \<longleftrightarrow> \<not> rt_public r \<and> AdminG \<in> set (rt_class r @ rt_method r) \<and>
     list_all (\<lambda>g. g \<in> {AdminG, ConfirmationG}) (rt_class r @ rt_method r)"

lemma upserted_admin:
  assumes "upsert_user bootstrap now i c w = (Inr u, w')" and "u_isAdmin u"
  shows "or_else (cl_email c) [] \<noteq> [] \<and>
     ((\<exists>v \<in> set (users w). u_sub v = cl_sub c \<and> u_isAdmin v) \<or> lower (or_else (cl_email c) []) = lower bootstrap)"
  using assms unfolding upsert_user_def Let_def or_else_def [symmetric]
  by (auto simp: act_simps lower_def split: if_splits option.splits dest!: find_row_SomeD)

lemma resolved_admin:
  assumes "resolve_principal dp bootstrap up now i c w = (Inr (u, role), w')" and "u_isAdmin u"
  shows "case cached_principal dp up now (cl_sub c) w of
       Some (v, _) \<Rightarrow> u_isAdmin v
     | None \<Rightarrow>
         or_else (cl_email c) [] \<noteq> [] \<and>
         ((\<exists>v \<in> set (users w). u_sub v = cl_sub c \<and> u_isAdmin v) \<or> lower (or_else (cl_email c) []) = lower bootstrap)"
proof (cases "cached_principal dp up now (cl_sub c) w")
  case None
  with assms(1) obtain w1 where "upsert_user bootstrap now i c w = (Inr u, w1)"
    by (auto simp: resolve_principal_def bnd_gets bnd_eq_Inr_conv)
  from upserted_admin [OF this assms(2)] None show ?thesis by simp
next
  case (Some p)
  with assms show ?thesis by (cases p) (simp add: resolve_principal_def act_simps)
qed

lemma admin_guard_admits:
  assumes "run_guard sv False rq AdminG who w = (Inr who', w')"
  shows "admin_caller sv rq w"
proof -
  let ?env = "sv_auth sv"
  obtain tok c u role v where "extract_bearer (hr_authorization rq) = Some tok" "tok \<noteq> []" "ae_jwks ?env tok = Some c"
    and r: "resolve_principal (ae_date_parse ?env) (ae_bootstrap ?env) (sv_up sv) (sv_now sv) (sv_userId sv) c w = (Inr (u, role), v)"
    and "u_isAdmin u"
    using assms by (auto simp: attach_def bnd_eq_Inr_conv keycloak_auth_guard_def admin_guard_def
        split: option.splits if_splits bool.splits)
  with resolved_admin [OF r] show ?thesis unfolding admin_caller_def by blast
qed

lemma admin_guards_admit:
  assumes "list_all (\<lambda>g. g \<in> {AdminG, ConfirmationG}) gs" and "AdminG \<in> set gs"
    and "run_guards sv False rq gs who w = (Inr who', w')"
  shows "admin_caller sv rq w"
  using assms
proof (induction gs arbitrary: who)
  case (Cons g gs)
  from Cons.prems(3) obtain who1 w1 where g: "run_guard sv False rq g who w = (Inr who1, w1)"
    and rest: "run_guards sv False rq gs who1 w1 = (Inr who', w')"
    by (auto simp: bnd_eq_Inr_conv)
  show ?case
  proof (cases "g = AdminG")
    case True
    with g show ?thesis using admin_guard_admits by blast
  next
    case False
    with Cons.prems(1) g have "w1 = w" by (auto simp: bnd_eq_Inr_conv act_simps from_sum_def split: sum.splits)
    with False Cons.IH [of who1] Cons.prems(1,2) rest show ?thesis by auto
  qed
qed simp

lemma admit_admin:
  assumes "runs_all (sv_order sv)" and "admin_route r" and "admit sv r rq w = (Inr who, v)"
  shows "admin_caller sv rq w"
proof -
  have gs: "set (sv_order sv (rt_class r) (rt_method r)) = set (rt_class r @ rt_method r)"
    using assms(1) by (simp add: runs_all_def)
  have "list_all (\<lambda>g. g \<in> {AdminG, ConfirmationG}) (sv_order sv (rt_class r) (rt_method r))"
    and "AdminG \<in> set (sv_order sv (rt_class r) (rt_method r))"
    using assms(2) unfolding admin_route_def list_all_iff gs by blast+
  from admin_guards_admit [OF this] assms(2,3) show ?thesis
    by (simp add: admit_def admin_route_def)
qed

end
