(* ===== verification/Reports.thy ===== *)
theory Reports
  imports Moderation
begin

section \<open>Reports\<close>

text \<open>
  \<open>src/modules/reports/reports.service.ts\<close>: a user reports an asset, every admin and the owner are notified,
  and an admin reviews, dismisses or acts on the report.  Acting may archive, delete or destroy the asset
  through the moderation service, so \<open>action_report\<close> is a looping handler.  \<open>date_parse\<close> is \<open>Date.parse\<close>, with
  \<open>None\<close> for a result that is not finite.
\<close>

definition report_by :: "string \<Rightarrow> world \<Rightarrow> report_row option" where
  "report_by i w = find_row r_id i (reports w)"

definition set_report :: "string \<Rightarrow> (report_row \<Rightarrow> report_row) \<Rightarrow> world \<Rightarrow> world" where
  "set_report i f = reports_update (set_rows (\<lambda>r. r_id r = i) f)"

record create_report =
  cr_assetId :: string
  cr_category :: report_category
  cr_notes :: string

fun report_category_name :: "report_category \<Rightarrow> string" where
  "report_category_name MALICIOUS_FILE = ''MALICIOUS_FILE''"
| "report_category_name BROKEN_ASSET = ''BROKEN_ASSET''"

definition active_admins :: "world \<Rightarrow> user_row list" where
  "active_admins w = filter (\<lambda>u. u_isAdmin u \<and> u_deletedAt u = None) (users w)"

definition report_payload :: "string \<Rightarrow> asset_row \<Rightarrow> report_category \<Rightarrow> (string \<times> json) list" where
  "report_payload i a category =
     (''reportId'', JStr i) # asset_ref_fields a @ [(''category'', JStr (report_category_name category))]"

definition report_notices :: "string \<Rightarrow> asset_row \<Rightarrow> report_category \<Rightarrow> user_row \<Rightarrow> user_row list \<Rightarrow> notify_job list" where
  "report_notices i a category reporter admins =
     (let base = report_payload i a category
      in (if a_ownerId a \<noteq> u_id reporter then [notify_of (a_ownerId a) REPORT_RECEIVED_FOR_YOUR_ASSET base reporter] else []) @
         map (\<lambda>u. notify_of (u_id u) REPORT_CREATED (base @ [(''reporter'', user_ref_json reporter)]) reporter) admins)"

definition create_report_row :: "int \<Rightarrow> string \<Rightarrow> create_report \<Rightarrow> user_row \<Rightarrow> string handler" where
  "create_report_row now i dto reporter =
     bnd (fetch (asset_by (cr_assetId dto)) (NotFoundDomain ASSET_NOT_FOUND)) (\<lambda>a.
     bnd (upd (reports_update (\<lambda>rs. rs @
            [\<lparr>r_id = i, r_reporterId = u_id reporter, r_assetId = cr_assetId dto, r_category = cr_category dto,
              r_notes = cr_notes dto, r_status = R_OPEN, r_adminNotes = None, r_createdAt = now, r_resolvedAt = None\<rparr>]))) (\<lambda>_.
     bnd (gets active_admins) (\<lambda>admins.
     bnd (each enqueueNotify (report_notices i a (cr_category dto) reporter admins)) (\<lambda>_. ret i))))"

subsection \<open>Reading\<close>

record report_dto =
  rd_row :: report_row
  rd_assetTitle :: string
  rd_assetSlug :: string
  rd_reporter :: "user_ref option"

definition report_dto_of :: "world \<Rightarrow> report_row \<Rightarrow> report_dto" where
  "report_dto_of w r =
     \<lparr>rd_row = r, rd_assetTitle = (case asset_by (r_assetId r) w of None \<Rightarrow> [] | Some a \<Rightarrow> a_title a),
      rd_assetSlug = (case asset_by (r_assetId r) w of None \<Rightarrow> [] | Some a \<Rightarrow> a_slug a),
      rd_reporter = map_option user_ref_of (user_by (r_reporterId r) w)\<rparr>"

record list_reports_query =
  lrq_status :: "report_status option"
  lrq_category :: "report_category option"
  lrq_limit :: "int option"
  lrq_cursor :: "string option"

definition report_listing :: "(report_status option \<times> report_category option) \<times> world \<Rightarrow> report_row list" where
  "report_listing =
     (\<lambda>((status, category), w). order_desc (\<lambda>r. (r_createdAt r, r_id r))
        (filter (\<lambda>r. (case status of None \<Rightarrow> True | Some s \<Rightarrow> r_status r = s) \<and>
           (case category of None \<Rightarrow> True | Some c \<Rightarrow> r_category r = c)) (reports w)))"

definition report_cursor :: "report_row \<Rightarrow> cursor" where
  "report_cursor r = \<lparr>cur_createdAt = iso_string (r_createdAt r), cur_id = r_id r\<rparr>"

definition list_reports :: "list_reports_query \<Rightarrow> world \<Rightarrow> app_error + report_dto page" where
  "list_reports query w =
     sum_bind (list_page r_id report_cursor (resolve_page_size (lrq_limit query)) (lrq_cursor query)
                 (report_listing ((lrq_status query, lrq_category query), w))) (\<lambda>p.
     Inr \<lparr>pg_items = map (report_dto_of w) (pg_items p), pg_nextCursor = pg_nextCursor p, pg_hasMore = pg_hasMore p\<rparr>)"

interpretation report_pages: paged_listing r_id report_cursor report_listing
    "\<lambda>(_, w). distinct (map r_id (reports w))"
  by unfold_locales (auto simp: report_listing_def report_cursor_def)

definition get_report :: "string \<Rightarrow> report_dto handler" where
  "get_report i =
     bnd (fetch (report_by i) (NotFoundDomain REQUEST_NOT_FOUND)) (\<lambda>r.
     gets (\<lambda>w. report_dto_of w r))"

subsection \<open>Deciding\<close>

definition report_audit :: "int \<Rightarrow> user_row \<Rightarrow> string \<Rightarrow> string \<Rightarrow> (string \<times> json) list option \<Rightarrow> unit handler" where
  "report_audit now admin action i meta =
     audit_record now (Some (u_id admin)) action ''Report'' i (map_option JObj meta)"

definition start_review :: "int \<Rightarrow> string \<Rightarrow> user_row \<Rightarrow> unit handler" where
  "start_review now i admin =
     bnd (fetch (report_by i) (NotFoundDomain REQUEST_NOT_FOUND)) (\<lambda>r.
     bnd (check (r_status r = R_OPEN) (BadRequest ASSET_ARCHIVE_BLOCKED)) (\<lambda>_.
     bnd (upd (set_report i (r_status_update (\<lambda>_. R_REVIEWING)))) (\<lambda>_.
     report_audit now admin ''report.start_review'' i None)))"

definition resolve_report :: "int \<Rightarrow> string \<Rightarrow> report_status \<Rightarrow> string \<Rightarrow> unit handler" where
  "resolve_report now i status adminNotes =
     upd (set_report i (\<lambda>r. r\<lparr>r_status := status, r_adminNotes := Some adminNotes, r_resolvedAt := Some now\<rparr>))"

definition dismiss_report :: "int \<Rightarrow> string \<Rightarrow> user_row \<Rightarrow> string \<Rightarrow> unit handler" where
  "dismiss_report now i admin adminNotes =
     bnd (fetch (report_by i) (NotFoundDomain REQUEST_NOT_FOUND)) (\<lambda>_.
     bnd (resolve_report now i R_DISMISSED adminNotes) (\<lambda>_.
     report_audit now admin ''report.dismiss'' i (Some [(''adminNotes'', JStr adminNotes)])))"

datatype report_action = NothingAction | ArchiveAssetAction | DeleteAssetAction | ForceDeleteAssetAction

fun report_action_name :: "report_action \<Rightarrow> string" where
  "report_action_name NothingAction = ''NOTHING''"
| "report_action_name ArchiveAssetAction = ''ARCHIVE_ASSET''"
| "report_action_name DeleteAssetAction = ''DELETE_ASSET''"
| "report_action_name ForceDeleteAssetAction = ''FORCE_DELETE_ASSET''"

record action_report_dto =
  ard_adminNotes :: string
  ard_action :: report_action
  ard_confirm :: "string option"
  ard_confirmedAt :: "string option"

definition em_dash :: string where
  "em_dash = [CHR 0xE2, CHR 0x80, CHR 0x94]"

definition action_reason :: "string \<Rightarrow> string \<Rightarrow> string" where
  "action_reason i adminNotes = ''report:'' @ i @ '' '' @ em_dash @ '' '' @ take 200 adminNotes"

record action_env =
  ae_cfg :: s3_config
  ae_store :: object_store
  ae_client :: s3_client
  ae_meili :: "string list \<Rightarrow> app_error + unit"
  ae_redisUp :: bool
  ae_date_parse :: "string \<Rightarrow> int option"

fun apply_action :: "action_env \<Rightarrow> int \<Rightarrow> report_action \<Rightarrow> string \<Rightarrow> user_row \<Rightarrow> string \<Rightarrow> string \<Rightarrow> unit looping" where
  "apply_action env now NothingAction assetId admin adminNotes i = always (ret ())"
| "apply_action env now ArchiveAssetAction assetId admin adminNotes i =
     always (moderate_archive (ae_redisUp env) now assetId admin (action_reason i adminNotes))"
| "apply_action env now DeleteAssetAction assetId admin adminNotes i =
     always (moderate_soft_delete (ae_redisUp env) now assetId admin (action_reason i adminNotes))"
| "apply_action env now ForceDeleteAssetAction assetId admin adminNotes i =
     force_delete (ae_cfg env) (ae_store env) (ae_client env) (ae_meili env) (ae_redisUp env) now assetId admin
       (action_reason i adminNotes)"

definition confirm_action :: "(string \<Rightarrow> int option) \<Rightarrow> int \<Rightarrow> action_report_dto \<Rightarrow> app_error + unit" where
  "confirm_action date_parse now dto =
     (if ard_action dto \<noteq> ForceDeleteAssetAction then Inr ()
      else if ard_confirm dto \<noteq> Some CONFIRMATION_PHRASE \<or> \<not> truthy_str (ard_confirmedAt dto)
      then Inl (BadRequest CONFIRMATION_REQUIRED)
      else
        (case date_parse (or_else (ard_confirmedAt dto) []) of
           None \<Rightarrow> Inl (BadRequest CONFIRMATION_EXPIRED)
         | Some ts \<Rightarrow> if 60000 < now - ts then Inl (BadRequest CONFIRMATION_EXPIRED) else Inr ()))"

definition action_report :: "action_env \<Rightarrow> int \<Rightarrow> string \<Rightarrow> user_row \<Rightarrow> action_report_dto \<Rightarrow> unit looping" where
  "action_report env now i admin dto =
     lbnd (always (fetch (report_by i) (NotFoundDomain REQUEST_NOT_FOUND))) (\<lambda>r.
     lbnd (always (from_sum (confirm_action (ae_date_parse env) now dto))) (\<lambda>_.
     lbnd (apply_action env now (ard_action dto) (r_assetId r) admin (ard_adminNotes dto) i) (\<lambda>_.
     always
       (bnd (resolve_report now i R_ACTIONED (ard_adminNotes dto)) (\<lambda>_.
        report_audit now admin ''report.action'' i
          (Some [(''action'', JStr (report_action_name (ard_action dto))), (''assetId'', JStr (r_assetId r)),
                 (''adminNotes'', JStr (ard_adminNotes dto))])))))) "

subsection \<open>Who is told\<close>

lemma each_notify:
  "each enqueueNotify js w =
     (if queue_down w \<and> js \<noteq> [] then (Inl queue_failed, w)
      else (Inr (), jobs_update (\<lambda>q. q @ map (\<lambda>j. \<lparr>jb_id = None, jb_payload = NotifyJob j\<rparr>) js) w))"
  by (induction js arbitrary: w) (simp_all add: enqueueNotify_def act_simps comp_def)

lemma each_notify_done:
  "each enqueueNotify js w = (Inr (), w') \<Longrightarrow> w' = jobs_update (\<lambda>q. q @ map (\<lambda>j. \<lparr>jb_id = None, jb_payload = NotifyJob j\<rparr>) js) w"
  by (simp add: each_notify split: if_splits)

text \<open>
  A report that is accepted is stored open, and queues one notification for the owner, unless the owner wrote
  it, and one for every active admin, in this order and nothing else.
\<close>

theorem report_recipients:
  assumes "create_report_row now i dto reporter w = (Inr i', w')"
  shows "i' = i \<and> (\<exists>a js. asset_by (cr_assetId dto) w = Some a \<and>
      jobs w' = jobs w @ map (\<lambda>j. \<lparr>jb_id = None, jb_payload = NotifyJob j\<rparr>) js \<and>
      map nj_recipient js = (if a_ownerId a \<noteq> u_id reporter then [a_ownerId a] else []) @ map u_id (active_admins w) \<and>
      map r_status (reports w') = map r_status (reports w) @ [R_OPEN])"
proof -
  obtain a where a: "asset_by (cr_assetId dto) w = Some a"
    using assms by (cases "asset_by (cr_assetId dto) w") (simp_all add: create_report_row_def act_simps)
  have "active_admins (reports_update f w) = active_admins w" for f by (simp add: active_admins_def)
  moreover have "map nj_recipient (report_notices i a (cr_category dto) reporter (active_admins w)) =
      (if a_ownerId a \<noteq> u_id reporter then [a_ownerId a] else []) @ map u_id (active_admins w)"
    by (simp add: report_notices_def Let_def notify_of_def comp_def)
  ultimately show ?thesis
    using assms a by (auto simp: create_report_row_def bnd_fetch bnd_upd bnd_gets bnd_eq_Inr_conv dest!: each_notify_done)
qed

theorem report_recipients_witness:
  "jobs (snd (create_report_row 5 ''r1'' \<lparr>cr_assetId = ''a'', cr_category = BROKEN_ASSET, cr_notes = ''broken''\<rparr> bob draft_world)) \<noteq> []"
proof -
  let ?dto = "\<lparr>cr_assetId = ''a'', cr_category = BROKEN_ASSET, cr_notes = ''broken''\<rparr>"
  obtain w' where run: "create_report_row 5 ''r1'' ?dto bob draft_world = (Inr ''r1'', w')"
    by (simp add: create_report_row_def act_simps each_notify)
  from report_recipients [OF run] show ?thesis by (auto simp: run)
qed

subsection \<open>The states of a report\<close>

definition report_ok :: "report_row \<Rightarrow> bool" where
  "report_ok r \<longleftrightarrow> ((r_status r = R_ACTIONED \<or> r_status r = R_DISMISSED) \<longleftrightarrow> r_resolvedAt r \<noteq> None) \<and>
     (r_adminNotes r \<noteq> None \<longleftrightarrow> r_resolvedAt r \<noteq> None)"

definition reports_ok :: "world \<Rightarrow> bool" where
  "reports_ok w \<longleftrightarrow> distinct (map r_id (reports w)) \<and> (\<forall>r \<in> set (reports w). report_ok r)"

lemma reports_ok_cong: "reports w' = reports w \<Longrightarrow> reports_ok w' = reports_ok w"
  by (simp add: reports_ok_def)

lemma reports_ok_set:
  assumes "reports_ok w" and "\<And>r. r_id (f r) = r_id r" and "\<And>r. r \<in> set (reports w) \<Longrightarrow> r_id r = i \<Longrightarrow> report_ok (f r)"
  shows "reports_ok (set_report i f w)"
  using assms by (auto simp: reports_ok_def set_report_def row_simps set_set_rows)

lemma reports_ok_audit [simp]: "reports_ok (audit_logs_update f w) = reports_ok w"
  by (rule reports_ok_cong) simp

lemma apply_action_reports:
  assumes "apply_action env now act assetId admin notes' i w = Some (r, w')"
  shows "reports w' = reports w"
proof -
  have m: "inert reports (moderate_status up now st sr action j u reason)" for up st sr action j u reason
    unfolding inert_iff_keeps moderate_status_def find_asset_or_throw_def invalidate_categories_def cache_invalidate_def
      enqueue_defs moderation_audit_def audit_record_def
    by (auto intro!: keeps_intro keeps_upd keeps_submit simp: set_asset_def)
  show ?thesis
    using assms
    by (cases act) (auto simp: moderate_archive_def moderate_soft_delete_def dest: inertD [OF m] force_delete_reports)
qed

inductive reports_reached :: "world \<Rightarrow> bool" where
  rr_init: "reports w = [] \<Longrightarrow> reports_reached w"
| rr_create: "reports_reached w \<Longrightarrow> i \<notin> r_id ` set (reports w) \<Longrightarrow> create_report_row now i dto u w = (r1, w') \<Longrightarrow> reports_reached w'"
| rr_review: "reports_reached w \<Longrightarrow> start_review now i u w = (r2, w') \<Longrightarrow> reports_reached w'"
| rr_dismiss: "reports_reached w \<Longrightarrow> dismiss_report now i u notes' w = (r2, w') \<Longrightarrow> reports_reached w'"
| rr_action: "reports_reached w \<Longrightarrow> action_report env now i u ad w = Some (r2, w') \<Longrightarrow> reports_reached w'"

lemma reports_ok_resolve:
  "reports_ok w \<Longrightarrow> status = R_ACTIONED \<or> status = R_DISMISSED \<Longrightarrow>
     reports_ok (set_report i (\<lambda>r. r\<lparr>r_status := status, r_adminNotes := Some n, r_resolvedAt := Some now\<rparr>) w)"
  by (rule reports_ok_set) (auto simp: report_ok_def)

lemma reports_ok_create:
  assumes "reports_ok w" and "i \<notin> r_id ` set (reports w)" and "create_report_row now i dto u w = (r, w')"
  shows "reports_ok w'"
  using assms by (cases "asset_by (cr_assetId dto) w")
    (auto simp: create_report_row_def act_simps each_notify reports_ok_def report_ok_def split: if_splits)

lemma report_byD: "report_by i w = Some r \<Longrightarrow> r \<in> set (reports w) \<and> r_id r = i"
  unfolding report_by_def by (rule find_row_SomeD)

lemma reports_ok_review:
  assumes "reports_ok w" and "start_review now i u w = (r, w')"
  shows "reports_ok w'"
proof (cases "\<exists>row. report_by i w = Some row \<and> r_status row = R_OPEN")
  case False
  with assms show ?thesis by (auto simp: start_review_def act_simps split: option.splits if_splits)
next
  case True
  then obtain row where row: "report_by i w = Some row" "r_status row = R_OPEN" by blast
  have "reports_ok (set_report i (r_status_update (\<lambda>_. R_REVIEWING)) w)"
  proof (rule reports_ok_set [OF assms(1)])
    fix x
    assume x: "x \<in> set (reports w)" "r_id x = i"
    from assms(1) have "inj_on r_id (set (reports w))" by (simp add: reports_ok_def distinct_map)
    then have "x = row" by (rule inj_onD) (use x report_byD [OF row(1)] in simp_all)
    moreover have "report_ok row" using assms(1) report_byD [OF row(1)] by (simp add: reports_ok_def)
    ultimately show "report_ok (r_status_update (\<lambda>_. R_REVIEWING) x)" using row(2) by (simp add: report_ok_def)
  qed simp
  then show ?thesis using assms(2) row by (auto simp: start_review_def act_simps report_audit_def audit_record_def)
qed

lemma reports_ok_dismiss:
  assumes "reports_ok w" and "dismiss_report now i u n w = (r, w')"
  shows "reports_ok w'"
  using assms reports_ok_resolve [where w = w and status = R_DISMISSED and i = i and n = n and now = now]
  by (auto simp: dismiss_report_def act_simps resolve_report_def report_audit_def audit_record_def split: option.splits)

lemma reports_ok_action:
  assumes "reports_ok w" and "action_report env now i u ad w = Some (r, w')"
  shows "reports_ok w'"
proof (cases "report_by i w")
  case None
  with assms show ?thesis by (simp add: action_report_def lbnd_def)
next
  case (Some row)
  show ?thesis
  proof (cases "confirm_action (ae_date_parse env) now ad")
    case (Inl e)
    with assms Some show ?thesis by (simp add: action_report_def lbnd_def)
  next
    case (Inr x)
    obtain q s where q: "apply_action env now (ard_action ad) (r_assetId row) u (ard_adminNotes ad) i w = Some (q, s)"
      using assms(2) Some Inr by (auto simp: action_report_def lbnd_def split: option.splits)
    then have s: "reports_ok s" using assms(1) reports_ok_cong [OF apply_action_reports [OF q]] by simp
    show ?thesis
      using assms(2) Some Inr q s reports_ok_resolve [OF s, where status = R_ACTIONED and i = i and n = "ard_adminNotes ad" and now = now]
      by (cases q) (auto simp: action_report_def lbnd_def act_simps resolve_report_def report_audit_def audit_record_def)
  qed
qed

text \<open>
  In every state that creating, reviewing, dismissing and acting on reports reaches, ids are unique, and a
  report has a resolution time and admin notes exactly when it is actioned or dismissed.
\<close>

theorem reached_reports_ok: "reports_reached w \<Longrightarrow> reports_ok w"
proof (induction rule: reports_reached.induct)
  case (rr_init w)
  then show ?case by (simp add: reports_ok_def)
qed (blast intro: reports_ok_create reports_ok_review reports_ok_dismiss reports_ok_action)+

theorem reached_reports_ok_witness: "reports_ok (snd (dismiss_report 7 ''r1'' bob ''fine'' empty_world))"
  by (rule reached_reports_ok [OF rr_dismiss [OF rr_init surjective_pairing]]) simp

text \<open>
  C28: destroying an asset through a report never succeeds: the report itself refers to the asset, so the
  database refuses, and the report stays as it was (the objects may be gone by then).
\<close>

theorem report_force_delete_never_succeeds:
  assumes "lists_prefixes (ae_cfg env) (ae_store env) rest" and "report_by i w = Some r"
    and "asset_by (r_assetId r) w = Some a" and "ard_action dto = ForceDeleteAssetAction"
  shows "\<exists>e w'. action_report env now i admin dto w = Some (Inl e, w') \<and> reports w' = reports w"
proof -
  have ref: "asset_referenced (r_assetId r) w"
    using report_byD [OF assms(2)] by (auto simp: asset_referenced_def row_simps)
  obtain e w' where fd: "force_delete (ae_cfg env) (ae_store env) (ae_client env) (ae_meili env) (ae_redisUp env) now
      (r_assetId r) admin (action_reason i (ard_adminNotes dto)) w = Some (Inl e, w')"
    using force_delete_refused [OF assms(1,3) ref] by blast
  show ?thesis
    using fd force_delete_reports [OF fd] assms(2,4)
    by (cases "confirm_action (ae_date_parse env) now dto") (simp_all add: action_report_def lbnd_def)
qed

theorem report_force_delete_never_succeeds_witness:
  "\<exists>e w'. action_report \<lparr>ae_cfg = cfg0, ae_store = one_by_one, ae_client = client0, ae_meili = (\<lambda>_. Inr ()), ae_redisUp = True,
       ae_date_parse = (\<lambda>_. Some 100)\<rparr> 200 ''r'' bob
     \<lparr>ard_adminNotes = ''gone'', ard_action = ForceDeleteAssetAction, ard_confirm = Some ''I understand'',
      ard_confirmedAt = Some ''now''\<rparr> reported_world = Some (Inl e, w')"
proof -
  have r: "\<exists>r. report_by ''r'' reported_world = Some r \<and> r_assetId r = ''a''" by (simp add: reported_world_def report_by_def)
  then obtain r where r: "report_by ''r'' reported_world = Some r" "r_assetId r = ''a''" by blast
  have a: "asset_by (r_assetId r) reported_world = Some asset0" using reported_world_facts(1) r(2) by simp
  show ?thesis
    using report_force_delete_never_succeeds [OF _ r(1) a, of
        "\<lparr>ae_cfg = cfg0, ae_store = one_by_one, ae_client = client0, ae_meili = (\<lambda>_. Inr ()), ae_redisUp = True,
          ae_date_parse = (\<lambda>_. Some 100)\<rparr>" "\<lambda>_ _. True"] one_by_one_lists
    by (metis action_env.select_convs(1,2) action_report_dto.select_convs(2))
qed

end
