(* ===== verification/Requests.thy ===== *)
theory Requests
  imports Reports
begin

section \<open>Asset requests\<close>

text \<open>
  \<open>src/modules/requests/requests.service.ts\<close>: a user asks for an asset, every admin is notified, and an admin moves
  the request through its review.  No status is a precondition of another; the one rule is that a rejection
  has a comment.  \<open>Prisma.Decimal\<close>, which normalises a price, is a parameter.
\<close>

record create_request_dto =
  cq_assetLink :: string
  cq_assetType :: string
  cq_intendedUse :: string
  cq_price :: "string option"
  cq_notes :: "string option"

definition request_by :: "string \<Rightarrow> world \<Rightarrow> request_row option" where
  "request_by i w = find_row q_id i (requests w)"

fun request_status_name :: "request_status \<Rightarrow> string" where
  "request_status_name SENT = ''SENT''"
| "request_status_name IN_REVIEW = ''IN_REVIEW''"
| "request_status_name Q_PENDING = ''PENDING''"
| "request_status_name APPROVED = ''APPROVED''"
| "request_status_name REJECTED = ''REJECTED''"

definition request_notice :: "string \<Rightarrow> create_request_dto \<Rightarrow> user_row \<Rightarrow> user_row \<Rightarrow> notify_job" where
  "request_notice i dto requester admin =
     notify_of (u_id admin) REQUEST_CREATED
       [(''requestId'', JStr i), (''requester'', user_ref_json requester), (''assetLink'', JStr (cq_assetLink dto)),
        (''assetType'', JStr (cq_assetType dto)), (''intendedUse'', JStr (cq_intendedUse dto))] requester"

definition create_request_row :: "(string \<Rightarrow> string) \<Rightarrow> int \<Rightarrow> string \<Rightarrow> create_request_dto \<Rightarrow> user_row \<Rightarrow> string handler" where
  "create_request_row decimal now i dto requester =
     bnd (upd (requests_update (\<lambda>qs. qs @
            [\<lparr>q_id = i, q_requesterId = u_id requester, q_assetLink = cq_assetLink dto, q_assetType = cq_assetType dto,
              q_intendedUse = cq_intendedUse dto, q_price = map_option decimal (cq_price dto), q_notes = cq_notes dto,
              q_status = SENT, q_adminComment = None, q_createdAt = now, q_updatedAt = now\<rparr>]))) (\<lambda>_.
     bnd (gets active_admins) (\<lambda>admins.
     bnd (each enqueueNotify (map (request_notice i dto requester) admins)) (\<lambda>_. ret i)))"

record request_dto =
  qd_row :: request_row
  qd_requesterId :: string
  qd_requesterName :: string

definition request_dto_of :: "world \<Rightarrow> request_row \<Rightarrow> request_dto" where
  "request_dto_of w q =
     \<lparr>qd_row = q, qd_requesterId = q_requesterId q,
      qd_requesterName = (case user_by (q_requesterId q) w of None \<Rightarrow> [] | Some u \<Rightarrow> u_name u)\<rparr>"

record list_requests_query =
  lqq_status :: "request_status option"
  lqq_requesterId :: "string option"
  lqq_limit :: "int option"
  lqq_cursor :: "string option"

text \<open>The owner filter of somebody who is not an admin is himself; an admin's is the query's, when it names one.\<close>

definition request_owner_filter :: "user_row \<Rightarrow> list_requests_query \<Rightarrow> string option" where
  "request_owner_filter requester query =
     (if u_isAdmin requester then truthy_opt (lqq_requesterId query) else Some (u_id requester))"

definition request_listing :: "(user_row \<times> list_requests_query) \<times> world \<Rightarrow> request_row list" where
  "request_listing =
     (\<lambda>((requester, query), w). order_desc (\<lambda>q. (q_createdAt q, q_id q))
        (filter (\<lambda>q. (case request_owner_filter requester query of None \<Rightarrow> True | Some u \<Rightarrow> q_requesterId q = u) \<and>
           (case lqq_status query of None \<Rightarrow> True | Some s \<Rightarrow> q_status q = s)) (requests w)))"

definition request_cursor :: "request_row \<Rightarrow> cursor" where
  "request_cursor q = \<lparr>cur_createdAt = iso_string (q_createdAt q), cur_id = q_id q\<rparr>"

definition list_requests :: "list_requests_query \<Rightarrow> user_row \<Rightarrow> world \<Rightarrow> app_error + request_dto page" where
  "list_requests query requester w =
     sum_bind (list_page q_id request_cursor (resolve_page_size (lqq_limit query)) (lqq_cursor query)
                 (request_listing ((requester, query), w))) (\<lambda>p.
     Inr \<lparr>pg_items = map (request_dto_of w) (pg_items p), pg_nextCursor = pg_nextCursor p, pg_hasMore = pg_hasMore p\<rparr>)"

interpretation request_pages: paged_listing q_id request_cursor request_listing
    "\<lambda>(_, w). distinct (map q_id (requests w))"
  by unfold_locales (auto simp: request_listing_def request_cursor_def)

definition get_request :: "string \<Rightarrow> user_row \<Rightarrow> request_dto handler" where
  "get_request i requester =
     bnd (fetch (request_by i) (NotFoundDomain REQUEST_NOT_FOUND)) (\<lambda>q.
     bnd (check (u_isAdmin requester \<or> q_requesterId q = u_id requester) (ForbiddenDomain AUTH_FORBIDDEN)) (\<lambda>_.
     gets (\<lambda>w. request_dto_of w q)))"

record update_request_dto =
  uq_status :: request_status
  uq_adminComment :: "string option"

definition patch_request :: "int \<Rightarrow> update_request_dto \<Rightarrow> request_row \<Rightarrow> request_row \<Rightarrow> request_row" where
  "patch_request now dto row q =
     q\<lparr>q_status := uq_status dto,
       q_adminComment := (case uq_adminComment dto of None \<Rightarrow> q_adminComment row | Some c \<Rightarrow> Some c),
       q_updatedAt := now\<rparr>"

definition admin_update_request :: "int \<Rightarrow> string \<Rightarrow> user_row \<Rightarrow> update_request_dto \<Rightarrow> request_dto handler" where
  "admin_update_request now i admin dto =
     bnd (check (uq_status dto = REJECTED \<longrightarrow> (case uq_adminComment dto of None \<Rightarrow> False | Some c \<Rightarrow> trim c \<noteq> []))
            (BadRequest REQUEST_NOT_FOUND)) (\<lambda>_.
     bnd (fetch (request_by i) (NotFoundDomain REQUEST_NOT_FOUND)) (\<lambda>row.
     bnd (upd (requests_update (set_rows (\<lambda>q. q_id q = i) (patch_request now dto row)))) (\<lambda>_.
     bnd (enqueueNotify (notify_of (q_requesterId row) REQUEST_STATUS_CHANGED
            [(''requestId'', JStr i), (''newStatus'', JStr (request_status_name (uq_status dto))),
             (''adminComment'', JStr (or_else (uq_adminComment dto) (or_else (q_adminComment row) [])))] admin)) (\<lambda>_.
     bnd (audit_record now (Some (u_id admin)) ''asset_request.status_change'' ''AssetRequest'' i
            (Some (JObj ([(''from'', JStr (request_status_name (q_status row))),
                          (''to'', JStr (request_status_name (uq_status dto)))] @
                         optional_field ''adminComment'' (uq_adminComment dto))))) (\<lambda>_.
     gets (\<lambda>w. request_dto_of w (patch_request now dto row row)))))))"

subsection \<open>Who sees a request\<close>

text \<open>
  Somebody who is not an admin reads only requests of his own: every page of the list holds only his, whatever
  filters he sends, and a request of somebody else is refused with a 403.
\<close>

theorem own_requests_only:
  assumes "\<not> u_isAdmin u"
  shows "(case list_requests query u w of Inl _ \<Rightarrow> True
          | Inr p \<Rightarrow> list_all (\<lambda>d. q_requesterId (qd_row d) = u_id u \<and> qd_row d \<in> set (requests w)) (pg_items p)) \<and>
     (case get_request i u w of (Inl _, _) \<Rightarrow> True | (Inr d, _) \<Rightarrow> q_requesterId (qd_row d) = u_id u)"
proof
  show "case list_requests query u w of Inl _ \<Rightarrow> True
          | Inr p \<Rightarrow> list_all (\<lambda>d. q_requesterId (qd_row d) = u_id u \<and> qd_row d \<in> set (requests w)) (pg_items p)"
  proof (cases "list_page q_id request_cursor (resolve_page_size (lqq_limit query)) (lqq_cursor query) (request_listing ((u, query), w))")
    case (Inl e)
    then show ?thesis by (simp add: list_requests_def)
  next
    case (Inr p)
    have "q_requesterId x = u_id u \<and> x \<in> set (requests w)" if "x \<in> set (pg_items p)" for x
      using subsetD [OF page_items_sub [OF Inr] that] assms by (simp add: request_listing_def request_owner_filter_def)
    then show ?thesis by (simp add: list_requests_def Inr list_all_iff request_dto_of_def)
  qed
  show "case get_request i u w of (Inl _, _) \<Rightarrow> True | (Inr d, _) \<Rightarrow> q_requesterId (qd_row d) = u_id u"
    using assms by (cases "request_by i w") (simp_all add: get_request_def act_simps request_dto_of_def)
qed

definition request_of :: "string \<Rightarrow> string \<Rightarrow> request_row" where
  "request_of i u = \<lparr>q_id = i, q_requesterId = u, q_assetLink = ''x'', q_assetType = ''y'', q_intendedUse = ''z'', q_price = None,
     q_notes = None, q_status = SENT, q_adminComment = None, q_createdAt = 1, q_updatedAt = 1\<rparr>"

definition two_requests :: world where
  "two_requests = empty_world\<lparr>requests := [request_of ''q1'' ''root'', request_of ''q2'' ''u1'']\<rparr>"

definition every_request :: list_requests_query where
  "every_request = \<lparr>lqq_status = None, lqq_requesterId = Some ''root'', lqq_limit = None, lqq_cursor = None\<rparr>"

lemma two_requests_page:
  "list_requests every_request (bob\<lparr>u_id := ''u1'', u_isAdmin := False\<rparr>) two_requests =
     Inr \<lparr>pg_items = [request_dto_of two_requests (request_of ''q2'' ''u1'')], pg_nextCursor = None, pg_hasMore = False\<rparr>"
  by (simp add: list_requests_def list_page_def decode_cursor_def after_cursor_def request_listing_def request_owner_filter_def
        two_requests_def every_request_def request_of_def order_desc_def resolve_page_size_def build_page_def DEFAULT_PAGE_SIZE_def Let_def)

theorem own_requests_only_witness:
  "case list_requests every_request (bob\<lparr>u_id := ''u1'', u_isAdmin := False\<rparr>) two_requests of
     Inl _ \<Rightarrow> False | Inr p \<Rightarrow> map (\<lambda>d. q_requesterId (qd_row d)) (pg_items p) = [''u1'']"
proof -
  let ?u = "bob\<lparr>u_id := ''u1'', u_isAdmin := False\<rparr>"
  have "\<not> u_isAdmin ?u" by simp
  from own_requests_only [OF this, where query = every_request and w = two_requests and i = "''q1''"]
  show ?thesis by (simp add: two_requests_page)
qed

subsection \<open>A rejection has a comment\<close>

definition request_ok :: "request_row \<Rightarrow> bool" where
  "request_ok q \<longleftrightarrow> (q_status q = REJECTED \<longrightarrow> (case q_adminComment q of None \<Rightarrow> False | Some c \<Rightarrow> trim c \<noteq> []))"

definition requests_ok :: "world \<Rightarrow> bool" where
  "requests_ok w \<longleftrightarrow> distinct (map q_id (requests w)) \<and> list_all request_ok (requests w)"

inductive requests_reached :: "world \<Rightarrow> world \<Rightarrow> bool" for w0 where
  rq_start: "requests_reached w0 w0"
| rq_create: "requests_reached w0 w \<Longrightarrow> i \<notin> q_id ` set (requests w) \<Longrightarrow>
    create_request_row decimal now i dto u w = (r, w') \<Longrightarrow> requests_reached w0 w'"
| rq_update: "requests_reached w0 w \<Longrightarrow> admin_update_request now i u udto w = (r', w') \<Longrightarrow> requests_reached w0 w'"

lemma create_request_keeps:
  "requests_ok w \<Longrightarrow> i \<notin> q_id ` set (requests w) \<Longrightarrow> create_request_row decimal now i dto u w = (r, w') \<Longrightarrow> requests_ok w'"
  by (auto simp: create_request_row_def act_simps each_notify requests_ok_def request_ok_def split: if_splits)

lemma admin_update_keeps:
  assumes "requests_ok w" and "admin_update_request now i u dto w = (r, w')"
  shows "requests_ok w'"
proof (cases "uq_status dto = REJECTED \<longrightarrow> (case uq_adminComment dto of None \<Rightarrow> False | Some c \<Rightarrow> trim c \<noteq> [])")
  case False
  with assms show ?thesis unfolding admin_update_request_def bnd_check by (auto split: if_splits)
next
  case guard: True
  show ?thesis
  proof (cases "request_by i w")
    case None
    with assms guard show ?thesis unfolding admin_update_request_def bnd_check by (auto simp: act_simps split: if_splits)
  next
    case (Some row)
    have "request_ok (patch_request now dto row q)" for q
      using guard by (auto simp: request_ok_def patch_request_def split: option.splits)
    then have ok: "requests_ok (requests_update (set_rows (\<lambda>q. q_id q = i) (patch_request now dto row)) w)"
      using assms(1) by (auto simp: requests_ok_def row_simps patch_request_def list_all_iff set_set_rows)
    have "requests w' = set_rows (\<lambda>q. q_id q = i) (patch_request now dto row) (requests w)"
      using assms(2) guard Some unfolding admin_update_request_def bnd_check
      by (auto simp: bnd_fetch bnd_upd enqueueNotify_def audit_record_def act_simps split: if_splits)
    with ok show ?thesis by (simp add: requests_ok_def)
  qed
qed

text \<open>
  From a database where it holds, every sequence of requests and admin updates, successful or not, keeps the
  ids unique and gives every rejected request a comment that is not blank.
\<close>

theorem reached_requests_ok:
  assumes "requests_reached w0 w" and "requests_ok w0"
  shows "requests_ok w"
  using assms by (induction rule: requests_reached.induct) (blast intro: create_request_keeps admin_update_keeps)+

theorem reached_requests_ok_witness:
  "requests_ok (snd (admin_update_request 9 ''q1'' bob \<lparr>uq_status = REJECTED, uq_adminComment = Some ''no''\<rparr>
     (empty_world\<lparr>requests := [request_of ''q1'' ''u'']\<rparr>)))"
  by (rule reached_requests_ok [OF rq_update [OF rq_start surjective_pairing]])
    (simp add: requests_ok_def request_ok_def request_of_def)

end
