(* ===== verification/Mapper.thy ===== *)
theory Mapper
  imports Moderation
begin

section \<open>The public shapes of an asset\<close>

text \<open>
  \<open>src/modules/assets/asset-mapper.service.ts\<close>: the summary of an asset for lists, the same for many assets with
  the links signed in one batch, and the detail with its versions in descending order and its preview media
  signed.  A relation that Prisma includes is read from its table; the foreign keys make the row exist.
\<close>

fun asset_engine_name :: "asset_engine \<Rightarrow> string" where
  "asset_engine_name UNITY = ''UNITY''"
| "asset_engine_name UNREAL = ''UNREAL''"
| "asset_engine_name BLENDER = ''BLENDER''"
| "asset_engine_name STANDALONE_3D = ''STANDALONE_3D''"
| "asset_engine_name AUDIO_ENGINE = ''AUDIO''"
| "asset_engine_name IMAGE_ENGINE = ''IMAGE''"
| "asset_engine_name VIDEO_ENGINE = ''VIDEO''"
| "asset_engine_name OTHER_ENGINE = ''OTHER''"
| "asset_engine_name ENGINE_AGNOSTIC = ''ENGINE_AGNOSTIC''"

record asset_summary =
  sm_id :: string
  sm_slug :: string
  sm_title :: string
  sm_shortDescription :: string
  sm_engine :: asset_engine
  sm_status :: asset_status
  sm_thumbnailUrl :: "string option"
  sm_ownerDisplayName :: string
  sm_categoryName :: json
  sm_totalDownloads :: nat
  sm_totalSaves :: nat
  sm_updatedAt :: string
  sm_publishedAt :: "string option"

definition asset_translation :: "asset_row \<Rightarrow> locale_code \<Rightarrow> world \<Rightarrow> translation_row option" where
  "asset_translation a loc w = pick_translation (filter (\<lambda>t. tr_assetId t = a_id a) (asset_texts w)) loc"

definition category_name_of :: "asset_row \<Rightarrow> locale_code \<Rightarrow> world \<Rightarrow> json" where
  "category_name_of a loc w =
     (case category_by (a_categoryId a) w of None \<Rightarrow> JNull | Some c \<Rightarrow> localized_or (c_name c) loc (c_slug c))"

definition summary_of :: "asset_row \<Rightarrow> locale_code \<Rightarrow> string option \<Rightarrow> world \<Rightarrow> asset_summary" where
  "summary_of a loc url w =
     \<lparr>sm_id = a_id a, sm_slug = a_slug a, sm_title = a_title a,
      sm_shortDescription = (case asset_translation a loc w of None \<Rightarrow> [] | Some t \<Rightarrow> tr_short t),
      sm_engine = a_engine a, sm_status = a_status a, sm_thumbnailUrl = url,
      sm_ownerDisplayName = (case user_by (a_ownerId a) w of None \<Rightarrow> [] | Some u \<Rightarrow> u_name u),
      sm_categoryName = category_name_of a loc w,
      sm_totalDownloads = count_rows (\<lambda>d. d_assetId d = a_id a) (downloads w),
      sm_totalSaves = count_rows (\<lambda>l. li_assetId l = a_id a) (library w),
      sm_updatedAt = iso_string (a_updatedAt a), sm_publishedAt = map_option iso_string (a_publishedAt a)\<rparr>"

definition thumbnail_url :: "s3_config \<Rightarrow> s3_client \<Rightarrow> asset_row \<Rightarrow> app_error + string option" where
  "thumbnail_url cfg c a =
     (case truthy_opt (a_thumbnailKey a) of
        None \<Rightarrow> Inr None
      | Some key \<Rightarrow> sum_bind (presign_get cfg c ThumbsBucket key) (\<lambda>u. Inr (Some u)))"

definition to_summary :: "s3_config \<Rightarrow> s3_client \<Rightarrow> locale_code \<Rightarrow> world \<Rightarrow> asset_row \<Rightarrow> app_error + asset_summary" where
  "to_summary cfg c loc w a = sum_bind (thumbnail_url cfg c a) (\<lambda>url. Inr (summary_of a loc url w))"

definition to_summary_many ::
  "s3_config \<Rightarrow> s3_client \<Rightarrow> locale_code \<Rightarrow> world \<Rightarrow> asset_row list \<Rightarrow> app_error + asset_summary list" where
  "to_summary_many cfg c loc w as =
     sum_bind (map_sum (thumbnail_url cfg c) as) (\<lambda>urls.
     Inr (map (\<lambda>i. summary_of (as ! i) loc (urls ! i) w) [0..<length as]))"

subsection \<open>Versions in descending order\<close>

text \<open>
  \<open>Number\<close> of a component of a version: \<open>None\<close> is NaN, the empty component is 0.  The texts are those the DTOs
  admit: digits, or digits with a pre-release part.
\<close>

definition semver_number :: "string \<Rightarrow> int option" where
  "semver_number s =
     (if list_all is_digit s then Some (foldl (\<lambda>n c. n * 10 + (of_char c - 48)) 0 s) else None)"

definition semver_part :: "nat \<Rightarrow> string \<Rightarrow> int option" where
  "semver_part i s = (let ps = split_on CHR ''.'' s in if i < length ps then semver_number (ps ! i) else None)"

definition minus_nan :: "int option \<Rightarrow> int option \<Rightarrow> int option" where
  "minus_nan x y = (case (x, y) of (Some a, Some b) \<Rightarrow> Some (a - b) | _ \<Rightarrow> None)"

definition or_nan :: "int option \<Rightarrow> int option \<Rightarrow> int option" where
  "or_nan x y = (if x = None \<or> x = Some 0 then y else x)"

definition compare_semver_desc :: "string \<Rightarrow> string \<Rightarrow> int option" where
  "compare_semver_desc a b =
     or_nan (or_nan (minus_nan (semver_part 0 b) (semver_part 0 a)) (minus_nan (semver_part 1 b) (semver_part 1 a)))
       (minus_nan (semver_part 2 b) (semver_part 2 a))"

text \<open>\<open>Array.prototype.sort\<close>: stable, and a comparison that is NaN counts as equal.\<close>

fun insert_cmp :: "('a \<Rightarrow> 'a \<Rightarrow> int option) \<Rightarrow> 'a \<Rightarrow> 'a list \<Rightarrow> 'a list" where
  "insert_cmp cmp x [] = [x]"
| "insert_cmp cmp x (y # ys) = (if or_else (cmp x y) 0 < 0 then x # y # ys else y # insert_cmp cmp x ys)"

definition sort_cmp :: "('a \<Rightarrow> 'a \<Rightarrow> int option) \<Rightarrow> 'a list \<Rightarrow> 'a list" where
  "sort_cmp cmp xs = foldl (\<lambda>acc x. insert_cmp cmp x acc) [] xs"

record version_payload =
  vp_row :: version_row
  vp_files :: "file_row list"
  vp_compatibility :: "compat_row list"
  vp_dependencies :: "dependency_row list"
  vp_requiresEmptyProject :: bool

definition version_payload_of :: "asset_row \<Rightarrow> world \<Rightarrow> version_row \<Rightarrow> version_payload" where
  "version_payload_of a w v =
     \<lparr>vp_row = v, vp_files = asset_files (v_id v) w,
      vp_compatibility = filter (\<lambda>c. ec_versionId c = v_id v) (compats w),
      vp_dependencies = filter (\<lambda>d. dp_versionId d = v_id v) (dependencies w),
      vp_requiresEmptyProject = a_requiresEmptyProject a\<rparr>"

definition detail_versions :: "asset_row \<Rightarrow> world \<Rightarrow> version_payload list" where
  "detail_versions a w =
     map (version_payload_of a w)
       (sort_cmp (\<lambda>x y. compare_semver_desc (v_semver x) (v_semver y)) (filter (\<lambda>v. v_assetId v = a_id a) (versions w)))"

subsection \<open>Preview media\<close>

record preview_media =
  pv_id :: string
  pv_kind :: string
  pv_key :: string
  pv_displayKey :: "string option"
  pv_label :: string
  pv_mime :: "string option"
  pv_viewUrl :: string
  pv_originalUrl :: string
  pv_visibility :: string
  pv_warning :: "string option"

definition sign_preview :: "s3_config \<Rightarrow> s3_client \<Rightarrow> string \<Rightarrow> string \<Rightarrow> json \<Rightarrow> app_error + preview_media" where
  "sign_preview cfg c i key m =
     (let displayKey = str_prop m ''displayKey''
      in sum_bind (presign_get cfg c EditorBucket key) (\<lambda>originalUrl.
         sum_bind (case truthy_opt displayKey of
                     None \<Rightarrow> Inr None
                   | Some k \<Rightarrow> sum_bind (presign_get cfg c EditorBucket k) (\<lambda>u. Inr (Some u))) (\<lambda>displayUrl.
         Inr \<lparr>pv_id = i,
              pv_kind = (case str_prop m ''kind'' of
                  Some k \<Rightarrow> if k = ''video'' \<or> k = ''audio'' \<or> k = ''3d'' then k else ''image'' | None \<Rightarrow> ''image''),
              pv_key = key, pv_displayKey = displayKey, pv_label = or_else (str_prop m ''label'') [],
              pv_mime = str_prop m ''mime'', pv_viewUrl = or_else displayUrl originalUrl, pv_originalUrl = originalUrl,
              pv_visibility = (case str_prop m ''visibility'' of
                  Some v \<Rightarrow> if v = ''blur'' \<or> v = ''hidden'' then v else ''visible'' | None \<Rightarrow> ''visible''),
              pv_warning = str_prop m ''warning''\<rparr>)))"

definition preview_media_of :: "s3_config \<Rightarrow> s3_client \<Rightarrow> asset_row \<Rightarrow> app_error + preview_media list" where
  "preview_media_of cfg c a =
     (case a_previewMedia a of
        Some (JArr ms) \<Rightarrow>
          map_sum (\<lambda>(i, key, m). sign_preview cfg c i key m)
            (List.map_filter (\<lambda>m. case (str_prop m ''key'', str_prop m ''id'') of
                (Some key, Some i) \<Rightarrow> Some (i, key, m) | _ \<Rightarrow> None) ms)
      | _ \<Rightarrow> Inr [])"

subsection \<open>The detail\<close>

record detail_dto =
  dt_summary :: asset_summary
  dt_longDescription :: "json option"
  dt_locales :: "locale_code list"
  dt_categoryId :: string
  dt_licenseId :: string
  dt_tags :: "tag_row list"
  dt_autoThumbnail :: "(string \<times> string) option"
  dt_previewMedia :: "preview_media list"
  dt_ownerAvatar :: "(string \<times> string \<times> string) option"
  dt_versions :: "version_payload list"
  dt_isSaved :: bool
  dt_canEdit :: bool
  dt_canDelete :: bool
  dt_canArchive :: bool

record mapper_context =
  mx_locale :: locale_code
  mx_requester :: "user_row option"
  mx_isSaved :: bool

definition to_detail ::
  "(string \<Rightarrow> nat) \<Rightarrow> s3_config \<Rightarrow> s3_client \<Rightarrow> asset_row \<Rightarrow> mapper_context \<Rightarrow> world \<Rightarrow> app_error + detail_dto" where
  "to_detail digest0 cfg c a ctx w =
     sum_bind (thumbnail_url cfg c a) (\<lambda>thumbnailUrl.
     sum_bind (case truthy_opt (a_thumbnailAuto a) of
                 None \<Rightarrow> Inr None
               | Some k \<Rightarrow> sum_bind (presign_get cfg c AssetsBucket k) (\<lambda>u. Inr (if u = [] then None else Some (k, u)))) (\<lambda>auto'.
     sum_bind (preview_media_of cfg c a) (\<lambda>previewMedia.
     (let canEdit = owner_or_admin (mx_requester ctx) a
      in Inr
        \<lparr>dt_summary = summary_of a (mx_locale ctx) thumbnailUrl w,
         dt_longDescription = map_option tr_long (asset_translation a (mx_locale ctx) w),
         dt_locales = map tr_locale (filter (\<lambda>t. tr_assetId t = a_id a) (asset_texts w)),
         dt_categoryId = a_categoryId a, dt_licenseId = a_licenseId a,
         dt_tags = List.map_filter (\<lambda>x. tag_by (at_tagId x) w) (filter (\<lambda>x. at_assetId x = a_id a) (asset_tags w)),
         dt_autoThumbnail = auto', dt_previewMedia = previewMedia,
         dt_ownerAvatar = map_option (\<lambda>u. resolve_avatar digest0 (u_id u) (Some (u_name u)) (u_email u)) (user_by (a_ownerId a) w),
         dt_versions = detail_versions a w, dt_isSaved = mx_isSaved ctx, dt_canEdit = canEdit, dt_canDelete = canEdit,
         dt_canArchive = (canEdit \<and> a_status a = PUBLISHED)\<rparr>))))"

subsection \<open>The batch is the single mapper, element by element\<close>

lemma map_upt_Cons: "map (\<lambda>i. f ((x # xs) ! i) ((y # ys) ! i)) [0..<Suc n] = f x y # map (\<lambda>i. f (xs ! i) (ys ! i)) [0..<n]"
  by (simp add: map_upt_Suc del: upt_Suc)

lemma summaries_batched: "to_summary_many cfg c loc w as = map_sum (to_summary cfg c loc w) as"
proof (induction as)
  case Nil
  then show ?case by (simp add: to_summary_many_def)
next
  case (Cons a as)
  show ?case
  proof (cases "thumbnail_url cfg c a")
    case (Inl e)
    then show ?thesis by (simp add: to_summary_many_def to_summary_def)
  next
    case url: (Inr url)
    have rec: "map_sum (to_summary cfg c loc w) as = sum_bind (map_sum (thumbnail_url cfg c) as) (\<lambda>urls.
        Inr (map (\<lambda>i. summary_of (as ! i) loc (urls ! i) w) [0..<length as]))"
      using Cons.IH by (simp add: to_summary_many_def)
    have cons: "map_sum (to_summary cfg c loc w) (a # as) =
        sum_bind (map_sum (to_summary cfg c loc w) as) (\<lambda>ys. Inr (summary_of a loc url w # ys))"
      by (simp add: to_summary_def [of cfg c loc w a] url)
    show ?thesis unfolding cons rec
      by (cases "map_sum (thumbnail_url cfg c) as")
        (simp_all add: to_summary_many_def url map_upt_Cons [of "\<lambda>a url. summary_of a loc url w" for w] del: upt_Suc)
  qed
qed

text \<open>
  The batched summaries are those that mapping each asset on its own gives, in the same order, and the batch
  fails exactly when one of the single mappings does, with the first error.
\<close>

theorem to_summary_many_reference: "to_summary_many cfg c loc w as = map_sum (to_summary cfg c loc w) as"
  by (rule summaries_batched)

subsection \<open>The order of the versions\<close>

definition semver_key :: "string \<Rightarrow> (int \<times> int \<times> int) option" where
  "semver_key s =
     (case (semver_part 0 s, semver_part 1 s, semver_part 2 s) of
        (Some x, Some y, Some z) \<Rightarrow> Some (x, y, z) | _ \<Rightarrow> None)"

lemma compare_semver_key:
  assumes "semver_key a = Some k" and "semver_key b = Some l"
  shows "or_else (compare_semver_desc a b) 0 < 0 \<longleftrightarrow> l < k"
  using assms
  by (auto simp: semver_key_def compare_semver_desc_def or_nan_def minus_nan_def or_else_def split: option.splits)

lemma insert_cmp_mset: "mset (insert_cmp cmp x ys) = add_mset x (mset ys)"
  by (induction ys) auto

lemma sort_cmp_mset: "mset (sort_cmp cmp xs) = mset xs"
proof -
  have "mset (foldl (\<lambda>acc x. insert_cmp cmp x acc) ys xs) = mset ys + mset xs" for ys
    by (induction xs arbitrary: ys) (simp_all add: insert_cmp_mset)
  then show ?thesis by (simp add: sort_cmp_def)
qed

lemma insert_cmp_sorted:
  assumes "\<And>x y. x \<in> S \<Longrightarrow> y \<in> S \<Longrightarrow> or_else (cmp x y) 0 < 0 \<longleftrightarrow> k y < (k x :: 'k :: linorder)"
  shows "x \<in> S \<Longrightarrow> set ys \<subseteq> S \<Longrightarrow> sorted_wrt (\<lambda>x y. k y \<le> k x) ys \<Longrightarrow> sorted_wrt (\<lambda>x y. k y \<le> k x) (insert_cmp cmp x ys)"
proof (induction ys)
  case (Cons y ys)
  have set: "set (insert_cmp cmp x ys) = insert x (set ys)"
    using arg_cong [OF insert_cmp_mset [of cmp x ys], of set_mset] by simp
  show ?case
  proof (cases "k y < k x")
    case True
    then show ?thesis using Cons.prems assms [of x y] by fastforce
  next
    case False
    then show ?thesis using Cons assms [of x y] by (auto simp: set)
  qed
qed simp

lemma sort_cmp_sorted:
  assumes "\<And>x y. x \<in> set xs \<Longrightarrow> y \<in> set xs \<Longrightarrow> or_else (cmp x y) 0 < 0 \<longleftrightarrow> k y < (k x :: 'k :: linorder)"
  shows "sorted_wrt (\<lambda>x y. k y \<le> k x) (sort_cmp cmp xs)"
proof -
  have "sorted_wrt (\<lambda>x y. k y \<le> k x) (foldl (\<lambda>acc x. insert_cmp cmp x acc) ys zs)"
    if "set zs \<subseteq> set xs" "set ys \<subseteq> set xs" "sorted_wrt (\<lambda>x y. k y \<le> k x) ys" for ys zs
    using that
  proof (induction zs arbitrary: ys)
    case (Cons z zs)
    have "set (insert_cmp cmp z ys) \<subseteq> set xs"
      using arg_cong [OF insert_cmp_mset [of cmp z ys], of set_mset] Cons.prems by simp
    moreover have "sorted_wrt (\<lambda>x y. k y \<le> k x) (insert_cmp cmp z ys)"
      using Cons.prems by (intro insert_cmp_sorted [where S = "set xs"] assms) auto
    ultimately show ?case using Cons by simp
  qed simp
  from this [of xs "[]"] show ?thesis by (simp add: sort_cmp_def)
qed

definition numbered :: "version_row list \<Rightarrow> bool" where
  "numbered vs \<longleftrightarrow> list_all (\<lambda>v. semver_key (v_semver v) \<noteq> None) vs"

text \<open>
  The versions of a detail are the asset's versions, none lost and none twice, in descending order of their
  numeric components, when every version is made of three numbers (a pre-release part makes the comparison NaN).
\<close>

theorem detail_versions_sorted:
  assumes "numbered (filter (\<lambda>v. v_assetId v = a_id a) (versions w))"
  shows "mset (map vp_row (detail_versions a w)) = mset (filter (\<lambda>v. v_assetId v = a_id a) (versions w)) \<and>
     sorted_wrt (\<lambda>x y. the (semver_key (v_semver (vp_row y))) \<le> the (semver_key (v_semver (vp_row x)))) (detail_versions a w)"
proof -
  let ?vs = "filter (\<lambda>v. v_assetId v = a_id a) (versions w)"
  let ?cmp = "\<lambda>x y. compare_semver_desc (v_semver x) (v_semver y)"
  have rows: "map vp_row (detail_versions a w) = sort_cmp ?cmp ?vs"
    by (simp add: detail_versions_def version_payload_of_def comp_def)
  have "or_else (?cmp x y) 0 < 0 \<longleftrightarrow> the (semver_key (v_semver y)) < the (semver_key (v_semver x))"
    if "x \<in> set ?vs" "y \<in> set ?vs" for x y
    using that assms by (auto simp: numbered_def list_all_iff compare_semver_key)
  then have "sorted_wrt (\<lambda>x y. the (semver_key (v_semver y)) \<le> the (semver_key (v_semver x))) (sort_cmp ?cmp ?vs)"
    by (rule sort_cmp_sorted)
  then have "sorted_wrt (\<lambda>x y. the (semver_key (v_semver y)) \<le> the (semver_key (v_semver x))) (map vp_row (detail_versions a w))"
    unfolding rows .
  then have "sorted_wrt (\<lambda>x y. the (semver_key (v_semver (vp_row y))) \<le> the (semver_key (v_semver (vp_row x)))) (detail_versions a w)"
    unfolding sorted_wrt_map .
  moreover have "mset (map vp_row (detail_versions a w)) = mset ?vs" unfolding rows by (rule sort_cmp_mset)
  ultimately show ?thesis by blast
qed

theorem detail_versions_sorted_witness:
  "map vp_row (detail_versions asset0 (draft_world\<lparr>versions := [version0, version0\<lparr>v_semver := ''1.10.0''\<rparr>, version0\<lparr>v_semver := ''1.9.0''\<rparr>]\<rparr>))
     = [version0\<lparr>v_semver := ''1.10.0''\<rparr>, version0\<lparr>v_semver := ''1.9.0''\<rparr>, version0] \<and>
   sorted_wrt (\<lambda>x y. the (semver_key (v_semver (vp_row y))) \<le> the (semver_key (v_semver (vp_row x))))
     (detail_versions asset0 draft_world)"
proof
  show "map vp_row (detail_versions asset0 (draft_world\<lparr>versions := [version0, version0\<lparr>v_semver := ''1.10.0''\<rparr>, version0\<lparr>v_semver := ''1.9.0''\<rparr>]\<rparr>))
     = [version0\<lparr>v_semver := ''1.10.0''\<rparr>, version0\<lparr>v_semver := ''1.9.0''\<rparr>, version0]" by code_simp
  have "numbered (filter (\<lambda>v. v_assetId v = a_id asset0) (versions draft_world))" by code_simp
  from detail_versions_sorted [OF this]
  show "sorted_wrt (\<lambda>x y. the (semver_key (v_semver (vp_row y))) \<le> the (semver_key (v_semver (vp_row x))))
     (detail_versions asset0 draft_world)" by blast
qed

end
