(* ===== verification/Featured.thy ===== *)
theory Featured
  imports Mapper
begin

section \<open>The discover page and the featured slots\<close>

text \<open>
  \<open>src/modules/assets/discover.service.ts\<close> and \<open>src/modules/featured/featured.service.ts\<close>.  The discover page is a
  JSON value cached for thirty seconds per locale; its rows are computed in one batch over all categories and
  split again, and \<open>build_rows_reference\<close> shows that this is what mapping one category after the other gives.
  The featured slots are kept by the admins: at most five are active, no asset has two, and no two have the
  same position.  Reordering runs two passes of single updates, each checked against the unique positions.
\<close>

subsection \<open>The discover page\<close>

definition summary_json :: "asset_summary \<Rightarrow> json" where
  "summary_json s =
     JObj ([(''id'', JStr (sm_id s)), (''slug'', JStr (sm_slug s)), (''title'', JStr (sm_title s)),
            (''shortDescription'', JStr (sm_shortDescription s)), (''engine'', JStr (asset_engine_name (sm_engine s))),
            (''status'', JStr (asset_status_name (sm_status s)))]
           @ optional_field ''thumbnailUrl'' (sm_thumbnailUrl s)
           @ [(''ownerDisplayName'', JStr (sm_ownerDisplayName s)), (''categoryName'', sm_categoryName s),
              (''totalDownloads'', JNum (int (sm_totalDownloads s))), (''totalSaves'', JNum (int (sm_totalSaves s))),
              (''updatedAt'', JStr (sm_updatedAt s))]
           @ optional_field ''publishedAt'' (sm_publishedAt s))"

definition discover_key :: "locale_code \<Rightarrow> string" where
  "discover_key loc = ''discover:'' @ locale_name loc"

definition FEATURED_LIMIT :: nat where "FEATURED_LIMIT = 5"

definition ASSETS_PER_ROW :: nat where "ASSETS_PER_ROW = 8"

definition featured_dto :: "s3_config \<Rightarrow> s3_client \<Rightarrow> locale_code \<Rightarrow> world \<Rightarrow> featured_row \<Rightarrow> app_error + json" where
  "featured_dto cfg c loc w slot =
     (case asset_by (fs_assetId slot) w of
        None \<Rightarrow> Inl (OtherError (RecordNotFound ''Asset''))
      | Some a \<Rightarrow>
          sum_bind (case truthy_opt (case fs_bannerKey slot of Some k \<Rightarrow> Some k | None \<Rightarrow> a_thumbnailKey a) of
                      None \<Rightarrow> Inr JNull
                    | Some k \<Rightarrow> sum_bind (presign_get cfg c ThumbsBucket k) (\<lambda>u. Inr (JStr u))) (\<lambda>bannerUrl.
          Inr (JObj [(''id'', JStr (fs_id slot)), (''assetId'', JStr (fs_assetId slot)), (''assetSlug'', JStr (a_slug a)),
                     (''title'', JStr (or_else (fs_title slot) (a_title a))),
                     (''shortDescription'',
                        (case resolve_localized (fs_short slot) loc of
                           Some v \<Rightarrow> v
                         | None \<Rightarrow> JStr (case asset_translation a loc w of None \<Rightarrow> [] | Some t \<Rightarrow> tr_short t))),
                     (''bannerUrl'', bannerUrl), (''sortOrder'', JNum (fs_sortOrder slot))])))"

text \<open>The top assets of a category: ranked by publication, nulls last, then ordered again in memory.\<close>

definition row_assets :: "world \<Rightarrow> category_row \<Rightarrow> asset_row list" where
  "row_assets w cat =
     order_desc (\<lambda>a. (or_else (a_publishedAt a) 0, a_id a))
       (take ASSETS_PER_ROW
         (order_desc (\<lambda>a. (case a_publishedAt a of None \<Rightarrow> (0 :: int, 0) | Some t \<Rightarrow> (1, t), a_id a))
           (filter (\<lambda>a. a_status a = PUBLISHED \<and> a_categoryId a = c_id cat) (assets w))))"

definition discover_row_json :: "locale_code \<Rightarrow> category_row \<times> asset_summary list \<Rightarrow> json" where
  "discover_row_json loc r =
     (case r of (cat, ss) \<Rightarrow>
        JObj [(''categoryId'', JStr (c_id cat)), (''categorySlug'', JStr (c_slug cat)),
              (''name'', localized_or (c_name cat) loc (c_slug cat)), (''assets'', JArr (map summary_json ss))])"

definition ordered_flat :: "world \<Rightarrow> category_row list \<Rightarrow> (string \<times> asset_row) list" where
  "ordered_flat w cats = concat (map (\<lambda>cat. map (Pair (c_id cat)) (row_assets w cat)) cats)"

definition regroup :: "category_row list \<Rightarrow> (string \<times> 's) list \<Rightarrow> (category_row \<times> 's list) list" where
  "regroup cats ps = map (\<lambda>cat. (cat, map snd (filter (\<lambda>p. fst p = c_id cat) ps))) cats"

definition build_rows ::
  "s3_config \<Rightarrow> s3_client \<Rightarrow> locale_code \<Rightarrow> world \<Rightarrow> category_row list \<Rightarrow> app_error + (category_row \<times> asset_summary list) list" where
  "build_rows cfg c loc w cats =
     (let flat = ordered_flat w cats
      in sum_bind (to_summary_many cfg c loc w (map snd flat)) (\<lambda>summaries.
         Inr (filter (\<lambda>r. snd r \<noteq> []) (regroup cats (zip (map fst flat) summaries)))))"

definition compute_discover :: "s3_config \<Rightarrow> s3_client \<Rightarrow> locale_code \<Rightarrow> world \<Rightarrow> app_error + json" where
  "compute_discover cfg c loc w =
     sum_bind (map_sum (featured_dto cfg c loc w) (take FEATURED_LIMIT (sort_key fs_sortOrder (filter fs_isActive (featured w))))) (\<lambda>fs.
     sum_bind (build_rows cfg c loc w (sort_key c_sortOrder (filter c_isActive (categories w)))) (\<lambda>rows.
     Inr (JObj [(''featured'', JArr fs), (''rows'', JArr (map (discover_row_json loc) rows))])))"

definition get_discover :: "s3_config \<Rightarrow> s3_client \<Rightarrow> bool \<Rightarrow> int \<Rightarrow> locale_code \<Rightarrow> json handler" where
  "get_discover cfg c up now loc =
     bnd (check up redis_down) (\<lambda>_.
     bnd (gets (\<lambda>w. redis_get now (discover_key loc) (redis w))) (\<lambda>cached.
     if truthy_str cached
     then fetch (\<lambda>_. json_parse (or_else cached [])) (OtherError TypeError)
     else
       bnd (gets (compute_discover cfg c loc)) (\<lambda>r.
       bnd (from_sum r) (\<lambda>payload.
       bnd (upd (redis_update (redis_set_ex now (discover_key loc) (json_text payload) 30))) (\<lambda>_. ret payload)))))"

definition invalidate_discover :: "bool \<Rightarrow> unit handler" where
  "invalidate_discover up =
     bnd (check up redis_down) (\<lambda>_. upd (redis_update (redis_del [discover_key LEn, discover_key LId])))"

subsection \<open>Featured slots\<close>

definition ACTIVE_CAP :: nat where "ACTIVE_CAP = 5"

definition slot_by :: "string \<Rightarrow> world \<Rightarrow> featured_row option" where
  "slot_by i w = find_row fs_id i (featured w)"

definition set_slot :: "string \<Rightarrow> (featured_row \<Rightarrow> featured_row) \<Rightarrow> world \<Rightarrow> world" where
  "set_slot i f = featured_update (set_rows (\<lambda>s. fs_id s = i) f)"

definition active_count :: "world \<Rightarrow> nat" where
  "active_count w = count_rows fs_isActive (featured w)"

record slot_dto =
  sd_slot :: featured_row
  sd_assetTitle :: string
  sd_assetSlug :: string
  sd_bannerUrl :: "string option"

definition slot_dto_of :: "s3_config \<Rightarrow> s3_client \<Rightarrow> world \<Rightarrow> featured_row \<Rightarrow> app_error + slot_dto" where
  "slot_dto_of cfg c w s =
     (case asset_by (fs_assetId s) w of
        None \<Rightarrow> Inl (OtherError (RecordNotFound ''Asset''))
      | Some a \<Rightarrow>
          sum_bind (case truthy_opt (fs_bannerKey s) of
                      None \<Rightarrow> Inr None
                    | Some k \<Rightarrow> sum_bind (presign_get cfg c ThumbsBucket k) (\<lambda>u. Inr (Some u))) (\<lambda>url.
          Inr \<lparr>sd_slot = s, sd_assetTitle = a_title a, sd_assetSlug = a_slug a, sd_bannerUrl = url\<rparr>))"

definition list_slots :: "s3_config \<Rightarrow> s3_client \<Rightarrow> world \<Rightarrow> app_error + slot_dto list" where
  "list_slots cfg c w =
     map_sum (slot_dto_of cfg c w) (sort_key (\<lambda>s. (if fs_isActive s then 0 else 1 :: int, fs_sortOrder s)) (featured w))"

record create_slot_dto =
  cs_assetId :: string
  cs_bannerKey :: "string option"
  cs_title :: "string option"
  cs_short :: "json option"
  cs_isActive :: "bool option"

definition next_slot_order :: "world \<Rightarrow> int" where
  "next_slot_order w = (case featured w of [] \<Rightarrow> 0 | s # ss \<Rightarrow> Max (fs_sortOrder ` set (s # ss)) + 1)"

definition slot_audit :: "int \<Rightarrow> user_row \<Rightarrow> string \<Rightarrow> string \<Rightarrow> (string \<times> json) list option \<Rightarrow> unit handler" where
  "slot_audit now admin action i meta =
     audit_record now (Some (u_id admin)) action ''FeaturedSlot'' i (map_option JObj meta)"

definition check_cap :: "bool \<Rightarrow> unit handler" where
  "check_cap activates =
     (if activates
      then bnd (gets active_count) (\<lambda>n. check (n < ACTIVE_CAP) (Conflict FEATURED_ACTIVE_CAP_REACHED))
      else ret ())"

definition slot_order_free :: "string \<Rightarrow> int \<Rightarrow> world \<Rightarrow> bool" where
  "slot_order_free i n w \<longleftrightarrow> \<not> some_row (\<lambda>s. fs_sortOrder s = n \<and> fs_id s \<noteq> i) (featured w)"

definition insert_slot :: "featured_row \<Rightarrow> unit handler" where
  "insert_slot s =
     bnd (gets (\<lambda>w. some_row (\<lambda>x. fs_assetId x = fs_assetId s) (featured w))) (\<lambda>taken.
     bnd (check (\<not> taken) (OtherError (UniqueViolation ''featured_slots.assetId''))) (\<lambda>_.
     bnd (gets (slot_order_free (fs_id s) (fs_sortOrder s))) (\<lambda>free.
     bnd (check free (OtherError (UniqueViolation ''featured_slots.sortOrder''))) (\<lambda>_.
     upd (featured_update (\<lambda>ss. ss @ [s]))))))"

definition create_slot ::
  "s3_config \<Rightarrow> s3_client \<Rightarrow> bool \<Rightarrow> int \<Rightarrow> string \<Rightarrow> user_row \<Rightarrow> create_slot_dto \<Rightarrow> slot_dto handler" where
  "create_slot cfg c up now i admin dto =
     bnd (fetch (asset_by (cs_assetId dto)) (NotFoundDomain ASSET_NOT_FOUND)) (\<lambda>a.
     (let isActive = or_else (cs_isActive dto) True
      in bnd (check_cap isActive) (\<lambda>_.
         bnd (gets next_slot_order) (\<lambda>n.
         (let row = \<lparr>fs_id = i, fs_assetId = a_id a, fs_sortOrder = n, fs_bannerKey = cs_bannerKey dto, fs_title = cs_title dto,
                     fs_short = cs_short dto, fs_isActive = isActive\<rparr>
          in bnd (insert_slot row) (\<lambda>_.
             bnd (invalidate_discover up) (\<lambda>_.
             bnd (slot_audit now admin ''featured.create'' i
                    (Some [(''assetId'', JStr (a_id a)), (''isActive'', JBool isActive), (''sortOrder'', JNum n)])) (\<lambda>_.
             bnd (if isActive \<and> a_ownerId a \<noteq> u_id admin
                  then enqueueNotify (notify_of (a_ownerId a) FEATURED_FEATURED
                         (asset_ref_fields a @ [(''featuredAt'', JStr (iso_string now))]) admin)
                  else ret ()) (\<lambda>_.
             bnd (gets (\<lambda>w. slot_dto_of cfg c w row)) from_sum)))))))))"

record update_slot_dto =
  us_bannerKey :: "string option"
  us_title :: "string option"
  us_short :: "json option"
  us_isActive :: "bool option"
  us_sortOrder :: "int option"

definition some_or :: "'a option \<Rightarrow> 'a option \<Rightarrow> 'a option" where
  "some_or x y = (case x of None \<Rightarrow> y | Some v \<Rightarrow> Some v)"

definition patch_slot :: "update_slot_dto \<Rightarrow> featured_row \<Rightarrow> featured_row \<Rightarrow> featured_row" where
  "patch_slot dto row s =
     s\<lparr>fs_bannerKey := some_or (us_bannerKey dto) (fs_bannerKey row), fs_title := some_or (us_title dto) (fs_title row),
       fs_short := some_or (us_short dto) (fs_short row), fs_isActive := or_else (us_isActive dto) (fs_isActive row),
       fs_sortOrder := or_else (us_sortOrder dto) (fs_sortOrder row)\<rparr>"

definition update_slot ::
  "s3_config \<Rightarrow> s3_client \<Rightarrow> bool \<Rightarrow> int \<Rightarrow> json \<Rightarrow> string \<Rightarrow> user_row \<Rightarrow> update_slot_dto \<Rightarrow> slot_dto handler" where
  "update_slot cfg c up now changes i admin dto =
     bnd (fetch (slot_by i) (NotFoundDomain ASSET_NOT_FOUND)) (\<lambda>row.
     bnd (check_cap (us_isActive dto = Some True \<and> \<not> fs_isActive row)) (\<lambda>_.
     (let new = patch_slot dto row row
      in bnd (gets (slot_order_free i (fs_sortOrder new))) (\<lambda>free.
         bnd (check free (OtherError (UniqueViolation ''featured_slots.sortOrder''))) (\<lambda>_.
         bnd (upd (set_slot i (patch_slot dto row))) (\<lambda>_.
         bnd (invalidate_discover up) (\<lambda>_.
         bnd (slot_audit now admin ''featured.update'' i (Some [(''changes'', changes)])) (\<lambda>_.
         bnd (gets (\<lambda>w. slot_dto_of cfg c w new)) from_sum))))))))"

definition remove_slot :: "bool \<Rightarrow> int \<Rightarrow> string \<Rightarrow> user_row \<Rightarrow> unit handler" where
  "remove_slot up now i admin =
     bnd (fetch (slot_by i) (NotFoundDomain ASSET_NOT_FOUND)) (\<lambda>_.
     bnd (upd (featured_update (drop_rows (\<lambda>s. fs_id s = i)))) (\<lambda>_.
     bnd (invalidate_discover up) (\<lambda>_.
     slot_audit now admin ''featured.delete'' i None)))"

definition place_slot :: "string \<times> int \<Rightarrow> unit handler" where
  "place_slot p =
     (case p of (i, n) \<Rightarrow>
        bnd (fetch (slot_by i) (OtherError (RecordNotFound ''FeaturedSlot''))) (\<lambda>_.
        bnd (gets (slot_order_free i n)) (\<lambda>free.
        bnd (check free (OtherError (UniqueViolation ''featured_slots.sortOrder''))) (\<lambda>_.
        upd (set_slot i (fs_sortOrder_update (\<lambda>_. n)))))))"

definition numbered_from :: "int \<Rightarrow> string list \<Rightarrow> (string \<times> int) list" where
  "numbered_from n is = zip is (map (\<lambda>k. n + int k) [0..<length is])"

definition reorder_slots :: "bool \<Rightarrow> int \<Rightarrow> string list \<Rightarrow> user_row \<Rightarrow> unit handler" where
  "reorder_slots up now orderedIds admin =
     bnd (gets (\<lambda>w. length (filter (\<lambda>s. fs_id s \<in> set orderedIds) (featured w)))) (\<lambda>n.
     bnd (check (n = length orderedIds) (NotFoundDomain ASSET_NOT_FOUND)) (\<lambda>_.
     bnd (transact
            (bnd (each place_slot (numbered_from 1000000 orderedIds)) (\<lambda>_. each place_slot (numbered_from 0 orderedIds)))) (\<lambda>_.
     bnd (invalidate_discover up) (\<lambda>_.
     slot_audit now admin ''featured.reorder'' ''reorder'' (Some [(''orderedIds'', JArr (map JStr orderedIds))])))))"

definition initiate_banner :: "s3_config \<Rightarrow> s3_client \<Rightarrow> int \<Rightarrow> string \<Rightarrow> string \<Rightarrow> app_error + string \<times> string \<times> string" where
  "initiate_banner cfg c now uuid contentType =
     (let key = ''featured-banners/'' @ uuid
      in sum_bind (presign_put cfg c ThumbsBucket key contentType) (\<lambda>url.
         Inr (url, key, iso_string (now + s3_presign_sec cfg * 1000))))"

subsection \<open>The batched rows are the rows one by one\<close>

lemma filter_fst_block: "fst ` set ps \<subseteq> {k} \<Longrightarrow> filter (\<lambda>p. fst p = k) ps = ps"
  by (induction ps) auto

lemma filter_fst_other: "k \<notin> fst ` set ps \<Longrightarrow> filter (\<lambda>p. fst p = k) ps = []"
  by (induction ps) auto

lemma map_sum_map: "map_sum f (map g xs) = map_sum (\<lambda>x. f (g x)) xs"
  by (induction xs) simp_all

lemma regroup_flat:
  "distinct (map c_id cats) \<Longrightarrow>
     sum_bind (map_sum f (map snd (ordered_flat w cats))) (\<lambda>ss. Inr (regroup cats (zip (map fst (ordered_flat w cats)) ss))) =
     map_sum (\<lambda>cat. sum_bind (map_sum f (row_assets w cat)) (\<lambda>ss. Inr (cat, ss))) cats"
proof (induction cats)
  case Nil
  then show ?case by (simp add: ordered_flat_def regroup_def)
next
  case (Cons cat cats)
  let ?block = "map (Pair (c_id cat)) (row_assets w cat)" and ?rest = "ordered_flat w cats"
  have flat: "ordered_flat w (cat # cats) = ?block @ ?rest" by (simp add: ordered_flat_def)
  have keys: "c_id cat \<notin> fst ` set ?rest" using Cons.prems by (auto simp: ordered_flat_def)
  have block_keys: "map fst ?block = replicate (length (row_assets w cat)) (c_id cat)"
    by (simp add: map_replicate_const [symmetric] comp_def)
  have IH: "sum_bind (map_sum f (map snd ?rest)) (\<lambda>ss. Inr (regroup cats (zip (map fst ?rest) ss))) =
     map_sum (\<lambda>cat. sum_bind (map_sum f (row_assets w cat)) (\<lambda>ss. Inr (cat, ss))) cats"
    using Cons by simp
  have snd_block: "map snd ?block = row_assets w cat" by (simp add: comp_def)
  have regroup: "regroup (cat # cats) (zip (map fst (?block @ ?rest)) (us @ vs)) =
      (cat, us) # regroup cats (zip (map fst ?rest) vs)"
    if "length us = length (row_assets w cat)" "length vs = length ?rest" for us vs
  proof -
    have zip: "zip (map fst (?block @ ?rest)) (us @ vs) = zip (map fst ?block) us @ zip (map fst ?rest) vs"
      using that(1) by simp
    have b: "fst ` set (zip (map fst ?block) us) \<subseteq> {c_id cat}" unfolding block_keys by (auto dest: set_zip_leftD)
    have r: "c_id cat \<notin> fst ` set (zip (map fst ?rest) vs)" using keys by (auto dest: set_zip_leftD)
    have "map snd (filter (\<lambda>p. fst p = c_id cat) (zip (map fst (?block @ ?rest)) (us @ vs))) = us"
      unfolding zip filter_append filter_fst_block [OF b] filter_fst_other [OF r] using that(1) by simp
    moreover have "filter (\<lambda>p. fst p = c_id d) (zip (map fst (?block @ ?rest)) (us @ vs)) =
        filter (\<lambda>p. fst p = c_id d) (zip (map fst ?rest) vs)" if "d \<in> set cats" for d
    proof -
      have "c_id d \<in> c_id ` set cats" using that by (rule imageI)
      then have "c_id d \<noteq> c_id cat" using Cons.prems by auto
      then have "c_id d \<notin> fst ` set (zip (map fst ?block) us)" using b by auto
      then show ?thesis unfolding zip filter_append by (simp add: filter_fst_other)
    qed
    ultimately show ?thesis by (simp add: regroup_def)
  qed
  show ?case
  proof (cases "map_sum f (row_assets w cat)")
    case (Inl e)
    then show ?thesis unfolding flat map_append map_sum_append snd_block by simp
  next
    case us: (Inr us)
    show ?thesis
    proof (cases "map_sum f (map snd ?rest)")
      case (Inl e)
      with IH have "map_sum (\<lambda>cat. sum_bind (map_sum f (row_assets w cat)) (\<lambda>ss. Inr (cat, ss))) cats = Inl e" by simp
      then show ?thesis unfolding flat map_append map_sum_append snd_block by (simp add: us Inl)
    next
      case (Inr vs)
      have "length us = length (row_assets w cat)" "length vs = length ?rest"
        using map_sum_length [OF us] map_sum_length [OF Inr] by simp_all
      note rg = regroup [OF this]
      have rest: "map_sum (\<lambda>cat. sum_bind (map_sum f (row_assets w cat)) (\<lambda>ss. Inr (cat, ss))) cats =
          Inr (regroup cats (zip (map fst ?rest) vs))" using IH Inr by simp
      have flat_sum: "map_sum f (map snd (?block @ ?rest)) = Inr (us @ vs)"
        unfolding map_append map_sum_append snd_block by (simp add: us Inr)
      show ?thesis unfolding flat flat_sum sum_bind_simps rg by (simp add: us rest)
    qed
  qed
qed

text \<open>
  The rows of the discover page, computed with one batch of summaries over all categories, are what computing
  the row of each category on its own gives, with the empty rows left out and with the same first error.
\<close>

theorem build_rows_reference:
  assumes "distinct (map c_id cats)"
  shows "build_rows cfg c loc w cats =
     sum_bind (map_sum (\<lambda>cat. sum_bind (map_sum (to_summary cfg c loc w) (row_assets w cat)) (\<lambda>ss. Inr (cat, ss))) cats)
       (\<lambda>rows. Inr (filter (\<lambda>r. snd r \<noteq> []) rows))"
proof -
  have batch: "to_summary_many cfg c loc w as = map_sum (to_summary cfg c loc w) as" for as
    by (rule summaries_batched)
  show ?thesis
    unfolding regroup_flat [OF assms, symmetric] build_rows_def Let_def batch
    by (cases "map_sum (to_summary cfg c loc w) (map snd (ordered_flat w cats))") simp_all
qed

definition empty_category :: category_row where
  "empty_category = \<lparr>c_id = ''c'', c_slug = ''c'', c_name = JObj [], c_iconKey = None, c_sortOrder = 0, c_isActive = True\<rparr>"

theorem build_rows_reference_witness:
  "build_rows cfg0 client0 LEn draft_world [empty_category] = Inr []"
  using build_rows_reference [of "[empty_category]" cfg0 client0 LEn draft_world]
  by (simp add: row_assets_def order_desc_def)

subsection \<open>What the public sees\<close>

lemma summaries_status:
  assumes "to_summary_many cfg c loc w as = Inr ss" and "s \<in> set ss"
  shows "\<exists>a \<in> set as. sm_status s = a_status a"
  using assms by (fastforce simp: to_summary_many_def sum_bind_eq_Inr summary_of_def)

lemma built_rows_published:
  assumes "build_rows cfg c loc w cats = Inr rows" and "(cat, ss) \<in> set rows" and "s \<in> set ss"
  shows "sm_status s = PUBLISHED"
proof -
  obtain us where us: "to_summary_many cfg c loc w (map snd (ordered_flat w cats)) = Inr us"
    and rows: "rows = filter (\<lambda>r. snd r \<noteq> []) (regroup cats (zip (map fst (ordered_flat w cats)) us))"
    using assms(1) by (auto simp: build_rows_def Let_def sum_bind_eq_Inr)
  have "s \<in> set us" using assms(2,3) unfolding rows regroup_def by (auto dest!: set_zip_rightD)
  from summaries_status [OF us this] obtain a where a: "a \<in> snd ` set (ordered_flat w cats)" "sm_status s = a_status a" by auto
  then have "a_status a = PUBLISHED"
    by (auto simp: ordered_flat_def row_assets_def dest!: in_set_takeD)
  with a(2) show ?thesis by simp
qed

text \<open>
  C30: Of the assets' detail, their list, the recommendations and the rows of the discover page, a caller who is neither
  the owner nor an admin gets only published assets; the list has no deleted one for anybody, and the recommendations and
  the rows only published ones.  The featured slots, the other half of the discover page, are not filtered:
  \<open>drafts_featured\<close> shows one with a draft.
\<close>

theorem unpublished_assets_hidden:
  "(get_detail key requester loc w = Inr d \<longrightarrow>
      a_status (de_asset d) = PUBLISHED \<or> owner_or_admin requester (de_asset d)) \<and>
   (\<forall>a \<in> set (asset_listing ((q, requester), w)).
      a_status a \<noteq> DELETED \<and> (a_status a = PUBLISHED \<or> owner_or_admin requester a)) \<and>
   (recommended i w = Inr as \<longrightarrow> (\<forall>a \<in> set as. a_status a = PUBLISHED)) \<and>
   (build_rows cfg c loc w cats = Inr rows \<longrightarrow> (\<forall>(cat, ss) \<in> set rows. \<forall>s \<in> set ss. sm_status s = PUBLISHED))"
  using asset_listing_visible by (auto dest: detail_visible recommended_published built_rows_published)

definition mixed_world :: world where
  "mixed_world = empty_world\<lparr>assets := [asset0, asset0\<lparr>a_id := ''p'', a_slug := ''sand'', a_status := PUBLISHED\<rparr>]\<rparr>"

theorem unpublished_assets_hidden_witness:
  "\<exists>e rows. get_detail ''rocks'' None LEn mixed_world = Inl e \<and>
     build_rows cfg0 client0 LEn mixed_world [empty_category] = Inr rows \<and>
     (\<forall>(cat, ss) \<in> set rows. ss \<noteq> [] \<and> (\<forall>s \<in> set ss. sm_status s = PUBLISHED)) \<and>
     set (asset_listing ((query0, None), mixed_world)) \<subseteq> {asset0\<lparr>a_id := ''p'', a_slug := ''sand'', a_status := PUBLISHED\<rparr>}"
proof -
  let ?p = "asset0\<lparr>a_id := ''p'', a_slug := ''sand'', a_status := PUBLISHED\<rparr>"
  have f: "find_asset ''rocks'' mixed_world = Some asset0"
    by (simp add: find_asset_def asset_by_def mixed_world_def asset_by_slug_def)
  have row: "row_assets mixed_world empty_category = [?p]"
    by (simp add: row_assets_def order_desc_def mixed_world_def empty_category_def ASSETS_PER_ROW_def)
  obtain rows where rows: "build_rows cfg0 client0 LEn mixed_world [empty_category] = Inr rows"
    and ne: "\<forall>(cat, ss) \<in> set rows. ss \<noteq> []"
    by (simp add: build_rows_def ordered_flat_def row to_summary_many_def thumbnail_url_def truthy_opt_def truthy_str_def
        presign_get_def client0_def Let_def regroup_def)
  have l: "set (asset_listing ((query0, None), mixed_world)) \<subseteq> {asset0, ?p}"
    by (auto simp: asset_listing_def mixed_world_def)
  have hidden: "\<forall>a \<in> set (asset_listing ((query0, None), mixed_world)). a_status a = PUBLISHED \<or> owner_or_admin None a"
    "\<forall>(cat, ss) \<in> set rows. \<forall>s \<in> set ss. sm_status s = PUBLISHED"
    using unpublished_assets_hidden [where w = mixed_world and q = query0 and requester = None and rows = rows
      and cfg = cfg0 and c = client0 and loc = LEn and cats = "[empty_category]"] rows by blast+
  then have "asset0 \<notin> set (asset_listing ((query0, None), mixed_world))" by (auto simp: owner_or_admin_def)
  with l have "set (asset_listing ((query0, None), mixed_world)) \<subseteq> {?p}" by blast
  moreover have "\<exists>e. get_detail ''rocks'' None LEn mixed_world = Inl e"
    by (simp add: get_detail_def f owner_or_admin_def)
  moreover have "\<forall>(cat, ss) \<in> set rows. ss \<noteq> [] \<and> (\<forall>s \<in> set ss. sm_status s = PUBLISHED)"
    using ne hidden(2) by auto
  ultimately show ?thesis using rows by blast
qed

text \<open>An admin features a draft, and everybody reads its title on the discover page.\<close>

lemma drafts_featured:
  "\<exists>s w' f. create_slot cfg0 client0 True 5 ''s''  bob \<lparr>cs_assetId = ''a'', cs_bannerKey = None, cs_title = None, cs_short = None,
       cs_isActive = None\<rparr> draft_world = (Inr s, w') \<and> a_status asset0 = DRAFT \<and>
     compute_discover cfg0 client0 LEn w' = Inr (JObj [(''featured'', JArr [f]), (''rows'', JArr [])]) \<and>
     str_prop f ''assetSlug'' = Some (a_slug asset0) \<and> str_prop f ''title'' = Some (a_title asset0)"
  by (simp add: create_slot_def act_simps Let_def check_cap_def or_else_def active_count_def ACTIVE_CAP_def next_slot_order_def
      insert_slot_def slot_order_free_def some_row_def invalidate_discover_def slot_audit_def audit_record_def enqueueNotify_def
      slot_dto_of_def truthy_opt_def compute_discover_def FEATURED_LIMIT_def featured_dto_def truthy_str_def presign_get_def
      client0_def build_rows_def ordered_flat_def to_summary_many_def regroup_def str_prop_def asset_by_def draft_world_def
      resolve_localized_def asset0_def bob_def asset_translation_def)

subsection \<open>Reordering\<close>

definition placed :: "(string \<times> int) list \<Rightarrow> featured_row \<Rightarrow> featured_row" where
  "placed ps s = (case map_of ps (fs_id s) of None \<Rightarrow> s | Some n \<Rightarrow> s\<lparr>fs_sortOrder := n\<rparr>)"

lemma placed_id [simp]: "fs_id (placed ps s) = fs_id s"
  by (simp add: placed_def split: option.splits)

lemma place_slots:
  "distinct (map fst ps) \<Longrightarrow> distinct (map snd ps) \<Longrightarrow> fst ` set ps \<subseteq> fs_id ` set (featured w) \<Longrightarrow>
     snd ` set ps \<inter> fs_sortOrder ` set (featured w) = {} \<Longrightarrow>
     each place_slot ps w = (Inr (), featured_update (map (placed ps)) w)"
proof (induction ps arbitrary: w)
  case Nil
  have "map (placed []) (featured w) = featured w" by (simp add: placed_def map_idI)
  then have "featured_update (map (placed [])) w = w" by (cases w) simp
  then show ?case by simp
next
  case (Cons p ps)
  obtain i n where p: "p = (i, n)" by (cases p)
  let ?v = "set_slot i (fs_sortOrder_update (\<lambda>_. n)) w"
  have "i \<in> fs_id ` set (featured w)" using Cons.prems(3) by (simp add: p)
  then obtain s where s: "slot_by i w = Some s"
    by (cases "slot_by i w") (auto simp: slot_by_def find_row_None_iff)
  have free: "slot_order_free i n w" using Cons.prems(4) by (auto simp: p slot_order_free_def row_simps)
  have step: "place_slot p w = (Inr (), ?v)" by (simp add: place_slot_def p act_simps s free)
  have rows: "featured ?v = map (\<lambda>r. if fs_id r = i then r\<lparr>fs_sortOrder := n\<rparr> else r) (featured w)"
    by (simp add: set_slot_def set_rows_def)
  have "map fs_id (featured ?v) = map fs_id (featured w)" by (simp add: rows)
  then have ids: "fs_id ` set (featured ?v) = fs_id ` set (featured w)" by (metis set_map)
  have "fs_sortOrder ` set (featured ?v) \<subseteq> insert n (fs_sortOrder ` set (featured w))" by (auto simp: rows)
  moreover have "n \<notin> snd ` set ps" using Cons.prems(2) by (simp add: p)
  moreover have "snd ` set ps \<inter> fs_sortOrder ` set (featured w) = {}" using Cons.prems(4) by auto
  ultimately have disj: "snd ` set ps \<inter> fs_sortOrder ` set (featured ?v) = {}" by blast
  have "each place_slot ps ?v = (Inr (), featured_update (map (placed ps)) ?v)"
    by (rule Cons.IH) (use Cons.prems ids disj in auto)
  moreover have "featured_update (map (placed ps)) ?v = featured_update (map (placed (p # ps))) w"
  proof -
    have none: "map_of ps i = None" using Cons.prems(1) by (simp add: p map_of_eq_None_iff)
    have "placed ps (if fs_id r = i then fs_sortOrder_update (\<lambda>_. n) r else r) = placed (p # ps) r" for r
      by (auto simp: placed_def p none split: option.splits)
    then have "map (placed ps) \<circ> set_rows (\<lambda>s. fs_id s = i) (fs_sortOrder_update (\<lambda>_. n)) = map (placed (p # ps))"
      by (intro ext) (simp add: set_rows_def)
    then show ?thesis by (simp add: set_slot_def comp_def)
  qed
  ultimately show ?case by (simp add: step)
qed

lemma numbered_fst: "map fst (numbered_from n is) = is"
  by (simp add: numbered_from_def)

lemma numbered_snd: "map snd (numbered_from n is) = map (\<lambda>k. n + int k) [0..<length is]"
  by (simp add: numbered_from_def)

lemma numbered_distinct: "distinct (map snd (numbered_from n is))"
  by (simp add: numbered_snd distinct_map inj_on_def)

lemma numbered_map_of: "distinct is \<Longrightarrow> k < length is \<Longrightarrow> map_of (numbered_from n is) (is ! k) = Some (n + int k)"
  by (simp add: numbered_from_def map_of_zip_nth)

text \<open>Parking everything at a million and then counting from zero ends with the positions asked for.\<close>

lemma few_slots:
  assumes "distinct (map fs_sortOrder ss)" and "fs_sortOrder ` set ss \<subseteq> {0..<1000000}"
  shows "length ss \<le> 1000000"
proof -
  have "length ss = card (set (map fs_sortOrder ss))" using distinct_card [OF assms(1)] by simp
  also have "\<dots> \<le> card {0..<1000000 :: int}" using assms(2) by (intro card_mono) auto
  finally show ?thesis by simp
qed

lemma two_passes:
  assumes ok: "featured_ok w" and ids: "distinct is" "set is = fs_id ` set (featured w)"
    and range: "fs_sortOrder ` set (featured w) \<subseteq> {0..<1000000}"
  shows "bnd (each place_slot (numbered_from 1000000 is)) (\<lambda>_. each place_slot (numbered_from 0 is)) w =
     (Inr (), featured_update (map (placed (numbered_from 0 is))) w)"
proof -
  let ?P = "numbered_from 1000000 is" and ?Q = "numbered_from 0 is"
  let ?v = "featured_update (map (placed ?P)) w"
  have fst: "fst ` set (numbered_from n is) = set is" for n by (metis numbered_fst set_map)
  have snd: "snd ` set (numbered_from n is) = (\<lambda>k. n + int k) ` {0..<length is}" for n
    by (metis numbered_snd set_map set_upt)
  have pos: "\<exists>k. map_of (numbered_from n is) (fs_id s) = Some (n + int k)" if s: "s \<in> set (featured w)" for n s
  proof -
    have "fs_id s \<in> set is" using s ids(2) by auto
    then obtain k where k: "k < length is" "is ! k = fs_id s" by (auto simp: in_set_conv_nth)
    with numbered_map_of [OF ids(1) k(1)] show ?thesis by auto
  qed
  have "length is = length (featured w)"
    using distinct_card [OF ids(1)] distinct_card [of "map fs_id (featured w)"] ids(2) ok by (simp add: featured_ok_def)
  then have few: "length is \<le> 1000000" using few_slots [OF _ range] ok by (simp add: featured_ok_def)
  have one: "each place_slot ?P w = (Inr (), ?v)"
    by (rule place_slots) (use ids range in \<open>auto simp: numbered_fst numbered_distinct fst snd\<close>)
  have "fs_sortOrder (placed ?P s) \<ge> 1000000" if "s \<in> set (featured w)" for s
    using pos [OF that, of 1000000] by (auto simp: placed_def)
  then have high: "n \<ge> 1000000" if "n \<in> fs_sortOrder ` set (featured ?v)" for n using that by auto
  have low: "n < 1000000" if "n \<in> snd ` set ?Q" for n using that few by (auto simp: snd)
  have "snd ` set ?Q \<inter> fs_sortOrder ` set (featured ?v) = {}"
  proof (rule ccontr)
    assume "\<not> ?thesis"
    then obtain n where "n \<in> snd ` set ?Q" "n \<in> fs_sortOrder ` set (featured ?v)" by blast
    from low [OF this(1)] high [OF this(2)] show False by simp
  qed
  moreover have "fst ` set ?Q \<subseteq> fs_id ` set (featured ?v)" using ids(2) by (simp add: fst image_image)
  ultimately have two: "each place_slot ?Q ?v = (Inr (), featured_update (map (placed ?Q)) ?v)"
    using ids(1) by (intro place_slots) (simp_all add: numbered_fst numbered_distinct)
  have "placed ?Q (placed ?P s) = placed ?Q s" if s: "s \<in> set (featured w)" for s
    using pos [OF s, of 0] pos [OF s, of 1000000] by (auto simp: placed_def)
  then have "featured_update (map (placed ?Q)) ?v = featured_update (map (placed ?Q)) w"
    by (cases w) simp
  with one two show ?thesis by simp
qed

text \<open>
  A reorder that names every slot once succeeds and puts the slot named k-th at position k, touching nothing
  but the positions, provided the positions were below a million (where the first pass parks them).
\<close>

theorem reorder_slots_positions:
  assumes "featured_ok w" and "distinct is" and "set is = fs_id ` set (featured w)"
    and "fs_sortOrder ` set (featured w) \<subseteq> {0..<1000000}" and "reorder_slots True now is admin w = (r, w')"
  shows "r = Inr () \<and> featured w' = map (placed (numbered_from 0 is)) (featured w) \<and>
     list_all (\<lambda>s. fs_sortOrder s < int (length is) \<and> is ! nat (fs_sortOrder s) = fs_id s) (featured w')"
proof -
  have "length (filter (\<lambda>s. fs_id s \<in> set is) (featured w)) = length (featured w)" using assms(3) by auto
  moreover have "length is = length (featured w)"
    using distinct_card [OF assms(2)] distinct_card [of "map fs_id (featured w)"] assms(1,3) by (simp add: featured_ok_def)
  ultimately have n: "length (filter (\<lambda>s. fs_id s \<in> set is) (featured w)) = length is" by simp
  have run: "r = Inr () \<and> featured w' = map (placed (numbered_from 0 is)) (featured w)"
    using assms(5) two_passes [OF assms(1-4)]
    by (simp add: reorder_slots_def act_simps n transact_apply invalidate_discover_def slot_audit_def audit_record_def)
      auto
  have "fs_sortOrder s < int (length is) \<and> is ! nat (fs_sortOrder s) = fs_id s" if s: "s \<in> set (featured w')" for s
  proof -
    obtain t where t: "t \<in> set (featured w)" "s = placed (numbered_from 0 is) t" using s run by auto
    have "fs_id t \<in> set is" using t(1) assms(3) by auto
    then obtain k where k: "k < length is" "is ! k = fs_id t" by (auto simp: in_set_conv_nth)
    with numbered_map_of [OF assms(2) k(1), of 0] have "s = t\<lparr>fs_sortOrder := int k\<rparr>" by (simp add: t(2) placed_def)
    with k show ?thesis by simp
  qed
  with run show ?thesis by (simp add: list_all_iff)
qed

definition slot_of :: "string \<Rightarrow> int \<Rightarrow> featured_row" where
  "slot_of i n = \<lparr>fs_id = i, fs_assetId = i, fs_sortOrder = n, fs_bannerKey = None, fs_title = None, fs_short = None, fs_isActive = True\<rparr>"

definition slots_world :: world where
  "slots_world = empty_world\<lparr>featured := [slot_of ''x'' 0, slot_of ''y'' 1, slot_of ''z'' 2]\<rparr>"

lemma slots_world_ok: "featured_ok slots_world" "fs_sortOrder ` set (featured slots_world) \<subseteq> {0..<1000000}"
  by (simp_all add: slots_world_def featured_ok_def slot_of_def)

theorem reorder_slots_positions_witness:
  "map fs_sortOrder (featured (snd (reorder_slots True 5 [''z'', ''x'', ''y''] bob slots_world))) = [1, 2, 0]"
proof -
  obtain r w' where run: "reorder_slots True 5 [''z'', ''x'', ''y''] bob slots_world = (r, w')" by fastforce
  have "featured w' = map (placed (numbered_from 0 [''z'', ''x'', ''y''])) (featured slots_world)"
    using reorder_slots_positions [OF slots_world_ok(1) _ _ slots_world_ok(2) run]
    by (auto simp: slots_world_def slot_of_def)
  then show ?thesis
    unfolding run snd_conv by (simp add: slots_world_def placed_def numbered_from_def slot_of_def upt_rec)
qed

text \<open>
  A reorder that leaves slots out can fail: naming two of three slots collides with the position of the third,
  the transaction is rolled back and the request ends with a unique violation.
\<close>

theorem reorder_subset_collides:
  "reorder_slots True 5 [''z'', ''y''] bob slots_world = (Inl (OtherError (UniqueViolation ''featured_slots.sortOrder'')), slots_world)"
  by (simp add: reorder_slots_def slots_world_def slot_of_def act_simps transact_apply numbered_from_def upt_rec place_slot_def
      slot_by_def slot_order_free_def some_row_def set_slot_def)

subsection \<open>The cap and the unique positions\<close>

definition slots_inv :: "world \<Rightarrow> bool" where
  "slots_inv w \<longleftrightarrow> featured_ok w \<and> active_count w \<le> ACTIVE_CAP"

lemma slots_inv_cong: "featured w' = featured w \<Longrightarrow> slots_inv w' = slots_inv w"
  by (simp add: slots_inv_def featured_ok_def active_count_def)

lemma invalidate_discover_frame: "invalidate_discover up w = (r, w') \<Longrightarrow> featured w' = featured w"
  by (auto simp: invalidate_discover_def act_simps split: if_splits)

lemma keeps_slots_tail:
  "keeps slots_inv (invalidate_discover up)" "keeps slots_inv (slot_audit now admin action i meta)"
  "keeps slots_inv (enqueueNotify j)"
  unfolding invalidate_discover_def slot_audit_def audit_record_def enqueue_defs
  by (auto intro!: keeps_intro keeps_upd keeps_submit simp: slots_inv_def featured_ok_def active_count_def)

definition cap_after :: "bool \<Rightarrow> world \<Rightarrow> bool" where
  "cap_after activates w \<longleftrightarrow> featured_ok w \<and> active_count w + (if activates then 1 else 0) \<le> ACTIVE_CAP"

lemma check_cap_run: "check_cap b w = (Inr (), w') \<Longrightarrow> slots_inv w \<Longrightarrow> w' = w \<and> cap_after b w"
  by (auto simp: check_cap_def act_simps cap_after_def slots_inv_def split: if_splits)

lemma check_cap_state: "snd (check_cap b w) = w"
  by (simp add: check_cap_def act_simps)

lemma next_slot_order_free: "s \<in> set (featured w) \<Longrightarrow> fs_sortOrder s < next_slot_order w"
proof -
  assume s: "s \<in> set (featured w)"
  then have "featured w \<noteq> []" by auto
  then have "next_slot_order w = Max (fs_sortOrder ` set (featured w)) + 1"
    by (cases "featured w") (simp_all add: next_slot_order_def)
  moreover have "fs_sortOrder s \<le> Max (fs_sortOrder ` set (featured w))" using s by (intro Max_ge) auto
  ultimately show ?thesis by simp
qed

lemma insert_slot_inv:
  assumes "cap_after (fs_isActive s) w" and "fs_id s \<notin> fs_id ` set (featured w)" and "insert_slot s w = (r, w')"
  shows "slots_inv w'"
proof -
  have "w' = w \<or> (w' = featured_update (\<lambda>ss. ss @ [s]) w \<and> fs_assetId s \<notin> fs_assetId ` set (featured w) \<and>
      fs_sortOrder s \<notin> fs_sortOrder ` set (featured w))"
  proof -
    define t where "t = some_row (\<lambda>x. fs_assetId x = fs_assetId s) (featured w)"
    define f where "f = slot_order_free (fs_id s) (fs_sortOrder s) w"
    have "insert_slot s w = (if t then (Inl (OtherError (UniqueViolation ''featured_slots.assetId'')), w)
        else if f then (Inr (), featured_update (\<lambda>ss. ss @ [s]) w)
        else (Inl (OtherError (UniqueViolation ''featured_slots.sortOrder'')), w))"
      by (simp add: insert_slot_def bnd_gets bnd_check t_def f_def)
    with assms(3) have "w' = w \<or> (w' = featured_update (\<lambda>ss. ss @ [s]) w \<and> \<not> t \<and> f)" by (auto split: if_splits)
    moreover have "fs_sortOrder s \<notin> fs_sortOrder ` set (featured w)" if f
    proof
      assume "fs_sortOrder s \<in> fs_sortOrder ` set (featured w)"
      then obtain x where x: "x \<in> set (featured w)" "fs_sortOrder s = fs_sortOrder x" by (rule imageE)
      have "fs_id x \<noteq> fs_id s" using imageI [OF x(1), of fs_id] assms(2) by metis
      with x that show False by (simp add: f_def slot_order_free_def row_simps)
    qed
    moreover have "fs_assetId s \<notin> fs_assetId ` set (featured w)" if "\<not> t"
      using that by (force simp: t_def row_simps)
    ultimately show ?thesis by blast
  qed
  then show ?thesis
  proof
    assume "w' = w"
    with assms(1) show ?thesis by (auto simp: cap_after_def slots_inv_def split: if_splits)
  next
    assume "w' = featured_update (\<lambda>ss. ss @ [s]) w \<and> fs_assetId s \<notin> fs_assetId ` set (featured w) \<and>
      fs_sortOrder s \<notin> fs_sortOrder ` set (featured w)"
    with assms(1,2) show ?thesis
      by (auto simp: cap_after_def slots_inv_def featured_ok_def active_count_def row_simps split: if_splits)
  qed
qed

lemma create_slot_inv:
  assumes inv: "slots_inv w" and "i \<notin> fs_id ` set (featured w)" and run: "create_slot cfg c up now i admin dto w = (r, w')"
  shows "slots_inv w'"
proof (cases "asset_by (cs_assetId dto) w")
  case None
  with run inv show ?thesis by (simp add: create_slot_def act_simps)
next
  case (Some a)
  let ?b = "or_else (cs_isActive dto) True"
  let ?row = "\<lparr>fs_id = i, fs_assetId = a_id a, fs_sortOrder = next_slot_order w, fs_bannerKey = cs_bannerKey dto,
     fs_title = cs_title dto, fs_short = cs_short dto, fs_isActive = ?b\<rparr>"
  show ?thesis
  proof (cases "fst (check_cap ?b w)")
    case (Inl e)
    then have "check_cap ?b w = (Inl e, w)" using check_cap_state [of ?b w] by (cases "check_cap ?b w") simp
    with run inv Some show ?thesis by (simp add: create_slot_def act_simps Let_def)
  next
    case (Inr x)
    then have cap: "check_cap ?b w = (Inr (), w)" using check_cap_state [of ?b w] by (cases "check_cap ?b w") simp
    obtain q v where ins: "insert_slot ?row w = (q, v)" by fastforce
    have v: "slots_inv v"
      by (rule insert_slot_inv [OF _ _ ins]) (use check_cap_run [OF cap inv] assms(2) in simp_all)
    have tail: "keeps slots_inv (bnd (invalidate_discover up) (\<lambda>_. bnd (slot_audit now admin act j meta) (\<lambda>_.
        bnd (if b then enqueueNotify n else ret ()) (\<lambda>_. bnd (gets (\<lambda>w. slot_dto_of cfg c w row)) from_sum))))"
      for act j meta b n row
      by (intro keeps_intro keeps_slots_tail)
    show ?thesis
    proof (cases q)
      case q: (Inl e)
      with run ins v show ?thesis by (simp add: create_slot_def Some Let_def bnd_fetch bnd_gets cap)
    next
      case (Inr u)
      show ?thesis
        by (rule keepsD [OF tail v]) (use run ins Inr in \<open>simp add: create_slot_def Some Let_def bnd_fetch bnd_gets cap\<close>)
    qed
  qed
qed

lemma set_slot_inv:
  assumes inv: "slots_inv w" and row: "slot_by i w = Some row"
    and same: "\<And>s. fs_id (f s) = fs_id s" "\<And>s. fs_assetId (f s) = fs_assetId s"
    and order: "\<And>s. fs_sortOrder (f s) = n" and free: "slot_order_free i n w"
    and act: "\<And>s. fs_isActive (f s) = b" and cap: "cap_after (b \<and> \<not> fs_isActive row) w"
  shows "slots_inv (set_slot i f w)"
proof -
  have ids: "distinct (map fs_id (featured w))" and ords: "distinct (map fs_sortOrder (featured w))"
    using inv by (simp_all add: slots_inv_def featured_ok_def)
  have "distinct (map fs_sortOrder (set_rows (\<lambda>s. fs_id s = i) f (featured w)))"
    by (rule distinct_set_key [OF ids ords, where s = n])
      (use free order in \<open>auto simp: slot_order_free_def row_simps\<close>)
  moreover have "count_rows fs_isActive (set_rows (\<lambda>s. fs_id s = i) f ss) \<le>
      count_rows fs_isActive ss + (if b \<and> \<not> fs_isActive row then 1 else 0)"
    if "distinct (map fs_id ss)" "set ss \<subseteq> set (featured w)" for ss
    using that
  proof (induction ss)
    case (Cons s ss)
    have row_mem: "row \<in> set (featured w)" "fs_id row = i" using find_row_SomeD [OF row [unfolded slot_by_def]] by simp_all
    show ?case
    proof (cases "fs_id s = i")
      case True
      then have "s = row" using same_key [OF ids _ row_mem(1)] Cons.prems(2) row_mem(2) by simp
      moreover have "set_rows (\<lambda>s. fs_id s = i) f ss = ss"
      proof -
        have "fs_id x \<noteq> i" if "x \<in> set ss" for x
          using imageI [OF that, of fs_id] True Cons.prems(1) by (metis distinct.simps(2) list.set_map list.simps(9))
        then show ?thesis by (simp add: set_rows_def map_idI)
      qed
      ultimately show ?thesis using True act by simp
    next
      case False
      with Cons show ?thesis by simp
    qed
  qed simp
  ultimately show ?thesis
    using inv cap ids
    by (fastforce simp: slots_inv_def featured_ok_def set_slot_def active_count_def cap_after_def row_simps same)
qed

lemma update_slot_inv:
  assumes inv: "slots_inv w" and run: "update_slot cfg c up now ch i admin dto w = (r, w')"
  shows "slots_inv w'"
proof (cases "slot_by i w")
  case None
  with run inv show ?thesis by (simp add: update_slot_def act_simps)
next
  case (Some row)
  let ?b = "us_isActive dto = Some True \<and> \<not> fs_isActive row" and ?new = "patch_slot dto row row"
  show ?thesis
  proof (cases "fst (check_cap ?b w)")
    case (Inl e)
    then have "check_cap ?b w = (Inl e, w)" using check_cap_state [of ?b w] by (cases "check_cap ?b w") simp
    with run inv Some show ?thesis by (simp add: update_slot_def bnd_fetch bnd_Inl)
  next
    case (Inr x)
    then have cap: "check_cap ?b w = (Inr (), w)" using check_cap_state [of ?b w] by (cases "check_cap ?b w") simp
    show ?thesis
    proof (cases "slot_order_free i (fs_sortOrder ?new) w")
      case False
      with run inv Some show ?thesis by (simp add: update_slot_def bnd_fetch cap bnd_gets bnd_check Let_def)
    next
      case True
      have "slots_inv (set_slot i (patch_slot dto row) w)"
      proof (rule set_slot_inv [OF inv Some _ _ _ True])
        show "cap_after (fs_isActive ?new \<and> \<not> fs_isActive row) w"
          using check_cap_run [OF cap inv] inv
          by (cases "us_isActive dto") (auto simp: patch_slot_def or_else_def cap_after_def slots_inv_def split: if_splits)
      qed (simp_all add: patch_slot_def)
      then have new: "slots_inv (set_slot i (patch_slot dto row) w)" .
      have tail: "keeps slots_inv (bnd (invalidate_discover up) (\<lambda>_. bnd (slot_audit now admin act j meta) (\<lambda>_.
          bnd (gets (\<lambda>w. slot_dto_of cfg c w s)) from_sum)))" for act j meta s
        by (intro keeps_intro keeps_slots_tail)
      show ?thesis
        by (rule keepsD [OF tail new])
          (use run True in \<open>simp add: update_slot_def bnd_fetch Some cap bnd_gets bnd_check bnd_upd Let_def\<close>)
    qed
  qed
qed

lemma remove_slot_inv: "keeps slots_inv (remove_slot up now i admin)"
proof -
  have "keeps slots_inv (upd (featured_update (drop_rows (\<lambda>s. fs_id s = i))))"
  proof (rule keeps_upd)
    fix w
    assume w: "slots_inv w"
    then show "slots_inv (featured_update (drop_rows (\<lambda>s. fs_id s = i)) w)"
      using count_rows_drop_le [of fs_isActive "\<lambda>s. fs_id s = i" "featured w"]
      by (simp add: slots_inv_def featured_ok_def active_count_def distinct_map_drop_rows)
  qed
  then show ?thesis unfolding remove_slot_def by (intro keeps_intro keeps_slots_tail)
qed

lemma place_slot_inv: "keeps slots_inv (place_slot p)"
  unfolding keeps_def
proof (intro allI impI)
  fix w
  assume w: "slots_inv w"
  obtain i n where p: "p = (i, n)" by (cases p)
  show "slots_inv (snd (place_slot p w))"
  proof (cases "slot_by i w")
    case None
    with w show ?thesis by (simp add: place_slot_def p act_simps)
  next
    case (Some row)
    have act: "count_rows fs_isActive (set_rows q (fs_sortOrder_update (\<lambda>_. n)) ss) = count_rows fs_isActive ss" for q and ss :: "featured_row list"
      by (induction ss) simp_all
    have "slots_inv (set_slot i (fs_sortOrder_update (\<lambda>_. n)) w)" if free: "slot_order_free i n w"
    proof -
      have "distinct (map fs_sortOrder (set_rows (\<lambda>s. fs_id s = i) (fs_sortOrder_update (\<lambda>_. n)) (featured w)))"
        by (rule distinct_set_key [where s = n])
          (use w free in \<open>auto simp: slots_inv_def featured_ok_def slot_order_free_def row_simps\<close>)
      with w act show ?thesis by (simp add: slots_inv_def featured_ok_def set_slot_def active_count_def row_simps)
    qed
    with w Some show ?thesis by (simp add: place_slot_def p act_simps)
  qed
qed

lemma reorder_slots_inv: "keeps slots_inv (reorder_slots up now is admin)"
  unfolding reorder_slots_def
  by (intro keeps_intro keeps_slots_tail keeps_transact keeps_each place_slot_inv)

inductive slots_reached :: "s3_config \<Rightarrow> s3_client \<Rightarrow> world \<Rightarrow> world \<Rightarrow> bool" for cfg c w0 where
  slots_start: "slots_reached cfg c w0 w0"
| slots_create: "slots_reached cfg c w0 w \<Longrightarrow> i \<notin> fs_id ` set (featured w) \<Longrightarrow>
    create_slot cfg c up now i admin dto w = (r, w') \<Longrightarrow> slots_reached cfg c w0 w'"
| slots_update: "slots_reached cfg c w0 w \<Longrightarrow> update_slot cfg c up now ch i admin udto w = (r, w') \<Longrightarrow> slots_reached cfg c w0 w'"
| slots_remove: "slots_reached cfg c w0 w \<Longrightarrow> remove_slot up now i admin w = (r', w') \<Longrightarrow> slots_reached cfg c w0 w'"
| slots_reorder: "slots_reached cfg c w0 w \<Longrightarrow> reorder_slots up now is admin w = (r', w') \<Longrightarrow> slots_reached cfg c w0 w'"

text \<open>
  From a database with the unique keys and at most five active slots, no sequence of creations, updates,
  removals and reorderings of featured slots, successful or not, reaches one where two slots share an id, an asset
  or a position, or where more than five are active.
\<close>

theorem reached_slots_inv:
  assumes "slots_reached cfg c w0 w" and "slots_inv w0"
  shows "slots_inv w"
  using assms
proof (induction rule: slots_reached.induct)
  case (slots_create w i up now admin dto r w')
  then show ?case using create_slot_inv by blast
next
  case (slots_update w up now ch i admin udto r w')
  then show ?case using update_slot_inv by blast
next
  case (slots_remove w up now i admin r' w')
  then show ?case using keepsD [OF remove_slot_inv] by blast
next
  case (slots_reorder w up now "is" admin r' w')
  then show ?case using keepsD [OF reorder_slots_inv] by blast
qed

theorem reached_slots_inv_witness:
  "slots_inv (snd (remove_slot True 9 ''x'' bob slots_world))"
proof -
  obtain r w' where run: "remove_slot True 9 ''x'' bob slots_world = (r, w')" by fastforce
  have "slots_inv slots_world"
    using slots_world_ok by (simp add: slots_inv_def active_count_def ACTIVE_CAP_def) (simp add: slots_world_def slot_of_def)
  then have "slots_inv w'" by (rule reached_slots_inv [OF slots_remove [OF slots_start run]])
  then show ?thesis by (simp add: run)
qed

end
