(* ===== verification/Library.thy ===== *)
theory Library
  imports Featured
begin

section \<open>The library of a user\<close>

text \<open>
  \<open>src/modules/library/library.service.ts\<close>: the assets a user has saved, each visible or hidden.  \<open>saved\<close> reads the
  table as a map from user and asset to the hidden flag, and the operations refine the map operations.
\<close>

datatype library_sort = SavedAt | ByTitle | ByUpdate

datatype hidden_mode = OnlyHidden | OnlyVisible | AllItems

record list_library_query =
  ly_q :: "string option"
  ly_categoryIds :: "string list option"
  ly_tags :: "string list option"
  ly_engine :: "asset_engine option"
  ly_hidden :: "hidden_mode option"
  ly_sort :: "library_sort option"
  ly_limit :: "int option"
  ly_cursor :: "string option"

record library_item_dto =
  lyd_addedAt :: string
  lyd_hidden :: bool
  lyd_asset :: asset_summary

definition asset_tagged :: "(tag_row \<Rightarrow> bool) \<Rightarrow> string \<Rightarrow> world \<Rightarrow> bool" where
  "asset_tagged p assetId w \<longleftrightarrow>
     some_row (\<lambda>x. at_assetId x = assetId \<and> some_row (\<lambda>t. t_id t = at_tagId x \<and> p t) (tags w)) (asset_tags w)"

definition opt_all :: "'a option \<Rightarrow> ('a \<Rightarrow> bool) \<Rightarrow> bool" where
  "opt_all x p = (case x of None \<Rightarrow> True | Some v \<Rightarrow> p v)"

text \<open>An empty list of ids or tags is no filter, like an absent one.\<close>

definition library_asset_match :: "list_library_query \<Rightarrow> world \<Rightarrow> asset_row \<Rightarrow> bool" where
  "library_asset_match query w a \<longleftrightarrow>
     a_status a = PUBLISHED \<and>
     opt_all (truthy_opt (ly_q query)) (\<lambda>q. contains_ci q (a_title a) \<or> asset_tagged (\<lambda>t. contains_ci q (t_name t)) (a_id a) w) \<and>
     opt_all (ly_categoryIds query) (\<lambda>cs. cs = [] \<or> a_categoryId a \<in> set cs) \<and>
     opt_all (ly_tags query) (\<lambda>ts. ts = [] \<or> asset_tagged (\<lambda>t. t_slug t \<in> set ts) (a_id a) w) \<and>
     opt_all (ly_engine query) (\<lambda>e. a_engine a = e)"

definition library_match :: "user_row \<Rightarrow> list_library_query \<Rightarrow> world \<Rightarrow> library_row \<Rightarrow> bool" where
  "library_match user query w l \<longleftrightarrow>
     li_userId l = u_id user \<and>
     (case or_else (ly_hidden query) OnlyVisible of OnlyHidden \<Rightarrow> li_hidden l | AllItems \<Rightarrow> True | OnlyVisible \<Rightarrow> \<not> li_hidden l) \<and>
     (case asset_by (li_assetId l) w of None \<Rightarrow> False | Some a \<Rightarrow> library_asset_match query w a)"

definition library_title :: "world \<Rightarrow> library_row \<Rightarrow> string" where
  "library_title w l = (case asset_by (li_assetId l) w of None \<Rightarrow> [] | Some a \<Rightarrow> a_title a)"

definition library_updated :: "world \<Rightarrow> library_row \<Rightarrow> int" where
  "library_updated w l = (case asset_by (li_assetId l) w of None \<Rightarrow> 0 | Some a \<Rightarrow> a_updatedAt a)"

fun order_library :: "library_sort \<Rightarrow> world \<Rightarrow> library_row list \<Rightarrow> library_row list" where
  "order_library ByTitle w ls = sort_key (library_title w) (order_desc li_id ls)"
| "order_library ByUpdate w ls = order_desc (\<lambda>l. (library_updated w l, li_id l)) ls"
| "order_library SavedAt w ls = order_desc (\<lambda>l. (li_addedAt l, li_id l)) ls"

definition library_listing :: "(user_row \<times> list_library_query) \<times> world \<Rightarrow> library_row list" where
  "library_listing =
     (\<lambda>((user, query), w). order_library (or_else (ly_sort query) SavedAt) w (filter (library_match user query w) (library w)))"

definition library_cursor :: "library_row \<Rightarrow> cursor" where
  "library_cursor l = \<lparr>cur_createdAt = iso_string (li_addedAt l), cur_id = li_id l\<rparr>"

text \<open>A library row always has its asset: the reference cascades.\<close>

definition library_assets :: "world \<Rightarrow> library_row list \<Rightarrow> asset_row list" where
  "library_assets w ls = List.map_filter (\<lambda>l. asset_by (li_assetId l) w) ls"

definition list_library ::
  "s3_config \<Rightarrow> s3_client \<Rightarrow> user_row \<Rightarrow> list_library_query \<Rightarrow> locale_code \<Rightarrow> world \<Rightarrow> app_error + library_item_dto page" where
  "list_library cfg c user query loc w =
     sum_bind (list_page li_id library_cursor (resolve_page_size (ly_limit query)) (ly_cursor query)
                 (library_listing ((user, query), w))) (\<lambda>p.
     sum_bind (to_summary_many cfg c loc w (library_assets w (pg_items p))) (\<lambda>ss.
     Inr \<lparr>pg_items = map (\<lambda>(l, s). \<lparr>lyd_addedAt = iso_string (li_addedAt l), lyd_hidden = li_hidden l, lyd_asset = s\<rparr>)
                         (zip (pg_items p) ss),
          pg_nextCursor = pg_nextCursor p, pg_hasMore = pg_hasMore p\<rparr>))"

lemma library_listing_set: "set (library_listing ((user, query), w)) = {l \<in> set (library w). library_match user query w l}"
  by (cases "or_else (ly_sort query) SavedAt") (auto simp: library_listing_def)

interpretation library_pages: paged_listing li_id library_cursor library_listing
    "\<lambda>(_, w). distinct (map li_id (library w))"
proof
  fix q :: "(user_row \<times> list_library_query) \<times> world"
  assume "case q of (_, w) \<Rightarrow> distinct (map li_id (library w))"
  moreover have "distinct (map li_id (order_library s w xs)) = distinct (map li_id xs)" for s w xs
    by (cases s) (simp_all add: distinct_map_sort_key)
  ultimately show "distinct (map li_id (library_listing q))"
    by (auto simp: library_listing_def distinct_map_filter_rows split: prod.splits)
qed (simp add: library_cursor_def)

subsection \<open>Changing the library\<close>

definition owned_item :: "string \<Rightarrow> string \<Rightarrow> library_row \<Rightarrow> bool" where
  "owned_item userId assetId l \<longleftrightarrow> li_userId l = userId \<and> li_assetId l = assetId"

text \<open>\<open>libraryItem.upsert\<close> on the unique pair; \<open>upd\<close> is what it does to a row that exists.\<close>

definition upsert_item :: "int \<Rightarrow> string \<Rightarrow> (library_row \<Rightarrow> library_row) \<Rightarrow> string \<Rightarrow> string \<Rightarrow> world \<Rightarrow> world" where
  "upsert_item now i f userId assetId =
     library_update (\<lambda>ls.
       if some_row (owned_item userId assetId) ls then set_rows (owned_item userId assetId) f ls
       else ls @ [\<lparr>li_id = i, li_userId = userId, li_assetId = assetId, li_hidden = False, li_addedAt = now\<rparr>])"

definition add_item :: "int \<Rightarrow> string \<Rightarrow> user_row \<Rightarrow> string \<Rightarrow> unit handler" where
  "add_item now i user assetId =
     bnd (fetch (asset_by assetId) (NotFoundDomain ASSET_NOT_FOUND)) (\<lambda>_.
     upd (upsert_item now i (li_hidden_update (\<lambda>_. False)) (u_id user) assetId))"

definition remove_item :: "user_row \<Rightarrow> string \<Rightarrow> unit handler" where
  "remove_item user assetId = upd (library_update (drop_rows (owned_item (u_id user) assetId)))"

definition set_hidden :: "user_row \<Rightarrow> string \<Rightarrow> bool \<Rightarrow> unit handler" where
  "set_hidden user assetId hidden =
     bnd (gets (\<lambda>w. some_row (owned_item (u_id user) assetId) (library w))) (\<lambda>found.
     bnd (check found (NotFoundDomain ASSET_NOT_FOUND)) (\<lambda>_.
     upd (library_update (set_rows (owned_item (u_id user) assetId) (li_hidden_update (\<lambda>_. hidden))))))"

subsection \<open>The table as a map\<close>

definition saved :: "world \<Rightarrow> string \<times> string \<Rightarrow> bool option" where
  "saved w = (\<lambda>(u, a). map_option li_hidden (List.find (owned_item u a) (library w)))"

definition pairs_ok :: "world \<Rightarrow> bool" where
  "pairs_ok w \<longleftrightarrow> distinct (map (\<lambda>l. (li_userId l, li_assetId l)) (library w))"

lemma find_append: "List.find p (xs @ ys) = (case List.find p xs of None \<Rightarrow> List.find p ys | Some x \<Rightarrow> Some x)"
  by (induction xs) simp_all

lemma find_set_rows: "(\<And>r. p (f r) = p r) \<Longrightarrow> List.find p (set_rows q f xs) = map_option (\<lambda>r. if q r then f r else r) (List.find p xs)"
  by (induction xs) auto

lemma find_drop_same: "List.find p (drop_rows p xs) = None"
  by (induction xs) auto

lemma find_drop_other: "(\<And>r. p r \<Longrightarrow> \<not> q r) \<Longrightarrow> List.find p (drop_rows q xs) = List.find p xs"
  by (induction xs) auto

lemma find_none_iff: "List.find p xs = None \<longleftrightarrow> \<not> some_row p xs"
  by (auto simp: find_None_iff row_simps)

lemma owned_item_other: "owned_item u a l \<Longrightarrow> owned_item u' a' l \<longleftrightarrow> u' = u \<and> a' = a"
  by (auto simp: owned_item_def)

lemma saved_append: "saved (library_update (\<lambda>ls. ls @ [l]) w) (u, a) =
    (case saved w (u, a) of None \<Rightarrow> if owned_item u a l then Some (li_hidden l) else None | Some h \<Rightarrow> Some h)"
  by (simp add: saved_def find_append split: option.splits)

lemma saved_set:
  assumes "\<And>l. li_userId (f l) = li_userId l" "\<And>l. li_assetId (f l) = li_assetId l" "\<And>l. li_hidden (f l) = g (li_hidden l)"
  shows "saved (library_update (set_rows (owned_item u a) f) w) =
     (case saved w (u, a) of None \<Rightarrow> saved w | Some h \<Rightarrow> (saved w)((u, a) \<mapsto> g h))"
proof
  fix p :: "string \<times> string"
  obtain u' a' where p: "p = (u', a')" by (cases p)
  have "owned_item u' a' (f l) = owned_item u' a' l" for l by (simp add: owned_item_def assms)
  then have find: "List.find (owned_item u' a') (set_rows (owned_item u a) f (library w)) =
      map_option (\<lambda>r. if owned_item u a r then f r else r) (List.find (owned_item u' a') (library w))"
    by (rule find_set_rows)
  show "saved (library_update (set_rows (owned_item u a) f) w) p =
      (case saved w (u, a) of None \<Rightarrow> saved w | Some h \<Rightarrow> (saved w)((u, a) \<mapsto> g h)) p"
  proof (cases "List.find (owned_item u' a') (library w)")
    case None
    then show ?thesis by (auto simp: saved_def p find split: option.splits)
  next
    case (Some l)
    then have l: "owned_item u' a' l" by (auto simp: find_Some_iff)
    show ?thesis
    proof (cases "u' = u \<and> a' = a")
      case True
      then have e: "u' = u" "a' = a" by simp_all
      show ?thesis using Some l find unfolding e by (simp add: saved_def p e assms)
    next
      case False
      then have "\<not> owned_item u a l" using owned_item_other [OF l, of u a] by blast
      with Some False show ?thesis by (auto simp: saved_def p find split: option.splits)
    qed
  qed
qed

lemma saved_upsert:
  assumes "\<And>l. li_userId (f l) = li_userId l" "\<And>l. li_assetId (f l) = li_assetId l" "\<And>l. li_hidden (f l) = g (li_hidden l)"
  shows "saved (upsert_item now i f u a w) = (saved w)((u, a) \<mapsto> (case saved w (u, a) of None \<Rightarrow> False | Some h \<Rightarrow> g h))"
proof (cases "some_row (owned_item u a) (library w)")
  case True
  then have up: "upsert_item now i f u a w = library_update (set_rows (owned_item u a) f) w"
    by (cases w) (simp add: upsert_item_def)
  obtain h where h: "saved w (u, a) = Some h"
    using True find_none_iff [of "owned_item u a" "library w"] by (auto simp: saved_def)
  show ?thesis unfolding up saved_set [of f g, OF assms] h by simp
next
  case False
  let ?l = "\<lparr>li_id = i, li_userId = u, li_assetId = a, li_hidden = False, li_addedAt = now\<rparr>"
  have up: "upsert_item now i f u a w = library_update (\<lambda>ls. ls @ [?l]) w"
    using False by (cases w) (simp add: upsert_item_def)
  have none: "saved w (u, a) = None" using False find_none_iff [of "owned_item u a" "library w"] by (simp add: saved_def)
  have "saved (library_update (\<lambda>ls. ls @ [?l]) w) p = ((saved w)((u, a) \<mapsto> False)) p" for p
  proof (cases p)
    case (Pair u' a')
    show ?thesis unfolding Pair using none unfolding saved_append
      by (cases "saved w (u', a')") (auto simp: owned_item_def)
  qed
  then show ?thesis unfolding up none by auto
qed

lemma saved_remove: "saved (library_update (drop_rows (owned_item u a)) w) = (saved w)((u, a) := None)"
proof
  fix p :: "string \<times> string"
  obtain u' a' where p: "p = (u', a')" by (cases p)
  show "saved (library_update (drop_rows (owned_item u a)) w) p = ((saved w)((u, a) := None)) p"
  proof (cases "u' = u \<and> a' = a")
    case True
    then show ?thesis by (simp add: saved_def p find_drop_same)
  next
    case False
    have "List.find (owned_item u' a') (drop_rows (owned_item u a) (library w)) = List.find (owned_item u' a') (library w)"
      by (rule find_drop_other) (use False in \<open>auto simp: owned_item_def\<close>)
    with False show ?thesis by (auto simp: saved_def p)
  qed
qed

text \<open>The abstract library: what every operation does to the map, or the error it ends with.\<close>

datatype library_call = AddItem string | RemoveItem string | HideItem string bool

fun abs_library :: "world \<Rightarrow> string \<Rightarrow> library_call \<Rightarrow> (string \<times> string \<Rightarrow> bool option) \<Rightarrow>
    (app_error + unit) \<times> (string \<times> string \<Rightarrow> bool option)" where
  "abs_library w u (AddItem a) m =
     (if asset_by a w = None then (Inl (NotFoundDomain ASSET_NOT_FOUND), m) else (Inr (), m((u, a) \<mapsto> False)))"
| "abs_library w u (RemoveItem a) m = (Inr (), m((u, a) := None))"
| "abs_library w u (HideItem a h) m =
     (if m (u, a) = None then (Inl (NotFoundDomain ASSET_NOT_FOUND), m) else (Inr (), m((u, a) \<mapsto> h)))"

fun run_library_call :: "int \<Rightarrow> string \<Rightarrow> user_row \<Rightarrow> library_call \<Rightarrow> unit handler" where
  "run_library_call now i user (AddItem a) = add_item now i user a"
| "run_library_call now i user (RemoveItem a) = remove_item user a"
| "run_library_call now i user (HideItem a h) = set_hidden user a h"

text \<open>
  C19: The library refines a map from user and asset to the hidden flag: adding shows the item, removing forgets
  it, hiding sets the flag of an item that is there, with the errors of the map operations and nothing else of
  the map changed.
\<close>

theorem library_refines:
  "map_prod id saved (run_library_call now i user call w) = abs_library w (u_id user) call (saved w)"
proof (cases call)
  case (AddItem a)
  have "saved (upsert_item now i (li_hidden_update (\<lambda>_. False)) (u_id user) a w) = (saved w)((u_id user, a) \<mapsto> False)"
    using saved_upsert [of "li_hidden_update (\<lambda>_. False)" "\<lambda>_. False"] by (simp split: option.splits)
  then show ?thesis by (cases "asset_by a w") (simp_all add: AddItem add_item_def act_simps)
next
  case (RemoveItem a)
  then show ?thesis by (simp add: remove_item_def saved_remove)
next
  case (HideItem a h)
  have set: "saved (library_update (set_rows (owned_item (u_id user) a) (li_hidden_update (\<lambda>_. h))) w) =
      (case saved w (u_id user, a) of None \<Rightarrow> saved w | Some _ \<Rightarrow> (saved w)((u_id user, a) \<mapsto> h))"
    using saved_set [of "li_hidden_update (\<lambda>_. h)" "\<lambda>_. h"] by simp
  have none: "saved w (u_id user, a) = None \<longleftrightarrow> \<not> some_row (owned_item (u_id user) a) (library w)"
    by (simp add: saved_def find_none_iff)
  show ?thesis
  proof (cases "some_row (owned_item (u_id user) a) (library w)")
    case True
    then obtain b where "saved w (u_id user, a) = Some b" using none by auto
    with True set show ?thesis by (simp add: HideItem set_hidden_def act_simps)
  next
    case False
    with none show ?thesis by (simp add: HideItem set_hidden_def act_simps)
  qed
qed

end
