(* ===== verification/Downloads.thy ===== *)
theory Downloads
  imports Library
begin

section \<open>Downloads\<close>

text \<open>
  \<open>src/modules/downloads/downloads.service.ts\<close>: the choices offered before a download and the download itself, which
  signs a link for every file, records one row per file, saves the asset in the library and asks for a statistics
  reindex.  The SHA-256 digest of the address is a parameter.
\<close>

definition download_allowed :: "asset_row \<Rightarrow> user_row \<Rightarrow> bool" where
  "download_allowed a u \<longleftrightarrow> a_status a = PUBLISHED \<or> u_isAdmin u \<or> a_ownerId a = u_id u"

definition downloadable :: "string \<Rightarrow> string \<Rightarrow> user_row \<Rightarrow> (version_row \<times> asset_row) handler" where
  "downloadable assetId versionId u =
     bnd (fetch (\<lambda>w. case version_by versionId w of
              None \<Rightarrow> None
            | Some v \<Rightarrow> if v_assetId v = assetId then map_option (Pair v) (asset_by assetId w) else None)
           (NotFoundDomain VERSION_NOT_FOUND)) (\<lambda>(v, a).
     bnd (check (download_allowed a u) (ForbiddenDomain AUTH_FORBIDDEN)) (\<lambda>_. ret (v, a)))"

definition older_versions :: "string \<Rightarrow> string \<Rightarrow> world \<Rightarrow> version_row list" where
  "older_versions assetId versionId w =
     take 10 (order_desc (\<lambda>v. or_else (v_publishedAt v) 0)
       (filter (\<lambda>v. v_assetId v = assetId \<and> v_id v \<noteq> versionId \<and> v_publishedAt v \<noteq> None) (versions w)))"

record download_file =
  df_id :: string
  df_relativePath :: string
  df_kind :: file_kind
  df_bytes :: int
  df_getUrl :: "string option"
  df_expiresAt :: "string option"

record download_response =
  dw_asset :: asset_row
  dw_version :: version_row
  dw_files :: "download_file list"
  dw_older :: "(string \<times> string \<times> string option) list"

definition older_ref :: "version_row \<Rightarrow> string \<times> string \<times> string option" where
  "older_ref v = (v_id v, v_semver v, map_option iso_string (v_publishedAt v))"

definition plain_file :: "file_row \<Rightarrow> download_file" where
  "plain_file f = \<lparr>df_id = f_id f, df_relativePath = f_relPath f, df_kind = f_kind f, df_bytes = f_bytes f, df_getUrl = None, df_expiresAt = None\<rparr>"

definition download_options :: "string \<Rightarrow> string \<Rightarrow> user_row \<Rightarrow> download_response handler" where
  "download_options assetId versionId u =
     bnd (downloadable assetId versionId u) (\<lambda>(v, a).
     gets (\<lambda>w. \<lparr>dw_asset = a, dw_version = v, dw_files = map plain_file (asset_files versionId w),
                dw_older = map older_ref (older_versions assetId versionId w)\<rparr>))"

definition target_files :: "string option \<Rightarrow> file_row list \<Rightarrow> file_row list" where
  "target_files fileId fs = (case truthy_opt fileId of None \<Rightarrow> fs | Some i \<Rightarrow> filter (\<lambda>f. f_id f = i) fs)"

definition signed_file :: "s3_config \<Rightarrow> s3_client \<Rightarrow> int \<Rightarrow> file_row \<Rightarrow> app_error + download_file" where
  "signed_file cfg c now f =
     sum_bind (presign_long_lived_get cfg c AssetsBucket (f_s3Key f) (s3_presign_sec cfg)) (\<lambda>url.
     Inr ((plain_file f)\<lparr>df_getUrl := Some url, df_expiresAt := Some (iso_string (now + s3_presign_sec cfg * 1000))\<rparr>))"

record download_request =
  dq_assetId :: string
  dq_versionId :: string
  dq_fileId :: "string option"
  dq_source :: download_source
  dq_ip :: "string option"
  dq_userAgent :: "string option"

definition ip_hash :: "(string \<Rightarrow> string) \<Rightarrow> string option \<Rightarrow> string option \<Rightarrow> string" where
  "ip_hash sha pepper ip = sha (or_else ip ''unknown'' @ ''::'' @ or_else pepper [])"

definition download_row_of :: "(string \<Rightarrow> string) \<Rightarrow> string option \<Rightarrow> int \<Rightarrow> download_request \<Rightarrow> user_row \<Rightarrow> string \<Rightarrow> file_row \<Rightarrow> download_row" where
  "download_row_of sha pepper now req u i f =
     \<lparr>d_id = i, d_userId = u_id u, d_assetId = dq_assetId req, d_versionId = dq_versionId req, d_fileId = Some (f_id f),
      d_ipHash = ip_hash sha pepper (dq_ip req), d_country = None, d_userAgent = take 512 (or_else (dq_userAgent req) []),
      d_source = dq_source req, d_createdAt = now\<rparr>"

text \<open>\<open>fresh k\<close> is the id of the k-th row of \<open>createMany\<close>.\<close>

definition record_downloads ::
  "(string \<Rightarrow> string) \<Rightarrow> string option \<Rightarrow> int \<Rightarrow> (nat \<Rightarrow> string) \<Rightarrow> string \<Rightarrow> download_request \<Rightarrow> user_row \<Rightarrow> file_row list \<Rightarrow> unit handler" where
  "record_downloads sha pepper now fresh libId req u fs =
     transact
       (bnd (upd (downloads_update (\<lambda>ds. ds @ map (\<lambda>(k, f). download_row_of sha pepper now req u (fresh k) f) (enumerate 0 fs)))) (\<lambda>_.
        upd (upsert_item now libId id (u_id u) (dq_assetId req))))"

definition initiate_download ::
  "s3_config \<Rightarrow> s3_client \<Rightarrow> (string \<Rightarrow> string) \<Rightarrow> string option \<Rightarrow> int \<Rightarrow> (nat \<Rightarrow> string) \<Rightarrow> string \<Rightarrow> download_request \<Rightarrow> user_row \<Rightarrow> download_response handler" where
  "initiate_download cfg c sha pepper now fresh libId req u =
     bnd (downloadable (dq_assetId req) (dq_versionId req) u) (\<lambda>(v, a).
     bnd (gets (\<lambda>w. target_files (dq_fileId req) (asset_files (dq_versionId req) w))) (\<lambda>fs.
     bnd (check (truthy_opt (dq_fileId req) = None \<or> fs \<noteq> []) (NotFoundDomain FILE_UPLOAD_NOT_FOUND)) (\<lambda>_.
     bnd (from_sum (map_sum (signed_file cfg c now) fs)) (\<lambda>signed.
     bnd (record_downloads sha pepper now fresh libId req u fs) (\<lambda>_.
     bnd (enqueueSearchIndex (dq_assetId req) ASSET_STATS) (\<lambda>_.
     gets (\<lambda>w. \<lparr>dw_asset = a, dw_version = v, dw_files = signed,
                dw_older = map older_ref (older_versions (dq_assetId req) (dq_versionId req) w)\<rparr>)))))))"

subsection \<open>What a download does\<close>

lemma map_enumerate_snd: "map (\<lambda>x. g (snd x)) (enumerate n xs) = map g xs"
  by (induction xs arbitrary: n) simp_all

lemma downloadable_cases:
  assumes "downloadable assetId versionId u w = (r, w')"
  shows "w' = w \<and> (\<forall>x. r = Inr x \<longrightarrow> version_by versionId w = Some (fst x) \<and> v_assetId (fst x) = assetId \<and>
     asset_by assetId w = Some (snd x) \<and> download_allowed (snd x) u)"
  using assms by (auto simp: downloadable_def act_simps split: option.splits if_splits prod.splits)

lemma queue_down_upsert [simp]: "queue_down (upsert_item now i f u a w) = queue_down w"
  by (simp add: upsert_item_def)

text \<open>What a download leaves: a row for each of the files, and the asset in the library of the user, hidden or not as before.\<close>

definition logs_download :: "download_request \<Rightarrow> user_row \<Rightarrow> string list \<Rightarrow> world \<Rightarrow> world \<Rightarrow> bool" where
  "logs_download req u ids w w' \<longleftrightarrow>
     take (length (downloads w)) (downloads w') = downloads w \<and>
     map d_fileId (drop (length (downloads w)) (downloads w')) = map Some ids \<and>
     list_all (\<lambda>d. d_userId d = u_id u \<and> d_versionId d = dq_versionId req) (drop (length (downloads w)) (downloads w')) \<and>
     saved w' = (saved w)((u_id u, dq_assetId req) \<mapsto> or_else (saved w (u_id u, dq_assetId req)) False)"

lemma signed_ids: "map_sum (signed_file cfg c now) fs = Inr xs \<Longrightarrow> map df_id xs = map f_id fs"
proof (induction fs arbitrary: xs)
  case (Cons f fs)
  have "df_id x = f_id f" if "signed_file cfg c now f = Inr x" for x
    using that by (cases "presign_long_lived_get cfg c AssetsBucket (f_s3Key f) (s3_presign_sec cfg)")
      (auto simp: signed_file_def plain_file_def)
  with Cons show ?case by (auto simp: sum_bind_eq_Inr)
qed simp

text \<open>The rows are committed before the reindex is asked for, so they are there whether or not the queue takes it.\<close>

lemma signed_download:
  assumes run: "initiate_download cfg c sha pepper now fresh libId req u w = (r, w')"
    and start: "downloadable (dq_assetId req) (dq_versionId req) u w = (Inr (ver, a), w)"
    and fs: "fs = target_files (dq_fileId req) (asset_files (dq_versionId req) w)"
    and ok: "truthy_opt (dq_fileId req) = None \<or> fs \<noteq> []"
    and signed: "map_sum (signed_file cfg c now) fs = Inr signed"
  shows "logs_download req u (map f_id fs) w w'"
    and "if queue_down w then r = Inl queue_failed
      else \<exists>older. r = Inr \<lparr>dw_asset = a, dw_version = ver, dw_files = signed, dw_older = older\<rparr>"
proof -
  let ?rows = "map (\<lambda>(k, f). download_row_of sha pepper now req u (fresh k) f) (enumerate 0 fs)"
  let ?w1 = "upsert_item now libId id (u_id u) (dq_assetId req) (downloads_update (\<lambda>ds. ds @ ?rows) w)"
  let ?w2 = "snd (enqueueSearchIndex (dq_assetId req) ASSET_STATS ?w1)"
  have up: "saved (upsert_item now libId id (u_id u) (dq_assetId req) x) =
      (saved x)((u_id u, dq_assetId req) \<mapsto> or_else (saved x (u_id u, dq_assetId req)) False)" for x
    using saved_upsert [of id "\<lambda>h. h"] by (simp add: or_else_def)
  have fr: "saved (downloads_update f x) = saved x" "saved (jobs_update g x) = saved x" for f g x
    by (simp_all add: saved_def)
  have dl: "downloads (upsert_item now libId id (u_id u) (dq_assetId req) x) = downloads x" for x
    by (simp add: upsert_item_def)
  have qd: "queue_down ?w1 = queue_down w" by simp
  have res: "r = (if queue_down w then Inl queue_failed else Inr \<lparr>dw_asset = a, dw_version = ver, dw_files = signed,
        dw_older = map older_ref (older_versions (dq_assetId req) (dq_versionId req) ?w2)\<rparr>) \<and> w' = ?w2"
    using start ok run signed unfolding fs
    by (auto simp: initiate_download_def bnd_apply record_downloads_def transact_apply enqueueSearchIndex_def qd split: if_splits)
  have "map d_fileId ?rows = map (\<lambda>x. Some (f_id (snd x))) (enumerate 0 fs)"
    by (simp add: download_row_of_def split_beta)
  then have rowids: "map d_fileId ?rows = map Some (map f_id fs)"
    using map_enumerate_snd [of "\<lambda>f. Some (f_id f)" 0 fs] by (simp add: comp_def)
  have dls: "downloads w' = downloads w @ ?rows" using res by (simp add: enqueueSearchIndex_def dl)
  have lib: "saved w' = (saved w)((u_id u, dq_assetId req) \<mapsto> or_else (saved w (u_id u, dq_assetId req)) False)"
    using res by (simp add: enqueueSearchIndex_def up fr)
  have own: "list_all (\<lambda>d. d_userId d = u_id u \<and> d_versionId d = dq_versionId req) ?rows"
    by (auto simp: list_all_iff download_row_of_def)
  have new: "drop (length (downloads w)) (downloads w') = ?rows" "take (length (downloads w)) (downloads w') = downloads w"
    unfolding dls by simp_all
  show "logs_download req u (map f_id fs) w w'"
    unfolding logs_download_def new using rowids own lib by (simp add: comp_def)
  show "if queue_down w then r = Inl queue_failed
      else \<exists>older. r = Inr \<lparr>dw_asset = a, dw_version = ver, dw_files = signed, dw_older = older\<rparr>"
    using res by simp
qed

text \<open>
  C24: A download that succeeds is of a version of an asset that the user may download, answers the requested files of that
  version, and has recorded a row of the user for each file and the asset in the library, with its \<open>hidden\<close> untouched.
  One that fails has recorded nothing, with one exception: where the job of the reindex is not taken the request fails
  although the rows, committed before, are there.
\<close>

theorem download_recorded:
  assumes "initiate_download cfg c sha pepper now fresh libId req u w = (r, w')"
  shows "case r of
      Inl e \<Rightarrow>
        (downloads w' = downloads w \<and> saved w' = saved w) \<or>
        (queue_down w \<and> e = queue_failed \<and>
         logs_download req u (map f_id (target_files (dq_fileId req) (asset_files (dq_versionId req) w))) w w')
    | Inr resp \<Rightarrow>
        \<not> queue_down w \<and> asset_by (dq_assetId req) w = Some (dw_asset resp) \<and> download_allowed (dw_asset resp) u \<and>
        version_by (dq_versionId req) w = Some (dw_version resp) \<and> v_assetId (dw_version resp) = dq_assetId req \<and>
        map df_id (dw_files resp) = map f_id (target_files (dq_fileId req) (asset_files (dq_versionId req) w)) \<and>
        logs_download req u (map df_id (dw_files resp)) w w'"
proof -
  obtain q v where run: "downloadable (dq_assetId req) (dq_versionId req) u w = (q, v)" by fastforce
  note d = downloadable_cases [OF run]
  show ?thesis
  proof (cases q)
    case (Inl e)
    with run d assms show ?thesis by (auto simp: initiate_download_def bnd_apply)
  next
    case (Inr p)
    obtain ver a where p: "p = (ver, a)" by (cases p)
    have facts: "version_by (dq_versionId req) w = Some ver" "v_assetId ver = dq_assetId req"
      "asset_by (dq_assetId req) w = Some a" "download_allowed a u"
      using d Inr p by simp_all
    have ids: "v_id ver = dq_versionId req" "a_id a = dq_assetId req"
      using version_byD [OF facts(1)] asset_byD [OF facts(3)] by simp_all
    let ?fs = "target_files (dq_fileId req) (asset_files (dq_versionId req) w)"
    have start: "downloadable (dq_assetId req) (dq_versionId req) u w = (Inr (ver, a), w)" using run d Inr p by simp
    show ?thesis
    proof (cases "truthy_opt (dq_fileId req) = None \<or> ?fs \<noteq> []")
      case False
      with start assms show ?thesis by (auto simp: initiate_download_def bnd_apply)
    next
      case ok: True
      show ?thesis
      proof (cases "map_sum (signed_file cfg c now) ?fs")
        case (Inl e)
        with start ok assms show ?thesis by (auto simp: initiate_download_def bnd_apply)
      next
        case (Inr signed)
        note logged = signed_download [OF assms start refl ok Inr]
        from logged facts show ?thesis by (cases "queue_down w") (auto simp: signed_ids [OF Inr] ids)
      qed
    qed
  qed
qed

definition ready_request :: download_request where
  "ready_request = \<lparr>dq_assetId = ''a'', dq_versionId = ''v'', dq_fileId = None, dq_source = WEB, dq_ip = None, dq_userAgent = None\<rparr>"

theorem download_recorded_witness:
  "case initiate_download cfg0 client0 (\<lambda>s. s) None 5 (\<lambda>_. ''d'') ''li'' ready_request bob ready_world of
     (r, w') \<Rightarrow> length (downloads w') = 1 \<and> saved w' (''b'', ''a'') = Some False"
proof -
  obtain r w' where run: "initiate_download cfg0 client0 (\<lambda>s. s) None 5 (\<lambda>_. ''d'') ''li'' ready_request bob ready_world = (r, w')"
    by fastforce
  have "\<exists>resp. r = Inr resp \<and> a_id (dw_asset resp) = ''a'' \<and> length (dw_files resp) = 1"
    using run by (auto simp: initiate_download_def ready_request_def downloadable_def act_simps version_by_def
        download_allowed_def bob_def target_files_def truthy_opt_def truthy_str_def asset_files_def ready_world_def draft_world_def
        asset_by_def signed_file_def presign_long_lived_get_def client0_def record_downloads_def transact_apply enqueueSearchIndex_def)
  then obtain resp where resp: "r = Inr resp" "a_id (dw_asset resp) = ''a''" "length (dw_files resp) = 1" by blast
  have "downloads ready_world = []" "saved ready_world = Map.empty"
    by (auto simp: ready_world_def draft_world_def saved_def)
  moreover have "logs_download ready_request bob (map df_id (dw_files resp)) ready_world w'"
    using download_recorded [OF run] unfolding resp(1) sum.case by blast
  ultimately have "map d_fileId (downloads w') = map Some (map df_id (dw_files resp))" "saved w' = [(''b'', ''a'') \<mapsto> False]"
    by (simp_all add: bob_def or_else_def logs_download_def ready_request_def)
  moreover from this(1) have "length (downloads w') = 1" using resp(3) by (metis length_map)
  ultimately show ?thesis by (simp add: run)
qed

lemma failed_download_recorded:
  "case initiate_download cfg0 client0 (\<lambda>s. s) None 5 (\<lambda>_. ''d'') ''li'' ready_request bob (ready_world\<lparr>queue_down := True\<rparr>) of
     (r, w') \<Rightarrow> r = Inl queue_failed \<and> length (downloads w') = 1"
  by (auto simp: initiate_download_def ready_request_def downloadable_def act_simps version_by_def
        download_allowed_def bob_def target_files_def truthy_opt_def truthy_str_def asset_files_def ready_world_def draft_world_def
        asset_by_def signed_file_def presign_long_lived_get_def client0_def record_downloads_def transact_apply enqueueSearchIndex_def
        upsert_item_def)

end
