(* ===== verification/Maintenance.thy ===== *)
theory Maintenance
  imports Moderation
begin

section \<open>The nightly maintenance workers\<close>

text \<open>
  \<open>src/modules/jobs/processors/maintenance/\<close>: the purge of archived assets, the trimming of the audit log, the
  collection of unreferenced editor media, the download rollup and the storage rollup.  The cron schedules are
  left out: an operation is one run, with the time as a parameter.  URL parsing and percent decoding are
  parameters, as are the listings of S3.
\<close>

definition DAY_MS :: int where "DAY_MS = 86400000"

subsection \<open>Purging archived assets\<close>

definition purgeable :: "int \<Rightarrow> asset_row \<Rightarrow> bool" where
  "purgeable cutoff a \<longleftrightarrow> (a_status a = ARCHIVED \<or> a_status a = DELETED) \<and>
     (case a_archivedAt a of None \<Rightarrow> False | Some t \<Rightarrow> t \<le> cutoff)"

definition purge_one ::
  "s3_config \<Rightarrow> object_store \<Rightarrow> s3_client \<Rightarrow> (string list \<Rightarrow> app_error + unit) \<Rightarrow> int \<Rightarrow> asset_row \<Rightarrow> unit looping" where
  "purge_one cfg st c meili now a =
     lbnd (delete_asset_objects cfg st c a) (\<lambda>_.
     always
       (bnd (transact
              (bnd (audit_record now None ''archive.purged'' ''Asset'' (a_id a)
                     (Some (JObj [(''previousStatus'', JStr (asset_status_name (a_status a))), (''slug'', JStr (a_slug a))]))) (\<lambda>_.
               delete_asset_row (a_id a)))) (\<lambda>_.
        swallow (delete_documents meili (asset_doc_ids (a_id a))))))"

text \<open>A failure of one asset is logged and the next one is purged.\<close>

fun purge_all ::
  "s3_config \<Rightarrow> object_store \<Rightarrow> s3_client \<Rightarrow> (string list \<Rightarrow> app_error + unit) \<Rightarrow> int \<Rightarrow> asset_row list \<Rightarrow> unit looping" where
  "purge_all cfg st c meili now [] w = Some (Inr (), w)"
| "purge_all cfg st c meili now (a # as) w =
     (case purge_one cfg st c meili now a w of
        None \<Rightarrow> None
      | Some (_, w') \<Rightarrow> purge_all cfg st c meili now as w')"

definition archive_purge ::
  "s3_config \<Rightarrow> object_store \<Rightarrow> s3_client \<Rightarrow> (string list \<Rightarrow> app_error + unit) \<Rightarrow> int \<Rightarrow> int \<Rightarrow> unit looping" where
  "archive_purge cfg st c meili purgeDays now w =
     purge_all cfg st c meili now (filter (purgeable (now - purgeDays * DAY_MS)) (assets w)) w"

subsection \<open>Trimming the audit log\<close>

definition audit_purge :: "int \<Rightarrow> int \<Rightarrow> unit handler" where
  "audit_purge retentionDays now = upd (audit_logs_update (drop_rows (\<lambda>r. au_createdAt r < now - retentionDays * DAY_MS)))"

subsection \<open>Collecting editor media\<close>

record url_env =
  ue_parse :: "string \<Rightarrow> (string \<times> string) option"
  ue_decode :: "string \<Rightarrow> string option"

text \<open>The host and path of a parsed URL; \<open>None\<close> is a parser or decoder that throws, which is caught.\<close>

definition extract_editor_key :: "url_env \<Rightarrow> string \<Rightarrow> string \<Rightarrow> string option" where
  "extract_editor_key env url editorBucket =
     (case ue_parse env url of
        None \<Rightarrow> None
      | Some (hostname, pathname) \<Rightarrow>
          if starts_with (editorBucket @ ''.'') hostname
          then ue_decode env (case pathname of c # s \<Rightarrow> if c = CHR ''/'' then s else pathname | [] \<Rightarrow> [])
          else if starts_with (''/'' @ editorBucket @ ''/'') pathname
          then ue_decode env (drop (length editorBucket + 2) pathname)
          else None)"

definition attr_keys :: "url_env \<Rightarrow> string \<Rightarrow> json \<Rightarrow> string list" where
  "attr_keys env bucket attrs =
     concat (map (\<lambda>field.
       (case get_prop attrs field of
          Some (JStr url) \<Rightarrow> (case extract_editor_key env url bucket of Some (c # s) \<Rightarrow> [c # s] | _ \<Rightarrow> [])
        | _ \<Rightarrow> [])) [''src'', ''href''])"

function tiptap_keys :: "url_env \<Rightarrow> string \<Rightarrow> json \<Rightarrow> string list" where
  "tiptap_keys env bucket v =
     (case v of
        JArr cs \<Rightarrow> concat (map (tiptap_keys env bucket) cs)
      | JObj fs \<Rightarrow>
          (case map_of fs ''attrs'' of Some attrs \<Rightarrow> if truthy attrs then attr_keys env bucket attrs else [] | None \<Rightarrow> []) @
          (case map_of fs ''content'' of Some u \<Rightarrow> tiptap_keys env bucket u | None \<Rightarrow> []) @
          (case map_of fs ''marks'' of Some u \<Rightarrow> tiptap_keys env bucket u | None \<Rightarrow> [])
      | _ \<Rightarrow> [])"
  by pat_completeness auto
termination
  by (relation "measure (\<lambda>(env, bucket, v). size v)") (auto dest!: size_map_of simp: size_list_estimation' less_Suc_eq_le size_content_less)

declare tiptap_keys.simps [simp del]

definition referenced_keys :: "url_env \<Rightarrow> s3_config \<Rightarrow> world \<Rightarrow> string list" where
  "referenced_keys env cfg w = concat (map (\<lambda>t. tiptap_keys env (bucket_for cfg EditorBucket) (tr_long t)) (asset_texts w))"

definition gc_one :: "s3_config \<Rightarrow> s3_client \<Rightarrow> string list \<Rightarrow> media_row \<Rightarrow> unit handler" where
  "gc_one cfg c referenced m =
     (if em_key m \<in> set referenced then ret ()
      else swallow (bnd (delete_object cfg c EditorBucket (em_key m)) (\<lambda>_.
             upd (editor_media_update (drop_rows (\<lambda>x. em_id x = em_id m))))))"

definition editor_media_gc :: "url_env \<Rightarrow> s3_config \<Rightarrow> s3_client \<Rightarrow> int \<Rightarrow> unit handler" where
  "editor_media_gc env cfg c now =
     bnd (gets (referenced_keys env cfg)) (\<lambda>referenced.
     bnd (upd (editor_media_update (set_rows (\<lambda>m. em_key m \<in> set referenced) (em_referenced_update (\<lambda>_. True))))) (\<lambda>_.
     bnd (gets (\<lambda>w. take 1000 (filter (\<lambda>m. \<not> em_referenced m \<and> em_createdAt m < now - 7 * DAY_MS) (editor_media w)))) (\<lambda>orphans.
     each (gc_one cfg c referenced) orphans)))"

subsection \<open>The download rollup\<close>

fun download_source_name :: "download_source \<Rightarrow> string" where
  "download_source_name WEB = ''WEB''"
| "download_source_name UNITY_PLUGIN = ''UNITY_PLUGIN''"
| "download_source_name UNREAL_PLUGIN = ''UNREAL_PLUGIN''"

definition count_by :: "('r \<Rightarrow> 'k) \<Rightarrow> 'r list \<Rightarrow> ('k \<times> nat) list" where
  "count_by f rows = map (\<lambda>k. (k, count_rows (\<lambda>r. f r = k) rows)) (remdups (map f rows))"

definition day_start :: "int \<Rightarrow> int" where
  "day_start now = now div DAY_MS * DAY_MS"

definition daily_row_of :: "int \<Rightarrow> string \<Rightarrow> download_row list \<Rightarrow> daily_row" where
  "daily_row_of date assetId ds =
     \<lparr>dd_assetId = assetId, dd_date = date, dd_count = length ds, dd_uniqueUsers = length (remdups (map d_userId ds)),
      dd_byCountry = count_by (\<lambda>d. or_else (d_country d) []) (filter (\<lambda>d. d_country d \<noteq> None) ds),
      dd_bySource = count_by (\<lambda>d. download_source_name (d_source d)) ds\<rparr>"

definition daily_rows :: "int \<Rightarrow> int \<Rightarrow> world \<Rightarrow> daily_row list" where
  "daily_rows from_ms to_ms w =
     (let ds = filter (\<lambda>d. from_ms \<le> d_createdAt d \<and> d_createdAt d < to_ms) (downloads w)
      in map (\<lambda>i. daily_row_of from_ms i (filter (\<lambda>d. d_assetId d = i) ds)) (remdups (map d_assetId ds)))"

definition upsert_row :: "('r \<Rightarrow> 'k) \<Rightarrow> 'r \<Rightarrow> 'r list \<Rightarrow> 'r list" where
  "upsert_row key r rows =
     (if some_row (\<lambda>x. key x = key r) rows then set_rows (\<lambda>x. key x = key r) (\<lambda>_. r) rows else rows @ [r])"

definition asset_totals :: "int \<Rightarrow> world \<Rightarrow> stats_row list" where
  "asset_totals now w =
     map (\<lambda>a. \<lparr>ast_assetId = a_id a,
                ast_totalDownloads = count_rows (\<lambda>d. d_assetId d = a_id a) (downloads w),
                ast_totalSaves = count_rows (\<lambda>l. li_assetId l = a_id a) (library w),
                ast_last7d = count_rows (\<lambda>d. d_assetId d = a_id a \<and> now - 7 * DAY_MS \<le> d_createdAt d) (downloads w),
                ast_last30d = count_rows (\<lambda>d. d_assetId d = a_id a \<and> now - 30 * DAY_MS \<le> d_createdAt d) (downloads w)\<rparr>)
         (assets w)"

definition analytics_rollup :: "int \<Rightarrow> int \<Rightarrow> unit handler" where
  "analytics_rollup retentionDays now =
     bnd (gets (daily_rows (day_start now - DAY_MS) (day_start now))) (\<lambda>rows.
     bnd (each (\<lambda>r. upd (download_daily_update (upsert_row (\<lambda>d. (dd_assetId d, dd_date d)) r))) rows) (\<lambda>_.
     bnd (gets (asset_totals now)) (\<lambda>totals.
     bnd (each (\<lambda>t. upd (asset_stats_update (upsert_row ast_assetId t))) totals) (\<lambda>_.
     upd (downloads_update (drop_rows (\<lambda>d. d_createdAt d < now - retentionDays * DAY_MS)))))))"

subsection \<open>The storage rollup\<close>

definition normalize_prefix :: "bucket_role \<Rightarrow> string \<Rightarrow> string" where
  "normalize_prefix role key =
     (case role of
        AssetsBucket \<Rightarrow> if contains ''/__derived__/'' key then ''derived'' else ''source''
      | ThumbsBucket \<Rightarrow> if starts_with ''featured-banners/'' key then ''featured'' else ''thumbs''
      | EditorBucket \<Rightarrow> ''editor'')"

definition asset_id_from_key :: "string \<Rightarrow> string option" where
  "asset_id_from_key key =
     (if starts_with ''assets/'' key
      then (let rest = drop 7 key; i = takeWhile (\<lambda>c. c \<noteq> CHR ''/'') rest
            in if i \<noteq> [] \<and> length i < length rest then Some i else None)
      else None)"

text \<open>One page of an inventory: keys with sizes.\<close>

record inventory_page =
  ip_objects :: "(string \<times> int) list"
  ip_truncated :: bool
  ip_next :: "string option"

type_synonym inventory = "bucket_role \<Rightarrow> string option \<Rightarrow> app_error + inventory_page"

partial_function (option) walk_bucket ::
  "(string option \<Rightarrow> app_error + inventory_page) \<Rightarrow> string option \<Rightarrow> (string \<times> int) list \<Rightarrow> (app_error + (string \<times> int) list) option" where
  "walk_bucket list token out =
     (case list token of
        Inl e \<Rightarrow> Some (Inl e)
      | Inr page \<Rightarrow>
          (case (if ip_truncated page then truthy_opt (ip_next page) else None) of
             None \<Rightarrow> Some (Inr (out @ ip_objects page))
           | Some t \<Rightarrow> walk_bucket list (Some t) (out @ ip_objects page)))"

text \<open>The counters of a bucket, by prefix: bytes and objects.\<close>

definition add_count :: "'k \<Rightarrow> int \<Rightarrow> ('k \<times> int \<times> nat) list \<Rightarrow> ('k \<times> int \<times> nat) list" where
  "add_count k n cs =
     (case map_of cs k of
        None \<Rightarrow> cs @ [(k, n, 1)]
      | Some (b, m) \<Rightarrow> AList.update k (b + n, Suc m) cs)"

definition prefix_counts :: "bucket_role \<Rightarrow> (string \<times> int) list \<Rightarrow> (string \<times> int \<times> nat) list" where
  "prefix_counts role objs = foldl (\<lambda>cs (key, n). add_count (normalize_prefix role key) n cs) [] objs"

definition asset_bytes :: "(string \<times> int) list \<Rightarrow> (string \<times> int \<times> nat) list" where
  "asset_bytes objs =
     foldl (\<lambda>cs (key, n). case asset_id_from_key key of None \<Rightarrow> cs | Some i \<Rightarrow> add_count i n cs) [] objs"

definition owner_bytes :: "(string \<rightharpoonup> string) \<Rightarrow> (string \<times> int) list \<Rightarrow> (string \<times> int \<times> string list) list" where
  "owner_bytes owners objs =
     foldl (\<lambda>cs (key, n).
       case asset_id_from_key key of
         None \<Rightarrow> cs
       | Some i \<Rightarrow>
           (case owners i of
              None \<Rightarrow> cs
            | Some u \<Rightarrow>
                (case map_of cs u of
                   None \<Rightarrow> cs @ [(u, n, [i])]
                 | Some (b, is) \<Rightarrow> AList.update u (b + n, List.insert i is) cs))) [] objs"

definition store_bucket :: "s3_config \<Rightarrow> int \<Rightarrow> bucket_role \<Rightarrow> (string \<times> int) list \<Rightarrow> unit handler" where
  "store_bucket cfg date role objs =
     each (\<lambda>(prefix, bytes, n). upd (storage_daily_update (upsert_row (\<lambda>s. (sg_date s, sg_bucket s, sg_prefix s))
       \<lparr>sg_date = date, sg_bucket = bucket_for cfg role, sg_prefix = prefix, sg_bytes = bytes, sg_objectCount = n\<rparr>)))
       (prefix_counts role objs)"

definition bucket_rollup :: "s3_config \<Rightarrow> inventory \<Rightarrow> int \<Rightarrow> bucket_role \<Rightarrow> (string \<times> int) list looping" where
  "bucket_rollup cfg lister date role w =
     (case walk_bucket (lister role) None [] of
        None \<Rightarrow> None
      | Some (Inl e) \<Rightarrow> Some (Inl e, w)
      | Some (Inr objs) \<Rightarrow> Some (bnd (store_bucket cfg date role objs) (\<lambda>_. ret objs) w))"

definition asset_owners :: "world \<Rightarrow> string \<rightharpoonup> string" where
  "asset_owners w = map_of (map (\<lambda>a. (a_id a, a_ownerId a)) (assets w))"

definition store_usage :: "int \<Rightarrow> (string \<rightharpoonup> string) \<Rightarrow> (string \<times> int) list \<Rightarrow> unit handler" where
  "store_usage date owners objs =
     bnd (each (\<lambda>(u, bytes, is). upd (storage_user_daily_update (upsert_row (\<lambda>s. (su_date s, su_userId s))
            \<lparr>su_date = date, su_userId = u, su_bytes = bytes, su_assetCount = length is\<rparr>))) (owner_bytes owners objs)) (\<lambda>_.
     each (\<lambda>(i, bytes, _). upd (storage_asset_daily_update (upsert_row (\<lambda>s. (sa_date s, sa_assetId s))
            \<lparr>sa_date = date, sa_assetId = i, sa_bytes = bytes\<rparr>))) (asset_bytes objs))"

definition storage_rollup :: "s3_config \<Rightarrow> inventory \<Rightarrow> int \<Rightarrow> unit looping" where
  "storage_rollup cfg lister now =
     lbnd (always (gets asset_owners)) (\<lambda>owners.
     lbnd (bucket_rollup cfg lister (day_start now) AssetsBucket) (\<lambda>objs.
     lbnd (bucket_rollup cfg lister (day_start now) ThumbsBucket) (\<lambda>_.
     lbnd (bucket_rollup cfg lister (day_start now) EditorBucket) (\<lambda>_.
     always (store_usage (day_start now) owners objs)))))"

subsection \<open>What a purge spares\<close>

lemma purge_one_result:
  assumes law: "lists_prefixes cfg st rest" and ok: "distinct (map a_id (assets w))" and a: "a \<in> set (assets w)"
  shows "\<exists>r w'. purge_one cfg st c meili now a w = Some (r, w') \<and>
     (if asset_referenced (a_id a) w then assets w' = assets w
      else assets w' = assets w \<or> assets w' = drop_rows (\<lambda>x. a_id x = a_id a) (assets w)) \<and>
     reports w' = reports w \<and> downloads w' = downloads w \<and>
     (\<forall>j. j \<noteq> a_id a \<longrightarrow> asset_version_ids j w' = asset_version_ids j w)"
proof -
  obtain r objs where run: "delete_asset_objects cfg st c a w = Some (r, s3_objects_update (\<lambda>_. objs) w)"
    using objects_deleted [OF law] by blast
  let ?w = "s3_objects_update (\<lambda>_. objs) w"
  have frame: "asset_version_ids j ?w = asset_version_ids j w" for j by (simp add: asset_version_ids_def)
  show ?thesis
  proof (cases r)
    case (Inl e)
    then show ?thesis using run frame by (simp add: purge_one_def lbnd_def)
  next
    case (Inr x)
    have "asset_by (a_id a) w = Some a" using ok a by (simp add: asset_by_def find_row_eq_Some_iff)
    then have by_id: "asset_by (a_id a) (audit_logs_update f ?w) = Some a" for f by (simp add: asset_by_def)
    have ref: "asset_referenced (a_id a) (audit_logs_update f ?w) = asset_referenced (a_id a) w" for f
      by (simp add: asset_referenced_def asset_version_ids_def)
    show ?thesis
    proof (cases "asset_referenced (a_id a) w")
      case True
      then show ?thesis using run Inr frame
        by (simp add: purge_one_def lbnd_def act_simps audit_record_def delete_asset_row_cases [OF by_id] ref)
    next
      case False
      then show ?thesis using run Inr frame
        by (cases "meili (asset_doc_ids (a_id a))")
          (simp_all add: purge_one_def lbnd_def act_simps audit_record_def delete_asset_row_cases [OF by_id] ref
            swallow_def delete_documents_def asset_version_ids_cascade)
    qed
  qed
qed

definition purge_spares :: "asset_row list \<Rightarrow> world \<Rightarrow> world \<Rightarrow> bool" where
  "purge_spares as w w' \<longleftrightarrow>
     list_all (\<lambda>x. x \<in> set (assets w') \<or> (x \<in> set as \<and> \<not> asset_referenced (a_id x) w)) (assets w)"

lemma purge_all_result:
  assumes law: "lists_prefixes cfg st rest"
  shows "distinct (map a_id (assets w)) \<Longrightarrow> set as \<subseteq> set (assets w) \<Longrightarrow> distinct (map a_id as) \<Longrightarrow>
     \<exists>w'. purge_all cfg st c meili now as w = Some (Inr (), w') \<and> purge_spares as w w'"
proof (induction as arbitrary: w)
  case Nil
  then show ?case by (simp add: purge_spares_def list_all_iff)
next
  case (Cons a as)
  have a: "a \<in> set (assets w)" using Cons.prems(2) by simp
  obtain r v where run: "purge_one cfg st c meili now a w = Some (r, v)"
    and cases: "if asset_referenced (a_id a) w then assets v = assets w
      else assets v = assets w \<or> assets v = drop_rows (\<lambda>x. a_id x = a_id a) (assets w)"
    and fr: "reports v = reports w" "downloads v = downloads w"
    and ids: "\<forall>j. j \<noteq> a_id a \<longrightarrow> asset_version_ids j v = asset_version_ids j w"
    using purge_one_result [OF law Cons.prems(1) a] by blast
  have dist: "distinct (map a_id (assets v))" using cases Cons.prems(1)
    by (auto split: if_splits intro: distinct_map_drop_rows)
  have kept: "x \<in> set (assets v) \<or> (x = a \<and> \<not> asset_referenced (a_id a) w)" if x: "x \<in> set (assets w)" for x
  proof (cases "a_id x = a_id a")
    case True
    with Cons.prems(1) x a have "x = a" by (blast intro: same_key)
    with x cases show ?thesis by (auto split: if_splits)
  next
    case False
    with x cases show ?thesis by (auto split: if_splits simp: row_simps)
  qed
  have sub: "set as \<subseteq> set (assets v)" using Cons.prems(2,3) kept by fastforce
  have ref: "asset_referenced (a_id x) v = asset_referenced (a_id x) w" if "x \<in> set as" for x
  proof -
    have "a_id x \<noteq> a_id a"
    proof
      assume "a_id x = a_id a"
      with that have "a_id a \<in> a_id ` set as" by (metis imageI)
      with Cons.prems(3) show False by simp
    qed
    with ids fr show ?thesis by (simp add: asset_referenced_def)
  qed
  obtain w' where rec: "purge_all cfg st c meili now as v = Some (Inr (), w')" and sp: "purge_spares as v w'"
    using Cons.IH [OF dist sub] Cons.prems(3) by auto
  have "x \<in> set (assets w') \<or> x \<in> set (a # as) \<and> \<not> asset_referenced (a_id x) w" if x: "x \<in> set (assets w)" for x
    using kept [OF x] sp ref by (auto simp: purge_spares_def list_all_iff)
  with run rec show ?case by (simp add: purge_spares_def list_all_iff)
qed

text \<open>
  A purge run always ends and reports success, whatever fails on the way, and the only assets it may remove
  are those archived or deleted for the whole retention time that no download or report refers to.
\<close>

theorem archive_purge_spares:
  assumes "lists_prefixes cfg st rest" and "distinct (map a_id (assets w))"
  shows "\<exists>w'. archive_purge cfg st c meili days now w = Some (Inr (), w') \<and>
     list_all (\<lambda>a. a \<in> set (assets w') \<or> (purgeable (now - days * DAY_MS) a \<and> \<not> asset_referenced (a_id a) w)) (assets w)"
proof -
  let ?as = "filter (purgeable (now - days * DAY_MS)) (assets w)"
  have "\<exists>w'. purge_all cfg st c meili now ?as w = Some (Inr (), w') \<and> purge_spares ?as w w'"
    using assms by (intro purge_all_result) auto
  then show ?thesis by (auto simp: archive_purge_def purge_spares_def list_all_iff)
qed

theorem archive_purge_spares_witness:
  "\<exists>w'. archive_purge cfg0 one_by_one client0 (\<lambda>_. Inr ()) 30 5 draft_world = Some (Inr (), w') \<and> asset0 \<in> set (assets w')"
proof -
  have "\<not> purgeable (5 - 30 * DAY_MS) asset0" by (simp add: purgeable_def)
  with archive_purge_spares [OF one_by_one_lists, of draft_world cfg0 client0 "\<lambda>_. Inr ()" 30 5] show ?thesis by auto
qed

subsection \<open>What the media collection spares\<close>

definition gc_doomed :: "string list \<Rightarrow> media_row list \<Rightarrow> media_row \<Rightarrow> bool" where
  "gc_doomed referenced ms m \<longleftrightarrow> m \<in> set ms \<and> em_key m \<notin> set referenced"

lemma gc_each:
  "\<exists>w'. each (gc_one cfg c referenced) ms w = (Inr (), w') \<and>
     (\<forall>x \<in> set (editor_media w). x \<in> set (editor_media w') \<or> (\<exists>m. gc_doomed referenced ms m \<and> em_id m = em_id x)) \<and>
     (\<forall>o' \<in> set (s3_objects w). o' \<in> set (s3_objects w') \<or>
        (\<exists>m. gc_doomed referenced ms m \<and> o' = object_id cfg EditorBucket (em_key m)))"
proof (induction ms arbitrary: w)
  case Nil
  then show ?case by simp
next
  case (Cons m ms)
  obtain v where v: "gc_one cfg c referenced m w = (Inr (), v)"
    and media: "\<forall>x \<in> set (editor_media w). x \<in> set (editor_media v) \<or> (em_key m \<notin> set referenced \<and> em_id m = em_id x)"
    and objs: "\<forall>o' \<in> set (s3_objects w). o' \<in> set (s3_objects v) \<or>
        (em_key m \<notin> set referenced \<and> o' = object_id cfg EditorBucket (em_key m))"
  proof (cases "em_key m \<in> set referenced")
    case True
    then show ?thesis by (intro that [of w]) (simp_all add: gc_one_def)
  next
    case False
    show ?thesis
    proof (cases "sc_delete c (bucket_for cfg EditorBucket) (em_key m)")
      case (Inl e)
      with False show ?thesis by (intro that [of w]) (simp_all add: gc_one_def swallow_def delete_object_def act_simps)
    next
      case (Inr x)
      with False show ?thesis
        by (intro that [of "snd (gc_one cfg c referenced m w)"])
          (auto simp: gc_one_def swallow_def delete_object_def act_simps row_simps)
    qed
  qed
  obtain w' where w': "each (gc_one cfg c referenced) ms v = (Inr (), w')"
    and IH: "\<forall>x \<in> set (editor_media v). x \<in> set (editor_media w') \<or> (\<exists>m. gc_doomed referenced ms m \<and> em_id m = em_id x)"
      "\<forall>o' \<in> set (s3_objects v). o' \<in> set (s3_objects w') \<or>
        (\<exists>m. gc_doomed referenced ms m \<and> o' = object_id cfg EditorBucket (em_key m))"
    using Cons.IH [of v] by blast
  have "each (gc_one cfg c referenced) (m # ms) w = (Inr (), w')" using v w' by simp
  moreover have d: "gc_doomed referenced ms x \<Longrightarrow> gc_doomed referenced (m # ms) x" for x by (simp add: gc_doomed_def)
  moreover have "em_key m \<notin> set referenced \<Longrightarrow> gc_doomed referenced (m # ms) m" by (simp add: gc_doomed_def)
  ultimately show ?case using media objs IH by blast
qed

text \<open>
  A run of the media collection succeeds whatever S3 answers, and it removes an upload only when no long
  description refers to its key, it was not marked as referenced, and it is older than seven days.
\<close>

theorem editor_gc_spares:
  assumes "distinct (map em_id (editor_media w))"
  shows "\<exists>w'. editor_media_gc env cfg c now w = (Inr (), w') \<and>
     list_all (\<lambda>m. em_id m \<in> em_id ` set (editor_media w') \<or>
       (em_key m \<notin> set (referenced_keys env cfg w) \<and> \<not> em_referenced m \<and> em_createdAt m < now - 7 * DAY_MS))
       (editor_media w)"
proof -
  let ?ref = "referenced_keys env cfg w"
  obtain mark :: "media_row \<Rightarrow> media_row" where mark: "mark = (\<lambda>m. if em_key m \<in> set ?ref then em_referenced_update (\<lambda>_. True) m else m)" by blast
  obtain v where v: "v = editor_media_update (set_rows (\<lambda>m. em_key m \<in> set ?ref) (em_referenced_update (\<lambda>_. True))) w" by blast
  obtain os where os: "os = take 1000 (filter (\<lambda>m. \<not> em_referenced m \<and> em_createdAt m < now - 7 * DAY_MS) (editor_media v))" by blast
  have media: "editor_media v = map mark (editor_media w)" by (simp add: v set_rows_def mark)
  have id: "em_id (mark m) = em_id m" and key: "em_key (mark m) = em_key m" for m by (simp_all add: mark)
  obtain w' where w': "each (gc_one cfg c ?ref) os v = (Inr (), w')"
    and sp: "\<forall>x \<in> set (editor_media v). x \<in> set (editor_media w') \<or> (\<exists>m. gc_doomed ?ref os m \<and> em_id m = em_id x)"
    using gc_each [of cfg c ?ref os v] by blast
  have run: "editor_media_gc env cfg c now w = (Inr (), w')"
    using w' unfolding os v by (simp add: editor_media_gc_def act_simps)
  have "em_id m \<in> em_id ` set (editor_media w') \<or>
       (em_key m \<notin> set ?ref \<and> \<not> em_referenced m \<and> em_createdAt m < now - 7 * DAY_MS)"
    if m: "m \<in> set (editor_media w)" for m
  proof -
    have "mark m \<in> set (editor_media v)" using m by (simp add: media)
    with sp consider "mark m \<in> set (editor_media w')" | d where "gc_doomed ?ref os d" "em_id d = em_id (mark m)" by blast
    then show ?thesis
    proof cases
      case 1
      from imageI [OF this, of em_id] show ?thesis unfolding id by (rule disjI1)
    next
      case 2
      then have d: "d \<in> set (editor_media v)" "em_key d \<notin> set ?ref" "\<not> em_referenced d" "em_createdAt d < now - 7 * DAY_MS"
        unfolding gc_doomed_def os by (auto dest!: in_set_takeD)
      from d(1) obtain n where n: "n \<in> set (editor_media w)" "d = mark n" unfolding media set_map by (elim imageE) (rule that)
      then have "n = m" using same_key [OF assms n(1) m] 2(2) by (simp add: id)
      with n d have "em_key m \<notin> set ?ref" "d = mark m" by (simp_all add: key)
      then have "d = m" by (simp add: mark)
      with \<open>em_key m \<notin> set ?ref\<close> d(3,4) show ?thesis by simp
    qed
  qed
  with run show ?thesis by (simp add: list_all_iff)
qed

theorem editor_gc_spares_witness:
  "\<exists>w'. editor_media_gc \<lparr>ue_parse = (\<lambda>_. None), ue_decode = Some\<rparr> cfg0 client0 0
      (empty_world\<lparr>editor_media := [\<lparr>em_id = ''m'', em_key = ''k'', em_uploaderId = ''u'', em_referenced = False, em_createdAt = 0\<rparr>]\<rparr>) =
      (Inr (), w') \<and> ''m'' \<in> em_id ` set (editor_media w')"
  using editor_gc_spares [of "empty_world\<lparr>editor_media := [\<lparr>em_id = ''m'', em_key = ''k'', em_uploaderId = ''u'', em_referenced = False, em_createdAt = 0\<rparr>]\<rparr>"
      "\<lparr>ue_parse = (\<lambda>_. None), ue_decode = Some\<rparr>" cfg0 client0 0]
  by (auto simp: DAY_MS_def)

subsection \<open>The counters add up\<close>

lemma add_count_sum:
  assumes "distinct (map fst cs)"
  shows "sum_list (map (\<lambda>(k, b, m). b) (add_count k n cs)) = sum_list (map (\<lambda>(k, b, m). b) cs) + n \<and>
     sum_list (map (\<lambda>(k, b, m). m) (add_count k n cs)) = Suc (sum_list (map (\<lambda>(k, b, m). m) cs)) \<and>
     distinct (map fst (add_count k n cs))"
proof (cases "map_of cs k")
  case None
  then show ?thesis using assms by (auto simp: add_count_def map_of_eq_None_iff [THEN iffD1])
next
  case (Some p)
  obtain b m where p: "p = (b, m)" by (cases p)
  have "map_of cs k = Some (b, m) \<Longrightarrow> distinct (map fst cs) \<Longrightarrow>
      sum_list (map (\<lambda>(k, b, m). b) (AList.update k (b + n, Suc m) cs)) = sum_list (map (\<lambda>(k, b, m). b) cs) + n \<and>
      sum_list (map (\<lambda>(k, b, m). m) (AList.update k (b + n, Suc m) cs)) = Suc (sum_list (map (\<lambda>(k, b, m). m) cs))"
    by (induction cs) auto
  with Some p assms show ?thesis by (simp add: add_count_def distinct_update)
qed

text \<open>
  The storage rollup of a bucket loses nothing and counts nothing twice: over the prefixes of a bucket the
  bytes add up to the sizes of its objects, and the object counts to their number.
\<close>

theorem prefix_counts_exact:
  "sum_list (map (\<lambda>(k, b, m). b) (prefix_counts role objs)) = sum_list (map snd objs) \<and>
   sum_list (map (\<lambda>(k, b, m). m) (prefix_counts role objs)) = length objs \<and>
   distinct (map fst (prefix_counts role objs))"
proof -
  have "distinct (map fst cs) \<Longrightarrow>
      (let r = foldl (\<lambda>cs (key, n). add_count (normalize_prefix role key) n cs) cs objs
       in sum_list (map (\<lambda>(k, b, m). b) r) = sum_list (map (\<lambda>(k, b, m). b) cs) + sum_list (map snd objs) \<and>
          sum_list (map (\<lambda>(k, b, m). m) r) = sum_list (map (\<lambda>(k, b, m). m) cs) + length objs \<and> distinct (map fst r))"
    for cs :: "(string \<times> int \<times> nat) list"
  proof (induction objs arbitrary: cs)
    case (Cons p objs)
    obtain key n where p: "p = (key, n)" by (cases p)
    note step = add_count_sum [OF Cons.prems, of "normalize_prefix role key" n]
    from Cons.IH [OF conjunct2 [OF conjunct2 [OF step]]] step show ?case by (simp add: p Let_def)
  qed simp
  from this [of "[]"] show ?thesis by (simp add: prefix_counts_def Let_def)
qed

subsection \<open>The rollup forgets what it trims\<close>

lemma each_upd: "each (\<lambda>t. upd (over (g t))) ts w = (Inr (), foldl (\<lambda>v t. over (g t) v) w ts)"
  by (induction ts arbitrary: w) (simp_all add: act_simps)

lemma upsert_row_mem: "r \<in> set (upsert_row key r rows)"
  by (auto simp: upsert_row_def row_simps set_set_rows)

lemma upsert_row_other: "t \<in> set rows \<Longrightarrow> key t \<noteq> key r \<Longrightarrow> t \<in> set (upsert_row key r rows)"
  by (auto simp: upsert_row_def set_set_rows image_iff)

lemma fold_upsert_keeps: "t \<in> set rows \<Longrightarrow> key t \<notin> key ` set ts \<Longrightarrow> t \<in> set (foldl (\<lambda>s t. upsert_row key t s) rows ts)"
  by (induction ts arbitrary: rows) (auto intro: upsert_row_other)

lemma fold_upsert_mem: "distinct (map key ts) \<Longrightarrow> t \<in> set ts \<Longrightarrow> t \<in> set (foldl (\<lambda>s t. upsert_row key t s) rows ts)"
proof (induction ts arbitrary: rows)
  case (Cons u ts)
  show ?case
  proof (cases "t = u")
    case True
    have "u \<in> set (upsert_row key u rows)" by (rule upsert_row_mem)
    from fold_upsert_keeps [OF this, of key ts] True Cons.prems(1) show ?thesis by simp
  next
    case False
    with Cons show ?thesis by simp
  qed
qed simp

lemma fold_stats:
  "asset_stats (foldl (\<lambda>v t. asset_stats_update (upsert_row ast_assetId t) v) w ts) =
     foldl (\<lambda>s t. upsert_row ast_assetId t s) (asset_stats w) ts"
  "downloads (foldl (\<lambda>v t. asset_stats_update (upsert_row ast_assetId t) v) w ts) = downloads w"
  "assets (foldl (\<lambda>v t. asset_stats_update (upsert_row ast_assetId t) v) w ts) = assets w"
  by (induction ts arbitrary: w) simp_all

lemma fold_daily:
  "downloads (foldl (\<lambda>v t. download_daily_update (g t) v) w ts) = downloads w"
  "assets (foldl (\<lambda>v t. download_daily_update (g t) v) w ts) = assets w"
  by (induction ts arbitrary: w) simp_all

lemma rollup_result:
  assumes "analytics_rollup days now w = (r, w')" and "distinct (map a_id (assets w))"
  shows "assets w' = assets w \<and> downloads w' = drop_rows (\<lambda>d. d_createdAt d < now - days * DAY_MS) (downloads w) \<and>
     (\<forall>a \<in> set (assets w). \<exists>s \<in> set (asset_stats w'). ast_assetId s = a_id a \<and>
        ast_totalDownloads s = count_rows (\<lambda>d. d_assetId d = a_id a) (downloads w))"
proof -
  obtain v where v: "v = foldl (\<lambda>v t. download_daily_update (upsert_row (\<lambda>d. (dd_assetId d, dd_date d)) t) v) w
      (daily_rows (day_start now - DAY_MS) (day_start now) w)" by blast
  have fr: "downloads v = downloads w" "assets v = assets w" by (simp_all add: v fold_daily)
  have w': "w' = downloads_update (drop_rows (\<lambda>d. d_createdAt d < now - days * DAY_MS))
      (foldl (\<lambda>v t. asset_stats_update (upsert_row ast_assetId t) v) v (asset_totals now v))"
    using assms(1) by (simp add: analytics_rollup_def act_simps each_upd v)
  have ids: "map ast_assetId (asset_totals now v) = map a_id (assets w)" by (simp add: asset_totals_def fr comp_def)
  have "\<exists>s \<in> set (asset_stats w'). ast_assetId s = a_id a \<and>
        ast_totalDownloads s = count_rows (\<lambda>d. d_assetId d = a_id a) (downloads w)" if a: "a \<in> set (assets w)" for a
  proof -
    have "\<exists>s \<in> set (asset_totals now v). ast_assetId s = a_id a \<and>
      ast_totalDownloads s = count_rows (\<lambda>d. d_assetId d = a_id a) (downloads w)"
      unfolding asset_totals_def set_map fr by (rule bexI [OF _ imageI [OF a]]) simp
    then obtain s where s: "s \<in> set (asset_totals now v)" "ast_assetId s = a_id a"
      "ast_totalDownloads s = count_rows (\<lambda>d. d_assetId d = a_id a) (downloads w)" by blast
    have "s \<in> set (asset_stats w')"
      using s(1) fold_upsert_mem [of ast_assetId "asset_totals now v" s] ids assms(2) by (simp add: w' fold_stats)
    with s(2,3) show ?thesis by blast
  qed
  then show ?thesis by (simp add: w' fold_stats fr)
qed

text \<open>
  The total of an asset's downloads is not a total: after two runs it counts only the downloads that the first
  run did not trim, so it falls as the raw rows age.
\<close>

theorem rollup_forgets_downloads:
  assumes "analytics_rollup days now w = (r1, w1)" and "analytics_rollup days now' w1 = (r2, w2)"
    and "distinct (map a_id (assets w))" and "a \<in> set (assets w)"
  shows "\<exists>s \<in> set (asset_stats w2). ast_assetId s = a_id a \<and>
     ast_totalDownloads s = count_rows (\<lambda>d. d_assetId d = a_id a \<and> now - days * DAY_MS \<le> d_createdAt d) (downloads w)"
proof -
  have one: "assets w1 = assets w" "downloads w1 = drop_rows (\<lambda>d. d_createdAt d < now - days * DAY_MS) (downloads w)"
    using rollup_result [OF assms(1,3)] by simp_all
  have "count_rows (\<lambda>d. d_assetId d = a_id a) (drop_rows (\<lambda>d. d_createdAt d < now - days * DAY_MS) ds) =
      count_rows (\<lambda>d. d_assetId d = a_id a \<and> now - days * DAY_MS \<le> d_createdAt d) ds" for ds :: "download_row list"
    by (induction ds) auto
  note drop = this
  have "\<exists>s \<in> set (asset_stats w2). ast_assetId s = a_id a \<and>
     ast_totalDownloads s = count_rows (\<lambda>d. d_assetId d = a_id a) (downloads w1)"
    using rollup_result [OF assms(2)] one(1) assms(3,4) by simp
  then show ?thesis unfolding one(2) drop .
qed

definition old_download :: download_row where
  "old_download = \<lparr>d_id = ''d'', d_userId = ''b'', d_assetId = ''a'', d_versionId = ''v'', d_fileId = None, d_ipHash = [],
     d_country = None, d_userAgent = [], d_source = WEB, d_createdAt = 0\<rparr>"

theorem rollup_forgets_downloads_witness:
  "\<exists>s. s \<in> set (asset_stats (snd (analytics_rollup 90 0 (snd (analytics_rollup 90 (91 * DAY_MS)
      (draft_world\<lparr>downloads := [old_download]\<rparr>)))))) \<and> ast_totalDownloads s = 0"
proof -
  let ?w = "draft_world\<lparr>downloads := [old_download]\<rparr>"
  obtain r1 w1 where 1: "analytics_rollup 90 (91 * DAY_MS) ?w = (r1, w1)" by fastforce
  obtain r2 w2 where 2: "analytics_rollup 90 0 w1 = (r2, w2)" by fastforce
  from rollup_forgets_downloads [OF 1 2, of asset0] obtain s where "s \<in> set (asset_stats w2)" "ast_totalDownloads s = 0"
    by (auto simp: old_download_def DAY_MS_def)
  then show ?thesis unfolding 1 2 snd_conv by blast
qed

end
