(* ===== verification/Notify.thy ===== *)
theory Notify
  imports Users Files
begin

section \<open>Notifications\<close>

text \<open>
  \<open>src/modules/notifications/\<close>, \<open>src/modules/jobs/processors/notify.worker.ts\<close> and
  \<open>src/modules/jobs/processors/webhook/webhook.worker.ts\<close>: the inbox of a user, the worker that fans one event out to
  four channels, and the signed webhook.  The transport of mails, the publication on Redis, \<open>fetch\<close> and the HMAC are
  parameters; so is the text of a mail template, which \<open>Mailer\<close> fills in, but not the substitution of its variables.
\<close>

subsection \<open>The inbox\<close>

definition notification_by :: "string \<Rightarrow> world \<Rightarrow> notification_row option" where
  "notification_by i w = find_row n_id i (notifications w)"

definition insert_in_app :: "int \<Rightarrow> string \<Rightarrow> string \<Rightarrow> notification_type \<Rightarrow> json \<Rightarrow> unit handler" where
  "insert_in_app now i userId ty payload =
     upd (notifications_update (\<lambda>ns. ns @
       [\<lparr>n_id = i, n_userId = userId, n_type = ty, n_payload = payload, n_readAt = None, n_createdAt = now\<rparr>]))"

record notification_dto =
  nd_id :: string
  nd_type :: notification_type
  nd_payload :: json
  nd_readAt :: "string option"
  nd_createdAt :: string

definition notification_dto_of :: "notification_row \<Rightarrow> notification_dto" where
  "notification_dto_of n =
     \<lparr>nd_id = n_id n, nd_type = n_type n, nd_payload = n_payload n, nd_readAt = map_option iso_string (n_readAt n),
      nd_createdAt = iso_string (n_createdAt n)\<rparr>"

definition inbox :: "(user_row \<times> bool) \<times> world \<Rightarrow> notification_row list" where
  "inbox =
     (\<lambda>((user, unreadOnly), w). order_desc (\<lambda>n. (n_createdAt n, n_id n))
        (filter (\<lambda>n. n_userId n = u_id user \<and> (unreadOnly \<longrightarrow> n_readAt n = None)) (notifications w)))"

definition notification_cursor :: "notification_row \<Rightarrow> cursor" where
  "notification_cursor n = \<lparr>cur_createdAt = iso_string (n_createdAt n), cur_id = n_id n\<rparr>"

definition inbox_limit :: "int option \<Rightarrow> nat" where
  "inbox_limit limit = nat (min (max (or_else limit 24) 1) 100)"

definition list_notifications ::
  "user_row \<Rightarrow> string option \<Rightarrow> int option \<Rightarrow> bool \<Rightarrow> world \<Rightarrow> app_error + notification_dto page" where
  "list_notifications user raw limit unreadOnly w =
     sum_bind (list_page n_id notification_cursor (inbox_limit limit) raw (inbox ((user, unreadOnly), w))) (\<lambda>p.
     Inr \<lparr>pg_items = map notification_dto_of (pg_items p), pg_nextCursor = pg_nextCursor p, pg_hasMore = pg_hasMore p\<rparr>)"

interpretation inbox_pages: paged_listing n_id notification_cursor inbox "\<lambda>(_, w). distinct (map n_id (notifications w))"
  by unfold_locales (auto simp: inbox_def notification_cursor_def)

definition unread_of :: "user_row \<Rightarrow> notification_row \<Rightarrow> bool" where
  "unread_of user n \<longleftrightarrow> n_userId n = u_id user \<and> n_readAt n = None"

definition unread_count :: "user_row \<Rightarrow> world \<Rightarrow> nat" where
  "unread_count user w = count_rows (unread_of user) (notifications w)"

definition mark_read :: "int \<Rightarrow> user_row \<Rightarrow> string \<Rightarrow> notification_dto handler" where
  "mark_read now user i =
     bnd (fetch (notification_by i) (NotFoundDomain IDEMPOTENCY_KEY_REUSED)) (\<lambda>n.
     bnd (check (n_userId n = u_id user) (NotFoundDomain IDEMPOTENCY_KEY_REUSED)) (\<lambda>_.
     if n_readAt n \<noteq> None then ret (notification_dto_of n)
     else
       bnd (upd (notifications_update (set_rows (\<lambda>x. n_id x = i) (n_readAt_update (\<lambda>_. Some now))))) (\<lambda>_.
       ret (notification_dto_of (n\<lparr>n_readAt := Some now\<rparr>)))))"

definition mark_all_read :: "int \<Rightarrow> user_row \<Rightarrow> nat handler" where
  "mark_all_read now user =
     bnd (gets (unread_count user)) (\<lambda>n.
     bnd (upd (notifications_update (set_rows (unread_of user) (n_readAt_update (\<lambda>_. Some now))))) (\<lambda>_. ret n))"

definition new_ws_envelope :: "string \<Rightarrow> int \<Rightarrow> string \<Rightarrow> json \<Rightarrow> (string \<times> json) list" where
  "new_ws_envelope i now ty payload = [(''type'', JStr ty), (''id'', JStr i), (''ts'', JNum now), (''payload'', payload)]"

subsection \<open>Substituting the variables of a template\<close>

fun string_of :: "json \<Rightarrow> string" where
  "string_of JNull = ''null''"
| "string_of (JBool b) = (if b then ''true'' else ''false'')"
| "string_of (JNum n) = show_int n"
| "string_of (JStr s) = s"
| "string_of (JArr vs) = join_with '','' (map (\<lambda>v. if v = JNull then [] else string_of v) vs)"
| "string_of (JObj fs) = ''[object Object]''"

fun lookup_path :: "json option \<Rightarrow> string list \<Rightarrow> json option" where
  "lookup_path v [] = v"
| "lookup_path v (k # ks) = lookup_path (case v of None \<Rightarrow> None | Some x \<Rightarrow> get_prop x k) ks"

definition value_text :: "json option \<Rightarrow> string" where
  "value_text v = (case v of None \<Rightarrow> [] | Some JNull \<Rightarrow> [] | Some x \<Rightarrow> string_of x)"

definition is_path_char :: "char \<Rightarrow> bool" where
  "is_path_char c \<longleftrightarrow> is_word_code (of_char c) \<or> c = CHR ''.''"

text \<open>The variable at the start of a text, when there is one: its path and what follows the closing braces.\<close>

definition variable_at :: "string \<Rightarrow> (string \<times> string) option" where
  "variable_at s =
     (if starts_with ''{{'' s
      then (let t = dropWhile is_blank (drop 2 s);
                path = takeWhile is_path_char t;
                u = dropWhile is_blank (dropWhile is_path_char t)
            in if path \<noteq> [] \<and> starts_with ''}}'' u then Some (path, drop 2 u) else None)
      else None)"

lemma variable_at_shorter: "variable_at s = Some (p, rest) \<Longrightarrow> length rest < length s"
proof -
  assume v: "variable_at s = Some (p, rest)"
  let ?t = "dropWhile is_blank (drop 2 s)"
  let ?u = "dropWhile is_blank (dropWhile is_path_char ?t)"
  have "rest = drop 2 ?u" "starts_with ''{{'' s" using v by (auto simp: variable_at_def Let_def split: if_splits)
  moreover have "length ?u \<le> length (drop 2 s)" by (meson length_dropWhile_le order_trans)
  ultimately show ?thesis by (cases s) (auto simp: starts_with_def)
qed

function substitute :: "string \<Rightarrow> json \<Rightarrow> string" where
  "substitute s vars =
     (case variable_at s of
        Some (path, rest) \<Rightarrow> value_text (lookup_path (Some vars) (split_on CHR ''.'' path)) @ substitute rest vars
      | None \<Rightarrow> (case s of [] \<Rightarrow> [] | c # cs \<Rightarrow> c # substitute cs vars))"
  by pat_completeness auto
termination
  by (relation "measure (length \<circ> fst)") (auto dest: variable_at_shorter)

declare substitute.simps [simp del]


subsection \<open>The notify worker\<close>

record notify_env =
  ne_baseUrl :: string
  ne_template :: "notification_type \<Rightarrow> locale_code \<Rightarrow> app_error + string \<times> string"
  ne_htmlToText :: "string \<Rightarrow> string"
  ne_smtp :: "mail \<Rightarrow> app_error + unit"
  ne_publish :: "json \<Rightarrow> app_error + unit"

definition strip_api :: "string \<Rightarrow> string" where
  "strip_api base = (if drop (length base - 4) base = ''/api'' then take (length base - 4) base else base)"

definition str_or_empty :: "json \<Rightarrow> string \<Rightarrow> string" where
  "str_or_empty p k = or_else (str_prop p k) []"

definition build_links :: "notify_env \<Rightarrow> json \<Rightarrow> (string \<times> json) list" where
  "build_links env p =
     (let base = strip_api (ne_baseUrl env);
          assetId = str_or_empty p ''assetId'';
          slugOrId = (if str_or_empty p ''assetSlug'' = [] then assetId else str_or_empty p ''assetSlug'')
      in [(''assetUrl'', JStr (base @ ''/assets/'' @ slugOrId)),
          (''commentUrl'', JStr (base @ ''/assets/'' @ slugOrId @ ''#comment-'' @ str_or_empty p ''commentId'')),
          (''issueUrl'', JStr (base @ ''/assets/'' @ slugOrId @ ''/issues/'' @ str_or_empty p ''commentId'')),
          (''versionUrl'', JStr (base @ ''/assets/'' @ slugOrId @ ''/versions/'' @ str_or_empty p ''versionId'')),
          (''discoverUrl'', JStr (base @ ''/discover'')),
          (''requestUrl'', JStr (base @ ''/profile/requests/'' @ str_or_empty p ''requestId'')),
          (''adminRequestUrl'', JStr (base @ ''/admin/requests/'' @ str_or_empty p ''requestId'')),
          (''adminReportUrl'', JStr (base @ ''/admin/reports/'' @ str_or_empty p ''reportId'')),
          (''adminAssetUrl'', JStr (base @ ''/admin/assets/'' @ assetId))])"

text \<open>The spread \<open>{...payload, recipient, links}\<close>: the later fields win.\<close>

definition mail_vars :: "notify_env \<Rightarrow> user_row \<Rightarrow> notify_job \<Rightarrow> json" where
  "mail_vars env recipient j =
     JObj ([(''recipient'', user_ref_json recipient), (''links'', JObj (build_links env (nj_payload j)))] @
           (case nj_payload j of JObj fs \<Rightarrow> fs | _ \<Rightarrow> []))"

definition render_mail :: "notify_env \<Rightarrow> notification_type \<Rightarrow> locale_code \<Rightarrow> json \<Rightarrow> app_error + string \<times> string \<times> string" where
  "render_mail env ty loc vars =
     sum_bind (ne_template env ty loc) (\<lambda>(subject, html).
     (let substituted = substitute html vars
      in Inr (substitute subject vars, substituted, ne_htmlToText env substituted)))"

definition send_email :: "notify_env \<Rightarrow> user_row \<Rightarrow> notify_job \<Rightarrow> unit handler" where
  "send_email env recipient j =
     bnd (from_sum (render_mail env (nj_type j) (u_locale recipient) (mail_vars env recipient j))) (\<lambda>(subject, html, txt).
     (let m = \<lparr>ml_to = u_email recipient, ml_subject = subject, ml_html = html, ml_text = txt\<rparr>
      in bnd (from_sum (ne_smtp env m)) (\<lambda>_. upd (outbox_update (\<lambda>ms. ms @ [m])))))"

definition publish :: "notify_env \<Rightarrow> string \<Rightarrow> (string \<times> json) list \<Rightarrow> unit handler" where
  "publish env userId envelope =
     bnd (from_sum (ne_publish env (JObj ((''userId'', JStr userId) # envelope)))) (\<lambda>_.
     upd (fanout_update (\<lambda>ms. ms @ [(userId, JObj envelope)])))"

definition publish_ws :: "notify_env \<Rightarrow> int \<Rightarrow> string \<Rightarrow> string \<Rightarrow> notify_job \<Rightarrow> unit handler" where
  "publish_ws env now i userId j =
     publish env userId (new_ws_envelope i now ''notification:new''
       (JObj [(''type'', JStr (notification_type_name (nj_type j))), (''payload'', nj_payload j)]))"

definition unless_dropped :: "notify_job \<Rightarrow> channel \<Rightarrow> unit handler \<Rightarrow> unit handler" where
  "unless_dropped j ch m = (if ch \<in> set (nj_drop j) then ret () else swallow m)"

definition webhook_of :: "user_row \<Rightarrow> notify_job \<Rightarrow> webhook_job" where
  "webhook_of recipient j =
     \<lparr>wj_event = nj_type j, wj_recipient = Some \<lparr>ur_id = u_id recipient, ur_email = Some (u_email recipient), ur_name = None\<rparr>,
      wj_actor = nj_actor j, wj_payload = nj_payload j\<rparr>"

text \<open>The channels run side by side and touch different parts of the state; the order here is that of the promises.\<close>

definition process_notify :: "notify_env \<Rightarrow> int \<Rightarrow> string \<Rightarrow> string \<Rightarrow> notify_job \<Rightarrow> unit handler" where
  "process_notify env now rowId wsId j =
     bnd (gets (user_by (nj_recipient j))) (\<lambda>found.
     case found of
       None \<Rightarrow> ret ()
     | Some r \<Rightarrow>
         if u_deletedAt r \<noteq> None then ret ()
         else
           bnd (unless_dropped j InAppChannel (insert_in_app now rowId (u_id r) (nj_type j) (nj_payload j))) (\<lambda>_.
           bnd (unless_dropped j WsChannel (publish_ws env now wsId (u_id r) j)) (\<lambda>_.
           bnd (unless_dropped j EmailChannel (send_email env r j)) (\<lambda>_.
           unless_dropped j WebhookChannel (enqueueWebhook (webhook_of r j))))))"

subsection \<open>The webhook worker\<close>

record webhook_env =
  we_url :: string
  we_secret :: string
  we_hmac :: "string \<Rightarrow> string \<Rightarrow> string"
  we_fetch :: "string \<Rightarrow> (string \<times> string) list \<Rightarrow> string \<Rightarrow> string + nat \<times> string"

definition ref_json :: "user_ref \<Rightarrow> json" where
  "ref_json r = JObj ((''id'', JStr (ur_id r)) # optional_field ''email'' (ur_email r) @ optional_field ''displayName'' (ur_name r))"

definition ref_field :: "string \<Rightarrow> user_ref option \<Rightarrow> (string \<times> json) list" where
  "ref_field k r = (case r of None \<Rightarrow> [] | Some x \<Rightarrow> [(k, ref_json x)])"

definition webhook_envelope :: "string \<Rightarrow> int \<Rightarrow> webhook_job \<Rightarrow> json" where
  "webhook_envelope i now j =
     JObj ([(''id'', JStr i), (''type'', JStr (notification_type_name (wj_event j))), (''createdAt'', JStr (iso_string now))] @
           ref_field ''actor'' (wj_actor j) @ ref_field ''recipient'' (wj_recipient j) @ [(''payload'', wj_payload j)])"

definition delivery_id :: "string option \<Rightarrow> string \<Rightarrow> string" where
  "delivery_id jobId uuid = (case jobId of Some i \<Rightarrow> if starts_with ''wh_'' i then i else ''wh_'' @ uuid | None \<Rightarrow> ''wh_'' @ uuid)"

definition http_ok :: "nat \<Rightarrow> bool" where
  "http_ok n \<longleftrightarrow> 200 \<le> n \<and> n < 300"

definition webhook_headers :: "webhook_env \<Rightarrow> string \<Rightarrow> nat \<Rightarrow> string \<Rightarrow> (string \<times> string) list" where
  "webhook_headers env i attempt body =
     [(''content-type'', ''application/json''),
      (''x-mgm-signature'', if we_secret env = [] then [] else ''sha256='' @ we_hmac env (we_secret env) body),
      (''x-mgm-delivery-id'', i), (''x-mgm-attempt'', show_nat attempt)]"

definition delivery_of :: "webhook_env \<Rightarrow> int \<Rightarrow> string \<Rightarrow> nat \<Rightarrow> webhook_job \<Rightarrow> delivery_row" where
  "delivery_of env now i attempt j =
     (let envelope = webhook_envelope i now j;
          body = json_text envelope
      in case we_fetch env (we_url env) (webhook_headers env i attempt body) body of
           Inl msg \<Rightarrow> \<lparr>wd_deliveryId = i, wd_event = wj_event j, wd_success = False, wd_attempt = attempt, wd_httpStatus = None,
             wd_responseBody = [], wd_envelope = envelope, wd_error = Some msg, wd_createdAt = now\<rparr>
         | Inr (status, txt) \<Rightarrow> \<lparr>wd_deliveryId = i, wd_event = wj_event j, wd_success = http_ok status, wd_attempt = attempt,
             wd_httpStatus = Some (int status), wd_responseBody = take 2000 txt, wd_envelope = envelope,
             wd_error = (if http_ok status then None else Some (''HTTP '' @ show_nat status)), wd_createdAt = now\<rparr>)"

text \<open>The collection has a unique index on the delivery id and the attempt.\<close>

definition process_webhook :: "webhook_env \<Rightarrow> int \<Rightarrow> string \<Rightarrow> string option \<Rightarrow> nat \<Rightarrow> webhook_job \<Rightarrow> unit handler" where
  "process_webhook env now uuid jobId attemptsMade j =
     (if we_url env = [] then ret ()
      else
        (let d = delivery_of env now (delivery_id jobId uuid) (attemptsMade + 1) j
         in bnd (gets (\<lambda>w. some_row (\<lambda>x. wd_deliveryId x = wd_deliveryId d \<and> wd_attempt x = wd_attempt d) (deliveries w))) (\<lambda>taken.
            bnd (check (\<not> taken) (OtherError (UniqueViolation ''webhook_deliveries''))) (\<lambda>_.
            bnd (upd (deliveries_update (\<lambda>ds. ds @ [d]))) (\<lambda>_.
            check (wd_success d) (OtherError (RemoteFailure (or_else (wd_error d) ''Webhook delivery failed''))))))))"


subsection \<open>What the worker does\<close>

lemma unless_dropped_apply: "unless_dropped j ch m w = (Inr (), if ch \<in> set (nj_drop j) then w else snd (m w))"
  by (simp add: unless_dropped_def swallow_def)

text \<open>
  The mail of a notification and the message on the sockets' channel: one of each, unless the template cannot be rendered,
  the transport refuses the mail or Redis the message.
\<close>

definition mail_sent :: "notify_env \<Rightarrow> user_row \<Rightarrow> notify_job \<Rightarrow> mail list" where
  "mail_sent env u j =
     (case render_mail env (nj_type j) (u_locale u) (mail_vars env u j) of
        Inl _ \<Rightarrow> []
      | Inr (subject, html, txt) \<Rightarrow>
          filter (\<lambda>m. ne_smtp env m = Inr ()) [\<lparr>ml_to = u_email u, ml_subject = subject, ml_html = html, ml_text = txt\<rparr>])"

definition message_of :: "int \<Rightarrow> string \<Rightarrow> notify_job \<Rightarrow> (string \<times> json) list" where
  "message_of now wsId j =
     [(''type'', JStr ''notification:new''), (''id'', JStr wsId), (''ts'', JNum now),
      (''payload'', JObj [(''type'', JStr (notification_type_name (nj_type j))), (''payload'', nj_payload j)])]"

definition message_published :: "notify_env \<Rightarrow> int \<Rightarrow> string \<Rightarrow> notify_job \<Rightarrow> (string \<times> json) list" where
  "message_published env now wsId j =
     (if ne_publish env (JObj ((''userId'', JStr (nj_recipient j)) # message_of now wsId j)) = Inr ()
      then [(nj_recipient j, JObj (message_of now wsId j))] else [])"

lemma publish_ws_frame:
  "notifications (snd (publish_ws env now i u j w)) = notifications w" "jobs (snd (publish_ws env now i u j w)) = jobs w"
  "outbox (snd (publish_ws env now i u j w)) = outbox w" "queue_down (snd (publish_ws env now i u j w)) = queue_down w"
  by (auto simp: publish_ws_def publish_def bnd_apply split: sum.splits)

lemma publish_ws_fanout:
  "fanout (snd (publish_ws env now i (nj_recipient j) j w)) = fanout w @ message_published env now i j"
  by (auto simp: publish_ws_def publish_def new_ws_envelope_def message_published_def message_of_def bnd_apply split: sum.splits)

lemma send_email_frame:
  "notifications (snd (send_email env r j w)) = notifications w" "jobs (snd (send_email env r j w)) = jobs w"
  "fanout (snd (send_email env r j w)) = fanout w" "queue_down (snd (send_email env r j w)) = queue_down w"
  "outbox (snd (send_email env r j w)) = outbox w @ mail_sent env r j"
  by (auto simp: send_email_def mail_sent_def bnd_apply Let_def split: sum.splits prod.splits)

definition inbox_row :: "int \<Rightarrow> string \<Rightarrow> notify_job \<Rightarrow> notification_row" where
  "inbox_row now i j =
     \<lparr>n_id = i, n_userId = nj_recipient j, n_type = nj_type j, n_payload = nj_payload j, n_readAt = None, n_createdAt = now\<rparr>"

definition live_user :: "string \<Rightarrow> world \<Rightarrow> user_row option" where
  "live_user i w = (case user_by i w of None \<Rightarrow> None | Some u \<Rightarrow> if u_deletedAt u = None then Some u else None)"

text \<open>
  C23: Whatever the mail transport, Redis and the queue answer, one run of the notify worker succeeds.  For a recipient
  that is missing or deleted it changes nothing.  For a live one, of the channels that the job does not drop: it adds the
  inbox row; it sends the mail of the template to the recipient's address exactly when the template renders and the
  transport takes it; it publishes the message, for the recipient, exactly when Redis takes it; and it queues the webhook
  exactly when the queue answers.  No channel suffers from the failure of another.
\<close>

theorem notify_channels:
  "case process_notify env now rowId wsId j w of (r, w') \<Rightarrow>
     r = Inr () \<and>
     (case live_user (nj_recipient j) w of
        None \<Rightarrow> w' = w
      | Some u \<Rightarrow>
          notifications w' = notifications w @ (if InAppChannel \<in> set (nj_drop j) then [] else [inbox_row now rowId j]) \<and>
          outbox w' = outbox w @ (if EmailChannel \<in> set (nj_drop j) then [] else mail_sent env u j) \<and>
          fanout w' = fanout w @ (if WsChannel \<in> set (nj_drop j) then [] else message_published env now wsId j) \<and>
          jobs w' = jobs w @ (if WebhookChannel \<in> set (nj_drop j) \<or> queue_down w then []
                              else [\<lparr>jb_id = None, jb_payload = WebhookDeliveryJob (webhook_of u j)\<rparr>]))"
proof (cases "live_user (nj_recipient j) w")
  case None
  then show ?thesis
    by (cases "user_by (nj_recipient j) w") (auto simp: live_user_def process_notify_def bnd_gets split: if_splits)
next
  case (Some u)
  then have u: "user_by (nj_recipient j) w = Some u" "u_deletedAt u = None"
    by (auto simp: live_user_def split: option.splits if_splits)
  have id: "u_id u = nj_recipient j" using user_byD [OF u(1)] by simp
  define w1 where "w1 = snd (unless_dropped j InAppChannel (insert_in_app now rowId (u_id u) (nj_type j) (nj_payload j)) w)"
  define w2 where "w2 = snd (unless_dropped j WsChannel (publish_ws env now wsId (u_id u) j) w1)"
  define w3 where "w3 = snd (unless_dropped j EmailChannel (send_email env u j) w2)"
  define w4 where "w4 = snd (unless_dropped j WebhookChannel (enqueueWebhook (webhook_of u j)) w3)"
  have run: "process_notify env now rowId wsId j w = (Inr (), w4)"
    using u by (simp add: process_notify_def bnd_gets bnd_apply unless_dropped_apply w1_def w2_def w3_def w4_def)
  have 1: "notifications w1 = notifications w @ (if InAppChannel \<in> set (nj_drop j) then [] else [inbox_row now rowId j])"
    "jobs w1 = jobs w" "outbox w1 = outbox w" "fanout w1 = fanout w" "queue_down w1 = queue_down w"
    by (simp_all add: w1_def unless_dropped_apply insert_in_app_def inbox_row_def id)
  have 2: "notifications w2 = notifications w1" "jobs w2 = jobs w1" "outbox w2 = outbox w1" "queue_down w2 = queue_down w1"
    "fanout w2 = fanout w1 @ (if WsChannel \<in> set (nj_drop j) then [] else message_published env now wsId j)"
    using publish_ws_frame [of env now wsId "u_id u" j w1] publish_ws_fanout [of env now wsId j w1]
    by (simp_all add: w2_def unless_dropped_apply id)
  have 3: "notifications w3 = notifications w2" "jobs w3 = jobs w2" "fanout w3 = fanout w2" "queue_down w3 = queue_down w2"
    "outbox w3 = outbox w2 @ (if EmailChannel \<in> set (nj_drop j) then [] else mail_sent env u j)"
    using send_email_frame [of env u j w2] by (simp_all add: w3_def unless_dropped_apply)
  have 4: "notifications w4 = notifications w3" "outbox w4 = outbox w3" "fanout w4 = fanout w3"
    "jobs w4 = jobs w3 @ (if WebhookChannel \<in> set (nj_drop j) \<or> queue_down w3 then []
                              else [\<lparr>jb_id = None, jb_payload = WebhookDeliveryJob (webhook_of u j)\<rparr>])"
    by (simp_all add: w4_def unless_dropped_apply enqueueWebhook_def)
  show ?thesis using 1 2 3 4 by (simp add: run Some)
qed

subsection \<open>Reading marks\<close>

lemma count_set_rows_none:
  "(\<And>r. r \<in> set rows \<Longrightarrow> p r \<Longrightarrow> \<not> p (f r)) \<Longrightarrow> count_rows p (set_rows p f rows) = 0"
  by (induction rows) auto

text \<open>
  Marking all as read answers the number of notifications that were unread, leaves none unread, and keeps every
  row of another user and every row already read as it was.
\<close>

theorem mark_all_read_exact:
  "case mark_all_read now user w of (r, w') \<Rightarrow>
     r = Inr (unread_count user w) \<and> unread_count user w' = 0 \<and> inbox ((user, True), w') = [] \<and>
     filter (\<lambda>n. \<not> unread_of user n) (notifications w) =
       map snd (filter (\<lambda>(n, n'). \<not> unread_of user n) (zip (notifications w) (notifications w')))"
proof -
  let ?f = "n_readAt_update (\<lambda>_. Some now)"
  have "count_rows (unread_of user) (set_rows (unread_of user) ?f (notifications w)) = 0"
    by (rule count_set_rows_none) (simp add: unread_of_def)
  moreover have "filter (\<lambda>n. n_userId n = u_id user \<and> n_readAt n = None) (set_rows (unread_of user) ?f ns) = []" for ns :: "notification_row list"
    by (induction ns) (auto simp: unread_of_def)
  moreover have "filter (\<lambda>n. \<not> unread_of user n) ns =
      map snd (filter (\<lambda>(n, n'). \<not> unread_of user n) (zip ns (set_rows (unread_of user) ?f ns)))" for ns :: "notification_row list"
    by (induction ns) auto
  ultimately show ?thesis
    by (simp add: mark_all_read_def act_simps unread_count_def inbox_def order_desc_def)
qed

text \<open>
  With a webhook configured, an attempt that is not logged yet is logged exactly once, with the status and at most
  2000 characters of the answer, and the job fails, and so is retried, exactly when the answer was not a 2xx.
\<close>

theorem webhook_attempt_logged:
  "case process_webhook env now uuid jobId n j w of (r, w') \<Rightarrow>
     if we_url env = [] then r = Inr () \<and> w' = w
     else
       (let d = delivery_of env now (delivery_id jobId uuid) (n + 1) j
        in length (wd_responseBody d) \<le> 2000 \<and>
           (if some_row (\<lambda>x. wd_deliveryId x = delivery_id jobId uuid \<and> wd_attempt x = n + 1) (deliveries w)
            then isl r \<and> w' = w
            else deliveries w' = deliveries w @ [d] \<and> (isl r \<longleftrightarrow> \<not> wd_success d)))"
proof -
  let ?d = "delivery_of env now (delivery_id jobId uuid) (n + 1) j"
  have d: "wd_deliveryId ?d = delivery_id jobId uuid" "wd_attempt ?d = n + 1" "length (wd_responseBody ?d) \<le> 2000"
    by (auto simp: delivery_of_def Let_def split: sum.splits prod.splits)
  show ?thesis
    using d by (simp add: process_webhook_def act_simps Let_def)
qed

subsection \<open>Substitution\<close>

lemma substitute_plain: "CHR ''{'' \<notin> set lit \<Longrightarrow> substitute (lit @ rest) vars = lit @ substitute rest vars"
proof (induction lit)
  case (Cons c lit)
  then have "variable_at (c # lit @ rest) = None" by (auto simp: variable_at_def starts_with_def)
  with Cons show ?case by (simp add: substitute.simps [of "c # lit @ rest"])
qed simp

lemma substitute_variable:
  assumes "path \<noteq> []" and "list_all is_path_char path"
  shows "substitute (''{{'' @ path @ ''}}'' @ rest) vars =
     value_text (lookup_path (Some vars) (split_on CHR ''.'' path)) @ substitute rest vars"
proof -
  have blank: "\<not> is_blank c" if "is_path_char c" for c
    using that by (auto simp: is_path_char_def is_blank_def is_word_code_def)
  obtain c cs where p: "path = c # cs" using assms(1) by (cases path) auto
  have "\<not> is_blank c" using assms(2) blank by (simp add: p)
  then have 1: "dropWhile is_blank (path @ ''}}'' @ rest) = path @ ''}}'' @ rest" by (simp add: p)
  have brace: "\<not> is_path_char CHR ''}''" "\<not> is_blank CHR ''}''"
    by (simp_all add: is_path_char_def is_word_code_def is_blank_def)
  have 2: "takeWhile is_path_char (path @ ''}}'' @ rest) = path" "dropWhile is_path_char (path @ ''}}'' @ rest) = ''}}'' @ rest"
    using assms(2) brace by (simp_all add: list_all_iff takeWhile_append2 dropWhile_append2)
  have "variable_at (''{{'' @ path @ ''}}'' @ rest) = Some (path, rest)"
    using 1 2 brace assms(1) by (simp add: variable_at_def starts_with_def Let_def)
  then show ?thesis by (subst substitute.simps) simp
qed

text \<open>
  A variable of a template is replaced by the value verbatim, in one pass: the text around it stays, markup in the
  value is not escaped, and a value that looks like a variable is not expanded again.
\<close>

theorem substitution_is_verbatim:
  assumes "CHR ''{'' \<notin> set before'" and "path \<noteq> []" and "list_all is_path_char path"
    and "lookup_path (Some vars) (split_on CHR ''.'' path) = Some (JStr v)"
  shows "substitute (before' @ ''{{'' @ path @ ''}}'' @ rest) vars = before' @ v @ substitute rest vars"
  using substitute_plain [OF assms(1)] substitute_variable [OF assms(2,3)] assms(4) by (simp add: value_text_def)

theorem substitution_is_verbatim_witness:
  "substitute (''<b>'' @ ''{{'' @ ''assetTitle'' @ ''}}'' @ ''</b>'') (JObj [(''assetTitle'', JStr ''<img src=x>{{links}}'')]) =
     ''<b>'' @ ''<img src=x>{{links}}'' @ ''</b>''"
proof -
  have "substitute ''</b>'' vars = ''</b>''" for vars
    using substitute_plain [of "''</b>''" "[]" vars] by (simp add: substitute.simps [of "[]"] variable_at_def starts_with_def)
  moreover have "substitute (''<b>'' @ ''{{'' @ ''assetTitle'' @ ''}}'' @ ''</b>'') (JObj [(''assetTitle'', JStr ''<img src=x>{{links}}'')]) =
      ''<b>'' @ ''<img src=x>{{links}}'' @ substitute ''</b>'' (JObj [(''assetTitle'', JStr ''<img src=x>{{links}}'')])"
    by (rule substitution_is_verbatim) (simp_all add: is_path_char_def is_word_code_def)
  ultimately show ?thesis by simp
qed

end
