(* ===== verification/Gateway.thy ===== *)
theory Gateway
  imports Notify
begin

section \<open>The WebSocket gateway\<close>

text \<open>
  \<open>src/modules/ws/\<close>: the registry of the open sockets of a replica, a map from user to a set of sockets, and the gateway
  that authenticates a handshake, forwards the published messages of a user to his sockets and closes silent ones.
  \<open>links\<close> reads the registry as a relation between users and sockets, which the operations refine.  The state of the
  sockets and the frames sent to them are kept beside the registry.
\<close>

subsection \<open>The registry\<close>

type_synonym registry = "(string \<times> string list) list"

definition registry_add :: "string \<Rightarrow> string \<Rightarrow> registry \<Rightarrow> registry" where
  "registry_add u s r =
     (case map_of r u of
        None \<Rightarrow> r @ [(u, [s])]
      | Some ss \<Rightarrow> AList.update u (if s \<in> set ss then ss else ss @ [s]) r)"

definition registry_remove :: "string \<Rightarrow> string \<Rightarrow> registry \<Rightarrow> registry" where
  "registry_remove u s r =
     (case map_of r u of
        None \<Rightarrow> r
      | Some ss \<Rightarrow> if remove1 s ss = [] then AList.delete u r else AList.update u (remove1 s ss) r)"

definition for_user :: "string \<Rightarrow> registry \<Rightarrow> string list" where
  "for_user u r = or_else (map_of r u) []"

definition total_sockets :: "registry \<Rightarrow> nat" where
  "total_sockets r = sum_list (map (\<lambda>(_, ss). length ss) r)"

definition registry_ok :: "registry \<Rightarrow> bool" where
  "registry_ok r \<longleftrightarrow> distinct (map fst r) \<and> list_all (\<lambda>(_, ss). distinct ss \<and> ss \<noteq> []) r"

definition links :: "registry \<Rightarrow> (string \<times> string) set" where
  "links r = {(u, s). s \<in> set (for_user u r)}"

lemma for_user_update: "for_user u (AList.update v ss r) = (if u = v then ss else for_user u r)"
  by (simp add: for_user_def update_conv' or_else_def)

lemma for_user_delete: "for_user u (AList.delete v r) = (if u = v then [] else for_user u r)"
  by (simp add: for_user_def delete_conv' or_else_def)

lemma for_user_snoc: "map_of r u = None \<Longrightarrow> for_user v (r @ [(u, ss)]) = (if v = u then ss else for_user v r)"
  by (auto simp: for_user_def or_else_def map_add_def split: option.splits)

lemma registry_ok_get: "registry_ok r \<Longrightarrow> map_of r u = Some ss \<Longrightarrow> distinct ss \<and> ss \<noteq> []"
  by (auto simp: registry_ok_def list_all_iff dest: map_of_SomeD)

lemma set_update_sub: "p \<in> set (AList.update u ss r) \<Longrightarrow> p = (u, ss) \<or> p \<in> set r"
  by (induction r) (auto split: if_splits)

lemma set_delete_sub: "p \<in> set (AList.delete u r) \<Longrightarrow> p \<in> set r"
  by (auto simp: AList.delete_eq)

lemma registry_ok_update: "registry_ok r \<Longrightarrow> distinct ss \<Longrightarrow> ss \<noteq> [] \<Longrightarrow> registry_ok (AList.update u ss r)"
  unfolding registry_ok_def list_all_iff by (auto simp: distinct_update dest!: set_update_sub)

lemma registry_ok_delete: "registry_ok r \<Longrightarrow> registry_ok (AList.delete u r)"
  unfolding registry_ok_def list_all_iff by (auto simp: distinct_delete dest!: set_delete_sub)

lemma registry_add_ok: "registry_ok r \<Longrightarrow> registry_ok (registry_add u s r)"
proof (cases "map_of r u")
  case None
  assume "registry_ok r"
  moreover have "registry_add u s r = r @ [(u, [s])]" using None by (simp add: registry_add_def)
  moreover have "u \<notin> fst ` set r" using None by (simp add: map_of_eq_None_iff)
  ultimately show ?thesis by (simp add: registry_ok_def)
next
  case (Some ss)
  assume ok: "registry_ok r"
  with registry_ok_get [OF ok Some] Some show ?thesis by (simp add: registry_add_def registry_ok_update)
qed

lemma registry_remove_ok: "registry_ok r \<Longrightarrow> registry_ok (registry_remove u s r)"
proof (cases "map_of r u")
  case None
  assume "registry_ok r"
  with None show ?thesis by (simp add: registry_remove_def)
next
  case (Some ss)
  assume ok: "registry_ok r"
  with registry_ok_get [OF ok Some] Some show ?thesis
    by (simp add: registry_remove_def registry_ok_update registry_ok_delete)
qed

lemma links_add: "links (registry_add u s r) = insert (u, s) (links r)"
proof (cases "map_of r u")
  case None
  then have "for_user u r = []" by (simp add: for_user_def or_else_def)
  with None show ?thesis by (auto simp: links_def registry_add_def for_user_snoc split: if_splits)
next
  case (Some ss)
  then have "for_user u r = ss" by (simp add: for_user_def or_else_def)
  with Some show ?thesis by (auto simp: links_def registry_add_def for_user_update split: if_splits)
qed

lemma links_remove: "registry_ok r \<Longrightarrow> links (registry_remove u s r) = links r - {(u, s)}"
proof (cases "map_of r u")
  case None
  then show ?thesis by (auto simp: links_def registry_remove_def for_user_def or_else_def)
next
  case (Some ss)
  assume ok: "registry_ok r"
  have d: "distinct ss" using registry_ok_get [OF ok Some] by simp
  have ss: "for_user u r = ss" using Some by (simp add: for_user_def or_else_def)
  show ?thesis
  proof (cases "remove1 s ss = []")
    case True
    then have "set ss \<subseteq> {s}" using d by (metis set_remove1_eq Diff_eq_empty_iff list.set(1))
    with ss have mine: "set (for_user u r) \<subseteq> {s}" by simp
    have "registry_remove u s r = AList.delete u r" using True Some by (simp add: registry_remove_def)
    then have "(v, t) \<in> links (registry_remove u s r) \<longleftrightarrow> (v, t) \<in> links r - {(u, s)}" for v t
      using mine by (cases "v = u") (auto simp: links_def for_user_delete)
    then show ?thesis by auto
  next
    case False
    have mine: "set (remove1 s ss) = set (for_user u r) - {s}" using d ss by simp
    have "registry_remove u s r = AList.update u (remove1 s ss) r" using False Some by (simp add: registry_remove_def)
    then have "(v, t) \<in> links (registry_remove u s r) \<longleftrightarrow> (v, t) \<in> links r - {(u, s)}" for v t
      using mine by (cases "v = u") (simp_all add: links_def for_user_update)
    then show ?thesis by auto
  qed
qed

lemma links_Sigma: "registry_ok r \<Longrightarrow> links r = {(u, s). \<exists>ss. (u, ss) \<in> set r \<and> s \<in> set ss}"
proof -
  assume "registry_ok r"
  then have "map_of r u = Some ss \<longleftrightarrow> (u, ss) \<in> set r" for u ss by (simp add: registry_ok_def)
  moreover have "(u, s) \<in> links r \<longleftrightarrow> (\<exists>ss. map_of r u = Some ss \<and> s \<in> set ss)" for u s
    by (cases "map_of r u") (simp_all add: links_def for_user_def or_else_def)
  ultimately show ?thesis by auto
qed

lemma for_user_distinct: "registry_ok r \<Longrightarrow> distinct (for_user u r)"
proof (cases "map_of r u")
  case (Some ss)
  assume "registry_ok r"
  from registry_ok_get [OF this Some] Some show ?thesis by (simp add: for_user_def or_else_def)
qed (simp add: for_user_def or_else_def)

text \<open>
  C20: The registry refines a finite relation between users and sockets: adding and removing a socket are the operations
  of the relation, an entry is never left empty nor holds a socket twice, the sockets of a user are those related to
  him, and the total is the number of pairs.
\<close>

theorem registry_refines:
  assumes "registry_ok r"
  shows "registry_ok (registry_add u s r) \<and> registry_ok (registry_remove u s r) \<and>
     links (registry_add u s r) = insert (u, s) (links r) \<and> links (registry_remove u s r) = links r - {(u, s)} \<and>
     set (for_user u r) = {x. (u, x) \<in> links r} \<and> distinct (for_user u r) \<and> total_sockets r = card (links r)"
proof -
  have "card (links r) = total_sockets r"
    using assms
  proof (induction r)
    case Nil
    then show ?case by (simp add: links_def for_user_def or_else_def total_sockets_def)
  next
    case (Cons p r)
    obtain v ss where p: "p = (v, ss)" by (cases p)
    have ok: "registry_ok r" and v: "v \<notin> fst ` set r" and d: "distinct ss"
      using Cons.prems by (simp_all add: registry_ok_def p)
    have "links (p # r) = {v} \<times> set ss \<union> links r" unfolding links_Sigma [OF Cons.prems] links_Sigma [OF ok] by (auto simp: p)
    moreover have "{v} \<times> set ss \<inter> links r = {}" using v unfolding links_Sigma [OF ok] by force
    moreover have "finite (links r)"
      by (rule finite_subset [of _ "fst ` set r \<times> \<Union> (set ` snd ` set r)"]) (force simp: links_Sigma [OF ok])+
    moreover have "card ({v} \<times> set ss) = length ss" using d by (simp add: card_cartesian_product distinct_card)
    ultimately show ?case using Cons.IH [OF ok] by (simp add: card_Un_disjoint total_sockets_def p)
  qed
  then show ?thesis
    using registry_add_ok [OF assms] registry_remove_ok [OF assms] links_add links_remove [OF assms]
      for_user_distinct [OF assms] by (simp add: links_def)
qed

theorem registry_refines_witness:
  "total_sockets (registry_remove ''u'' ''s1'' [(''u'', [''s1'', ''s2'']), (''v'', [''s3''])]) = 2"
proof -
  let ?r = "[(''u'', [''s1'', ''s2'']), (''v'', [''s3''])]"
  have ok: "registry_ok ?r" by (simp add: registry_ok_def)
  have "registry_ok (registry_remove ''u'' ''s1'' ?r)" using registry_refines [OF ok] by blast
  then show ?thesis by (simp add: registry_remove_def total_sockets_def)
qed


subsection \<open>The gateway\<close>

record socket =
  sk_id :: string
  sk_user :: "string option"
  sk_alive :: bool
  sk_seen :: int
  sk_open :: bool
  sk_sent :: "json list"

record gateway =
  gw_registry :: registry
  gw_sockets :: "socket list"

definition HEARTBEAT_INTERVAL_MS :: int where "HEARTBEAT_INTERVAL_MS = 30000"

definition IDLE_TIMEOUT_MS :: int where "IDLE_TIMEOUT_MS = 90000"

definition set_socket :: "string \<Rightarrow> (socket \<Rightarrow> socket) \<Rightarrow> gateway \<Rightarrow> gateway" where
  "set_socket s f = gw_sockets_update (set_rows (\<lambda>x. sk_id x = s) f)"

definition send_frame :: "json \<Rightarrow> socket \<Rightarrow> socket" where
  "send_frame m x = x\<lparr>sk_sent := sk_sent x @ [m]\<rparr>"

definition close_socket :: "socket \<Rightarrow> socket" where
  "close_socket x = x\<lparr>sk_open := False\<rparr>"

text \<open>A published message reaches every open socket of its user: the subscriber of \<open>onModuleInit\<close>.\<close>

definition forward_to :: "json \<Rightarrow> socket \<Rightarrow> socket" where
  "forward_to m x = (if sk_open x then send_frame m x else x)"

definition on_fanout :: "string \<Rightarrow> json \<Rightarrow> gateway \<Rightarrow> gateway" where
  "on_fanout userId m g = foldl (\<lambda>g s. set_socket s (forward_to m) g) g (for_user userId (gw_registry g))"

text \<open>
  The handshake: a bearer token is verified and resolved to its principal, else a plugin token is verified and
  touched; any failure, an exception included, is no user.
\<close>

definition ws_authenticate ::
  "auth_env \<Rightarrow> bool \<Rightarrow> int \<Rightarrow> string \<Rightarrow> string option \<Rightarrow> string option \<Rightarrow> string option handler" where
  "ws_authenticate env up now i bearer pluginToken =
     (if truthy_str bearer
      then
        bnd (from_sum (case ae_jwks env (or_else bearer []) of None \<Rightarrow> Inl Unauthorized | Some c \<Rightarrow> Inr c)) (\<lambda>c.
        bnd (resolve_principal (ae_date_parse env) (ae_bootstrap env) up now i c) (\<lambda>(u, role). ret (Some (u_id u))))
      else if truthy_str pluginToken
      then
        bnd (verify_and_touch (ae_tokens env) up now (or_else pluginToken [])) (\<lambda>verified.
        ret (map_option (\<lambda>(u, r). u_id u) verified))
      else ret None)"

definition hello_frame :: "string \<Rightarrow> int \<Rightarrow> string \<Rightarrow> json" where
  "hello_frame i now userId =
     JObj (new_ws_envelope i now ''hello'' (JObj [(''userId'', JStr userId), (''serverTime'', JStr (iso_string now))]))"

definition unauthenticated_frame :: json where
  "unauthenticated_frame = JObj [(''type'', JStr ''error''), (''payload'', JObj [(''code'', JStr ''auth.unauthenticated'')])]"

definition admit_socket :: "string \<Rightarrow> int \<Rightarrow> string \<Rightarrow> string \<Rightarrow> gateway \<Rightarrow> gateway" where
  "admit_socket i now s userId g =
     set_socket s (\<lambda>x. send_frame (hello_frame i now userId) (x\<lparr>sk_user := Some userId, sk_alive := True, sk_seen := now\<rparr>))
       (gw_registry_update (registry_add userId s) g)"

definition refuse_socket :: "string \<Rightarrow> gateway \<Rightarrow> gateway" where
  "refuse_socket s = set_socket s (\<lambda>x. close_socket (send_frame unauthenticated_frame x))"

definition handle_connection ::
  "auth_env \<Rightarrow> bool \<Rightarrow> int \<Rightarrow> string \<Rightarrow> string \<Rightarrow> string option \<Rightarrow> string option \<Rightarrow> string \<Rightarrow> world \<times> gateway \<Rightarrow> world \<times> gateway" where
  "handle_connection env up now i helloId bearer pluginToken s wg =
     (case wg of (w, g) \<Rightarrow>
        (case ws_authenticate env up now i bearer pluginToken w of
           (Inr (Some userId), w') \<Rightarrow> (w', if userId = [] then refuse_socket s g else admit_socket helloId now s userId g)
         | (_, w') \<Rightarrow> (w', refuse_socket s g)))"

definition on_pong :: "int \<Rightarrow> string \<Rightarrow> gateway \<Rightarrow> gateway" where
  "on_pong now s = set_socket s (\<lambda>x. x\<lparr>sk_alive := True, sk_seen := now\<rparr>)"

definition on_message :: "int \<Rightarrow> string \<Rightarrow> gateway \<Rightarrow> gateway" where
  "on_message now s = set_socket s (sk_seen_update (\<lambda>_. now))"

definition handle_disconnect :: "string \<Rightarrow> gateway \<Rightarrow> gateway" where
  "handle_disconnect s g =
     (case find_row sk_id s (gw_sockets g) of
        None \<Rightarrow> g
      | Some x \<Rightarrow>
          (case sk_user x of
             None \<Rightarrow> set_socket s close_socket g
           | Some u \<Rightarrow> gw_registry_update (registry_remove u s) (set_socket s close_socket g)))"

definition expired :: "int \<Rightarrow> socket \<Rightarrow> bool" where
  "expired now x \<longleftrightarrow> \<not> sk_alive x \<or> (sk_seen x \<noteq> 0 \<and> IDLE_TIMEOUT_MS < now - sk_seen x)"

definition tick_socket :: "int \<Rightarrow> string \<times> string \<Rightarrow> gateway \<Rightarrow> gateway" where
  "tick_socket now us g =
     (case us of (u, s) \<Rightarrow>
        (case find_row sk_id s (gw_sockets g) of
           None \<Rightarrow> g
         | Some x \<Rightarrow>
             if expired now x then gw_registry_update (registry_remove u s) (set_socket s close_socket g)
             else set_socket s (sk_alive_update (\<lambda>_. False)) g))"

definition registry_pairs :: "registry \<Rightarrow> (string \<times> string) list" where
  "registry_pairs r = concat (map (\<lambda>(u, ss). map (Pair u) ss) r)"

text \<open>The iteration over the live map visits every pair that is there at the start: removing the current one is safe.\<close>

definition tick :: "int \<Rightarrow> gateway \<Rightarrow> gateway" where
  "tick now g = fold (tick_socket now) (registry_pairs (gw_registry g)) g"

subsection \<open>Who receives a message\<close>

lemma set_socket_frame [simp]:
  "gw_registry (set_socket s f g) = gw_registry g"
  "gw_sockets (set_socket s f g) = set_rows (\<lambda>x. sk_id x = s) f (gw_sockets g)"
  by (simp_all add: set_socket_def)

lemma foldl_set_sockets:
  "distinct ss \<Longrightarrow> (\<And>x. sk_id (f x) = sk_id x) \<Longrightarrow>
     gw_registry (foldl (\<lambda>g s. set_socket s f g) g ss) = gw_registry g \<and>
     gw_sockets (foldl (\<lambda>g s. set_socket s f g) g ss) = set_rows (\<lambda>x. sk_id x \<in> set ss) f (gw_sockets g)"
proof (induction ss arbitrary: g)
  case Nil
  then show ?case by (simp add: set_rows_def)
next
  case (Cons s ss)
  then have "gw_sockets (foldl (\<lambda>g s. set_socket s f g) g (s # ss)) =
      set_rows (\<lambda>x. sk_id x \<in> set ss) f (set_rows (\<lambda>x. sk_id x = s) f (gw_sockets g))" by simp
  moreover have "set_rows (\<lambda>x. sk_id x \<in> set ss) f (set_rows (\<lambda>x. sk_id x = s) f xs) = set_rows (\<lambda>x. sk_id x \<in> set (s # ss)) f xs" for xs
    using Cons.prems by (induction xs) (auto simp: set_rows_def)
  ultimately show ?case using Cons by simp
qed

text \<open>
  A published message adds exactly one frame, the message, to every open socket registered for its user, and
  nothing to a closed socket or to a socket of somebody else; the registry stays as it is.
\<close>

theorem fanout_exact:
  assumes "registry_ok (gw_registry g)"
  shows "gw_registry (on_fanout u m g) = gw_registry g \<and>
     gw_sockets (on_fanout u m g) =
       map (\<lambda>x. if (u, sk_id x) \<in> links (gw_registry g) \<and> sk_open x then x\<lparr>sk_sent := sk_sent x @ [m]\<rparr> else x) (gw_sockets g)"
proof -
  have d: "distinct (for_user u (gw_registry g))"
    by (rule for_user_distinct [OF assms])
  have f: "sk_id (forward_to m x) = sk_id x" for x by (simp add: forward_to_def send_frame_def)
  show ?thesis
    unfolding on_fanout_def foldl_set_sockets [OF d f, of g, THEN conjunct1] foldl_set_sockets [OF d f, of g, THEN conjunct2]
    by (simp add: set_rows_def links_def forward_to_def send_frame_def)
qed

definition socket_of :: "string \<Rightarrow> string \<Rightarrow> socket" where
  "socket_of s u = \<lparr>sk_id = s, sk_user = Some u, sk_alive = True, sk_seen = 1, sk_open = True, sk_sent = []\<rparr>"

definition two_sockets :: gateway where
  "two_sockets = \<lparr>gw_registry = [(''u'', [''s1'']), (''v'', [''s2''])], gw_sockets = [socket_of ''s1'' ''u'', socket_of ''s2'' ''v'']\<rparr>"

lemma two_sockets_ok: "registry_ok (gw_registry two_sockets)"
  by (simp add: two_sockets_def registry_ok_def)

theorem fanout_exact_witness:
  "map sk_sent (gw_sockets (on_fanout ''u'' JNull two_sockets)) = [[JNull], []]"
  using fanout_exact [OF two_sockets_ok, of "''u''" JNull]
  by (simp add: two_sockets_def links_def for_user_def or_else_def socket_of_def)

subsection \<open>Silent sockets\<close>

definition gateway_ok :: "gateway \<Rightarrow> bool" where
  "gateway_ok g \<longleftrightarrow> registry_ok (gw_registry g) \<and> inj_on snd (links (gw_registry g)) \<and>
     snd ` links (gw_registry g) \<subseteq> sk_id ` set (gw_sockets g)"

lemma set_registry_pairs: "registry_ok r \<Longrightarrow> set (registry_pairs r) = links r"
  by (auto simp: registry_pairs_def links_Sigma)

lemma distinct_registry_pairs: "registry_ok r \<Longrightarrow> distinct (registry_pairs r)"
proof (induction r)
  case (Cons p r)
  obtain v ss where p: "p = (v, ss)" by (cases p)
  have ok: "registry_ok r" and v: "v \<notin> fst ` set r" and d: "distinct ss"
    using Cons.prems by (simp_all add: registry_ok_def p)
  have "fst q \<in> fst ` set r" if "q \<in> set (registry_pairs r)" for q
    using that by (auto simp: registry_pairs_def) (metis fst_conv imageI)
  then have "set (map (Pair v) ss) \<inter> set (registry_pairs r) = {}" using v by force
  then show ?case using Cons.IH [OF ok] d by (simp add: registry_pairs_def p distinct_map inj_on_def)
qed (simp add: registry_pairs_def)

lemma tick_socket_other:
  "s \<noteq> s' \<Longrightarrow> find_row sk_id s (gw_sockets (tick_socket now (u', s') g)) = find_row sk_id s (gw_sockets g)"
  by (cases "find_row sk_id s (gw_sockets g)")
    (auto simp: tick_socket_def find_row_set_rows close_socket_def dest: find_row_SomeD split: option.splits)

lemma tick_socket_ok: "registry_ok (gw_registry g) \<Longrightarrow> registry_ok (gw_registry (tick_socket now us g))"
  by (cases us) (auto simp: tick_socket_def registry_remove_ok split: option.splits)

lemma tick_socket_links:
  assumes "registry_ok (gw_registry g)" and "find_row sk_id s (gw_sockets g) = Some x"
  shows "links (gw_registry (tick_socket now (u, s) g)) = links (gw_registry g) - (if expired now x then {(u, s)} else {}) \<and>
     find_row sk_id s (gw_sockets (tick_socket now (u, s) g)) =
       Some (if expired now x then close_socket x else x\<lparr>sk_alive := False\<rparr>)"
  using assms find_row_SomeD [OF assms(2)]
  by (auto simp: tick_socket_def links_remove find_row_set_rows close_socket_def)

lemma tick_all:
  assumes "registry_ok (gw_registry g)" and "distinct (map snd us)" and "\<forall>us \<in> set us. snd us \<in> sk_id ` set (gw_sockets g)"
  shows "links (gw_registry (fold (tick_socket now) us g)) =
       {p \<in> links (gw_registry g). \<not> (p \<in> set us \<and> expired now (the (find_row sk_id (snd p) (gw_sockets g))))} \<and>
     (\<forall>s. find_row sk_id s (gw_sockets (fold (tick_socket now) us g)) =
        (if s \<in> snd ` set us
         then map_option (\<lambda>x. if expired now x then close_socket x else x\<lparr>sk_alive := False\<rparr>) (find_row sk_id s (gw_sockets g))
         else find_row sk_id s (gw_sockets g)))"
  using assms
proof (induction us arbitrary: g)
  case (Cons p us)
  obtain u s where p: "p = (u, s)" by (cases p)
  have "find_row sk_id s (gw_sockets g) \<noteq> None" using Cons.prems(3) by (simp add: p find_row_None_iff)
  then obtain x where x: "find_row sk_id s (gw_sockets g) = Some x" by blast
  let ?g = "tick_socket now (u, s) g"
  note one = tick_socket_links [OF Cons.prems(1) x, of now u]
  have other: "find_row sk_id t (gw_sockets ?g) = find_row sk_id t (gw_sockets g)" if "t \<noteq> s" for t
    using that by (rule tick_socket_other)
  have new: "s \<notin> snd ` set us" using Cons.prems(2) by (simp add: p)
  have ids: "\<forall>q \<in> set us. snd q \<in> sk_id ` set (gw_sockets ?g)"
  proof
    fix q
    assume q: "q \<in> set us"
    then have "snd q \<noteq> s" using new by force
    with other q Cons.prems(3) show "snd q \<in> sk_id ` set (gw_sockets ?g)" by (metis find_row_None_iff list.set_intros(2))
  qed
  have IH: "links (gw_registry (fold (tick_socket now) us ?g)) =
       {p \<in> links (gw_registry ?g). \<not> (p \<in> set us \<and> expired now (the (find_row sk_id (snd p) (gw_sockets ?g))))} \<and>
     (\<forall>t. find_row sk_id t (gw_sockets (fold (tick_socket now) us ?g)) =
        (if t \<in> snd ` set us
         then map_option (\<lambda>x. if expired now x then close_socket x else x\<lparr>sk_alive := False\<rparr>) (find_row sk_id t (gw_sockets ?g))
         else find_row sk_id t (gw_sockets ?g)))"
    using Cons.prems tick_socket_ok ids by (intro Cons.IH) simp_all
  have "find_row sk_id (snd q) (gw_sockets ?g) = find_row sk_id (snd q) (gw_sockets g)" if "q \<in> set us" for q
    using other new that by (metis imageI)
  then have L: "links (gw_registry (fold (tick_socket now) (p # us) g)) =
       {q \<in> links (gw_registry g). \<not> (q \<in> set (p # us) \<and> expired now (the (find_row sk_id (snd q) (gw_sockets g))))}"
    using IH one x by (auto simp: p split: if_splits)
  have "find_row sk_id t (gw_sockets (fold (tick_socket now) (p # us) g)) =
        (if t \<in> snd ` set (p # us)
         then map_option (\<lambda>x. if expired now x then close_socket x else x\<lparr>sk_alive := False\<rparr>) (find_row sk_id t (gw_sockets g))
         else find_row sk_id t (gw_sockets g))" for t
    using IH one x other [of t] new by (cases "t = s") (simp_all add: p)
  with L show ?case by blast
qed simp

lemma tick_links:
  assumes "gateway_ok g"
  shows "links (gw_registry (tick t g)) =
       {p \<in> links (gw_registry g). \<not> expired t (the (find_row sk_id (snd p) (gw_sockets g)))} \<and>
     (\<forall>s. find_row sk_id s (gw_sockets (tick t g)) =
        (if s \<in> snd ` links (gw_registry g)
         then map_option (\<lambda>x. if expired t x then close_socket x else x\<lparr>sk_alive := False\<rparr>) (find_row sk_id s (gw_sockets g))
         else find_row sk_id s (gw_sockets g)))"
proof -
  have ok: "registry_ok (gw_registry g)" using assms by (simp add: gateway_ok_def)
  have "distinct (map snd (registry_pairs (gw_registry g)))"
    using assms distinct_registry_pairs [OF ok] by (simp add: gateway_ok_def distinct_map set_registry_pairs [OF ok])
  moreover have "\<forall>p \<in> set (registry_pairs (gw_registry g)). snd p \<in> sk_id ` set (gw_sockets g)"
    using assms by (auto simp: gateway_ok_def set_registry_pairs [OF ok])
  ultimately show ?thesis
    using tick_all [OF ok, of "registry_pairs (gw_registry g)" t] by (auto simp: tick_def set_registry_pairs [OF ok])
qed

lemma fold_tick_ok: "registry_ok (gw_registry g) \<Longrightarrow> registry_ok (gw_registry (fold (tick_socket now) us g))"
  by (induction us arbitrary: g) (simp_all add: tick_socket_ok)

lemma tick_ok: "gateway_ok g \<Longrightarrow> gateway_ok (tick t g)"
proof -
  assume g: "gateway_ok g"
  note t = tick_links [OF g, of t]
  have sub: "links (gw_registry (tick t g)) \<subseteq> links (gw_registry g)" using t by blast
  have ids: "s \<in> sk_id ` set (gw_sockets (tick t g)) \<longleftrightarrow> s \<in> sk_id ` set (gw_sockets g)" for s
  proof -
    have "find_row sk_id s (gw_sockets (tick t g)) = None \<longleftrightarrow> find_row sk_id s (gw_sockets g) = None" using t by simp
    then show ?thesis by (simp add: find_row_None_iff)
  qed
  have "registry_ok (gw_registry (tick t g))" using g by (simp add: tick_def fold_tick_ok gateway_ok_def)
  moreover have "inj_on snd (links (gw_registry (tick t g)))" using g sub unfolding gateway_ok_def by (blast intro: inj_on_subset)
  moreover have "snd ` links (gw_registry (tick t g)) \<subseteq> sk_id ` set (gw_sockets (tick t g))"
  proof
    fix s
    assume "s \<in> snd ` links (gw_registry (tick t g))"
    then have "s \<in> snd ` links (gw_registry g)" using sub by blast
    then have "s \<in> sk_id ` set (gw_sockets g)" using g unfolding gateway_ok_def by blast
    then show "s \<in> sk_id ` set (gw_sockets (tick t g))" by (simp only: ids)
  qed
  ultimately show ?thesis by (simp add: gateway_ok_def)
qed

text \<open>
  C21: A registered socket from which nothing arrives between two ticks is closed and out of the registry after the second,
  and the first removes it only when it had not answered the ping before or was silent for more than ninety seconds. So one
  missed pong closes it, at most a minute after its last word; WS_PROTOCOL.md and the comment of the gateway promise that
  only ninety seconds without a pong do, which the code does not keep.
\<close>

theorem silent_socket_closed:
  assumes "gateway_ok g" and "find_row sk_id s (gw_sockets g) = Some x" and "(u, s) \<in> links (gw_registry g)"
  shows "(u, s) \<notin> links (gw_registry (tick (t + HEARTBEAT_INTERVAL_MS) (tick t g))) \<and>
     map_option sk_open (find_row sk_id s (gw_sockets (tick (t + HEARTBEAT_INTERVAL_MS) (tick t g)))) = Some False \<and>
     ((u, s) \<in> links (gw_registry (tick t g)) \<longleftrightarrow> sk_alive x \<and> (sk_seen x = 0 \<or> t - sk_seen x \<le> IDLE_TIMEOUT_MS))"
proof -
  let ?g = "tick t g" and ?t = "t + HEARTBEAT_INTERVAL_MS"
  note one = tick_links [OF assms(1), of t] and two = tick_links [OF tick_ok [OF assms(1)], of ?t]
  have s: "s \<in> snd ` links (gw_registry g)" using assms(3) by force
  have first: "(u, s) \<in> links (gw_registry ?g) \<longleftrightarrow> \<not> expired t x" using one assms(2,3) by simp
  have row: "find_row sk_id s (gw_sockets ?g) = Some (if expired t x then close_socket x else x\<lparr>sk_alive := False\<rparr>)"
    using one s assms(2) by simp
  have iff: "\<not> expired t x \<longleftrightarrow> sk_alive x \<and> (sk_seen x = 0 \<or> t - sk_seen x \<le> IDLE_TIMEOUT_MS)" by (auto simp: expired_def)
  show ?thesis
  proof (cases "expired t x")
    case True
    have "v = u" if "(v, s) \<in> links (gw_registry g)" for v
    proof -
      have "(v, s) = (u, s)" using assms(1) that assms(3) by (intro inj_onD [of snd "links (gw_registry g)"]) (auto simp: gateway_ok_def)
      then show ?thesis by simp
    qed
    then have "s \<notin> snd ` links (gw_registry ?g)" using one first True by force
    then have "find_row sk_id s (gw_sockets (tick ?t ?g)) = Some (close_socket x)" using two row True by simp
    then show ?thesis using two first iff True by (simp add: close_socket_def)
  next
    case False
    have gone: "expired ?t (x\<lparr>sk_alive := False\<rparr>)" by (simp add: expired_def)
    have "s \<in> snd ` links (gw_registry ?g)" using first False by force
    then have "find_row sk_id s (gw_sockets (tick ?t ?g)) = Some (close_socket (x\<lparr>sk_alive := False\<rparr>))"
      using two row False gone by simp
    moreover have "(u, s) \<notin> links (gw_registry (tick ?t ?g))" using two row False gone by simp
    ultimately show ?thesis using first iff False by (simp add: close_socket_def)
  qed
qed

theorem silent_socket_closed_witness:
  "(''u'', ''s1'') \<notin> links (gw_registry (tick 60000 (tick 30000 two_sockets))) \<and>
   (''u'', ''s1'') \<in> links (gw_registry (tick 30000 two_sockets))"
proof -
  have l: "links (gw_registry two_sockets) = {(''u'', ''s1''), (''v'', ''s2'')}"
    unfolding links_Sigma [OF two_sockets_ok] by (auto simp: two_sockets_def)
  have "gateway_ok two_sockets"
    unfolding gateway_ok_def l using two_sockets_ok by (auto simp: inj_on_def) (auto simp: two_sockets_def socket_of_def)
  from silent_socket_closed [OF this, of "''s1''" "socket_of ''s1'' ''u''" "''u''" 30000] l
  show ?thesis by (simp add: two_sockets_def socket_of_def HEARTBEAT_INTERVAL_MS_def IDLE_TIMEOUT_MS_def)
qed

end
