(* ===== verification/Insight.thy ===== *)
theory Insight
  imports Maintenance Gateway Reports Requests
begin

section \<open>What administrators and owners see: dashboard, analytics, storage and deliveries\<close>

text \<open>
  \<open>src/modules/admin/dashboard.service.ts\<close>, \<open>src/modules/analytics/\<close>, \<open>src/modules/admin/storage.controller.ts\<close> and
  \<open>src/modules/admin/webhook-deliveries.controller.ts\<close>.  A SQL aggregate is the aggregate of the rows of the world;
  rows that \<open>ORDER BY\<close> leaves tied keep the order of the table.  A limit is the number that \<open>Number\<close> makes of the query
  parameter.  Ids of audit rows and durations of deliveries are left out of the rows, as in \<open>Schema\<close>.
\<close>

subsection \<open>Series\<close>

text \<open>\<open>GROUP BY date_trunc('day', t) ORDER BY date\<close>.\<close>

definition day_series :: "int list \<Rightarrow> (int \<times> nat) list" where
  "day_series ts = map (\<lambda>d. (d, count_rows (\<lambda>t. day_start t = d) ts)) (sort (remdups (map day_start ts)))"

definition date_text :: "int \<Rightarrow> string" where
  "date_text d = take 10 (iso_string d)"

definition series_json :: "(int \<times> nat) list \<Rightarrow> json" where
  "series_json s = JArr (map (\<lambda>(d, n). JObj [(''date'', JStr (date_text d)), (''count'', JNum (int n))]) s)"

definition ordered_desc :: "('r \<Rightarrow> int) \<Rightarrow> 'r list \<Rightarrow> 'r list" where
  "ordered_desc f rows = sort_key (\<lambda>r. - f r) rows"

definition clamp_limit :: "int \<Rightarrow> int option \<Rightarrow> nat" where
  "clamp_limit d limit = nat (min (max (or_else limit d) 1) 200)"

subsection \<open>DashboardService\<close>

definition CACHE_KEY :: string where "CACHE_KEY = ''admin:dashboard''"

definition CACHE_TTL_SECONDS :: int where "CACHE_TTL_SECONDS = 30"

definition load_counts :: "int \<Rightarrow> world \<Rightarrow> json" where
  "load_counts now w =
     (let num = (\<lambda>n. JNum (int n)); assets_in = (\<lambda>s. num (count_rows (\<lambda>a. a_status a = s) (assets w)))
      in JObj [(''users'', num (count_rows (\<lambda>u. u_deletedAt u = None) (users w))),
           (''assetsPublished'', assets_in PUBLISHED), (''assetsDraft'', assets_in DRAFT), (''assetsArchived'', assets_in ARCHIVED),
           (''downloadsLast30d'', num (count_rows (\<lambda>d. now - 30 * DAY_MS \<le> d_createdAt d) (downloads w))),
           (''pendingReports'', num (count_rows (\<lambda>r. r_status r = R_OPEN \<or> r_status r = R_REVIEWING) (reports w))),
           (''pendingRequests'', num (count_rows (\<lambda>q. q_status q = SENT \<or> q_status q = IN_REVIEW \<or> q_status q = Q_PENDING) (requests w))),
           (''infectedVersions'', JNum 0)])"

text \<open>The rows of the latest snapshot; of a prefix, the first one found.\<close>

definition latest_date :: "int list \<Rightarrow> int option" where
  "latest_date ds = (if ds = [] then None else Some (Max (set ds)))"

definition prefix_bytes :: "string \<Rightarrow> storage_row list \<Rightarrow> int" where
  "prefix_bytes p rows = (case find_row sg_prefix p rows of None \<Rightarrow> 0 | Some r \<Rightarrow> sg_bytes r)"

definition load_storage :: "world \<Rightarrow> json" where
  "load_storage w =
     (let rows = (case latest_date (map sg_date (storage_daily w)) of
                    None \<Rightarrow> [] | Some d \<Rightarrow> filter (\<lambda>s. sg_date s = d) (storage_daily w));
          by_prefix = (\<lambda>p. prefix_bytes p rows); txt = (\<lambda>n. JStr (show_int n))
      in JObj [(''totalBytes'', txt (by_prefix ''source'' + by_prefix ''derived'' + by_prefix ''thumbs'' + by_prefix ''featured'' + by_prefix ''editor'')),
           (''sourceBytes'', txt (by_prefix ''source'')), (''derivedBytes'', txt (by_prefix ''derived'')),
           (''thumbsBytes'', txt (by_prefix ''thumbs'')), (''featuredBannersBytes'', txt (by_prefix ''featured'')),
           (''editorMediaBytes'', txt (by_prefix ''editor''))])"

definition load_charts :: "int \<Rightarrow> world \<Rightarrow> json" where
  "load_charts now w =
     (let start = now - 30 * DAY_MS; since = (\<lambda>ts. series_json (day_series (filter (\<lambda>t. start \<le> t) ts)))
      in JObj [(''downloads30d'', since (map d_createdAt (downloads w))),
           (''publishes30d'', since (List.map_filter a_publishedAt (filter (\<lambda>a. a_status a = PUBLISHED) (assets w)))),
           (''newUsers30d'', since (map u_createdAt (users w)))])"

definition top_asset_json :: "world \<Rightarrow> string \<times> nat \<Rightarrow> json option" where
  "top_asset_json w r =
     map_option (\<lambda>a. JObj [(''id'', JStr (a_id a)), (''title'', JStr (a_title a)), (''downloads'', JNum (int (snd r))),
         (''ownerDisplayName'', JStr (case user_by (a_ownerId a) w of None \<Rightarrow> [] | Some u \<Rightarrow> u_name u))])
       (asset_by (fst r) w)"

definition load_top_assets :: "int \<Rightarrow> world \<Rightarrow> json" where
  "load_top_assets now w =
     JArr (List.map_filter (top_asset_json w)
       (take 10 (ordered_desc (\<lambda>r. int (snd r))
         (count_by d_assetId (filter (\<lambda>d. now - 7 * DAY_MS \<le> d_createdAt d) (downloads w))))))"

definition audit_json :: "world \<Rightarrow> audit_row \<Rightarrow> json" where
  "audit_json w r =
     JObj [(''action'', JStr (au_action r)), (''subjectType'', JStr (au_subjectType r)), (''subjectId'', JStr (au_subjectId r)),
           (''actorId'', null_or (au_actorId r)),
           (''actorDisplayName'', null_or (case au_actorId r of None \<Rightarrow> None | Some i \<Rightarrow> map_option u_name (user_by i w))),
           (''createdAt'', JStr (iso_string (au_createdAt r)))]"

definition load_recent_audit :: "world \<Rightarrow> json" where
  "load_recent_audit w = JArr (map (audit_json w) (take 15 (ordered_desc au_createdAt (audit_logs w))))"

definition dashboard_payload :: "int \<Rightarrow> world \<Rightarrow> json" where
  "dashboard_payload now w =
     JObj [(''counts'', load_counts now w), (''storage'', load_storage w), (''charts'', load_charts now w),
           (''topAssets7d'', load_top_assets now w), (''recentAudit'', load_recent_audit w)]"

text \<open>Unlike the listings, the dashboard does without its cache neither when Redis fails nor when the text does not parse.\<close>

definition dashboard_get :: "bool \<Rightarrow> int \<Rightarrow> json handler" where
  "dashboard_get up now =
     bnd (check up redis_down) (\<lambda>_.
     bnd (gets (\<lambda>w. redis_get now CACHE_KEY (redis w))) (\<lambda>cached.
     case truthy_opt cached of
       Some s \<Rightarrow> fetch (\<lambda>_. json_parse s) (OtherError TypeError)
     | None \<Rightarrow>
         bnd (gets (dashboard_payload now)) (\<lambda>payload.
         bnd (upd (redis_update (redis_set_ex now CACHE_KEY (json_text payload) CACHE_TTL_SECONDS))) (\<lambda>_.
         ret payload))))"

definition dashboard_invalidate :: "bool \<Rightarrow> unit handler" where
  "dashboard_invalidate up =
     bnd (check up redis_down) (\<lambda>_. upd (redis_update (redis_del [CACHE_KEY])))"

subsection \<open>AnalyticsService\<close>

record top_asset =
  ta_id :: string
  ta_title :: string
  ta_downloads :: nat
  ta_saves :: nat

record my_summary =
  ms_downloads :: nat
  ms_saves :: nat
  ms_downloads7d :: nat
  ms_downloads30d :: nat
  ms_top :: "top_asset list"
  ms_daily :: "(int \<times> nat) list"

text \<open>The daily rows of some assets since a time, added up by date.\<close>

definition daily_sum :: "daily_row list \<Rightarrow> (int \<times> nat) list" where
  "daily_sum ds =
     map (\<lambda>d. (d, sum_list (map dd_count (filter (\<lambda>r. dd_date r = d) ds)))) (sort (remdups (map dd_date ds)))"

definition owned_listed :: "user_row \<Rightarrow> world \<Rightarrow> asset_row list" where
  "owned_listed u w = filter (\<lambda>a. a_ownerId a = u_id u \<and> (a_status a = PUBLISHED \<or> a_status a = ARCHIVED)) (assets w)"

definition my_summary_of :: "int \<Rightarrow> user_row \<Rightarrow> world \<Rightarrow> my_summary" where
  "my_summary_of now u w =
     (let owned = owned_listed u w
      in if owned = [] then
           \<lparr>ms_downloads = 0, ms_saves = 0, ms_downloads7d = 0, ms_downloads30d = 0, ms_top = [], ms_daily = []\<rparr>
         else
           (let ids = map a_id owned; stats = filter (\<lambda>s. ast_assetId s \<in> set ids) (asset_stats w);
                total = (\<lambda>f. sum_list (map f stats))
            in \<lparr>ms_downloads = total ast_totalDownloads, ms_saves = total ast_totalSaves,
                ms_downloads7d = total ast_last7d, ms_downloads30d = total ast_last30d,
                ms_top = map (\<lambda>s. \<lparr>ta_id = ast_assetId s,
                     ta_title = (case find_row a_id (ast_assetId s) owned of None \<Rightarrow> ''(deleted)'' | Some a \<Rightarrow> a_title a),
                     ta_downloads = ast_totalDownloads s, ta_saves = ast_totalSaves s\<rparr>)
                   (take 5 (ordered_desc (\<lambda>s. int (ast_totalDownloads s)) stats)),
                ms_daily = daily_sum (filter (\<lambda>d. dd_assetId d \<in> set ids \<and> now - 90 * DAY_MS \<le> dd_date d) (download_daily w))\<rparr>))"

text \<open>\<open>byCountry\<close> and \<open>bySource\<close>: the counters of the rows added up by key, in the order in which the keys appear.\<close>

definition add_counts :: "(string \<times> nat) list \<Rightarrow> (string \<times> nat) list \<Rightarrow> (string \<times> nat) list" where
  "add_counts acc row = foldl (\<lambda>cs (k, n). AList.update k (or_else (map_of cs k) 0 + n) cs) acc row"

record analytics_detail =
  ad_asset :: "string \<times> string"
  ad_daily :: "(int \<times> nat) list"
  ad_byCountry :: "(string \<times> nat) list"
  ad_bySource :: "(string \<times> nat) list"
  ad_byVersion :: "(string \<times> string \<times> nat) list"
  ad_byFile :: "(string \<times> string \<times> nat) list"

text \<open>A \<open>Date\<close> column is compared with the day of the bound.\<close>

definition recent_daily :: "string \<Rightarrow> int \<Rightarrow> world \<Rightarrow> daily_row list" where
  "recent_daily assetId now w =
     sort_key dd_date (filter (\<lambda>d. dd_assetId d = assetId \<and> day_start (now - 90 * DAY_MS) \<le> dd_date d) (download_daily w))"

definition downloads_by_version :: "string \<Rightarrow> world \<Rightarrow> (string \<times> string \<times> nat) list" where
  "downloads_by_version assetId w =
     ordered_desc (\<lambda>(_, _, n). int n)
       (map (\<lambda>v. (v_id v, v_semver v, count_rows (\<lambda>d. d_versionId d = v_id v) (downloads w)))
         (filter (\<lambda>v. v_assetId v = assetId) (versions w)))"

definition files_of_asset :: "string \<Rightarrow> world \<Rightarrow> file_row list" where
  "files_of_asset assetId w =
     filter (\<lambda>f. case version_by (f_versionId f) w of None \<Rightarrow> False | Some v \<Rightarrow> v_assetId v = assetId) (files w)"

definition downloads_by_file :: "string \<Rightarrow> world \<Rightarrow> (string \<times> string \<times> nat) list" where
  "downloads_by_file assetId w =
     take 50 (ordered_desc (\<lambda>(_, _, n). int n)
       (map (\<lambda>f. (f_id f, f_relPath f, count_rows (\<lambda>d. d_fileId d = Some (f_id f)) (downloads w))) (files_of_asset assetId w)))"

definition asset_analytics :: "int \<Rightarrow> user_row \<Rightarrow> string \<Rightarrow> analytics_detail handler" where
  "asset_analytics now u assetId =
     bnd (fetch (asset_by assetId) (NotFoundDomain ASSET_NOT_FOUND)) (\<lambda>a.
     bnd (check (a_ownerId a = u_id u \<or> u_isAdmin u) (ForbiddenDomain AUTH_FORBIDDEN)) (\<lambda>_.
     bnd (gets (recent_daily assetId now)) (\<lambda>daily.
     gets (\<lambda>w. \<lparr>ad_asset = (a_id a, a_title a), ad_daily = map (\<lambda>d. (dd_date d, dd_count d)) daily,
       ad_byCountry = foldl add_counts [] (map dd_byCountry daily), ad_bySource = foldl add_counts [] (map dd_bySource daily),
       ad_byVersion = downloads_by_version assetId w, ad_byFile = downloads_by_file assetId w\<rparr>))))"

record platform =
  pl_daily :: "(int \<times> nat) list"
  pl_downloads :: nat
  pl_publishes :: nat
  pl_newUsers :: nat
  pl_bySource :: "(string \<times> nat) list"

definition platform_analytics :: "int \<Rightarrow> int \<Rightarrow> world \<Rightarrow> platform" where
  "platform_analytics from_ms to_ms w =
     (let within = (\<lambda>t. from_ms \<le> t \<and> t < to_ms); ds = filter (\<lambda>d. within (d_createdAt d)) (downloads w)
      in \<lparr>pl_daily = day_series (map d_createdAt ds), pl_downloads = length ds,
          pl_publishes = count_rows (\<lambda>a. case a_publishedAt a of None \<Rightarrow> False | Some t \<Rightarrow> within t) (assets w),
          pl_newUsers = count_rows (\<lambda>u. within (u_createdAt u)) (users w),
          pl_bySource = count_by (\<lambda>d. download_source_name (d_source d)) ds\<rparr>)"

definition platform_query :: "int \<Rightarrow> int option \<Rightarrow> int option \<Rightarrow> world \<Rightarrow> platform" where
  "platform_query now from_ms to_ms = platform_analytics (or_else from_ms (now - 30 * DAY_MS)) (or_else to_ms now)"

datatype board_sort = ByDownloads | BySaves | By7d | By30d

fun board_key :: "board_sort \<Rightarrow> stats_row \<Rightarrow> nat" where
  "board_key ByDownloads = ast_totalDownloads"
| "board_key BySaves = ast_totalSaves"
| "board_key By7d = ast_last7d"
| "board_key By30d = ast_last30d"

text \<open>The row, the title of its asset and the name of the owner.\<close>

definition board_row :: "world \<Rightarrow> stats_row \<Rightarrow> stats_row \<times> string \<times> string" where
  "board_row w s =
     (case asset_by (ast_assetId s) w of
        None \<Rightarrow> (s, [], [])
      | Some a \<Rightarrow> (s, a_title a, case user_by (a_ownerId a) w of None \<Rightarrow> [] | Some u \<Rightarrow> u_name u))"

definition asset_leaderboard :: "board_sort \<Rightarrow> int option \<Rightarrow> world \<Rightarrow> (stats_row \<times> string \<times> string) list" where
  "asset_leaderboard srt limit w =
     map (board_row w) (take (clamp_limit 25 limit) (ordered_desc (\<lambda>s. int (board_key srt s)) (asset_stats w)))"

definition owner_totals :: "world \<Rightarrow> (string \<times> nat \<times> nat) list" where
  "owner_totals w =
     (let published = filter (\<lambda>a. a_status a = PUBLISHED) (assets w);
          total = (\<lambda>a. case find_row ast_assetId (a_id a) (asset_stats w) of None \<Rightarrow> 0 | Some s \<Rightarrow> ast_totalDownloads s)
      in map (\<lambda>o'. (o', count_rows (\<lambda>a. a_ownerId a = o') published,
               sum_list (map total (filter (\<lambda>a. a_ownerId a = o') published)))) (remdups (map a_ownerId published)))"

definition user_leaderboard :: "int option \<Rightarrow> world \<Rightarrow> (string \<times> (string \<times> string) option \<times> nat \<times> nat) list" where
  "user_leaderboard limit w =
     map (\<lambda>(o', n, total). (o', map_option (\<lambda>u. (u_name u, u_email u)) (user_by o' w), n, total))
       (take (clamp_limit 25 limit) (ordered_desc (\<lambda>(_, _, total). int total) (owner_totals w)))"

subsection \<open>AdminStorageController\<close>

text \<open>\<open>raw\<close> is the parsed date parameter: absent, unparsable or a time.\<close>

definition resolve_date :: "int option option \<Rightarrow> int list \<Rightarrow> int option" where
  "resolve_date raw dates = (case raw of Some t \<Rightarrow> map_option day_start t | None \<Rightarrow> latest_date dates)"

definition storage_users ::
  "int option option \<Rightarrow> int option \<Rightarrow> world \<Rightarrow> int option \<times> (storage_user_row \<times> (string \<times> string) option) list" where
  "storage_users raw limit w =
     (case resolve_date raw (map su_date (storage_user_daily w)) of
        None \<Rightarrow> (None, [])
      | Some d \<Rightarrow>
          (Some d, map (\<lambda>r. (r, map_option (\<lambda>u. (u_email u, u_name u)) (user_by (su_userId r) w)))
             (take (clamp_limit 50 limit) (ordered_desc su_bytes (filter (\<lambda>r. su_date r = d) (storage_user_daily w))))))"

definition storage_assets ::
  "int option option \<Rightarrow> int option \<Rightarrow> world \<Rightarrow> int option \<times> (storage_asset_row \<times> asset_row option) list" where
  "storage_assets raw limit w =
     (case resolve_date raw (map sa_date (storage_asset_daily w)) of
        None \<Rightarrow> (None, [])
      | Some d \<Rightarrow>
          (Some d, map (\<lambda>r. (r, asset_by (sa_assetId r) w))
             (take (clamp_limit 50 limit) (ordered_desc sa_bytes (filter (\<lambda>r. sa_date r = d) (storage_asset_daily w))))))"

subsection \<open>WebhookDeliveriesController\<close>

datatype delivery_status = Succeeded | Failed | Queued

record delivery_query =
  dq_status :: "delivery_status option"
  dq_type :: "string option"
  dq_cursor :: "string option"
  dq_limit :: "int option"

record delivery_dto =
  dl_id :: string
  dl_type :: string
  dl_status :: delivery_status
  dl_recipient :: string
  dl_attempt :: nat
  dl_requestBody :: json
  dl_responseStatus :: "int option"
  dl_excerpt :: "string option"
  dl_createdAt :: string

definition delivery_status_of :: "delivery_row \<Rightarrow> delivery_status" where
  "delivery_status_of r = (if wd_success r then Succeeded else Failed)"

text \<open>The log stores a body with every row, so \<open>responseBody ?? error ?? null\<close> is that body.\<close>

definition delivery_dto_of :: "delivery_row \<Rightarrow> delivery_dto" where
  "delivery_dto_of r =
     \<lparr>dl_id = wd_deliveryId r @ ''#'' @ show_nat (wd_attempt r), dl_type = notification_type_name (wd_event r),
      dl_status = delivery_status_of r,
      dl_recipient = (case str_prop (wd_envelope r) ''url'' of Some u \<Rightarrow> u | None \<Rightarrow> or_else (str_prop (wd_envelope r) ''target'') []),
      dl_attempt = wd_attempt r, dl_requestBody = wd_envelope r, dl_responseStatus = wd_httpStatus r,
      dl_excerpt = Some (wd_responseBody r), dl_createdAt = iso_string (wd_createdAt r)\<rparr>"

definition parse_delivery_cursor :: "(string \<Rightarrow> int option) \<Rightarrow> string option \<Rightarrow> int option" where
  "parse_delivery_cursor date_parse c =
     (case truthy_opt c of None \<Rightarrow> None | Some s \<Rightarrow> date_parse (from_base64url s))"

definition delivery_where :: "(string \<Rightarrow> int option) \<Rightarrow> delivery_query \<Rightarrow> delivery_row \<Rightarrow> bool" where
  "delivery_where date_parse q r \<longleftrightarrow>
     (case dq_status q of None \<Rightarrow> True | Some s \<Rightarrow> delivery_status_of r = s) \<and>
     (case truthy_opt (dq_type q) of None \<Rightarrow> True | Some t \<Rightarrow> notification_type_name (wd_event r) = t) \<and>
     (case parse_delivery_cursor date_parse (dq_cursor q) of None \<Rightarrow> True | Some t \<Rightarrow> wd_createdAt r < t)"

record delivery_page =
  dp_items :: "delivery_dto list"
  dp_hasMore :: bool
  dp_nextCursor :: "string option"

text \<open>The rows fetched, one more than the page shows.\<close>

definition delivery_rows :: "(string \<Rightarrow> int option) \<Rightarrow> delivery_query \<Rightarrow> world \<Rightarrow> delivery_row list" where
  "delivery_rows date_parse q w =
     take (clamp_limit 50 (dq_limit q) + 1) (ordered_desc wd_createdAt (filter (delivery_where date_parse q) (deliveries w)))"

definition list_deliveries :: "(string \<Rightarrow> int option) \<Rightarrow> delivery_query \<Rightarrow> world \<Rightarrow> delivery_page" where
  "list_deliveries date_parse q w =
     (let rows = delivery_rows date_parse q w; items = take (clamp_limit 50 (dq_limit q)) rows;
          more = clamp_limit 50 (dq_limit q) < length rows
      in \<lparr>dp_items = map delivery_dto_of items, dp_hasMore = more,
          dp_nextCursor = (if more \<and> items \<noteq> [] then Some (to_base64url (iso_string (wd_createdAt (last items)))) else None)\<rparr>)"

subsection \<open>The series add up\<close>

lemma count_classes: "sum_list (map (\<lambda>k. count_rows (\<lambda>r. f r = k) rows) (remdups (map f rows))) = length rows"
proof -
  have c: "count_rows (\<lambda>r. f r = k) rows = count (mset (map f rows)) k" for k
    by (induction rows) auto
  have "sum_list (map (\<lambda>k. count_rows (\<lambda>r. f r = k) rows) (remdups (map f rows))) =
      (\<Sum>k \<in> set_mset (mset (map f rows)). count (mset (map f rows)) k)"
    by (simp add: c sum_list_distinct_conv_sum_set)
  also have "\<dots> = size (mset (map f rows))" by (rule size_multiset_overloaded_eq [symmetric])
  finally show ?thesis by simp
qed

lemma day_series_total: "sum_list (map snd (day_series ts)) = length ts"
proof -
  have "mset (map snd (day_series ts)) =
      mset (map (\<lambda>d. count_rows (\<lambda>t. day_start t = d) ts) (remdups (map day_start ts)))"
    by (simp add: day_series_def comp_def)
  then have "sum_list (map snd (day_series ts)) = sum_list (map (\<lambda>d. count_rows (\<lambda>t. day_start t = d) ts) (remdups (map day_start ts)))"
    by (metis sum_mset_sum_list)
  then show ?thesis by (simp add: count_classes)
qed

lemma count_by_total: "sum_list (map snd (count_by f rows)) = length rows"
  by (simp add: count_by_def comp_def count_classes)

text \<open>
  On the platform page the downloads of the days, in ascending order without repetition, and those of the sources each
  add up to the total, whatever the range.
\<close>

theorem platform_adds_up:
  "sum_list (map snd (pl_daily (platform_analytics from_ms to_ms w))) = pl_downloads (platform_analytics from_ms to_ms w) \<and>
   sum_list (map snd (pl_bySource (platform_analytics from_ms to_ms w))) = pl_downloads (platform_analytics from_ms to_ms w) \<and>
   sorted_wrt (<) (map fst (pl_daily (platform_analytics from_ms to_ms w)))"
proof -
  have "sorted_wrt (<) (map fst (day_series ts))" for ts
    by (simp add: day_series_def comp_def strict_sorted_iff)
  then show ?thesis by (simp add: platform_analytics_def Let_def day_series_total count_by_total)
qed

subsection \<open>The dashboard is at most half a minute old\<close>

lemma dashboard_plain: "js_plain (dashboard_payload now w)"
proof -
  have "js_plain x" if "top_asset_json w r = Some x" for r x using that by (auto simp: top_asset_json_def)
  then have "js_plain (load_top_assets now w)" by (auto simp: load_top_assets_def map_filter_def)
  moreover have "js_plain (load_recent_audit w)"
    by (auto simp: load_recent_audit_def audit_json_def null_or_def split: option.splits)
  moreover have "js_plain (series_json s)" for s by (auto simp: series_json_def)
  then have "js_plain (load_charts now w)" by (simp add: load_charts_def Let_def)
  moreover have "js_plain (load_counts now w)" by (simp add: load_counts_def Let_def)
  moreover have "js_plain (load_storage w)" by (simp add: load_storage_def Let_def)
  ultimately show ?thesis by (simp add: dashboard_payload_def)
qed

lemma dashboard_text_nonempty: "json_text (dashboard_payload now w) \<noteq> []"
  by (simp add: dashboard_payload_def)

text \<open>
  A dashboard computed when the cache is empty shows the state of that moment; every reading of the next thirty seconds
  shows the same, whatever the database has become, and the first one after that is computed anew.
\<close>

theorem dashboard_half_minute_old:
  assumes "redis_get now CACHE_KEY (redis w) = None" and "dashboard_get True now w = (Inr v, w')"
    and "redis u = redis w'"
  shows "v = dashboard_payload now w \<and>
     (if t < now + 30000 then dashboard_get True t u = (Inr v, u)
      else fst (dashboard_get True t u) = Inr (dashboard_payload t u))"
proof -
  let ?p = "dashboard_payload now w"
  have v: "v = ?p" and w': "redis w' = redis_set_ex now CACHE_KEY (json_text ?p) CACHE_TTL_SECONDS (redis w)"
    using assms(1,2) by (auto simp: dashboard_get_def act_simps truthy_opt_def truthy_str_def)
  show ?thesis
    using assms(3) json_parse_text [OF dashboard_plain] dashboard_text_nonempty
    by (simp add: v dashboard_get_def act_simps w' truthy_opt_def truthy_str_def CACHE_TTL_SECONDS_def)
qed

theorem dashboard_half_minute_old_witness:
  "dashboard_get True 5000 (snd (dashboard_get True 0 draft_world)) =
     (Inr (dashboard_payload 0 draft_world), snd (dashboard_get True 0 draft_world))"
proof -
  have none: "redis_get 0 CACHE_KEY (redis draft_world) = None" by (simp add: draft_world_def redis_get_def)
  then obtain w' where run: "dashboard_get True 0 draft_world = (Inr (dashboard_payload 0 draft_world), w')"
    by (simp add: dashboard_get_def act_simps truthy_opt_def truthy_str_def)
  show ?thesis using dashboard_half_minute_old [OF none run refl, of 5000] by (simp add: run)
qed

subsection \<open>The delivery log\<close>

lemma iso_string_nonempty: "iso_string t \<noteq> []"
  by (simp add: iso_string_def Let_def split: prod.split)

lemma delivery_rows_before:
  assumes "parse_delivery_cursor dp (dq_cursor q) = Some t" and "r \<in> set (delivery_rows dp q w)"
  shows "wd_createdAt r < t"
  using assms by (auto simp: delivery_rows_def ordered_desc_def delivery_where_def dest!: in_set_takeD)

text \<open>
  The cursor of a page of the delivery log is the instant of its last row, and no later page shows any row of that
  instant: those that did not fit on the page are skipped.
\<close>

theorem deliveries_of_an_instant_lost:
  assumes "dp_nextCursor (list_deliveries dp q w) = Some c"
    and "wd_createdAt (last (take (clamp_limit 50 (dq_limit q)) (delivery_rows dp q w))) = t"
    and "dp (iso_string t) = Some t" and "wd_createdAt r = t"
  shows "r \<notin> set (delivery_rows dp (q'\<lparr>dq_cursor := Some c\<rparr>) w)"
proof
  assume r: "r \<in> set (delivery_rows dp (q'\<lparr>dq_cursor := Some c\<rparr>) w)"
  have c: "c = to_base64url (iso_string t)"
    using assms(1,2) by (auto simp: list_deliveries_def Let_def split: if_splits)
  have "parse_delivery_cursor dp (dq_cursor (q'\<lparr>dq_cursor := Some c\<rparr>)) = Some t"
    using assms(3) by (simp add: parse_delivery_cursor_def truthy_opt_def truthy_str_def c iso_string_nonempty)
  from delivery_rows_before [OF this r] assms(4) show False by simp
qed

text \<open>
  Of an attempt that the webhook worker logged, the log view shows no recipient, since the envelope has neither of the
  two fields it looks for, and the stored body as excerpt: the message of an attempt that got no answer is never shown.
\<close>

theorem logged_delivery_view:
  "dl_recipient (delivery_dto_of (delivery_of env now i attempt j)) = [] \<and>
   dl_status (delivery_dto_of (delivery_of env now i attempt j)) = (if wd_error (delivery_of env now i attempt j) = None then Succeeded else Failed) \<and>
   dl_excerpt (delivery_dto_of (delivery_of env now i attempt j)) = Some (wd_responseBody (delivery_of env now i attempt j))"
proof -
  have "get_prop (webhook_envelope k now j) ''url'' = None \<and> get_prop (webhook_envelope k now j) ''target'' = None" for k
    by (auto simp: webhook_envelope_def ref_field_def split: option.splits)
  moreover have "wd_envelope (delivery_of env now i attempt j) = webhook_envelope i now j"
    by (simp add: delivery_of_def Let_def split: sum.splits prod.splits)
  moreover have "wd_success (delivery_of env now i attempt j) \<longleftrightarrow> wd_error (delivery_of env now i attempt j) = None"
    by (simp add: delivery_of_def Let_def split: sum.splits prod.splits)
  ultimately show ?thesis
    by (simp add: delivery_dto_of_def delivery_status_of_def str_prop_def or_else_def)
qed

definition delivery0 :: delivery_row where
  "delivery0 = \<lparr>wd_deliveryId = ''wh_0'', wd_event = COMMENT_CREATED, wd_success = True, wd_attempt = 1, wd_httpStatus = Some 200,
     wd_responseBody = [], wd_envelope = JObj [], wd_error = None, wd_createdAt = 0\<rparr>"

definition delivery_world :: world where
  "delivery_world = draft_world\<lparr>deliveries := [delivery0, delivery0\<lparr>wd_deliveryId := ''wh_1''\<rparr>]\<rparr>"

text \<open>Two deliveries of one instant and a page of one: the second one is on no page.\<close>

theorem deliveries_of_an_instant_lost_witness:
  "delivery0\<lparr>wd_deliveryId := ''wh_1''\<rparr> \<in> set (deliveries delivery_world) \<and>
   map dl_id (dp_items (list_deliveries (\<lambda>_. Some 0) \<lparr>dq_status = None, dq_type = None, dq_cursor = None, dq_limit = Some 1\<rparr> delivery_world)) =
     [''wh_0#1''] \<and>
   delivery0\<lparr>wd_deliveryId := ''wh_1''\<rparr> \<notin> set (delivery_rows (\<lambda>_. Some 0)
     \<lparr>dq_status = None, dq_type = None, dq_cursor = Some (to_base64url (iso_string 0)), dq_limit = Some 1\<rparr> delivery_world)"
proof -
  let ?q = "\<lparr>dq_status = None, dq_type = None, dq_cursor = None, dq_limit = Some 1\<rparr>"
  have rows: "delivery_rows (\<lambda>_. Some 0) ?q delivery_world = [delivery0, delivery0\<lparr>wd_deliveryId := ''wh_1''\<rparr>]"
    by (simp add: delivery_rows_def delivery_world_def delivery_where_def ordered_desc_def parse_delivery_cursor_def truthy_opt_def
        truthy_str_def clamp_limit_def or_else_def delivery0_def)
  have next': "dp_nextCursor (list_deliveries (\<lambda>_. Some 0) ?q delivery_world) = Some (to_base64url (iso_string 0))"
    by (simp add: list_deliveries_def rows clamp_limit_def or_else_def delivery0_def)
  have "wd_createdAt (last (take (clamp_limit 50 (dq_limit ?q)) (delivery_rows (\<lambda>_. Some 0) ?q delivery_world))) = 0"
    by (simp add: rows clamp_limit_def or_else_def delivery0_def)
  from deliveries_of_an_instant_lost [OF next' this, of "delivery0\<lparr>wd_deliveryId := ''wh_1''\<rparr>" ?q]
  have "delivery0\<lparr>wd_deliveryId := ''wh_1''\<rparr> \<notin> set (delivery_rows (\<lambda>_. Some 0)
     \<lparr>dq_status = None, dq_type = None, dq_cursor = Some (to_base64url (iso_string 0)), dq_limit = Some 1\<rparr> delivery_world)"
    by (simp add: delivery0_def)
  moreover have one: "show_nat 1 = ''1''" by code_simp
  moreover have "map dl_id (dp_items (list_deliveries (\<lambda>_. Some 0) ?q delivery_world)) = [''wh_0#1'']"
    using one by (simp add: list_deliveries_def rows clamp_limit_def or_else_def delivery_dto_of_def delivery0_def)
  ultimately show ?thesis by (simp add: delivery_world_def)
qed

end
