(* ===== verification/Search.thy ===== *)
theory Search
  imports Mapper
begin

section \<open>The search index\<close>

text \<open>
  \<open>src/modules/jobs/processors/search/\<close> and \<open>src/modules/search/search.service.ts\<close>: a job marks an asset dirty, a
  periodic batch drains the marks and rebuilds the documents of those assets, one per translation, and the service
  compiles a query and reads the hits.  Meilisearch, whose calls may fail, is a parameter (\<open>mi_add\<close>, \<open>mi_delete\<close>,
  \<open>mi_search\<close>); a call that adds or deletes documents queues a task in \<open>search_tasks\<close>, and what a task does to the
  indexes when the engine runs it is a parameter of the theorem on the batch.
\<close>

fun file_kind_name :: "file_kind \<Rightarrow> string" where
  "file_kind_name UNITYPACKAGE = ''UNITYPACKAGE''"
| "file_kind_name UPLUGIN = ''UPLUGIN''"
| "file_kind_name UPROJECT = ''UPROJECT''"
| "file_kind_name FBX = ''FBX''"
| "file_kind_name OBJ = ''OBJ''"
| "file_kind_name GLB = ''GLB''"
| "file_kind_name GLTF = ''GLTF''"
| "file_kind_name BLEND = ''BLEND''"
| "file_kind_name MAYA = ''MAYA''"
| "file_kind_name TEXTURE_2D = ''TEXTURE_2D''"
| "file_kind_name SPRITE = ''SPRITE''"
| "file_kind_name AUDIO = ''AUDIO''"
| "file_kind_name VIDEO = ''VIDEO''"
| "file_kind_name ANIMATION = ''ANIMATION''"
| "file_kind_name SHADER = ''SHADER''"
| "file_kind_name SCRIPT_CS = ''SCRIPT_CS''"
| "file_kind_name SCRIPT_CPP = ''SCRIPT_CPP''"
| "file_kind_name SCRIPT_PY = ''SCRIPT_PY''"
| "file_kind_name DOCUMENT = ''DOCUMENT''"
| "file_kind_name ARCHIVE = ''ARCHIVE''"
| "file_kind_name OTHER_KIND = ''OTHER''"

record meili =
  mi_add :: "(string \<times> json) list \<Rightarrow> app_error + unit"
  mi_delete :: "string list \<Rightarrow> app_error + unit"
  mi_search :: "string \<Rightarrow> int \<Rightarrow> int \<Rightarrow> string list \<Rightarrow> app_error + json list"

subsection \<open>Marking\<close>

definition mark_dirty :: "string \<Rightarrow> unit handler" where
  "mark_dirty assetId = upd (dirty_update (\<lambda>d. if assetId \<in> set d then d else d @ [assetId]))"

subsection \<open>The documents of an asset\<close>

definition strs :: "string list \<Rightarrow> json" where
  "strs xs = JArr (map JStr xs)"

text \<open>The version shown: by publication, newest first; unpublished ones count as the epoch.\<close>

definition latest_published :: "asset_row \<Rightarrow> world \<Rightarrow> version_row option" where
  "latest_published a w =
     (case sort_key (\<lambda>v. - or_else (v_publishedAt v) 0) (filter (\<lambda>v. v_assetId v = a_id a) (versions w)) of
        [] \<Rightarrow> None | v # _ \<Rightarrow> Some v)"

definition compat_values :: "(compat_row \<Rightarrow> string list) \<Rightarrow> version_row option \<Rightarrow> world \<Rightarrow> string list" where
  "compat_values f v w =
     (case v of None \<Rightarrow> [] | Some v \<Rightarrow> uniq (concat (map f (filter (\<lambda>c. ec_versionId c = v_id v) (compats w)))))"

definition file_kinds_of :: "version_row option \<Rightarrow> world \<Rightarrow> string list" where
  "file_kinds_of v w = (case v of None \<Rightarrow> [] | Some v \<Rightarrow> uniq (map (file_kind_name \<circ> f_kind) (asset_files (v_id v) w)))"

definition tags_of_asset :: "asset_row \<Rightarrow> world \<Rightarrow> tag_row list" where
  "tags_of_asset a w = List.map_filter (\<lambda>x. tag_by (at_tagId x) w) (filter (\<lambda>x. at_assetId x = a_id a) (asset_tags w))"

definition pick_json_localized :: "json \<Rightarrow> locale_code \<Rightarrow> string option" where
  "pick_json_localized v loc =
     (case v of
        JObj fs \<Rightarrow>
          (case (case map_of fs (locale_name loc) of None \<Rightarrow> map_of fs ''en'' | Some JNull \<Rightarrow> map_of fs ''en'' | Some x \<Rightarrow> Some x) of
             Some (JStr s) \<Rightarrow> Some s | _ \<Rightarrow> None)
      | _ \<Rightarrow> None)"

definition doc_id :: "string \<Rightarrow> locale_code \<Rightarrow> string" where
  "doc_id assetId loc = assetId @ '':'' @ locale_name loc"

definition base_doc :: "asset_row \<Rightarrow> string \<Rightarrow> world \<Rightarrow> (string \<times> json) list" where
  "base_doc a thumbnailUrl w =
     (let latest = latest_published a w; ts = tags_of_asset a w; cat = category_by (a_categoryId a) w;
          stats = find_row ast_assetId (a_id a) (asset_stats w)
      in [(''assetId'', JStr (a_id a)), (''slug'', JStr (a_slug a)), (''title'', JStr (a_title a)),
          (''tags'', strs (map t_slug ts)), (''tagsDisplay'', strs (map t_name ts)),
          (''engine'', JStr (asset_engine_name (a_engine a))), (''categoryId'', JStr (a_categoryId a)),
          (''categorySlug'', JStr (case cat of None \<Rightarrow> [] | Some c \<Rightarrow> c_slug c)), (''licenseId'', JStr (a_licenseId a)),
          (''licenseSlug'', JStr (case license_by (a_licenseId a) w of None \<Rightarrow> [] | Some l \<Rightarrow> l_slug l)),
          (''ownerId'', JStr (a_ownerId a)),
          (''ownerDisplayName'', JStr (case user_by (a_ownerId a) w of None \<Rightarrow> [] | Some u \<Rightarrow> u_name u)),
          (''renderPipelines'', strs (compat_values ec_pipelines latest w)),
          (''targets'', strs (compat_values ec_targets latest w)), (''fileKinds'', strs (file_kinds_of latest w)),
          (''publishedAt'', JNum (or_else (a_publishedAt a) 0 div 1000)), (''createdAt'', JNum (a_createdAt a div 1000)),
          (''updatedAt'', JNum (a_updatedAt a div 1000)),
          (''totalDownloads'', JNum (case stats of None \<Rightarrow> 0 | Some s \<Rightarrow> int (ast_totalDownloads s))),
          (''totalSaves'', JNum (case stats of None \<Rightarrow> 0 | Some s \<Rightarrow> int (ast_totalSaves s))),
          (''thumbnailUrl'', JStr thumbnailUrl), (''status'', JStr (asset_status_name (a_status a)))])"

definition translation_doc :: "asset_row \<Rightarrow> (string \<times> json) list \<Rightarrow> world \<Rightarrow> translation_row \<Rightarrow> string \<times> json" where
  "translation_doc a base w t =
     (doc_id (a_id a) (tr_locale t),
      JObj ([(''id'', JStr (doc_id (a_id a) (tr_locale t))), (''locale'', JStr (locale_name (tr_locale t))),
             (''categoryName'', JStr (case category_by (a_categoryId a) w of None \<Rightarrow> []
                | Some c \<Rightarrow> or_else (pick_json_localized (c_name c) (tr_locale t)) (c_slug c))),
             (''shortDescription'', JStr (tr_short t))] @ base))"

definition translations_of :: "string \<Rightarrow> world \<Rightarrow> translation_row list" where
  "translations_of assetId w = filter (\<lambda>t. tr_assetId t = assetId) (asset_texts w)"

definition build_docs :: "s3_config \<Rightarrow> s3_client \<Rightarrow> string \<Rightarrow> world \<Rightarrow> app_error + (string \<times> json) list" where
  "build_docs cfg c assetId w =
     (case asset_by assetId w of
        None \<Rightarrow> Inr []
      | Some a \<Rightarrow>
          if a_status a \<noteq> PUBLISHED then Inr []
          else
            sum_bind (case truthy_opt (a_thumbnailKey a) of None \<Rightarrow> Inr [] | Some k \<Rightarrow> presign_get cfg c ThumbsBucket k) (\<lambda>url.
            Inr (map (translation_doc a (base_doc a url w) w) (translations_of assetId w))))"

subsection \<open>The batch\<close>

definition add_documents :: "meili \<Rightarrow> (string \<times> json) list \<Rightarrow> unit handler" where
  "add_documents m docs =
     (if docs = [] then ret ()
      else bnd (from_sum (mi_add m docs)) (\<lambda>_. upd (search_tasks_update (\<lambda>ts. ts @ [AddDocuments ''assets'' docs]))))"

definition remove_documents :: "meili \<Rightarrow> string list \<Rightarrow> unit handler" where
  "remove_documents m ids = (if ids = [] then ret () else delete_documents (mi_delete m) ids)"

definition tag_usage_doc :: "world \<Rightarrow> usage_row \<Rightarrow> string \<times> json" where
  "tag_usage_doc w r =
     (tu_tagId r,
      JObj [(''id'', JStr (tu_tagId r)), (''slug'', JStr (case tag_by (tu_tagId r) w of None \<Rightarrow> [] | Some t \<Rightarrow> t_slug t)),
            (''displayName'', JStr (case tag_by (tu_tagId r) w of None \<Rightarrow> [] | Some t \<Rightarrow> t_name t)),
            (''usageCount'', JNum (int (tu_count r)))])"

definition mirror_tag_usage :: "meili \<Rightarrow> unit handler" where
  "mirror_tag_usage m =
     bnd (gets (\<lambda>w. map (tag_usage_doc w) (take 5000 (order_desc tu_count (tag_usage w))))) (\<lambda>docs.
     if docs = [] then ret ()
     else bnd (from_sum (mi_add m docs)) (\<lambda>_. upd (search_tasks_update (\<lambda>ts. ts @ [AddDocuments ''tags'' docs]))))"

text \<open>Of every dirty asset, its documents; an asset without any has both of its ids removed.\<close>

definition removed_ids :: "(string \<times> (string \<times> json) list) list \<Rightarrow> string list" where
  "removed_ids built = concat (map (\<lambda>(i, docs). if docs = [] then asset_doc_ids i else []) built)"

definition process_batch :: "s3_config \<Rightarrow> s3_client \<Rightarrow> meili \<Rightarrow> unit handler" where
  "process_batch cfg c m =
     bnd (gets dirty) (\<lambda>ids.
     if ids = [] then ret ()
     else
       bnd (upd (dirty_update (\<lambda>_. []))) (\<lambda>_.
       bnd (gets (\<lambda>w. map_sum (\<lambda>i. sum_bind (build_docs cfg c i w) (\<lambda>docs. Inr (i, docs))) ids)) (\<lambda>r.
       bnd (from_sum r) (\<lambda>built.
       bnd (add_documents m (concat (map snd built))) (\<lambda>_.
       bnd (remove_documents m (removed_ids built)) (\<lambda>_.
       mirror_tag_usage m))))))"

subsection \<open>Searching\<close>

record search_query =
  sq_q :: string
  sq_engine :: "string option"
  sq_categoryIds :: "string list option"
  sq_tags :: "string list option"
  sq_fileKinds :: "string list option"
  sq_renderPipelines :: "string list option"
  sq_targets :: "string list option"
  sq_licenseSlug :: "string option"
  sq_limit :: "int option"
  sq_offset :: "int option"
  sq_locale :: "locale_code option"

definition quoted :: "string \<Rightarrow> string" where
  "quoted s = quote_char # s @ [quote_char]"

definition eq_clause :: "string \<Rightarrow> string option \<Rightarrow> string list" where
  "eq_clause field v = (case truthy_opt v of None \<Rightarrow> [] | Some s \<Rightarrow> [field @ '' = '' @ quoted s])"

definition in_clause :: "string \<Rightarrow> string list option \<Rightarrow> string list" where
  "in_clause field v =
     (case v of None \<Rightarrow> [] | Some [] \<Rightarrow> [] | Some vs \<Rightarrow> [field @ '' IN ['' @ join_with '','' (map quoted vs) @ '']''])"

definition build_filter :: "search_query \<Rightarrow> string list" where
  "build_filter q =
     eq_clause ''engine'' (sq_engine q) @ eq_clause ''licenseSlug'' (sq_licenseSlug q) @
     in_clause ''categoryId'' (sq_categoryIds q) @ in_clause ''tags'' (sq_tags q) @ in_clause ''fileKinds'' (sq_fileKinds q) @
     in_clause ''renderPipelines'' (sq_renderPipelines q) @ in_clause ''targets'' (sq_targets q)"

record search_hit =
  sh_id :: string
  sh_slug :: string
  sh_title :: string
  sh_shortDescription :: string
  sh_thumbnailUrl :: "string option"
  sh_engine :: string
  sh_categoryName :: string
  sh_ownerName :: string
  sh_totalDownloads :: "json option"

definition hit_of :: "locale_code \<Rightarrow> (string \<times> string) list \<Rightarrow> json \<Rightarrow> search_hit" where
  "hit_of loc urls h =
     (let txt = (\<lambda>k. or_else (str_prop h k) []); suffix = ''_'' @ locale_name loc
      in \<lparr>sh_id = txt ''id'', sh_slug = txt ''slug'', sh_title = txt ''title'',
          sh_shortDescription = txt (''shortDescription'' @ suffix),
          sh_thumbnailUrl = (case truthy_opt (str_prop h ''thumbnailKey'') of None \<Rightarrow> None | Some k \<Rightarrow> map_of urls k),
          sh_engine = txt ''engine'', sh_categoryName = txt (''categoryName'' @ suffix),
          sh_ownerName = txt ''ownerDisplayName'', sh_totalDownloads = get_prop h ''totalDownloads''\<rparr>)"

definition search_assets :: "s3_config \<Rightarrow> s3_client \<Rightarrow> meili \<Rightarrow> search_query \<Rightarrow> app_error + search_hit list" where
  "search_assets cfg c m q =
     sum_bind (mi_search m (sq_q q) (or_else (sq_limit q) 24) (or_else (sq_offset q) 0) (build_filter q)) (\<lambda>hits.
     sum_bind (presign_get_many cfg c ThumbsBucket (List.map_filter (\<lambda>h. truthy_opt (str_prop h ''thumbnailKey'')) hits)) (\<lambda>urls.
     Inr (map (hit_of (or_else (sq_locale q) LEn) urls) hits)))"

definition search_tags :: "meili \<Rightarrow> string \<Rightarrow> int \<Rightarrow> app_error + json list" where
  "search_tags m q limit =
     (if trim q = [] then Inr []
      else sum_bind (mi_search m q (min (max limit 1) 20) 0 []) (\<lambda>hits.
           Inr (map (\<lambda>h. JObj (List.map_filter (\<lambda>k. map_option (Pair k) (get_prop h k))
             [''id'', ''slug'', ''displayName'', ''usageCount''])) hits)))"

text \<open>The document the service would build, which no caller uses.\<close>

definition latest_created_version :: "asset_row \<Rightarrow> world \<Rightarrow> version_row option" where
  "latest_created_version a w =
     (case order_desc v_createdAt (filter (\<lambda>v. v_assetId v = a_id a) (versions w)) of [] \<Rightarrow> None | v # _ \<Rightarrow> Some v)"

definition localized_field :: "string \<Rightarrow> json option \<Rightarrow> (string \<times> json) list" where
  "localized_field k v = (case v of None \<Rightarrow> [] | Some x \<Rightarrow> [(k, x)])"

definition build_document :: "string \<Rightarrow> world \<Rightarrow> json option" where
  "build_document assetId w =
     (case asset_by assetId w of
        None \<Rightarrow> None
      | Some a \<Rightarrow>
          if a_status a \<noteq> PUBLISHED then None
          else
            (let latest = latest_created_version a w;
                 short = (\<lambda>loc. map_option (JStr \<circ> tr_short) (List.find (\<lambda>t. tr_locale t = loc) (translations_of assetId w)));
                 cname = (\<lambda>loc. case category_by (a_categoryId a) w of None \<Rightarrow> None | Some c \<Rightarrow> resolve_localized (Some (c_name c)) loc)
             in Some (JObj
                  ([(''id'', JStr (a_id a)), (''slug'', JStr (a_slug a)), (''title'', JStr (a_title a))] @
                   localized_field ''shortDescription_en'' (short LEn) @ localized_field ''shortDescription_id'' (short LId) @
                   optional_field ''thumbnailKey'' (a_thumbnailKey a) @
                   [(''engine'', JStr (asset_engine_name (a_engine a))), (''categoryId'', JStr (a_categoryId a))] @
                   localized_field ''categoryName_en'' (cname LEn) @ localized_field ''categoryName_id'' (cname LId) @
                   [(''licenseId'', JStr (a_licenseId a)), (''tags'', strs (map t_slug (tags_of_asset a w))),
                    (''renderPipelines'', strs (compat_values ec_pipelines latest w)),
                    (''targets'', strs (compat_values ec_targets latest w)), (''fileKinds'', strs (file_kinds_of latest w)),
                    (''ownerDisplayName'', JStr (case user_by (a_ownerId a) w of None \<Rightarrow> [] | Some u \<Rightarrow> u_name u)),
                    (''publishedAt'', JNum (or_else (a_publishedAt a) 0)), (''createdAt'', JNum (a_createdAt a)),
                    (''totalDownloads'', JNum (int (count_rows (\<lambda>d. d_assetId d = assetId) (downloads w)))),
                    (''totalSaves'', JNum (int (count_rows (\<lambda>l. li_assetId l = assetId) (library w))))]))))"


subsection \<open>The index follows the database\<close>

lemma doc_id_inj [simp]: "doc_id i l = doc_id j l' \<longleftrightarrow> i = j \<and> l = l'"
  by (cases l; cases l') (auto simp: doc_id_def)

lemma built_ids: "build_docs cfg c i w = Inr docs \<Longrightarrow> d \<in> set docs \<Longrightarrow> \<exists>l. fst d = doc_id i l"
  using asset_byD [of i w]
  by (cases "asset_by i w") (auto simp: build_docs_def sum_bind_eq_Inr translation_doc_def split: if_splits)

lemma built_list:
  assumes "map_sum (\<lambda>i. sum_bind (build_docs cfg c i w) (\<lambda>docs. Inr (i, docs))) ids = Inr built"
  shows "fst ` set built = set ids \<and> (\<forall>j ds. (j, ds) \<in> set built \<longrightarrow> build_docs cfg c j w = Inr ds)"
  using assms
proof (induction ids arbitrary: built)
  case (Cons i ids)
  then obtain docs rest where "build_docs cfg c i w = Inr docs" "built = (i, docs) # rest"
    "map_sum (\<lambda>i. sum_bind (build_docs cfg c i w) (\<lambda>docs. Inr (i, docs))) ids = Inr rest"
    by (auto simp: sum_bind_eq_Inr)
  with Cons.IH [of rest] show ?case by auto
qed simp

definition task_of :: "(string \<Rightarrow> 'a list \<Rightarrow> search_task) \<Rightarrow> string \<Rightarrow> 'a list \<Rightarrow> search_task list" where
  "task_of f x xs = (if xs = [] then [] else [f x xs])"

lemma add_documents_run:
  "add_documents m docs w = (Inr (), w') \<Longrightarrow> w' = search_tasks_update (\<lambda>ts. ts @ task_of AddDocuments ''assets'' docs) w"
  by (cases w) (auto simp: add_documents_def task_of_def act_simps split: if_splits sum.splits)

lemma remove_documents_run:
  "remove_documents m ids w = (Inr (), w') \<Longrightarrow> w' = search_tasks_update (\<lambda>ts. ts @ task_of DeleteDocuments ''assets'' ids) w"
  by (cases w) (auto simp: remove_documents_def delete_documents_def task_of_def act_simps split: if_splits sum.splits)

lemma mirror_run:
  assumes "mirror_tag_usage m w = (Inr (), w')"
  shows "\<exists>docs. w' = search_tasks_update (\<lambda>ts. ts @ task_of AddDocuments ''tags'' docs) w"
proof (cases "map (tag_usage_doc w) (take 5000 (order_desc tu_count (tag_usage w))) = []")
  case True
  with assms have "w' = w" by (simp add: mirror_tag_usage_def bnd_gets)
  moreover have "search_tasks_update (\<lambda>ts. ts @ task_of AddDocuments ''tags'' []) w = w" by (cases w) (simp add: task_of_def)
  ultimately show ?thesis by metis
next
  case False
  define docs where "docs = map (tag_usage_doc w) (take 5000 (order_desc tu_count (tag_usage w)))"
  have "mirror_tag_usage m w = bnd (from_sum (mi_add m docs)) (\<lambda>_. upd (search_tasks_update (\<lambda>ts. ts @ [AddDocuments ''tags'' docs]))) w"
    using False unfolding mirror_tag_usage_def bnd_gets docs_def by (simp only: if_False)
  then have "bnd (from_sum (mi_add m docs)) (\<lambda>_. upd (search_tasks_update (\<lambda>ts. ts @ [AddDocuments ''tags'' docs]))) w = (Inr (), w')"
    using assms by (rule trans [OF sym])
  then have "w' = search_tasks_update (\<lambda>ts. ts @ [AddDocuments ''tags'' docs]) w"
    by (cases "mi_add m docs") (simp_all add: bnd_apply)
  then have "w' = search_tasks_update (\<lambda>ts. ts @ task_of AddDocuments ''tags'' docs) w"
    using False by (simp only: task_of_def docs_def if_False)
  then show ?thesis by blast
qed

lemma mirror_frame: "dirty (snd (mirror_tag_usage m w)) = dirty w"
  by (auto simp: mirror_tag_usage_def bnd_apply split: sum.splits)

lemma add_documents_frame: "dirty (snd (add_documents m docs w)) = dirty w"
  by (auto simp: add_documents_def bnd_apply split: sum.splits)

lemma remove_documents_frame: "dirty (snd (remove_documents m docs w)) = dirty w"
  by (auto simp: remove_documents_def delete_documents_def bnd_apply split: sum.splits)

lemma process_batch_run:
  assumes "process_batch cfg c m w = (Inr (), w')"
  obtains built tags where
    "map_sum (\<lambda>i. sum_bind (build_docs cfg c i w) (\<lambda>docs. Inr (i, docs))) (dirty w) = Inr built"
    "search_tasks w' = search_tasks w @ task_of AddDocuments ''assets'' (concat (map snd built)) @
       task_of DeleteDocuments ''assets'' (removed_ids built) @ task_of AddDocuments ''tags'' tags" "dirty w' = []"
proof (cases "dirty w = []")
  case True
  show thesis
    by (rule that [of "[]" "[]"]) (use assms True in \<open>simp_all add: process_batch_def act_simps task_of_def removed_ids_def\<close>)
next
  case False
  let ?w = "dirty_update (\<lambda>_. []) w"
  have parts: "compat_values f v ?w = compat_values f v w" "file_kinds_of v ?w = file_kinds_of v w"
    "tags_of_asset a ?w = tags_of_asset a w" "latest_published a ?w = latest_published a w"
    "category_by i ?w = category_by i w" "license_by i ?w = license_by i w" "user_by i ?w = user_by i w" for a f v i
    by (cases v; simp add: compat_values_def file_kinds_of_def tags_of_asset_def latest_published_def category_by_def
      license_by_def user_by_def tag_by_def [abs_def] asset_files_def)+
  have base: "base_doc a url ?w = base_doc a url w" for a url
    unfolding base_doc_def parts by simp
  have doc: "translation_doc a b ?w = translation_doc a b w" for a b
    by (rule ext) (simp add: translation_doc_def category_by_def)
  have same: "build_docs cfg c i ?w = build_docs cfg c i w" for i
    by (cases "find_row a_id i (assets w)") (simp_all add: build_docs_def base doc translations_of_def asset_by_def)
  from assms False obtain built where b: "map_sum (\<lambda>i. sum_bind (build_docs cfg c i w) (\<lambda>docs. Inr (i, docs))) (dirty w) = Inr built"
    by (cases "map_sum (\<lambda>i. sum_bind (build_docs cfg c i w) (\<lambda>docs. Inr (i, docs))) (dirty w)")
      (simp_all add: process_batch_def bnd_gets bnd_upd same bnd_apply)
  from assms False b obtain w1 w2 where
    steps: "add_documents m (concat (map snd built)) ?w = (Inr (), w1)" "remove_documents m (removed_ids built) w1 = (Inr (), w2)"
    "mirror_tag_usage m w2 = (Inr (), w')"
    by (simp add: process_batch_def bnd_gets bnd_upd same bnd_eq_Inr_conv) blast
  from mirror_run [OF steps(3)] obtain tags
    where "w' = search_tasks_update (\<lambda>ts. ts @ task_of AddDocuments ''tags'' tags) w2" by blast
  with add_documents_run [OF steps(1)] remove_documents_run [OF steps(2)]
  have w': "w' = search_tasks_update (\<lambda>ts. ((ts @ task_of AddDocuments ''assets'' (concat (map snd built))) @
      task_of DeleteDocuments ''assets'' (removed_ids built)) @ task_of AddDocuments ''tags'' tags) ?w" by simp
  show thesis by (rule that [OF b, of tags]) (simp_all add: w')
qed

text \<open>What Meilisearch documents as the id of a document: letters, digits, hyphens and underscores.\<close>

definition engine_char :: "char \<Rightarrow> bool" where
  "engine_char c \<longleftrightarrow> is_digit c \<or> (65 :: nat) \<le> of_char c \<and> of_char c \<le> (90 :: nat) \<or>
     (97 :: nat) \<le> of_char c \<and> of_char c \<le> (122 :: nat) \<or> c = CHR ''-'' \<or> c = CHR ''_''"

definition engine_id :: "string \<Rightarrow> bool" where
  "engine_id s \<longleftrightarrow> s \<noteq> [] \<and> list_all engine_char s"

lemma doc_id_refused: "\<not> engine_id (doc_id i loc)"
  by (simp add: engine_id_def doc_id_def engine_char_def is_digit_def)

lemma removed_ids_of_built:
  assumes "map_sum (\<lambda>i. sum_bind (build_docs cfg c i w) (\<lambda>docs. Inr (i, docs))) ids = Inr built"
  shows "k \<in> set (removed_ids built) \<longleftrightarrow> (\<exists>i \<in> set ids. build_docs cfg c i w = Inr [] \<and> k \<in> set (asset_doc_ids i))"
proof -
  note bl = built_list [OF assms]
  have "(i, []) \<in> set built \<longleftrightarrow> i \<in> set ids \<and> build_docs cfg c i w = Inr []" for i
  proof
    assume "(i, []) \<in> set built"
    with bl show "i \<in> set ids \<and> build_docs cfg c i w = Inr []" by force
  next
    assume i: "i \<in> set ids \<and> build_docs cfg c i w = Inr []"
    then obtain ds where "(i, ds) \<in> set built" using bl by (metis imageE prod.collapse)
    with bl i show "(i, []) \<in> set built" by (metis Inr_inject)
  qed
  then show ?thesis by (auto simp: removed_ids_def split: if_splits)
qed

text \<open>
  C34: A batch that succeeds leaves no mark and queues, for the index of the assets, one task that adds the documents that
  the database holds for the marked assets, one per translation of a published one, and one that deletes the documents, in
  both languages, of the marked assets that have none; when these tasks run, in an engine that refuses to add documents
  with malformed ids, the documents of the other assets and every document of a marked asset that is still published stay
  as they were: nothing is ever added or updated, since the ids that the worker makes contain a colon.
\<close>

theorem batch_indexes_nothing:
  assumes "process_batch cfg c m w = (Inr (), w')"
    and refused: "\<And>x docs idx. \<not> list_all (engine_id \<circ> fst) docs \<Longrightarrow> engine (AddDocuments x docs) idx = idx"
    and deleted: "\<And>x ids idx. engine (DeleteDocuments x ids) idx = idx(x := filter (\<lambda>d. fst d \<notin> set ids) (idx x))"
    and elsewhere: "\<And>x y docs idx. x \<noteq> y \<Longrightarrow> engine (AddDocuments x docs) idx y = idx y"
  shows "dirty w' = [] \<and>
     (\<exists>ts docs. search_tasks w' = search_tasks w @ ts \<and>
        set docs = \<Union> {set ds |i ds. i \<in> set (dirty w) \<and> build_docs cfg c i w = Inr ds} \<and>
        (docs \<noteq> [] \<longrightarrow> AddDocuments ''assets'' docs \<in> set ts) \<and>
        fold engine ts idx ''assets'' =
          filter (\<lambda>d. \<not> (\<exists>i \<in> set (dirty w). build_docs cfg c i w = Inr [] \<and> fst d \<in> set (asset_doc_ids i))) (idx ''assets''))"
proof -
  from process_batch_run [OF assms(1)] obtain built tags where
    b: "map_sum (\<lambda>i. sum_bind (build_docs cfg c i w) (\<lambda>docs. Inr (i, docs))) (dirty w) = Inr built" and
    ts: "search_tasks w' = search_tasks w @ task_of AddDocuments ''assets'' (concat (map snd built)) @
       task_of DeleteDocuments ''assets'' (removed_ids built) @ task_of AddDocuments ''tags'' tags" and d: "dirty w' = []" .
  note bl = built_list [OF b]
  let ?docs = "concat (map snd built)"
  have docs: "set ?docs = \<Union> {set ds |i ds. i \<in> set (dirty w) \<and> build_docs cfg c i w = Inr ds}"
    using bl by (force simp: image_iff)
  have added: "fold engine (task_of AddDocuments ''assets'' ?docs) idx = idx" for idx
  proof (cases "?docs")
    case (Cons p ps)
    then have "p \<in> set ?docs" by simp
    with docs obtain i ds where "build_docs cfg c i w = Inr ds" "p \<in> set ds" by blast
    from built_ids [OF this] have "\<not> engine_id (fst p)" using doc_id_refused by auto
    with Cons refused [of ?docs] show ?thesis by (simp add: task_of_def)
  qed (simp add: task_of_def)
  have gone: "fold engine (task_of DeleteDocuments ''assets'' ids) idx ''assets'' = filter (\<lambda>d. fst d \<notin> set ids) (idx ''assets'')" for ids idx
    by (simp add: task_of_def deleted)
  have tags: "fold engine (task_of AddDocuments ''tags'' xs) idx ''assets'' = idx ''assets''" for xs idx
    by (simp add: task_of_def elsewhere)
  let ?ts = "task_of AddDocuments ''assets'' ?docs @ task_of DeleteDocuments ''assets'' (removed_ids built) @
      task_of AddDocuments ''tags'' tags"
  have "fold engine ?ts idx ''assets'' = filter (\<lambda>d. fst d \<notin> set (removed_ids built)) (idx ''assets'')"
    by (simp add: tags gone added)
  then have idx: "fold engine ?ts idx ''assets'' =
      filter (\<lambda>d. \<not> (\<exists>i \<in> set (dirty w). build_docs cfg c i w = Inr [] \<and> fst d \<in> set (asset_doc_ids i))) (idx ''assets'')"
    unfolding removed_ids_of_built [OF b] .
  have add: "?docs \<noteq> [] \<longrightarrow> AddDocuments ''assets'' ?docs \<in> set ?ts"
    unfolding task_of_def set_append by (rule impI) (rule UnI1, simp only: if_False list.set, rule insertI1)
  show ?thesis
    by (intro conjI exI [of _ ?ts] exI [of _ ?docs]) (fact d ts docs add idx)+
qed

text \<open>
  A batch that fails has already dropped the marks, so the retry of its job finds nothing to do: the marked assets keep
  their old documents until something else marks them again.
\<close>

theorem failed_batch_loses_marks:
  assumes "process_batch cfg c m w = (Inl e, w')"
  shows "dirty w' = [] \<and> process_batch cfg c' m' w' = (Inr (), w')"
proof -
  have ne: "dirty w \<noteq> []" using assms by (auto simp: process_batch_def act_simps)
  let ?w = "dirty_update (\<lambda>_. []) w"
  have keep: "keeps (\<lambda>s. dirty s = []) (add_documents m docs)" "keeps (\<lambda>s. dirty s = []) (remove_documents m ids)"
    "keeps (\<lambda>s. dirty s = []) (mirror_tag_usage m)" for docs ids
    using add_documents_frame remove_documents_frame mirror_frame by (auto simp: keeps_def)
  let ?rest = "bnd (gets (\<lambda>x. map_sum (\<lambda>i. sum_bind (build_docs cfg c i x) (\<lambda>docs. Inr (i, docs))) (dirty w))) (\<lambda>r.
       bnd (from_sum r) (\<lambda>built.
       bnd (add_documents m (concat (map snd built))) (\<lambda>_.
       bnd (remove_documents m (removed_ids built)) (\<lambda>_. mirror_tag_usage m))))"
  have "keeps (\<lambda>s. dirty s = []) ?rest"
    by (rule keeps_bnd keeps_gets keeps_from_sum keep)+
  moreover have "dirty ?w = []" by simp
  moreover have "?rest ?w = (Inl e, w')" using assms ne by (simp add: process_batch_def bnd_gets bnd_upd)
  ultimately have "dirty w' = []" by (rule keepsD)
  then show ?thesis by (simp add: process_batch_def act_simps)
qed

definition meili_down :: meili where
  "meili_down = \<lparr>mi_add = (\<lambda>_. Inl (OtherError (RemoteFailure ''meili''))), mi_delete = (\<lambda>_. Inl (OtherError (RemoteFailure ''meili''))),
     mi_search = (\<lambda>_ _ _ _. Inl (OtherError (RemoteFailure ''meili'')))\<rparr>"

definition meili_up :: meili where
  "meili_up = \<lparr>mi_add = (\<lambda>_. Inr ()), mi_delete = (\<lambda>_. Inr ()), mi_search = (\<lambda>_ _ _ _. Inr [])\<rparr>"

definition indexed_world :: world where
  "indexed_world = empty_world\<lparr>assets := [asset0\<lparr>a_status := PUBLISHED, a_thumbnailKey := None\<rparr>], dirty := [''a'', ''b''],
     asset_texts := [\<lparr>tr_id = ''x'', tr_assetId = ''a'', tr_locale = LEn, tr_short = ''Trees'', tr_long = JNull, tr_createdAt = 0\<rparr>]\<rparr>"

text \<open>An engine that keeps the documented rules.\<close>

fun engine0 :: "search_task \<Rightarrow> (string \<Rightarrow> (string \<times> json) list) \<Rightarrow> string \<Rightarrow> (string \<times> json) list" where
  "engine0 (AddDocuments x docs) idx =
     (if list_all (engine_id \<circ> fst) docs then idx(x := fold (\<lambda>(i, d). AList.update i d) docs (idx x)) else idx)"
| "engine0 (DeleteDocuments x ids) idx = idx(x := filter (\<lambda>d. fst d \<notin> set ids) (idx x))"
| "engine0 (DeleteIndex x) idx = idx(x := [])"
| "engine0 (CreateIndex x) idx = idx(x := [])"

lemma indexed_world_docs:
  "build_docs cfg0 client0 ''b'' indexed_world = Inr []"
  "\<exists>d. build_docs cfg0 client0 ''a'' indexed_world = Inr [(doc_id ''a'' LEn, d)]"
  by (simp_all add: build_docs_def indexed_world_def asset_by_def asset0_def truthy_opt_def translations_of_def translation_doc_def)

lemma indexed_world_fields: "dirty indexed_world = [''a'', ''b'']" "search_tasks indexed_world = []" "tag_usage indexed_world = []"
  by (simp_all add: indexed_world_def)

text \<open>
  A published asset and a missing one are marked: the batch asks to add the document of the one and to delete those of the
  other, and the index, which held an old document of each, keeps the old one of the published asset.
\<close>

theorem batch_indexes_nothing_witness:
  "\<exists>ts docs. search_tasks (snd (process_batch cfg0 client0 meili_up indexed_world)) = ts \<and> AddDocuments ''assets'' docs \<in> set ts \<and>
     fst ` set docs = {doc_id ''a'' LEn} \<and>
     fold engine0 ts (\<lambda>_. [(doc_id ''a'' LEn, JNull), (doc_id ''b'' LEn, JNull)]) ''assets'' = [(doc_id ''a'' LEn, JNull)]"
proof -
  let ?idx = "\<lambda>_. [(doc_id ''a'' LEn, JNull), (doc_id ''b'' LEn, JNull)]" and ?w = "indexed_world"
  obtain d where a: "build_docs cfg0 client0 ''a'' ?w = Inr [(doc_id ''a'' LEn, d)]" using indexed_world_docs(2) by blast
  note built = a indexed_world_docs(1)
  have same: "build_docs cfg0 client0 i (dirty_update (\<lambda>_. []) ?w) = build_docs cfg0 client0 i ?w" if "i \<in> {''a'', ''b''}" for i
    using that by (auto simp: build_docs_def indexed_world_def asset_by_def asset0_def truthy_opt_def translations_of_def translation_doc_def
        base_doc_def latest_published_def tags_of_asset_def category_by_def license_by_def user_by_def compat_values_def file_kinds_of_def
        sort_key_def)
  obtain w' where run: "process_batch cfg0 client0 meili_up ?w = (Inr (), w')"
    by (auto simp: process_batch_def act_simps indexed_world_fields same built add_documents_def remove_documents_def
        removed_ids_def asset_doc_ids_def delete_documents_def meili_up_def mirror_tag_usage_def order_desc_def)
  have "dirty w' = [] \<and> (\<exists>ts docs. search_tasks w' = search_tasks ?w @ ts \<and>
        set docs = \<Union> {set ds |i ds. i \<in> set (dirty ?w) \<and> build_docs cfg0 client0 i ?w = Inr ds} \<and>
        (docs \<noteq> [] \<longrightarrow> AddDocuments ''assets'' docs \<in> set ts) \<and>
        fold engine0 ts ?idx ''assets'' = filter (\<lambda>d. \<not> (\<exists>i \<in> set (dirty ?w). build_docs cfg0 client0 i ?w = Inr [] \<and>
          fst d \<in> set (asset_doc_ids i))) (?idx ''assets''))"
    by (rule batch_indexes_nothing [OF run]) auto
  then obtain ts docs where ts: "search_tasks w' = ts"
    and docs: "set docs = \<Union> {set ds |i ds. i \<in> set (dirty ?w) \<and> build_docs cfg0 client0 i ?w = Inr ds}"
    and add: "docs \<noteq> [] \<longrightarrow> AddDocuments ''assets'' docs \<in> set ts"
    and idx: "fold engine0 ts ?idx ''assets'' = filter (\<lambda>d. \<not> (\<exists>i \<in> set (dirty ?w). build_docs cfg0 client0 i ?w = Inr [] \<and>
          fst d \<in> set (asset_doc_ids i))) (?idx ''assets'')"
    unfolding indexed_world_fields append_Nil by blast
  have "x \<in> set docs \<longleftrightarrow> x = (doc_id ''a'' LEn, d)" for x
  proof
    assume "x \<in> set docs"
    then obtain i ds where "i \<in> {''a'', ''b''}" "build_docs cfg0 client0 i ?w = Inr ds" "x \<in> set ds"
      unfolding docs indexed_world_fields by auto
    with built show "x = (doc_id ''a'' LEn, d)" by auto
  next
    have "set [(doc_id ''a'' LEn, d)] \<subseteq> set docs" unfolding docs indexed_world_fields
      using a by (intro Union_upper CollectI exI [of _ "''a''"] exI [of _ "[(doc_id ''a'' LEn, d)]"]) simp
    then show "x = (doc_id ''a'' LEn, d) \<Longrightarrow> x \<in> set docs" by simp
  qed
  then have "set docs = {(doc_id ''a'' LEn, d)}" by blast
  moreover from this have "docs \<noteq> []" by auto
  moreover have "fold engine0 ts ?idx ''assets'' = [(doc_id ''a'' LEn, JNull)]"
    unfolding idx by (simp add: indexed_world_fields built doc_id_def asset_doc_ids_def)
  ultimately show ?thesis
    unfolding run snd_conv using ts add by (intro exI [of _ ts] exI [of _ docs]) simp
qed

theorem failed_batch_loses_marks_witness:
  "dirty (snd (process_batch cfg0 client0 meili_down indexed_world)) = []"
proof -
  obtain r w' where run: "process_batch cfg0 client0 meili_down indexed_world = (r, w')" by fastforce
  have "isl (fst (process_batch cfg0 client0 meili_down indexed_world))"
    by (auto simp: process_batch_def act_simps indexed_world_fields build_docs_def asset_by_def add_documents_def remove_documents_def
        removed_ids_def delete_documents_def meili_down_def indexed_world_def asset_doc_ids_def asset0_def truthy_opt_def translations_of_def)
  then obtain e where "process_batch cfg0 client0 meili_down indexed_world = (Inl e, w')"
    using run by (cases r) simp_all
  from failed_batch_loses_marks [OF this, of client0 meili_up] show ?thesis by (simp add: run)
qed

text \<open>The fields of a document.\<close>

definition document_keys :: "string list" where
  "document_keys =
     [''id'', ''locale'', ''categoryName'', ''shortDescription'', ''assetId'', ''slug'', ''title'', ''tags'', ''tagsDisplay'', ''engine'',
      ''categoryId'', ''categorySlug'', ''licenseId'', ''licenseSlug'', ''ownerId'', ''ownerDisplayName'', ''renderPipelines'', ''targets'',
      ''fileKinds'', ''publishedAt'', ''createdAt'', ''updatedAt'', ''totalDownloads'', ''totalSaves'', ''thumbnailUrl'', ''status'']"

lemma document_fields:
  assumes "build_docs cfg c i w = Inr docs" and "(k, d) \<in> set docs"
  shows "get_prop d f \<noteq> None \<longleftrightarrow> f \<in> set document_keys" and "\<exists>l. k = doc_id i l" and "get_prop d ''id'' = Some (JStr k)"
proof -
  obtain a url t where a: "asset_by i w = Some a" and d: "(k, d) = translation_doc a (base_doc a url w) w t"
    using assms by (cases "asset_by i w") (auto simp: build_docs_def sum_bind_eq_Inr split: if_splits)
  have "map fst (base_doc a url w) = drop 4 document_keys" by (simp add: base_doc_def Let_def document_keys_def)
  with d obtain fs where fs: "d = JObj fs" and keys: "map fst fs = take 4 document_keys @ drop 4 document_keys"
    by (simp add: translation_doc_def document_keys_def)
  then have "fst ` set fs = set document_keys" by (metis append_take_drop_id set_map)
  then show "get_prop d f \<noteq> None \<longleftrightarrow> f \<in> set document_keys" by (simp add: fs map_of_eq_None_iff)
  show "\<exists>l. k = doc_id i l" using d asset_byD [OF a] by (auto simp: translation_doc_def)
  show "get_prop d ''id'' = Some (JStr k)" using d by (simp add: translation_doc_def)
qed

text \<open>
  The hits of a search on the documents that the batch writes have neither description nor category nor thumbnail, and
  the id of the document in place of the asset's: the service reads fields that the worker does not write.
\<close>

theorem indexed_hits_are_bare:
  assumes "build_docs cfg c i w = Inr docs" and "(k, d) \<in> set docs"
  shows "sh_shortDescription (hit_of loc urls d) = [] \<and> sh_categoryName (hit_of loc urls d) = [] \<and>
     sh_thumbnailUrl (hit_of loc urls d) = None \<and> sh_id (hit_of loc urls d) = k \<and> sh_id (hit_of loc urls d) \<noteq> i"
proof -
  note doc = document_fields [OF assms]
  have absent: "str_prop d f = None" if "f \<notin> set document_keys" for f
    using doc(1) [of f] that by (simp add: str_prop_def)
  have "''shortDescription_'' @ locale_name loc \<notin> set document_keys" "''categoryName_'' @ locale_name loc \<notin> set document_keys"
    "''thumbnailKey'' \<notin> set document_keys"
    by (cases loc; simp add: document_keys_def)+
  note gone = this [THEN absent]
  have "length (doc_id i l) \<noteq> length i" for l by (simp add: doc_id_def)
  then have "k \<noteq> i" using doc(2) by metis
  with gone doc(3) show ?thesis
    by (simp add: hit_of_def Let_def or_else_def truthy_opt_def truthy_str_def str_prop_def [of d "''id''"])
qed

definition listed_world :: world where
  "listed_world = empty_world\<lparr>assets := [asset0\<lparr>a_status := PUBLISHED, a_thumbnailKey := None\<rparr>],
     asset_texts := [\<lparr>tr_id = ''x'', tr_assetId = ''a'', tr_locale = LEn, tr_short = ''Trees'', tr_long = JNull, tr_createdAt = 0\<rparr>]\<rparr>"

theorem indexed_hits_are_bare_witness:
  "\<exists>docs d. build_docs cfg0 client0 ''a'' listed_world = Inr docs \<and> (doc_id ''a'' LEn, d) \<in> set docs \<and>
     sh_shortDescription (hit_of LEn [] d) = []"
proof -
  obtain docs where b: "build_docs cfg0 client0 ''a'' listed_world = Inr docs"
    by (simp add: build_docs_def listed_world_def asset_by_def asset0_def truthy_opt_def)
  then have "doc_id ''a'' LEn \<in> fst ` set docs"
    by (auto simp: build_docs_def listed_world_def asset_by_def asset0_def truthy_opt_def translations_of_def translation_doc_def)
  then obtain d where d: "(doc_id ''a'' LEn, d) \<in> set docs" by auto
  show ?thesis using b d indexed_hits_are_bare [OF b d, of LEn "[]"] by blast
qed

subsection \<open>The settings of the index\<close>

text \<open>
  Two places tell the index what to search and to filter by: \<open>ensureIndexes\<close> of
  \<open>src/infra/meilisearch/meilisearch.service.ts\<close>, in every process, and then \<open>ensureSettings\<close> of the batch worker, in the
  worker process.  The process that was started last has the last word.
\<close>

record index_settings =
  ix_searchable :: "string list"
  ix_filterable :: "string list"
  ix_sortable :: "string list"

definition service_settings :: index_settings where
  "service_settings =
     \<lparr>ix_searchable = [''title'', ''shortDescription_en'', ''shortDescription_id'', ''tags'', ''ownerDisplayName''],
      ix_filterable = [''engine'', ''categoryId'', ''licenseId'', ''tags'', ''renderPipelines'', ''targets'', ''fileKinds'', ''status''],
      ix_sortable = [''publishedAt'', ''createdAt'', ''totalDownloads'', ''totalSaves'', ''title'']\<rparr>"

definition worker_settings :: index_settings where
  "worker_settings =
     \<lparr>ix_searchable = [''title'', ''shortDescription'', ''tagsDisplay'', ''ownerDisplayName'', ''categoryName''],
      ix_filterable = [''locale'', ''engine'', ''categoryId'', ''categorySlug'', ''licenseSlug'', ''tags'', ''renderPipelines'', ''targets'',
        ''fileKinds'', ''ownerId'', ''status''],
      ix_sortable = [''publishedAt'', ''createdAt'', ''totalDownloads'', ''totalSaves'', ''title'']\<rparr>"

datatype boot = ApiBoot | WorkerBoot

fun boot_settings :: "boot \<Rightarrow> index_settings \<Rightarrow> index_settings" where
  "boot_settings ApiBoot _ = service_settings"
| "boot_settings WorkerBoot _ = worker_settings"

definition settings_after :: "index_settings \<Rightarrow> boot list \<Rightarrow> index_settings" where
  "settings_after s0 bs = fold boot_settings bs s0"

definition clause_field :: "string \<Rightarrow> string" where
  "clause_field cl = takeWhile (\<lambda>c. c \<noteq> CHR '' '') cl"

text \<open>Meilisearch rejects a filter on an attribute that is not filterable.\<close>

definition filter_accepted :: "index_settings \<Rightarrow> search_query \<Rightarrow> bool" where
  "filter_accepted s q = list_all (\<lambda>cl. clause_field cl \<in> set (ix_filterable s)) (build_filter q)"

lemma clause_field_of: "CHR '' '' \<notin> set f \<Longrightarrow> clause_field (f @ CHR '' '' # r) = f"
  unfolding clause_field_def by (induction f) auto

lemma eq_clause_field:
  "CHR '' '' \<notin> set f \<Longrightarrow> list_all (\<lambda>cl. clause_field cl \<in> S) (eq_clause f v) \<longleftrightarrow> (truthy_opt v = None \<or> f \<in> S)"
  by (auto simp: eq_clause_def clause_field_of split: option.splits)

lemma in_clause_field:
  "CHR '' '' \<notin> set f \<Longrightarrow> f \<in> S \<Longrightarrow> list_all (\<lambda>cl. clause_field cl \<in> S) (in_clause f v)"
  by (auto simp: in_clause_def clause_field_of split: option.splits list.splits)

text \<open>
  Whatever was started before, the index accepts every filter of the search service when the worker was started last,
  and when the API was started last exactly those that name no license.
\<close>

theorem filter_accepted_iff:
  "filter_accepted (settings_after s0 (bs @ [b])) q \<longleftrightarrow> (b = WorkerBoot \<or> truthy_opt (sq_licenseSlug q) = None)"
proof -
  define S where "S = set (ix_filterable (settings_after s0 (bs @ [b])))"
  have known: "''engine'' \<in> S" "''categoryId'' \<in> S" "''tags'' \<in> S" "''fileKinds'' \<in> S" "''renderPipelines'' \<in> S" "''targets'' \<in> S"
    by (cases b; simp add: S_def settings_after_def service_settings_def worker_settings_def)+
  have license: "''licenseSlug'' \<in> S \<longleftrightarrow> b = WorkerBoot"
    by (cases b) (simp_all add: S_def settings_after_def service_settings_def worker_settings_def)
  show ?thesis
    unfolding filter_accepted_def S_def [symmetric] build_filter_def
    using known license by (simp add: eq_clause_field in_clause_field disj_commute)
qed

text \<open>
  Of the attributes that the index searches, the documents of the batch have all five when the worker was started
  last; when the API was, they lack the two descriptions, and no text of a description is found.
\<close>

theorem searched_attributes:
  assumes "build_docs cfg c i w = Inr docs" and "(k, d) \<in> set docs"
  shows "filter (\<lambda>f. get_prop d f \<noteq> None) (ix_searchable (settings_after s0 (bs @ [b]))) =
     (case b of WorkerBoot \<Rightarrow> ix_searchable worker_settings | ApiBoot \<Rightarrow> [''title'', ''tags'', ''ownerDisplayName''])"
proof -
  note doc = document_fields(1) [OF assms]
  show ?thesis
    unfolding doc by (cases b) (simp_all add: settings_after_def service_settings_def worker_settings_def document_keys_def)
qed

theorem searched_attributes_witness:
  "\<exists>docs d. build_docs cfg0 client0 ''a'' listed_world = Inr docs \<and> (doc_id ''a'' LEn, d) \<in> set docs \<and>
     filter (\<lambda>f. get_prop d f \<noteq> None) (ix_searchable (settings_after worker_settings ([WorkerBoot] @ [ApiBoot]))) =
       [''title'', ''tags'', ''ownerDisplayName'']"
proof -
  obtain docs where b: "build_docs cfg0 client0 ''a'' listed_world = Inr docs"
    by (simp add: build_docs_def listed_world_def asset_by_def asset0_def truthy_opt_def)
  then have "doc_id ''a'' LEn \<in> fst ` set docs"
    by (auto simp: build_docs_def listed_world_def asset_by_def asset0_def truthy_opt_def translations_of_def translation_doc_def)
  then obtain d where d: "(doc_id ''a'' LEn, d) \<in> set docs" by auto
  have "filter (\<lambda>f. get_prop d f \<noteq> None) (ix_searchable (settings_after worker_settings ([WorkerBoot] @ [ApiBoot]))) =
      [''title'', ''tags'', ''ownerDisplayName'']"
    using searched_attributes [OF b d, of worker_settings "[WorkerBoot]" ApiBoot] by (simp only: boot.case)
  with b d show ?thesis by blast
qed

end
