(* ===== verification/Endpoints.thy ===== *)
theory Endpoints
  imports Pipeline Reports Requests Downloads Featured Insight Search
begin

section \<open>The endpoints for everybody\<close>

text \<open>
  The controllers under \<open>src/modules\<close> that are not behind the admin guard, one definition per method: its guards, from
  top to bottom as in the source, and the call of its service.  What the framework and the services take besides the
  request is gathered in \<open>backend\<close>; ids of new rows, path parameters and bodies are arguments.  The GIF search is in
  \<open>Gifs\<close>, the queue dashboard in \<open>Producer\<close>.
\<close>

record backend =
  be_server :: server
  be_nfkd :: "string \<Rightarrow> nat list"
  be_cfg :: s3_config
  be_s3 :: s3_client
  be_action :: action_env
  be_notify :: notify_env
  be_sha :: "string \<Rightarrow> string"
  be_pepper :: "string option"
  be_meili :: meili
  be_decimal :: "string \<Rightarrow> string"

abbreviation be_now :: "backend \<Rightarrow> int" where "be_now b \<equiv> sv_now (be_server b)"
abbreviation be_up :: "backend \<Rightarrow> bool" where "be_up b \<equiv> sv_up (be_server b)"
abbreviation be_auth :: "backend \<Rightarrow> auth_env" where "be_auth b \<equiv> sv_auth (be_server b)"

definition guarded :: "guard_ref list \<Rightarrow> guard_ref list \<Rightarrow> route" where
  "guarded cs ms = \<lparr>rt_public = False, rt_class = cs, rt_method = ms, rt_audit = None\<rparr>"

definition open_to_all :: "guard_ref list \<Rightarrow> route" where
  "open_to_all ms = \<lparr>rt_public = True, rt_class = [], rt_method = ms, rt_audit = None\<rparr>"

definition with_audit :: "string \<Rightarrow> string \<Rightarrow> (string \<times> string list) option \<Rightarrow> route \<Rightarrow> route" where
  "with_audit action subjectType param r =
     r\<lparr>rt_audit := Some \<lparr>ac_action = action, ac_subjectType = subjectType, ac_subjectParam = param\<rparr>\<rparr>"

definition rate :: "int \<Rightarrow> int \<Rightarrow> rate_limit_scope \<Rightarrow> string \<Rightarrow> guard_ref" where
  "rate win most scope name = RateLimitG \<lparr>rl_windowSec = win, rl_max = most, rl_scope = scope, rl_name = name\<rparr>"

definition locale_of :: "locale_code option \<Rightarrow> identity \<Rightarrow> locale_code" where
  "locale_of loc who = (case loc of Some l \<Rightarrow> l | None \<Rightarrow> (case who of None \<Rightarrow> LEn | Some (u, _) \<Rightarrow> u_locale u))"

definition user_of :: "identity \<Rightarrow> user_row option" where
  "user_of who = map_option fst who"

definition call :: "backend \<Rightarrow> route \<Rightarrow> http_request \<Rightarrow> (identity \<Rightarrow> 'a handler) \<Rightarrow> 'a handler" where
  "call b = serve (be_server b)"

subsection \<open>Assets\<close>

definition assets_discover :: "backend \<Rightarrow> http_request \<Rightarrow> locale_code option \<Rightarrow> json handler" where
  "assets_discover b rq loc =
     call b (guarded [] [OptionalG]) rq (\<lambda>who. get_discover (be_cfg b) (be_s3 b) (be_up b) (be_now b) (locale_of loc who))"

definition assets_list ::
  "backend \<Rightarrow> http_request \<Rightarrow> list_assets_query \<Rightarrow> int option \<Rightarrow> string option \<Rightarrow> asset_row page handler" where
  "assets_list b rq q limit cursor =
     call b (guarded [] [OptionalG]) rq (\<lambda>who. reading (list_from_postgres q (user_of who) limit cursor))"

definition assets_detail :: "backend \<Rightarrow> http_request \<Rightarrow> string \<Rightarrow> locale_code option \<Rightarrow> asset_detail handler" where
  "assets_detail b rq key loc =
     call b (guarded [] [OptionalG]) rq (\<lambda>who. reading (get_detail key (user_of who) (locale_of loc who)))"

definition assets_recommended :: "backend \<Rightarrow> http_request \<Rightarrow> string \<Rightarrow> asset_row list handler" where
  "assets_recommended b rq i = call b (guarded [] [OptionalG]) rq (\<lambda>_. reading (recommended i))"

definition created_json :: "string \<times> string \<Rightarrow> json" where
  "created_json p = JObj [(''id'', JStr (fst p)), (''slug'', JStr (snd p))]"

definition redis_call :: "backend \<Rightarrow> (app_error, redis_map, 'a) act \<Rightarrow> 'a handler" where
  "redis_call b m = bnd (check (be_up b) redis_down) (\<lambda>_. on_redis m)"

text \<open>\<open>body\<close> is the JSON form of \<open>dto\<close>, which is what the idempotency record hashes.\<close>

definition create_once ::
  "backend \<Rightarrow> string option \<Rightarrow> fresh_ids \<Rightarrow> create_asset \<Rightarrow> json \<Rightarrow> user_row \<Rightarrow> json handler" where
  "create_once b key fr dto body u =
     (case key of
        None \<Rightarrow> bnd (create_asset_row (be_nfkd b) (be_up b) (be_now b) fr dto u) (\<lambda>p. ret (created_json p))
      | Some k \<Rightarrow>
          bnd (redis_call b (idem_lookup (be_sha b) (be_now b) (u_id u) ''POST /assets'' k (Some body))) (\<lambda>cached.
          case cached of
            Some r \<Rightarrow> ret (ir_response r)
          | None \<Rightarrow>
              bnd (create_asset_row (be_nfkd b) (be_up b) (be_now b) fr dto u) (\<lambda>p.
              bnd (redis_call b (idem_store (be_sha b) (be_now b) (u_id u) ''POST /assets'' k (Some body) 201 (created_json p))) (\<lambda>_.
              ret (created_json p)))))"

definition assets_create :: "backend \<Rightarrow> http_request \<Rightarrow> fresh_ids \<Rightarrow> create_asset \<Rightarrow> json \<Rightarrow> json handler" where
  "assets_create b rq fr dto body =
     call b (guarded [] [KeycloakG]) rq (as_user (create_once b (truthy_opt (hr_idempotencyKey rq)) fr dto body))"

definition assets_update :: "backend \<Rightarrow> http_request \<Rightarrow> fresh_ids \<Rightarrow> string \<Rightarrow> update_asset \<Rightarrow> unit handler" where
  "assets_update b rq fr i dto =
     call b (guarded [] [KeycloakG]) rq (as_user (update_asset_row (be_nfkd b) (be_up b) (be_now b) fr dto i))"

definition assets_publish :: "backend \<Rightarrow> http_request \<Rightarrow> string \<Rightarrow> problem_field list handler" where
  "assets_publish b rq i = call b (guarded [] [KeycloakG]) rq (as_user (publish_asset (be_up b) (be_now b) i))"

definition assets_archive :: "backend \<Rightarrow> http_request \<Rightarrow> string \<Rightarrow> unit handler" where
  "assets_archive b rq i = call b (guarded [] [KeycloakG]) rq (as_user (archive_asset (be_up b) (be_now b) i))"

definition assets_restore :: "backend \<Rightarrow> http_request \<Rightarrow> string \<Rightarrow> unit handler" where
  "assets_restore b rq i = call b (guarded [] [KeycloakG]) rq (as_user (restore_asset (be_up b) (be_now b) i))"

definition assets_remove :: "backend \<Rightarrow> http_request \<Rightarrow> string \<Rightarrow> unit handler" where
  "assets_remove b rq i = call b (guarded [] [KeycloakG]) rq (as_user (soft_delete_asset (be_up b) (be_now b) i))"

subsection \<open>Versions\<close>

text \<open>Only listing and creation read the asset of the path.\<close>

definition versions_list :: "backend \<Rightarrow> http_request \<Rightarrow> string \<Rightarrow> json handler" where
  "versions_list b rq assetId = call b (guarded [] [OptionalG]) rq (\<lambda>who. reading (list_versions assetId (user_of who)))"

definition versions_create :: "backend \<Rightarrow> http_request \<Rightarrow> string \<Rightarrow> string \<Rightarrow> create_version \<Rightarrow> string handler" where
  "versions_create b rq new assetId dto =
     call b (guarded [] [KeycloakG]) rq (as_user (create_version_row (be_now b) new dto assetId))"

definition versions_update :: "backend \<Rightarrow> http_request \<Rightarrow> string \<Rightarrow> json option \<Rightarrow> unit handler" where
  "versions_update b rq vid notes = call b (guarded [] [KeycloakG]) rq (as_user (update_version_row notes vid))"

definition versions_publish :: "backend \<Rightarrow> http_request \<Rightarrow> string \<Rightarrow> unit handler" where
  "versions_publish b rq vid = call b (guarded [] [KeycloakG]) rq (as_user (publish_version (be_now b) vid))"

definition versions_reanalyze :: "backend \<Rightarrow> http_request \<Rightarrow> string \<Rightarrow> unit handler" where
  "versions_reanalyze b rq vid = call b (guarded [] [KeycloakG]) rq (as_user (reanalyze (be_up b) vid))"

definition versions_setCompatibility :: "backend \<Rightarrow> http_request \<Rightarrow> string \<Rightarrow> compat_input list \<Rightarrow> unit handler" where
  "versions_setCompatibility b rq vid rows = call b (guarded [] [KeycloakG]) rq (as_user (set_compatibility rows vid))"

subsection \<open>Files\<close>

definition files_initiate :: "backend \<Rightarrow> http_request \<Rightarrow> upload_ids \<Rightarrow> initiate_upload_dto \<Rightarrow> initiated handler" where
  "files_initiate b rq ids dto =
     call b (guarded [FlexibleG] []) rq (as_user (initiate_upload (be_cfg b) (be_s3 b) (be_up b) (be_now b) ids dto))"

definition files_complete :: "backend \<Rightarrow> http_request \<Rightarrow> string \<Rightarrow> unit handler" where
  "files_complete b rq uploadId =
     call b (guarded [FlexibleG] []) rq (as_user (complete_upload (be_cfg b) (be_s3 b) (be_up b) (be_now b) uploadId))"

definition files_initiateMultipart ::
  "backend \<Rightarrow> http_request \<Rightarrow> upload_ids \<Rightarrow> initiate_upload_dto \<Rightarrow> nat \<Rightarrow> initiated handler" where
  "files_initiateMultipart b rq ids dto parts =
     call b (guarded [FlexibleG] []) rq (as_user (initiate_multipart (be_cfg b) (be_s3 b) (be_up b) (be_now b) ids dto parts))"

definition files_signParts :: "backend \<Rightarrow> http_request \<Rightarrow> string \<Rightarrow> int list \<Rightarrow> (int \<times> string) list handler" where
  "files_signParts b rq uploadId ns =
     call b (guarded [FlexibleG] []) rq (as_user (sign_multipart_parts (be_cfg b) (be_s3 b) (be_up b) (be_now b) uploadId ns))"

definition files_completeMultipart :: "backend \<Rightarrow> http_request \<Rightarrow> string \<Rightarrow> unit handler" where
  "files_completeMultipart b rq uploadId =
     call b (guarded [FlexibleG] []) rq
       (as_user (complete_multipart_upload (be_cfg b) (be_s3 b) (be_up b) (be_now b) uploadId))"

definition files_abortMultipart :: "backend \<Rightarrow> http_request \<Rightarrow> string \<Rightarrow> unit handler" where
  "files_abortMultipart b rq uploadId =
     call b (guarded [FlexibleG] []) rq (as_user (abort_multipart (be_cfg b) (be_s3 b) (be_up b) (be_now b) uploadId))"

definition files_initiateThumb ::
  "backend \<Rightarrow> http_request \<Rightarrow> string \<Rightarrow> string \<Rightarrow> string \<Rightarrow> (string \<times> string \<times> string) handler" where
  "files_initiateThumb b rq uuid contentType assetId =
     call b (guarded [FlexibleG] []) rq
       (as_user (initiate_thumbnail (be_cfg b) (be_s3 b) (be_now b) uuid contentType assetId))"

definition files_completeThumb :: "backend \<Rightarrow> http_request \<Rightarrow> string \<Rightarrow> string \<Rightarrow> unit handler" where
  "files_completeThumb b rq key assetId =
     call b (guarded [FlexibleG] []) rq (as_user (complete_thumbnail (be_now b) key assetId))"

definition files_initiateEditorMedia ::
  "backend \<Rightarrow> http_request \<Rightarrow> string \<Rightarrow> string \<Rightarrow> (string \<times> string \<times> string \<times> string) handler" where
  "files_initiateEditorMedia b rq uuid contentType =
     call b (guarded [FlexibleG] []) rq
       (as_user (\<lambda>u. from_sum (initiate_editor_media (be_cfg b) (be_s3 b) (be_now b) uuid contentType u)))"

definition files_refreshEditorMedia :: "backend \<Rightarrow> http_request \<Rightarrow> string \<Rightarrow> (string \<times> string) handler" where
  "files_refreshEditorMedia b rq key =
     call b (guarded [FlexibleG] []) rq (as_user (\<lambda>u. from_sum (refresh_editor_media (be_cfg b) (be_s3 b) (be_now b) key u)))"

definition files_reorder :: "backend \<Rightarrow> http_request \<Rightarrow> string \<Rightarrow> string list \<Rightarrow> unit handler" where
  "files_reorder b rq vid ids = call b (guarded [FlexibleG] []) rq (as_user (reorder_files vid ids))"

definition files_delete :: "backend \<Rightarrow> http_request \<Rightarrow> string \<Rightarrow> unit handler" where
  "files_delete b rq fileId = call b (guarded [FlexibleG] []) rq (as_user (delete_file (be_cfg b) (be_s3 b) fileId))"

subsection \<open>Comments, reports and requests\<close>

definition comments_list :: "backend \<Rightarrow> http_request \<Rightarrow> string \<Rightarrow> list_comments_query \<Rightarrow> comment_tree page handler" where
  "comments_list b rq assetId q = call b (guarded [] [OptionalG]) rq (\<lambda>_. reading (list_comments assetId q))"

definition comments_create :: "backend \<Rightarrow> http_request \<Rightarrow> string \<Rightarrow> string \<Rightarrow> create_comment \<Rightarrow> string handler" where
  "comments_create b rq i assetId dto =
     call b (guarded [] [KeycloakG, rate 60 60 ScopeUser ''comments.create'']) rq
       (as_user (create_comment_row (be_now b) i assetId dto))"

definition comments_edit :: "backend \<Rightarrow> http_request \<Rightarrow> string \<Rightarrow> json \<Rightarrow> unit handler" where
  "comments_edit b rq i body = call b (guarded [] [KeycloakG]) rq (as_user (edit_comment (be_now b) i body))"

definition comments_remove :: "backend \<Rightarrow> http_request \<Rightarrow> string \<Rightarrow> unit handler" where
  "comments_remove b rq i = call b (guarded [] [KeycloakG]) rq (as_user (admin_delete_comment (be_now b) i))"

definition comments_setStatus :: "backend \<Rightarrow> http_request \<Rightarrow> string \<Rightarrow> issue_status \<Rightarrow> unit handler" where
  "comments_setStatus b rq i status = call b (guarded [] [KeycloakG]) rq (as_user (set_issue_status i status))"

definition reports_create :: "backend \<Rightarrow> http_request \<Rightarrow> string \<Rightarrow> create_report \<Rightarrow> string handler" where
  "reports_create b rq i dto =
     call b (guarded [] [KeycloakG, rate 86400 5 ScopeUser ''reports.create'']) rq
       (as_user (create_report_row (be_now b) i dto))"

definition requests_create :: "backend \<Rightarrow> http_request \<Rightarrow> string \<Rightarrow> create_request_dto \<Rightarrow> string handler" where
  "requests_create b rq i dto =
     call b (guarded [KeycloakG] [rate 86400 20 ScopeUser ''requests.create'']) rq
       (as_user (create_request_row (be_decimal b) (be_now b) i dto))"

definition requests_list :: "backend \<Rightarrow> http_request \<Rightarrow> list_requests_query \<Rightarrow> request_dto page handler" where
  "requests_list b rq q = call b (guarded [KeycloakG] []) rq (as_user (\<lambda>u. reading (list_requests q u)))"

definition requests_get :: "backend \<Rightarrow> http_request \<Rightarrow> string \<Rightarrow> request_dto handler" where
  "requests_get b rq i = call b (guarded [KeycloakG] []) rq (as_user (get_request i))"

subsection \<open>Library, downloads and notifications\<close>

definition library_list :: "backend \<Rightarrow> http_request \<Rightarrow> list_library_query \<Rightarrow> locale_code option \<Rightarrow> library_item_dto page handler" where
  "library_list b rq q loc =
     call b (guarded [FlexibleG] []) rq
       (as_user (\<lambda>u. reading (list_library (be_cfg b) (be_s3 b) u q (or_else loc (u_locale u)))))"

definition library_add :: "backend \<Rightarrow> http_request \<Rightarrow> string \<Rightarrow> string \<Rightarrow> unit handler" where
  "library_add b rq i assetId = call b (guarded [FlexibleG] []) rq (as_user (\<lambda>u. add_item (be_now b) i u assetId))"

definition library_remove :: "backend \<Rightarrow> http_request \<Rightarrow> string \<Rightarrow> unit handler" where
  "library_remove b rq assetId = call b (guarded [FlexibleG] []) rq (as_user (\<lambda>u. remove_item u assetId))"

definition library_setHidden :: "backend \<Rightarrow> http_request \<Rightarrow> string \<Rightarrow> bool \<Rightarrow> unit handler" where
  "library_setHidden b rq assetId hidden = call b (guarded [FlexibleG] []) rq (as_user (\<lambda>u. set_hidden u assetId hidden))"

definition downloads_options :: "backend \<Rightarrow> http_request \<Rightarrow> string \<Rightarrow> string \<Rightarrow> download_response handler" where
  "downloads_options b rq assetId vid = call b (guarded [FlexibleG] []) rq (as_user (download_options assetId vid))"

definition downloads_initiate ::
  "backend \<Rightarrow> http_request \<Rightarrow> (nat \<Rightarrow> string) \<Rightarrow> string \<Rightarrow> download_request \<Rightarrow> download_response handler" where
  "downloads_initiate b rq fresh libId dto =
     call b (guarded [FlexibleG] []) rq
       (as_user (initiate_download (be_cfg b) (be_s3 b) (be_sha b) (be_pepper b) (be_now b) fresh libId
          (dto\<lparr>dq_ip := Some (hr_ip rq)\<rparr>)))"

definition notifications_list ::
  "backend \<Rightarrow> http_request \<Rightarrow> string option \<Rightarrow> int option \<Rightarrow> bool \<Rightarrow> notification_dto page handler" where
  "notifications_list b rq cursor limit unreadOnly =
     call b (guarded [FlexibleG] []) rq (as_user (\<lambda>u. reading (list_notifications u cursor limit unreadOnly)))"

definition notifications_unreadCount :: "backend \<Rightarrow> http_request \<Rightarrow> nat handler" where
  "notifications_unreadCount b rq = call b (guarded [FlexibleG] []) rq (as_user (\<lambda>u. gets (unread_count u)))"

definition notifications_markRead :: "backend \<Rightarrow> http_request \<Rightarrow> string \<Rightarrow> string \<Rightarrow> notification_dto handler" where
  "notifications_markRead b rq wsId i =
     call b (guarded [FlexibleG] []) rq (as_user (\<lambda>u.
       bnd (mark_read (be_now b) u i) (\<lambda>row.
       bnd (publish (be_notify b) (u_id u)
              (new_ws_envelope wsId (be_now b) ''notification:read'' (JObj [(''id'', JStr i)]))) (\<lambda>_. ret row))))"

definition notifications_markAllRead :: "backend \<Rightarrow> http_request \<Rightarrow> string \<Rightarrow> nat handler" where
  "notifications_markAllRead b rq wsId =
     call b (guarded [FlexibleG] []) rq (as_user (\<lambda>u.
       bnd (mark_all_read (be_now b) u) (\<lambda>updated.
       bnd (publish (be_notify b) (u_id u)
              (new_ws_envelope wsId (be_now b) ''notification:read-all'' (JObj [(''updated'', JNum (int updated))]))) (\<lambda>_.
       ret updated))))"

subsection \<open>Listings and search\<close>

definition categories_list :: "backend \<Rightarrow> http_request \<Rightarrow> locale_code option \<Rightarrow> json handler" where
  "categories_list b rq loc =
     call b (guarded [KeycloakG] []) rq (as_user (\<lambda>u. category_list (or_else loc (u_locale u)) (be_up b) (be_now b)))"

definition licenses_list :: "backend \<Rightarrow> http_request \<Rightarrow> locale_code option \<Rightarrow> json handler" where
  "licenses_list b rq loc =
     call b (guarded [KeycloakG] []) rq (as_user (\<lambda>u. license_list (or_else loc (u_locale u)) (be_up b) (be_now b)))"

definition licenses_detail :: "backend \<Rightarrow> http_request \<Rightarrow> string \<Rightarrow> locale_code option \<Rightarrow> json handler" where
  "licenses_detail b rq i loc =
     call b (guarded [KeycloakG] []) rq (as_user (\<lambda>u. license_detail i (or_else loc (u_locale u))))"

definition tags_autocomplete :: "backend \<Rightarrow> http_request \<Rightarrow> string \<Rightarrow> int \<Rightarrow> json handler" where
  "tags_autocomplete b rq q limit = call b (guarded [KeycloakG] []) rq (\<lambda>_. gets (autocomplete q limit))"

definition tags_popular :: "backend \<Rightarrow> http_request \<Rightarrow> int option \<Rightarrow> json handler" where
  "tags_popular b rq limit =
     call b (guarded [KeycloakG] []) rq (\<lambda>_. popular_tags (Some (or_else limit 24)) (be_up b) (be_now b))"

definition search_searchAssets :: "backend \<Rightarrow> http_request \<Rightarrow> search_query \<Rightarrow> search_hit list handler" where
  "search_searchAssets b rq q =
     call b (guarded [KeycloakG] []) rq (\<lambda>_. from_sum (search_assets (be_cfg b) (be_s3 b) (be_meili b) q))"

definition search_searchTags :: "backend \<Rightarrow> http_request \<Rightarrow> string \<Rightarrow> int option \<Rightarrow> json list handler" where
  "search_searchTags b rq q limit =
     call b (guarded [KeycloakG] []) rq (\<lambda>_. from_sum (search_tags (be_meili b) q (or_else limit 10)))"

subsection \<open>Users, the own account and plugin tokens\<close>

definition users_search :: "backend \<Rightarrow> http_request \<Rightarrow> string \<Rightarrow> user_row list handler" where
  "users_search b rq q =
     call b (guarded [KeycloakG] []) rq (as_user (\<lambda>u. bnd (check (u_isAdmin u) Forbidden) (\<lambda>_. gets (search_users q 20))))"

definition users_profile :: "backend \<Rightarrow> http_request \<Rightarrow> string \<Rightarrow> public_profile handler" where
  "users_profile b rq i = call b (guarded [KeycloakG] []) rq (as_user (\<lambda>u. reading (get_public_profile i (Some u))))"

definition my_page :: "identity \<Rightarrow> me_response handler" where
  "my_page who = (case who of None \<Rightarrow> throw (OtherError TypeError) | Some (u, role) \<Rightarrow> gets (build_me u role))"

definition auth_me :: "backend \<Rightarrow> http_request \<Rightarrow> me_response handler" where
  "auth_me b rq = call b (guarded [] [KeycloakG]) rq my_page"

definition auth_updateLocale :: "backend \<Rightarrow> http_request \<Rightarrow> locale_code \<Rightarrow> me_response handler" where
  "auth_updateLocale b rq loc =
     call b (guarded [] [KeycloakG]) rq (\<lambda>who.
       bnd (as_user (\<lambda>u. update_locale (u_id u) loc) who) (\<lambda>updated. my_page (map_option (\<lambda>p. (updated, snd p)) who)))"

definition auth_exchangePlugin :: "backend \<Rightarrow> http_request \<Rightarrow> string \<Rightarrow> string \<Rightarrow> string \<Rightarrow> string \<Rightarrow> string \<Rightarrow> issued_token handler" where
  "auth_exchangePlugin b rq uid tid random token label =
     call b (open_to_all [rate 60 20 ScopeIp ''auth.plugin_exchange'']) rq
       (\<lambda>_. exchange_plugin_token (be_auth b) (be_now b) uid tid random token label)"

definition auth_refreshPlugin :: "backend \<Rightarrow> http_request \<Rightarrow> string \<Rightarrow> int handler" where
  "auth_refreshPlugin b rq token = call b (open_to_all []) rq (\<lambda>_. refresh_plugin_token (be_auth b) (be_now b) token)"

definition auth_revokePlugin :: "backend \<Rightarrow> http_request \<Rightarrow> string \<Rightarrow> unit handler" where
  "auth_revokePlugin b rq deviceId =
     call b (guarded [] [KeycloakG]) rq (as_user (\<lambda>u. revoke_plugin_device (be_now b) (u_id u) deviceId))"

definition auth_deletePluginDevice :: "backend \<Rightarrow> http_request \<Rightarrow> string \<Rightarrow> unit handler" where
  "auth_deletePluginDevice b rq deviceId =
     call b (guarded [] [KeycloakG]) rq (as_user (\<lambda>u. revoke_plugin_device (be_now b) (u_id u) deviceId))"

definition auth_listPluginDevices :: "backend \<Rightarrow> http_request \<Rightarrow> token_row list handler" where
  "auth_listPluginDevices b rq =
     call b (guarded [] [KeycloakG]) rq (as_user (\<lambda>u. gets (list_active_devices (be_now b) (u_id u))))"

definition me_me :: "backend \<Rightarrow> http_request \<Rightarrow> (me_response \<times> token_row list) handler" where
  "me_me b rq =
     call b (guarded [KeycloakG] []) rq (\<lambda>who.
       bnd (my_page who) (\<lambda>base.
       bnd (as_user (\<lambda>u. gets (list_active_devices (be_now b) (u_id u))) who) (\<lambda>devices. ret (base, devices))))"

definition me_revokeDevice :: "backend \<Rightarrow> http_request \<Rightarrow> string \<Rightarrow> unit handler" where
  "me_revokeDevice b rq i =
     call b (with_audit ''me.revoke_device'' ''PluginDeviceToken'' None (guarded [KeycloakG] [])) rq
       (as_user (\<lambda>u. revoke_plugin_device (be_now b) (u_id u) i))"

definition me_logout :: "backend \<Rightarrow> http_request \<Rightarrow> string \<Rightarrow> unit handler" where
  "me_logout b rq wsId =
     call b (guarded [KeycloakG] []) rq (as_user (\<lambda>u.
       bnd (audit_record (be_now b) (Some (u_id u)) ''me.logout'' ''User'' (u_id u) None) (\<lambda>_.
       publish (be_notify b) (u_id u)
         (new_ws_envelope wsId (be_now b) ''session:logout''
           (JObj [(''userId'', JStr (u_id u)), (''at'', JStr (iso_string (be_now b)))])))))"

definition analytics_mySummary :: "backend \<Rightarrow> http_request \<Rightarrow> my_summary handler" where
  "analytics_mySummary b rq = call b (guarded [] [KeycloakG]) rq (as_user (\<lambda>u. gets (my_summary_of (be_now b) u)))"

definition analytics_assetDetail :: "backend \<Rightarrow> http_request \<Rightarrow> string \<Rightarrow> analytics_detail handler" where
  "analytics_assetDetail b rq assetId = call b (guarded [] [KeycloakG]) rq (as_user (\<lambda>u. asset_analytics (be_now b) u assetId))"

end
