(* ===== verification/Console.thy ===== *)
theory Console
  imports Endpoints
begin

section \<open>The endpoints of the admin console\<close>

text \<open>
  The controllers whose routes begin with \<open>admin/\<close>.  All of them run the admin guard, the reports queue and the analytics
  on the methods, the others on the controller; destructive actions also ask for a confirmation, and changes leave a row
  of the audit interceptor besides the one the service writes.  Left out are the listings of categories and licenses with
  signed icons and the upload of banners, which only sign links; the upload of icons is in \<open>Bodies\<close>, the audit log in \<open>AuditLog\<close>.
\<close>

definition console :: "guard_ref list \<Rightarrow> route" where
  "console ms = guarded [AdminG] ms"

subsection \<open>Assets\<close>

definition admin_assets_listAll ::
  "backend \<Rightarrow> http_request \<Rightarrow> list_assets_query \<Rightarrow> int option \<Rightarrow> string option \<Rightarrow> (asset_row page \<times> (asset_status \<times> nat) list) handler" where
  "admin_assets_listAll b rq q limit cursor =
     call b (console []) rq (as_user (\<lambda>u.
       bnd (reading (list_from_postgres (q\<lparr>lq_includeUnpublished := True\<rparr>) (Some u) limit cursor)) (\<lambda>page.
       bnd (gets status_counts) (\<lambda>counts. ret (page, counts)))))"

definition admin_assets_detail :: "backend \<Rightarrow> http_request \<Rightarrow> string \<Rightarrow> asset_detail handler" where
  "admin_assets_detail b rq i = call b (console []) rq (as_user (\<lambda>u. reading (get_detail i (Some u) (u_locale u))))"

definition admin_assets_edit :: "backend \<Rightarrow> http_request \<Rightarrow> fresh_ids \<Rightarrow> string \<Rightarrow> update_asset \<Rightarrow> unit handler" where
  "admin_assets_edit b rq fr i dto =
     call b (with_audit ''asset.admin_edit'' ''Asset'' None (console [])) rq
       (as_user (update_asset_row (be_nfkd b) (be_up b) (be_now b) fr dto i))"

definition admin_assets_archive :: "backend \<Rightarrow> http_request \<Rightarrow> string \<Rightarrow> string \<Rightarrow> unit handler" where
  "admin_assets_archive b rq i reason =
     call b (with_audit ''asset.admin_archive_request'' ''Asset'' None (console [])) rq
       (as_user (\<lambda>u. moderate_archive (be_up b) (be_now b) i u reason))"

definition admin_assets_restore :: "backend \<Rightarrow> http_request \<Rightarrow> string \<Rightarrow> unit handler" where
  "admin_assets_restore b rq i =
     call b (with_audit ''asset.admin_restore_request'' ''Asset'' None (console [])) rq
       (as_user (moderate_restore (be_up b) (be_now b) i))"

definition admin_assets_softDelete :: "backend \<Rightarrow> http_request \<Rightarrow> string \<Rightarrow> string \<Rightarrow> unit handler" where
  "admin_assets_softDelete b rq i reason =
     call b (with_audit ''asset.admin_soft_delete_request'' ''Asset'' None (console [])) rq
       (as_user (\<lambda>u. moderate_soft_delete (be_up b) (be_now b) i u reason))"

definition admin_assets_forceDelete :: "backend \<Rightarrow> http_request \<Rightarrow> string \<Rightarrow> string \<Rightarrow> unit looping" where
  "admin_assets_forceDelete b rq i reason =
     serve_looping (be_server b) (with_audit ''asset.force_delete_request'' ''Asset'' None (console [ConfirmationG])) rq
       (as_user_looping (\<lambda>u. force_delete (be_cfg b) (ae_store (be_action b)) (be_s3 b) (ae_meili (be_action b))
          (be_up b) (be_now b) i u reason))"

definition admin_assets_transfer :: "backend \<Rightarrow> http_request \<Rightarrow> string \<Rightarrow> string \<Rightarrow> unit handler" where
  "admin_assets_transfer b rq i newOwnerId =
     call b (with_audit ''asset.transfer_request'' ''Asset'' None (console [])) rq
       (as_user (\<lambda>u. transfer_asset (be_now b) i u newOwnerId))"

subsection \<open>Reports and requests\<close>

definition reports_list :: "backend \<Rightarrow> http_request \<Rightarrow> list_reports_query \<Rightarrow> report_dto page handler" where
  "reports_list b rq q = call b (guarded [] [AdminG]) rq (\<lambda>_. reading (list_reports q))"

definition reports_detail :: "backend \<Rightarrow> http_request \<Rightarrow> string \<Rightarrow> report_dto handler" where
  "reports_detail b rq i = call b (guarded [] [AdminG]) rq (\<lambda>_. get_report i)"

definition reports_startReview :: "backend \<Rightarrow> http_request \<Rightarrow> string \<Rightarrow> unit handler" where
  "reports_startReview b rq i =
     call b (with_audit ''report.start_review_request'' ''Report'' None (guarded [] [AdminG])) rq
       (as_user (start_review (be_now b) i))"

definition reports_action :: "backend \<Rightarrow> http_request \<Rightarrow> string \<Rightarrow> action_report_dto \<Rightarrow> unit looping" where
  "reports_action b rq i dto =
     serve_looping (be_server b) (with_audit ''report.action_request'' ''Report'' None (guarded [] [AdminG])) rq
       (as_user_looping (\<lambda>u. action_report (be_action b) (be_now b) i u dto))"

definition reports_dismiss :: "backend \<Rightarrow> http_request \<Rightarrow> string \<Rightarrow> string \<Rightarrow> unit handler" where
  "reports_dismiss b rq i notes =
     call b (with_audit ''report.dismiss_request'' ''Report'' None (guarded [] [AdminG])) rq
       (as_user (\<lambda>u. dismiss_report (be_now b) i u notes))"

definition admin_requests_list :: "backend \<Rightarrow> http_request \<Rightarrow> list_requests_query \<Rightarrow> request_dto page handler" where
  "admin_requests_list b rq q = call b (console []) rq (as_user (\<lambda>u. reading (list_requests q u)))"

definition admin_requests_getOne :: "backend \<Rightarrow> http_request \<Rightarrow> string \<Rightarrow> request_dto handler" where
  "admin_requests_getOne b rq i = call b (console []) rq (as_user (get_request i))"

definition admin_requests_update :: "backend \<Rightarrow> http_request \<Rightarrow> string \<Rightarrow> update_request_dto \<Rightarrow> request_dto handler" where
  "admin_requests_update b rq i dto =
     call b (with_audit ''asset_request.status_change_request'' ''AssetRequest'' None (console [])) rq
       (as_user (\<lambda>u. admin_update_request (be_now b) i u dto))"

subsection \<open>Categories, licenses and tags\<close>

text \<open>\<open>changes\<close> is the JSON form of the body, which the services put into their audit row.\<close>

definition admin_categories_create :: "backend \<Rightarrow> http_request \<Rightarrow> string \<Rightarrow> create_category \<Rightarrow> category_row handler" where
  "admin_categories_create b rq i dto =
     call b (with_audit ''category.create_request'' ''Category'' (Some (''body'', [''slug''])) (console [])) rq
       (as_user (\<lambda>u. create_category_row (be_up b) (be_now b) i u dto))"

definition admin_categories_update ::
  "backend \<Rightarrow> http_request \<Rightarrow> string \<Rightarrow> update_category \<Rightarrow> json \<Rightarrow> category_row handler" where
  "admin_categories_update b rq i dto changes =
     call b (with_audit ''category.update_request'' ''Category'' None (console [])) rq
       (as_user (\<lambda>u. update_category_row (be_up b) (be_now b) i u dto changes))"

definition admin_categories_remove :: "backend \<Rightarrow> http_request \<Rightarrow> string \<Rightarrow> unit handler" where
  "admin_categories_remove b rq i =
     call b (with_audit ''category.delete_request'' ''Category'' None (console [])) rq
       (as_user (remove_category (be_up b) (be_now b) i))"

definition admin_categories_reorder :: "backend \<Rightarrow> http_request \<Rightarrow> string list \<Rightarrow> unit handler" where
  "admin_categories_reorder b rq ids =
     call b (with_audit ''category.reorder_request'' ''Category'' (Some (''body'', [''orderedIds'', ''0''])) (console [])) rq
       (as_user (reorder_categories (be_up b) (be_now b) ids))"

definition admin_licenses_create :: "backend \<Rightarrow> http_request \<Rightarrow> string \<Rightarrow> create_license \<Rightarrow> license_row handler" where
  "admin_licenses_create b rq i dto =
     call b (with_audit ''license.create_request'' ''License'' (Some (''body'', [''slug''])) (console [])) rq
       (as_user (\<lambda>u. create_license_row (be_up b) (be_now b) i u dto))"

definition admin_licenses_update ::
  "backend \<Rightarrow> http_request \<Rightarrow> string \<Rightarrow> update_license \<Rightarrow> json \<Rightarrow> license_row handler" where
  "admin_licenses_update b rq i dto changes =
     call b (with_audit ''license.update_request'' ''License'' None (console [])) rq
       (as_user (\<lambda>u. update_license_row (be_up b) (be_now b) i u dto changes))"

definition admin_licenses_remove :: "backend \<Rightarrow> http_request \<Rightarrow> string \<Rightarrow> unit handler" where
  "admin_licenses_remove b rq i =
     call b (with_audit ''license.delete_request'' ''License'' None (console [])) rq
       (as_user (remove_license (be_up b) (be_now b) i))"

definition admin_tags_list :: "backend \<Rightarrow> http_request \<Rightarrow> list_tags_query \<Rightarrow> int option \<Rightarrow> string option \<Rightarrow> tag_row page handler" where
  "admin_tags_list b rq q limit cursor = call b (console []) rq (\<lambda>_. reading (admin_list_tags q limit cursor))"

definition admin_tags_merge :: "backend \<Rightarrow> http_request \<Rightarrow> merge_tags \<Rightarrow> unit handler" where
  "admin_tags_merge b rq dto =
     call b (with_audit ''tag.merge_request'' ''Tag'' (Some (''body'', [''intoTagId''])) (console [])) rq
       (as_user (\<lambda>u. merge_tag_rows (be_up b) (be_now b) u dto))"

definition admin_tags_update :: "backend \<Rightarrow> http_request \<Rightarrow> string \<Rightarrow> update_tag \<Rightarrow> json \<Rightarrow> tag_row handler" where
  "admin_tags_update b rq i dto changes =
     call b (with_audit ''tag.update_request'' ''Tag'' None (console [])) rq
       (as_user (\<lambda>u. update_tag_row (be_up b) (be_now b) i u dto changes))"

definition admin_tags_remove :: "backend \<Rightarrow> http_request \<Rightarrow> string \<Rightarrow> unit handler" where
  "admin_tags_remove b rq i =
     call b (with_audit ''tag.delete_request'' ''Tag'' None (console [])) rq
       (as_user (remove_tag (be_up b) (be_now b) i))"

subsection \<open>Featured slots\<close>

definition admin_featured_list :: "backend \<Rightarrow> http_request \<Rightarrow> slot_dto list handler" where
  "admin_featured_list b rq = call b (console []) rq (\<lambda>_. reading (list_slots (be_cfg b) (be_s3 b)))"

definition admin_featured_create :: "backend \<Rightarrow> http_request \<Rightarrow> string \<Rightarrow> create_slot_dto \<Rightarrow> slot_dto handler" where
  "admin_featured_create b rq i dto =
     call b (with_audit ''featured.create_request'' ''FeaturedSlot'' (Some (''body'', [''assetId''])) (console [])) rq
       (as_user (\<lambda>u. create_slot (be_cfg b) (be_s3 b) (be_up b) (be_now b) i u dto))"

definition admin_featured_update :: "backend \<Rightarrow> http_request \<Rightarrow> json \<Rightarrow> string \<Rightarrow> update_slot_dto \<Rightarrow> slot_dto handler" where
  "admin_featured_update b rq changes i dto =
     call b (with_audit ''featured.update_request'' ''FeaturedSlot'' None (console [])) rq
       (as_user (\<lambda>u. update_slot (be_cfg b) (be_s3 b) (be_up b) (be_now b) changes i u dto))"

definition admin_featured_remove :: "backend \<Rightarrow> http_request \<Rightarrow> string \<Rightarrow> unit handler" where
  "admin_featured_remove b rq i =
     call b (with_audit ''featured.delete_request'' ''FeaturedSlot'' None (console [])) rq
       (as_user (remove_slot (be_up b) (be_now b) i))"

definition admin_featured_reorder :: "backend \<Rightarrow> http_request \<Rightarrow> string list \<Rightarrow> unit handler" where
  "admin_featured_reorder b rq ids =
     call b (with_audit ''featured.reorder_request'' ''FeaturedSlot'' (Some (''body'', [''orderedIds'', ''0''])) (console [])) rq
       (as_user (reorder_slots (be_up b) (be_now b) ids))"

subsection \<open>Users\<close>

definition admin_users_list ::
  "backend \<Rightarrow> http_request \<Rightarrow> admin_users_query \<Rightarrow> int option \<Rightarrow> string option \<Rightarrow> user_row page handler" where
  "admin_users_list b rq q limit cursor = call b (console []) rq (\<lambda>_. reading (admin_list_users q limit cursor))"

definition admin_users_promote :: "backend \<Rightarrow> http_request \<Rightarrow> string \<Rightarrow> unit handler" where
  "admin_users_promote b rq i =
     call b (with_audit ''user.promote_request'' ''User'' None (console [ConfirmationG])) rq
       (as_user (promote (be_up b) (be_now b) i))"

definition admin_users_demote :: "backend \<Rightarrow> http_request \<Rightarrow> string \<Rightarrow> unit handler" where
  "admin_users_demote b rq i =
     call b (with_audit ''user.demote_request'' ''User'' None (console [ConfirmationG])) rq
       (as_user (demote (ae_bootstrap (be_auth b)) (be_up b) (be_now b) i))"

subsection \<open>Overviews\<close>

definition admin_dashboard_get :: "backend \<Rightarrow> http_request \<Rightarrow> json handler" where
  "admin_dashboard_get b rq = call b (console []) rq (\<lambda>_. dashboard_get (be_up b) (be_now b))"

definition analytics_platform :: "backend \<Rightarrow> http_request \<Rightarrow> int option \<Rightarrow> int option \<Rightarrow> platform handler" where
  "analytics_platform b rq from_ms to_ms =
     call b (guarded [] [AdminG]) rq (\<lambda>_. gets (platform_query (be_now b) from_ms to_ms))"

definition admin_deliveries_list :: "backend \<Rightarrow> http_request \<Rightarrow> (string \<Rightarrow> int option) \<Rightarrow> delivery_query \<Rightarrow> delivery_page handler" where
  "admin_deliveries_list b rq date_parse q = call b (console []) rq (\<lambda>_. gets (list_deliveries date_parse q))"

end
