(* ===== verification/Templates.thy ===== *)
theory Templates
  imports Notify
begin

section \<open>The mails\<close>

text \<open>
  \<open>src/modules/notifications/email-renderer.service.ts\<close> and its \<open>templates/\<close>: the texts of every event as data, the MJML
  document around them, the cache of compiled documents and the plain text of a mail.  \<open>mjml2html\<close> is a parameter.  The
  texts are UTF-8: \<open>ldq\<close> and \<open>rdq\<close> are the bytes of the typographic quotes.
\<close>

subsection \<open>The texts of the events\<close>

definition newline :: string where "newline = [CHR 0x0A]"

definition ldq :: string where "ldq = [CHR 0xE2, CHR 0x80, CHR 0x9C]"

definition rdq :: string where "rdq = [CHR 0xE2, CHR 0x80, CHR 0x9D]"

record localized =
  ls_en :: string
  ls_id :: string

definition en_id :: "string \<Rightarrow> string \<Rightarrow> localized" where
  "en_id e i = \<lparr>ls_en = e, ls_id = i\<rparr>"

record email_cta =
  ct_label :: localized
  ct_href :: string

record email_spec_data =
  es_subject :: localized
  es_eyebrow :: localized
  es_title :: localized
  es_body :: localized
  es_cta :: "email_cta option"

fun email_spec :: "notification_type \<Rightarrow> email_spec_data" where
  "email_spec COMMENT_CREATED =
    \<lparr>es_subject = en_id (''{{author.displayName}} commented on '' @ ldq @ ''{{assetTitle}}'' @ rdq)
        (''{{author.displayName}} mengomentari '' @ ldq @ ''{{assetTitle}}'' @ rdq),
     es_eyebrow = en_id ''New comment'' ''Komentar baru'',
     es_title = en_id ''New comment on your asset'' ''Komentar baru pada aset Anda'',
     es_body = en_id (''{{author.displayName}} just left a comment on '' @ ldq @ ''{{assetTitle}}'' @ rdq @ '':'' @
        newline @ ldq @ ''{{commentExcerpt}}'' @ rdq)
        (''{{author.displayName}} baru saja meninggalkan komentar pada '' @ ldq @ ''{{assetTitle}}'' @ rdq @ '':'' @
        newline @ ldq @ ''{{commentExcerpt}}'' @ rdq),
     es_cta = Some \<lparr>ct_label = en_id ''Open comment'' ''Buka komentar'', ct_href =
        ''{{links.commentUrl}}''\<rparr>\<rparr>"
| "email_spec COMMENT_REPLY =
    \<lparr>es_subject = en_id ''{{author.displayName}} replied to your comment''
        ''{{author.displayName}} membalas komentar Anda'',
     es_eyebrow = en_id ''New reply'' ''Balasan baru'',
     es_title = en_id ''New reply to your comment'' ''Balasan baru pada komentar Anda'',
     es_body = en_id (''{{author.displayName}} replied to your comment on '' @ ldq @ ''{{assetTitle}}'' @ rdq @ '':'' @
        newline @ ldq @ ''{{commentExcerpt}}'' @ rdq) (''{{author.displayName}} membalas komentar Anda pada '' @ ldq @
        ''{{assetTitle}}'' @ rdq @ '':'' @ newline @ ldq @ ''{{commentExcerpt}}'' @ rdq),
     es_cta = Some \<lparr>ct_label = en_id ''Open thread'' ''Buka utas'', ct_href =
        ''{{links.commentUrl}}''\<rparr>\<rparr>"
| "email_spec ISSUE_CREATED =
    \<lparr>es_subject = en_id (''New issue on '' @ ldq @ ''{{assetTitle}}'' @ rdq) (''Isu baru pada '' @ ldq @
        ''{{assetTitle}}'' @ rdq),
     es_eyebrow = en_id ''New issue'' ''Isu baru'',
     es_title = en_id ''Someone opened an issue'' ''Seseorang membuka isu'',
     es_body = en_id (''{{author.displayName}} reported an issue on '' @ ldq @ ''{{assetTitle}}'' @ rdq @ '':'' @
        newline @ ldq @ ''{{commentExcerpt}}'' @ rdq) (''{{author.displayName}} melaporkan isu pada '' @ ldq @
        ''{{assetTitle}}'' @ rdq @ '':'' @ newline @ ldq @ ''{{commentExcerpt}}'' @ rdq),
     es_cta = Some \<lparr>ct_label = en_id ''Open issue'' ''Buka isu'', ct_href = ''{{links.issueUrl}}''\<rparr>\<rparr>"
| "email_spec ISSUE_STATUS_CHANGED =
    \<lparr>es_subject = en_id ''Issue updated: {{newStatus}}'' ''Isu diperbarui: {{newStatus}}'',
     es_eyebrow = en_id ''Status update'' ''Pembaruan status'',
     es_title = en_id ''Your issue was updated'' ''Isu Anda diperbarui'',
     es_body = en_id (''{{changedBy.displayName}} marked your issue on '' @ ldq @ ''{{assetTitle}}'' @ rdq @
        '' as {{newStatus}}.'') (''{{changedBy.displayName}} menandai isu Anda pada '' @ ldq @ ''{{assetTitle}}'' @
        rdq @ '' sebagai {{newStatus}}.''),
     es_cta = Some \<lparr>ct_label = en_id ''Open issue'' ''Buka isu'', ct_href = ''{{links.issueUrl}}''\<rparr>\<rparr>"
| "email_spec REQUEST_CREATED =
    \<lparr>es_subject = en_id ''New asset request'' ''Permintaan aset baru'',
     es_eyebrow = en_id ''Asset request'' ''Permintaan aset'',
     es_title = en_id ''A new asset request needs review'' ''Permintaan aset baru perlu ditinjau'',
     es_body = en_id (''{{requester.displayName}} requested a {{assetType}}.'' @ newline @
        ''Intended use: {{intendedUse}}'') (''{{requester.displayName}} meminta {{assetType}}.'' @ newline @
        ''Tujuan penggunaan: {{intendedUse}}''),
     es_cta = Some \<lparr>ct_label = en_id ''Review in admin panel'' ''Tinjau di panel admin'', ct_href =
        ''{{links.adminRequestUrl}}''\<rparr>\<rparr>"
| "email_spec REQUEST_STATUS_CHANGED =
    \<lparr>es_subject = en_id ''Your asset request is now {{newStatus}}'' ''Permintaan aset Anda kini {{newStatus}}'',
     es_eyebrow = en_id ''Request update'' ''Pembaruan permintaan'',
     es_title = en_id ''Your asset request was updated'' ''Permintaan aset Anda diperbarui'',
     es_body = en_id (''Status: {{newStatus}}.'' @ newline @ ''{{adminComment}}'') (''Status: {{newStatus}}.'' @
        newline @ ''{{adminComment}}''),
     es_cta = Some \<lparr>ct_label = en_id ''View request'' ''Lihat permintaan'', ct_href =
        ''{{links.requestUrl}}''\<rparr>\<rparr>"
| "email_spec REPORT_CREATED =
    \<lparr>es_subject = en_id (''New report on '' @ ldq @ ''{{assetTitle}}'' @ rdq) (''Laporan baru pada '' @ ldq @
        ''{{assetTitle}}'' @ rdq),
     es_eyebrow = en_id ''New report'' ''Laporan baru'',
     es_title = en_id ''A new report needs moderation'' ''Laporan baru perlu moderasi'',
     es_body = en_id (''{{reporter.displayName}} filed a {{category}} report on '' @ ldq @ ''{{assetTitle}}'' @ rdq @
        ''.'') (''{{reporter.displayName}} melaporkan {{category}} pada '' @ ldq @ ''{{assetTitle}}'' @ rdq @ ''.''),
     es_cta = Some \<lparr>ct_label = en_id ''Open in moderation queue'' ''Buka di antrean moderasi'', ct_href =
        ''{{links.adminReportUrl}}''\<rparr>\<rparr>"
| "email_spec REPORT_RECEIVED_FOR_YOUR_ASSET =
    \<lparr>es_subject = en_id ''Your asset was reported'' ''Aset Anda dilaporkan'',
     es_eyebrow = en_id ''Asset reported'' ''Aset dilaporkan'',
     es_title = en_id ''Someone filed a report on your asset'' ''Seseorang melaporkan aset Anda'',
     es_body = en_id (''A {{category}} report was filed on '' @ ldq @ ''{{assetTitle}}'' @ rdq @
        ''. Admins will follow up if needed.'') (''Laporan {{category}} diajukan pada '' @ ldq @ ''{{assetTitle}}'' @
        rdq @ ''. Admin akan menindaklanjuti jika perlu.''),
     es_cta = Some \<lparr>ct_label = en_id ''Open asset'' ''Buka aset'', ct_href = ''{{links.assetUrl}}''\<rparr>\<rparr>"
| "email_spec FEATURED_FEATURED =
    \<lparr>es_subject = en_id (ldq @ ''{{assetTitle}}'' @ rdq @ '' is featured!'') (ldq @ ''{{assetTitle}}'' @ rdq @
        '' telah ditampilkan!''),
     es_eyebrow = en_id ''You're featured'' ''Anda ditampilkan'',
     es_title = en_id ''Your asset is featured on the landing page'' ''Aset Anda ditampilkan di halaman utama'',
     es_body = en_id (ldq @ ''{{assetTitle}}'' @ rdq @ '' is now in the Discover carousel.'') (ldq @
        ''{{assetTitle}}'' @ rdq @ '' kini ada di korsel Discover.''),
     es_cta = Some \<lparr>ct_label = en_id ''Open Discover'' ''Buka Discover'', ct_href =
        ''{{links.discoverUrl}}''\<rparr>\<rparr>"
| "email_spec VERSION_PUBLISHED =
    \<lparr>es_subject = en_id ''{{assetTitle}} v{{semver}} is available'' ''{{assetTitle}} v{{semver}} kini tersedia'',
     es_eyebrow = en_id ''New version'' ''Versi baru'',
     es_title = en_id ''A new version of an asset you saved is live'' ''Versi baru aset yang Anda simpan telah dirilis'',
     es_body = en_id (ldq @ ''{{assetTitle}}'' @ rdq @ '' v{{semver}} is now available in your library.'') (ldq @
        ''{{assetTitle}}'' @ rdq @ '' v{{semver}} kini tersedia di pustaka Anda.''),
     es_cta = Some \<lparr>ct_label = en_id ''Download'' ''Unduh'', ct_href = ''{{links.assetUrl}}''\<rparr>\<rparr>"
| "email_spec ANALYZER_FAILED =
    \<lparr>es_subject = en_id (''Analysis failed for '' @ ldq @ ''{{assetTitle}}'' @ rdq) (''Analisis gagal untuk '' @
        ldq @ ''{{assetTitle}}'' @ rdq),
     es_eyebrow = en_id ''Action needed'' ''Perlu tindakan'',
     es_title = en_id ''We couldn't finish analyzing your upload'' ''Kami tidak dapat menyelesaikan analisis unggahan Anda'',
     es_body = en_id ''Analysis failed: {{reason}}. You can retry from the version page.''
        ''Analisis gagal: {{reason}}. Anda dapat mengulang dari halaman versi.'',
     es_cta = Some \<lparr>ct_label = en_id ''Open version'' ''Buka versi'', ct_href =
        ''{{links.versionUrl}}''\<rparr>\<rparr>"
| "email_spec ADMIN_PROMOTED =
    \<lparr>es_subject = en_id ''You have been promoted to admin'' ''Anda telah dipromosikan sebagai admin'',
     es_eyebrow = en_id ''Role update'' ''Pembaruan peran'',
     es_title = en_id ''You are now an admin'' ''Anda kini adalah admin'',
     es_body = en_id ''Your account has been granted admin privileges.'' ''Akun Anda telah diberikan hak akses admin.'',
     es_cta = None\<rparr>"
| "email_spec ADMIN_DEMOTED =
    \<lparr>es_subject = en_id ''Your admin role has been removed'' ''Peran admin Anda telah dicabut'',
     es_eyebrow = en_id ''Role update'' ''Pembaruan peran'',
     es_title = en_id ''Your admin role was removed'' ''Peran admin Anda dihapus'',
     es_body = en_id ''Your admin privileges have been revoked.'' ''Hak akses admin Anda telah dicabut.'',
     es_cta = None\<rparr>"

fun pick_locale :: "localized \<Rightarrow> locale_code \<Rightarrow> string" where
  "pick_locale f LEn = ls_en f"
| "pick_locale f LId = ls_id f"

text \<open>\<open>registry.ts\<close>: the folder of each event.\<close>

fun template_folder :: "notification_type \<Rightarrow> string" where
  "template_folder COMMENT_CREATED = ''comment-created''"
| "template_folder COMMENT_REPLY = ''comment-reply''"
| "template_folder ISSUE_CREATED = ''issue-created''"
| "template_folder ISSUE_STATUS_CHANGED = ''issue-status-changed''"
| "template_folder REQUEST_CREATED = ''request-created-to-admin''"
| "template_folder REQUEST_STATUS_CHANGED = ''request-status-changed''"
| "template_folder REPORT_CREATED = ''report-created-to-admin''"
| "template_folder REPORT_RECEIVED_FOR_YOUR_ASSET = ''report-received-for-your-asset''"
| "template_folder FEATURED_FEATURED = ''featured''"
| "template_folder VERSION_PUBLISHED = ''version-published''"
| "template_folder ANALYZER_FAILED = ''analyzer-failed''"
| "template_folder ADMIN_PROMOTED = ''admin-promoted''"
| "template_folder ADMIN_DEMOTED = ''admin-demoted''"

subsection \<open>The document around the texts\<close>

definition brand_blue :: string where "brand_blue = ''#0F62FE''"

definition brand_ink :: string where "brand_ink = ''#161616''"

definition brand_surface :: string where "brand_surface = ''#F4F4F4''"

definition text_lines :: "string list \<Rightarrow> string" where
  "text_lines ls = join_with newline ls"

definition header_mjml :: \<open>string\<close> where
  \<open>header_mjml =
     trim (text_lines
     [[],
      ''  <mj-section background-color="#FFFFFF" padding-bottom="0">'',
      ''    <mj-column>'',
      ''      <mj-text font-size="20px" font-weight="700" color="'' @ brand_ink @ ''" font-family="Inter, system-ui, sans-serif">'',
      ''        MGM Asset Library'',
      ''      </mj-text>'',
      ''    </mj-column>'',
      ''  </mj-section>'',
      []])\<close>

definition footer_mjml :: \<open>string\<close> where
  \<open>footer_mjml =
     trim (text_lines
     [[],
      ''  <mj-section background-color="'' @ brand_surface @ ''">'',
      ''    <mj-column>'',
      ''      <mj-text font-size="11px" color="#525252" font-family="Inter, system-ui, sans-serif" align="center">'',
      ''        You're receiving this because you have an account at MGM Asset Library.'',
      ''      </mj-text>'',
      ''    </mj-column>'',
      ''  </mj-section>'',
      []])\<close>

definition cta_mjml :: \<open>email_cta \<Rightarrow> locale_code \<Rightarrow> string\<close> where
  \<open>cta_mjml c l =
     text_lines
     [[],
      ''        <mj-section background-color="#FFFFFF">'',
      ''          <mj-column>'',
      ''            <mj-button href="'' @ ct_href c @ ''" background-color="'' @ brand_blue @ ''" color="#FFFFFF" font-weight="600" inner-padding="14px 28px">'',
      ''              '' @ pick_locale (ct_label c) l,
      ''            </mj-button>'',
      ''          </mj-column>'',
      ''        </mj-section>'',
      ''      '']\<close>

text \<open>Every line of a body is trimmed, empty lines go, and the rest is joined by breaks.\<close>

definition body_html :: "string \<Rightarrow> string" where
  "body_html s = join_with ''<br/>'' (filter (\<lambda>l. l \<noteq> []) (map trim (split_on (CHR 0x0A) s)))"

definition mjml_document :: \<open>string \<Rightarrow> string \<Rightarrow> string \<Rightarrow> string \<Rightarrow> string\<close> where
  \<open>mjml_document eyebrow title body cta =
     trim (text_lines
     [[],
      ''      <mjml>'',
      ''        <mj-head>'',
      ''          <mj-attributes>'',
      ''            <mj-all font-family="Inter, system-ui, -apple-system, BlinkMacSystemFont, sans-serif" />'',
      ''          </mj-attributes>'',
      ''        </mj-head>'',
      ''        <mj-body background-color="'' @ brand_surface @ ''">'',
      ''          '' @ header_mjml,
      ''          <mj-section background-color="#FFFFFF">'',
      ''            <mj-column>'',
      ''              <mj-text font-size="12px" color="#525252" text-transform="uppercase" letter-spacing="0.08em" padding-bottom="4px">'',
      ''                '' @ eyebrow,
      ''              </mj-text>'',
      ''              <mj-text font-size="22px" font-weight="700" color="'' @ brand_ink @ ''" line-height="1.3">'',
      ''                '' @ title,
      ''              </mj-text>'',
      ''              <mj-text font-size="15px" color="'' @ brand_ink @ ''" line-height="1.5">'',
      ''                '' @ body,
      ''              </mj-text>'',
      ''            </mj-column>'',
      ''          </mj-section>'',
      ''          '' @ cta,
      ''          '' @ footer_mjml,
      ''        </mj-body>'',
      ''      </mjml>'',
      ''    ''])\<close>

definition mjml_source :: "notification_type \<Rightarrow> locale_code \<Rightarrow> string" where
  "mjml_source ty l =
     (let spec = email_spec ty
      in mjml_document (pick_locale (es_eyebrow spec) l) (pick_locale (es_title spec) l)
           (body_html (pick_locale (es_body spec) l))
           (case es_cta spec of None \<Rightarrow> [] | Some c \<Rightarrow> cta_mjml c l))"

end
