(* ===== verification/Mailer.thy ===== *)
theory Mailer
  imports Templates
begin

section \<open>Rendering and sending mails\<close>

text \<open>
  \<open>src/modules/notifications/email-renderer.service.ts\<close> over the texts of \<open>Templates\<close>, with its cache of compiled documents
  and the reduction of HTML to text, and \<open>src/infra/mailer/mailer.service.ts\<close>.  \<open>mjml2html\<close> and nodemailer are parameters.
\<close>

subsection \<open>Replacing the matches of a pattern\<close>

text \<open>
  \<open>String.replace\<close> with a global pattern: from left to right, a match is replaced and the search goes on behind it.  A
  matcher gives the replacement and the rest of the text when the pattern matches at its start.
\<close>

type_synonym matcher = "string \<Rightarrow> (string \<times> string) option"

function replace_all :: "matcher \<Rightarrow> string \<Rightarrow> string" where
  "replace_all m s =
     (case m s of
        Some (r, rest) \<Rightarrow>
          if length rest < length s then r @ replace_all m rest
          else (case s of [] \<Rightarrow> [] | c # cs \<Rightarrow> c # replace_all m cs)
      | None \<Rightarrow> (case s of [] \<Rightarrow> [] | c # cs \<Rightarrow> c # replace_all m cs))"
  by pat_completeness auto
termination
  by (relation "measure (length \<circ> snd)") auto

declare replace_all.simps [simp del]

fun after_first :: "string \<Rightarrow> string \<Rightarrow> string option" where
  "after_first p [] = None"
| "after_first p (c # cs) = (if starts_with p (lower (c # cs)) then Some (drop (length p) (c # cs)) else after_first p cs)"

text \<open>The six patterns of \<open>htmlToText\<close>.\<close>

definition element_at :: "string \<Rightarrow> matcher" where
  "element_at name s =
     (if starts_with (''<'' @ name) (lower s)
      then map_option (Pair []) (after_first (''</'' @ name @ ''>'') (drop (Suc (length name)) s)) else None)"

definition skip_newline :: "string \<Rightarrow> string" where
  "skip_newline s = (if starts_with [CHR 0x0D, CHR 0x0A] s then drop 2 s else if starts_with newline s then drop 1 s else s)"

definition break_at :: matcher where
  "break_at s =
     (if starts_with ''<br'' (lower s)
      then (let t = dropWhile is_blank (drop 3 s); u = (if starts_with ''/'' t then drop 1 t else t)
            in if starts_with ''>'' u then Some (newline, skip_newline (drop 1 u)) else None)
      else None)"

definition tag_at :: matcher where
  "tag_at s =
     (case s of
        [] \<Rightarrow> None
      | c # cs \<Rightarrow>
          (let inner = takeWhile (\<lambda>x. x \<noteq> CHR ''>'') cs; rest = dropWhile (\<lambda>x. x \<noteq> CHR ''>'') cs
           in if c = CHR ''<'' \<and> inner \<noteq> [] \<and> rest \<noteq> [] then Some ([], tl rest) else None))"

definition is_space_or_tab :: "char \<Rightarrow> bool" where
  "is_space_or_tab c \<longleftrightarrow> c = CHR '' '' \<or> c = CHR 0x09"

definition spaces_at :: matcher where
  "spaces_at s = (if s \<noteq> [] \<and> is_space_or_tab (hd s) then Some ('' '', dropWhile is_space_or_tab s) else None)"

text \<open>A newline, blanks and a last newline: the match ends with the last newline of the run.\<close>

definition blank_lines_at :: matcher where
  "blank_lines_at s =
     (case s of
        [] \<Rightarrow> None
      | c # cs \<Rightarrow>
          (let run = takeWhile is_blank cs
           in if c = CHR 0x0A \<and> CHR 0x0A \<in> set run
              then Some (newline @ newline, rev (takeWhile (\<lambda>x. x \<noteq> CHR 0x0A) (rev run)) @ dropWhile is_blank cs)
              else None))"

definition html_to_text :: "string \<Rightarrow> string" where
  "html_to_text html =
     trim (replace_all blank_lines_at (replace_all spaces_at (replace_all tag_at (replace_all break_at
       (replace_all (element_at ''script'') (replace_all (element_at ''style'') html))))))"

subsection \<open>No markup in the plain text\<close>

lemma replace_all_None: "m s = None \<Longrightarrow> replace_all m s = (case s of [] \<Rightarrow> [] | c # cs \<Rightarrow> c # replace_all m cs)"
  by (subst replace_all.simps) simp

lemma replace_all_Some: "m s = Some (r, rest) \<Longrightarrow> length rest < length s \<Longrightarrow> replace_all m s = r @ replace_all m rest"
  by (subst replace_all.simps) simp

lemma replace_all_Nil [simp]: "m [] = None \<Longrightarrow> replace_all m [] = []"
  by (simp add: replace_all_None)

text \<open>Every \<open><\<close> is followed by \<open>>\<close> at once or never: the text has no tag.\<close>

definition tag_free :: "string \<Rightarrow> bool" where
  "tag_free s \<longleftrightarrow> (\<forall>p q. s = p @ CHR ''<'' # q \<longrightarrow> CHR ''>'' \<notin> set q \<or> hd q = CHR ''>'')"

lemma tag_free_Nil [simp]: "tag_free []"
  by (simp add: tag_free_def)

lemma tag_free_Cons: "tag_free (c # cs) \<longleftrightarrow> (c = CHR ''<'' \<longrightarrow> CHR ''>'' \<notin> set cs \<or> hd cs = CHR ''>'') \<and> tag_free cs"
proof
  assume l: "tag_free (c # cs)"
  have "c # p @ CHR ''<'' # q = (c # p) @ CHR ''<'' # q" for p q by simp
  with l show "(c = CHR ''<'' \<longrightarrow> CHR ''>'' \<notin> set cs \<or> hd cs = CHR ''>'') \<and> tag_free cs"
    unfolding tag_free_def by (metis append_Nil)
qed (auto simp: tag_free_def Cons_eq_append_conv)

lemma tag_free_append_blanks: "\<forall>c \<in> set b. c \<noteq> CHR ''<'' \<Longrightarrow> tag_free (b @ s) \<longleftrightarrow> tag_free s"
  by (induction b) (auto simp: tag_free_Cons)

lemma tag_free_suffix: "tag_free (p @ s) \<Longrightarrow> tag_free s"
  by (induction p) (auto simp: tag_free_Cons)

lemma tag_free_prefix: "tag_free (s @ q) \<Longrightarrow> tag_free s"
  by (induction s) (auto simp: tag_free_Cons hd_append split: if_splits)

lemma tag_at_shorter: "tag_at s = Some (r, rest) \<Longrightarrow> r = [] \<and> length rest < length s"
  by (auto simp: tag_at_def Let_def split: list.splits if_splits)
    (metis length_dropWhile_le length_tl less_Suc_eq_le diff_le_self le_trans)

lemma set_strip_tags: "set (replace_all tag_at s) \<subseteq> set s"
proof (induction s rule: length_induct)
  case (1 s)
  show ?case
  proof (cases "tag_at s")
    case None
    with 1 show ?thesis by (cases s) (auto simp: replace_all_None)
  next
    case (Some x)
    then obtain rest where r: "tag_at s = Some ([], rest)" and l: "length rest < length s"
      using tag_at_shorter by (cases x) blast
    have tl: "set (tl xs) \<subseteq> set xs" for xs :: string by (cases xs) auto
    have "set (tl (dropWhile p cs)) \<subseteq> set cs" for p and cs :: string
      using tl set_dropWhileD [of _ p cs] by blast
    with r have "set rest \<subseteq> set s"
      by (auto simp: tag_at_def Let_def split: list.splits if_splits)
    with 1 l show ?thesis by (auto simp: replace_all_Some [of tag_at, OF r l])
  qed
qed

lemma tag_at_gt [simp]: "tag_at (CHR ''>'' # s) = None"
  by (simp add: tag_at_def)

lemma strip_tags_free: "tag_free (replace_all tag_at s)"
proof (induction s rule: length_induct)
  case (1 s)
  show ?case
  proof (cases "tag_at s")
    case (Some x)
    then obtain rest where r: "tag_at s = Some ([], rest)" and l: "length rest < length s"
      using tag_at_shorter by (cases x) blast
    with 1 show ?thesis by (simp add: replace_all_Some [of tag_at, OF r l])
  next
    case None
    show ?thesis
    proof (cases s)
      case (Cons c cs)
      have IH: "tag_free (replace_all tag_at cs)" using 1 Cons by simp
      have "CHR ''>'' \<notin> set (replace_all tag_at cs) \<or> hd (replace_all tag_at cs) = CHR ''>''" if c: "c = CHR ''<''"
      proof (cases "CHR ''>'' \<in> set cs")
        case True
        with None Cons c have "hd cs = CHR ''>''"
          by (cases cs) (auto simp: tag_at_def Let_def dropWhile_eq_Nil_conv split: if_splits)
        with True show ?thesis by (cases cs) (simp_all add: replace_all_None)
      qed (use set_strip_tags in blast)
      with IH show ?thesis using replace_all_None [of tag_at, OF None] by (simp add: Cons tag_free_Cons)
    qed (simp add: tag_at_def)
  qed
qed

text \<open>Patterns that trade blanks for blanks create no tag.\<close>

definition blank_rule :: "matcher \<Rightarrow> bool" where
  "blank_rule m \<longleftrightarrow> (\<forall>s r rest. m s = Some (r, rest) \<longrightarrow>
     (\<exists>b. s = b @ rest \<and> b \<noteq> [] \<and> list_all is_blank b \<and> list_all is_blank r))"

lemma blank_neq [simp]: "is_blank c \<Longrightarrow> c \<noteq> CHR ''<''" "is_blank c \<Longrightarrow> c \<noteq> CHR ''>''"
  by (auto simp: is_blank_def)

lemma blank_rule_free:
  assumes "blank_rule m"
  shows "tag_free s \<Longrightarrow> tag_free (replace_all m s) \<and> (CHR ''>'' \<in> set (replace_all m s) \<longrightarrow> CHR ''>'' \<in> set s)"
proof (induction s rule: length_induct)
  case (1 s)
  show ?case
  proof (cases "m s")
    case (Some x)
    then obtain r rest where m: "m s = Some (r, rest)" by (cases x) auto
    with assms obtain b where b: "s = b @ rest" "b \<noteq> []" "list_all is_blank b" "list_all is_blank r"
      unfolding blank_rule_def by blast
    then have l: "length rest < length s" by simp
    have "tag_free rest" using 1(2) b(1) tag_free_suffix by blast
    with 1(1) l have rec: "tag_free (replace_all m rest)" "CHR ''>'' \<in> set (replace_all m rest) \<Longrightarrow> CHR ''>'' \<in> set rest" by blast+
    have r: "\<forall>c \<in> set r. c \<noteq> CHR ''<''" "CHR ''>'' \<notin> set r"
      using b(4) blank_neq unfolding list_all_iff by blast+
    have "tag_free (r @ replace_all m rest)" by (simp only: tag_free_append_blanks [OF r(1)] rec(1))
    moreover have "CHR ''>'' \<in> set (r @ replace_all m rest) \<longrightarrow> CHR ''>'' \<in> set s" using r(2) rec(2) by (simp add: b(1))
    ultimately show ?thesis by (simp only: replace_all_Some [of m, OF m l])
  next
    case None
    show ?thesis
    proof (cases s)
      case (Cons c cs)
      have IH: "tag_free (replace_all m cs)" "CHR ''>'' \<in> set (replace_all m cs) \<longrightarrow> CHR ''>'' \<in> set cs"
        using 1 Cons by (auto simp: tag_free_Cons)
      have "CHR ''>'' \<notin> set (replace_all m cs) \<or> hd (replace_all m cs) = CHR ''>''" if "c = CHR ''<''"
      proof (cases "CHR ''>'' \<in> set cs")
        case True
        with 1(2) Cons that obtain t where t: "cs = CHR ''>'' # t" by (cases cs) (auto simp: tag_free_Cons)
        have "m (CHR ''>'' # t) = None"
        proof (rule ccontr)
          assume "m (CHR ''>'' # t) \<noteq> None"
          then obtain x y where "m (CHR ''>'' # t) = Some (x, y)" by auto
          with assms obtain b where b: "CHR ''>'' # t = b @ y" "b \<noteq> []" "list_all is_blank b"
            unfolding blank_rule_def by blast
          then have "is_blank (CHR ''>'')" by (cases b) auto
          then show False by (simp add: is_blank_def)
        qed
        with t show ?thesis by (simp add: replace_all_None)
      qed (use IH in blast)
      with IH show ?thesis using replace_all_None [of m, OF None] by (auto simp: Cons tag_free_Cons)
    next
      case Nil
      with None show ?thesis by simp
    qed
  qed
qed

lemma spaces_rule: "blank_rule spaces_at"
  unfolding blank_rule_def
proof (intro allI impI)
  fix s r rest
  assume m: "spaces_at s = Some (r, rest)"
  have "list_all is_blank (takeWhile is_space_or_tab s)"
    by (auto simp: list_all_iff is_blank_def is_space_or_tab_def dest!: set_takeWhileD)
  moreover have "takeWhile is_space_or_tab s \<noteq> []" using m by (cases s) (auto simp: spaces_at_def split: if_splits)
  ultimately show "\<exists>b. s = b @ rest \<and> b \<noteq> [] \<and> list_all is_blank b \<and> list_all is_blank r"
    using m by (intro exI [of _ "takeWhile is_space_or_tab s"]) (auto simp: spaces_at_def is_blank_def split: if_splits)
qed

lemma blank_lines_rule: "blank_rule blank_lines_at"
  unfolding blank_rule_def
proof (intro allI impI)
  fix s r rest
  assume m: "blank_lines_at s = Some (r, rest)"
  then obtain cs where s: "s = CHR 0x0A # cs" and r: "r = newline @ newline"
    and rest: "rest = rev (takeWhile (\<lambda>x. x \<noteq> CHR 0x0A) (rev (takeWhile is_blank cs))) @ dropWhile is_blank cs"
    by (auto simp: blank_lines_at_def Let_def split: list.splits if_splits)
  let ?run = "takeWhile is_blank cs"
  let ?b = "rev (dropWhile (\<lambda>x. x \<noteq> CHR 0x0A) (rev ?run))"
  have run: "?run = ?b @ rev (takeWhile (\<lambda>x. x \<noteq> CHR 0x0A) (rev ?run))"
    by (metis rev_append rev_rev_ident takeWhile_dropWhile_id)
  have "cs = ?run @ dropWhile is_blank cs" by simp
  with rest run have "cs = ?b @ rest" by (metis append.assoc)
  moreover have "list_all is_blank ?b"
    by (auto simp: list_all_iff dest!: set_dropWhileD set_takeWhileD)
  ultimately show "\<exists>b. s = b @ rest \<and> b \<noteq> [] \<and> list_all is_blank b \<and> list_all is_blank r"
    using s r by (intro exI [of _ "CHR 0x0A # ?b"]) (auto simp: is_blank_def newline_def)
qed

lemma tag_free_trim: "tag_free s \<Longrightarrow> tag_free (trim s)"
proof -
  assume s: "tag_free s"
  have "tag_free (dropWhile is_blank s)"
    using s tag_free_suffix [of "takeWhile is_blank s" "dropWhile is_blank s"] by simp
  moreover have "dropWhile is_blank s = trim s @ rev (takeWhile is_blank (rev (dropWhile is_blank s)))"
    unfolding trim_def by (metis rev_append rev_rev_ident takeWhile_dropWhile_id)
  ultimately show ?thesis by (metis tag_free_prefix)
qed

text \<open>
  The plain text of a mail has no markup: whatever HTML the compiler of the template gives, and whatever the variables
  put into it, no tag is left in the text that goes out beside it.
\<close>

theorem plain_text_has_no_tags: "tag_free (html_to_text html)"
  unfolding html_to_text_def
  by (intro tag_free_trim conjunct1 [OF blank_rule_free [OF blank_lines_rule]] conjunct1 [OF blank_rule_free [OF spaces_rule]]
      strip_tags_free)


subsection \<open>Rendering, with the cache of compiled documents\<close>

type_synonym html_cache = "string \<Rightarrow> string option"

definition html_cache_key :: "notification_type \<Rightarrow> locale_code \<Rightarrow> string" where
  "html_cache_key ty l = notification_type_name ty @ '':'' @ locale_name l"

definition compile_html ::
  "(string \<Rightarrow> app_error + string) \<Rightarrow> notification_type \<Rightarrow> locale_code \<Rightarrow> (app_error, html_cache, string) act" where
  "compile_html mjml ty l =
     bnd (gets (\<lambda>c. c (html_cache_key ty l))) (\<lambda>cached.
     if truthy_str cached then ret (the cached)
     else
       bnd (from_sum (mjml (mjml_source ty l))) (\<lambda>html.
       bnd (upd (\<lambda>c. c(html_cache_key ty l \<mapsto> html))) (\<lambda>_. ret html)))"

definition render_email ::
  "(string \<Rightarrow> app_error + string) \<Rightarrow> notification_type \<Rightarrow> locale_code \<Rightarrow> json \<Rightarrow>
     (app_error, html_cache, string \<times> string \<times> string) act" where
  "render_email mjml ty l vars =
     bnd (compile_html mjml ty l) (\<lambda>html.
     (let substituted = substitute html vars
      in ret (substitute (pick_locale (es_subject (email_spec ty)) l) vars, substituted, html_to_text substituted)))"

text \<open>
  The renderer of the worker: the environment of \<open>Notify\<close> with the templates and the reduction to text of this theory.
  \<open>send_mail\<close> is \<open>MailerService.send\<close>, which does nothing when no SMTP host is configured.
\<close>

definition mail_template ::
  "(string \<Rightarrow> app_error + string) \<Rightarrow> notification_type \<Rightarrow> locale_code \<Rightarrow> app_error + string \<times> string" where
  "mail_template mjml ty l =
     sum_bind (mjml (mjml_source ty l)) (\<lambda>html. Inr (pick_locale (es_subject (email_spec ty)) l, html))"

definition send_mail :: "string \<Rightarrow> (mail \<Rightarrow> app_error + unit) \<Rightarrow> mail \<Rightarrow> app_error + unit" where
  "send_mail host transport m = (if host = [] then Inr () else transport m)"

definition mail_env ::
  "string \<Rightarrow> (string \<Rightarrow> app_error + string) \<Rightarrow> string \<Rightarrow> (mail \<Rightarrow> app_error + unit) \<Rightarrow> (json \<Rightarrow> app_error + unit) \<Rightarrow> notify_env" where
  "mail_env base mjml host transport pub =
     \<lparr>ne_baseUrl = base, ne_template = mail_template mjml, ne_htmlToText = html_to_text,
      ne_smtp = send_mail host transport, ne_publish = pub\<rparr>"

text \<open>The caches that a process can reach.\<close>

inductive reached_cache :: "(string \<Rightarrow> app_error + string) \<Rightarrow> html_cache \<Rightarrow> bool" for mjml where
  start: "reached_cache mjml Map.empty"
| render: "reached_cache mjml c \<Longrightarrow> reached_cache mjml (snd (render_email mjml ty l vars c))"

lemma locale_name_inj: "locale_name l = locale_name l' \<longleftrightarrow> l = l'"
  by (cases l; cases l') simp_all

lemma notification_type_name_inj: "notification_type_name ty = notification_type_name ty' \<longleftrightarrow> ty = ty'"
  by (cases ty; cases ty'; simp)

lemma no_colon: "CHR '':'' \<notin> set (notification_type_name ty)"
  by (cases ty) simp_all

lemma html_cache_key_inj: "html_cache_key ty l = html_cache_key ty' l' \<longleftrightarrow> ty = ty' \<and> l = l'"
proof
  assume eq: "html_cache_key ty l = html_cache_key ty' l'"
  have "takeWhile (\<lambda>c. c \<noteq> CHR '':'') (html_cache_key t k) = notification_type_name t" for t k
    using no_colon [of t] by (auto simp: html_cache_key_def takeWhile_append)
  with eq have "ty = ty'" by (metis notification_type_name_inj)
  with eq show "ty = ty' \<and> l = l'" by (simp add: html_cache_key_def locale_name_inj)
qed simp

definition cache_sound :: "(string \<Rightarrow> app_error + string) \<Rightarrow> html_cache \<Rightarrow> bool" where
  "cache_sound mjml c \<longleftrightarrow> (\<forall>ty l h. c (html_cache_key ty l) = Some h \<longrightarrow> mjml (mjml_source ty l) = Inr h)"

lemma compile_html_sound:
  assumes "cache_sound mjml c"
  shows "fst (compile_html mjml ty l c) = mjml (mjml_source ty l) \<and> cache_sound mjml (snd (compile_html mjml ty l c))"
proof (cases "truthy_str (c (html_cache_key ty l))")
  case True
  with assms show ?thesis
    by (auto simp: compile_html_def act_simps truthy_str_def cache_sound_def split: option.splits)
next
  case False
  with assms show ?thesis
    by (cases "mjml (mjml_source ty l)") (auto simp: compile_html_def act_simps cache_sound_def html_cache_key_inj)
qed

lemma render_email_cases:
  "render_email mjml ty l vars c =
     (case compile_html mjml ty l c of
        (Inl e, c') \<Rightarrow> (Inl e, c')
      | (Inr html, c') \<Rightarrow> (Inr (substitute (pick_locale (es_subject (email_spec ty)) l) vars, substitute html vars,
                                  html_to_text (substitute html vars)), c'))"
  by (simp add: render_email_def bnd_apply Let_def split: prod.splits sum.splits)

lemma reached_cache_sound: "reached_cache mjml c \<Longrightarrow> cache_sound mjml c"
proof (induction rule: reached_cache.induct)
  case (render c ty l vars)
  have "snd (render_email mjml ty l vars c) = snd (compile_html mjml ty l c)"
    by (simp add: render_email_cases split: prod.splits sum.splits)
  with compile_html_sound [OF render(2)] show ?case by simp
qed (simp add: cache_sound_def)

text \<open>
  The cache of compiled mails is invisible: whatever mails a worker has rendered before, it renders an event to the same
  subject, HTML and text, or fails with the same error, as compiling its template anew.
\<close>

theorem cached_mail_is_fresh:
  assumes "reached_cache mjml c"
  shows "fst (render_email mjml ty l vars c) = render_mail (mail_env base mjml host transport pub) ty l vars"
  using compile_html_sound [OF reached_cache_sound [OF assms], of ty l]
  by (cases "compile_html mjml ty l c"; cases "fst (compile_html mjml ty l c)")
    (auto simp: render_email_cases render_mail_def mail_env_def mail_template_def Let_def)

definition echo :: "string \<Rightarrow> app_error + string" where
  "echo s = Inr (''<p>'' @ s @ ''</p>'')"

theorem cached_mail_is_fresh_witness:
  "fst (render_email echo ADMIN_DEMOTED LId (JObj []) (snd (render_email echo ADMIN_DEMOTED LId (JObj []) Map.empty))) =
     render_mail (mail_env ''u'' echo ''h'' (\<lambda>_. Inr ()) (\<lambda>_. Inr ())) ADMIN_DEMOTED LId (JObj [])"
  by (rule cached_mail_is_fresh [OF reached_cache.render [OF reached_cache.start]])

subsection \<open>The variables of a template\<close>

function variables :: "string \<Rightarrow> string list" where
  "variables s =
     (case variable_at s of
        Some (path, rest) \<Rightarrow> path # variables rest
      | None \<Rightarrow> (case s of [] \<Rightarrow> [] | c # cs \<Rightarrow> variables cs))"
  by pat_completeness auto
termination
  by (relation "measure length") (auto dest: variable_at_shorter)

declare variables.simps [simp del]

definition spec_texts :: "notification_type \<Rightarrow> locale_code \<Rightarrow> string list" where
  "spec_texts ty l =
     (let spec = email_spec ty
      in map (\<lambda>f. pick_locale f l) [es_subject spec, es_eyebrow spec, es_title spec, es_body spec] @
         (case es_cta spec of None \<Rightarrow> [] | Some c \<Rightarrow> [pick_locale (ct_label c) l, ct_href c]))"

definition mail_variables :: "notification_type \<Rightarrow> locale_code \<Rightarrow> string list" where
  "mail_variables ty l = remdups (concat (map variables (spec_texts ty l)))"

end
