(* ===== verification/Accounts.thy ===== *)
theory Accounts
  imports Console Mailer
begin

section \<open>Which operations touch the accounts and the queues\<close>

text \<open>
  The table of users is written by the resolution of the caller, by promotion and demotion and by the choice of a locale;
  jobs are queued by \<open>submit\<close> alone, and a notification is queued with the fields its mail needs.  The locale
  \<open>frame_invariant\<close> is the contract of an invariant that looks at nothing but these two; \<open>op_kept\<close> collects, once for all
  such invariants, that every operation an endpoint calls keeps it, and \<open>api_invariant\<close> turns that into facts on requests.
\<close>

named_theorems op_kept

subsection \<open>Notifications with all their fields\<close>

text \<open>
  \<open>src/modules/notifications/payloads/index.ts\<close>: the fields every payload of a type must have, as paths; a \<open>UserRef\<close> has an
  id and a name.  \<open>mail_paths\<close> are the fields of the payload that the mail of the type mentions.
\<close>

definition user_ref_paths :: "string \<Rightarrow> string list list" where
  "user_ref_paths k = [[k, ''id''], [k, ''displayName'']]"

definition asset_ref_paths :: "string list list" where
  "asset_ref_paths = [[''assetId''], [''assetSlug''], [''assetTitle'']]"

fun payload_shape :: "notification_type \<Rightarrow> string list list" where
  "payload_shape COMMENT_CREATED = asset_ref_paths @ [[''commentId''], [''commentExcerpt'']] @ user_ref_paths ''author''"
| "payload_shape COMMENT_REPLY =
     asset_ref_paths @ [[''commentId''], [''commentExcerpt'']] @ user_ref_paths ''author'' @ [[''parentCommentId'']]"
| "payload_shape ISSUE_CREATED = asset_ref_paths @ [[''commentId''], [''commentExcerpt'']] @ user_ref_paths ''author''"
| "payload_shape ISSUE_STATUS_CHANGED = asset_ref_paths @ [[''commentId''], [''newStatus'']] @ user_ref_paths ''changedBy''"
| "payload_shape REQUEST_CREATED =
     [[''requestId'']] @ user_ref_paths ''requester'' @ [[''assetLink''], [''assetType''], [''intendedUse'']]"
| "payload_shape REQUEST_STATUS_CHANGED = [[''requestId''], [''newStatus'']]"
| "payload_shape REPORT_CREATED = asset_ref_paths @ [[''reportId''], [''category'']] @ user_ref_paths ''reporter''"
| "payload_shape REPORT_RECEIVED_FOR_YOUR_ASSET = asset_ref_paths @ [[''reportId''], [''category'']]"
| "payload_shape FEATURED_FEATURED = asset_ref_paths @ [[''featuredAt'']]"
| "payload_shape VERSION_PUBLISHED = asset_ref_paths @ [[''versionId''], [''semver'']]"
| "payload_shape ANALYZER_FAILED = asset_ref_paths @ [[''versionId''], [''reason'']]"
| "payload_shape ADMIN_PROMOTED = []"
| "payload_shape ADMIN_DEMOTED = []"

definition is_link :: "string \<Rightarrow> bool" where
  "is_link p = starts_with ''links.'' p"

definition mail_paths :: "notification_type \<Rightarrow> string list list" where
  "mail_paths ty =
     map (split_on CHR ''.'') (filter (\<lambda>p. \<not> is_link p) (remdups (mail_variables ty LEn @ mail_variables ty LId)))"

definition has_path :: "json \<Rightarrow> string list \<Rightarrow> bool" where
  "has_path v p = (case lookup_path (Some v) p of None \<Rightarrow> False | Some x \<Rightarrow> x \<noteq> JNull)"

definition notice_filled :: "notify_job \<Rightarrow> bool" where
  "notice_filled n = list_all (has_path (nj_payload n)) (payload_shape (nj_type n) @ mail_paths (nj_type n))"

definition payload_filled :: "job_payload \<Rightarrow> bool" where
  "payload_filled p = (case p of NotifyJob n \<Rightarrow> notice_filled n | _ \<Rightarrow> True)"

lemma mail_paths_eval:
  "mail_paths COMMENT_CREATED = [[''author'', ''displayName''], [''assetTitle''], [''commentExcerpt'']]"
  "mail_paths COMMENT_REPLY = [[''author'', ''displayName''], [''assetTitle''], [''commentExcerpt'']]"
  "mail_paths ISSUE_CREATED = [[''author'', ''displayName''], [''assetTitle''], [''commentExcerpt'']]"
  "mail_paths ISSUE_STATUS_CHANGED = [[''changedBy'', ''displayName''], [''assetTitle''], [''newStatus'']]"
  "mail_paths REQUEST_CREATED = [[''requester'', ''displayName''], [''assetType''], [''intendedUse'']]"
  "mail_paths REQUEST_STATUS_CHANGED = [[''newStatus''], [''adminComment'']]"
  "mail_paths REPORT_CREATED = [[''reporter'', ''displayName''], [''category''], [''assetTitle'']]"
  "mail_paths REPORT_RECEIVED_FOR_YOUR_ASSET = [[''category''], [''assetTitle'']]"
  "mail_paths FEATURED_FEATURED = [[''assetTitle'']]"
  "mail_paths VERSION_PUBLISHED = [[''assetTitle''], [''semver'']]"
  "mail_paths ANALYZER_FAILED = [[''assetTitle''], [''reason'']]"
  "mail_paths ADMIN_PROMOTED = []"
  "mail_paths ADMIN_DEMOTED = []"
  by code_simp+

lemma has_path_Obj:
  "has_path (JObj fs) [k] = (case map_of fs k of None \<Rightarrow> False | Some x \<Rightarrow> x \<noteq> JNull)"
  "has_path (JObj fs) [k, k'] = (case map_of fs k of None \<Rightarrow> False | Some x \<Rightarrow> has_path x [k'])"
  by (simp_all add: has_path_def split: option.splits)

lemmas filled_simps = notice_filled_def mail_paths_eval has_path_Obj asset_ref_paths_def user_ref_paths_def notify_of_def
  asset_ref_fields_def user_ref_json_def

text \<open>Every notification of the services has the fields of its type.\<close>

lemma comment_notices_filled:
  "notice_filled (notify_of r COMMENT_REPLY (comment_payload a i u body @ [(''parentCommentId'', JStr p)]) u)"
  "notice_filled (notify_of r ISSUE_CREATED (comment_payload a i u body) u)"
  "notice_filled (notify_of r COMMENT_CREATED (comment_payload a i u body) u)"
  "notice_filled (notify_of r ISSUE_STATUS_CHANGED
     (asset_ref_or_empty j w @ [(''commentId'', JStr i), (''newStatus'', JStr s), (''changedBy'', user_ref_json u)]) v)"
  by (simp_all add: filled_simps comment_payload_def asset_ref_or_empty_def)

lemma report_notices_filled: "n \<in> set (report_notices i a cat u admins) \<Longrightarrow> notice_filled n"
  by (auto simp: report_notices_def Let_def filled_simps report_payload_def split: if_splits)

lemma request_notices_filled:
  "notice_filled (request_notice i dto u admin)"
  "notice_filled (notify_of r REQUEST_STATUS_CHANGED
     [(''requestId'', JStr i), (''newStatus'', JStr s), (''adminComment'', JStr c)] u)"
  by (simp_all add: filled_simps request_notice_def)

lemma other_notices_filled:
  "notice_filled (notify_of r FEATURED_FEATURED (asset_ref_fields a @ [(''featuredAt'', JStr t)]) u)"
  "notice_filled \<lparr>nj_recipient = r, nj_type = ADMIN_PROMOTED, nj_payload = v, nj_drop = d, nj_actor = x\<rparr>"
  "notice_filled \<lparr>nj_recipient = r, nj_type = ADMIN_DEMOTED, nj_payload = v, nj_drop = d, nj_actor = x\<rparr>"
  "notice_filled \<lparr>nj_recipient = r, nj_type = ANALYZER_FAILED,
     nj_payload = JObj (asset_ref_fields a @ [(''versionId'', JStr i), (''reason'', JStr s)]), nj_drop = d, nj_actor = x\<rparr>"
  by (simp_all add: filled_simps)

lemmas notices_filled = comment_notices_filled request_notices_filled other_notices_filled

subsection \<open>Invariants that look at users and jobs only\<close>

lemma keeps_case_prod [keeps_intro]: "(\<And>a b. keeps I (f a b)) \<Longrightarrow> keeps I (case p of (a, b) \<Rightarrow> f a b)"
  by (cases p) simp

lemma keeps_case_list [keeps_intro]:
  "keeps I m \<Longrightarrow> (\<And>x ys. keeps I (f x ys)) \<Longrightarrow> keeps I (case xs of [] \<Rightarrow> m | x # ys \<Rightarrow> f x ys)"
  by (cases xs) auto

lemma keeps_Let [keeps_intro]: "(\<And>x. keeps I (f x)) \<Longrightarrow> keeps I (Let v f)"
  by (simp add: Let_def)

lemma keeps_each_in: "(\<And>x. x \<in> set xs \<Longrightarrow> keeps I (f x)) \<Longrightarrow> keeps I (each f xs)"
  by (induction xs) (auto intro: keeps_intro)

lemma keeps_gets_then: "(\<And>s. keeps I (f (g s))) \<Longrightarrow> keeps I (bnd (gets g) f)"
  by (simp add: keeps_def bnd_gets)

lemma keeps_lbnd:
  assumes "lbnd m f w = Some (r, w')" and "I w" and "\<And>q s. m w = Some (q, s) \<Longrightarrow> I s"
    and "\<And>x s. I s \<Longrightarrow> f x s = Some (r, w') \<Longrightarrow> I w'"
  shows "I w'"
  using assms by (auto simp: lbnd_def split: option.splits sum.splits)

lemma other_rows [simp]:
  "users (set_asset i f w) = users w" "users (set_version i g w) = users w" "users (set_file i h w) = users w"
  "users (set_comment i c w) = users w" "users (set_report i r w) = users w"
  "jobs (set_asset i f w) = jobs w" "jobs (set_version i g w) = jobs w" "jobs (set_file i h w) = jobs w"
  "jobs (set_comment i c w) = jobs w" "jobs (set_report i r w) = jobs w"
  by (simp_all add: set_asset_def set_version_def set_file_def set_comment_def set_report_def)

lemma other_items [simp]:
  "users (upsert_item now i f u a w) = users w" "jobs (upsert_item now i f u a w) = jobs w"
  "users (merge_all into ss w) = users w" "jobs (merge_all into ss w) = jobs w"
proof -
  show "users (merge_all into ss w) = users w" "jobs (merge_all into ss w) = jobs w"
    by (induction into ss w rule: merge_all.induct) (auto simp: merge_one_def Let_def)
qed (simp_all add: upsert_item_def)

locale frame_invariant =
  fixes I :: "world \<Rightarrow> bool"
  assumes looks: "users v = users w \<Longrightarrow> jobs v = jobs w \<Longrightarrow> I w \<Longrightarrow> I v"
    and queued: "payload_filled p \<Longrightarrow> I w \<Longrightarrow> I (jobs_update (\<lambda>js. js @ [\<lparr>jb_id = i, jb_payload = p\<rparr>]) w)"
begin

lemma kept_upd: "(\<And>w. users (f w) = users w \<and> jobs (f w) = jobs w) \<Longrightarrow> keeps I (upd f)"
  by (rule keeps_upd) (blast intro: looks)

lemma kept_fun: "(\<And>w. users (snd (h w)) = users w \<and> jobs (snd (h w)) = jobs w) \<Longrightarrow> keeps I h"
  unfolding keeps_def by (blast intro: looks)

lemma kept_submit: "payload_filled p \<Longrightarrow> keeps I (submit i p)"
  unfolding submit_def by (intro keeps_intro keeps_upd queued)

lemma kept_enqueue [op_kept]:
  "keeps I (enqueueAnalyzeFile a b' c)" "keeps I (enqueueAnalyzeVersion a r)" "keeps I (enqueueThumbnailVariants a b')"
  "keeps I (enqueueSearchIndex a s)" "keeps I (enqueueGltfConvert x y z k)" "keeps I (enqueueThumbnailRender x y)"
  "keeps I (enqueueWebhook h)" "notice_filled n \<Longrightarrow> keeps I (enqueueNotify n)"
  by (simp_all add: enqueue_defs kept_submit payload_filled_def)

lemma kept_each_notice: "(\<And>n. n \<in> set ns \<Longrightarrow> notice_filled n) \<Longrightarrow> keeps I (each enqueueNotify ns)"
  by (rule keeps_each_in) (simp add: op_kept)

lemma kept_audit [op_kept]: "keeps I (audit_record now a b c d e)"
  unfolding audit_record_def by (rule kept_upd) simp

lemma kept_invalidate [op_kept]: "keeps I (cache_invalidate up ks)"
  unfolding cache_invalidate_def by (intro keeps_intro kept_upd) simp

lemma kept_on_redis [op_kept]: "keeps I (on_redis m)"
  by (rule kept_fun) (simp add: on_redis_def split: prod.splits)

lemma kept_publish [op_kept]: "keeps I (publish env u e)"
  unfolding publish_def by (intro keeps_intro kept_upd) simp

lemma kept_reading [op_kept]: "keeps I (reading f)"
  by (rule kept_fun) (simp add: reading_def)

lemma kept_get_or_fetch [op_kept]: "keeps I (get_or_fetch up now k t f)"
  by (rule kept_fun) (simp add: get_or_fetch_def Let_def split: option.splits)

lemma kept_delete_object [op_kept]: "keeps I (delete_object cfg c r k)"
  unfolding delete_object_def by (intro keeps_intro kept_upd) simp

lemma kept_assert_can_edit [op_kept]: "keeps I (assert_can_edit a u)"
  unfolding assert_can_edit_def by (rule keeps_intro)

lemma kept_owned [op_kept]: "(\<And>a. keeps I (f a)) \<Longrightarrow> keeps I (with_owned_asset i u f)"
  unfolding with_owned_asset_def assert_can_edit_def by (intro keeps_intro)

lemma kept_owned_version [op_kept]: "(\<And>v. keeps I (f v)) \<Longrightarrow> keeps I (with_owned_version i u f)"
  unfolding with_owned_version_def assert_can_edit_def by (intro keeps_intro)

lemma kept_small [op_kept]:
  "keeps I (invalidate_categories up)" "keeps I (invalidate_licenses up)" "keeps I (invalidate_popular up)"
  "keeps I (invalidate_discover up)" "keeps I (category_find_or_throw c)" "keeps I (license_find_or_throw l)"
  "keeps I (reindex_category_assets c)"
  by (auto simp: invalidate_categories_def invalidate_licenses_def invalidate_popular_def invalidate_discover_def
      category_find_or_throw_def license_find_or_throw_def reindex_category_assets_def
      intro!: keeps_intro op_kept kept_upd)

lemma kept_assets [op_kept]:
  "keeps I (publish_asset up now i u)" "keeps I (archive_asset up now i u)" "keeps I (soft_delete_asset up now i u)"
  "keeps I (restore_asset up now i u)"
  unfolding publish_asset_def publish_body_def archive_asset_def soft_delete_asset_def restore_asset_def restore_body_def
    transition_status_def transition_body_def
  by (auto intro!: keeps_intro op_kept kept_upd)

lemma kept_versions [op_kept]:
  "keeps I (create_version_row now i dto j u)" "keeps I (update_version_row n i u)" "keeps I (publish_version now i u)"
  "keeps I (reanalyze up i u)" "keeps I (set_compatibility rows i u)"
  unfolding create_version_row_def create_version_body_def update_version_row_def update_version_body_def
    publish_version_def publish_version_body_def make_latest_def reanalyze_def reanalyze_body_def set_compatibility_def
    set_compatibility_body_def
  by (auto intro!: keeps_intro op_kept kept_upd)

lemma kept_upsert_tag [op_kept]: "keeps I (upsert_tag now nfkd i name)"
  unfolding upsert_tag_def by (auto intro!: keeps_intro kept_upd)

lemma kept_upsert_each [op_kept]: "keeps I (upsert_each now nfkd xs)"
  by (induction xs rule: upsert_each.induct [of _ now nfkd])
    (auto simp only: upsert_each.simps intro!: keeps_intro op_kept)

lemma kept_upsert_tags [op_kept]: "keeps I (upsert_tags now nfkd f xs)"
  unfolding upsert_tags_def by (auto intro!: keeps_intro op_kept)

lemma kept_allocate_from [op_kept]: "keeps I (allocate_from n f t)"
  by (induction n f t rule: allocate_from.induct) (auto simp only: allocate_from.simps intro!: keeps_intro)

lemma kept_parts [op_kept]:
  "keeps I (insert_text now i a t)" "keeps I (upsert_text now i a t)" "keeps I (insert_asset_tag a tg)"
  "keeps I (allocate_slug nfkd s1 f s2)" "keeps I (replace_tags now nfkd g a ts)" "keeps I (update_semver a s3)"
  "keeps I (check_patch i a' dto d)"
  unfolding insert_text_def upsert_text_def insert_asset_tag_def allocate_slug_def replace_tags_def update_semver_def check_patch_def
  by (auto intro!: keeps_intro op_kept kept_upd)

lemma kept_create_asset [op_kept]: "keeps I (create_asset_row nfkd up now fr dto u)"
  unfolding create_asset_row_def create_asset_tx_def by (auto intro!: keeps_intro op_kept kept_upd)

lemma kept_update_asset [op_kept]: "keeps I (update_asset_row nfkd up now fr dto i u)"
  unfolding update_asset_row_def update_asset_body_def update_asset_tx_def by (auto intro!: keeps_intro op_kept kept_upd)

lemma kept_create_once [op_kept]: "keeps I (create_once b k fr dto body u)"
  unfolding create_once_def redis_call_def by (auto intro!: keeps_intro op_kept)

lemma kept_handles [op_kept]:
  "keeps I (save_handle up now i h)" "keeps I (load_handle up now i)" "keeps I (drop_handle up i)"
  "keeps I (get_version_or_throw i u)" "keeps I (recount_version i)" "keeps I (enqueue_after_completion up now f)"
  "keeps I (update_file_meta i md)" "keeps I (check_owner_of_handle h u)"
  unfolding save_handle_def load_handle_def drop_handle_def get_version_or_throw_def recount_version_def
    enqueue_after_completion_def update_file_meta_def check_owner_of_handle_def
  by (auto intro!: keeps_intro op_kept kept_upd)

lemma kept_files [op_kept]:
  "keeps I (initiate_upload cfg c up now ids dto u)" "keeps I (complete_upload cfg c up now i u)"
  "keeps I (initiate_multipart cfg c up now ids dto n u)" "keeps I (sign_multipart_parts cfg c up now i ns u)"
  "keeps I (complete_multipart_upload cfg c up now i u)" "keeps I (abort_multipart cfg c up now i u)"
  "keeps I (initiate_thumbnail cfg c now x y z u)" "keeps I (complete_thumbnail now k i u)"
  "keeps I (reorder_files i ids' u)" "keeps I (delete_file cfg c i u)"
  unfolding initiate_upload_def begin_upload_def create_file_row_def complete_upload_def finish_upload_def initiate_multipart_def
    sign_multipart_parts_def complete_multipart_upload_def abort_multipart_def initiate_thumbnail_def complete_thumbnail_def
    reorder_files_def delete_file_def
  by (auto intro!: keeps_intro op_kept kept_upd)

lemma kept_comments [op_kept]:
  "keeps I (create_comment_row now i a dto' u)" "keeps I (edit_comment now i body u)" "keeps I (admin_delete_comment now i u)"
  unfolding create_comment_row_def parent_depth_def notify_comment_def edit_comment_def admin_delete_comment_def
  by (auto intro!: keeps_intro op_kept kept_upd notices_filled)

lemma kept_issue_status [op_kept]: "keeps I (set_issue_status i st u)"
  unfolding set_issue_status_def
  by (intro keeps_bnd [OF keeps_fetch] keeps_bnd [OF keeps_check] keeps_bnd [OF kept_upd] keeps_if keeps_ret keeps_gets_then
      kept_enqueue notices_filled) simp_all

lemma kept_create_report [op_kept]: "keeps I (create_report_row now i dto' u)"
  unfolding create_report_row_def
  by (intro keeps_bnd keeps_fetch keeps_gets keeps_ret kept_upd kept_each_notice report_notices_filled) simp_all

lemma kept_reports [op_kept]:
  "keeps I (start_review now i u)" "keeps I (dismiss_report now i u notes)" "keeps I (get_report i)"
  "keeps I (resolve_report now i st notes)"
  unfolding start_review_def dismiss_report_def get_report_def report_audit_def resolve_report_def
  by (auto intro!: keeps_intro op_kept kept_upd)

lemma kept_create_request [op_kept]: "keeps I (create_request_row dec now i dto' u)"
  unfolding create_request_row_def
  by (intro keeps_bnd keeps_gets keeps_ret kept_upd kept_each_notice) (auto simp: notices_filled)

lemma kept_requests [op_kept]: "keeps I (get_request i u)" "keeps I (admin_update_request now i u up')"
  unfolding get_request_def admin_update_request_def
  by (auto intro!: keeps_intro op_kept kept_upd notices_filled)

lemma kept_personal [op_kept]:
  "keeps I (add_item now i u a)" "keeps I (remove_item u a)" "keeps I (set_hidden u a h)"
  "keeps I (download_options a v u)" "keeps I (initiate_download cfg c sha pepper now fresh l req u)"
  "keeps I (mark_read now u i)" "keeps I (mark_all_read now u)" "keeps I (revoke_plugin_device now x y)"
  "keeps I (asset_analytics now u a)" "keeps I (license_detail i loc)" "keeps I (license_list loc up now)"
  "keeps I (category_list loc up now)" "keeps I (popular_tags lim up now)"
  unfolding add_item_def remove_item_def set_hidden_def download_options_def initiate_download_def downloadable_def
    record_downloads_def mark_read_def mark_all_read_def revoke_plugin_device_def revoke_by_device_id_def asset_analytics_def
    license_detail_def license_list_def category_list_def popular_tags_def license_find_or_throw_def
  by (auto intro!: keeps_intro op_kept kept_upd)

lemma kept_refresh [op_kept]: "keeps I (refresh_expiry cfg now tok)"
  by (rule kept_fun) (simp add: refresh_expiry_def Let_def split: option.splits)

lemma kept_tokens [op_kept]:
  "keeps I (issue_token cfg now i tok u l)" "keeps I (refresh_plugin_token env now tok)"
  unfolding issue_token_def refresh_plugin_token_def
  by (auto intro!: keeps_intro kept_upd kept_refresh)

lemma kept_discover [op_kept]: "keeps I (get_discover cfg c up now loc)"
  by (rule kept_fun) (simp add: get_discover_def act_simps Let_def split: option.splits sum.splits)

lemma kept_catalog [op_kept]:
  "keeps I (create_category_row up now i u cc)" "keeps I (update_category_row up now i u uc ch)" "keeps I (remove_category up now i u)"
  "keeps I (reorder_categories up now is u)" "keeps I (create_license_row up now i u cl)" "keeps I (update_license_row up now i u ul ch)"
  "keeps I (remove_license up now i u)" "keeps I (merge_tag_rows up now u mt)" "keeps I (update_tag_row up now i u ut ch)"
  "keeps I (remove_tag up now i u)"
  unfolding create_category_row_def update_category_row_def remove_category_def reorder_categories_def set_category_order_def
    create_license_row_def update_license_row_def remove_license_def merge_tag_rows_def update_tag_row_def remove_tag_def
  by (auto intro!: keeps_intro op_kept kept_upd)

lemma kept_slots [op_kept]:
  "keeps I (create_slot cfg c up now i u cs)" "keeps I (update_slot cfg c up now ch i u us)" "keeps I (remove_slot up now i u)"
  "keeps I (reorder_slots up now is u)"
  unfolding create_slot_def update_slot_def remove_slot_def reorder_slots_def check_cap_def insert_slot_def place_slot_def
    slot_audit_def set_slot_def
  by (auto intro!: keeps_intro op_kept kept_upd notices_filled)

lemma kept_moderation [op_kept]:
  "keeps I (moderate_archive up now i u s)" "keeps I (moderate_restore up now i u)" "keeps I (moderate_soft_delete up now i u s)"
  "keeps I (transfer_asset now i u s)" "keeps I (dashboard_get up now)"
  unfolding moderate_archive_def moderate_soft_delete_def moderate_status_def moderate_restore_def transfer_asset_def
    restore_body_def find_asset_or_throw_def moderation_audit_def dashboard_get_def
  by (auto intro!: keeps_intro op_kept kept_upd)

subsection \<open>Requests\<close>

lemma kept_as_user [op_kept]: "(\<And>u. keeps I (f u)) \<Longrightarrow> keeps I (as_user f who)"
  unfolding as_user_def by (auto intro!: keeps_intro split: option.splits prod.splits)

lemma kept_my_page [op_kept]: "keeps I (my_page who)"
  unfolding my_page_def by (auto intro!: keeps_intro split: option.splits prod.splits)

lemma force_delete_kept: "force_delete cfg st c meili up now i admin reason w = Some (r, w') \<Longrightarrow> I w \<Longrightarrow> I w'"
  by (rule looks) (simp_all add: force_delete_reports)

lemma apply_action_kept: "apply_action env now a x u y z v = Some (r, v') \<Longrightarrow> I v \<Longrightarrow> I v'"
  by (cases a) (auto simp: always_def dest: force_delete_kept keepsD [OF kept_moderation(1)] keepsD [OF kept_moderation(3)])

lemma kept_action_end:
  "keeps I (bnd (resolve_report now i st n) (\<lambda>_. report_audit now u act j meta))"
  unfolding report_audit_def by (intro keeps_intro op_kept)

lemma action_report_kept: "action_report env now i u dto w = Some (r, w') \<Longrightarrow> I w \<Longrightarrow> I w'"
  unfolding action_report_def
  by (elim keeps_lbnd)
    (auto simp: always_def split: option.splits dest: apply_action_kept keepsD [OF kept_action_end])

end

text \<open>
  An invariant that in addition survives what the guards and the endpoints of a user may do to his row; \<open>B\<close> are the
  subjects whose claims make them admins.
\<close>

locale api_invariant = frame_invariant I for I :: "world \<Rightarrow> bool" +
  fixes B :: "string set"
  assumes refreshed: "I w \<Longrightarrow> \<forall>u. u_sub (f u) = u_sub u \<and> u_deletedAt (f u) = u_deletedAt u \<and>
        (u_isAdmin u \<longrightarrow> u_isAdmin (f u)) \<and> (u_isAdmin (f u) \<longrightarrow> u_isAdmin u \<or> s \<in> B) \<Longrightarrow>
      I (users_update (set_rows (\<lambda>x. u_sub x = s) f) w)"
    and added: "I w \<Longrightarrow> u_isAdmin u \<longrightarrow> u_sub u \<in> B \<Longrightarrow> I (users_update (\<lambda>us. us @ [u]) w)"
    and relocated: "I w \<Longrightarrow> I (users_update (set_rows p (u_locale_update g)) w)"

sublocale api_invariant \<subseteq> request: request_invariant I B
  by unfold_locales (auto intro: refreshed added looks)

context api_invariant
begin

lemma keeps_call: "boot_subjects (be_auth b) \<subseteq> B \<Longrightarrow> (\<And>who. keeps I (h who)) \<Longrightarrow> keeps I (call b r rq h)"
  unfolding call_def by (rule request.keeps_serve)

lemma keeps_update_locale: "keeps I (update_locale i l)"
  unfolding update_locale_def by (auto intro!: keeps_intro keeps_upd relocated)

lemma keeps_exchange: "boot_subjects env \<subseteq> B \<Longrightarrow> keeps I (exchange_plugin_token env now uid tid rd tok l)"
  unfolding exchange_plugin_token_def
  by (auto intro!: keeps_intro request.keeps_upsert_user op_kept simp: boot_subjects_def split: option.splits)

lemma looping_keeps:
  assumes "serve_looping (be_server b) r rq (as_user_looping h) w = Some y" and "boot_subjects (be_auth b) \<subseteq> B" and "I w"
    and "\<And>u v r' v'. h u v = Some (r', v') \<Longrightarrow> I v \<Longrightarrow> I v'"
  shows "I (snd y)"
proof (rule request.keeps_serve_looping [OF _ assms(1,3,2)])
  fix who v x
  assume "as_user_looping h who v = Some x" and "I v"
  then show "I (snd x)"
    using assms(4) by (cases x) (auto simp: as_user_looping_def always_def split: option.splits)
qed

end

subsection \<open>The two kinds of invariant\<close>

text \<open>Whatever holds of the table of users alone.\<close>

abbreviation kept :: "(user_row list \<Rightarrow> bool) \<Rightarrow> 'a handler \<Rightarrow> bool" where
  "kept J h \<equiv> keeps (\<lambda>w. J (users w)) h"

locale account_invariant =
  fixes J :: "user_row list \<Rightarrow> bool" and B :: "string set"
  assumes refreshed: "J us \<Longrightarrow> \<forall>u. u_sub (f u) = u_sub u \<and> u_deletedAt (f u) = u_deletedAt u \<and>
        (u_isAdmin u \<longrightarrow> u_isAdmin (f u)) \<and> (u_isAdmin (f u) \<longrightarrow> u_isAdmin u \<or> s \<in> B) \<Longrightarrow>
      J (set_rows (\<lambda>x. u_sub x = s) f us)"
    and added: "J us \<Longrightarrow> u_isAdmin u \<longrightarrow> u_sub u \<in> B \<Longrightarrow> J (us @ [u])"
    and relocated: "J us \<Longrightarrow> J (set_rows p (u_locale_update g) us)"

sublocale account_invariant \<subseteq> api: api_invariant "\<lambda>w. J (users w)" B
  by unfold_locales (use refreshed added relocated in auto)

interpretation users_frame: frame_invariant "\<lambda>w. J (users w)" for J
  by unfold_locales simp_all

text \<open>Every notification that waits in a queue has the fields of its type.\<close>

definition mails_ok :: "world \<Rightarrow> bool" where
  "mails_ok w \<longleftrightarrow> list_all (\<lambda>j. payload_filled (jb_payload j)) (jobs w)"

interpretation queued_mails: api_invariant mails_ok UNIV
  by unfold_locales (simp_all add: mails_ok_def)

end
