(* ===== verification/AuditLog.thy ===== *)
theory AuditLog
  imports Console
begin

section \<open>Reading the audit log\<close>

text \<open>
  \<open>src/modules/audit/audit.controller.ts\<close>.  The rows of the log carry no ids in this model; here the id of a row is a function
  \<open>ids\<close> of its position, as the table stands.  \<open>new Date\<close> on a text is a parameter: a bound it cannot read makes Prisma
  refuse the query.
\<close>

record audit_query =
  aq_actorId :: "string option"
  aq_action :: "string option"
  aq_subjectType :: "string option"
  aq_subjectId :: "string option"
  aq_from :: "string option"
  aq_to :: "string option"
  aq_limit :: "int option"
  aq_cursor :: "string option"

type_synonym audit_entry = "string \<times> audit_row"

definition audit_entries :: "(nat \<Rightarrow> string) \<Rightarrow> world \<Rightarrow> audit_entry list" where
  "audit_entries ids w = map (\<lambda>(n, r). (ids n, r)) (enumerate 0 (audit_logs w))"

definition equal_to :: "string option \<Rightarrow> string option \<Rightarrow> bool" where
  "equal_to wanted v = (case truthy_opt wanted of None \<Rightarrow> True | Some s \<Rightarrow> v = Some s)"

definition audit_bound :: "(string \<Rightarrow> int option) \<Rightarrow> string option \<Rightarrow> app_error + int option" where
  "audit_bound date_parse raw =
     (case truthy_opt raw of
        None \<Rightarrow> Inr None
      | Some s \<Rightarrow> (case date_parse s of None \<Rightarrow> Inl (OtherError (RemoteFailure ''Invalid Date'')) | Some t \<Rightarrow> Inr (Some t)))"

definition audit_match :: "audit_query \<Rightarrow> int option \<Rightarrow> int option \<Rightarrow> audit_row \<Rightarrow> bool" where
  "audit_match q from_ms to_ms r \<longleftrightarrow>
     equal_to (aq_actorId q) (au_actorId r) \<and> equal_to (aq_action q) (Some (au_action r)) \<and>
     equal_to (aq_subjectType q) (Some (au_subjectType r)) \<and> equal_to (aq_subjectId q) (Some (au_subjectId r)) \<and>
     (case from_ms of None \<Rightarrow> True | Some t \<Rightarrow> t \<le> au_createdAt r) \<and>
     (case to_ms of None \<Rightarrow> True | Some t \<Rightarrow> au_createdAt r \<le> t)"

definition audit_listing :: "(nat \<Rightarrow> string) \<times> (audit_row \<Rightarrow> bool) \<times> world \<Rightarrow> audit_entry list" where
  "audit_listing =
     (\<lambda>(ids, p, w). order_desc (\<lambda>e. (au_createdAt (snd e), fst e)) (filter (\<lambda>e. p (snd e)) (audit_entries ids w)))"

definition audit_cursor :: "audit_entry \<Rightarrow> cursor" where
  "audit_cursor e = \<lparr>cur_createdAt = iso_string (au_createdAt (snd e)), cur_id = fst e\<rparr>"

record audit_entry_dto =
  ae_id :: string
  ae_action :: string
  ae_subjectType :: string
  ae_subjectId :: string
  ae_actorId :: "string option"
  ae_actorDisplayName :: "string option"
  ae_actorEmail :: "string option"
  ae_metadata :: "json option"
  ae_createdAt :: string

definition audit_dto_of :: "world \<Rightarrow> audit_entry \<Rightarrow> audit_entry_dto" where
  "audit_dto_of w e =
     (case e of (i, r) \<Rightarrow>
        let actor = (case au_actorId r of None \<Rightarrow> None | Some u \<Rightarrow> user_by u w)
        in \<lparr>ae_id = i, ae_action = au_action r, ae_subjectType = au_subjectType r, ae_subjectId = au_subjectId r,
            ae_actorId = au_actorId r, ae_actorDisplayName = map_option u_name actor, ae_actorEmail = map_option u_email actor,
            ae_metadata = non_null (au_metadata r), ae_createdAt = iso_string (au_createdAt r)\<rparr>)"

definition list_audit ::
  "(nat \<Rightarrow> string) \<Rightarrow> (string \<Rightarrow> int option) \<Rightarrow> audit_query \<Rightarrow> world \<Rightarrow> app_error + audit_entry_dto page" where
  "list_audit ids date_parse q w =
     sum_bind (decode_cursor (aq_cursor q)) (\<lambda>_.
     sum_bind (audit_bound date_parse (aq_from q)) (\<lambda>from_ms.
     sum_bind (audit_bound date_parse (aq_to q)) (\<lambda>to_ms.
     sum_bind (list_page fst audit_cursor (resolve_page_size (aq_limit q)) (aq_cursor q)
                 (audit_listing (ids, audit_match q from_ms to_ms, w))) (\<lambda>p.
     Inr \<lparr>pg_items = map (audit_dto_of w) (pg_items p), pg_nextCursor = pg_nextCursor p, pg_hasMore = pg_hasMore p\<rparr>))))"

definition audit_detail :: "(nat \<Rightarrow> string) \<Rightarrow> string \<Rightarrow> world \<Rightarrow> app_error + audit_entry_dto" where
  "audit_detail ids i w =
     (case find_row fst i (audit_entries ids w) of
        None \<Rightarrow> Inl (NotFoundDomain REQUEST_NOT_FOUND)
      | Some e \<Rightarrow> Inr (audit_dto_of w e))"

definition admin_audit_list ::
  "backend \<Rightarrow> http_request \<Rightarrow> (nat \<Rightarrow> string) \<Rightarrow> (string \<Rightarrow> int option) \<Rightarrow> audit_query \<Rightarrow> audit_entry_dto page handler" where
  "admin_audit_list b rq ids date_parse q = call b (console []) rq (\<lambda>_. reading (list_audit ids date_parse q))"

definition admin_audit_detail :: "backend \<Rightarrow> http_request \<Rightarrow> (nat \<Rightarrow> string) \<Rightarrow> string \<Rightarrow> audit_entry_dto handler" where
  "admin_audit_detail b rq ids i = call b (console []) rq (\<lambda>_. reading (audit_detail ids i))"

subsection \<open>The log is readable\<close>

lemma map_fst_entries: "map fst (audit_entries ids w) = map ids [0..<length (audit_logs w)]"
  by (simp add: audit_entries_def split_def comp_def map_fst_enumerate flip: map_map [where g = fst, unfolded comp_def])

lemma distinct_entry_ids: "inj ids \<Longrightarrow> distinct (map fst (audit_entries ids w))"
  by (simp add: map_fst_entries distinct_map inj_on_def)

interpretation audit_pages: paged_listing fst audit_cursor audit_listing "\<lambda>(ids, _). inj ids"
proof
  fix q :: "(nat \<Rightarrow> string) \<times> (audit_row \<Rightarrow> bool) \<times> world"
  assume "case q of (ids, _) \<Rightarrow> inj ids"
  then show "distinct (map fst (audit_listing q))"
    by (cases q) (simp add: audit_listing_def distinct_map_filter_rows distinct_entry_ids del: distinct_map)
qed (simp add: audit_cursor_def)

text \<open>
  An administrator who follows the cursors sees every entry that matches exactly once, the latest first, and an entry just
  written is found under its id, with what was recorded.
\<close>

theorem audit_log_complete:
  assumes "inj ids" and "0 < limit"
  shows "\<exists>es. walk_pages (Suc (length es)) fst audit_cursor limit None (audit_listing (ids, p, w)) = Some es \<and>
    set es = {e \<in> set (audit_entries ids w). p (snd e)} \<and> distinct es"
proof -
  let ?es = "audit_listing (ids, p, w)"
  have "distinct (map fst ?es)" using audit_pages.ids_distinct [of "(ids, p, w)"] assms(1) by simp
  moreover have "walk_pages (Suc (length ?es)) fst audit_cursor limit None ?es = Some ?es"
    using audit_pages.walk_complete [of "(ids, p, w)" limit] assms by simp
  ultimately show ?thesis by (intro exI [of _ ?es]) (auto simp: audit_listing_def distinct_map)
qed

theorem recorded_entry_readable:
  assumes "inj ids"
  shows "\<exists>d. audit_detail ids (ids (length (audit_logs w))) (snd (audit_record now actor action stype sid meta w)) = Inr d \<and>
    ae_action d = action \<and> ae_subjectId d = sid \<and> ae_actorId d = actor \<and> ae_createdAt d = iso_string now"
proof -
  let ?w = "snd (audit_record now actor action stype sid meta w)" and ?i = "ids (length (audit_logs w))"
  obtain r where r: "audit_logs ?w = audit_logs w @ [r]" "au_action r = action" "au_subjectId r = sid" "au_actorId r = actor"
      "au_createdAt r = now"
    by (simp add: audit_record_def upd_def)
  then have "(?i, r) \<in> set (audit_entries ids ?w)" by (simp add: audit_entries_def enumerate_append_eq)
  moreover note distinct_entry_ids [OF assms, of ?w]
  ultimately have "find_row fst ?i (audit_entries ids ?w) = Some (?i, r)"
    using find_row_eq_Some_iff [of fst "audit_entries ids ?w"] by simp
  then show ?thesis using r(2-) by (simp add: audit_detail_def audit_dto_of_def Let_def)
qed

end
