(* ===== verification/Api.thy ===== *)
theory Api
  imports Accounts AuditLog
begin

section \<open>The API as a whole\<close>

subsection \<open>The steps of the API\<close>

text \<open>
  One request to one endpoint, as a step from world to world: the endpoints that ask for a sign-in, those that guests may
  call, and those of the console.
\<close>

inductive member_step :: "backend \<Rightarrow> http_request \<Rightarrow> world \<Rightarrow> world \<Rightarrow> bool" where
  assets_create: "member_step b rq w (snd (assets_create b rq fr dto body w))"
| assets_update: "member_step b rq w (snd (assets_update b rq fr i dto w))"
| assets_publish: "member_step b rq w (snd (assets_publish b rq i w))"
| assets_archive: "member_step b rq w (snd (assets_archive b rq i w))"
| assets_restore: "member_step b rq w (snd (assets_restore b rq i w))"
| assets_remove: "member_step b rq w (snd (assets_remove b rq i w))"
| versions_create: "member_step b rq w (snd (versions_create b rq new assetId dto w))"
| versions_update: "member_step b rq w (snd (versions_update b rq vid notes w))"
| versions_publish: "member_step b rq w (snd (versions_publish b rq vid w))"
| versions_reanalyze: "member_step b rq w (snd (versions_reanalyze b rq vid w))"
| versions_setCompatibility: "member_step b rq w (snd (versions_setCompatibility b rq vid rows w))"
| files_initiate: "member_step b rq w (snd (files_initiate b rq ids dto w))"
| files_complete: "member_step b rq w (snd (files_complete b rq uploadId w))"
| files_initiateMultipart: "member_step b rq w (snd (files_initiateMultipart b rq ids dto parts w))"
| files_signParts: "member_step b rq w (snd (files_signParts b rq uploadId ns w))"
| files_completeMultipart: "member_step b rq w (snd (files_completeMultipart b rq uploadId w))"
| files_abortMultipart: "member_step b rq w (snd (files_abortMultipart b rq uploadId w))"
| files_initiateThumb: "member_step b rq w (snd (files_initiateThumb b rq uuid contentType assetId w))"
| files_completeThumb: "member_step b rq w (snd (files_completeThumb b rq key assetId w))"
| files_initiateEditorMedia: "member_step b rq w (snd (files_initiateEditorMedia b rq uuid contentType w))"
| files_refreshEditorMedia: "member_step b rq w (snd (files_refreshEditorMedia b rq key w))"
| files_reorder: "member_step b rq w (snd (files_reorder b rq vid ids w))"
| files_delete: "member_step b rq w (snd (files_delete b rq fileId w))"
| comments_create: "member_step b rq w (snd (comments_create b rq i assetId dto w))"
| comments_edit: "member_step b rq w (snd (comments_edit b rq i body w))"
| comments_remove: "member_step b rq w (snd (comments_remove b rq i w))"
| comments_setStatus: "member_step b rq w (snd (comments_setStatus b rq i status w))"
| reports_create: "member_step b rq w (snd (reports_create b rq i dto w))"
| requests_create: "member_step b rq w (snd (requests_create b rq i dto w))"
| requests_list: "member_step b rq w (snd (requests_list b rq q w))"
| requests_get: "member_step b rq w (snd (requests_get b rq i w))"
| library_list: "member_step b rq w (snd (library_list b rq q loc w))"
| library_add: "member_step b rq w (snd (library_add b rq i assetId w))"
| library_remove: "member_step b rq w (snd (library_remove b rq assetId w))"
| library_setHidden: "member_step b rq w (snd (library_setHidden b rq assetId hidden w))"
| downloads_options: "member_step b rq w (snd (downloads_options b rq assetId vid w))"
| downloads_initiate: "member_step b rq w (snd (downloads_initiate b rq fresh libId dto w))"
| notifications_list: "member_step b rq w (snd (notifications_list b rq cursor limit unreadOnly w))"
| notifications_unreadCount: "member_step b rq w (snd (notifications_unreadCount b rq w))"
| notifications_markRead: "member_step b rq w (snd (notifications_markRead b rq wsId i w))"
| notifications_markAllRead: "member_step b rq w (snd (notifications_markAllRead b rq wsId w))"
| categories_list: "member_step b rq w (snd (categories_list b rq loc w))"
| licenses_list: "member_step b rq w (snd (licenses_list b rq loc w))"
| licenses_detail: "member_step b rq w (snd (licenses_detail b rq i loc w))"
| tags_autocomplete: "member_step b rq w (snd (tags_autocomplete b rq q limit w))"
| tags_popular: "member_step b rq w (snd (tags_popular b rq limit w))"
| search_searchAssets: "member_step b rq w (snd (search_searchAssets b rq q w))"
| search_searchTags: "member_step b rq w (snd (search_searchTags b rq q limit w))"
| users_search: "member_step b rq w (snd (users_search b rq q w))"
| users_profile: "member_step b rq w (snd (users_profile b rq i w))"
| auth_me: "member_step b rq w (snd (auth_me b rq w))"
| auth_updateLocale: "member_step b rq w (snd (auth_updateLocale b rq loc w))"
| auth_revokePlugin: "member_step b rq w (snd (auth_revokePlugin b rq deviceId w))"
| auth_deletePluginDevice: "member_step b rq w (snd (auth_deletePluginDevice b rq deviceId w))"
| auth_listPluginDevices: "member_step b rq w (snd (auth_listPluginDevices b rq w))"
| me_me: "member_step b rq w (snd (me_me b rq w))"
| me_revokeDevice: "member_step b rq w (snd (me_revokeDevice b rq i w))"
| me_logout: "member_step b rq w (snd (me_logout b rq wsId w))"
| analytics_mySummary: "member_step b rq w (snd (analytics_mySummary b rq w))"
| analytics_assetDetail: "member_step b rq w (snd (analytics_assetDetail b rq assetId w))"

inductive guest_step :: "backend \<Rightarrow> http_request \<Rightarrow> world \<Rightarrow> world \<Rightarrow> bool" where
  assets_discover: "guest_step b rq w (snd (assets_discover b rq loc w))"
| assets_list: "guest_step b rq w (snd (assets_list b rq q limit cursor w))"
| assets_detail: "guest_step b rq w (snd (assets_detail b rq key loc w))"
| assets_recommended: "guest_step b rq w (snd (assets_recommended b rq i w))"
| versions_list: "guest_step b rq w (snd (versions_list b rq assetId w))"
| comments_list: "guest_step b rq w (snd (comments_list b rq assetId q w))"
| auth_exchangePlugin: "guest_step b rq w (snd (auth_exchangePlugin b rq uid tid random token label w))"
| auth_refreshPlugin: "guest_step b rq w (snd (auth_refreshPlugin b rq token w))"

inductive console_step :: "backend \<Rightarrow> http_request \<Rightarrow> world \<Rightarrow> world \<Rightarrow> bool" where
  admin_assets_listAll: "console_step b rq w (snd (admin_assets_listAll b rq q limit cursor w))"
| admin_assets_detail: "console_step b rq w (snd (admin_assets_detail b rq i w))"
| admin_assets_edit: "console_step b rq w (snd (admin_assets_edit b rq fr i dto w))"
| admin_assets_archive: "console_step b rq w (snd (admin_assets_archive b rq i reason w))"
| admin_assets_restore: "console_step b rq w (snd (admin_assets_restore b rq i w))"
| admin_assets_softDelete: "console_step b rq w (snd (admin_assets_softDelete b rq i reason w))"
| admin_assets_forceDelete: "admin_assets_forceDelete b rq i reason w = Some y \<Longrightarrow> console_step b rq w (snd y)"
| admin_assets_transfer: "console_step b rq w (snd (admin_assets_transfer b rq i newOwnerId w))"
| reports_list: "console_step b rq w (snd (reports_list b rq q w))"
| reports_detail: "console_step b rq w (snd (reports_detail b rq i w))"
| reports_startReview: "console_step b rq w (snd (reports_startReview b rq i w))"
| reports_action: "reports_action b rq i dto w = Some y \<Longrightarrow> console_step b rq w (snd y)"
| reports_dismiss: "console_step b rq w (snd (reports_dismiss b rq i notes w))"
| admin_requests_list: "console_step b rq w (snd (admin_requests_list b rq q w))"
| admin_requests_getOne: "console_step b rq w (snd (admin_requests_getOne b rq i w))"
| admin_requests_update: "console_step b rq w (snd (admin_requests_update b rq i dto w))"
| admin_categories_create: "console_step b rq w (snd (admin_categories_create b rq i dto w))"
| admin_categories_update: "console_step b rq w (snd (admin_categories_update b rq i dto changes w))"
| admin_categories_remove: "console_step b rq w (snd (admin_categories_remove b rq i w))"
| admin_categories_reorder: "console_step b rq w (snd (admin_categories_reorder b rq ids w))"
| admin_licenses_create: "console_step b rq w (snd (admin_licenses_create b rq i dto w))"
| admin_licenses_update: "console_step b rq w (snd (admin_licenses_update b rq i dto changes w))"
| admin_licenses_remove: "console_step b rq w (snd (admin_licenses_remove b rq i w))"
| admin_tags_list: "console_step b rq w (snd (admin_tags_list b rq q limit cursor w))"
| admin_tags_merge: "console_step b rq w (snd (admin_tags_merge b rq dto w))"
| admin_tags_update: "console_step b rq w (snd (admin_tags_update b rq i dto changes w))"
| admin_tags_remove: "console_step b rq w (snd (admin_tags_remove b rq i w))"
| admin_featured_list: "console_step b rq w (snd (admin_featured_list b rq w))"
| admin_featured_create: "console_step b rq w (snd (admin_featured_create b rq i dto w))"
| admin_featured_update: "console_step b rq w (snd (admin_featured_update b rq changes i dto w))"
| admin_featured_remove: "console_step b rq w (snd (admin_featured_remove b rq i w))"
| admin_featured_reorder: "console_step b rq w (snd (admin_featured_reorder b rq ids w))"
| admin_users_list: "console_step b rq w (snd (admin_users_list b rq q limit cursor w))"
| admin_users_promote: "console_step b rq w (snd (admin_users_promote b rq i w))"
| admin_users_demote: "console_step b rq w (snd (admin_users_demote b rq i w))"
| admin_dashboard_get: "console_step b rq w (snd (admin_dashboard_get b rq w))"
| analytics_platform: "console_step b rq w (snd (analytics_platform b rq from_ms to_ms w))"
| admin_deliveries_list: "console_step b rq w (snd (admin_deliveries_list b rq date_parse q w))"
| admin_audit_list: "console_step b rq w (snd (admin_audit_list b rq ids date_parse q w))"
| admin_audit_detail: "console_step b rq w (snd (admin_audit_detail b rq ids i w))"

lemmas member_defs =
  assets_create_def assets_update_def assets_publish_def assets_archive_def assets_restore_def assets_remove_def
  versions_create_def versions_update_def versions_publish_def versions_reanalyze_def versions_setCompatibility_def
  files_initiate_def files_complete_def files_initiateMultipart_def files_signParts_def files_completeMultipart_def
  files_abortMultipart_def files_initiateThumb_def files_completeThumb_def files_initiateEditorMedia_def
  files_refreshEditorMedia_def files_reorder_def files_delete_def comments_create_def comments_edit_def
  comments_remove_def comments_setStatus_def reports_create_def requests_create_def requests_list_def
  requests_get_def library_list_def library_add_def library_remove_def library_setHidden_def downloads_options_def
  downloads_initiate_def notifications_list_def notifications_unreadCount_def notifications_markRead_def
  notifications_markAllRead_def categories_list_def licenses_list_def licenses_detail_def tags_autocomplete_def
  tags_popular_def search_searchAssets_def search_searchTags_def users_search_def users_profile_def auth_me_def
  auth_updateLocale_def auth_revokePlugin_def auth_deletePluginDevice_def auth_listPluginDevices_def me_me_def
  me_revokeDevice_def me_logout_def analytics_mySummary_def analytics_assetDetail_def

lemmas guest_defs =
  assets_discover_def assets_list_def assets_detail_def assets_recommended_def versions_list_def comments_list_def
  auth_exchangePlugin_def auth_refreshPlugin_def

lemmas console_defs =
  admin_assets_listAll_def admin_assets_detail_def admin_assets_edit_def admin_assets_archive_def
  admin_assets_restore_def admin_assets_softDelete_def admin_assets_forceDelete_def admin_assets_transfer_def
  reports_list_def reports_detail_def reports_startReview_def reports_action_def reports_dismiss_def
  admin_requests_list_def admin_requests_getOne_def admin_requests_update_def admin_categories_create_def
  admin_categories_update_def admin_categories_remove_def admin_categories_reorder_def admin_licenses_create_def
  admin_licenses_update_def admin_licenses_remove_def admin_tags_list_def admin_tags_merge_def admin_tags_update_def
  admin_tags_remove_def admin_featured_list_def admin_featured_create_def admin_featured_update_def
  admin_featured_remove_def admin_featured_reorder_def admin_users_list_def admin_users_promote_def
  admin_users_demote_def admin_dashboard_get_def analytics_platform_def admin_deliveries_list_def
  admin_audit_list_def admin_audit_detail_def

subsection \<open>Requests without credentials\<close>

lemma signed_in_guarded [simp]:
  "signed_in_route (guarded cs ms) \<longleftrightarrow> list_all per_user (cs @ ms) \<and>
     (KeycloakG \<in> set (cs @ ms) \<or> FlexibleG \<in> set (cs @ ms) \<or> AdminG \<in> set (cs @ ms))"
  by (simp add: signed_in_route_def guarded_def)

lemma signed_in_with_audit [simp]: "signed_in_route (with_audit a t p r) \<longleftrightarrow> signed_in_route r"
  by (simp add: signed_in_route_def with_audit_def)

lemma per_user_simps [simp]: "per_user KeycloakG" "per_user FlexibleG" "per_user AdminG" "per_user ConfirmationG"
  "per_user (rate n m ScopeUser x)" "rate n m sc x \<noteq> KeycloakG" "rate n m sc x \<noteq> FlexibleG" "rate n m sc x \<noteq> AdminG"
  by (simp_all add: per_user_def rate_def)

lemma call_of_stranger:
  assumes "stranger (be_server b) rq w" and "runs_all (sv_order (be_server b))" and "signed_in_route r"
  shows "snd (call b r rq h w) = w"
proof -
  obtain e where "serve (be_server b) r rq h w = (Inl e, w)" using serve_stranger(1) [OF assms] by blast
  then show ?thesis by (simp add: call_def)
qed

lemma looping_of_stranger:
  assumes "serve_looping (be_server b) r rq h w = Some y"
    and "stranger (be_server b) rq w" and "runs_all (sv_order (be_server b))" and "signed_in_route r"
  shows "snd y = w"
proof -
  obtain e where "serve_looping (be_server b) r rq h w = Some (Inl e, w)"
    using serve_stranger(2) [OF assms(2-4)] by blast
  with assms(1) show ?thesis by auto
qed

lemma stranger_inert:
  assumes "member_step b rq w w' \<or> console_step b rq w w'" and "stranger (be_server b) rq w"
    and "runs_all (sv_order (be_server b))"
  shows "w' = w"
  using assms(1)
proof
  assume "member_step b rq w w'"
  then show ?thesis by cases (simp_all add: member_defs call_of_stranger [OF assms(2,3)])
next
  assume "console_step b rq w w'"
  then show ?thesis
    by cases (auto simp: console_defs console_def call_of_stranger [OF assms(2,3)]
        dest!: looping_of_stranger [OF _ assms(2,3)])
qed

text \<open>
  C5: A request with no active plugin token and no bearer token that Keycloak vouches for, be there no credentials or only
  forged, revoked and expired ones, changes nothing at all at an endpoint that asks for a sign-in or at the console.
\<close>

theorem strangers_change_nothing:
  assumes "member_step b rq w w' \<or> console_step b rq w w'" and "stranger (be_server b) rq w"
    and "runs_all (sv_order (be_server b))"
  shows "w' = w"
  using assms by (rule stranger_inert)

subsection \<open>The console\<close>

lemma admin_route_simps [simp]:
  "admin_route (guarded cs ms) \<longleftrightarrow> AdminG \<in> set (cs @ ms) \<and> list_all (\<lambda>g. g \<in> {AdminG, ConfirmationG}) (cs @ ms)"
  "admin_route (with_audit a t p r) \<longleftrightarrow> admin_route r"
  by (simp_all add: admin_route_def guarded_def with_audit_def)

text \<open>Without a verified admin the state after a console request is the one the guards left.\<close>

lemma admit_refuses:
  assumes "\<not> admin_caller (be_server b) rq w" and "runs_all (sv_order (be_server b))" and "admin_route r"
  shows "isl (fst (admit (be_server b) r rq w))"
  using admit_admin [OF assms(2,3), of rq w] assms(1)
  by (cases "admit (be_server b) r rq w"; cases "fst (admit (be_server b) r rq w)") auto

lemma call_refused:
  assumes "\<not> admin_caller (be_server b) rq w" and "runs_all (sv_order (be_server b))" and "admin_route r"
  shows "snd (call b r rq h w) = snd (admit (be_server b) r rq w)"
  using admit_refuses [OF assms]
  by (auto simp: call_def serve_def bnd_apply split: prod.splits sum.splits)

lemma looping_refused:
  assumes "serve_looping (be_server b) r rq h w = Some y"
    and "\<not> admin_caller (be_server b) rq w" and "runs_all (sv_order (be_server b))" and "admin_route r"
  shows "snd y = snd (admit (be_server b) r rq w)"
  using admit_refuses [OF assms(2-4)] assms(1)
  by (auto simp: serve_looping_def lbnd_def always_def split: sum.splits prod.splits option.splits)

lemma console_refused:
  assumes "console_step b rq w w'" and "\<not> admin_caller (be_server b) rq w" and "runs_all (sv_order (be_server b))"
  shows "\<exists>r. w' = snd (admit (be_server b) r rq w)"
  using assms(1)
  by cases (auto simp: console_defs console_def call_refused [OF assms(2,3)] dest!: looping_refused [OF _ assms(2,3)])


subsection \<open>Who becomes an admin\<close>

text \<open>Requests keep an invariant of the accounts and the queues.\<close>

context api_invariant
begin

lemma member_keeps:
  assumes "member_step b rq w w'" and "boot_subjects (be_auth b) \<subseteq> B" and "I w"
  shows "I w'"
proof -
  have k: "I (snd (h w))" if "keeps I h" for h :: "'c handler" using that assms(3) by (simp add: keeps_def)
  from assms(1) show ?thesis
    by cases (simp_all only: member_defs, (rule k, (intro keeps_call [OF assms(2)] keeps_intro op_kept keeps_update_locale)+)+)
qed

lemma guest_keeps:
  assumes "guest_step b rq w w'" and "boot_subjects (be_auth b) \<subseteq> B" and "I w"
  shows "I w'"
proof -
  have k: "I (snd (h w))" if "keeps I h" for h :: "'c handler" using that assms(3) by (simp add: keeps_def)
  from assms(1) show ?thesis
    by cases (simp_all only: guest_defs, (rule k, (intro keeps_call [OF assms(2)] keeps_intro op_kept keeps_exchange [OF assms(2)])+)+)
qed

end

text \<open>What the console may do to the accounts: it is the only way to promote and to demote.\<close>

locale console_invariant = api_invariant +
  assumes promoted: "keeps I (promote up now i u)"
    and demoted: "keeps I (demote boot up now i u)"
begin

lemma console_keeps:
  assumes "console_step b rq w w'" and "boot_subjects (be_auth b) \<subseteq> B" and "I w"
  shows "I w'"
proof -
  have k: "I (snd (h w))" if "keeps I h" for h :: "'c handler" using that assms(3) by (simp add: keeps_def)
  from assms(1) show ?thesis
  proof cases
    case (admin_assets_forceDelete i reason y)
    then show ?thesis
      unfolding admin_assets_forceDelete_def
      by (auto elim!: looping_keeps [OF _ assms(2,3)] dest: force_delete_kept)
  next
    case (reports_action i dto y)
    then show ?thesis
      unfolding reports_action_def
      by (auto elim!: looping_keeps [OF _ assms(2,3)] dest: action_report_kept)
  qed (simp_all only: console_defs, (rule k, (intro keeps_call [OF assms(2)] keeps_intro op_kept promoted demoted)+)+)
qed

end

definition active_admin :: "user_row list \<Rightarrow> bool" where
  "active_admin us \<longleftrightarrow> (\<exists>u \<in> set us. u_isAdmin u \<and> u_deletedAt u = None)"

lemma has_active_admin_users: "has_active_admin w = active_admin (users w)"
  by (auto simp: has_active_admin_def active_admin_def some_row_def list_ex_iff)

lemma active_admin_map:
  assumes "active_admin us" and "\<forall>u. u_deletedAt (f u) = u_deletedAt u \<and> (u_isAdmin u \<longrightarrow> u_isAdmin (f u))"
  shows "active_admin (set_rows p f us)"
proof -
  from assms(1) obtain u where u: "u \<in> set us" "u_isAdmin u" "u_deletedAt u = None" by (auto simp: active_admin_def)
  then have "(if p u then f u else u) \<in> set (set_rows p f us)" by (auto simp: set_rows_def)
  moreover have "u_isAdmin (if p u then f u else u) \<and> u_deletedAt (if p u then f u else u) = None" using u assms(2) by simp
  ultimately show ?thesis unfolding active_admin_def by blast
qed

interpretation active_accounts: account_invariant active_admin UNIV
proof unfold_locales
  show "active_admin (set_rows (\<lambda>x. u_sub x = s) f us)"
    if "active_admin us" and "\<forall>u. u_sub (f u) = u_sub u \<and> u_deletedAt (f u) = u_deletedAt u \<and>
        (u_isAdmin u \<longrightarrow> u_isAdmin (f u)) \<and> (u_isAdmin (f u) \<longrightarrow> u_isAdmin u \<or> s \<in> UNIV)" for us f s
    by (intro active_admin_map [OF that(1)]) (use that(2) in blast)
  show "active_admin (us @ [u])" if "active_admin us" for us u
    using that by (auto simp: active_admin_def)
  show "active_admin (set_rows p (u_locale_update g) us)" if "active_admin us" for us p g
    by (intro active_admin_map [OF that]) simp
qed

interpretation active_admins: console_invariant "\<lambda>w. active_admin (users w)" UNIV
proof unfold_locales
  show "keeps (\<lambda>w. active_admin (users w)) (promote up now i u)" for up now i u
    unfolding promote_def by (auto intro!: keeps_intro op_kept keeps_upd active_admin_map notices_filled simp: role_change_payload_def)
  show "keeps (\<lambda>w. active_admin (users w)) (demote boot up now i u)" for boot up now i u
    unfolding keeps_def
  proof (intro allI impI)
    fix w :: world
    assume a: "active_admin (users w)"
    obtain r w' where d: "demote boot up now i u w = (r, w')" by fastforce
    then show "active_admin (users (snd (demote boot up now i u w)))"
    proof (cases rule: demote_cases)
      case (2 target)
      then obtain v where "v \<in> set (users w)" "u_isAdmin v" "u_deletedAt v = None" "u_id v \<noteq> i" by blast
      with 2(6) d show ?thesis by (auto simp: active_admin_def set_set_rows intro!: bexI [of _ v])
    qed (simp add: d a)
  qed
qed

text \<open>Every admin is one of the subjects \<open>B\<close> or was an admin among \<open>us0\<close>.\<close>

definition admins_from :: "user_row list \<Rightarrow> string set \<Rightarrow> user_row list \<Rightarrow> bool" where
  "admins_from us0 B us \<longleftrightarrow>
     (\<forall>u \<in> set us. u_isAdmin u \<longrightarrow> u_sub u \<in> B \<or> (\<exists>v \<in> set us0. u_sub v = u_sub u \<and> u_isAdmin v))"

lemma admins_from_map:
  assumes "admins_from us0 B us" and "\<And>v. v \<in> set us \<Longrightarrow> p v \<Longrightarrow> u_sub (f v) = u_sub v \<and> (u_isAdmin (f v) \<longrightarrow> u_isAdmin v \<or> u_sub v \<in> B)"
  shows "admins_from us0 B (set_rows p f us)"
  unfolding admins_from_def
proof (intro ballI impI)
  fix u
  assume "u \<in> set (set_rows p f us)" and adm: "u_isAdmin u"
  then obtain v where v: "v \<in> set us" "u = (if p v then f v else v)" by (auto simp: set_rows_def)
  show "u_sub u \<in> B \<or> (\<exists>v \<in> set us0. u_sub v = u_sub u \<and> u_isAdmin v)"
  proof (cases "u_isAdmin v")
    case True
    with v assms show ?thesis by (cases "p v") (simp_all add: admins_from_def)
  next
    case False
    with v adm assms(2) [OF v(1)] show ?thesis by (cases "p v") simp_all
  qed
qed

interpretation no_new_admins: account_invariant "admins_from us0 B" B
proof unfold_locales
  show "admins_from us0 B (set_rows (\<lambda>x. u_sub x = s) f us)"
    if "admins_from us0 B us" and "\<forall>u. u_sub (f u) = u_sub u \<and> u_deletedAt (f u) = u_deletedAt u \<and>
        (u_isAdmin u \<longrightarrow> u_isAdmin (f u)) \<and> (u_isAdmin (f u) \<longrightarrow> u_isAdmin u \<or> s \<in> B)" for us f s
    using that(2) by (intro admins_from_map [OF that(1)]) blast
  show "admins_from us0 B (us @ [u])" if "admins_from us0 B us" and "u_isAdmin u \<longrightarrow> u_sub u \<in> B" for us u
    using that by (simp add: admins_from_def)
  show "admins_from us0 B (set_rows p (u_locale_update g) us)" if "admins_from us0 B us" for us p g
    by (intro admins_from_map [OF that]) simp
qed

text \<open>One request to the API.\<close>

inductive api_step :: "backend \<Rightarrow> http_request \<Rightarrow> world \<Rightarrow> world \<Rightarrow> bool" where
  member: "member_step b rq w w' \<Longrightarrow> api_step b rq w w'"
| guest: "guest_step b rq w w' \<Longrightarrow> api_step b rq w w'"
| console: "console_step b rq w w' \<Longrightarrow> api_step b rq w w'"

inductive_cases api_stepE: "api_step b rq w w'"

text \<open>
  C3: Who is an admin after a request was one before, or is a subject whose verified claims carry the address of the
  bootstrap admin, or the request went to the console and its sender was an admin already, by the principal cached for him
  or, without one, by his row (\<open>admin_caller\<close>).
\<close>

theorem admins_made_by_admins:
  assumes "api_step b rq w w'" and "runs_all (sv_order (be_server b))" and "u \<in> set (users w')" and "u_isAdmin u"
  shows "(\<exists>v \<in> set (users w). u_sub v = u_sub u \<and> u_isAdmin v) \<or> u_sub u \<in> boot_subjects (be_auth b) \<or>
     (console_step b rq w w' \<and> admin_caller (be_server b) rq w)"
proof -
  let ?B = "boot_subjects (be_auth b)" and ?J = "admins_from (users w) (boot_subjects (be_auth b))"
  have start: "?J (users w)" by (auto simp: admins_from_def)
  from assms(1) have "?J (users w') \<or> (console_step b rq w w' \<and> admin_caller (be_server b) rq w)"
  proof cases
    case console
    show ?thesis
    proof (cases "admin_caller (be_server b) rq w")
      case False
      from console_refused [OF console False assms(2)] obtain r where w': "w' = snd (admit (be_server b) r rq w)" by blast
      have "keeps (\<lambda>v. ?J (users v)) (admit (be_server b) r rq)"
        by (rule no_new_admins.api.request.keeps_admit) simp
      with start w' show ?thesis by (simp add: keeps_def)
    qed (use console in simp)
  qed (use start no_new_admins.api.member_keeps no_new_admins.api.guest_keeps in blast)+
  with assms(3,4) show ?thesis by (auto simp: admins_from_def)
qed

subsection \<open>Limits that do not limit\<close>

text \<open>A limit per user that runs before the sign-in sees no user and lets everybody pass.\<close>

lemma admit_limit_first:
  assumes "sv_order sv = nest_order"
  shows "admit sv (guarded [] [KeycloakG, rate win most ScopeUser name]) rq = admit sv (guarded [] [KeycloakG]) rq"
proof -
  have "run_guard sv False rq (rate win most ScopeUser name) None = ret None"
    by (rule ext) (simp add: rate_def asks_redis_def identity_id_def truthy_str_def act_simps on_redis_def rate_limit_guard_def)
  then show ?thesis
    by (intro ext) (simp add: admit_def guarded_def assms nest_order_def act_simps)
qed

lemma guarded_silent [simp]: "rt_audit (guarded cs ms) = None"
  by (simp add: guarded_def)

text \<open>
  C6: With the documented order of guards the limits of five reports a day and sixty comments a minute never apply: both
  endpoints behave, on every request in every state, like the same endpoint without a limit.
\<close>

theorem user_limits_void:
  assumes "sv_order (be_server b) = nest_order"
  shows "reports_create b rq i dto = call b (guarded [] [KeycloakG]) rq (as_user (create_report_row (be_now b) i dto)) \<and>
     comments_create b rq j a dto' = call b (guarded [] [KeycloakG]) rq (as_user (create_comment_row (be_now b) j a dto'))"
  by (simp add: reports_create_def comments_create_def call_def serve_def admit_limit_first [OF assms])

text \<open>
  Where the sign-in is asked for on the controller the limit counts: with twenty requests of the day in the counter the
  next one is refused.
\<close>

lemma requests_limited:
  assumes "sv_order (be_server b) = nest_order" and "be_up b"
    and "run_guard (be_server b) False rq KeycloakG None w = (Inr (Some (u, role)), v)" and "u_id u \<noteq> []"
    and "window_count \<lparr>rl_windowSec = 86400, rl_max = 20, rl_scope = ScopeUser, rl_name = ''requests.create''\<rparr>
      (u_id u) (window_start 86400 (be_now b)) n (redis v)" and "20 \<le> n"
  shows "fst (requests_create b rq i dto w) = Inl (PlainDomain 429 RATE_LIMIT_EXCEEDED)"
proof -
  let ?cfg = "\<lparr>rl_windowSec = 86400, rl_max = 20, rl_scope = ScopeUser, rl_name = ''requests.create''\<rparr>"
  have "in_window ?cfg (u_id u) (window_start 86400 (be_now b)) (hr_ip rq, Some (u_id u), be_now b)"
    by (simp add: in_window_def)
  from rate_limit_guard_same [OF _ this assms(4,5)] assms(6)
  obtain m where "rate_limit_guard (Some ?cfg) (be_now b) (hr_ip rq) (Some (u_id u)) (redis v) =
      (Inl (PlainDomain 429 RATE_LIMIT_EXCEEDED), m)" by auto
  with assms(1,2,3) show ?thesis
    by (simp add: requests_create_def call_def serve_def admit_def guarded_def nest_order_def rate_def bnd_apply
        identity_id_def on_redis_def)
qed

subsection \<open>Creating an asset once\<close>

lemma idem_stored_found:
  assumes "js_plain response" and "m' (idem_key u r k) = m1 (idem_key u r k)" and "t < t0 + 86400000"
    and "idem_store sha t0 u r k body status response m = (Inr (), m1)"
  shows "idem_lookup sha t u r k body' m' =
    ((if hash_body sha body' = hash_body sha body
      then Inr (Some \<lparr>ir_bodyHash = hash_body sha body, ir_status = status, ir_response = response\<rparr>)
      else Inl (Conflict IDEMPOTENCY_KEY_REUSED)), m')"
proof -
  have "redis_get t (idem_key u r k) m' = redis_get t (idem_key u r k) m1" using assms(2) by (simp add: redis_get_def)
  then have "fst (idem_lookup sha t u r k body' m') = fst (idem_lookup sha t u r k body' m1)"
    by (simp add: idem_lookup_def)
  moreover have "snd (idem_lookup sha t u r k body' m') = m'" by (simp add: idem_lookup_def)
  ultimately show ?thesis using idempotency_replay [OF assms(1,4,3), of body'] by (simp add: prod_eq_iff)
qed

text \<open>
  C7: An asset created under an idempotency key is created once.  Within a day, and while nobody touches the record, a
  second request of that user with the key gets the first answer when its body hashes to the same, and a 409 when not;
  either way it changes nothing.
\<close>

theorem asset_created_once:
  assumes "create_once b (Some k) fr dto body u w = (Inr answer, w1)"
    and "redis_get (be_now b) (idem_key (u_id u) ''POST /assets'' k) (redis w) = None"
    and "redis w2 (idem_key (u_id u) ''POST /assets'' k) = redis w1 (idem_key (u_id u) ''POST /assets'' k)"
    and "be_now b' < be_now b + 86400000" and "be_up b'" and "be_sha b' = be_sha b"
  shows "create_once b' (Some k) fr' dto' body' u w2 =
     (if hash_body (be_sha b) (Some body') = hash_body (be_sha b) (Some body) then Inr answer
      else Inl (Conflict IDEMPOTENCY_KEY_REUSED), w2)"
proof -
  have look: "idem_lookup (be_sha b) (be_now b) (u_id u) ''POST /assets'' k (Some body) (redis w) = (Inr None, redis w)"
    using assms(2) by (simp add: idem_lookup_def)
  with assms(1) obtain p v m where a: "answer = created_json p" and w1: "w1 = redis_update (\<lambda>_. m) v"
    and st: "idem_store (be_sha b) (be_now b) (u_id u) ''POST /assets'' k (Some body) 201 (created_json p) (redis v) = (Inr (), m)"
    by (auto simp: create_once_def redis_call_def on_redis_def act_simps split: if_splits prod.splits sum.splits)
  have "js_plain (created_json p)" by (simp add: created_json_def)
  from idem_stored_found [OF this _ assms(4) st, of "redis w2" "Some body'"] assms(3) w1
  have "idem_lookup (be_sha b) (be_now b') (u_id u) ''POST /assets'' k (Some body') (redis w2) =
    ((if hash_body (be_sha b) (Some body') = hash_body (be_sha b) (Some body)
      then Inr (Some \<lparr>ir_bodyHash = hash_body (be_sha b) (Some body), ir_status = 201, ir_response = created_json p\<rparr>)
      else Inl (Conflict IDEMPOTENCY_KEY_REUSED)), redis w2)" by simp
  then show ?thesis
    by (simp add: create_once_def redis_call_def on_redis_def act_simps assms(5,6) a)
qed

subsection \<open>The theorems at concrete requests\<close>

definition backend0 :: backend where
  "backend0 =
     \<lparr>be_server = \<lparr>sv_auth = \<lparr>ae_jwks = (\<lambda>_. None), ae_tokens = token_cfg0, ae_date_parse = date_parse0, ae_bootstrap = ''root@b''\<rparr>,
        sv_up = True, sv_now = 5, sv_userId = ''n'', sv_confirmDate = (\<lambda>_. None), sv_order = nest_order\<rparr>,
      be_nfkd = (\<lambda>_. []), be_cfg = cfg0, be_s3 = client0,
      be_action = \<lparr>ae_cfg = cfg0, ae_store = one_by_one, ae_client = client0, ae_meili = (\<lambda>_. Inr ()), ae_redisUp = True,
        ae_date_parse = (\<lambda>_. None)\<rparr>,
      be_notify = \<lparr>ne_baseUrl = [], ne_template = (\<lambda>_ _. Inr ([], [])), ne_htmlToText = (\<lambda>s. s), ne_smtp = (\<lambda>_. Inr ()),
        ne_publish = (\<lambda>_. Inr ())\<rparr>,
      be_sha = (\<lambda>s. s), be_pepper = None,
      be_meili = \<lparr>mi_add = (\<lambda>_. Inr ()), mi_delete = (\<lambda>_. Inr ()), mi_search = (\<lambda>_ _ _ _. Inr [])\<rparr>, be_decimal = (\<lambda>s. s)\<rparr>"

definition stranger0 :: http_request where
  "stranger0 = \<lparr>hr_authorization = None, hr_idempotencyKey = None, hr_ip = ''10.0.0.1'',
     hr_raw = \<lparr>ar_params = None, ar_body = None, ar_query = None, ar_method = ''POST'', ar_url = ''/'', ar_userId = None\<rparr>\<rparr>"

lemma backend0_simps [simp]:
  "be_now backend0 = 5" "be_up backend0" "be_sha backend0 = (\<lambda>s. s)" "be_nfkd backend0 = (\<lambda>_. [])"
  "sv_order (be_server backend0) = nest_order" "hr_authorization stranger0 = None"
  by (simp_all add: backend0_def stranger0_def)








theorem strangers_change_nothing_witness: "snd (assets_archive backend0 stranger0 ''a'' public_world) = public_world"
  by (rule strangers_change_nothing [OF disjI1 [OF member_step.assets_archive]]) (simp_all add: runs_all_nest)


theorem admins_made_by_admins_witness:
  "(\<exists>v \<in> set (users admins_world). u_sub v = u_sub bob \<and> u_isAdmin v) \<or> u_sub bob \<in> boot_subjects (be_auth backend0) \<or>
     (console_step backend0 stranger0 admins_world admins_world \<and> admin_caller (be_server backend0) stranger0 admins_world)"
proof -
  have "snd (auth_me backend0 stranger0 admins_world) = admins_world"
    by (simp add: auth_me_def call_of_stranger runs_all_nest)
  then have "api_step backend0 stranger0 admins_world admins_world"
    using api_step.member [OF member_step.auth_me, of backend0 stranger0 admins_world] by simp
  from admins_made_by_admins [OF this, of bob] show ?thesis
    by (simp add: runs_all_nest admins_world_def bob_def)
qed

theorem user_limits_void_witness:
  "reports_create backend0 stranger0 ''r'' \<lparr>cr_assetId = ''a'', cr_category = BROKEN_ASSET, cr_notes = ''n''\<rparr> =
     call backend0 (guarded [] [KeycloakG]) stranger0
       (as_user (create_report_row 5 ''r'' \<lparr>cr_assetId = ''a'', cr_category = BROKEN_ASSET, cr_notes = ''n''\<rparr>))"
  using user_limits_void [of backend0 stranger0 "''r''" "\<lparr>cr_assetId = ''a'', cr_category = BROKEN_ASSET, cr_notes = ''n''\<rparr>"]
  by simp

lemma create0_once:
  "\<exists>w1. create_once backend0 (Some ''k'') no_ids create0 (JBool True) alice shop_world = (Inr (created_json (''n'', ''0a'')), w1)"
  by (simp add: create_once_def redis_call_def on_redis_def act_simps idem_lookup_def idem_store_def redis_get_def
      create_asset_row_def category_find_or_throw_def license_find_or_throw_def category_by_def
      license_by_def shop_world_def create0_def c_id_cat0 no_ids_def allocate_slug_def slugify_empty eval_nat_numeral
      asset_by_slug_def create_asset_tx_def or_else_def invalidate_categories_def cache_invalidate_def)

theorem asset_created_once_witness:
  "\<exists>answer w1. create_once backend0 (Some ''k'') no_ids create0 (JBool True) alice shop_world = (Inr answer, w1) \<and>
     create_once backend0 (Some ''k'') no_ids create0 (JBool True) alice w1 = (Inr answer, w1) \<and>
     create_once backend0 (Some ''k'') no_ids create0 (JBool False) alice w1 = (Inl (Conflict IDEMPOTENCY_KEY_REUSED), w1)"
proof -
  let ?p = "(''n'', ''0a'')"
  obtain w1 where c: "create_once backend0 (Some ''k'') no_ids create0 (JBool True) alice shop_world = (Inr (created_json ?p), w1)"
    using create0_once by blast
  have "create_once backend0 (Some ''k'') no_ids create0 (JBool z) alice w1 =
    (if hash_body (be_sha backend0) (Some (JBool z)) = hash_body (be_sha backend0) (Some (JBool True))
     then Inr (created_json ?p) else Inl (Conflict IDEMPOTENCY_KEY_REUSED), w1)" for z
    by (rule asset_created_once [OF c]) (simp_all add: shop_world_def redis_get_def)
  from this [of True] this [of False] c show ?thesis
    by (simp add: hash_body_def)
qed

end
