(* ===== verification/Manifest.thy ===== *)
theory Manifest
  imports Search Files
begin

section \<open>Reading the files of a version: kinds, descriptors and the manifest tree\<close>

text \<open>
  \<open>src/modules/jobs/processors/analyze/\<close>: \<open>kind-detector.ts\<close> (the kind of a file from its extension),
  \<open>extractors/unreal.extractor.ts\<close> and \<open>extractors/unitypackage.extractor.ts\<close> (what the descriptors of the two
  engines say, from the text of the file and from the entries of the archive), and \<open>manifest.ts\<close> (the tree of the
  files of a version).  Names are compared by the collation key that \<open>localeCompare\<close> uses, a parameter.
\<close>

subsection \<open>Kinds\<close>

text \<open>
  The table is a plain object, so a name that \<open>Object.prototype\<close> has is found as well: what it yields is no kind.  Of
  those names two survive the lower-casing.
\<close>

datatype detected = Detected file_kind | Inherited string

definition EXT_TO_KIND :: "(string \<times> file_kind) list" where
  "EXT_TO_KIND =
     [(''unitypackage'', UNITYPACKAGE), (''uplugin'', UPLUGIN), (''uproject'', UPROJECT), (''fbx'', FBX), (''obj'', OBJ),
      (''glb'', GLB), (''gltf'', GLTF), (''blend'', BLEND), (''ma'', MAYA), (''mb'', MAYA), (''png'', TEXTURE_2D),
      (''jpg'', TEXTURE_2D), (''jpeg'', TEXTURE_2D), (''tga'', TEXTURE_2D), (''exr'', TEXTURE_2D), (''psd'', TEXTURE_2D),
      (''tif'', TEXTURE_2D), (''tiff'', TEXTURE_2D), (''webp'', TEXTURE_2D), (''wav'', AUDIO), (''mp3'', AUDIO),
      (''ogg'', AUDIO), (''flac'', AUDIO), (''aac'', AUDIO), (''mp4'', VIDEO), (''mov'', VIDEO), (''webm'', VIDEO),
      (''mkv'', VIDEO), (''anim'', ANIMATION), (''controller'', ANIMATION), (''shader'', SHADER), (''shadergraph'', SHADER),
      (''usf'', SHADER), (''hlsl'', SHADER), (''glsl'', SHADER), (''cs'', SCRIPT_CS), (''cpp'', SCRIPT_CPP),
      (''cc'', SCRIPT_CPP), (''h'', SCRIPT_CPP), (''hpp'', SCRIPT_CPP), (''py'', SCRIPT_PY), (''txt'', DOCUMENT),
      (''md'', DOCUMENT), (''pdf'', DOCUMENT), (''rtf'', DOCUMENT), (''zip'', ARCHIVE), (''7z'', ARCHIVE), (''rar'', ARCHIVE),
      (''tar'', ARCHIVE), (''gz'', ARCHIVE), (''tgz'', ARCHIVE)]"

definition prototype_names :: "string list" where
  "prototype_names = [''constructor'', ''__proto__'']"

definition extension_of :: "string \<Rightarrow> string option" where
  "extension_of path =
     (if CHR ''.'' \<in> set path then Some (lower (rev (takeWhile (\<lambda>c. c \<noteq> CHR ''.'') (rev path)))) else None)"

definition detect_kind_by_extension :: "string \<Rightarrow> detected" where
  "detect_kind_by_extension path =
     (case extension_of path of
        None \<Rightarrow> Detected OTHER_KIND
      | Some ext \<Rightarrow>
          (case map_of EXT_TO_KIND ext of
             Some k \<Rightarrow> Detected k
           | None \<Rightarrow> if ext \<in> set prototype_names then Inherited ext else Detected OTHER_KIND))"

subsection \<open>Unreal descriptors\<close>

record unreal_meta =
  um_fields :: "(string \<times> json) list"
  um_modules :: "json list"
  um_plugins :: "(json \<times> bool) list"

text \<open>\<open>v ?? []\<close> as an array; a value that is neither is not iterable and the extractor answers \<open>null\<close>.\<close>

definition array_or_empty :: "json option \<Rightarrow> json list option" where
  "array_or_empty v = (case v of None \<Rightarrow> Some [] | Some JNull \<Rightarrow> Some [] | Some (JArr xs) \<Rightarrow> Some xs | _ \<Rightarrow> None)"

definition name_of :: "json \<Rightarrow> json" where
  "name_of m = or_else (non_null (get_prop m ''Name'')) (JStr [])"

definition renamed :: "(string \<times> string) list \<Rightarrow> json \<Rightarrow> (string \<times> json) list" where
  "renamed names v = List.map_filter (\<lambda>(to, from'). map_option (Pair to) (get_prop v from')) names"

definition extract_unreal :: "(string \<times> string) list \<Rightarrow> string option \<Rightarrow> unreal_meta option" where
  "extract_unreal names raw =
     (case raw of
        None \<Rightarrow> None
      | Some text \<Rightarrow>
          (case json_parse text of
             None \<Rightarrow> None
           | Some JNull \<Rightarrow> None
           | Some v \<Rightarrow>
               (case (array_or_empty (get_prop v ''Modules''), array_or_empty (get_prop v ''Plugins'')) of
                  (Some ms, Some ps) \<Rightarrow>
                    if JNull \<in> set ms \<or> JNull \<in> set ps then None
                    else Some \<lparr>um_fields = renamed names v, um_modules = filter truthy (map name_of ms),
                           um_plugins = filter (\<lambda>p. truthy (fst p))
                             (map (\<lambda>p. (name_of p, case get_prop p ''Enabled'' of None \<Rightarrow> False | Some e \<Rightarrow> truthy e)) ps)\<rparr>
                | _ \<Rightarrow> None)))"

definition extract_uplugin :: "string option \<Rightarrow> unreal_meta option" where
  "extract_uplugin =
     extract_unreal [(''friendlyName'', ''FriendlyName''), (''versionName'', ''VersionName''), (''engineVersion'', ''EngineVersion'')]"

definition extract_uproject :: "string option \<Rightarrow> unreal_meta option" where
  "extract_uproject = extract_unreal [(''engineVersion'', ''EngineAssociation'')]"

definition unreal_json :: "unreal_meta \<Rightarrow> json" where
  "unreal_json m =
     JObj (um_fields m @
       [(''modules'', JArr (um_modules m)),
        (''plugins'', JArr (map (\<lambda>(n, e). JObj [(''name'', n), (''enabled'', JBool e)]) (um_plugins m)))])"

subsection \<open>Unity packages\<close>

record unity_meta =
  un_version :: "string option"
  un_contents :: "string list"
  un_hints :: "string list"
  un_settings :: bool
  un_deps :: "(string \<times> json) list"

definition ends_with :: "string \<Rightarrow> string \<Rightarrow> bool" where
  "ends_with p s = starts_with (rev p) (rev s)"

definition pipeline_hints :: "string \<Rightarrow> string list" where
  "pipeline_hints path =
     (let has = (\<lambda>ps. list_ex (\<lambda>p. contains_ci p path) ps)
      in (if has [''URP'', ''UniversalRP'', ''Universal Render Pipeline''] then [''URP''] else []) @
         (if has [''HDRP'', ''HighDefinition''] then [''HDRP''] else []) @
         (if has [''Builtin'', ''Built-in'', ''Built_in'', ''Built in''] then [''BUILT_IN''] else []) @
         (if has [''Shader Graph'', ''ScriptableRenderPipeline''] then [''SRP''] else []))"

definition version_char :: "char \<Rightarrow> bool" where
  "version_char c \<longleftrightarrow> is_word_code (of_char c) \<or> c = CHR ''.''"

fun editor_version :: "string \<Rightarrow> string option" where
  "editor_version [] = None"
| "editor_version (c # s) =
     (let m = takeWhile version_char (dropWhile is_blank (drop 16 (c # s)))
      in if starts_with ''m_EditorVersion:'' (c # s) \<and> m \<noteq> [] then Some m else editor_version s)"

definition manifest_deps :: "string \<Rightarrow> (string \<times> json) list option" where
  "manifest_deps text =
     (case json_parse text of
        None \<Rightarrow> None
      | Some v \<Rightarrow> (case get_prop v ''dependencies'' of Some d \<Rightarrow> if truthy d then Some (json_entries d) else None | None \<Rightarrow> None))"

definition read_entry :: "string \<times> string \<Rightarrow> unity_meta \<Rightarrow> unity_meta" where
  "read_entry e m =
     (let (name, text) = e; path = trim text
      in if ends_with ''/pathname'' name then
           (if path = [] then m
            else m\<lparr>un_contents := un_contents m @ [path],
                   un_settings := un_settings m \<or> starts_with ''ProjectSettings/'' path,
                   un_hints := un_hints m @ pipeline_hints path\<rparr>)
         else if ends_with ''ProjectVersion.txt'' name then
           (case editor_version text of None \<Rightarrow> m | Some v \<Rightarrow> m\<lparr>un_version := Some v\<rparr>)
         else (case manifest_deps text of None \<Rightarrow> m | Some ds \<Rightarrow> m\<lparr>un_deps := ds\<rparr>))"

definition of_interest :: "string \<times> string \<Rightarrow> bool" where
  "of_interest e \<longleftrightarrow>
     ends_with ''/pathname'' (fst e) \<or> ends_with ''Packages/manifest.json'' (fst e) \<or> ends_with ''ProjectVersion.txt'' (fst e)"

text \<open>
  The entries in the order of the archive.  What the tar reader makes of an entry that is destroyed because the bytes
  read exceed the cap is the parameter \<open>overflow\<close>.
\<close>

definition extract_unitypackage :: "app_error \<Rightarrow> nat \<Rightarrow> (string \<times> string) list \<Rightarrow> app_error + unity_meta" where
  "extract_unitypackage overflow maxBytes entries =
     (let es = filter of_interest entries;
          m = fold read_entry es \<lparr>un_version = None, un_contents = [], un_hints = [], un_settings = False, un_deps = []\<rparr>
      in if maxBytes < length (concat (map snd es)) then Inl overflow else Inr (m\<lparr>un_hints := uniq (un_hints m)\<rparr>))"

definition unity_json :: "unity_meta \<Rightarrow> json" where
  "unity_json m =
     JObj (optional_field ''unityVersion'' (un_version m) @
       [(''contents'', strs (un_contents m)), (''renderPipelineHints'', strs (un_hints m))])"

subsection \<open>The manifest\<close>

datatype manifest_node =
    FileNode string int string file_kind
  | DirNode string "manifest_node list"

fun node_name :: "manifest_node \<Rightarrow> string" where
  "node_name (FileNode n _ _ _) = n"
| "node_name (DirNode n _) = n"

fun is_file :: "manifest_node \<Rightarrow> bool" where
  "is_file (FileNode _ _ _ _) = True"
| "is_file (DirNode _ _) = False"

text \<open>The first directory of the name among the children, or a new one at the end.\<close>

fun into_dir :: "string \<Rightarrow> (manifest_node list \<Rightarrow> manifest_node list) \<Rightarrow> manifest_node list \<Rightarrow> manifest_node list" where
  "into_dir name g [] = [DirNode name (g [])]"
| "into_dir name g (DirNode n kids # cs) =
     (if n = name then DirNode n (g kids) # cs else DirNode n kids # into_dir name g cs)"
| "into_dir name g (FileNode n b i k # cs) = FileNode n b i k # into_dir name g cs"

fun insert_file :: "string list \<Rightarrow> file_row \<Rightarrow> manifest_node list \<Rightarrow> manifest_node list" where
  "insert_file [] f cs = cs"
| "insert_file [name] f cs = cs @ [FileNode name (f_bytes f) (f_id f) (f_kind f)]"
| "insert_file (name # seg # segs) f cs = into_dir name (insert_file (seg # segs) f) cs"

function sort_nodes :: "(string \<Rightarrow> string) \<Rightarrow> manifest_node list \<Rightarrow> manifest_node list" where
  "sort_nodes collate cs =
     map (\<lambda>c. case c of DirNode n kids \<Rightarrow> DirNode n (sort_nodes collate kids) | FileNode n b i k \<Rightarrow> FileNode n b i k)
       (sort_key (\<lambda>c. (is_file c, collate (node_name c))) cs)"
  by pat_completeness auto
termination
  by (relation "measure (\<lambda>(collate, cs). size_list size cs)") (auto dest: size_list_estimation' [where f = size, OF _ order_refl])

declare sort_nodes.simps [simp del]

definition build_manifest :: "(string \<Rightarrow> string) \<Rightarrow> file_row list \<Rightarrow> manifest_node" where
  "build_manifest collate fs =
     DirNode [] (sort_nodes collate (fold (\<lambda>f. insert_file (split_on CHR ''/'' (f_relPath f)) f) fs []))"

fun manifest_json :: "manifest_node \<Rightarrow> json" where
  "manifest_json (FileNode n b i k) =
     JObj [(''name'', JStr n), (''kind'', JStr ''file''), (''size'', JNum b), (''fileId'', JStr i), (''fileKind'', JStr (file_kind_name k))]"
| "manifest_json (DirNode n kids) =
     JObj [(''name'', JStr n), (''kind'', JStr ''dir''), (''children'', JArr (map manifest_json kids))]"

subsection \<open>The tree holds the files and nothing else\<close>

fun leaves :: "string list \<Rightarrow> manifest_node \<Rightarrow> (string list \<times> string \<times> int \<times> file_kind) list" where
  "leaves p (FileNode n b i k) = [(p @ [n], i, b, k)]"
| "leaves p (DirNode n kids) = concat (map (leaves (p @ [n])) kids)"

definition all_leaves :: "string list \<Rightarrow> manifest_node list \<Rightarrow> (string list \<times> string \<times> int \<times> file_kind) multiset" where
  "all_leaves p cs = (\<Sum>c\<in>#mset cs. mset (leaves p c))"

fun manifest_files :: "manifest_node \<Rightarrow> (string list \<times> string \<times> int \<times> file_kind) multiset" where
  "manifest_files (DirNode _ kids) = all_leaves [] kids"
| "manifest_files (FileNode n b i k) = {#([n], i, b, k)#}"

definition file_leaf :: "file_row \<Rightarrow> string list \<times> string \<times> int \<times> file_kind" where
  "file_leaf f = (split_on CHR ''/'' (f_relPath f), f_id f, f_bytes f, f_kind f)"

lemma all_leaves_simps [simp]:
  "all_leaves p [] = {#}"
  "all_leaves p (c # cs) = mset (leaves p c) + all_leaves p cs"
  "all_leaves p (cs @ ds) = all_leaves p cs + all_leaves p ds"
  by (simp_all add: all_leaves_def)

lemma leaves_dir [simp]: "mset (leaves p (DirNode n kids)) = all_leaves (p @ [n]) kids"
  by (induction kids) simp_all

lemma into_dir_leaves:
  assumes "\<And>kids. all_leaves (p @ [name]) (g kids) = all_leaves (p @ [name]) kids + M"
  shows "all_leaves p (into_dir name g cs) = all_leaves p cs + M"
  using assms by (induction name g cs rule: into_dir.induct) (simp_all del: leaves.simps(2))

lemma insert_file_leaves:
  "segs \<noteq> [] \<Longrightarrow> all_leaves p (insert_file segs f cs) = all_leaves p cs + {#(p @ segs, f_id f, f_bytes f, f_kind f)#}"
proof (induction segs f cs arbitrary: p rule: insert_file.induct)
  case (3 name seg segs f cs)
  have "all_leaves (p @ [name]) (insert_file (seg # segs) f kids) =
      all_leaves (p @ [name]) kids + {#(p @ name # seg # segs, f_id f, f_bytes f, f_kind f)#}" for kids
    using "3.IH" by simp
  then show ?case by (simp add: into_dir_leaves)
qed simp_all

lemma split_on_nonempty [simp]: "split_on c s \<noteq> []"
  by (cases s) (auto split: list.splits)

lemma inserted_leaves:
  "all_leaves [] (fold (\<lambda>f. insert_file (split_on CHR ''/'' (f_relPath f)) f) fs cs) =
     all_leaves [] cs + mset (map file_leaf fs)"
  by (induction fs arbitrary: cs) (simp_all add: insert_file_leaves file_leaf_def)

lemma sort_nodes_leaves: "all_leaves p (sort_nodes collate cs) = all_leaves p cs"
proof (induction collate cs arbitrary: p rule: sort_nodes.induct)
  case (1 collate cs)
  let ?h = "\<lambda>c. case c of DirNode n kids \<Rightarrow> DirNode n (sort_nodes collate kids) | FileNode n b i k \<Rightarrow> FileNode n b i k"
  have "mset (leaves p (?h c)) = mset (leaves p c)" if "c \<in> set (sort_key (\<lambda>c. (is_file c, collate (node_name c))) cs)" for c
    using 1 [OF that] by (cases c) (simp_all del: leaves.simps(2))
  then have "(\<Sum>c\<in>#mset cs. mset (leaves p (?h c))) = (\<Sum>c\<in>#mset cs. mset (leaves p c))"
    by (intro arg_cong [where f = sum_mset] image_mset_cong) simp
  then show ?case
    by (simp add: sort_nodes.simps [of collate cs] all_leaves_def image_mset.compositionality comp_def)
qed

subsection \<open>The tree is in order\<close>

definition dir_names :: "manifest_node list \<Rightarrow> string list" where
  "dir_names cs = map node_name (filter (\<lambda>c. \<not> is_file c) cs)"

text \<open>One directory of a name among the children, directories first, names in collation order, and so at every level.\<close>

fun dirs_unique :: "manifest_node \<Rightarrow> bool" where
  "dirs_unique (FileNode _ _ _ _) = True"
| "dirs_unique (DirNode n kids) = (distinct (dir_names kids) \<and> list_all dirs_unique kids)"

definition in_order :: "(string \<Rightarrow> string) \<Rightarrow> manifest_node list \<Rightarrow> bool" where
  "in_order collate kids = sorted (map (\<lambda>c. (is_file c, collate (node_name c))) kids)"

fun tidy :: "(string \<Rightarrow> string) \<Rightarrow> manifest_node \<Rightarrow> bool" where
  "tidy collate (FileNode _ _ _ _) = True"
| "tidy collate (DirNode n kids) = (distinct (dir_names kids) \<and> in_order collate kids \<and> list_all (tidy collate) kids)"

lemma dir_names_simps [simp]:
  "dir_names [] = []" "dir_names (FileNode n b i k # cs) = dir_names cs" "dir_names (DirNode n kids # cs) = n # dir_names cs"
  "dir_names (cs @ ds) = dir_names cs @ dir_names ds"
  by (simp_all add: dir_names_def)

lemma into_dir_names: "set (dir_names (into_dir name g cs)) = insert name (set (dir_names cs))"
  by (induction name g cs rule: into_dir.induct) auto

lemma into_dir_unique:
  assumes "\<And>kids. dirs_unique (DirNode name kids) \<Longrightarrow> dirs_unique (DirNode name (g kids))" and "dirs_unique (DirNode m cs)"
  shows "dirs_unique (DirNode m (into_dir name g cs))"
  using assms by (induction name g cs rule: into_dir.induct) (auto simp: into_dir_names)

lemma insert_file_unique: "dirs_unique (DirNode m cs) \<Longrightarrow> dirs_unique (DirNode m (insert_file segs f cs))"
proof (induction segs f cs arbitrary: m rule: insert_file.induct)
  case (3 name seg segs f cs)
  then show ?case unfolding insert_file.simps by (intro into_dir_unique) blast+
qed simp_all

lemma inserted_unique:
  "dirs_unique (DirNode m cs) \<Longrightarrow>
     dirs_unique (DirNode m (fold (\<lambda>f. insert_file (split_on CHR ''/'' (f_relPath f)) f) fs cs))"
  by (induction fs arbitrary: cs) (simp_all add: insert_file_unique del: dirs_unique.simps)

lemma sort_nodes_tidy: "dirs_unique (DirNode m cs) \<Longrightarrow> tidy collate (DirNode m (sort_nodes collate cs))"
proof (induction collate cs arbitrary: m rule: sort_nodes.induct)
  case (1 collate cs)
  let ?k = "\<lambda>c. (is_file c, collate (node_name c))"
  let ?h = "\<lambda>c. case c of DirNode n kids \<Rightarrow> DirNode n (sort_nodes collate kids) | FileNode n b i k \<Rightarrow> FileNode n b i k"
  have h: "is_file (?h c) = is_file c" "node_name (?h c) = node_name c" for c by (cases c; simp)+
  have names: "dir_names (map ?h cs') = dir_names cs'" for cs'
    unfolding dir_names_def by (induction cs') (simp_all add: h)
  have perm: "mset (dir_names (sort_key ?k cs)) = mset (dir_names cs)"
    unfolding dir_names_def by (simp add: mset_filter)
  have "tidy collate (?h c)" if c: "c \<in> set cs" for c
  proof (cases c)
    case (DirNode n kids)
    with 1(2) c have "dirs_unique (DirNode n kids)" by (metis dirs_unique.simps(2) list_all_iff)
    with 1(1) [of c n kids n] c DirNode show ?thesis by (simp del: tidy.simps dirs_unique.simps)
  qed simp
  moreover have "distinct (dir_names (sort_key ?k cs))" using 1(2) perm by (metis dirs_unique.simps(2) mset_eq_imp_distinct_iff)
  moreover have "in_order collate (map ?h (sort_key ?k cs))" by (simp add: in_order_def comp_def h)
  ultimately show ?case
    by (simp add: sort_nodes.simps [of collate cs] names list_all_iff)
qed

text \<open>
  C32: The manifest holds every file of the version at the path it was uploaded under, with its size and kind, and nothing
  else; at every level a directory name occurs once, directories come before files, and both are in collation order.
\<close>

theorem manifest_exact:
  "manifest_files (build_manifest collate fs) = mset (map file_leaf fs) \<and> tidy collate (build_manifest collate fs)"
proof -
  have "tidy collate (build_manifest collate fs)"
    unfolding build_manifest_def by (intro sort_nodes_tidy inserted_unique) simp
  then show ?thesis by (simp add: build_manifest_def sort_nodes_leaves inserted_leaves del: tidy.simps)
qed

end
