(* ===== verification/Analyze.thy ===== *)
theory Analyze
  imports Manifest
begin

section \<open>The analysis of a version\<close>

text \<open>
  \<open>src/modules/jobs/processors/analyze/\<close>: \<open>analyze.service.ts\<close> (which extractor reads which kind), \<open>analyze.worker.ts\<close>
  (one job per file: store what was found, then decrement the fan-in counter of the version, and queue the rollup when
  it reaches zero) and \<open>analyze-version.worker.ts\<close> (the rollup: manifest, totals, conversions, reindex).

  The extractors that run other programs (\<open>sharp\<close>, \<open>ffprobe\<close>, \<open>pyassimp\<close>, Blender) and the readers of disk and tar
  are parameters of the environment, by the key of the object that was fetched to disk; \<open>Extract\<close> fills them in.
\<close>

record analyzer =
  az_open :: "string \<Rightarrow> app_error + unit"
  az_text :: "string \<Rightarrow> string option"
  az_tar :: "string \<Rightarrow> app_error + (string \<times> string) list"
  az_overflow :: app_error
  az_image :: "string \<Rightarrow> json option"
  az_audio :: "string \<Rightarrow> app_error + json option"
  az_video :: "string \<Rightarrow> app_error + json option"
  az_mesh :: "string \<Rightarrow> json option"
  az_blend :: "string \<Rightarrow> json option"
  az_message :: "app_error \<Rightarrow> string"

record dependency =
  de_name :: json
  de_version :: "json option"
  de_source :: string

record analyzed_file =
  an_kind :: detected
  an_bytes :: int
  an_mime :: string
  an_meta :: json
  an_deps :: "dependency list"
  an_needsProject :: bool

subsection \<open>AnalyzeService\<close>

definition plugin_deps :: "unreal_meta option \<Rightarrow> dependency list" where
  "plugin_deps m =
     (case m of
        None \<Rightarrow> []
      | Some u \<Rightarrow> map (\<lambda>p. \<lparr>de_name = fst p, de_version = None, de_source = ''UnrealPlugin''\<rparr>) (filter snd (um_plugins u)))"

definition unity_deps :: "unity_meta \<Rightarrow> dependency list" where
  "unity_deps m = map (\<lambda>(n, v). \<lparr>de_name = JStr n, de_version = Some v, de_source = ''UnityPackageManager''\<rparr>) (un_deps m)"

definition or_empty :: "json option \<Rightarrow> json" where
  "or_empty m = or_else m (JObj [])"

definition dispatch :: "analyzer \<Rightarrow> detected \<Rightarrow> string \<Rightarrow> analyzed_file \<Rightarrow> app_error + analyzed_file" where
  "dispatch az kind key base =
     (let found = (\<lambda>m. Inr (base\<lparr>an_meta := or_empty m\<rparr>))
      in case kind of
           Inherited _ \<Rightarrow> Inr base
         | Detected k \<Rightarrow>
             if k \<in> {TEXTURE_2D, SPRITE} then found (az_image az key)
             else if k = AUDIO then sum_bind (az_audio az key) found
             else if k = VIDEO then sum_bind (az_video az key) found
             else if k \<in> {FBX, OBJ, GLB, GLTF} then found (az_mesh az key)
             else if k = BLEND then found (az_blend az key)
             else if k = UNITYPACKAGE then
               sum_bind (az_tar az key) (\<lambda>entries.
               sum_bind (extract_unitypackage (az_overflow az) 50000000 entries) (\<lambda>pkg.
               Inr (base\<lparr>an_meta := unity_json pkg, an_deps := unity_deps pkg, an_needsProject := un_settings pkg\<rparr>)))
             else if k = UPLUGIN then
               (let m = extract_uplugin (az_text az key)
                in Inr (base\<lparr>an_meta := or_empty (map_option unreal_json m), an_deps := plugin_deps m\<rparr>))
             else if k = UPROJECT then
               (let m = extract_uproject (az_text az key)
                in Inr (base\<lparr>an_meta := or_empty (map_option unreal_json m), an_deps := plugin_deps m, an_needsProject := True\<rparr>))
             else Inr base)"

definition analyze_file :: "analyzer \<Rightarrow> file_row \<Rightarrow> app_error + analyzed_file" where
  "analyze_file az f =
     (let kind = detect_kind_by_extension (f_relPath f)
      in sum_bind (az_open az (f_s3Key f)) (\<lambda>_.
         dispatch az kind (f_s3Key f)
           \<lparr>an_kind = kind, an_bytes = f_bytes f, an_mime = f_mime f, an_meta = JObj [], an_deps = [], an_needsProject = False\<rparr>))"

subsection \<open>AnalyzeWorker\<close>

definition decrement_and_maybe_rollup :: "bool \<Rightarrow> int \<Rightarrow> string \<Rightarrow> unit handler" where
  "decrement_and_maybe_rollup up now versionId =
     bnd (check up redis_down) (\<lambda>_.
     bnd (gets (\<lambda>w. fst (redis_incrby now (-1) (remaining_key versionId) (redis w)))) (\<lambda>remaining.
     bnd (upd (redis_update (\<lambda>m. snd (redis_incrby now (-1) (remaining_key versionId) m)))) (\<lambda>_.
     if remaining \<le> 0 then
       bnd (upd (redis_update (redis_del [remaining_key versionId]))) (\<lambda>_.
       enqueueAnalyzeVersion versionId FAN_IN)
     else ret ())))"

text \<open>What Prisma says of a value that does not have the type of its column.\<close>

abbreviation invalid_query :: app_error where
  "invalid_query \<equiv> OtherError (RemoteFailure ''PrismaClientValidationError'')"

definition dependency_row_of :: "string \<Rightarrow> dependency \<Rightarrow> app_error + dependency_row" where
  "dependency_row_of versionId d =
     (case (de_name d, non_null (de_version d)) of
        (JStr n, None) \<Rightarrow> Inr \<lparr>dp_versionId = versionId, dp_name = n, dp_version = None, dp_source = de_source d\<rparr>
      | (JStr n, Some (JStr v)) \<Rightarrow> Inr \<lparr>dp_versionId = versionId, dp_name = n, dp_version = Some v, dp_source = de_source d\<rparr>
      | _ \<Rightarrow> Inl invalid_query)"

definition replace_dependencies :: "string \<Rightarrow> dependency list \<Rightarrow> unit handler" where
  "replace_dependencies versionId ds =
     (if ds = [] then ret ()
      else
        bnd (upd (dependencies_update (drop_rows (\<lambda>d. dp_versionId d = versionId \<and> dp_source d \<in> de_source ` set ds)))) (\<lambda>_.
        bnd (from_sum (map_sum (dependency_row_of versionId) ds)) (\<lambda>rows.
        upd (dependencies_update (\<lambda>rs. rs @ rows)))))"

definition require_empty_project :: "string \<Rightarrow> unit handler" where
  "require_empty_project versionId =
     bnd (gets (version_by versionId)) (\<lambda>v.
     case v of
       None \<Rightarrow> ret ()
     | Some v \<Rightarrow>
         bnd (fetch (asset_by (v_assetId v)) (OtherError (RecordNotFound ''Asset''))) (\<lambda>_.
         upd (set_asset (v_assetId v) (a_requiresEmptyProject_update (\<lambda>_. True)))))"

definition store_analysis :: "string \<Rightarrow> string \<Rightarrow> analyzed_file \<Rightarrow> unit handler" where
  "store_analysis versionId fileId an =
     transact
       (bnd (from_sum (case an_kind an of Detected k \<Rightarrow> Inr k | Inherited _ \<Rightarrow> Inl invalid_query)) (\<lambda>k.
        bnd (upd (set_file fileId (\<lambda>x. x\<lparr>f_kind := k, f_mime := an_mime an, f_bytes := an_bytes an, f_meta := Some (an_meta an)\<rparr>))) (\<lambda>_.
        bnd (replace_dependencies versionId (an_deps an)) (\<lambda>_.
        if an_needsProject an then require_empty_project versionId else ret ()))))"

definition process_analyze :: "analyzer \<Rightarrow> bool \<Rightarrow> int \<Rightarrow> string \<Rightarrow> string \<Rightarrow> unit handler" where
  "process_analyze az up now versionId fileId =
     bnd (gets (file_by fileId)) (\<lambda>f.
     case f of
       None \<Rightarrow> ret ()
     | Some f \<Rightarrow>
         if f_versionId f \<noteq> versionId then ret ()
         else
           (case analyze_file az f of
              Inl e \<Rightarrow>
                bnd (upd (set_file fileId (f_meta_update (\<lambda>_. Some (JObj [(''analyzerError'', JStr (az_message az e))]))))) (\<lambda>_.
                bnd (decrement_and_maybe_rollup up now versionId) (\<lambda>_.
                throw e))
            | Inr an \<Rightarrow>
                bnd (store_analysis versionId fileId an) (\<lambda>_.
                decrement_and_maybe_rollup up now versionId)))"

subsection \<open>AnalyzeVersionWorker\<close>

definition convertible :: "file_kind \<Rightarrow> bool" where
  "convertible k \<longleftrightarrow> k \<in> {FBX, OBJ, BLEND, GLTF}"

definition has_derived_glb :: "file_row list \<Rightarrow> file_row \<Rightarrow> bool" where
  "has_derived_glb fs f = list_ex (\<lambda>g. f_kind g = GLB \<and> ends_with (f_relPath f @ ''.glb'') (f_relPath g)) fs"

definition convert_jobs :: "string \<Rightarrow> file_row list \<Rightarrow> unit handler" where
  "convert_jobs versionId fs =
     each (\<lambda>f. if convertible (f_kind f) \<and> \<not> has_derived_glb fs f
               then enqueueGltfConvert versionId (f_id f) (f_s3Key f) (f_kind f) else ret ()) fs"

definition analysis_failed :: "(app_error \<Rightarrow> string) \<Rightarrow> string \<Rightarrow> asset_row \<Rightarrow> app_error \<Rightarrow> unit handler" where
  "analysis_failed message versionId a e =
     bnd (upd (set_version versionId (v_status_update (\<lambda>_. FAILED)))) (\<lambda>_.
     enqueueNotify \<lparr>nj_recipient = a_ownerId a, nj_type = ANALYZER_FAILED,
       nj_payload = JObj (asset_ref_fields a @ [(''versionId'', JStr versionId), (''reason'', JStr (message e))]),
       nj_drop = [], nj_actor = None\<rparr>)"

definition analysis_report :: "int \<Rightarrow> string \<Rightarrow> json \<Rightarrow> file_row list \<Rightarrow> json" where
  "analysis_report now versionId manifest fs =
     JObj [(''versionId'', JStr versionId), (''manifest'', manifest),
           (''perFile'', JObj (foldl (\<lambda>o' f. AList.update (f_id f) (or_empty (non_null (f_meta f))) o') [] fs)),
           (''builtAt'', JStr (iso_string now))]"

text \<open>
  \<open>refused\<close> is the error with which the database rejects the update of the version, if it does; the owner is then told,
  and the job fails.
\<close>

definition process_analyze_version ::
  "(string \<Rightarrow> string) \<Rightarrow> (app_error \<Rightarrow> string) \<Rightarrow> app_error option \<Rightarrow> int \<Rightarrow> string \<Rightarrow> unit handler" where
  "process_analyze_version collate message refused now versionId =
     bnd (gets (version_by versionId)) (\<lambda>v.
     case v of
       None \<Rightarrow> ret ()
     | Some v \<Rightarrow>
         bnd (fetch (asset_by (v_assetId v)) (OtherError (RecordNotFound ''Asset''))) (\<lambda>a.
         bnd (gets (asset_files versionId)) (\<lambda>fs.
         (let manifest = manifest_json (build_manifest collate fs)
          in bnd (case refused of
                    Some e \<Rightarrow> bnd (analysis_failed message versionId a e) (\<lambda>_. throw e)
                  | None \<Rightarrow> upd (set_version versionId (\<lambda>x. x\<lparr>v_manifest := Some manifest, v_bytesTotal := sum_list (map f_bytes fs),
                      v_fileCount := length fs, v_status := READY\<rparr>))) (\<lambda>_.
             bnd (upd (analysis_reports_update (AList.update versionId (analysis_report now versionId manifest fs)))) (\<lambda>_.
             bnd (convert_jobs versionId fs) (\<lambda>_.
             enqueueSearchIndex (a_id a) ASSET_UPDATE)))))))"

subsection \<open>Attempts and the fan-in counter\<close>

definition storable :: "string \<Rightarrow> analyzed_file \<Rightarrow> bool" where
  "storable vid an \<longleftrightarrow>
     (case an_kind an of Detected _ \<Rightarrow> True | Inherited _ \<Rightarrow> False) \<and> \<not> isl (map_sum (dependency_row_of vid) (an_deps an))"

definition sound_file :: "analyzer \<Rightarrow> string \<Rightarrow> file_row \<Rightarrow> bool" where
  "sound_file az vid f \<longleftrightarrow>
     f_versionId f = vid \<and> (case analyze_file az f of Inl _ \<Rightarrow> True | Inr an \<Rightarrow> storable vid an)"

text \<open>The files of the attempts are there and readable, and the version belongs to an asset.\<close>

definition analysable :: "analyzer \<Rightarrow> string \<Rightarrow> string list \<Rightarrow> world \<Rightarrow> bool" where
  "analysable az vid fids w \<longleftrightarrow>
     list_all (\<lambda>i. case file_by i w of None \<Rightarrow> False | Some f \<Rightarrow> sound_file az vid f) fids \<and>
     (case version_by vid w of None \<Rightarrow> True | Some v \<Rightarrow> asset_by (v_assetId v) w \<noteq> None)"

definition attempts :: "analyzer \<Rightarrow> int \<Rightarrow> string \<Rightarrow> string list \<Rightarrow> world \<Rightarrow> world" where
  "attempts az now vid fids w = fold (\<lambda>i w. snd (process_analyze az True now vid i w)) fids w"

definition rollups :: "string \<Rightarrow> world \<Rightarrow> nat" where
  "rollups vid w = count_rows (\<lambda>j. jb_payload j = AnalyzeVersionJob vid FAN_IN) (jobs w)"

definition remaining :: "string \<Rightarrow> nat \<Rightarrow> world \<Rightarrow> bool" where
  "remaining vid n w \<longleftrightarrow>
     redis w (remaining_key vid) = (if n = 0 then None else Some \<lparr>re_val = RInt (int n), re_expires = None\<rparr>)"

lemma dispatch_base:
  "dispatch az kind key (b\<lparr>an_bytes := x, an_mime := y\<rparr>) =
     map_sum_right (\<lambda>an. an\<lparr>an_bytes := x, an_mime := y\<rparr>) (dispatch az kind key b)"
  by (auto simp: dispatch_def Let_def map_sum_right_def sum_bind_def split: detected.splits sum.splits)

lemma storable_base [simp]: "storable vid (an\<lparr>an_bytes := x, an_mime := y\<rparr>) = storable vid an"
  by (simp add: storable_def)

lemma analyze_file_row:
  assumes "f_relPath g = f_relPath f" and "f_s3Key g = f_s3Key f"
  shows "analyze_file az g = map_sum_right (\<lambda>an. an\<lparr>an_bytes := f_bytes g, an_mime := f_mime g\<rparr>) (analyze_file az f)"
proof -
  let ?b = "\<lambda>f. \<lparr>an_kind = detect_kind_by_extension (f_relPath f), an_bytes = f_bytes f, an_mime = f_mime f, an_meta = JObj [],
              an_deps = [], an_needsProject = False\<rparr>"
  have "?b g = (?b f)\<lparr>an_bytes := f_bytes g, an_mime := f_mime g\<rparr>" using assms by simp
  then show ?thesis
    using assms dispatch_base [where b = "?b f" and az = az and x = "f_bytes g" and y = "f_mime g"]
    by (cases "az_open az (f_s3Key f)") (simp_all add: analyze_file_def Let_def map_sum_right_def)
qed

lemma sound_file_row:
  assumes "f_relPath g = f_relPath f" and "f_s3Key g = f_s3Key f" and "f_versionId g = f_versionId f"
  shows "sound_file az vid g = sound_file az vid f"
  using analyze_file_row [OF assms(1,2), of az] assms(3)
  by (cases "analyze_file az f") (simp_all add: sound_file_def map_sum_right_def)

lemma file_by_set_file:
  "(\<And>x. f_id (g x) = f_id x) \<Longrightarrow>
     file_by j (set_file i g w) = (if j = i then map_option g (file_by i w) else file_by j w)"
  unfolding file_by_def set_file_def by (rule file_tab.look_update)

lemma set_file_world [simp]:
  "versions (set_file i g w) = versions w" "assets (set_file i g w) = assets w" "redis (set_file i g w) = redis w"
  "jobs (set_file i g w) = jobs w" "queue_down (set_file i g w) = queue_down w" "dependencies (set_file i g w) = dependencies w"
  by (simp_all add: set_file_def)

lemma analysable_set_file:
  assumes "analysable az vid fids w" and "\<And>x. f_id (g x) = f_id x \<and> f_relPath (g x) = f_relPath x \<and> f_s3Key (g x) = f_s3Key x \<and>
    f_versionId (g x) = f_versionId x"
  shows "analysable az vid fids (set_file i g w)"
proof -
  have "sound_file az vid (g x) = sound_file az vid x" for x using assms(2) [of x] by (intro sound_file_row) simp_all
  then show ?thesis using assms
    by (auto simp: analysable_def list_all_iff file_by_set_file version_by_def asset_by_def split: option.splits)
qed

lemma analysable_cong:
  assumes "analysable az vid fids w" and "files w' = files w" and "versions w' = versions w"
    and "\<And>i. asset_by i w \<noteq> None \<Longrightarrow> asset_by i w' \<noteq> None"
  shows "analysable az vid fids w'"
  using assms unfolding analysable_def by (auto simp: file_by_def version_by_def list_all_iff split: option.splits)

lemma require_empty_project_run:
  assumes "case version_by vid w of None \<Rightarrow> True | Some v \<Rightarrow> asset_by (v_assetId v) w \<noteq> None"
  shows "\<exists>w'. require_empty_project vid w = (Inr (), w') \<and> files w' = files w \<and> versions w' = versions w \<and> redis w' = redis w \<and>
     jobs w' = jobs w \<and> dependencies w' = dependencies w \<and> queue_down w' = queue_down w \<and>
     (\<forall>i. asset_by i w \<noteq> None \<longrightarrow> asset_by i w' \<noteq> None)"
  using assms
  by (auto simp: require_empty_project_def act_simps set_asset_def asset_by_set_asset [unfolded set_asset_def] split: option.splits)

lemma replace_dependencies_run:
  assumes "\<not> isl (map_sum (dependency_row_of vid) ds)"
  shows "\<exists>w'. replace_dependencies vid ds w = (Inr (), w') \<and> files w' = files w \<and> versions w' = versions w \<and> redis w' = redis w \<and>
     jobs w' = jobs w \<and> assets w' = assets w \<and> queue_down w' = queue_down w"
  using assms by (cases "map_sum (dependency_row_of vid) ds") (auto simp: replace_dependencies_def act_simps)

lemma store_analysis_run:
  assumes st: "storable vid an" and ok: "analysable az vid fids w"
  shows "\<exists>w'. store_analysis vid fid an w = (Inr (), w') \<and> analysable az vid fids w' \<and> redis w' = redis w \<and> jobs w' = jobs w \<and>
     queue_down w' = queue_down w"
proof -
  from st obtain k where k: "an_kind an = Detected k" and ds: "\<not> isl (map_sum (dependency_row_of vid) (an_deps an))"
    by (auto simp: storable_def split: detected.splits)
  let ?g = "\<lambda>x. x\<lparr>f_kind := k, f_mime := an_mime an, f_bytes := an_bytes an, f_meta := Some (an_meta an)\<rparr>"
  let ?w = "set_file fid ?g w"
  have w: "analysable az vid fids ?w" using ok by (rule analysable_set_file) simp
  obtain w1 where dep: "replace_dependencies vid (an_deps an) ?w = (Inr (), w1)"
    and f1: "files w1 = files ?w" "versions w1 = versions ?w" "redis w1 = redis ?w" "jobs w1 = jobs ?w" "assets w1 = assets ?w"
      "queue_down w1 = queue_down ?w"
    using replace_dependencies_run [OF ds] by blast
  have w1: "analysable az vid fids w1" using w f1 by (intro analysable_cong [OF w]) (simp_all add: asset_by_def)
  show ?thesis
  proof (cases "an_needsProject an")
    case True
    from w1 have "case version_by vid w1 of None \<Rightarrow> True | Some v \<Rightarrow> asset_by (v_assetId v) w1 \<noteq> None" by (simp add: analysable_def)
    from require_empty_project_run [OF this] obtain w2 where r: "require_empty_project vid w1 = (Inr (), w2)"
      and f2: "files w2 = files w1" "versions w2 = versions w1" "redis w2 = redis w1" "jobs w2 = jobs w1" "queue_down w2 = queue_down w1"
      "\<And>i. asset_by i w1 \<noteq> None \<Longrightarrow> asset_by i w2 \<noteq> None" by blast
    have "analysable az vid fids w2" by (rule analysable_cong [OF w1 f2(1,2,6)])
    then show ?thesis using f1 f2 True
      by (simp add: store_analysis_def transact_def k bnd_upd bnd_apply [of "from_sum _"] dep r)
  next
    case False
    then show ?thesis using f1 w1
      by (simp add: store_analysis_def transact_def k bnd_upd bnd_apply [of "from_sum _"] dep)
  qed
qed

lemma decrement_run:
  assumes n: "remaining vid (Suc n) w" and ok: "analysable az vid fids w"
  shows "\<exists>r w'. decrement_and_maybe_rollup True now vid w = (r, w') \<and> analysable az vid fids w' \<and> remaining vid n w' \<and>
     rollups vid w' = rollups vid w + (if n = 0 \<and> \<not> queue_down w then 1 else 0) \<and> queue_down w' = queue_down w"
proof -
  have cong: "analysable az vid fids (redis_update g w)" "analysable az vid fids (redis_update h (redis_update g w))"
    "analysable az vid fids (jobs_update js (redis_update h (redis_update g w)))" for g h js
    by (rule analysable_cong [OF ok]; simp add: asset_by_def)+
  have "redis_incrby now (-1) (remaining_key vid) (redis w) =
     (int n, (redis w)(remaining_key vid := Some \<lparr>re_val = RInt (int n), re_expires = None\<rparr>))"
    using n by (simp add: remaining_def redis_incrby_def redis_live_def)
  then show ?thesis using cong
    by (auto simp: decrement_and_maybe_rollup_def act_simps remaining_def rollups_def enqueueAnalyzeVersion_def row_simps)
qed

lemma attempt_run:
  assumes n: "remaining vid (Suc n) w" and ok: "analysable az vid fids w" and i: "i \<in> set fids"
  shows "analysable az vid fids (snd (process_analyze az True now vid i w)) \<and>
     remaining vid n (snd (process_analyze az True now vid i w)) \<and>
     rollups vid (snd (process_analyze az True now vid i w)) = rollups vid w + (if n = 0 \<and> \<not> queue_down w then 1 else 0) \<and>
     queue_down (snd (process_analyze az True now vid i w)) = queue_down w"
proof -
  from ok i obtain f where f: "file_by i w = Some f" and sound: "sound_file az vid f"
    by (auto simp: analysable_def list_all_iff split: option.splits)
  then have vid: "f_versionId f = vid" by (simp add: sound_file_def)
  show ?thesis
  proof (cases "analyze_file az f")
    case (Inl e)
    let ?w = "set_file i (f_meta_update (\<lambda>_. Some (JObj [(''analyzerError'', JStr (az_message az e))]))) w"
    have "analysable az vid fids ?w" using ok by (rule analysable_set_file) simp
    moreover have "remaining vid (Suc n) ?w" using n by (simp add: remaining_def)
    ultimately obtain r w' where "decrement_and_maybe_rollup True now vid ?w = (r, w')" "analysable az vid fids w'"
      "remaining vid n w'" "rollups vid w' = rollups vid ?w + (if n = 0 \<and> \<not> queue_down ?w then 1 else 0)" "queue_down w' = queue_down ?w"
      using decrement_run by blast
    then show ?thesis using f vid Inl by (cases r) (simp_all add: process_analyze_def bnd_gets bnd_upd bnd_apply rollups_def)
  next
    case (Inr an)
    then have "storable vid an" using sound by (simp add: sound_file_def)
    from store_analysis_run [OF this ok] obtain w1 where s: "store_analysis vid i an w = (Inr (), w1)"
      and w1: "analysable az vid fids w1" "redis w1 = redis w" "jobs w1 = jobs w" "queue_down w1 = queue_down w"
      by blast
    have "remaining vid (Suc n) w1" using n w1 by (simp add: remaining_def)
    from decrement_run [OF this w1(1)] obtain r w' where "decrement_and_maybe_rollup True now vid w1 = (r, w')"
      "analysable az vid fids w'" "remaining vid n w'"
      "rollups vid w' = rollups vid w1 + (if n = 0 \<and> \<not> queue_down w1 then 1 else 0)" "queue_down w' = queue_down w1" by blast
    then show ?thesis using f vid Inr w1(3,4) by (simp add: process_analyze_def bnd_gets s rollups_def)
  qed
qed

lemma attempts_run:
  assumes "remaining vid (length fids + n) w" and "analysable az vid all w" and "set fids \<subseteq> set all"
  shows "analysable az vid all (attempts az now vid fids w) \<and> remaining vid n (attempts az now vid fids w) \<and>
     rollups vid (attempts az now vid fids w) = rollups vid w + (if n = 0 \<and> fids \<noteq> [] \<and> \<not> queue_down w then 1 else 0)"
  using assms
proof (induction fids arbitrary: w)
  case (Cons i fids)
  let ?w = "snd (process_analyze az True now vid i w)"
  have step: "analysable az vid all ?w" "remaining vid (length fids + n) ?w"
    "rollups vid ?w = rollups vid w + (if length fids + n = 0 \<and> \<not> queue_down w then 1 else 0)" "queue_down ?w = queue_down w"
    using attempt_run [of vid "length fids + n" w az all i now] Cons.prems by simp_all
  with Cons.IH [of ?w] Cons.prems(3) show ?case by (simp add: attempts_def)
qed (simp add: attempts_def)

text \<open>
  C22: With a counter of \<open>n\<close>, and files that are stored and of kinds that the database takes, the rollup of the version is
  queued by the \<open>n\<close>-th attempt and by no earlier one, and the counter is then gone, whether or not the queue took the job:
  where it did not, nothing asks for the rollup again.  What is counted is attempts, not files: the list may name a file
  several times, as it does when a job that failed is tried again, and then leave others out.
\<close>

theorem fan_in_counts_attempts:
  assumes "remaining vid (length fids + n) w" and "analysable az vid fids w" and "fids \<noteq> []"
  shows "rollups vid (attempts az now vid fids w) = rollups vid w + (if n = 0 \<and> \<not> queue_down w then 1 else 0) \<and>
     remaining vid n (attempts az now vid fids w)"
  using attempts_run [OF assms(1,2) order_refl, of now] assms(3) by simp

subsection \<open>Whose dependencies the rows are\<close>

lemma map_sum_dependency_source:
  "map_sum (dependency_row_of vid) ds = Inr rows \<Longrightarrow>
     filter (\<lambda>d. dp_versionId d = vid \<and> dp_source d \<in> de_source ` set ds) rows = rows"
proof (induction ds arbitrary: rows)
  case (Cons d ds)
  then obtain r rs where r: "dependency_row_of vid d = Inr r" and rs: "map_sum (dependency_row_of vid) ds = Inr rs" "rows = r # rs"
    by (auto simp: sum_bind_eq_Inr)
  have "dp_versionId r = vid \<and> dp_source r = de_source d"
    using r by (auto simp: dependency_row_of_def split: json.splits option.splits)
  with Cons.IH [OF rs(1)] rs(2) show ?case by (auto simp: filter_id_conv)
qed simp

lemma require_empty_project_deps: "require_empty_project vid w = (r, w') \<Longrightarrow> dependencies w' = dependencies w"
  by (auto simp: require_empty_project_def act_simps set_asset_def split: option.splits)

lemma decrement_deps: "decrement_and_maybe_rollup up now vid w = (r, w') \<Longrightarrow> dependencies w' = dependencies w"
  by (auto simp: decrement_and_maybe_rollup_def act_simps enqueueAnalyzeVersion_def split: if_splits)

lemma replace_dependencies_eq:
  assumes "replace_dependencies vid ds w = (Inr (), w')" and "ds \<noteq> []"
  shows "\<exists>rows. map_sum (dependency_row_of vid) ds = Inr rows \<and>
     dependencies w' = drop_rows (\<lambda>d. dp_versionId d = vid \<and> dp_source d \<in> de_source ` set ds) (dependencies w) @ rows"
  using assms by (cases "map_sum (dependency_row_of vid) ds") (auto simp: replace_dependencies_def act_simps)

lemma filter_drop_rows: "filter p (drop_rows p rows) = []"
  by (induction rows) auto

text \<open>
  After a file was analysed, the dependency rows of its version that come from the sources of its own dependencies are
  exactly its own: running the job again gives the same rows, and the rows of every other file of the version that come
  from the same source are gone.
\<close>

theorem analysis_owns_dependencies:
  assumes "process_analyze az up now vid fid w = (Inr (), w')" and "file_by fid w = Some f" and "f_versionId f = vid"
    and "analyze_file az f = Inr an" and "an_deps an \<noteq> []"
  shows "\<exists>rows. map_sum (dependency_row_of vid) (an_deps an) = Inr rows \<and>
     filter (\<lambda>d. dp_versionId d = vid \<and> dp_source d \<in> de_source ` set (an_deps an)) (dependencies w') = rows"
proof -
  from assms obtain w1 where st: "store_analysis vid fid an w = (Inr (), w1)"
    and dec: "decrement_and_maybe_rollup up now vid w1 = (Inr (), w')"
    by (auto simp: process_analyze_def bnd_gets bnd_eq_Inr_conv)
  from st obtain k g w2 where rep: "replace_dependencies vid (an_deps an) (set_file fid g w) = (Inr (), w2)"
    and fin: "(if an_needsProject an then require_empty_project vid else ret ()) w2 = (Inr (), w1)"
    by (auto simp: store_analysis_def transact_def bnd_eq_Inr_conv act_simps split: prod.splits sum.splits detected.splits)
  have "dependencies w' = dependencies w2"
    using decrement_deps [OF dec] require_empty_project_deps [of vid w2 "Inr ()" w1] fin by (auto split: if_splits)
  moreover obtain rows where rows: "map_sum (dependency_row_of vid) (an_deps an) = Inr rows"
    and "dependencies w2 = drop_rows (\<lambda>d. dp_versionId d = vid \<and> dp_source d \<in> de_source ` set (an_deps an)) (dependencies w) @ rows"
    using replace_dependencies_eq [OF rep assms(5)] by auto
  moreover have "filter (\<lambda>d. dp_versionId d = vid \<and> dp_source d \<in> de_source ` set (an_deps an)) rows = rows"
    by (rule map_sum_dependency_source [OF rows])
  ultimately show ?thesis using rows by (simp add: filter_drop_rows)
qed

subsection \<open>Extensions that the table inherits\<close>

text \<open>
  A file whose extension is the name of a member of \<open>Object.prototype\<close> is never analysed: every attempt fails at the
  database and changes nothing, so the counter of its version is not decremented and the rollup waits for ever.
\<close>

theorem inherited_extension_blocks:
  assumes "detect_kind_by_extension (f_relPath f) = Inherited x" and "az_open az (f_s3Key f) = Inr ()"
    and "file_by fid w = Some f" and "f_versionId f = vid"
  shows "process_analyze az up now vid fid w = (Inl invalid_query, w)"
  using assms
  by (simp add: process_analyze_def bnd_gets analyze_file_def Let_def dispatch_def store_analysis_def transact_def bnd_apply)

subsection \<open>The rollup\<close>

lemma each_jobs:
  "each (\<lambda>f. if p f then submit (i f) (q f) else ret ()) fs w =
     (if queue_down w \<and> filter p fs \<noteq> [] then (Inl queue_failed, w)
      else (Inr (), jobs_update (\<lambda>js. js @ map (\<lambda>f. \<lparr>jb_id = i f, jb_payload = q f\<rparr>) (filter p fs)) w))"
  by (induction fs arbitrary: w) (simp_all add: bnd_apply comp_def)

lemma convert_jobs_run:
  "convert_jobs vid fs w =
     (if queue_down w \<and> filter (\<lambda>f. convertible (f_kind f) \<and> \<not> has_derived_glb fs f) fs \<noteq> [] then (Inl queue_failed, w)
      else (Inr (), jobs_update (\<lambda>js. js @ map (\<lambda>f. \<lparr>jb_id = Some (f_id f), jb_payload = GltfConvertJob vid (f_id f) (f_s3Key f) (f_kind f)\<rparr>)
       (filter (\<lambda>f. convertible (f_kind f) \<and> \<not> has_derived_glb fs f) fs)) w))"
  unfolding convert_jobs_def enqueueGltfConvert_def by (rule each_jobs)

text \<open>
  C33: The rollup that the database accepts leaves the version \<open>READY\<close> with the size and number of its files and their
  manifest, queues a conversion for exactly the three-dimensional sources without a derived GLB, in the order of the
  files, and then one reindex of the asset; where the queue does not answer the version is left the same, no job is queued
  and the rollup fails.
\<close>

theorem rollup_exact:
  assumes "version_by vid w = Some v" and "asset_by (v_assetId v) w = Some a"
  shows "\<exists>w'. process_analyze_version collate message None now vid w = (if queue_down w then Inl queue_failed else Inr (), w') \<and>
     version_by vid w' = Some (v\<lparr>v_manifest := Some (manifest_json (build_manifest collate (asset_files vid w))),
       v_bytesTotal := sum_list (map f_bytes (asset_files vid w)), v_fileCount := length (asset_files vid w), v_status := READY\<rparr>) \<and>
     map jb_payload (jobs w') = map jb_payload (jobs w) @
       (if queue_down w then []
        else map (\<lambda>f. GltfConvertJob vid (f_id f) (f_s3Key f) (f_kind f))
               (filter (\<lambda>f. convertible (f_kind f) \<and> \<not> has_derived_glb (asset_files vid w) f) (asset_files vid w)) @
             [SearchIndexJob (v_assetId v) ASSET_UPDATE])"
proof -
  have "a_id a = v_assetId v" "v_id v = vid" using assms by (simp_all add: asset_byD version_byD)
  then show ?thesis
    using assms
    by (cases "queue_down w"; cases "filter (\<lambda>f. convertible (f_kind f) \<and> \<not> has_derived_glb (asset_files vid w) f) (asset_files vid w) = []")
      (simp_all add: process_analyze_version_def act_simps convert_jobs_run enqueueSearchIndex_def
        find_row_set_rows version_by_def comp_def Let_def)
qed

subsection \<open>Samples\<close>

definition analyzer0 :: analyzer where
  "analyzer0 = \<lparr>az_open = (\<lambda>k. if k = ''k1'' then Inl (OtherError (RemoteFailure ''S3'')) else Inr ()),
     az_text = (\<lambda>k. Some (''{'' @ quote_string ''Plugins'' @ '':[{'' @ quote_string ''Name'' @ '':'' @ quote_string k @ '','' @
        quote_string ''Enabled'' @ '':true}]}'')),
     az_tar = (\<lambda>k. Inr []), az_overflow = OtherError TypeError, az_image = (\<lambda>k. None), az_audio = (\<lambda>k. Inr None),
     az_video = (\<lambda>k. Inr None), az_mesh = (\<lambda>k. None), az_blend = (\<lambda>k. None), az_message = (\<lambda>e. ''failed'')\<rparr>"

definition sample_file :: "string \<Rightarrow> string \<Rightarrow> file_row" where
  "sample_file i path = file0\<lparr>f_id := i, f_s3Key := i, f_relPath := path\<rparr>"

definition analysis_world :: world where
  "analysis_world = draft_world\<lparr>files := [sample_file ''k1'' ''a.txt'', sample_file ''k2'' ''b.uplugin'', sample_file ''k3'' ''c.constructor''],
     redis := [remaining_key ''v'' \<mapsto> \<lparr>re_val = RInt 2, re_expires = None\<rparr>]\<rparr>"

lemma analysis_world_files:
  "file_by ''k1'' analysis_world = Some (sample_file ''k1'' ''a.txt'')" "file_by ''k2'' analysis_world = Some (sample_file ''k2'' ''b.uplugin'')"
  "file_by ''k3'' analysis_world = Some (sample_file ''k3'' ''c.constructor'')" "version_by ''v'' analysis_world = Some version0"
  "asset_by ''a'' analysis_world = Some asset0" "asset_by (v_assetId version0) analysis_world = Some asset0"
  by (simp_all add: analysis_world_def file_by_def sample_file_def file0_def version_by_def asset_by_def version0_def asset0_def)

lemma sample_file_simps [simp]:
  "f_id (sample_file i p) = i" "f_s3Key (sample_file i p) = i" "f_relPath (sample_file i p) = p" "f_versionId (sample_file i p) = ''v''"
  by (simp_all add: sample_file_def file0_def)

text \<open>Two attempts at the first file queue the rollup while the second one has never been read.\<close>

theorem fan_in_counts_attempts_witness:
  "rollups ''v'' (attempts analyzer0 0 ''v'' [''k1'', ''k1''] analysis_world) = rollups ''v'' analysis_world + 1"
proof -
  have n: "remaining ''v'' (length [''k1'', ''k1''] + 0) analysis_world"
    by (simp add: remaining_def analysis_world_def)
  have ok: "analysable analyzer0 ''v'' [''k1'', ''k1''] analysis_world"
    by (simp add: analysable_def analysis_world_files sound_file_def analyze_file_def analyzer0_def)
  show ?thesis using fan_in_counts_attempts [OF n ok, of 0] by (simp add: analysis_world_def)
qed

theorem inherited_extension_blocks_witness:
  "process_analyze analyzer0 True 0 ''v'' ''k3'' analysis_world = (Inl invalid_query, analysis_world)"
proof -
  have kind: "detect_kind_by_extension (f_relPath (sample_file ''k3'' ''c.constructor'')) = Inherited ''constructor''"
    by code_simp
  show ?thesis
    by (rule inherited_extension_blocks [OF kind]) (simp_all add: analyzer0_def analysis_world_files)
qed

theorem rollup_exact_witness:
  "\<exists>w'. process_analyze_version id (\<lambda>_. []) None 0 ''v'' analysis_world = (Inr (), w') \<and>
     v_fileCount (the (version_by ''v'' w')) = length (asset_files ''v'' analysis_world)"
  using rollup_exact [OF analysis_world_files(4,6), of id "\<lambda>_. []" 0] by (auto simp: analysis_world_def)

theorem analysis_owns_dependencies_witness:
  "map dp_name (filter (\<lambda>d. dp_versionId d = ''v'' \<and> dp_source d = ''UnrealPlugin'')
     (dependencies (snd (process_analyze analyzer0 True 0 ''v'' ''k2'' analysis_world)))) = [''k2'']"
proof -
  let ?an = "\<lparr>an_kind = Detected UPLUGIN, an_bytes = 0, an_mime = ''t'',
     an_meta = JObj [(''modules'', JArr []), (''plugins'', JArr [JObj [(''name'', JStr ''k2''), (''enabled'', JBool True)]])],
     an_deps = [\<lparr>de_name = JStr ''k2'', de_version = None, de_source = ''UnrealPlugin''\<rparr>], an_needsProject = False\<rparr>"
  have an: "analyze_file analyzer0 (sample_file ''k2'' ''b.uplugin'') = Inr ?an" by code_simp
  obtain r w' where run: "process_analyze analyzer0 True 0 ''v'' ''k2'' analysis_world = (r, w')" by fastforce
  have "fst (process_analyze analyzer0 True 0 ''v'' ''k2'' analysis_world) = Inr ()"
    by (simp add: process_analyze_def bnd_gets analysis_world_files an store_analysis_def transact_def act_simps replace_dependencies_def
        dependency_row_of_def non_null_def decrement_and_maybe_rollup_def enqueueAnalyzeVersion_def)
      (simp add: analysis_world_def)
  with run have ok: "process_analyze analyzer0 True 0 ''v'' ''k2'' analysis_world = (Inr (), w')" by simp
  from analysis_owns_dependencies [OF ok analysis_world_files(2) _ an]
  show ?thesis by (auto simp: run dependency_row_of_def non_null_def)
qed

end
