(* ===== verification/Derive.thy ===== *)
theory Derive
  imports Analyze
begin

section \<open>Derived objects: conversions and thumbnails\<close>

text \<open>
  \<open>src/modules/jobs/processors/convert/gltf-convert.worker.ts\<close> and
  \<open>src/modules/jobs/processors/thumbnails/\<close>: what the workers read, which objects they put and which columns they
  write.  Blender, \<open>gltf-pipeline\<close>, \<open>gltfpack\<close>, \<open>sharp\<close> and the disk are parameters: whether a step succeeds and how
  many bytes it leaves.  The shape of \<open>meta.webViewerGlb\<close> is the one that the conversion writes.
\<close>

text \<open>
  \<open>tl_exec\<close> is the exit code of a program and the end of its error output, \<open>tl_packed\<close> whether \<open>gltfpack\<close> left its file,
  \<open>tl_size\<close> the bytes of the file that is read back, \<open>tl_put\<close> the upload of a key.
\<close>

record tools =
  tl_open :: "string \<Rightarrow> app_error + unit"
  tl_exec :: "string \<Rightarrow> app_error + int \<times> string"
  tl_pipeline :: "string \<Rightarrow> app_error + unit"
  tl_packed :: "string \<Rightarrow> bool"
  tl_size :: "string \<Rightarrow> bool \<Rightarrow> app_error + int"
  tl_resize :: "string \<Rightarrow> int \<Rightarrow> int \<Rightarrow> app_error + unit"
  tl_put :: "string \<Rightarrow> app_error + unit"
  tl_message :: "app_error \<Rightarrow> string"
  tl_number :: "string \<Rightarrow> int option"

definition put_object :: "tools \<Rightarrow> s3_config \<Rightarrow> bucket_role \<Rightarrow> string \<Rightarrow> unit handler" where
  "put_object tk cfg role key =
     bnd (from_sum (tl_put tk key)) (\<lambda>_.
     upd (s3_objects_update (\<lambda>os. List.insert (object_id cfg role key) os)))"

subsection \<open>GltfConvertWorker\<close>

definition MAX_PRE_COMPRESSION_BYTES :: int where "MAX_PRE_COMPRESSION_BYTES = 200 * 1024 * 1024"

definition derived_key_for :: "string \<Rightarrow> string \<Rightarrow> string" where
  "derived_key_for s3Prefix relativePath = s3Prefix @ ''__derived__/web-viewer/'' @ relativePath @ ''.glb''"

definition with_meta :: "json option \<Rightarrow> string \<Rightarrow> json \<Rightarrow> json" where
  "with_meta meta k v = json_merge (or_empty (non_null meta)) (JObj [(k, v)])"

definition mark_skipped :: "string \<Rightarrow> string \<Rightarrow> unit handler" where
  "mark_skipped fileId reason =
     bnd (gets (file_by fileId)) (\<lambda>f.
     case f of
       None \<Rightarrow> ret ()
     | Some f \<Rightarrow> upd (set_file fileId (f_meta_update (\<lambda>_. Some (with_meta (f_meta f) ''webViewerSkipped'' (JStr reason))))))"

definition run_blender_convert :: "tools \<Rightarrow> string \<Rightarrow> file_kind \<Rightarrow> app_error + unit" where
  "run_blender_convert tk sourceKey kind =
     (if kind = GLTF then tl_pipeline tk sourceKey
      else sum_bind (tl_exec tk sourceKey) (\<lambda>(code, stderr).
           if code \<noteq> 0 then Inl (OtherError (RemoteFailure (''Blender exit '' @ show_int code @ '': '' @ stderr))) else Inr ()))"

text \<open>\<open>gltfpack\<close> may fail in any way; then the unpacked file is used.\<close>

definition convert_file :: "tools \<Rightarrow> string \<Rightarrow> file_kind \<Rightarrow> app_error + int" where
  "convert_file tk sourceKey kind =
     sum_bind (run_blender_convert tk sourceKey kind) (\<lambda>_. tl_size tk sourceKey (tl_packed tk sourceKey))"

definition store_glb :: "tools \<Rightarrow> s3_config \<Rightarrow> version_row \<Rightarrow> file_row \<Rightarrow> string \<Rightarrow> file_kind \<Rightarrow> unit handler" where
  "store_glb tk cfg v f sourceKey kind =
     (let key = derived_key_for (v_s3Prefix v) (f_relPath f)
      in bnd (from_sum (convert_file tk sourceKey kind)) (\<lambda>n.
         bnd (put_object tk cfg AssetsBucket key) (\<lambda>_.
         bnd (upd (set_file (f_id f) (f_meta_update (\<lambda>_. Some (with_meta (f_meta f) ''webViewerGlb''
                (JObj [(''key'', JStr key), (''bytes'', JNum n)])))))) (\<lambda>_.
         enqueueThumbnailRender (v_id v) key))))"

definition process_gltf_convert ::
  "tools \<Rightarrow> s3_config \<Rightarrow> string \<Rightarrow> string \<Rightarrow> string \<Rightarrow> file_kind \<Rightarrow> unit handler" where
  "process_gltf_convert tk cfg versionId fileId sourceKey sourceKind =
     bnd (gets (\<lambda>w. (version_by versionId w, file_by fileId w))) (\<lambda>r.
     case r of
       (Some v, Some f) \<Rightarrow>
         if f_bytes f > MAX_PRE_COMPRESSION_BYTES then mark_skipped fileId ''too_large''
         else
           bnd (from_sum (tl_open tk sourceKey)) (\<lambda>_.
           (\<lambda>w. case store_glb tk cfg v f sourceKey sourceKind w of
                  (Inl e, w') \<Rightarrow> bnd (mark_skipped fileId (tl_message tk e)) (\<lambda>_. throw e) w'
                | (Inr x, w') \<Rightarrow> (Inr x, w')))
     | _ \<Rightarrow> ret ())"

subsection \<open>ThumbnailRenderWorker\<close>

record glb_candidate =
  gc_key :: string
  gc_vertices :: int
  gc_bytes :: int

text \<open>\<open>Number\<close> of what the probe reported; \<open>NaN\<close>, which no comparison accepts, drops the file.\<close>

definition number_of :: "(string \<Rightarrow> int option) \<Rightarrow> json option \<Rightarrow> int option" where
  "number_of num v =
     (case non_null v of
        None \<Rightarrow> Some 0 | Some (JNum n) \<Rightarrow> Some n | Some (JBool b) \<Rightarrow> Some (if b then 1 else 0) | Some (JStr s) \<Rightarrow> num s | _ \<Rightarrow> None)"

definition candidate_of :: "(string \<Rightarrow> int option) \<Rightarrow> file_row \<Rightarrow> glb_candidate option" where
  "candidate_of num f =
     (let meta = or_empty (non_null (f_meta f))
      in case get_prop meta ''webViewerGlb'' of
           None \<Rightarrow> None
         | Some g \<Rightarrow>
             (case (truthy_opt (str_prop g ''key''), number_of num (get_prop meta ''vertices'')) of
                (Some k, Some n) \<Rightarrow>
                  Some \<lparr>gc_key = k, gc_vertices = n, gc_bytes = or_else (number_of num (get_prop g ''bytes'')) 0\<rparr>
              | _ \<Rightarrow> None))"

text \<open>The best so far, which starts below every count; a later candidate replaces it only when it is strictly larger.\<close>

definition better :: "glb_candidate \<Rightarrow> int \<times> int \<times> string option \<Rightarrow> bool" where
  "better c best \<longleftrightarrow> (case best of (v, b, _) \<Rightarrow> gc_vertices c > v \<or> (gc_vertices c = v \<and> gc_bytes c > b))"

definition pick_largest_glb :: "(string \<Rightarrow> int option) \<Rightarrow> file_row list \<Rightarrow> string option" where
  "pick_largest_glb num fs =
     snd (snd (foldl (\<lambda>best c. if better c best then (gc_vertices c, gc_bytes c, Some (gc_key c)) else best) (-1, -1, None)
       (List.map_filter (candidate_of num) fs)))"

definition process_thumbnail_render :: "tools \<Rightarrow> s3_config \<Rightarrow> string \<Rightarrow> string \<Rightarrow> unit handler" where
  "process_thumbnail_render tk cfg versionId glbKey =
     bnd (gets (\<lambda>w. (version_by versionId w, pick_largest_glb (tl_number tk) (asset_files versionId w)))) (\<lambda>r.
     case r of
       (None, _) \<Rightarrow> ret ()
     | (Some v, largest) \<Rightarrow>
         if largest \<noteq> None \<and> largest \<noteq> Some glbKey then ret ()
         else
           (let base = v_s3Prefix v @ ''__derived__/thumbnails/auto''
            in bnd (from_sum (tl_open tk glbKey)) (\<lambda>_.
               bnd (from_sum (tl_exec tk glbKey)) (\<lambda>(code, stderr).
               bnd (check (code = 0) (OtherError (RemoteFailure (''Blender render exit '' @ show_int code @ '': '' @ stderr)))) (\<lambda>_.
               bnd (from_sum (tl_resize tk glbKey 1280 720)) (\<lambda>_.
               bnd (from_sum (tl_resize tk glbKey 2560 1440)) (\<lambda>_.
               bnd (put_object tk cfg AssetsBucket (base @ ''.webp'')) (\<lambda>_.
               bnd (put_object tk cfg AssetsBucket (base @ ''-2x.webp'')) (\<lambda>_.
               bnd (fetch (asset_by (v_assetId v)) (OtherError (RecordNotFound ''Asset''))) (\<lambda>_.
               upd (set_asset (v_assetId v) (a_thumbnailAuto_update (\<lambda>_. Some (base @ ''.webp''))))))))))))))"

subsection \<open>ThumbnailVariantsWorker\<close>

definition SIZES :: "(string \<times> int \<times> int) list" where
  "SIZES = [(''thumb-1x'', 480, 270), (''thumb-2x'', 960, 540), (''card-1x'', 640, 360), (''card-2x'', 1280, 720),
            (''hero-1x'', 1280, 720), (''hero-2x'', 2560, 1440)]"

definition variant_key :: "string \<Rightarrow> string \<Rightarrow> string" where
  "variant_key assetId name = ''thumbs/'' @ assetId @ ''/'' @ name @ ''.webp''"

definition process_thumbnail_variants :: "tools \<Rightarrow> s3_config \<Rightarrow> string \<Rightarrow> string \<Rightarrow> unit handler" where
  "process_thumbnail_variants tk cfg assetId sourceKey =
     bnd (from_sum (tl_open tk sourceKey)) (\<lambda>_.
     bnd (each (\<lambda>(name, width, height).
            bnd (from_sum (tl_resize tk sourceKey width height)) (\<lambda>_.
            put_object tk cfg ThumbsBucket (variant_key assetId name))) SIZES) (\<lambda>_.
     bnd (fetch (asset_by assetId) (OtherError (RecordNotFound ''Asset''))) (\<lambda>_.
     upd (set_asset assetId (a_thumbnailVariants_update (\<lambda>_.
       Some (JObj (map (\<lambda>(name, _, _). (name, JStr (variant_key assetId name))) SIZES))))))))"

subsection \<open>The largest conversion\<close>

lemma best_fold:
  assumes "foldl (\<lambda>best c. if better c best then (gc_vertices c, gc_bytes c, Some (gc_key c)) else best) (v, b, k) cs = (v', b', k')"
  shows "(v, b) \<le> (v', b') \<and> (\<forall>c \<in> set cs. (gc_vertices c, gc_bytes c) \<le> (v', b')) \<and>
     ((v', b', k') = (v, b, k) \<or> (\<exists>c \<in> set cs. (v', b', k') = (gc_vertices c, gc_bytes c, Some (gc_key c))))"
  using assms
proof (induction cs arbitrary: v b k)
  case (Cons c cs)
  show ?case
  proof (cases "better c (v, b, k)")
    case True
    with Cons.prems Cons.IH [of "gc_vertices c" "gc_bytes c" "Some (gc_key c)"] show ?thesis
      by (fastforce simp: better_def less_eq_prod_def)
  next
    case False
    with Cons.prems Cons.IH [of v b k] show ?thesis
      by (fastforce simp: better_def less_eq_prod_def)
  qed
qed simp

text \<open>
  The preview is rendered from a conversion that no other one of the version exceeds, in vertices and then in bytes;
  nothing is chosen only when every count is negative or there is no conversion.
\<close>

theorem largest_glb_maximal:
  assumes "pick_largest_glb num fs = Some k"
  shows "\<exists>c \<in> set (List.map_filter (candidate_of num) fs). gc_key c = k \<and>
     (\<forall>d \<in> set (List.map_filter (candidate_of num) fs). (gc_vertices d, gc_bytes d) \<le> (gc_vertices c, gc_bytes c))"
proof -
  obtain v b where "foldl (\<lambda>best c. if better c best then (gc_vertices c, gc_bytes c, Some (gc_key c)) else best) (-1, -1, None)
      (List.map_filter (candidate_of num) fs) = (v, b, Some k)"
    using assms by (cases "foldl (\<lambda>best c. if better c best then (gc_vertices c, gc_bytes c, Some (gc_key c)) else best) (-1, -1, None)
      (List.map_filter (candidate_of num) fs)") (simp add: pick_largest_glb_def)
  from best_fold [OF this] show ?thesis by auto
qed

subsection \<open>A conversion adds one object and touches one file\<close>

lemma mark_skipped_run:
  "\<exists>g. mark_skipped i reason w = (Inr (), set_file i g w) \<and> (\<forall>x. \<exists>m. g x = f_meta_update m x)"
proof (cases "file_by i w")
  case None
  have "set_rows (\<lambda>x. f_id x = i) (\<lambda>x. x) rows = rows" for rows by (induction rows) auto
  then have "set_file i (\<lambda>x. x) w = w" by (cases w) (simp add: set_file_def)
  moreover have "\<exists>m. x = f_meta_update m x" for x :: file_row by (rule exI [of _ "\<lambda>y. y"]) simp
  ultimately show ?thesis using None by (intro exI [of _ "\<lambda>x. x"]) (simp add: mark_skipped_def bnd_gets)
next
  case (Some f)
  then show ?thesis
    by (intro exI [of _ "f_meta_update (\<lambda>_. Some (with_meta (f_meta f) ''webViewerSkipped'' (JStr reason)))"])
      (auto simp: mark_skipped_def bnd_gets)
qed

definition apart_from_meta :: "world \<Rightarrow> file_row list" where
  "apart_from_meta w = map (f_meta_update (\<lambda>_. None)) (files w)"

lemma apart_from_meta_set_file:
  "(\<And>x. \<exists>m. g x = f_meta_update m x) \<Longrightarrow> apart_from_meta (set_file i g w) = apart_from_meta w"
proof -
  assume g: "\<And>x. \<exists>m. g x = f_meta_update m x"
  have "f_meta_update (\<lambda>_. None) (g x) = f_meta_update (\<lambda>_. None) x" for x
  proof -
    obtain m where "g x = f_meta_update m x" using g by blast
    then show ?thesis by simp
  qed
  then show ?thesis by (simp add: apart_from_meta_def set_file_def map_set_rows)
qed

text \<open>The states that a conversion may leave: \<open>o'\<close> is the one object it may add.\<close>

definition confined :: "world \<Rightarrow> string \<Rightarrow> world \<Rightarrow> bool" where
  "confined w o' w' \<longleftrightarrow>
     set (s3_objects w) \<subseteq> set (s3_objects w') \<and> set (s3_objects w') \<subseteq> insert o' (set (s3_objects w)) \<and>
     apart_from_meta w' = apart_from_meta w \<and> versions w' = versions w \<and> assets w' = assets w"

lemma confined_refl [simp]: "confined w o' w"
  by (auto simp: confined_def)

lemma confined_set_file:
  "confined w o' u \<Longrightarrow> (\<And>x. \<exists>m. g x = f_meta_update m x) \<Longrightarrow> confined w o' (set_file i g u)"
  unfolding confined_def by (simp add: apart_from_meta_set_file) (simp add: set_file_def)

lemma confined_other: "confined w o' u \<Longrightarrow> confined w o' (jobs_update h u)"
  by (simp add: confined_def apart_from_meta_def)

lemma confined_put: "confined w o' u \<Longrightarrow> confined w o' (s3_objects_update (List.insert o') u)"
  by (auto simp: confined_def apart_from_meta_def)

lemma store_glb_confined:
  "confined w (object_id cfg AssetsBucket (derived_key_for (v_s3Prefix v) (f_relPath f))) (snd (store_glb tk cfg v f key kind w))"
proof (cases "convert_file tk key kind")
  case (Inr n)
  let ?key = "derived_key_for (v_s3Prefix v) (f_relPath f)"
  show ?thesis
  proof (cases "tl_put tk ?key")
    case (Inr x)
    then show ?thesis using \<open>convert_file tk key kind = Inr n\<close>
      by (auto simp: store_glb_def put_object_def act_simps enqueueThumbnailRender_def Let_def
          intro!: confined_other confined_set_file confined_put)
  qed (simp add: store_glb_def put_object_def act_simps Let_def \<open>convert_file tk key kind = Inr n\<close>)
qed (simp add: store_glb_def act_simps Let_def)

lemma mark_skipped_confined: "confined w o' u \<Longrightarrow> confined w o' (snd (mark_skipped i reason u))"
proof -
  assume u: "confined w o' u"
  obtain g where "mark_skipped i reason u = (Inr (), set_file i g u)" and g: "\<And>x. \<exists>m. g x = f_meta_update m x"
    using mark_skipped_run by blast
  then show ?thesis using confined_set_file [OF u g] by simp
qed

text \<open>
  Whatever Blender, the packer and S3 answer, a conversion deletes and overwrites no object but the derived one of its
  file, under the prefix of the version, and changes no column of any row but \<open>meta\<close> of files.
\<close>

theorem conversion_confined:
  assumes "version_by vid w = Some v" and "file_by fid w = Some f"
  shows "confined w (object_id cfg AssetsBucket (v_s3Prefix v @ ''__derived__/web-viewer/'' @ f_relPath f @ ''.glb''))
     (snd (process_gltf_convert tk cfg vid fid key kind w))"
proof -
  let ?o = "object_id cfg AssetsBucket (derived_key_for (v_s3Prefix v) (f_relPath f))"
  have "confined w ?o (snd (process_gltf_convert tk cfg vid fid key kind w))"
  proof (cases "f_bytes f > MAX_PRE_COMPRESSION_BYTES \<or> isl (tl_open tk key)")
    case True
    then show ?thesis using assms mark_skipped_confined [of w ?o w]
      by (cases "tl_open tk key") (auto simp: process_gltf_convert_def bnd_gets bnd_apply)
  next
    case False
    obtain r u where r: "store_glb tk cfg v f key kind w = (r, u)" by fastforce
    then have u: "confined w ?o u" using store_glb_confined [of w cfg v f tk key kind] by simp
    show ?thesis
    proof (cases r)
      case (Inl e)
      have "snd (bnd (mark_skipped fid (tl_message tk e)) (\<lambda>_. throw e :: unit handler) u) = snd (mark_skipped fid (tl_message tk e) u)"
        by (simp add: bnd_apply split: prod.splits sum.splits)
      with False Inl r assms mark_skipped_confined [OF u] show ?thesis
        by (cases "tl_open tk key") (simp_all add: process_gltf_convert_def bnd_gets)
    next
      case (Inr x)
      with False r u assms show ?thesis
        by (cases "tl_open tk key") (simp_all add: process_gltf_convert_def bnd_gets)
    qed
  qed
  then show ?thesis by (simp add: derived_key_for_def)
qed

definition tools0 :: tools where
  "tools0 = \<lparr>tl_open = (\<lambda>_. Inr ()), tl_exec = (\<lambda>_. Inr (0, [])), tl_pipeline = (\<lambda>_. Inr ()), tl_packed = (\<lambda>_. True),
     tl_size = (\<lambda>_ _. Inr 9), tl_resize = (\<lambda>_ _ _. Inr ()), tl_put = (\<lambda>_. Inr ()), tl_message = (\<lambda>_. []), tl_number = (\<lambda>_. None)\<rparr>"

definition mesh_file :: "string \<Rightarrow> int \<Rightarrow> int \<Rightarrow> file_row" where
  "mesh_file key n b = file0\<lparr>f_meta := Some (JObj [(''vertices'', JNum n),
     (''webViewerGlb'', JObj [(''key'', JStr key), (''bytes'', JNum b)])])\<rparr>"

theorem largest_glb_maximal_witness:
  "pick_largest_glb (\<lambda>_. None) [mesh_file ''a'' 3 10, mesh_file ''b'' 5 1, mesh_file ''c'' 5 2, mesh_file ''d'' 5 2] = Some ''c'' \<and>
   (\<exists>c \<in> set (List.map_filter (candidate_of (\<lambda>_. None)) [mesh_file ''a'' 3 10, mesh_file ''b'' 5 1, mesh_file ''c'' 5 2, mesh_file ''d'' 5 2]).
      gc_key c = ''c'')"
proof -
  let ?fs = "[mesh_file ''a'' 3 10, mesh_file ''b'' 5 1, mesh_file ''c'' 5 2, mesh_file ''d'' 5 2]"
  have k: "pick_largest_glb (\<lambda>_. None) ?fs = Some ''c''" by code_simp
  show ?thesis using k largest_glb_maximal [OF k] by blast
qed

theorem conversion_confined_witness:
  "confined analysis_world (object_id cfg0 AssetsBucket ''assets/a/v1.0.0/__derived__/web-viewer/a.txt.glb'')
     (snd (process_gltf_convert tools0 cfg0 ''v'' ''k1'' ''k1'' FBX analysis_world))"
  using conversion_confined [OF analysis_world_files(4,1), of cfg0 tools0 "''k1''" FBX] by (simp add: version0_def)

end
