(* ===== verification/Metrics.thy ===== *)
theory Metrics
  imports Files
begin

unbundle bit_operations_syntax

section \<open>The allow-list of the metrics endpoint, and the health probes\<close>

text \<open>
  \<open>src/modules/metrics/metrics.controller.ts\<close>: the scrape endpoint compares the address of the client with CIDR blocks, as
  unbounded integers; and \<open>src/health/\<close>: the readiness probes.  Parameters: \<open>is_v6\<close>, the part of \<open>isIP\<close> that recognises
  IPv6, and \<open>num\<close>, what \<open>Number\<close> makes of a text that is neither blank nor decimal digits.
\<close>

datatype family = V4 | V6

fun width :: "family \<Rightarrow> nat" where
  "width V4 = 32"
| "width V6 = 128"

definition digits_value :: "string \<Rightarrow> int" where
  "digits_value s = foldl (\<lambda>n c. 10 * n + int (of_char c - 48)) 0 s"

definition octet_ok :: "string \<Rightarrow> bool" where
  "octet_ok s \<longleftrightarrow> s \<noteq> [] \<and> list_all is_digit s \<and> (hd s = CHR ''0'' \<longrightarrow> s = ''0'') \<and> length s \<le> 3 \<and> digits_value s \<le> 255"

definition is_v4 :: "string \<Rightarrow> bool" where
  "is_v4 s = (let ps = split_on CHR ''.'' s in length ps = 4 \<and> list_all octet_ok ps)"

definition is_ip :: "(string \<Rightarrow> bool) \<Rightarrow> string \<Rightarrow> family option" where
  "is_ip is_v6 s = (if is_v4 s then Some V4 else if is_v6 s then Some V6 else None)"

subsection \<open>Addresses as integers\<close>

definition range_error :: app_error where
  "range_error = OtherError (RemoteFailure ''RangeError'')"

text \<open>\<open>parseInt(g, 16)\<close>; \<open>None\<close> is \<open>NaN\<close>, which \<open>BigInt\<close> rejects.\<close>

definition parse_hex :: "string \<Rightarrow> int option" where
  "parse_hex g =
     (let ds = takeWhile (\<lambda>c. hex_val c \<noteq> None) g
      in if ds = [] then None else Some (foldl (\<lambda>n c. 16 * n + int (the (hex_val c))) 0 ds))"

definition index_of :: "string \<Rightarrow> string list \<Rightarrow> nat option" where
  "index_of x xs = (if x \<in> set xs then Some (length (takeWhile (\<lambda>y. y \<noteq> x) xs)) else None)"

text \<open>An array of negative length is a \<open>RangeError\<close>.\<close>

definition expand_v6 :: "string list \<Rightarrow> app_error + string list" where
  "expand_v6 groups =
     (case index_of [] groups of
        None \<Rightarrow> Inr groups
      | Some i \<Rightarrow>
          if length groups > 9 then Inl range_error
          else Inr (take i groups @ replicate (8 - (length groups - 1)) ''0'' @ drop (i + 1) groups))"

definition ip_to_bigint :: "string \<Rightarrow> family \<Rightarrow> app_error + int" where
  "ip_to_bigint ip fam =
     (case fam of
        V4 \<Rightarrow> Inr (foldl (\<lambda>acc oct. push_bit 8 acc OR digits_value oct) 0 (split_on CHR ''.'' ip))
      | V6 \<Rightarrow>
          sum_bind (expand_v6 (split_on CHR '':'' ip)) (\<lambda>full.
          sum_bind (map_sum (\<lambda>g. case parse_hex g of None \<Rightarrow> Inl range_error | Some n \<Rightarrow> Inr n) full) (\<lambda>ns.
          Inr (foldl (\<lambda>acc n. push_bit 16 acc OR n) 0 ns))))"

subsection \<open>Blocks\<close>

record parsed_cidr =
  cd_family :: family
  cd_base :: int
  cd_mask :: int
  cd_bits :: nat

definition number_text :: "(string \<Rightarrow> int option) \<Rightarrow> string \<Rightarrow> int option" where
  "number_text num s =
     (let t = trim s in if t = [] then Some 0 else if list_all is_digit t then Some (digits_value t) else num t)"

definition cidr_mask :: "nat \<Rightarrow> nat \<Rightarrow> int" where
  "cidr_mask w bits = (push_bit w 1 - 1) XOR (push_bit (w - bits) 1 - 1)"

text \<open>\<open>null\<close> is an entry that is ignored; an error is one that keeps the controller from being built.\<close>

definition parse_cidr :: "(string \<Rightarrow> bool) \<Rightarrow> (string \<Rightarrow> int option) \<Rightarrow> string \<Rightarrow> app_error + parsed_cidr option" where
  "parse_cidr is_v6 num raw =
     (let parts = split_on CHR ''/'' raw; ip = hd parts
      in if ip = [] then Inr None
         else (case is_ip is_v6 ip of
                 None \<Rightarrow> Inr None
               | Some fam \<Rightarrow>
                   (case (if length parts < 2 then Some (int (width fam)) else number_text num (parts ! 1)) of
                      None \<Rightarrow> Inr None
                    | Some bits \<Rightarrow>
                        if bits < 0 \<or> bits > int (width fam) then Inr None
                        else
                          sum_bind (ip_to_bigint ip fam) (\<lambda>n.
                          (let mask = cidr_mask (width fam) (nat bits)
                           in Inr (Some \<lparr>cd_family = fam, cd_base = n AND mask, cd_mask = mask, cd_bits = nat bits\<rparr>))))))"

definition ip_in_cidr :: "(string \<Rightarrow> bool) \<Rightarrow> string \<Rightarrow> parsed_cidr \<Rightarrow> app_error + bool" where
  "ip_in_cidr is_v6 ip c =
     (if is_ip is_v6 ip \<noteq> Some (cd_family c) then Inr False
      else sum_bind (ip_to_bigint ip (cd_family c)) (\<lambda>n. Inr (n AND cd_mask c = cd_base c)))"

definition allow_list :: "(string \<Rightarrow> bool) \<Rightarrow> (string \<Rightarrow> int option) \<Rightarrow> string list \<Rightarrow> app_error + parsed_cidr list" where
  "allow_list is_v6 num raws = sum_bind (map_sum (parse_cidr is_v6 num) raws) (\<lambda>cs. Inr (List.map_filter id cs))"

text \<open>\<open>some\<close>: the blocks in order, until one matches or throws.\<close>

fun some_cidr :: "(string \<Rightarrow> bool) \<Rightarrow> string \<Rightarrow> parsed_cidr list \<Rightarrow> app_error + bool" where
  "some_cidr is_v6 ip [] = Inr False"
| "some_cidr is_v6 ip (c # cs) = sum_bind (ip_in_cidr is_v6 ip c) (\<lambda>b. if b then Inr True else some_cidr is_v6 ip cs)"

definition metrics_endpoint :: "(string \<Rightarrow> bool) \<Rightarrow> parsed_cidr list \<Rightarrow> string \<Rightarrow> user_row option \<Rightarrow> string \<Rightarrow> app_error + string" where
  "metrics_endpoint is_v6 cidrs ip user body =
     sum_bind (some_cidr is_v6 ip cidrs) (\<lambda>by_cidr.
     if by_cidr \<or> (case user of None \<Rightarrow> False | Some u \<Rightarrow> u_isAdmin u) then Inr body else Inl Forbidden)"

subsection \<open>Health\<close>

record readiness =
  rd_ok :: bool
  rd_checks :: "(string \<times> bool) list"
  rd_timestamp :: string

text \<open>The pings catch their errors, so a probe always answers; the worker does not ask Meilisearch.\<close>

definition readiness_of :: "(string \<Rightarrow> bool) \<Rightarrow> string list \<Rightarrow> int \<Rightarrow> readiness" where
  "readiness_of ping services now =
     \<lparr>rd_ok = list_all ping services, rd_checks = map (\<lambda>s. (s, ping s)) services, rd_timestamp = iso_string now\<rparr>"

definition api_readiness :: "(string \<Rightarrow> bool) \<Rightarrow> int \<Rightarrow> readiness" where
  "api_readiness ping = readiness_of ping [''postgres'', ''redis'', ''mongo'', ''meilisearch'', ''s3'']"

definition worker_readiness :: "(string \<Rightarrow> bool) \<Rightarrow> int \<Rightarrow> readiness" where
  "worker_readiness ping = readiness_of ping [''postgres'', ''redis'', ''mongo'', ''s3'']"

subsection \<open>A block is a prefix\<close>

definition v4_value :: "string \<Rightarrow> int" where
  "v4_value ip = foldl (\<lambda>acc oct. 256 * acc + digits_value oct) 0 (split_on CHR ''.'' ip)"

lemma shift_or_add: "0 \<le> n \<Longrightarrow> n < 256 \<Longrightarrow> push_bit 8 acc OR n = 256 * acc + (n :: int)"
proof -
  assume n: "0 \<le> n" "n < 256"
  then have "take_bit 8 n = n" by (simp add: take_bit_int_eq_self_iff)
  then have "\<not> bit n k" if "8 \<le> k" for k using that by (metis bit_take_bit_iff not_less)
  then have "push_bit 8 acc + n = push_bit 8 acc OR n"
    by (intro disjunctive_add) (auto simp: bit_push_bit_iff)
  then show ?thesis by (simp add: push_bit_eq_mult)
qed

lemma digits_value_nonneg: "0 \<le> digits_value s"
proof -
  have "0 \<le> n \<Longrightarrow> 0 \<le> foldl (\<lambda>n c. 10 * n + int (of_char c - 48)) n s" for n
    by (induction s arbitrary: n) simp_all
  then show ?thesis by (simp add: digits_value_def)
qed

lemma v4_fold:
  "list_all octet_ok ps \<Longrightarrow> 0 \<le> acc \<Longrightarrow>
     foldl (\<lambda>acc oct. push_bit 8 acc OR digits_value oct) acc ps = foldl (\<lambda>acc oct. 256 * acc + digits_value oct) acc ps \<and>
     0 \<le> foldl (\<lambda>acc oct. 256 * acc + digits_value oct) acc ps \<and>
     foldl (\<lambda>acc oct. 256 * acc + digits_value oct) acc ps < (acc + 1) * 256 ^ length ps"
proof (induction ps arbitrary: acc)
  case (Cons p ps)
  have p: "0 \<le> digits_value p" "digits_value p < 256"
    using Cons.prems(1) digits_value_nonneg by (simp_all add: octet_ok_def)
  have IH: "foldl (\<lambda>acc oct. 256 * acc + digits_value oct) (256 * acc + digits_value p) ps < (256 * acc + digits_value p + 1) * 256 ^ length ps"
    using Cons p by simp
  have "(256 * acc + digits_value p + 1) * 256 ^ length ps \<le> ((acc + 1) * 256) * 256 ^ length ps"
    using p by (intro mult_right_mono) simp_all
  with IH have "foldl (\<lambda>acc oct. 256 * acc + digits_value oct) (256 * acc + digits_value p) ps < ((acc + 1) * 256) * 256 ^ length ps"
    by (rule less_le_trans)
  also have "\<dots> = (acc + 1) * 256 ^ Suc (length ps)" by simp
  finally have "foldl (\<lambda>acc oct. 256 * acc + digits_value oct) (256 * acc + digits_value p) ps < (acc + 1) * 256 ^ Suc (length ps)" .
  with Cons p show ?case by (simp add: shift_or_add)
qed simp

lemma v4_bigint: "is_v4 ip \<Longrightarrow> ip_to_bigint ip V4 = Inr (v4_value ip) \<and> 0 \<le> v4_value ip \<and> v4_value ip < 2 ^ 32"
  using v4_fold [of "split_on CHR ''.'' ip" 0] by (auto simp: is_v4_def Let_def ip_to_bigint_def v4_value_def)

lemma cidr_mask_eq: "bits \<le> w \<Longrightarrow> cidr_mask w bits = push_bit (w - bits) (mask bits)"
  unfolding cidr_mask_def push_bit_eq_mult mult_1 mask_eq_exp_minus_1 [symmetric]
  by (rule bit_eqI) (auto simp: bit_simps simp flip: push_bit_eq_mult)

lemma and_cidr_mask:
  assumes "bits \<le> w" and "0 \<le> n" and "n < 2 ^ w"
  shows "n AND cidr_mask w bits = push_bit (w - bits) (n div 2 ^ (w - bits))"
proof -
  have "take_bit w n = n" using assms by (simp add: take_bit_int_eq_self_iff)
  then have lt: "bit n k \<Longrightarrow> k < w" for k by (metis bit_take_bit_iff)
  have "n AND push_bit (w - bits) (mask bits) = push_bit (w - bits) (drop_bit (w - bits) n)"
    using assms(1) by (intro bit_eqI) (auto simp: bit_simps dest: lt)
  then show ?thesis using assms(1) by (simp add: cidr_mask_eq drop_bit_eq_div)
qed

text \<open>
  C39: An IPv4 client is in an IPv4 block of length \<open>n\<close> exactly when its address and that of the block agree on the first
  \<open>n\<close> bits, that is when the quotients by \<open>2\<^sup>(\<^sup>3\<^sup>2 \<^sup>- \<^sup>n\<^sup>)\<close> are the same. Nothing is claimed of IPv6 blocks or
  clients, whose compressed and embedded forms the code does not read.
\<close>

theorem v4_block_is_prefix:
  assumes "parse_cidr is_v6 num raw = Inr (Some c)" and "cd_family c = V4" and "is_v4 ip"
  shows "cd_bits c \<le> 32 \<and>
     ip_in_cidr is_v6 ip c =
       Inr (v4_value ip div 2 ^ (32 - cd_bits c) = v4_value (hd (split_on CHR ''/'' raw)) div 2 ^ (32 - cd_bits c))"
proof -
  let ?b = "hd (split_on CHR ''/'' raw)"
  from assms(1,2) have fam: "is_ip is_v6 ?b = Some V4" and le: "cd_bits c \<le> 32" and mask: "cd_mask c = cidr_mask 32 (cd_bits c)"
    and base: "\<exists>n. ip_to_bigint ?b V4 = Inr n \<and> cd_base c = n AND cd_mask c"
    by (auto simp: parse_cidr_def Let_def sum_bind_eq_Inr split: if_splits option.splits)
  from fam have "is_v4 ?b" by (simp add: is_ip_def split: if_splits)
  note b = v4_bigint [OF this] and ip = v4_bigint [OF assms(3)]
  have "push_bit k (x :: int) = push_bit k y \<longleftrightarrow> x = y" for k x y by (simp add: push_bit_eq_mult)
  with le b ip and_cidr_mask [OF le, of "v4_value ?b"] and_cidr_mask [OF le, of "v4_value ip"] assms(3)
    base mask assms(2) show ?thesis by (simp add: ip_in_cidr_def is_ip_def)
qed

theorem v4_block_is_prefix_witness:
  "ip_in_cidr (\<lambda>_. False) ''10.0.0.42'' \<lparr>cd_family = V4, cd_base = 167772160, cd_mask = 4294967040, cd_bits = 24\<rparr> =
     Inr (v4_value ''10.0.0.42'' div 256 = v4_value ''10.0.0.0'' div 256)"
proof -
  have c: "parse_cidr (\<lambda>_. False) (\<lambda>_. None) ''10.0.0.0/24'' =
      Inr (Some \<lparr>cd_family = V4, cd_base = 167772160, cd_mask = 4294967040, cd_bits = 24\<rparr>)"
    and ip: "is_v4 ''10.0.0.42''" and b: "hd (split_on CHR ''/'' ''10.0.0.0/24'') = ''10.0.0.0''"
    by code_simp+
  show ?thesis using v4_block_is_prefix [OF c _ ip] by (simp add: b)
qed

subsection \<open>Compressed IPv6 addresses\<close>

lemma map_sum_fails: "x \<in> set xs \<Longrightarrow> f x = Inl e \<Longrightarrow> (\<And>y e'. f y = Inl e' \<Longrightarrow> e' = e) \<Longrightarrow> map_sum f xs = Inl e"
proof (induction xs)
  case Nil
  from Nil.prems(1) show ?case by simp
next
  case (Cons y xs)
  show ?case
  proof (cases "f y")
    case (Inl e')
    with Cons.prems(3) [OF this] show ?thesis by simp
  next
    case (Inr z)
    with Cons.prems(1,2) have "x \<in> set xs" by auto
    from Cons.IH [OF this Cons.prems(2,3)] Inr show ?thesis by simp
  qed
qed

lemma double_colon_fails: "ip_to_bigint (CHR '':'' # CHR '':'' # r) V6 = Inl range_error"
proof (cases "length (split_on CHR '':'' r) + 2 > 9")
  case True
  then show ?thesis by (simp add: ip_to_bigint_def expand_v6_def index_of_def)
next
  case False
  have "map_sum (\<lambda>g. case parse_hex g of None \<Rightarrow> Inl range_error | Some n \<Rightarrow> Inr n)
      (replicate (7 - length (split_on CHR '':'' r)) ''0'' @ [] # split_on CHR '':'' r) = Inl range_error"
    by (rule map_sum_fails [of "[]"]) (auto simp: parse_hex_def split: option.splits)
  with False show ?thesis by (simp add: ip_to_bigint_def expand_v6_def index_of_def)
qed

lemma split_first_char: "x \<noteq> c \<Longrightarrow> \<exists>p ps. split_on c (x # xs) = (x # p) # ps"
  by (cases "split_on c xs") auto

lemma colon_not_v4: "\<not> is_v4 (CHR '':'' # r)"
proof -
  obtain p ps where "split_on CHR ''.'' (CHR '':'' # r) = (CHR '':'' # p) # ps"
    using split_first_char [of "CHR '':''" "CHR ''.''" r] by auto
  then show ?thesis by (simp add: is_v4_def octet_ok_def is_digit_def)
qed

text \<open>
  An IPv6 address that begins with a double colon, the loopback among them, cannot be expanded: as a client it gets an
  internal error as soon as one IPv6 block is configured, administrators included, and as an entry of the list it keeps
  the controller from being built.
\<close>

theorem double_colon_throws:
  assumes "is_v6 (''::'' @ r)"
  shows "metrics_endpoint is_v6 cs (''::'' @ r) user body =
       (if list_ex (\<lambda>c. cd_family c = V6) cs then Inl range_error
        else if (case user of None \<Rightarrow> False | Some u \<Rightarrow> u_isAdmin u) then Inr body else Inl Forbidden) \<and>
     (CHR ''/'' \<notin> set r \<longrightarrow> parse_cidr is_v6 num (''::'' @ r @ ''/128'') = Inl range_error)"
proof -
  have ip: "is_ip is_v6 (CHR '':'' # CHR '':'' # r) = Some V6" using assms by (simp add: is_ip_def colon_not_v4)
  have "some_cidr is_v6 (CHR '':'' # CHR '':'' # r) cs = (if list_ex (\<lambda>c. cd_family c = V6) cs then Inl range_error else Inr False)"
  proof (induction cs)
    case (Cons c cs)
    then show ?case using ip double_colon_fails [of r] by (cases "cd_family c") (simp_all add: ip_in_cidr_def)
  qed simp
  moreover have "parse_cidr is_v6 num (''::'' @ r @ ''/128'') = Inl range_error" if "CHR ''/'' \<notin> set r"
  proof -
    have "CHR ''/'' \<notin> set s \<Longrightarrow> split_on CHR ''/'' (s @ ''/128'') = [s, ''128'']" for s
      by (induction s) (simp, simp, metis)
    from this [of "''::'' @ r"] that have "split_on CHR ''/'' (CHR '':'' # CHR '':'' # r @ ''/128'') = [CHR '':'' # CHR '':'' # r, ''128'']"
      by simp
    moreover have "number_text num ''128'' = Some 128" by (simp add: number_text_def) code_simp
    ultimately show ?thesis using ip double_colon_fails [of r]
      by (simp add: parse_cidr_def del: split_on.simps)
  qed
  ultimately show ?thesis by (simp add: metrics_endpoint_def)
qed

theorem double_colon_throws_witness:
  "metrics_endpoint (\<lambda>s. s = ''::1'') [\<lparr>cd_family = V6, cd_base = 0, cd_mask = 0, cd_bits = 0\<rparr>] ''::1'' (Some (alice\<lparr>u_isAdmin := True\<rparr>)) ''m'' =
     Inl range_error"
  using double_colon_throws [of "\<lambda>s. s = ''::1''" "''1''" "[\<lparr>cd_family = V6, cd_base = 0, cd_mask = 0, cd_bits = 0\<rparr>]"] by simp

end
