(* ===== verification/Backend.thy ===== *)
theory Backend
  imports Api Derive Metrics
begin

section \<open>The whole backend\<close>

text \<open>
  The API and the workers together: a step of the backend is a request, the run of one worker, or a job that leaves its
  queue.  Two properties hold of every run: an admin remains, and the notifications that the services and workers queue
  carry every field that the texts of their mails mention.
\<close>

subsection \<open>The workers\<close>

inductive worker_step :: "world \<Rightarrow> world \<Rightarrow> bool" where
  analyze: "worker_step w (snd (process_analyze az up now versionId fileId w))"
| analyze_version: "worker_step w (snd (process_analyze_version collate message refused now versionId w))"
| gltf_convert: "worker_step w (snd (process_gltf_convert tk cfg versionId fileId sourceKey kind w))"
| thumbnail_render: "worker_step w (snd (process_thumbnail_render tk cfg versionId glbKey w))"
| thumbnail_variants: "worker_step w (snd (process_thumbnail_variants tk cfg assetId sourceKey w))"
| search_mark: "worker_step w (snd (mark_dirty assetId w))"
| search_batch: "worker_step w (snd (process_batch cfg c m w))"
| notify: "worker_step w (snd (process_notify env now rowId wsId j w))"
| webhook: "worker_step w (snd (process_webhook wenv now uuid jobId attemptsMade h w))"
| archive_purge: "archive_purge cfg st c meili days now w = Some y \<Longrightarrow> worker_step w (snd y)"
| audit_purge: "worker_step w (snd (audit_purge days now w))"
| editor_media_gc: "worker_step w (snd (editor_media_gc uenv cfg c now w))"
| analytics_rollup: "worker_step w (snd (analytics_rollup days now w))"
| storage_rollup: "storage_rollup cfg lister now w = Some y \<Longrightarrow> worker_step w (snd y)"

text \<open>A worker takes its job off the queue: jobs may leave at any time.\<close>

inductive backend_run :: "world \<Rightarrow> world \<Rightarrow> bool" where
  start: "backend_run w w"
| request: "backend_run w v \<Longrightarrow> api_step b rq v v' \<Longrightarrow> backend_run w v'"
| worker: "backend_run w v \<Longrightarrow> worker_step v v' \<Longrightarrow> backend_run w v'"
| taken: "backend_run w v \<Longrightarrow> set js \<subseteq> set (jobs v) \<Longrightarrow> backend_run w (jobs_update (\<lambda>_. js) v)"

context frame_invariant
begin

lemma kept_analyze: "keeps I (process_analyze az up now versionId fileId)"
  unfolding process_analyze_def store_analysis_def replace_dependencies_def require_empty_project_def
    decrement_and_maybe_rollup_def
  by (auto intro!: keeps_intro op_kept kept_upd split: sum.splits)

lemma kept_analyze_version: "keeps I (process_analyze_version collate message refused now versionId)"
  unfolding process_analyze_version_def analysis_failed_def convert_jobs_def
  by (auto intro!: keeps_intro op_kept kept_upd notices_filled)

lemma kept_try:
  assumes "keeps I m" and "\<And>e. keeps I (f e)"
  shows "keeps I (\<lambda>w. case m w of (Inl e, w') \<Rightarrow> f e w' | (Inr x, w') \<Rightarrow> (Inr (), w'))"
  using assms by (auto simp: keeps_def split: prod.splits sum.splits)

lemma kept_glb: "keeps I (store_glb tk cfg v f sourceKey kind)" "keeps I (mark_skipped fileId reason)"
  unfolding store_glb_def put_object_def mark_skipped_def
  by (auto intro!: keeps_intro op_kept kept_upd)

lemma kept_derive:
  "keeps I (process_gltf_convert tk cfg versionId fileId sourceKey kind)"
  "keeps I (process_thumbnail_render tk cfg versionId glbKey)" "keeps I (process_thumbnail_variants tk cfg assetId sourceKey)"
  unfolding process_gltf_convert_def process_thumbnail_render_def process_thumbnail_variants_def put_object_def
  by (auto intro!: keeps_intro op_kept kept_upd kept_try kept_glb split: prod.splits option.splits)

lemma kept_search: "keeps I (mark_dirty i)" "keeps I (process_batch cfg c m)"
  unfolding mark_dirty_def process_batch_def add_documents_def remove_documents_def mirror_tag_usage_def delete_documents_def
  by (auto intro!: keeps_intro op_kept kept_upd)

lemma kept_notify: "keeps I (process_notify env now rowId wsId j)" "keeps I (process_webhook wenv now uuid jobId k h)"
  unfolding process_notify_def unless_dropped_def insert_in_app_def publish_ws_def send_email_def process_webhook_def
  by (auto intro!: keeps_intro op_kept kept_upd split: option.splits)

lemma kept_maintenance:
  "keeps I (audit_purge days now)" "keeps I (editor_media_gc uenv cfg c now)" "keeps I (analytics_rollup days now)"
  "keeps I (store_bucket cfg date role objs)" "keeps I (store_usage date owners objs)"
  unfolding audit_purge_def editor_media_gc_def gc_one_def analytics_rollup_def store_bucket_def store_usage_def
  by (auto intro!: keeps_intro op_kept kept_upd)

end

subsection \<open>Workers that may not return\<close>

definition quiet :: "world \<Rightarrow> user_row list \<times> job list" where
  "quiet w = (users w, jobs w)"

lemma quiet_bystanders: "bystanders w = bystanders v \<Longrightarrow> quiet w = quiet v"
  by (simp add: bystanders_def quiet_def)

lemma purge_one_quiet: "purge_one cfg st c meili now a w = Some (r, w') \<Longrightarrow> quiet w' = quiet w"
  unfolding purge_one_def
proof (erule lbnd_frame)
  show "quiet s = quiet w" if "delete_asset_objects cfg st c a w = Some (q, s)" for q s
    using that by (rule quiet_bystanders [OF delete_asset_objects_bystanders])
next
  fix x s
  show "quiet w' = quiet s"
    if "always (bnd (transact (bnd (audit_record now None ''archive.purged'' ''Asset'' (a_id a)
          (Some (JObj [(''previousStatus'', JStr (asset_status_name (a_status a))), (''slug'', JStr (a_slug a))])))
          (\<lambda>_. delete_asset_row (a_id a)))) (\<lambda>_. swallow (delete_documents meili (asset_doc_ids (a_id a))))) s = Some (r, w')"
    using that by (auto simp: always_def quiet_def act_simps audit_record_def delete_asset_row_def swallow_def
        delete_documents_def transact_def split: option.splits if_splits sum.splits prod.splits)
qed

lemma purge_all_quiet: "purge_all cfg st c meili now as w = Some (r, w') \<Longrightarrow> quiet w' = quiet w"
  by (induction as arbitrary: w) (auto split: option.splits dest!: purge_one_quiet)

context frame_invariant
begin

lemma bucket_rollup_kept: "bucket_rollup cfg lister date role w = Some (r, w') \<Longrightarrow> I w \<Longrightarrow> I w'"
  using keepsD [OF keeps_bnd [OF kept_maintenance(4) keeps_ret]]
  by (fastforce simp: bucket_rollup_def split: option.splits sum.splits)

lemma storage_rollup_kept: "storage_rollup cfg lister now w = Some (r, w') \<Longrightarrow> I w \<Longrightarrow> I w'"
  unfolding storage_rollup_def
  by (elim keeps_lbnd) (auto simp: always_def dest: bucket_rollup_kept keepsD [OF kept_maintenance(5)])

lemma archive_purge_kept: "archive_purge cfg st c meili days now w = Some (r, w') \<Longrightarrow> I w \<Longrightarrow> I w'"
  by (rule looks) (auto simp: archive_purge_def quiet_def dest: purge_all_quiet)

lemma worker_keeps:
  assumes "worker_step w w'" and "I w"
  shows "I w'"
proof -
  have k: "I (snd (h w))" if "keeps I h" for h :: "'c handler" using that assms(2) by (simp add: keeps_def)
  from assms(1) show ?thesis
    by cases (auto intro: k kept_analyze kept_analyze_version kept_derive kept_search kept_notify kept_maintenance assms(2)
        dest: storage_rollup_kept archive_purge_kept)
qed

end

subsection \<open>An admin remains\<close>

text \<open>
  C1: Whatever sequence of requests the API serves and whatever the workers do in between, an active admin remains when
  there was one.
\<close>

theorem an_admin_remains:
  assumes "backend_run w w'" and "has_active_admin w"
  shows "has_active_admin w'"
  using assms
proof (induction rule: backend_run.induct)
  case (request w v b rq v')
  then show ?case unfolding has_active_admin_users
    by (elim api_stepE)
      (blast intro: active_accounts.api.member_keeps active_accounts.api.guest_keeps active_admins.console_keeps)+
next
  case (worker w v v')
  then show ?case unfolding has_active_admin_users by (blast intro: users_frame.worker_keeps)
qed (simp_all add: has_active_admin_users)

theorem an_admin_remains_witness: "has_active_admin (snd (admin_users_demote backend0 stranger0 ''b'' admins_world))"
proof (rule an_admin_remains)
  show "backend_run admins_world (snd (admin_users_demote backend0 stranger0 ''b'' admins_world))"
    by (rule backend_run.request [OF backend_run.start api_step.console [OF console_step.admin_users_demote]])
  show "has_active_admin admins_world"
    by (simp add: has_active_admin_def some_row_def admins_world_def root_def)
qed

subsection \<open>The mails have all their fields\<close>

interpretation queued_console: console_invariant mails_ok UNIV
proof unfold_locales
  show "keeps mails_ok (promote up now i u)" for up now i u
    unfolding promote_def role_change_payload_def
    by (auto intro!: keeps_intro op_kept keeps_upd notices_filled simp: mails_ok_def)
  show "keeps mails_ok (demote boot up now i u)" for boot up now i u
    unfolding demote_def role_change_payload_def
    by (auto intro!: keeps_intro op_kept keeps_upd notices_filled simp: mails_ok_def)
qed

lemma mails_ok_run: "backend_run w w' \<Longrightarrow> mails_ok w \<Longrightarrow> mails_ok w'"
proof (induction rule: backend_run.induct)
  case (request w v b rq v')
  then show ?case
    by (elim api_stepE) (blast intro: queued_mails.member_keeps queued_mails.guest_keeps queued_console.console_keeps)+
next
  case (worker w v v')
  then show ?case by (blast intro: queued_mails.worker_keeps)
qed (auto simp: mails_ok_def list_all_iff)

text \<open>The links a mail may mention are those the worker builds.\<close>

definition link_names :: "string list" where
  "link_names = [''assetUrl'', ''commentUrl'', ''issueUrl'', ''versionUrl'', ''discoverUrl'', ''requestUrl'',
     ''adminRequestUrl'', ''adminReportUrl'', ''adminAssetUrl'']"

definition link_paths :: "string list list" where
  "link_paths = map (\<lambda>n. [''links'', n]) link_names"

definition mail_links :: "notification_type \<Rightarrow> string list list" where
  "mail_links ty = map (split_on CHR ''.'') (filter is_link (remdups (mail_variables ty LEn @ mail_variables ty LId)))"

lemma mail_links_eval:
  "mail_links COMMENT_CREATED = [[''links'', ''commentUrl'']]"
  "mail_links COMMENT_REPLY = [[''links'', ''commentUrl'']]"
  "mail_links ISSUE_CREATED = [[''links'', ''issueUrl'']]"
  "mail_links ISSUE_STATUS_CHANGED = [[''links'', ''issueUrl'']]"
  "mail_links REQUEST_CREATED = [[''links'', ''adminRequestUrl'']]"
  "mail_links REQUEST_STATUS_CHANGED = [[''links'', ''requestUrl'']]"
  "mail_links REPORT_CREATED = [[''links'', ''adminReportUrl'']]"
  "mail_links REPORT_RECEIVED_FOR_YOUR_ASSET = [[''links'', ''assetUrl'']]"
  "mail_links FEATURED_FEATURED = [[''links'', ''discoverUrl'']]"
  "mail_links VERSION_PUBLISHED = [[''links'', ''assetUrl'']]"
  "mail_links ANALYZER_FAILED = [[''links'', ''versionUrl'']]"
  "mail_links ADMIN_PROMOTED = []"
  "mail_links ADMIN_DEMOTED = []"
  by code_simp+

lemma mail_links_known: "set (mail_links ty) \<subseteq> set link_paths"
  by (cases ty) (simp_all add: mail_links_eval link_paths_def link_names_def)

lemma lookup_link: "path \<in> set link_paths \<Longrightarrow> has_path (mail_vars env r j) path"
  by (auto simp: link_paths_def link_names_def mail_vars_def build_links_def Let_def has_path_def)

lemma lookup_payload:
  assumes "has_path (nj_payload j) (k # ks)" and "k \<noteq> ''recipient''" and "k \<noteq> ''links''"
  shows "has_path (mail_vars env r j) (k # ks)"
  using assms by (cases "nj_payload j") (auto simp: has_path_def mail_vars_def)

lemma mail_path_head: "path \<in> set (mail_paths ty) \<Longrightarrow> \<exists>k ks. path = k # ks \<and> k \<noteq> ''recipient'' \<and> k \<noteq> ''links''"
  by (cases ty) (auto simp: mail_paths_eval)

lemma notice_filled_mail:
  assumes "notice_filled j" and "p \<in> set (mail_variables (nj_type j) l)"
  shows "has_path (mail_vars env r j) (split_on CHR ''.'' p)"
proof (cases "is_link p")
  case True
  with assms(2) have "split_on CHR ''.'' p \<in> set (mail_links (nj_type j))" by (cases l) (auto simp: mail_links_def)
  then show ?thesis using mail_links_known by (blast intro: lookup_link)
next
  case False
  have "split_on CHR ''.'' p \<in> set (mail_paths (nj_type j))"
    using False assms(2) by (cases l) (auto simp: mail_paths_def)
  with assms(1) mail_path_head show ?thesis unfolding notice_filled_def list_all_iff
    by (metis Un_iff lookup_payload set_append)
qed

text \<open>
  C2: Whatever requests and workers ran before, every variable that the texts of a queued notification's mail mention has a
  value when the mail is rendered, in either language and whoever the recipient is: no mail goes out with a hole in it.
\<close>

theorem mails_have_no_holes:
  assumes "backend_run w w'" and "mails_ok w" and "job \<in> set (jobs w')" and "jb_payload job = NotifyJob j"
    and "p \<in> set (mail_variables (nj_type j) l)"
  shows "\<exists>v. lookup_path (Some (mail_vars env r j)) (split_on CHR ''.'' p) = Some v \<and> v \<noteq> JNull"
proof -
  have "payload_filled (jb_payload job)" using mails_ok_run [OF assms(1,2)] assms(3) by (simp add: mails_ok_def list_all_iff)
  with assms(4) have "notice_filled j" by (simp add: payload_filled_def)
  from notice_filled_mail [OF this assms(5), of env r] show ?thesis by (simp add: has_path_def split: option.splits)
qed

text \<open>A rollup the database refuses tells the owner of the asset why.\<close>

definition failure_notice :: notify_job where
  "failure_notice =
     \<lparr>nj_recipient = ''u'', nj_type = ANALYZER_FAILED,
      nj_payload = JObj (asset_ref_fields asset0 @ [(''versionId'', JStr ''v''), (''reason'', JStr ''full'')]), nj_drop = [], nj_actor = None\<rparr>"

lemma failure_notice_queued:
  "jobs (snd (process_analyze_version id (\<lambda>_. ''full'') (Some (OtherError TypeError)) 0 ''v'' analysis_world)) =
     jobs analysis_world @ [\<lparr>jb_id = None, jb_payload = NotifyJob failure_notice\<rparr>]"
proof -
  have "\<not> queue_down analysis_world" by (simp add: analysis_world_def)
  then show ?thesis
    by (simp add: process_analyze_version_def act_simps analysis_world_files analysis_failed_def enqueueNotify_def
        failure_notice_def Let_def set_version_def)
qed

theorem mails_have_no_holes_witness:
  "\<exists>v. lookup_path (Some (mail_vars (be_notify backend0) alice failure_notice)) [''reason''] = Some v \<and> v \<noteq> JNull"
proof -
  let ?w = "snd (process_analyze_version id (\<lambda>_. ''full'') (Some (OtherError TypeError)) 0 ''v'' analysis_world)"
  have run: "backend_run analysis_world ?w"
    by (rule backend_run.worker [OF backend_run.start worker_step.analyze_version])
  have p: "''reason'' \<in> set (mail_variables (nj_type failure_notice) LEn)" by code_simp
  have s: "split_on CHR ''.'' ''reason'' = [''reason'']" by code_simp
  have "mails_ok analysis_world" by (simp add: mails_ok_def analysis_world_def draft_world_def)
  from mails_have_no_holes [OF run this _ _ p, of "\<lparr>jb_id = None, jb_payload = NotifyJob failure_notice\<rparr>"] s
  show ?thesis by (simp add: failure_notice_queued)
qed

end
