(* ===== verification/Seeds.thy ===== *)
theory Seeds
  imports Search
begin

section \<open>The seed script and the reindex script\<close>

text \<open>
  \<open>scripts/seed.ts\<close>, which an operator runs on a database, and \<open>scripts/reindex-search.ts\<close>.  The seed upserts the bootstrap
  admin by email and the default categories and licenses by slug; \<open>upsert_seeds\<close> is the contract that makes it repeatable.
  The dash of the license texts is UTF-8.
\<close>

subsection \<open>Upserting by a key\<close>

definition upsert_by :: "('r \<Rightarrow> 'k) \<Rightarrow> 'k \<Rightarrow> 'r \<Rightarrow> ('r \<Rightarrow> 'r) \<Rightarrow> 'r list \<Rightarrow> 'r list" where
  "upsert_by key k create update rows =
     (if some_row (\<lambda>r. key r = k) rows then set_rows (\<lambda>r. key r = k) update rows else rows @ [create])"

lemma some_row_set_rows: "some_row P rows \<Longrightarrow> (\<And>r. P r \<Longrightarrow> P (f r)) \<Longrightarrow> some_row P (set_rows P f rows)"
  by (auto simp: some_row_def set_rows_def list_ex_iff)

text \<open>The row of the key is there, and refreshing it again would change nothing.\<close>

definition settled_by :: "('r \<Rightarrow> 'k) \<Rightarrow> 'k \<Rightarrow> ('r \<Rightarrow> 'r) \<Rightarrow> 'r list \<Rightarrow> bool" where
  "settled_by key k update rows \<longleftrightarrow> some_row (\<lambda>r. key r = k) rows \<and> (\<forall>r \<in> set rows. key r = k \<longrightarrow> update r = r)"

text \<open>A row that a seed has refreshed is one that it would refresh to itself.\<close>

locale upsert_seeds =
  fixes skey :: "'s \<Rightarrow> 'k" and rkey :: "'r \<Rightarrow> 'k" and create :: "'i \<Rightarrow> 's \<Rightarrow> 'r" and patch :: "'s \<Rightarrow> 'r \<Rightarrow> 'r"
  assumes create_key: "rkey (create i s) = skey s"
    and patch_key: "rkey (patch s r) = rkey r"
    and patch_twice: "patch s (patch s r) = patch s r"
    and patch_create: "patch s (create i s) = create i s"
begin

abbreviation settled :: "'s \<Rightarrow> 'r list \<Rightarrow> bool" where
  "settled s rows \<equiv> settled_by rkey (skey s) (patch s) rows"

lemma settled_done: "settled s rows \<Longrightarrow> upsert_by rkey (skey s) (create i s) (patch s) rows = rows"
  by (auto simp: settled_by_def upsert_by_def set_rows_def intro: map_idI)

lemma settles: "settled s (upsert_by rkey (skey s) (create i s) (patch s) rows)"
proof (cases "some_row (\<lambda>r. rkey r = skey s) rows")
  case True
  then have "some_row (\<lambda>r. rkey r = skey s) (set_rows (\<lambda>r. rkey r = skey s) (patch s) rows)"
    by (rule some_row_set_rows) (simp add: patch_key)
  with True show ?thesis by (auto simp: settled_by_def upsert_by_def set_set_rows patch_key patch_twice)
qed (auto simp: settled_by_def upsert_by_def some_row_iff create_key patch_create)

lemma stays_settled:
  "settled t rows \<Longrightarrow> skey t \<noteq> skey s \<Longrightarrow> settled t (upsert_by rkey (skey s) (create i s) (patch s) rows)"
  by (auto simp: settled_by_def upsert_by_def some_row_iff set_set_rows create_key patch_key image_iff split: if_splits)

text \<open>Other rows are untouched, and a table with one row per key keeps that.\<close>

lemma others_stay: "r \<in> set rows \<Longrightarrow> rkey r \<noteq> skey s \<Longrightarrow> r \<in> set (upsert_by rkey (skey s) (create i s) (patch s) rows)"
  by (auto simp: upsert_by_def set_set_rows image_iff)

lemma keys_distinct:
  "distinct (map rkey rows) \<Longrightarrow> distinct (map rkey (upsert_by rkey (skey s) (create i s) (patch s) rows))"
  by (auto simp: upsert_by_def some_row_iff create_key set_rows_def comp_def patch_key if_distrib cong: if_cong)

lemma fold_settled:
  "settled t rows \<Longrightarrow> skey t \<notin> skey ` set ss \<Longrightarrow>
     settled t (fold (\<lambda>s. upsert_by rkey (skey s) (create (i s) s) (patch s)) ss rows)"
  by (induction ss arbitrary: rows) (simp_all add: stays_settled)

lemma fold_settles:
  "distinct (map skey ss) \<Longrightarrow> t \<in> set ss \<Longrightarrow> settled t (fold (\<lambda>s. upsert_by rkey (skey s) (create (i s) s) (patch s)) ss rows)"
  by (induction ss arbitrary: rows) (auto intro: fold_settled settles)

lemma fold_done:
  "\<forall>s \<in> set ss. settled s rows \<Longrightarrow> fold (\<lambda>s. upsert_by rkey (skey s) (create (i s) s) (patch s)) ss rows = rows"
  by (induction ss) (simp_all add: settled_done)

end

subsection \<open>The records\<close>

definition long_dash :: string where "long_dash = [CHR 0xE2, CHR 0x80, CHR 0x94]"

definition both_locales :: "string \<Rightarrow> string \<Rightarrow> json" where
  "both_locales e i = JObj [(''en'', JStr e), (''id'', JStr i)]"

record category_seed =
  cse_slug :: string
  cse_name :: json
  cse_sortOrder :: int

record license_seed =
  lse_slug :: string
  lse_name :: string
  lse_description :: json
  lse_fullText :: json
  lse_sortOrder :: int

definition seed_category :: "string \<Rightarrow> string \<Rightarrow> string \<Rightarrow> int \<Rightarrow> category_seed" where
  "seed_category slug e i n = \<lparr>cse_slug = slug, cse_name = both_locales e i, cse_sortOrder = n\<rparr>"

definition seed_license :: "string \<Rightarrow> string \<Rightarrow> string \<Rightarrow> string \<Rightarrow> string \<Rightarrow> string \<Rightarrow> int \<Rightarrow> license_seed" where
  "seed_license slug name de di fe fi n =
     \<lparr>lse_slug = slug, lse_name = name, lse_description = both_locales de di, lse_fullText = both_locales fe fi, lse_sortOrder = n\<rparr>"

definition CATEGORIES :: "category_seed list" where
  "CATEGORIES =
    [seed_category ''3d-models'' ''3D Models'' ''Model 3D'' 10,
     seed_category ''2d-art'' ''2D Art & Sprites'' ''Seni 2D & Sprite'' 20,
     seed_category ''audio'' ''Audio & Music'' ''Audio & Musik'' 30,
     seed_category ''vfx'' ''VFX & Particles'' ''VFX & Partikel'' 40,
     seed_category ''animation'' ''Animations'' ''Animasi'' 50,
     seed_category ''tools'' ''Tools & Plugins'' ''Alat & Plugin'' 60,
     seed_category ''scripts'' ''Scripts & Snippets'' ''Skrip & Cuplikan'' 70,
     seed_category ''templates'' ''Project Templates'' ''Template Proyek'' 80,
     seed_category ''shaders'' ''Shaders & Materials'' ''Shader & Material'' 90,
     seed_category ''documents'' ''Documents & Guides'' ''Dokumen & Panduan'' 100]"

definition LICENSES :: "license_seed list" where
  "LICENSES =
    [seed_license ''mit'' ''MIT License''
       ''Permissive license requiring attribution.''
       ''Lisensi permisif yang memerlukan atribusi.''
       (''MIT License '' @ long_dash @ '' full text canonical at https://opensource.org/license/mit'')
       [] 10,
     seed_license ''cc0'' ''CC0 1.0 Universal''
       (''No rights reserved '' @ long_dash @ '' public domain dedication.'')
       (''Tanpa hak cipta '' @ long_dash @ '' dedikasi domain publik.'')
       (''CC0 1.0 Universal '' @ long_dash @ '' see https://creativecommons.org/publicdomain/zero/1.0/'')
       [] 20,
     seed_license ''cc-by'' ''CC BY 4.0''
       ''Attribution required; commercial use allowed.''
       ''Atribusi wajib; penggunaan komersial diperbolehkan.''
       (''CC BY 4.0 '' @ long_dash @ '' see https://creativecommons.org/licenses/by/4.0/'')
       [] 30,
     seed_license ''cc-by-sa'' ''CC BY-SA 4.0''
       ''Attribution + ShareAlike; derivatives use same license.''
       ''Atribusi + ShareAlike; turunan menggunakan lisensi yang sama.''
       (''CC BY-SA 4.0 '' @ long_dash @ '' see https://creativecommons.org/licenses/by-sa/4.0/'')
       [] 40,
     seed_license ''cc-by-nc'' ''CC BY-NC 4.0''
       ''Attribution; non-commercial use only.''
       ''Atribusi; hanya penggunaan non-komersial.''
       (''CC BY-NC 4.0 '' @ long_dash @ '' see https://creativecommons.org/licenses/by-nc/4.0/'')
       [] 50,
     seed_license ''commercial'' ''Commercial License''
       (''Custom commercial terms '' @ long_dash @ '' contact owner.'')
       (''Ketentuan komersial khusus '' @ long_dash @ '' hubungi pemilik.'')
       ''Contact the asset owner for the full commercial license terms.''
       ''Hubungi pemilik aset untuk ketentuan lisensi komersial lengkap.'' 60,
     seed_license ''internal-use-only'' ''Internal Use Only''
       ''Restricted to MGM Laboratory internal projects.''
       ''Terbatas untuk proyek internal MGM Laboratory.''
       ''For internal use within MGM Laboratory and its partners only. Redistribution outside the organization is prohibited.''
       ''Hanya untuk penggunaan internal di MGM Laboratory dan mitranya. Distribusi ulang ke luar organisasi dilarang.'' 70]"

subsection \<open>Seeding\<close>

text \<open>\<open>fresh\<close> gives the id of a row that an upsert creates.\<close>

definition new_category :: "string \<Rightarrow> category_seed \<Rightarrow> category_row" where
  "new_category i s =
     \<lparr>c_id = i, c_slug = cse_slug s, c_name = cse_name s, c_iconKey = None, c_sortOrder = cse_sortOrder s, c_isActive = True\<rparr>"

definition refresh_category :: "category_seed \<Rightarrow> category_row \<Rightarrow> category_row" where
  "refresh_category s c = c\<lparr>c_name := cse_name s, c_sortOrder := cse_sortOrder s, c_isActive := True\<rparr>"

definition new_license :: "string \<Rightarrow> license_seed \<Rightarrow> license_row" where
  "new_license i s =
     \<lparr>l_id = i, l_slug = lse_slug s, l_name = lse_name s, l_description = lse_description s, l_fullText = lse_fullText s,
      l_isActive = True, l_sortOrder = lse_sortOrder s\<rparr>"

definition refresh_license :: "license_seed \<Rightarrow> license_row \<Rightarrow> license_row" where
  "refresh_license s l =
     l\<lparr>l_name := lse_name s, l_description := lse_description s, l_fullText := lse_fullText s, l_isActive := True,
       l_sortOrder := lse_sortOrder s\<rparr>"

definition seed_categories :: "(string \<Rightarrow> string) \<Rightarrow> unit handler" where
  "seed_categories fresh =
     upd (categories_update (fold (\<lambda>s. upsert_by c_slug (cse_slug s) (new_category (fresh (cse_slug s)) s) (refresh_category s)) CATEGORIES))"

definition seed_licenses :: "(string \<Rightarrow> string) \<Rightarrow> unit handler" where
  "seed_licenses fresh =
     upd (licenses_update (fold (\<lambda>s. upsert_by l_slug (lse_slug s) (new_license (fresh (lse_slug s)) s) (refresh_license s)) LICENSES))"

definition seed_email :: "string option \<Rightarrow> string" where
  "seed_email configured = lower (or_else configured ''admin@labmgm.org'')"

definition placeholder_sub :: "string \<Rightarrow> string" where
  "placeholder_sub email = ''seed:'' @ email"

text \<open>The subject is unique too, so the creation may fail on it.\<close>

definition seed_admin :: "string option \<Rightarrow> int \<Rightarrow> string \<Rightarrow> unit handler" where
  "seed_admin configured now i =
     (let email = seed_email configured;
          admin = \<lparr>u_id = i, u_sub = placeholder_sub email, u_email = email, u_name = ''Bootstrap Admin'', u_locale = LEn,
                   u_isAdmin = True, u_createdAt = now, u_deletedAt = None\<rparr>
      in bnd (gets (\<lambda>w. some_row (\<lambda>u. u_email u = email) (users w))) (\<lambda>found.
         if found then upd (users_update (set_rows (\<lambda>u. u_email u = email) (u_isAdmin_update (\<lambda>_. True))))
         else
           bnd (gets (\<lambda>w. some_row (\<lambda>u. u_sub u = placeholder_sub email) (users w))) (\<lambda>taken.
           bnd (check (\<not> taken) (OtherError (UniqueViolation ''users.keycloakSub''))) (\<lambda>_.
           upd (users_update (\<lambda>us. us @ [admin]))))))"

definition run_seed :: "string option \<Rightarrow> int \<Rightarrow> (string \<Rightarrow> string) \<Rightarrow> unit handler" where
  "run_seed configured now fresh =
     bnd (seed_admin configured now (fresh ''admin'')) (\<lambda>_.
     bnd (seed_categories fresh) (\<lambda>_. seed_licenses fresh))"

interpretation category_seeds: upsert_seeds cse_slug c_slug new_category refresh_category
  by unfold_locales (simp_all add: new_category_def refresh_category_def)

interpretation license_seeds: upsert_seeds lse_slug l_slug new_license refresh_license
  by unfold_locales (simp_all add: new_license_def refresh_license_def)

lemma seed_slugs_distinct: "distinct (map cse_slug CATEGORIES)" "distinct (map lse_slug LICENSES)"
  by (simp_all add: CATEGORIES_def LICENSES_def seed_category_def seed_license_def)

definition seeded_admin :: "string option \<Rightarrow> world \<Rightarrow> bool" where
  "seeded_admin configured w \<longleftrightarrow>
     some_row (\<lambda>u. u_email u = seed_email configured) (users w) \<and>
     (\<forall>u \<in> set (users w). u_email u = seed_email configured \<longrightarrow> u_isAdmin u)"

lemma seed_admin_seeds:
  assumes "seed_admin configured now i w = (Inr (), w')"
  shows "seeded_admin configured w'"
proof (cases "some_row (\<lambda>u. u_email u = seed_email configured) (users w)")
  case True
  then have "some_row (\<lambda>u. u_email u = seed_email configured)
      (set_rows (\<lambda>u. u_email u = seed_email configured) (u_isAdmin_update (\<lambda>_. True)) (users w))"
    by (rule some_row_set_rows) simp
  with True assms show ?thesis by (auto simp: seed_admin_def Let_def act_simps seeded_admin_def set_set_rows)
next
  case False
  with assms show ?thesis by (auto simp: seed_admin_def Let_def act_simps seeded_admin_def some_row_iff split: if_splits)
qed

lemma seed_admin_done:
  assumes "seeded_admin configured w"
  shows "seed_admin configured now i w = (Inr (), w)"
proof -
  have "set_rows (\<lambda>u. u_email u = seed_email configured) (u_isAdmin_update (\<lambda>_. True)) (users w) = users w"
    using assms by (auto simp: seeded_admin_def set_rows_def intro!: map_idI)
  with assms show ?thesis by (simp add: seed_admin_def Let_def act_simps seeded_admin_def)
qed

lemma run_seed_success:
  assumes "run_seed configured now fresh w = (Inr (), w')"
  obtains v where "seed_admin configured now (fresh ''admin'') w = (Inr (), v)"
    and "w' = snd (seed_licenses fresh (snd (seed_categories fresh v)))"
proof -
  from assms obtain v where "seed_admin configured now (fresh ''admin'') w = (Inr (), v)"
    by (auto simp: run_seed_def bnd_eq_Inr_conv)
  with assms that show ?thesis by (simp add: run_seed_def seed_categories_def seed_licenses_def act_simps)
qed

text \<open>
  The seed may be run again: a second run, with whatever ids and at whatever time, succeeds and changes nothing.
\<close>

theorem seed_twice_is_once:
  assumes "run_seed configured now fresh w = (Inr (), w')"
  shows "run_seed configured now' fresh' w' = (Inr (), w')"
proof -
  obtain v where v: "seed_admin configured now (fresh ''admin'') w = (Inr (), v)"
    and w': "w' = snd (seed_licenses fresh (snd (seed_categories fresh v)))"
    using run_seed_success [OF assms] by blast
  have "seeded_admin configured w'"
    using seed_admin_seeds [OF v] by (simp add: w' seeded_admin_def seed_categories_def seed_licenses_def)
  moreover have "seed_categories fresh' w' = (Inr (), w')"
    using category_seeds.fold_done [OF ballI [OF category_seeds.fold_settles [OF seed_slugs_distinct(1)]]]
    by (simp add: w' seed_categories_def seed_licenses_def)
  moreover have "seed_licenses fresh' w' = (Inr (), w')"
    using license_seeds.fold_done [OF ballI [OF license_seeds.fold_settles [OF seed_slugs_distinct(2)]]]
    by (simp add: w' seed_licenses_def)
  ultimately show ?thesis by (simp add: run_seed_def bnd_apply seed_admin_done)
qed

theorem seed_twice_is_once_witness:
  "run_seed None 7 (\<lambda>s. ''n'' @ s) (snd (run_seed None 0 id empty_world)) = (Inr (), snd (run_seed None 0 id empty_world))"
proof -
  have "run_seed None 0 id empty_world = (Inr (), snd (run_seed None 0 id empty_world))"
    by (simp add: run_seed_def seed_admin_def seed_categories_def seed_licenses_def Let_def act_simps some_row_def)
  from seed_twice_is_once [OF this] show ?thesis .
qed

subsection \<open>The seeded admin\<close>

text \<open>
  On a database without the bootstrap admin, the seed creates one nobody can sign in as: a verified token that carries
  the address, under any subject but the placeholder itself, collides with the row of the seed, and every request that
  presents it ends in the error of the database and changes nothing.
\<close>

theorem seeded_admin_locked_out:
  assumes "run_seed (Some boot) now fresh w = (Inr (), w')" and "\<not> some_row (\<lambda>u. u_email u = lower boot) (users w)"
    and "extract_bearer header = Some tok" and "tok \<noteq> []" and "ae_jwks env tok = Some c"
    and "lower (or_else (cl_email c) []) = lower boot" and "boot \<noteq> []" and "cl_sub c \<noteq> placeholder_sub (lower boot)"
    and "cached_principal (ae_date_parse env) up now' (cl_sub c) w' = None"
  shows "keycloak_auth_guard env False up now' i header w' = (Inl (OtherError (UniqueViolation ''users.email'')), w')"
proof -
  obtain v where v: "seed_admin (Some boot) now (fresh ''admin'') w = (Inr (), v)"
    and w': "w' = snd (seed_licenses fresh (snd (seed_categories fresh v)))"
    using run_seed_success [OF assms(1)] by blast
  have "users w' = users v" by (simp add: w' seed_licenses_def seed_categories_def)
  with v assms(2,8) have taken: "some_row (\<lambda>u. u_email u = lower boot \<and> u_sub u \<noteq> cl_sub c) (users w')"
    by (auto simp: seed_admin_def seed_email_def Let_def act_simps some_row_iff or_else_def split: if_splits)
  have "upsert_user (ae_bootstrap env) now' i c w' = (Inl (OtherError (UniqueViolation ''users.email'')), w')"
    using assms(6,7) taken by (simp add: upsert_user_def Let_def act_simps or_else_def lower_def)
  then show ?thesis using assms(3-5,9) by (simp add: keycloak_auth_guard_def resolve_principal_def bnd_apply)
qed

definition boss_claims :: claims where
  "boss_claims = \<lparr>cl_sub = ''kc'', cl_email = Some ''boss@b'', cl_name = Some ''Boss'', cl_preferred = None\<rparr>"

definition boss_env :: auth_env where
  "boss_env = \<lparr>ae_jwks = (\<lambda>t. if t = ''t'' then Some boss_claims else None), ae_tokens = token_cfg0, ae_date_parse = date_parse0,
     ae_bootstrap = ''boss@b''\<rparr>"

theorem seeded_admin_locked_out_witness:
  "fst (keycloak_auth_guard boss_env False True 5 ''n'' (Some ''Bearer t'') (snd (run_seed (Some ''boss@b'') 0 id empty_world))) =
     Inl (OtherError (UniqueViolation ''users.email''))"
proof -
  let ?w = "snd (run_seed (Some ''boss@b'') 0 id empty_world)"
  have run: "run_seed (Some ''boss@b'') 0 id empty_world = (Inr (), ?w)"
    by (simp add: run_seed_def seed_admin_def seed_categories_def seed_licenses_def Let_def act_simps some_row_def)
  have redis: "redis ?w = Map.empty"
    by (simp add: run_seed_def seed_admin_def seed_categories_def seed_licenses_def Let_def act_simps some_row_def)
  have "keycloak_auth_guard boss_env False True 5 ''n'' (Some ''Bearer t'') ?w = (Inl (OtherError (UniqueViolation ''users.email'')), ?w)"
  proof (rule seeded_admin_locked_out [OF run])
    show "extract_bearer (Some ''Bearer t'') = Some ''t''" by code_simp
    show "cl_sub boss_claims \<noteq> placeholder_sub (lower ''boss@b'')" by (simp add: boss_claims_def placeholder_sub_def)
    show "lower (or_else (cl_email boss_claims) []) = lower ''boss@b''" by (simp add: boss_claims_def or_else_def)
  qed (simp_all add: boss_env_def some_row_def cached_principal_def redis redis_get_def)
  then show ?thesis by simp
qed

subsection \<open>Reindexing\<close>

text \<open>
  \<open>reindex-search.ts\<close> asks for both indexes to be dropped and created again, with settings of its own and no document.
\<close>

definition reindex_settings :: index_settings where
  "reindex_settings =
     \<lparr>ix_searchable = [''title'', ''shortDescription_en'', ''shortDescription_id'', ''tags'', ''ownerDisplayName''],
      ix_filterable = [''engine'', ''categoryId'', ''licenseId'', ''tags'', ''renderPipelines'', ''targets'', ''fileKinds'', ''status''],
      ix_sortable = [''publishedAt'', ''createdAt'', ''totalDownloads'', ''totalSaves'', ''title'']\<rparr>"

definition run_reindex :: "world \<Rightarrow> index_settings \<times> world" where
  "run_reindex w =
     (reindex_settings,
      search_tasks_update (\<lambda>ts. ts @ [DeleteIndex ''assets'', DeleteIndex ''tags'', CreateIndex ''assets'', CreateIndex ''tags'']) w)"

text \<open>
  The reindex drops both indexes and adds no document whatever is published, marks nothing dirty, so that no later batch
  brings a document back, and until the worker starts again the index refuses every search that names a license.
\<close>

theorem reindex_empties:
  "case run_reindex w of (s, w') \<Rightarrow>
     (\<exists>ts. search_tasks w' = search_tasks w @ ts \<and> DeleteIndex ''assets'' \<in> set ts \<and> (\<forall>x docs. AddDocuments x docs \<notin> set ts)) \<and>
     dirty w' = dirty w \<and> assets w' = assets w \<and>
     (\<forall>q. filter_accepted s q \<longleftrightarrow> truthy_opt (sq_licenseSlug q) = None)"
proof -
  have "settings_after worker_settings ([WorkerBoot] @ [ApiBoot]) = reindex_settings"
    by (simp add: settings_after_def service_settings_def reindex_settings_def)
  with filter_accepted_iff [of worker_settings "[WorkerBoot]" ApiBoot] show ?thesis by (simp add: run_reindex_def)
qed

end
