(* ===== verification/Jwks.thy ===== *)
theory Jwks
  imports Api
begin

section \<open>The tokens of Keycloak\<close>

text \<open>
  \<open>infra/keycloak/keycloak-jwks.provider.ts\<close>.  \<open>jose\<close> stands for \<open>jwtVerify\<close> of the library of that name on the key set of
  Keycloak: the payload of a token whose signature, issuer, algorithm and dates it accepts.  The provider adds its own
  conditions: a subject, and that the token was issued for this client.
\<close>

record jwt_payload =
  jp_sub :: "string option"
  jp_aud :: "json option"
  jp_azp :: "json option"
  jp_email :: "string option"
  jp_name :: "string option"
  jp_preferred :: "string option"

record jwks_config =
  jk_issuer :: string
  jk_audience :: string
  jk_algorithms :: "string list"
  jk_tolerance :: int

definition audiences :: "json option \<Rightarrow> json list" where
  "audiences aud =
     (case aud of
        Some (JArr vs) \<Rightarrow> vs
      | Some v \<Rightarrow> if truthy v then [v] else []
      | None \<Rightarrow> [])"

definition meant_for_us :: "jwks_config \<Rightarrow> jwt_payload \<Rightarrow> bool" where
  "meant_for_us cfg p \<longleftrightarrow>
     JStr (jk_audience cfg) \<in> set (audiences (jp_aud p)) \<or> jp_azp p = Some (JStr (jk_audience cfg))"

definition verify_bearer :: "(jwks_config \<Rightarrow> string \<Rightarrow> jwt_payload option) \<Rightarrow> jwks_config \<Rightarrow> string \<Rightarrow> claims option" where
  "verify_bearer jose cfg tok =
     (case jose cfg tok of
        None \<Rightarrow> None
      | Some p \<Rightarrow>
          if \<not> truthy_str (jp_sub p) then None
          else if \<not> meant_for_us cfg p then None
          else Some \<lparr>cl_sub = or_else (jp_sub p) [], cl_email = jp_email p, cl_name = jp_name p, cl_preferred = jp_preferred p\<rparr>)"

text \<open>
  A token that jose refuses, that has no subject or that was issued for another client is as good as none: at an endpoint that
  asks for a sign-in and at the console it changes nothing.
\<close>

definition foreign_token :: "(jwks_config \<Rightarrow> string \<Rightarrow> jwt_payload option) \<Rightarrow> jwks_config \<Rightarrow> string \<Rightarrow> bool" where
  "foreign_token jose cfg tok \<longleftrightarrow>
     (case jose cfg tok of None \<Rightarrow> True | Some p \<Rightarrow> \<not> truthy_str (jp_sub p) \<or> \<not> meant_for_us cfg p)"

lemma foreign_token_refused: "verify_bearer jose cfg tok = None \<longleftrightarrow> foreign_token jose cfg tok"
  by (auto simp: verify_bearer_def foreign_token_def split: option.splits)

lemma bearer_is_no_plugin_token:
  "extract_bearer header = Some tok \<Longrightarrow> extract_plugin_token header = None"
  by (auto simp: extract_bearer_def extract_plugin_token_def split: option.splits list.splits if_splits)
    (simp add: lower_def lower_char_def)

theorem foreign_tokens_change_nothing:
  assumes "member_step b rq w w' \<or> console_step b rq w w'" and "runs_all (sv_order (be_server b))"
    and "ae_jwks (be_auth b) = verify_bearer jose cfg"
    and "extract_bearer (hr_authorization rq) = Some tok" and "foreign_token jose cfg tok"
  shows "w' = w"
proof -
  have "stranger (be_server b) rq w"
    using assms(3-5) bearer_is_no_plugin_token [OF assms(4)]
    by (simp add: stranger_def unknown_bearer_def dead_plugin_token_def foreign_token_refused)
  with assms(1,2) show ?thesis by (intro stranger_inert)
qed

end
