(* ===== verification/Dto.thy ===== *)
theory Dto
  imports Complex_Main Api Metrics
begin

section \<open>The validation of requests\<close>

text \<open>
  The global \<open>ValidationPipe\<close> of \<open>main.ts\<close> and the decorators of the \<open>dto\<close> classes.  The pipe builds an instance of the class
  of the body or the query (\<open>instance_of\<close>: \<open>@Type\<close>, \<open>@Transform\<close>, initial values), refuses properties without a decorator,
  at the top and in validated nested objects, and runs the decorators (\<open>accepts\<close>); a request it refuses ends in a 400
  before the handler, after the guards (\<open>with_dto\<close>).  A body is an object, or missing, which counts as empty; a query
  is an object of strings and, for repeated keys, of arrays of strings.  What validator.js decides about a string, its
  length, whether it is a URL or an ISO date, is a parameter.  Numbers are rationals; \<open>None\<close> stands for NaN and the
  infinities, which fail every decorator that the numeric properties carry.
\<close>

subsection \<open>Values\<close>

datatype jsval =
    VUndef
  | VNull
  | VBool bool
  | VNum "rat option"
  | VStr string
  | VArr "jsval list"
  | VObj "(string \<times> jsval) list"

type_synonym fields = "(string \<times> jsval) list"

definition absent :: "jsval \<Rightarrow> bool" where
  "absent v \<longleftrightarrow> v = VUndef \<or> v = VNull"

definition whole :: "rat \<Rightarrow> bool" where
  "whole q \<longleftrightarrow> of_int \<lfloor>q\<rfloor> = q"

text \<open>\<open>Number(text)\<close>: blanks around it are skipped, the empty text is zero, and there are decimal, hexadecimal, octal and binary literals.\<close>

definition signed_text :: "string \<Rightarrow> int \<times> string" where
  "signed_text s =
     (case s of [] \<Rightarrow> (1, []) | c # r \<Rightarrow> if c = CHR ''-'' then (-1, r) else if c = CHR ''+'' then (1, r) else (1, s))"

definition exponent_of :: "string \<Rightarrow> int option" where
  "exponent_of e =
     (if e = [] then Some 0
      else (case signed_text (tl e) of (g, ds) \<Rightarrow> if digits ds then Some (g * digits_value ds) else None))"

definition decimal_value :: "string \<Rightarrow> rat option" where
  "decimal_value s =
     (let m = takeWhile (\<lambda>c. lower_char c \<noteq> CHR ''e'') s;
          e = exponent_of (dropWhile (\<lambda>c. lower_char c \<noteq> CHR ''e'') s);
          ip = takeWhile (\<lambda>c. c \<noteq> CHR ''.'') m;
          fp = drop 1 (dropWhile (\<lambda>c. c \<noteq> CHR ''.'') m)
      in if \<not> digits (ip @ fp) then None
         else map_option (\<lambda>k. of_int (digits_value (ip @ fp)) * 10 powi (k - int (length fp))) e)"

definition radix_value :: "nat \<Rightarrow> string \<Rightarrow> rat option" where
  "radix_value b s =
     (let ds = map (\<lambda>c. hex_val (lower_char c)) s
      in if s = [] \<or> list_ex (\<lambda>d. case d of None \<Rightarrow> True | Some n \<Rightarrow> b \<le> n) ds then None
         else Some (of_nat (foldl (\<lambda>n d. b * n + the d) 0 ds)))"

definition js_number_of :: "string \<Rightarrow> rat option" where
  "js_number_of text =
     (let s = trim text; p = lower (take 2 s)
      in if s = [] then Some 0
         else if p = ''0x'' then radix_value 16 (drop 2 s)
         else if p = ''0o'' then radix_value 8 (drop 2 s)
         else if p = ''0b'' then radix_value 2 (drop 2 s)
         else (case signed_text s of (g, r) \<Rightarrow> map_option (\<lambda>q. of_int g * q) (decimal_value r)))"

text \<open>\<open>@Type(() => Number)\<close> converts the elements of an array one by one.\<close>

fun type_number :: "jsval \<Rightarrow> jsval" where
  "type_number (VStr s) = VNum (js_number_of s)"
| "type_number (VBool b) = VNum (Some (if b then 1 else 0))"
| "type_number (VObj fs) = VNum None"
| "type_number (VArr vs) = VArr (map type_number vs)"
| "type_number v = v"

text \<open>The transforms of queries see a string or an array of strings.\<close>

definition str_val :: "jsval \<Rightarrow> string" where
  "str_val v = (case v of VStr s \<Rightarrow> s | _ \<Rightarrow> [])"

definition to_number :: "jsval \<Rightarrow> jsval" where
  "to_number v = VNum (js_number_of (case v of VArr vs \<Rightarrow> join_with '','' (map str_val vs) | _ \<Rightarrow> str_val v))"

definition to_flag :: "jsval \<Rightarrow> jsval" where
  "to_flag v = VBool (v = VBool True \<or> v = VStr ''true'')"

definition asArray :: "jsval \<Rightarrow> jsval" where
  "asArray v =
     (case v of
        VArr vs \<Rightarrow> VArr (map (\<lambda>x. VStr (str_val x)) vs)
      | _ \<Rightarrow>
          if absent v \<or> v = VStr [] then VUndef
          else VArr (map VStr (filter (\<lambda>s. s \<noteq> []) (map trim (split_on CHR '','' (str_val v))))))"

subsection \<open>Decorators\<close>

record validator_env =
  ve_length :: "string \<Rightarrow> nat"
  ve_url :: "string \<Rightarrow> bool"
  ve_iso8601 :: "string \<Rightarrow> bool"

datatype decorator =
    IsString
  | IsNotEmpty
  | MinLength nat
  | MaxLength nat
  | StrLength nat nat
  | IsInt
  | IsNumber
  | MinVal int
  | MaxVal int
  | IsBoolean
  | IsObject
  | IsArray
  | ArrayMinSize nat
  | ArrayMaxSize nat
  | IsIn "string list"
  | Matches "string \<Rightarrow> bool"
  | IsUrl
  | IsISO8601
  | Each decorator

fun satisfies :: "validator_env \<Rightarrow> decorator \<Rightarrow> jsval \<Rightarrow> bool" where
  "satisfies ve IsString v = (case v of VStr s \<Rightarrow> True | _ \<Rightarrow> False)"
| "satisfies ve IsNotEmpty v = (\<not> absent v \<and> v \<noteq> VStr [])"
| "satisfies ve (MinLength n) v = (case v of VStr s \<Rightarrow> n \<le> ve_length ve s | _ \<Rightarrow> False)"
| "satisfies ve (MaxLength n) v = (case v of VStr s \<Rightarrow> ve_length ve s \<le> n | _ \<Rightarrow> False)"
| "satisfies ve (StrLength m n) v = (case v of VStr s \<Rightarrow> m \<le> ve_length ve s \<and> ve_length ve s \<le> n | _ \<Rightarrow> False)"
| "satisfies ve IsInt v = (case v of VNum (Some q) \<Rightarrow> whole q | _ \<Rightarrow> False)"
| "satisfies ve IsNumber v = (case v of VNum (Some q) \<Rightarrow> True | _ \<Rightarrow> False)"
| "satisfies ve (MinVal n) v = (case v of VNum (Some q) \<Rightarrow> of_int n \<le> q | _ \<Rightarrow> False)"
| "satisfies ve (MaxVal n) v = (case v of VNum (Some q) \<Rightarrow> q \<le> of_int n | _ \<Rightarrow> False)"
| "satisfies ve IsBoolean v = (case v of VBool b \<Rightarrow> True | _ \<Rightarrow> False)"
| "satisfies ve IsObject v = (case v of VObj fs \<Rightarrow> True | _ \<Rightarrow> False)"
| "satisfies ve IsArray v = (case v of VArr vs \<Rightarrow> True | _ \<Rightarrow> False)"
| "satisfies ve (ArrayMinSize n) v = (case v of VArr vs \<Rightarrow> n \<le> length vs | _ \<Rightarrow> False)"
| "satisfies ve (ArrayMaxSize n) v = (case v of VArr vs \<Rightarrow> length vs \<le> n | _ \<Rightarrow> False)"
| "satisfies ve (IsIn ss) v = (case v of VStr s \<Rightarrow> s \<in> set ss | _ \<Rightarrow> False)"
| "satisfies ve (Matches p) v = (case v of VStr s \<Rightarrow> p s | _ \<Rightarrow> False)"
| "satisfies ve IsUrl v = (case v of VStr s \<Rightarrow> ve_url ve s | _ \<Rightarrow> False)"
| "satisfies ve IsISO8601 v = (case v of VStr s \<Rightarrow> ve_iso8601 ve s | _ \<Rightarrow> False)"
| "satisfies ve (Each d) v = (case v of VArr vs \<Rightarrow> list_all (satisfies ve d) vs | _ \<Rightarrow> satisfies ve d v)"

text \<open>A property of a class, with \<open>@IsOptional\<close> or not; \<open>dto_prop\<close> adds the conversion, the initial value and \<open>@ValidateNested\<close>.\<close>

record rule =
  ru_name :: string
  ru_optional :: bool
  ru_checks :: "decorator list"

record dto_prop = rule +
  pr_convert :: "jsval \<Rightarrow> jsval"
  pr_default :: "jsval option"
  pr_nested :: "rule list option"

definition value_of :: "fields \<Rightarrow> string \<Rightarrow> jsval" where
  "value_of fs k = (case map_of fs k of None \<Rightarrow> VUndef | Some v \<Rightarrow> v)"

definition rule_holds :: "validator_env \<Rightarrow> 'a rule_scheme \<Rightarrow> jsval \<Rightarrow> bool" where
  "rule_holds ve r v \<longleftrightarrow> ru_optional r \<and> absent v \<or> list_all (\<lambda>d. satisfies ve d v) (ru_checks r)"

definition whitelisted :: "'a rule_scheme list \<Rightarrow> fields \<Rightarrow> bool" where
  "whitelisted rs fs \<longleftrightarrow> list_all (\<lambda>(k, v). list_ex (\<lambda>r. ru_name r = k) rs) fs"

definition object_ok :: "validator_env \<Rightarrow> 'a rule_scheme list \<Rightarrow> fields \<Rightarrow> bool" where
  "object_ok ve rs fs \<longleftrightarrow> whitelisted rs fs \<and> list_all (\<lambda>r. rule_holds ve r (value_of fs (ru_name r))) rs"

text \<open>A nested validation skips \<open>null\<close>, alone or in an array, and looks into arrays of arrays.\<close>

fun nested_ok :: "validator_env \<Rightarrow> rule list \<Rightarrow> jsval \<Rightarrow> bool" where
  "nested_ok ve rs (VArr vs) = list_all (nested_ok ve rs) vs"
| "nested_ok ve rs (VObj fs) = object_ok ve rs fs"
| "nested_ok ve rs v = absent v"

definition instance_of :: "dto_prop list \<Rightarrow> fields \<Rightarrow> fields" where
  "instance_of ps fs =
     map (\<lambda>(k, v). (k, case List.find (\<lambda>p. ru_name p = k) ps of None \<Rightarrow> v | Some p \<Rightarrow> pr_convert p v)) fs @
     concat (map (\<lambda>p. case pr_default p of
                        None \<Rightarrow> []
                      | Some d \<Rightarrow> if map_of fs (ru_name p) = None then [(ru_name p, d)] else []) ps)"

definition prop_holds :: "validator_env \<Rightarrow> dto_prop \<Rightarrow> jsval \<Rightarrow> bool" where
  "prop_holds ve p v \<longleftrightarrow>
     rule_holds ve p v \<and> (ru_optional p \<and> absent v \<or> (case pr_nested p of None \<Rightarrow> True | Some rs \<Rightarrow> nested_ok ve rs v))"

definition valid_instance :: "validator_env \<Rightarrow> dto_prop list \<Rightarrow> fields \<Rightarrow> bool" where
  "valid_instance ve ps o' \<longleftrightarrow> whitelisted ps o' \<and> list_all (\<lambda>p. prop_holds ve p (value_of o' (ru_name p))) ps"

definition accepts :: "validator_env \<Rightarrow> dto_prop list \<Rightarrow> fields \<Rightarrow> bool" where
  "accepts ve ps fs \<longleftrightarrow> valid_instance ve ps (instance_of ps fs)"

text \<open>A handler behind the pipe.\<close>

definition with_dto :: "validator_env \<Rightarrow> dto_prop list \<Rightarrow> fields \<Rightarrow> (fields \<Rightarrow> 'a handler) \<Rightarrow> 'a handler" where
  "with_dto ve ps fs h =
     (if accepts ve ps fs then h (instance_of ps fs) else throw (HttpExc 400 None))"

subsection \<open>Notation of the classes\<close>

definition rule_of :: "string \<Rightarrow> bool \<Rightarrow> decorator list \<Rightarrow> rule" where
  "rule_of n opt ds = \<lparr>ru_name = n, ru_optional = opt, ru_checks = ds\<rparr>"

definition prop_of :: "string \<Rightarrow> bool \<Rightarrow> decorator list \<Rightarrow> (jsval \<Rightarrow> jsval) \<Rightarrow> jsval option \<Rightarrow> rule list option \<Rightarrow> dto_prop" where
  "prop_of n opt ds conv d rs =
     \<lparr>ru_name = n, ru_optional = opt, ru_checks = ds, pr_convert = conv, pr_default = d, pr_nested = rs\<rparr>"

abbreviation needs :: "string \<Rightarrow> decorator list \<Rightarrow> dto_prop" where
  "needs n ds \<equiv> prop_of n False ds (\<lambda>v. v) None None"

abbreviation may :: "string \<Rightarrow> decorator list \<Rightarrow> dto_prop" where
  "may n ds \<equiv> prop_of n True ds (\<lambda>v. v) None None"

abbreviation may_as :: "string \<Rightarrow> (jsval \<Rightarrow> jsval) \<Rightarrow> decorator list \<Rightarrow> dto_prop" where
  "may_as n conv ds \<equiv> prop_of n True ds conv None None"

lemma prop_of_simps [simp]:
  "ru_name (prop_of n opt ds conv d rs) = n" "ru_optional (prop_of n opt ds conv d rs) = opt"
  "ru_checks (prop_of n opt ds conv d rs) = ds" "pr_convert (prop_of n opt ds conv d rs) = conv"
  "pr_default (prop_of n opt ds conv d rs) = d" "pr_nested (prop_of n opt ds conv d rs) = rs"
  "ru_name (rule_of n opt ds) = n" "ru_optional (rule_of n opt ds) = opt" "ru_checks (rule_of n opt ds) = ds"
  by (simp_all add: prop_of_def rule_of_def)

subsection \<open>Facts of the pipe\<close>

lemma accepts_prop:
  "accepts ve ps fs \<Longrightarrow> p \<in> set ps \<Longrightarrow> prop_holds ve p (value_of (instance_of ps fs) (ru_name p))"
  by (simp add: accepts_def valid_instance_def list_all_iff)

lemma accepts_check:
  assumes "accepts ve ps fs" and "p \<in> set ps" and "d \<in> set (ru_checks p)"
    and "\<not> (ru_optional p \<and> absent (value_of (instance_of ps fs) (ru_name p)))"
  shows "satisfies ve d (value_of (instance_of ps fs) (ru_name p))"
  using accepts_prop [OF assms(1,2)] assms(3,4) by (auto simp: prop_holds_def rule_holds_def list_all_iff)

text \<open>A request the pipe refuses ends in 400 and changes nothing.\<close>

lemma with_dto_refuses: "\<not> accepts ve ps fs \<Longrightarrow> with_dto ve ps fs h w = (Inl (HttpExc 400 None), w)"
  by (simp add: with_dto_def act_simps)

end
