(* ===== verification/Config.thy ===== *)
theory Config
  imports Dto
begin

section \<open>The configuration and the start of a process\<close>

text \<open>
  \<open>src/config\<close> and the decisions of \<open>main.ts\<close>.  \<open>env_schema\<close> is the schema of the environment, one entry per variable: its
  kind and what a missing one means.  The parser is zod's: a wrong type aborts, a failed check leaves the value dirty, and
  a refinement of the whole object runs only when nothing aborted.  Which texts are URLs and email addresses for zod is a
  parameter.  An issue is the variable and zod's code of the issue.
\<close>

subsection \<open>Values of one variable\<close>

datatype env_value = EStr string | ENum rat | EBool bool | EList "string list"

datatype env_kind =
    KEnum "string list"
  | KText
  | KNonempty
  | KUrl
  | KEmail
  | KFlag
  | KCsv
  | KAlgorithms
  | KPort
  | KPositive
  | KNonnegative
  | KRate

datatype if_missing = Required | Absent | Default env_value

datatype parsed = Valid env_value | Missing | Dirty "string list" | Aborted string

record zod_checks =
  zc_url :: "string \<Rightarrow> bool"
  zc_email :: "string \<Rightarrow> bool"

definition booleanFromString :: "string \<Rightarrow> bool" where
  "booleanFromString s = (s \<in> {''1'', ''true'', ''TRUE'', ''True'', ''yes'', ''on''})"

definition csv :: "string \<Rightarrow> string list" where
  "csv s = filter (\<lambda>x. x \<noteq> []) (map trim (split_on CHR '','' s))"

definition not_whole :: "rat \<Rightarrow> string list" where
  "not_whole q = (if whole q then [] else [''invalid_type''])"

definition portNumber :: "rat \<Rightarrow> string list" where
  "portNumber q = not_whole q @ (if q < 1 then [''too_small''] else []) @ (if 65535 < q then [''too_big''] else [])"

fun number_issues :: "env_kind \<Rightarrow> rat \<Rightarrow> string list" where
  "number_issues KPort q = portNumber q"
| "number_issues KPositive q = not_whole q @ (if q \<le> 0 then [''too_small''] else [])"
| "number_issues KNonnegative q = not_whole q @ (if q < 0 then [''too_small''] else [])"
| "number_issues KRate q = (if q < 0 then [''too_small''] else []) @ (if 1 < q then [''too_big''] else [])"
| "number_issues k q = []"

text \<open>\<open>Infinity\<close> is a number for zod.\<close>

definition infinity_issues :: "env_kind \<Rightarrow> string \<Rightarrow> string list option" where
  "infinity_issues k s =
     (let int_issue = (if k = KRate then [] else [''invalid_type''])
      in if trim s = ''Infinity'' \<or> trim s = ''+Infinity'' then
           Some (int_issue @ (if k = KPort \<or> k = KRate then [''too_big''] else []))
         else if trim s = ''-Infinity'' then Some (int_issue @ [''too_small''])
         else None)"

definition checked :: "env_value \<Rightarrow> string list \<Rightarrow> parsed" where
  "checked v issues = (if issues = [] then Valid v else Dirty issues)"

definition coerce_number :: "env_kind \<Rightarrow> string \<Rightarrow> parsed" where
  "coerce_number k s =
     (case js_number_of s of
        Some q \<Rightarrow> checked (ENum q) (number_issues k q)
      | None \<Rightarrow>
          (case infinity_issues k s of
             Some (i # is) \<Rightarrow> Dirty (i # is)
           | _ \<Rightarrow> Aborted ''invalid_type''))"

fun parse_text :: "zod_checks \<Rightarrow> env_kind \<Rightarrow> string \<Rightarrow> parsed" where
  "parse_text zc (KEnum vs) s = (if s \<in> set vs then Valid (EStr s) else Aborted ''invalid_enum_value'')"
| "parse_text zc KText s = Valid (EStr s)"
| "parse_text zc KNonempty s = checked (EStr s) (if s = [] then [''too_small''] else [])"
| "parse_text zc KUrl s = checked (EStr s) (if zc_url zc s then [] else [''invalid_string''])"
| "parse_text zc KEmail s = checked (EStr s) (if zc_email zc s then [] else [''invalid_string''])"
| "parse_text zc KFlag s = Valid (EBool (booleanFromString s))"
| "parse_text zc KCsv s = Valid (EList (csv s))"
| "parse_text zc KAlgorithms s = Valid (EList (map trim (split_on CHR '','' s)))"
| "parse_text zc k s = coerce_number k s"

fun parse_var :: "zod_checks \<Rightarrow> env_kind \<Rightarrow> if_missing \<Rightarrow> string option \<Rightarrow> parsed" where
  "parse_var zc k m (Some s) = parse_text zc k s"
| "parse_var zc k Required None = Aborted ''invalid_type''"
| "parse_var zc k Absent None = Missing"
| "parse_var zc k (Default (EStr s)) None = parse_text zc k s"
| "parse_var zc k (Default (ENum q)) None = checked (ENum q) (number_issues k q)"
| "parse_var zc k (Default v) None = Valid v"

subsection \<open>The schema\<close>

definition env_schema :: "(string \<times> env_kind \<times> if_missing) list" where
  "env_schema =
    [(''NODE_ENV'', KEnum [''development'', ''staging'', ''production''], Default (EStr ''development'')),
     (''PROCESS_ROLE'', KEnum [''api'', ''worker''], Default (EStr ''api'')),
     (''PORT'', KPort, Default (ENum 4000)),
     (''LOG_LEVEL'', KEnum [''trace'', ''debug'', ''info'', ''warn'', ''error'', ''fatal''], Default (EStr ''info'')),
     (''TRUST_PROXY'', KFlag, Default (EBool True)),
     (''CORS_ORIGINS'', KCsv, Default (EStr ''http://localhost:3000'')),
     (''PUBLIC_BASE_URL'', KUrl, Required),
     (''METRICS_ALLOW_CIDRS'', KCsv, Default (EStr '''')),
     (''DATABASE_URL'', KNonempty, Required),
     (''MONGO_URL'', KNonempty, Required),
     (''REDIS_URL'', KNonempty, Required),
     (''KEYCLOAK_ISSUER_URL'', KUrl, Required),
     (''KEYCLOAK_AUDIENCE'', KNonempty, Required),
     (''KEYCLOAK_JWKS_URI'', KUrl, Required),
     (''KEYCLOAK_ALGORITHMS'', KAlgorithms, Default (EStr ''RS256'')),
     (''KEYCLOAK_CLOCK_TOLERANCE_SEC'', KNonnegative, Default (ENum 30)),
     (''KEYCLOAK_JWKS_CACHE_TTL_SEC'', KPositive, Default (ENum 3600)),
     (''ADMIN_BOOTSTRAP_EMAIL'', KEmail, Default (EStr ''admin@labmgm.org'')),
     (''PLUGIN_TOKEN_TTL_DAYS'', KPositive, Default (ENum 90)),
     (''PLUGIN_TOKEN_PEPPER'', KText, Absent),
     (''S3_REGION'', KText, Default (EStr ''us-east-1'')),
     (''S3_ENDPOINT'', KText, Absent),
     (''S3_ACCESS_KEY_ID'', KNonempty, Required),
     (''S3_SECRET_ACCESS_KEY'', KNonempty, Required),
     (''S3_FORCE_PATH_STYLE'', KFlag, Default (EBool False)),
     (''S3_BUCKET_ASSETS'', KNonempty, Required),
     (''S3_BUCKET_THUMBS'', KNonempty, Required),
     (''S3_BUCKET_EDITOR_MEDIA'', KNonempty, Required),
     (''S3_PRESIGN_EXPIRES_SEC'', KPositive, Default (ENum 3600)),
     (''MEILI_URL'', KUrl, Required),
     (''MEILI_MASTER_KEY'', KText, Default (EStr '''')),
     (''SMTP_HOST'', KText, Default (EStr '''')),
     (''SMTP_PORT'', KPort, Default (ENum 587)),
     (''SMTP_USER'', KText, Default (EStr '''')),
     (''SMTP_PASS'', KText, Default (EStr '''')),
     (''SMTP_FROM'', KText, Default (EStr ''MGM Asset Library <no-reply@labmgm.org>'')),
     (''N8N_WEBHOOK_URL'', KText, Default (EStr '''')),
     (''N8N_WEBHOOK_SECRET'', KText, Default (EStr '''')),
     (''GIPHY_API_KEY'', KText, Default (EStr '''')),
     (''TENOR_API_KEY'', KText, Default (EStr '''')),
     (''SENTRY_DSN'', KText, Default (EStr '''')),
     (''SENTRY_TRACES_SAMPLE_RATE'', KRate, Default (ENum (1 / 10))),
     (''SENTRY_ENVIRONMENT'', KText, Default (EStr ''development'')),
     (''BLENDER_BIN'', KText, Default (EStr ''/usr/bin/blender'')),
     (''CLAMSCAN_BIN'', KText, Default (EStr ''/usr/bin/clamscan'')),
     (''FFMPEG_BIN'', KText, Default (EStr ''/usr/bin/ffmpeg'')),
     (''FFPROBE_BIN'', KText, Default (EStr ''/usr/bin/ffprobe'')),
     (''GLTF_PIPELINE_BIN'', KText, Default (EStr ''/usr/local/bin/gltf-pipeline'')),
     (''GLTFPACK_BIN'', KText, Default (EStr ''/usr/local/bin/gltfpack'')),
     (''PYANALYZE_VENV'', KText, Default (EStr ''/opt/mgm-py'')),
     (''HDRI_PATH'', KText, Default (EStr ''/opt/mgm/hdri/studio_small_03.hdr'')),
     (''WORKER_SCRATCH_DIR'', KText, Default (EStr ''/tmp/mgm-analyze'')),
     (''ANALYZE_TIMEOUT_SEC'', KPositive, Default (ENum 300)),
     (''GLTF_CONVERT_TIMEOUT_SEC'', KPositive, Default (ENum 600)),
     (''GLTFPACK_KTX2'', KFlag, Default (EBool False)),
     (''SEARCH_INDEX_BATCH_INTERVAL_MS'', KPositive, Default (ENum 5000)),
     (''ARCHIVE_PURGE_DAYS'', KPositive, Default (ENum 30)),
     (''AUDIT_LOG_RETENTION_DAYS'', KPositive, Default (ENum 30)),
     (''WEBHOOK_LOG_RETENTION_DAYS'', KPositive, Default (ENum 30)),
     (''DOWNLOAD_RAW_RETENTION_DAYS'', KPositive, Default (ENum 90)),
     (''FEATURE_SWAGGER_PUBLIC'', KFlag, Default (EBool False)),
     (''FEATURE_QUEUE_DASHBOARD'', KFlag, Default (EBool True))]"

type_synonym env = "(string \<times> env_value) list"

definition env_text :: "env \<Rightarrow> string \<Rightarrow> string" where
  "env_text env n = (case map_of env n of Some (EStr s) \<Rightarrow> s | _ \<Rightarrow> [])"

definition env_int :: "env \<Rightarrow> string \<Rightarrow> int" where
  "env_int env n = (case map_of env n of Some (ENum q) \<Rightarrow> \<lfloor>q\<rfloor> | _ \<Rightarrow> 0)"

definition env_flag :: "env \<Rightarrow> string \<Rightarrow> bool" where
  "env_flag env n = (map_of env n = Some (EBool True))"

text \<open>The length of a text in UTF-16 units, from the bytes of its UTF-8 form.\<close>

definition js_length :: "string \<Rightarrow> nat" where
  "js_length s =
     length (filter (\<lambda>c. (of_char c :: nat) < 128 \<or> 192 \<le> (of_char c :: nat)) s) +
     length (filter (\<lambda>c. 240 \<le> (of_char c :: nat)) s)"

definition pepper_issues :: "env \<Rightarrow> (string \<times> string) list" where
  "pepper_issues env =
     (if env_text env ''NODE_ENV'' = ''production'' \<and>
         (env_text env ''PLUGIN_TOKEN_PEPPER'' = [] \<or> js_length (env_text env ''PLUGIN_TOKEN_PEPPER'') < 16)
      then [(''PLUGIN_TOKEN_PEPPER'', ''custom'')] else [])"

definition issues_of :: "string \<Rightarrow> parsed \<Rightarrow> (string \<times> string) list" where
  "issues_of n p = (case p of Dirty is \<Rightarrow> map (Pair n) is | Aborted i \<Rightarrow> [(n, i)] | _ \<Rightarrow> [])"

definition value_entry :: "string \<Rightarrow> parsed \<Rightarrow> env" where
  "value_entry n p = (case p of Valid v \<Rightarrow> [(n, v)] | _ \<Rightarrow> [])"

definition aborts :: "parsed \<Rightarrow> bool" where
  "aborts p = (case p of Aborted i \<Rightarrow> True | _ \<Rightarrow> False)"

text \<open>A dirty value stays visible to the refinement, but only \<open>NODE_ENV\<close> and the pepper are read there, which are never dirty.\<close>

definition outcomes :: "zod_checks \<Rightarrow> (string \<Rightarrow> string option) \<Rightarrow> (string \<times> parsed) list" where
  "outcomes zc raw = map (\<lambda>(n, k, m). (n, parse_var zc k m (raw n))) env_schema"

definition field_issues :: "(string \<times> parsed) list \<Rightarrow> (string \<times> string) list" where
  "field_issues os = concat (map (\<lambda>(n, p). issues_of n p) os)"

definition values_of :: "(string \<times> parsed) list \<Rightarrow> env" where
  "values_of os = concat (map (\<lambda>(n, p). value_entry n p) os)"

definition validateEnv :: "zod_checks \<Rightarrow> (string \<Rightarrow> string option) \<Rightarrow> (string \<times> string) list + env" where
  "validateEnv zc raw =
     (let os = outcomes zc raw;
          issues = field_issues os @ (if list_ex (\<lambda>(n, p). aborts p) os then [] else pepper_issues (values_of os))
      in if issues = [] then Inr (values_of os) else Inl issues)"

subsection \<open>Decisions of the entry point\<close>

datatype process_role = ApiRole | WorkerRole

definition bootstrap_role :: "env \<Rightarrow> process_role" where
  "bootstrap_role env = (if env_text env ''PROCESS_ROLE'' = ''worker'' then WorkerRole else ApiRole)"

definition swaggerEnabled :: "env \<Rightarrow> bool" where
  "swaggerEnabled env \<longleftrightarrow> env_text env ''NODE_ENV'' \<noteq> ''production'' \<or> env_flag env ''FEATURE_SWAGGER_PUBLIC''"

definition isProduction :: "env \<Rightarrow> bool" where
  "isProduction env \<longleftrightarrow> env_text env ''NODE_ENV'' = ''production''"

text \<open>\<open>strictTransportSecurity\<close>: the age in seconds, sub-domains included, no preload.\<close>

definition transport_security :: "env \<Rightarrow> int option" where
  "transport_security env = (if isProduction env then Some 63072000 else None)"

text \<open>\<open>random\<close> and \<open>stamp\<close> are the random digits and the time in base 36.\<close>

definition genReqId :: "string list \<Rightarrow> string \<Rightarrow> string \<Rightarrow> string" where
  "genReqId inbound random stamp =
     (case inbound of
        v # _ \<Rightarrow> if v \<noteq> [] \<and> js_length v \<le> 200 then v else ''req_'' @ random @ stamp
      | [] \<Rightarrow> ''req_'' @ random @ stamp)"

definition plugin_tokens_of :: "(string \<Rightarrow> string) \<Rightarrow> env \<Rightarrow> token_config" where
  "plugin_tokens_of hmac env = \<lparr>tc_hmac = hmac, tc_ttlDays = env_int env ''PLUGIN_TOKEN_TTL_DAYS''\<rparr>"

subsection \<open>What a started process can rely on\<close>

fun fits :: "zod_checks \<Rightarrow> env_kind \<Rightarrow> env_value \<Rightarrow> bool" where
  "fits zc (KEnum vs) v = (case v of EStr s \<Rightarrow> s \<in> set vs | _ \<Rightarrow> False)"
| "fits zc KText v = (case v of EStr s \<Rightarrow> True | _ \<Rightarrow> False)"
| "fits zc KNonempty v = (case v of EStr s \<Rightarrow> s \<noteq> [] | _ \<Rightarrow> False)"
| "fits zc KUrl v = (case v of EStr s \<Rightarrow> zc_url zc s | _ \<Rightarrow> False)"
| "fits zc KEmail v = (case v of EStr s \<Rightarrow> zc_email zc s | _ \<Rightarrow> False)"
| "fits zc KFlag v = (case v of EBool b \<Rightarrow> True | _ \<Rightarrow> False)"
| "fits zc KCsv v = (case v of EList xs \<Rightarrow> [] \<notin> set xs | _ \<Rightarrow> False)"
| "fits zc KAlgorithms v = (case v of EList xs \<Rightarrow> True | _ \<Rightarrow> False)"
| "fits zc KPort v = (case v of ENum q \<Rightarrow> whole q \<and> 1 \<le> q \<and> q \<le> 65535 | _ \<Rightarrow> False)"
| "fits zc KPositive v = (case v of ENum q \<Rightarrow> whole q \<and> 0 < q | _ \<Rightarrow> False)"
| "fits zc KNonnegative v = (case v of ENum q \<Rightarrow> whole q \<and> 0 \<le> q | _ \<Rightarrow> False)"
| "fits zc KRate v = (case v of ENum q \<Rightarrow> 0 \<le> q \<and> q \<le> 1 | _ \<Rightarrow> False)"

definition default_typed :: "env_kind \<Rightarrow> if_missing \<Rightarrow> bool" where
  "default_typed k m =
     (case m of
        Default (ENum q) \<Rightarrow> k \<in> {KPort, KPositive, KNonnegative, KRate}
      | Default (EBool b) \<Rightarrow> k = KFlag
      | Default (EList xs) \<Rightarrow> False
      | _ \<Rightarrow> True)"

lemma checked_Valid [simp]: "checked u is = Valid v \<longleftrightarrow> is = [] \<and> v = u"
  by (auto simp: checked_def)

lemma number_issues_fit:
  "number_issues k q = [] \<Longrightarrow> k \<in> {KPort, KPositive, KNonnegative, KRate} \<Longrightarrow> fits zc k (ENum q)"
  by (cases k) (auto simp: portNumber_def not_whole_def split: if_splits)

lemma coerced_fits: "coerce_number k s = Valid v \<Longrightarrow> k \<in> {KPort, KPositive, KNonnegative, KRate} \<Longrightarrow> fits zc k v"
  by (auto simp: coerce_number_def dest!: number_issues_fit split: option.splits list.splits)

lemma parse_text_fits: "parse_text zc k s = Valid v \<Longrightarrow> fits zc k v"
  by (cases k) (auto simp: csv_def dest!: coerced_fits split: if_splits)

lemma parse_var_fits:
  assumes "parse_var zc k m r = Valid v" and "default_typed k m"
  shows "fits zc k v"
  using assms
  by (cases "(zc, k, m, r)" rule: parse_var.cases)
    (auto simp: default_typed_def dest!: parse_text_fits number_issues_fit)

lemma parse_var_Missing: "parse_var zc k m r = Missing \<Longrightarrow> m = Absent \<and> r = None"
  by (cases "(zc, k, m, r)" rule: parse_var.cases; cases k)
    (auto simp: checked_def coerce_number_def split: if_splits option.splits list.splits)

lemma dirty_has_issue: "parse_var zc k m r \<noteq> Dirty []"
  by (cases "(zc, k, m, r)" rule: parse_var.cases; cases k)
    (auto simp: checked_def coerce_number_def split: if_splits option.splits list.splits)

lemma schema_typed: "list_all (\<lambda>(n, k, m). default_typed k m) env_schema"
  by (simp add: env_schema_def default_typed_def)

lemma schema_distinct: "distinct (map fst env_schema)"
  by (simp add: env_schema_def)

lemma values_of_entry:
  "distinct (map fst os) \<Longrightarrow> (n, p) \<in> set os \<Longrightarrow>
     map_of (values_of os) n = (case p of Valid v \<Rightarrow> Some v | _ \<Rightarrow> None)"
proof (induction os)
  case (Cons o' os)
  obtain n' p' where o': "o' = (n', p')" by (cases o')
  have none: "map_of (values_of qs) k = None" if "k \<notin> fst ` set qs" for qs k
    using that by (induction qs) (auto simp: values_of_def value_entry_def split: parsed.splits)
  have step: "map_of (values_of (o' # os)) = map_of (values_of os) ++ map_of (value_entry n' p')"
    by (simp add: values_of_def o')
  show ?case
  proof (cases "n' = n")
    case True
    with Cons.prems o' have "p' = p" by (auto simp: image_iff)
    moreover from Cons.prems True o' have "map_of (values_of os) n = None" by (intro none) simp
    ultimately show ?thesis using True by (simp add: step map_add_def) (simp add: value_entry_def split: parsed.splits)
  next
    case False
    with Cons o' have "map_of (values_of os) n = (case p of Valid v \<Rightarrow> Some v | _ \<Rightarrow> None)" by simp
    moreover from False have "map_of (value_entry n' p') n = None" by (simp add: value_entry_def split: parsed.splits)
    ultimately show ?thesis by (simp add: step map_add_def)
  qed
qed simp

lemma outcome_in: "(n, k, m) \<in> set env_schema \<Longrightarrow> (n, parse_var zc k m (raw n)) \<in> set (outcomes zc raw)"
  by (force simp: outcomes_def)

lemma in_outcomes:
  "(n, p) \<in> set (outcomes zc raw) \<Longrightarrow> \<exists>k m. (n, k, m) \<in> set env_schema \<and> p = parse_var zc k m (raw n)"
  by (auto simp: outcomes_def)

lemma outcomes_distinct: "distinct (map fst (outcomes zc raw))"
proof -
  have "map fst (outcomes zc raw) = map fst env_schema" by (simp add: outcomes_def comp_def case_prod_unfold)
  then show ?thesis using schema_distinct by simp
qed

lemma issue_listed: "(n, p) \<in> set os \<Longrightarrow> set (issues_of n p) \<subseteq> set (field_issues os)"
  by (force simp: field_issues_def)

lemma no_issue_listed:
  assumes "\<And>p. (n, p) \<in> set os \<Longrightarrow> issues_of n p = []"
  shows "n \<notin> fst ` set (field_issues os)"
proof
  assume "n \<in> fst ` set (field_issues os)"
  then obtain c k p where "(k, p) \<in> set os" and c: "(n, c) \<in> set (issues_of k p)" by (auto simp: field_issues_def)
  moreover from c have "k = n" by (auto simp: issues_of_def split: parsed.splits)
  ultimately show False using assms [of p] by simp
qed

lemma aborted_listed: "list_ex (\<lambda>(n, p). aborts p) os \<Longrightarrow> field_issues os \<noteq> []"
  by (induction os) (auto simp: field_issues_def issues_of_def aborts_def split: parsed.splits)

lemma validated:
  "validateEnv zc raw = Inr env \<longleftrightarrow>
     field_issues (outcomes zc raw) = [] \<and> env = values_of (outcomes zc raw) \<and> pepper_issues env = []"
  using aborted_listed [of "outcomes zc raw"] by (auto simp: validateEnv_def Let_def)

definition schema_value :: "env \<Rightarrow> (string \<Rightarrow> string option) \<Rightarrow> zod_checks \<Rightarrow> string \<times> env_kind \<times> if_missing \<Rightarrow> bool" where
  "schema_value env raw zc e =
     (case e of (n, k, m) \<Rightarrow>
        (case map_of env n of Some v \<Rightarrow> fits zc k v | None \<Rightarrow> m = Absent \<and> raw n = None))"

lemma validated_entry:
  assumes "validateEnv zc raw = Inr env" and "(n, k, m) \<in> set env_schema"
  shows "schema_value env raw zc (n, k, m)"
proof -
  let ?p = "parse_var zc k m (raw n)"
  have "map_of env n = (case ?p of Valid v \<Rightarrow> Some v | _ \<Rightarrow> None)"
    using values_of_entry [OF outcomes_distinct outcome_in [OF assms(2)]] assms(1) by (auto simp: validated)
  moreover have "issues_of n ?p = []"
    using issue_listed [OF outcome_in [OF assms(2), of zc raw]] assms(1) by (auto simp: validated)
  then have "\<exists>v. ?p = Valid v \<or> ?p = Missing"
    using dirty_has_issue [of zc k m "raw n"] by (cases ?p) (auto simp: issues_of_def)
  moreover have "default_typed k m" using schema_typed assms(2) by (auto simp: list_all_iff)
  ultimately show ?thesis by (auto simp: schema_value_def dest: parse_var_fits parse_var_Missing)
qed

definition day_counts :: "string list" where
  "day_counts =
     [''PLUGIN_TOKEN_TTL_DAYS'', ''ARCHIVE_PURGE_DAYS'', ''AUDIT_LOG_RETENTION_DAYS'', ''WEBHOOK_LOG_RETENTION_DAYS'',
      ''DOWNLOAD_RAW_RETENTION_DAYS'']"

definition positive_var :: "string \<Rightarrow> bool" where
  "positive_var n = (case map_of env_schema n of Some (k, m) \<Rightarrow> k = KPositive \<and> m \<noteq> Absent | None \<Rightarrow> False)"

lemma day_counts_positive: "list_all positive_var day_counts"
  by (simp add: day_counts_def positive_var_def env_schema_def)

text \<open>
  C18: A process starts only on a complete and well-formed environment: every variable of the schema has a value of its kind,
  except an optional one that is not set; in production the pepper of the device tokens has 16 characters or more; every
  number of days is positive, so that a device token outlives the moment it is issued.
\<close>

theorem started_process_sound:
  assumes "validateEnv zc raw = Inr env"
  shows "list_all (schema_value env raw zc) env_schema \<and>
    (isProduction env \<longrightarrow> 16 \<le> js_length (env_text env ''PLUGIN_TOKEN_PEPPER'')) \<and>
    list_all (\<lambda>n. 0 < env_int env n) day_counts \<and> now < new_expiry (plugin_tokens_of hmac env) now"
proof -
  have all: "list_all (schema_value env raw zc) env_schema"
    using validated_entry [OF assms] by (auto simp: list_all_iff)
  have days: "0 < env_int env n" if "(n, KPositive, m) \<in> set env_schema" "m \<noteq> Absent" for n m
  proof -
    from validated_entry [OF assms that(1)] that(2) obtain q where "map_of env n = Some (ENum q)" "whole q" "0 < q"
      by (auto simp: schema_value_def split: option.splits env_value.splits)
    moreover from this have "0 < \<lfloor>q\<rfloor>" by (metis of_int_0_less_iff whole_def)
    ultimately show ?thesis by (simp add: env_int_def)
  qed
  have "0 < env_int env n" if "n \<in> set day_counts" for n
  proof -
    from day_counts_positive that have "positive_var n" by (simp add: list_all_iff)
    then obtain m where "map_of env_schema n = Some (KPositive, m)" "m \<noteq> Absent"
      by (auto simp: positive_var_def split: option.splits)
    then show ?thesis using days [OF map_of_SomeD] by blast
  qed
  then have "list_all (\<lambda>n. 0 < env_int env n) day_counts" by (simp add: list_all_iff)
  moreover have "pepper_issues env = []" using assms unfolding validated by blast
  then have "isProduction env \<longrightarrow> 16 \<le> js_length (env_text env ''PLUGIN_TOKEN_PEPPER'')"
    by (auto simp: pepper_issues_def isProduction_def split: if_splits)
  ultimately show ?thesis using all by (simp add: day_counts_def new_expiry_def plugin_tokens_of_def)
qed

definition zod0 :: zod_checks where
  "zod0 = \<lparr>zc_url = (\<lambda>_. True), zc_email = (\<lambda>_. True)\<rparr>"

definition environment0 :: "string \<Rightarrow> string option" where
  "environment0 = map_of
     [(''NODE_ENV'', ''production''), (''PUBLIC_BASE_URL'', ''https://a''), (''DATABASE_URL'', ''postgres:''),
      (''MONGO_URL'', ''mongodb:''), (''REDIS_URL'', ''redis:''), (''KEYCLOAK_ISSUER_URL'', ''https://k''),
      (''KEYCLOAK_AUDIENCE'', ''mgm''), (''KEYCLOAK_JWKS_URI'', ''https://k/c''), (''PLUGIN_TOKEN_PEPPER'', ''0123456789abcdef''),
      (''S3_ACCESS_KEY_ID'', ''i''), (''S3_SECRET_ACCESS_KEY'', ''s''), (''S3_BUCKET_ASSETS'', ''a''), (''S3_BUCKET_THUMBS'', ''t''),
      (''S3_BUCKET_EDITOR_MEDIA'', ''e''), (''MEILI_URL'', ''http://m'')]"

theorem started_process_sound_witness:
  "\<exists>env. validateEnv zod0 environment0 = Inr env \<and> (isProduction env \<longrightarrow> 16 \<le> js_length (env_text env ''PLUGIN_TOKEN_PEPPER'')) \<and>
     0 < new_expiry (plugin_tokens_of id env) 0"
proof -
  have "list_all (\<lambda>(n, k, m). issues_of n (parse_var zod0 k m (environment0 n)) = []) env_schema"
    by (simp add: env_schema_def environment0_def issues_of_def checked_def zod0_def portNumber_def not_whole_def whole_def)
  then have fine: "field_issues (outcomes zod0 environment0) = []"
    by (auto simp: field_issues_def list_all_iff dest!: in_outcomes)
  have "(''PLUGIN_TOKEN_PEPPER'', KText, Absent) \<in> set env_schema" by (simp add: env_schema_def)
  from values_of_entry [OF outcomes_distinct outcome_in [OF this], of zod0 environment0]
  have "env_text (values_of (outcomes zod0 environment0)) ''PLUGIN_TOKEN_PEPPER'' = ''0123456789abcdef''"
    by (simp add: env_text_def environment0_def)
  then have "pepper_issues (values_of (outcomes zod0 environment0)) = []" by (simp add: pepper_issues_def js_length_def)
  with fine have "validateEnv zod0 environment0 = Inr (values_of (outcomes zod0 environment0))" by (simp add: validated)
  then obtain env where env: "validateEnv zod0 environment0 = Inr env" by blast
  from started_process_sound [OF this, of 0 id] env show ?thesis by blast
qed

text \<open>
  A missing variable hides the pepper: as long as one required variable is not set, the error that lists what is wrong
  with the environment does not mention the pepper, whatever it is, although it is meant to list everything at once.
\<close>

theorem pepper_issue_hidden:
  assumes "(n, k, Required) \<in> set env_schema" and "raw n = None"
  shows "\<exists>issues. validateEnv zc raw = Inl issues \<and> (n, ''invalid_type'') \<in> set issues \<and>
    ''PLUGIN_TOKEN_PEPPER'' \<notin> fst ` set issues"
proof -
  let ?os = "outcomes zc raw"
  have o: "(n, Aborted ''invalid_type'') \<in> set ?os"
    using outcome_in [OF assms(1), of zc raw] assms(2) by simp
  then have "list_ex (\<lambda>(n, p). aborts p) ?os" unfolding list_ex_iff by (rule bexI [rotated]) (simp add: aborts_def)
  moreover from o have here: "(n, ''invalid_type'') \<in> set (field_issues ?os)"
    using issue_listed by (fastforce simp: issues_of_def)
  ultimately have result: "validateEnv zc raw = Inl (field_issues ?os)" by (auto simp: validateEnv_def Let_def)
  have quiet: "issues_of ''PLUGIN_TOKEN_PEPPER'' (parse_var zc k m (raw ''PLUGIN_TOKEN_PEPPER'')) = []"
    if "(''PLUGIN_TOKEN_PEPPER'', k, m) \<in> set env_schema" for k m
    using that by (cases "raw ''PLUGIN_TOKEN_PEPPER''") (auto simp: env_schema_def issues_of_def)
  have "''PLUGIN_TOKEN_PEPPER'' \<notin> fst ` set (field_issues ?os)"
    by (rule no_issue_listed) (auto dest!: in_outcomes simp: quiet)
  with here result show ?thesis by blast
qed

theorem pepper_issue_hidden_witness:
  "\<exists>issues. validateEnv zod0 (environment0(''PLUGIN_TOKEN_PEPPER'' := None, ''REDIS_URL'' := None)) = Inl issues \<and>
     ''PLUGIN_TOKEN_PEPPER'' \<notin> fst ` set issues"
proof -
  have "(''REDIS_URL'', KNonempty, Required) \<in> set env_schema" by (simp add: env_schema_def)
  from pepper_issue_hidden [OF this, of "environment0(''PLUGIN_TOKEN_PEPPER'' := None, ''REDIS_URL'' := None)" zod0]
  show ?thesis by auto
qed

end
