(* ===== verification/Bodies.thy ===== *)
theory Bodies
  imports Dto
begin

section \<open>The classes of the requests\<close>

text \<open>
  The decorators of every class of a body or a query (\<open>dto\<close> directories), and the bodies that create assets and icons taken
  through the pipe.  Classes of responses carry no validation.  \<open>PreviewMediaInputDto\<close> is declared with decorators, but
  no class refers to it with \<open>@ValidateNested\<close>.
\<close>

definition ENGINES :: "asset_engine list" where
  "ENGINES =
     [UNITY, UNREAL, BLENDER, STANDALONE_3D, AUDIO_ENGINE, IMAGE_ENGINE, VIDEO_ENGINE, OTHER_ENGINE, ENGINE_AGNOSTIC]"

definition engine_names :: "string list" where
  "engine_names = map asset_engine_name ENGINES"

text \<open>\<open>/^[a-z0-9](?:[a-z0-9-]*[a-z0-9])?$/\<close>.\<close>

definition slug_letter :: "char \<Rightarrow> bool" where
  "slug_letter c \<longleftrightarrow> is_digit c \<or> 97 \<le> (of_char c :: nat) \<and> (of_char c :: nat) \<le> 122"

definition slug_shape :: "string \<Rightarrow> bool" where
  "slug_shape s \<longleftrightarrow>
     s \<noteq> [] \<and> slug_letter (hd s) \<and> slug_letter (last s) \<and> list_all (\<lambda>c. slug_letter c \<or> c = CHR ''-'') s"

subsection \<open>Lists\<close>

definition ListQueryDto :: "dto_prop list" where
  "ListQueryDto =
    [may ''cursor'' [IsString],
     prop_of ''limit'' True [IsInt, MinVal 1, MaxVal 100] type_number (Some (VNum (Some 24))) None,
     may ''locale'' [IsString]]"

definition ListAssetsQueryDto :: "dto_prop list" where
  "ListAssetsQueryDto =
    ListQueryDto @ [may ''q'' [IsString],
     may ''engine'' [IsIn engine_names],
     may_as ''categoryIds'' asArray [IsArray],
     may_as ''tags'' asArray [IsArray],
     may_as ''fileKinds'' asArray [IsArray],
     may ''licenseSlug'' [IsString],
     may_as ''renderPipelines'' asArray [IsArray],
     may_as ''targets'' asArray [IsArray],
     may ''sort'' [IsIn [''newest'', ''mostDownloaded'', ''recentlyUpdated'', ''alphabetical'', ''mostSaved'']],
     may ''ownerId'' [IsString],
     may_as ''includeUnpublished'' to_flag [IsBoolean]]"

definition SearchAssetsQueryDto :: "dto_prop list" where
  "SearchAssetsQueryDto =
    [needs ''q'' [IsString],
     may ''engine'' [IsIn engine_names],
     may_as ''categoryIds'' asArray [IsArray],
     may_as ''tags'' asArray [IsArray],
     may_as ''fileKinds'' asArray [IsArray],
     may_as ''renderPipelines'' asArray [IsArray],
     may_as ''targets'' asArray [IsArray],
     may ''licenseSlug'' [IsString],
     prop_of ''limit'' True [IsInt, MinVal 1, MaxVal 100] to_number (Some (VNum (Some 24))) None,
     prop_of ''offset'' True [IsInt, MinVal 0] to_number (Some (VNum (Some 0))) None,
     may ''locale'' [IsString]]"

definition ListLibraryQueryDto :: "dto_prop list" where
  "ListLibraryQueryDto =
    ListQueryDto @ [may ''q'' [IsString],
     may_as ''categoryIds'' asArray [IsArray],
     may_as ''tags'' asArray [IsArray],
     may ''engine'' [IsIn engine_names],
     may ''hidden'' [IsIn [''true'', ''false'', ''all'']],
     may ''sort'' [IsIn [''savedAt'', ''alphabetical'', ''recentlyUpdated'']]]"

definition ListCommentsQueryDto :: "dto_prop list" where
  "ListCommentsQueryDto =
    [may ''cursor'' [IsString],
     may ''kind'' [IsIn [''ALL'', ''COMMENT'', ''ISSUE'']],
     may_as ''limit'' type_number [IsInt, MinVal 1, MaxVal 100]]"

definition ListTagsQueryDto :: "dto_prop list" where
  "ListTagsQueryDto =
    ListQueryDto @ [may ''q'' [IsString],
     may_as ''minUsage'' to_number [IsInt, MinVal 0],
     may_as ''maxUsage'' to_number [IsInt, MinVal 0]]"

definition ListAdminUsersQueryDto :: "dto_prop list" where
  "ListAdminUsersQueryDto =
    ListQueryDto @ [may ''q'' [IsString],
     may_as ''isAdmin'' to_flag [IsBoolean]]"

definition ListAuditQueryDto :: "dto_prop list" where
  "ListAuditQueryDto =
    ListQueryDto @ [may ''actorId'' [IsString],
     may ''action'' [IsString],
     may ''subjectType'' [IsString],
     may ''subjectId'' [IsString],
     may ''from'' [IsISO8601],
     may ''to'' [IsISO8601]]"

definition ListAssetRequestsQueryDto :: "dto_prop list" where
  "ListAssetRequestsQueryDto =
    ListQueryDto @ [may ''status'' [IsIn [''SENT'', ''IN_REVIEW'', ''PENDING'', ''APPROVED'', ''REJECTED'']],
     may ''requesterId'' [IsString]]"

definition ListReportsQueryDto :: "dto_prop list" where
  "ListReportsQueryDto =
    ListQueryDto @ [may ''status'' [IsIn [''OPEN'', ''REVIEWING'', ''ACTIONED'', ''DISMISSED'']],
     may ''category'' [IsIn [''MALICIOUS_FILE'', ''BROKEN_ASSET'']]]"

subsection \<open>Assets and versions\<close>

definition AssetTranslationInputDto :: "rule list" where
  "AssetTranslationInputDto =
    [rule_of ''locale'' False [IsIn [''en'', ''id'']],
     rule_of ''shortDescription'' False [IsString, MaxLength 280],
     rule_of ''longDescription'' False [IsObject]]"

definition CreateAssetDto :: "dto_prop list" where
  "CreateAssetDto =
    [needs ''title'' [IsString, StrLength 3 140],
     needs ''engine'' [IsIn engine_names],
     needs ''categoryId'' [IsString],
     needs ''licenseId'' [IsString],
     needs ''semver'' [Matches is_semver],
     prop_of ''translations'' False [IsArray, ArrayMaxSize 2] (\<lambda>v. v) None (Some AssetTranslationInputDto),
     may ''tags'' [IsArray, ArrayMaxSize 30, Each IsString],
     may ''requiresEmptyProject'' [IsBoolean]]"

definition UpdateAssetDto :: "dto_prop list" where
  "UpdateAssetDto =
    [may ''title'' [IsString, StrLength 3 140],
     may ''slug'' [IsString, StrLength 1 120],
     may ''engine'' [IsIn engine_names],
     may ''semver'' [IsString, StrLength 1 40],
     may ''categoryId'' [IsString],
     may ''licenseId'' [IsString],
     prop_of ''translations'' True [IsArray, ArrayMaxSize 2] (\<lambda>v. v) None (Some AssetTranslationInputDto),
     may ''tags'' [IsArray, ArrayMaxSize 30, Each IsString],
     may ''requiresEmptyProject'' [IsBoolean],
     may ''previewMedia'' [IsArray, ArrayMaxSize 24]]"

definition PreviewMediaInputDto :: "rule list" where
  "PreviewMediaInputDto =
    [rule_of ''id'' False [IsString],
     rule_of ''kind'' False [IsString],
     rule_of ''key'' False [IsString],
     rule_of ''displayKey'' True [IsString],
     rule_of ''label'' False [IsString],
     rule_of ''mime'' True [IsString],
     rule_of ''visibility'' True [IsIn [''visible'', ''blur'', ''hidden'']],
     rule_of ''warning'' True [IsString, MaxLength 120]]"

definition CreateVersionDto :: "dto_prop list" where
  "CreateVersionDto =
    [needs ''semver'' [Matches is_semver],
     may ''releaseNotes'' [IsObject]]"

definition UpdateVersionDto :: "dto_prop list" where
  "UpdateVersionDto =
    [may ''releaseNotes'' [IsObject]]"

definition CompatibilityRowDto :: "rule list" where
  "CompatibilityRowDto =
    [rule_of ''engineVersion'' False [IsString, MaxLength 40],
     rule_of ''renderPipelines'' True [IsArray, Each IsString],
     rule_of ''targets'' False [IsArray, ArrayMinSize 1, Each IsString]]"

definition SetCompatibilityDto :: "dto_prop list" where
  "SetCompatibilityDto =
    [prop_of ''rows'' False [IsArray, ArrayMaxSize 20] (\<lambda>v. v) None (Some CompatibilityRowDto)]"

definition AdminAssetActionDto :: "dto_prop list" where
  "AdminAssetActionDto =
    [needs ''reason'' [IsString, MinLength 4, MaxLength 500]]"

definition AdminAssetForceDeleteDto :: "dto_prop list" where
  "AdminAssetForceDeleteDto =
    AdminAssetActionDto @ [needs ''confirm'' [IsString],
     needs ''confirmedAt'' [IsString]]"

definition AdminAssetTransferDto :: "dto_prop list" where
  "AdminAssetTransferDto =
    [needs ''newOwnerId'' [IsString]]"

subsection \<open>Files\<close>

definition InitiateUploadDto :: "dto_prop list" where
  "InitiateUploadDto =
    [needs ''assetId'' [IsString],
     needs ''versionId'' [IsString],
     needs ''relativePath'' [IsString, IsNotEmpty, MaxLength 512],
     needs ''contentType'' [IsString, MaxLength 200],
     needs ''bytes'' [IsInt, MinVal 0]]"

definition CompleteUploadDto :: "dto_prop list" where
  "CompleteUploadDto =
    [needs ''uploadId'' [IsString],
     may ''etag'' [IsString]]"

definition InitiateMultipartDto :: "dto_prop list" where
  "InitiateMultipartDto =
    InitiateUploadDto @ [needs ''partCount'' [IsInt, MinVal 1, MaxVal 10000]]"

definition SignMultipartPartsDto :: "dto_prop list" where
  "SignMultipartPartsDto =
    [needs ''uploadId'' [IsString],
     needs ''partNumbers'' [IsArray, Each IsInt]]"

definition CompletedPartDto :: "rule list" where
  "CompletedPartDto =
    [rule_of ''partNumber'' False [IsInt],
     rule_of ''etag'' True [IsString]]"

definition CompleteMultipartDto :: "dto_prop list" where
  "CompleteMultipartDto =
    [needs ''uploadId'' [IsString],
     prop_of ''parts'' True [IsArray] (\<lambda>v. v) None (Some CompletedPartDto)]"

definition AbortMultipartDto :: "dto_prop list" where
  "AbortMultipartDto =
    [needs ''uploadId'' [IsString]]"

definition InitiateThumbnailDto :: "dto_prop list" where
  "InitiateThumbnailDto =
    [needs ''assetId'' [IsString],
     needs ''contentType'' [IsString, MaxLength 100],
     needs ''bytes'' [IsInt, MinVal 0]]"

definition CompleteThumbnailDto :: "dto_prop list" where
  "CompleteThumbnailDto =
    [needs ''assetId'' [IsString],
     needs ''key'' [IsString]]"

definition InitiateEditorMediaDto :: "dto_prop list" where
  "InitiateEditorMediaDto =
    [needs ''contentType'' [IsString, MaxLength 100],
     needs ''bytes'' [IsInt, MinVal 0]]"

definition RefreshEditorMediaDto :: "dto_prop list" where
  "RefreshEditorMediaDto =
    [needs ''key'' [IsString, IsNotEmpty, MaxLength 512]]"

definition ReorderFilesDto :: "dto_prop list" where
  "ReorderFilesDto =
    [needs ''orderedFileIds'' [IsArray, Each IsString]]"

subsection \<open>Categories, licenses, tags and featured slots\<close>

definition CreateCategoryDto :: "dto_prop list" where
  "CreateCategoryDto =
    [needs ''slug'' [IsString, Matches slug_shape, MaxLength 80],
     needs ''name'' [IsObject],
     may ''iconKey'' [IsString],
     may ''sortOrder'' [IsInt, MinVal 0],
     may ''isActive'' [IsBoolean]]"

definition UpdateCategoryDto :: "dto_prop list" where
  "UpdateCategoryDto =
    [may ''slug'' [IsString, Matches slug_shape, MaxLength 80],
     may ''name'' [IsObject],
     may ''iconKey'' [IsString],
     may ''sortOrder'' [IsInt, MinVal 0],
     may ''isActive'' [IsBoolean]]"

definition ReorderCategoriesDto :: "dto_prop list" where
  "ReorderCategoriesDto =
    [needs ''orderedIds'' [IsArray, ArrayMinSize 1, Each IsString]]"

definition CategoryIconInitiateDto :: "dto_prop list" where
  "CategoryIconInitiateDto =
    [needs ''contentType'' [IsString, MaxLength 100],
     needs ''bytes'' [IsInt, MinVal 0, MaxLength 256000]]"

definition CreateLicenseDto :: "dto_prop list" where
  "CreateLicenseDto =
    [needs ''slug'' [IsString, Matches slug_shape, MaxLength 80],
     needs ''name'' [IsString, MaxLength 140],
     needs ''description'' [IsObject],
     needs ''fullText'' [IsObject],
     may ''sortOrder'' [IsInt, MinVal 0],
     may ''isActive'' [IsBoolean]]"

definition UpdateLicenseDto :: "dto_prop list" where
  "UpdateLicenseDto =
    [may ''name'' [IsString, MaxLength 140],
     may ''description'' [IsObject],
     may ''fullText'' [IsObject],
     may ''sortOrder'' [IsInt, MinVal 0],
     may ''isActive'' [IsBoolean]]"

definition MergeTagsDto :: "dto_prop list" where
  "MergeTagsDto =
    [needs ''fromTagIds'' [IsArray, ArrayMinSize 1, Each IsString],
     needs ''intoTagId'' [IsString]]"

definition UpdateTagDto :: "dto_prop list" where
  "UpdateTagDto =
    [may ''slug'' [IsString, Matches slug_shape, MaxLength 80],
     may ''displayName'' [IsString, MaxLength 80]]"

definition CreateFeaturedSlotDto :: "dto_prop list" where
  "CreateFeaturedSlotDto =
    [needs ''assetId'' [IsString],
     may ''customBannerKey'' [IsString],
     may ''customTitle'' [IsString, MaxLength 140],
     may ''customShortDescription'' [IsObject],
     may ''isActive'' [IsBoolean]]"

definition UpdateFeaturedSlotDto :: "dto_prop list" where
  "UpdateFeaturedSlotDto =
    [may ''customBannerKey'' [IsString],
     may ''customTitle'' [IsString, MaxLength 140],
     may ''customShortDescription'' [IsObject],
     may ''isActive'' [IsBoolean],
     may ''sortOrder'' [IsInt, MinVal 0]]"

definition ReorderFeaturedSlotsDto :: "dto_prop list" where
  "ReorderFeaturedSlotsDto =
    [needs ''orderedIds'' [IsArray, ArrayMinSize 1, Each IsString]]"

definition FeaturedBannerInitiateDto :: "dto_prop list" where
  "FeaturedBannerInitiateDto =
    [needs ''contentType'' [IsString, MaxLength 100],
     needs ''bytes'' [IsInt, MinVal 0]]"

subsection \<open>Comments, reports, requests, library and downloads\<close>

definition CreateCommentDto :: "dto_prop list" where
  "CreateCommentDto =
    [needs ''kind'' [IsIn [''COMMENT'', ''ISSUE'']],
     may ''parentId'' [IsString],
     needs ''body'' [IsObject]]"

definition UpdateCommentDto :: "dto_prop list" where
  "UpdateCommentDto =
    [needs ''body'' [IsObject]]"

definition UpdateIssueStatusDto :: "dto_prop list" where
  "UpdateIssueStatusDto =
    [needs ''status'' [IsIn [''OPEN'', ''ACKNOWLEDGED'', ''RESOLVED'']]]"

definition CreateReportDto :: "dto_prop list" where
  "CreateReportDto =
    [needs ''assetId'' [IsString],
     needs ''category'' [IsIn [''MALICIOUS_FILE'', ''BROKEN_ASSET'']],
     needs ''notes'' [IsString, MinLength 4, MaxLength 1000]]"

definition ActionReportDto :: "dto_prop list" where
  "ActionReportDto =
    [needs ''adminNotes'' [IsString, MinLength 4, MaxLength 1000],
     needs ''action'' [IsIn [''NOTHING'', ''ARCHIVE_ASSET'', ''DELETE_ASSET'', ''FORCE_DELETE_ASSET'']],
     may ''confirm'' [IsString],
     may ''confirmedAt'' [IsString]]"

definition DismissReportDto :: "dto_prop list" where
  "DismissReportDto =
    [needs ''adminNotes'' [IsString, MinLength 4, MaxLength 1000]]"

definition CreateAssetRequestDto :: "dto_prop list" where
  "CreateAssetRequestDto =
    [needs ''assetLink'' [IsUrl, MaxLength 500],
     needs ''assetType'' [IsString, MaxLength 80],
     needs ''intendedUse'' [IsString, MaxLength 2000],
     may_as ''price'' type_number [IsNumber, MinVal 0],
     may ''notes'' [IsString, MaxLength 2000]]"

definition AdminUpdateAssetRequestDto :: "dto_prop list" where
  "AdminUpdateAssetRequestDto =
    [needs ''status'' [IsIn [''IN_REVIEW'', ''PENDING'', ''APPROVED'', ''REJECTED'']],
     may ''adminComment'' [IsString, MaxLength 2000]]"

definition AddLibraryItemDto :: "dto_prop list" where
  "AddLibraryItemDto =
    [needs ''assetId'' [IsString]]"

definition UpdateLibraryItemDto :: "dto_prop list" where
  "UpdateLibraryItemDto =
    [needs ''hidden'' [IsBoolean]]"

definition InitiateDownloadDto :: "dto_prop list" where
  "InitiateDownloadDto =
    [needs ''assetId'' [IsString],
     needs ''versionId'' [IsString],
     may ''fileId'' [IsString],
     needs ''source'' [IsIn [''WEB'', ''UNITY_PLUGIN'', ''UNREAL_PLUGIN'']]]"

subsection \<open>Users and devices\<close>

definition ConfirmActionDto :: "dto_prop list" where
  "ConfirmActionDto =
    [needs ''confirm'' [IsString],
     needs ''confirmedAt'' [IsString]]"

definition UpdateLocaleDto :: "dto_prop list" where
  "UpdateLocaleDto =
    [needs ''locale'' [IsIn [''en'', ''id'']]]"

definition PluginExchangeDto :: "dto_prop list" where
  "PluginExchangeDto =
    [needs ''keycloakAccessToken'' [IsString, StrLength 20 8192],
     needs ''deviceLabel'' [IsString, MaxLength 120]]"

definition PluginRefreshDto :: "dto_prop list" where
  "PluginRefreshDto =
    [needs ''deviceToken'' [IsString, StrLength 20 512]]"

definition PluginRevokeDto :: "dto_prop list" where
  "PluginRevokeDto =
    [needs ''deviceId'' [IsString]]"

subsection \<open>The body of a new asset\<close>

fun to_json :: "jsval \<Rightarrow> json" where
  "to_json VUndef = JNull"
| "to_json VNull = JNull"
| "to_json (VBool b) = JBool b"
| "to_json (VNum q) = (case q of None \<Rightarrow> JNull | Some x \<Rightarrow> JNum (if x < 0 then - \<lfloor>- x\<rfloor> else \<lfloor>x\<rfloor>))"
| "to_json (VStr s) = JStr s"
| "to_json (VArr vs) = JArr (map to_json vs)"
| "to_json (VObj fs) = JObj (map (\<lambda>p. (fst p, to_json (snd p))) fs)"

fun of_json :: "json \<Rightarrow> jsval" where
  "of_json JNull = VNull"
| "of_json (JBool b) = VBool b"
| "of_json (JNum n) = VNum (Some (of_int n))"
| "of_json (JStr s) = VStr s"
| "of_json (JArr vs) = VArr (map of_json vs)"
| "of_json (JObj fs) = VObj (map (\<lambda>p. (fst p, of_json (snd p))) fs)"

definition arr_val :: "jsval \<Rightarrow> jsval list" where
  "arr_val v = (case v of VArr vs \<Rightarrow> vs | _ \<Rightarrow> [])"

definition opt_strs :: "jsval \<Rightarrow> string list option" where
  "opt_strs v = (case v of VArr vs \<Rightarrow> Some (map str_val vs) | _ \<Rightarrow> None)"

definition opt_bool :: "jsval \<Rightarrow> bool option" where
  "opt_bool v = (case v of VBool b \<Rightarrow> Some b | _ \<Rightarrow> None)"

definition engine_of :: "jsval \<Rightarrow> asset_engine" where
  "engine_of v = or_else (List.find (\<lambda>e. asset_engine_name e = str_val v) ENGINES) UNITY"

text \<open>What the service reads of an accepted body; \<open>None\<close> where an element of \<open>translations\<close> is no object, which it fails on.\<close>

definition translation_of :: "jsval \<Rightarrow> translation_input option" where
  "translation_of v =
     (case v of
        VObj fs \<Rightarrow>
          Some \<lparr>ti_locale = (if value_of fs ''locale'' = VStr ''id'' then LId else LEn),
                ti_short = str_val (value_of fs ''shortDescription''), ti_long = to_json (value_of fs ''longDescription'')\<rparr>
      | _ \<Rightarrow> None)"

definition create_asset_of :: "fields \<Rightarrow> create_asset option" where
  "create_asset_of fs =
     map_option (\<lambda>ts. \<lparr>ca_title = str_val (value_of fs ''title''), ca_engine = engine_of (value_of fs ''engine''),
         ca_categoryId = str_val (value_of fs ''categoryId''), ca_licenseId = str_val (value_of fs ''licenseId''),
         ca_semver = str_val (value_of fs ''semver''), ca_translations = ts, ca_tags = opt_strs (value_of fs ''tags''),
         ca_requiresEmpty = opt_bool (value_of fs ''requiresEmptyProject'')\<rparr>)
       (those (map translation_of (arr_val (value_of fs ''translations''))))"

definition translation_fits :: "validator_env \<Rightarrow> translation_input \<Rightarrow> bool" where
  "translation_fits ve t \<longleftrightarrow> ve_length ve (ti_short t) \<le> 280 \<and> (\<exists>fs. ti_long t = JObj fs)"

definition asset_fits :: "validator_env \<Rightarrow> create_asset \<Rightarrow> bool" where
  "asset_fits ve dto \<longleftrightarrow>
     3 \<le> ve_length ve (ca_title dto) \<and> ve_length ve (ca_title dto) \<le> 140 \<and> is_semver (ca_semver dto) \<and>
     length (ca_translations dto) \<le> 2 \<and> list_all (translation_fits ve) (ca_translations dto) \<and>
     (case ca_tags dto of None \<Rightarrow> True | Some ts \<Rightarrow> length ts \<le> 30)"

text \<open>The body a client writes for a record.\<close>

definition translation_body :: "translation_input \<Rightarrow> jsval" where
  "translation_body t =
     VObj [(''locale'', VStr (locale_name (ti_locale t))), (''shortDescription'', VStr (ti_short t)),
       (''longDescription'', of_json (ti_long t))]"

definition create_asset_body :: "create_asset \<Rightarrow> fields" where
  "create_asset_body dto =
     [(''title'', VStr (ca_title dto)), (''engine'', VStr (asset_engine_name (ca_engine dto))),
      (''categoryId'', VStr (ca_categoryId dto)), (''licenseId'', VStr (ca_licenseId dto)), (''semver'', VStr (ca_semver dto)),
      (''translations'', VArr (map translation_body (ca_translations dto)))] @
     (case ca_tags dto of None \<Rightarrow> [] | Some ts \<Rightarrow> [(''tags'', VArr (map VStr ts))]) @
     (case ca_requiresEmpty dto of None \<Rightarrow> [] | Some r \<Rightarrow> [(''requiresEmptyProject'', VBool r)])"

lemma to_of_json [simp]: "to_json (of_json j) = j"
proof (induction j)
  case (JArr vs)
  then show ?case by (auto intro: map_idI)
next
  case (JObj fs)
  then show ?case by (fastforce simp: comp_def intro: map_idI)
qed simp_all

lemma those_eq_Some: "those xs = Some ys \<longleftrightarrow> xs = map Some ys"
  by (induction xs arbitrary: ys) (auto split: option.splits)

lemma engine_of_name [simp]: "engine_of (VStr (asset_engine_name e)) = e"
  by (cases e) (simp_all add: engine_of_def str_val_def ENGINES_def or_else_def)

lemma engine_name_listed [simp]: "asset_engine_name e \<in> set engine_names"
  by (cases e) (simp_all add: engine_names_def ENGINES_def)

lemma translation_of_body [simp]: "translation_of (translation_body t) = Some t"
  by (cases "ti_locale t") (simp_all add: translation_of_def translation_body_def value_of_def str_val_def)

lemma instance_of_plain:
  assumes "list_all (\<lambda>p. pr_convert p = (\<lambda>v. v) \<and> pr_default p = None) ps"
  shows "instance_of ps fs = fs"
proof -
  have "map (\<lambda>(k, v). (k, case List.find (\<lambda>p. ru_name p = k) ps of None \<Rightarrow> v | Some p \<Rightarrow> pr_convert p v)) fs = fs"
    using assms by (auto simp: list_all_iff intro!: map_idI dest!: find_Some_mem split: option.splits)
  moreover have "concat (map (\<lambda>p. case pr_default p of None \<Rightarrow> [] | Some d \<Rightarrow>
      if map_of fs (ru_name p) = None then [(ru_name p, d)] else []) ps) = []"
    using assms by (auto simp: list_all_iff)
  ultimately show ?thesis by (simp only: instance_of_def append_Nil2)
qed

lemma create_asset_plain [simp]: "instance_of CreateAssetDto fs = fs"
  by (rule instance_of_plain) (simp add: CreateAssetDto_def)

lemma accepts_create_asset: "accepts ve CreateAssetDto fs \<longleftrightarrow> valid_instance ve CreateAssetDto fs"
  by (simp add: accepts_def)

lemma strings_are_strings [simp]: "list_all (satisfies ve IsString) (map VStr ts)"
  by (induction ts) simp_all

lemma string_prop:
  "rule_holds ve (needs k (IsString # ds)) v \<longleftrightarrow> (\<exists>s. v = VStr s \<and> list_all (\<lambda>d. satisfies ve d (VStr s)) ds)"
  by (cases v) (simp_all add: rule_holds_def)

lemma map_translation_of:
  "map translation_of vs = map Some ts \<Longrightarrow> list_all (nested_ok ve AssetTranslationInputDto) vs \<Longrightarrow>
     list_all (translation_fits ve) ts"
proof (induction ts arbitrary: vs)
  case (Cons t ts)
  then obtain v us where v: "vs = v # us" by (cases vs) auto
  with Cons.prems obtain fs where "v = VObj fs" and "translation_of v = Some t"
    by (auto simp: translation_of_def split: jsval.splits)
  with Cons.prems(2) v have "translation_fits ve t"
    by (auto simp: translation_fits_def translation_of_def AssetTranslationInputDto_def object_ok_def rule_holds_def str_val_def
        split: jsval.splits)
  with Cons v show ?case by auto
qed simp

text \<open>
  C12: The service sees exactly the new assets within the bounds: what it reads of a body the pipe accepts has a title of 3 to
  140 characters, a version of three numbers, at most two translations with short descriptions of at most 280 characters and
  an object as document, and at most 30 tags; and every such record is what it reads of some body the pipe accepts.
\<close>

theorem created_assets_fit:
  "(\<exists>fs. accepts ve CreateAssetDto fs \<and> create_asset_of (instance_of CreateAssetDto fs) = Some dto) \<longleftrightarrow> asset_fits ve dto"
proof
  assume "\<exists>fs. accepts ve CreateAssetDto fs \<and> create_asset_of (instance_of CreateAssetDto fs) = Some dto"
  then obtain fs where acc: "accepts ve CreateAssetDto fs" and dto: "create_asset_of fs = Some dto" by auto
  have holds: "prop_holds ve p (value_of fs (ru_name p))" if "p \<in> set CreateAssetDto" for p
    using accepts_prop [OF acc that] by simp
  have title: "3 \<le> ve_length ve (ca_title dto) \<and> ve_length ve (ca_title dto) \<le> 140"
    using holds [of "needs ''title'' [IsString, StrLength 3 140]"] dto
    by (auto simp: CreateAssetDto_def prop_holds_def string_prop create_asset_of_def str_val_def)
  have semver: "is_semver (ca_semver dto)"
    using holds [of "needs ''semver'' [Matches is_semver]"] dto
    by (auto simp: CreateAssetDto_def prop_holds_def rule_holds_def create_asset_of_def str_val_def split: jsval.splits)
  have tags: "case ca_tags dto of None \<Rightarrow> True | Some ts \<Rightarrow> length ts \<le> 30"
    using holds [of "may ''tags'' [IsArray, ArrayMaxSize 30, Each IsString]"] dto
    by (auto simp: CreateAssetDto_def prop_holds_def rule_holds_def absent_def create_asset_of_def opt_strs_def split: jsval.splits)
  obtain vs where vs: "value_of fs ''translations'' = VArr vs" "length vs \<le> 2"
      "list_all (nested_ok ve AssetTranslationInputDto) vs"
    using holds [of "prop_of ''translations'' False [IsArray, ArrayMaxSize 2] (\<lambda>v. v) None (Some AssetTranslationInputDto)"]
    by (auto simp: CreateAssetDto_def prop_holds_def rule_holds_def split: jsval.splits)
  have "map translation_of vs = map Some (ca_translations dto)"
    using dto vs(1) by (auto simp: create_asset_of_def arr_val_def those_eq_Some)
  with vs map_translation_of [OF this vs(3)] have "length (ca_translations dto) \<le> 2 \<and> list_all (translation_fits ve) (ca_translations dto)"
    by (metis length_map)
  with title semver tags show "asset_fits ve dto" by (simp add: asset_fits_def)
next
  assume fits: "asset_fits ve dto"
  let ?fs = "create_asset_body dto"
  have ts: "list_all (nested_ok ve AssetTranslationInputDto) (map translation_body (ca_translations dto))"
  proof -
    have "nested_ok ve AssetTranslationInputDto (translation_body t)" if "translation_fits ve t" for t
      using that by (cases "ti_locale t") (auto simp: translation_fits_def translation_body_def AssetTranslationInputDto_def
          object_ok_def whitelisted_def rule_holds_def value_of_def)
    with fits show ?thesis by (auto simp: asset_fits_def list_all_iff)
  qed
  have "accepts ve CreateAssetDto ?fs"
    using fits ts unfolding accepts_create_asset
    by (cases "ca_tags dto"; cases "ca_requiresEmpty dto")
      (simp_all add: valid_instance_def whitelisted_def prop_holds_def rule_holds_def value_of_def
        CreateAssetDto_def create_asset_body_def asset_fits_def absent_def)
  moreover have "create_asset_of ?fs = Some dto"
    by (cases dto; cases "ca_tags dto"; cases "ca_requiresEmpty dto")
      (simp_all add: create_asset_of_def create_asset_body_def value_of_def str_val_def arr_val_def opt_strs_def opt_bool_def
        comp_def those_eq_Some)
  ultimately show "\<exists>fs. accepts ve CreateAssetDto fs \<and> create_asset_of (instance_of CreateAssetDto fs) = Some dto" by auto
qed

subsection \<open>Decorators that never or always refuse\<close>

text \<open>The decorators of a preview item are never run: any array of at most 24 elements passes.\<close>

theorem preview_items_unchecked:
  "accepts ve UpdateAssetDto [(''previewMedia'', VArr vs)] \<longleftrightarrow> length vs \<le> 24"
proof -
  have "instance_of UpdateAssetDto fs = fs" for fs
    by (rule instance_of_plain) (simp add: UpdateAssetDto_def)
  then show ?thesis
    by (simp add: accepts_def valid_instance_def whitelisted_def prop_holds_def rule_holds_def value_of_def absent_def
        UpdateAssetDto_def)
qed

text \<open>\<open>admin-categories.controller.ts\<close>.\<close>

definition admin_categories_initiateIcon ::
  "validator_env \<Rightarrow> backend \<Rightarrow> http_request \<Rightarrow> string \<Rightarrow> int \<Rightarrow> fields \<Rightarrow> (string \<times> string) handler" where
  "admin_categories_initiateIcon ve b rq uuid presignSec fs =
     call b (console []) rq (\<lambda>_. with_dto ve CategoryIconInitiateDto fs (\<lambda>o'.
       from_sum (initiate_icon_upload (be_now b) presignSec uuid
         (case value_of o' ''bytes'' of VNum (Some q) \<Rightarrow> \<lfloor>q\<rfloor> | _ \<Rightarrow> 0))))"

lemma no_icon_body: "\<not> accepts ve CategoryIconInitiateDto fs"
proof
  assume "accepts ve CategoryIconInitiateDto fs"
  from accepts_prop [OF this, of "needs ''bytes'' [IsInt, MinVal 0, MaxLength 256000]"] show False
    by (simp add: CategoryIconInitiateDto_def prop_holds_def rule_holds_def split: jsval.splits option.splits)
qed

text \<open>
  C37: No icon of a category can be uploaded: \<open>bytes\<close> has to be an integer and, by a decorator meant as documentation, a string,
  so that every request to the endpoint is refused, an admin's with a 400.
\<close>

theorem icon_upload_refused:
  "case admit (be_server b) (console []) rq w of
     (Inl e, w') \<Rightarrow> admin_categories_initiateIcon ve b rq uuid presignSec fs w = (Inl e, w')
   | (Inr who, w') \<Rightarrow> admin_categories_initiateIcon ve b rq uuid presignSec fs w = (Inl (HttpExc 400 None), w')"
  by (auto simp: admin_categories_initiateIcon_def call_def serve_def bnd_apply with_dto_refuses [OF no_icon_body] audited_def console_def guarded_def
      split: prod.splits sum.splits)

subsection \<open>Page sizes\<close>

text \<open>
  The nine query classes whose page size the validation pipe checks: assets, search, library, tags, users, audit log, asset
  requests, reports and comments. The other lists of the API (notifications, deliveries, leaderboards, storage, GIFs, the tag
  search) take their limit from the raw query and clamp it in the controller.
\<close>

definition validated_queries :: "dto_prop list list" where
  "validated_queries =
     [ListAssetsQueryDto, SearchAssetsQueryDto, ListLibraryQueryDto, ListTagsQueryDto, ListAdminUsersQueryDto, ListAuditQueryDto,
      ListAssetRequestsQueryDto, ListReportsQueryDto, ListCommentsQueryDto]"

definition query_values :: "fields \<Rightarrow> bool" where
  "query_values fs \<longleftrightarrow>
     list_all (\<lambda>(k, v). case v of VStr s \<Rightarrow> True | VArr vs \<Rightarrow> list_all (\<lambda>x. case x of VStr s \<Rightarrow> True | _ \<Rightarrow> False) vs | _ \<Rightarrow> False) fs"

text \<open>The page size a service is given.\<close>

definition limit_of :: "fields \<Rightarrow> int option" where
  "limit_of o' = (case value_of o' ''limit'' of VNum (Some q) \<Rightarrow> Some \<lfloor>q\<rfloor> | _ \<Rightarrow> None)"

definition limit_prop :: "dto_prop \<Rightarrow> bool" where
  "limit_prop p \<longleftrightarrow> ru_name p = ''limit'' \<and> ru_checks p = [IsInt, MinVal 1, MaxVal 100] \<and>
     (\<forall>s. pr_convert p (VStr s) = VNum (js_number_of s)) \<and> (\<forall>vs. \<not> absent (pr_convert p (VArr vs)))"

lemma map_of_converted: "map_of (map (\<lambda>(k, v). (k, f k v)) fs) k = map_option (f k) (map_of fs k)"
  by (induction fs) auto

lemma map_of_defaults:
  "distinct (map ru_name ps) \<Longrightarrow> p \<in> set ps \<Longrightarrow> map_of fs (ru_name p) = None \<Longrightarrow>
     map_of (concat (map (\<lambda>p. case pr_default p of None \<Rightarrow> []
       | Some d \<Rightarrow> if map_of fs (ru_name p) = None then [(ru_name p, d)] else []) ps)) (ru_name p) = pr_default p"
proof (induction ps)
  case (Cons q ps)
  have other: "map_of (concat (map (\<lambda>p. case pr_default p of None \<Rightarrow> []
      | Some d \<Rightarrow> if map_of fs (ru_name p) = None then [(ru_name p, d)] else []) ps)) k = None"
    if "k \<notin> ru_name ` set ps" for k
    using that by (induction ps) (auto split: option.splits)
  from Cons.prems have "q = p \<or> ru_name q \<noteq> ru_name p" by (metis distinct.simps(2) image_eqI list.simps(9) list.set_map set_ConsD)
  with Cons show ?case by (auto simp: other map_add_def split: option.splits)
qed simp

lemma find_by_name: "distinct (map ru_name ps) \<Longrightarrow> p \<in> set ps \<Longrightarrow> List.find (\<lambda>q. ru_name q = ru_name p) ps = Some p"
  by (induction ps) (auto simp: image_iff)

lemma instance_value:
  assumes "distinct (map ru_name ps)" and "p \<in> set ps"
  shows "value_of (instance_of ps fs) (ru_name p) =
    (case map_of fs (ru_name p) of None \<Rightarrow> or_else (pr_default p) VUndef | Some v \<Rightarrow> pr_convert p v)"
  using map_of_defaults [OF assms, of fs]
  by (simp add: value_of_def instance_of_def map_add_def map_of_converted find_by_name [OF assms] or_else_def split: option.splits)

lemma validated_query_limit:
  assumes "ps \<in> set validated_queries"
  obtains p where "p \<in> set ps" and "limit_prop p" and "distinct (map ru_name ps)"
    and "pr_default p = Some (VNum (Some 24)) \<or> pr_default p = None \<and> ps = ListCommentsQueryDto"
proof -
  let ?a = "prop_of ''limit'' True [IsInt, MinVal 1, MaxVal 100]"
  have "limit_prop (?a type_number d None)" "limit_prop (?a to_number d None)" for d
    by (simp_all add: limit_prop_def to_number_def str_val_def absent_def)
  moreover have "distinct (map ru_name ps)"
    using assms by (auto simp: validated_queries_def ListAssetsQueryDto_def SearchAssetsQueryDto_def ListLibraryQueryDto_def
        ListTagsQueryDto_def ListAdminUsersQueryDto_def ListAuditQueryDto_def ListAssetRequestsQueryDto_def
        ListReportsQueryDto_def ListCommentsQueryDto_def ListQueryDto_def)
  moreover have "?a type_number (Some (VNum (Some 24))) None \<in> set ps \<or> ?a to_number (Some (VNum (Some 24))) None \<in> set ps \<or>
      (?a type_number None None \<in> set ps \<and> ps = ListCommentsQueryDto)"
    using assms by (auto simp: validated_queries_def ListAssetsQueryDto_def SearchAssetsQueryDto_def ListLibraryQueryDto_def
        ListTagsQueryDto_def ListAdminUsersQueryDto_def ListAuditQueryDto_def ListAssetRequestsQueryDto_def
        ListReportsQueryDto_def ListCommentsQueryDto_def ListQueryDto_def)
  ultimately show thesis using that by fastforce
qed

text \<open>
  C36: A query of one of the nine validated classes that the pipe accepts has a page size from 1 to 100: what the service is
  given is the number of the query, or 24, or, for comments, nothing (their service then takes its own 25); a query of these
  classes with any other limit is refused. Lists that clamp a raw limit themselves are not among these classes.
\<close>

theorem page_sizes_bounded:
  assumes "ps \<in> set validated_queries" and "accepts ve ps fs" and "query_values fs"
  shows "case limit_of (instance_of ps fs) of
           None \<Rightarrow> ps = ListCommentsQueryDto \<and> map_of fs ''limit'' = None
         | Some n \<Rightarrow> 1 \<le> n \<and> n \<le> 100 \<and> resolve_page_size (Some n) = nat n \<and>
             (map_of fs ''limit'' = None \<longrightarrow> n = 24) \<and>
             (\<forall>s. map_of fs ''limit'' = Some (VStr s) \<longrightarrow> js_number_of s = Some (of_int n))"
proof -
  obtain p where p: "p \<in> set ps" "limit_prop p" "distinct (map ru_name ps)"
    and d: "pr_default p = Some (VNum (Some 24)) \<or> pr_default p = None \<and> ps = ListCommentsQueryDto"
    using validated_query_limit [OF assms(1)] by blast
  have name: "ru_name p = ''limit''" using p(2) by (simp add: limit_prop_def)
  have v: "value_of (instance_of ps fs) ''limit'' =
      (case map_of fs ''limit'' of None \<Rightarrow> or_else (pr_default p) VUndef | Some v \<Rightarrow> pr_convert p v)"
    using instance_value [OF p(3,1), of fs] by (simp add: name)
  show ?thesis
  proof (cases "map_of fs ''limit''")
    case None
    with d v show ?thesis by (auto simp: limit_of_def or_else_def resolve_page_size_def MAX_PAGE_SIZE_def)
  next
    case (Some u)
    with assms(3) have "(\<exists>s. u = VStr s) \<or> (\<exists>vs. u = VArr vs)"
      by (auto simp: query_values_def list_all_iff dest!: map_of_SomeD split: jsval.splits)
    then have present: "\<not> absent (pr_convert p u)"
      using p(2) by (auto simp: limit_prop_def absent_def)
    have "satisfies ve c (pr_convert p u)" if "c \<in> {IsInt, MinVal 1, MaxVal 100}" for c
      using accepts_check [OF assms(2) p(1), of c] that present p(2) v Some by (auto simp: limit_prop_def)
    from this [of IsInt] this [of "MinVal 1"] this [of "MaxVal 100"]
    obtain q where q: "pr_convert p u = VNum (Some q)" "whole q" "1 \<le> q" "q \<le> 100"
      by (auto split: jsval.splits option.splits)
    then have n: "of_int \<lfloor>q\<rfloor> = q" "1 \<le> \<lfloor>q\<rfloor>" "\<lfloor>q\<rfloor> \<le> 100" by (simp_all add: whole_def le_floor_iff floor_le_iff)
    have "js_number_of s = Some (of_int \<lfloor>q\<rfloor>)" if "u = VStr s" for s
    proof -
      have "js_number_of s = Some q" using that q(1) p(2) by (simp add: limit_prop_def)
      then show ?thesis by (simp only: n(1))
    qed
    with n q(1) v Some show ?thesis by (auto simp: limit_of_def resolve_page_size_def MAX_PAGE_SIZE_def)
  qed
qed

theorem page_sizes_bounded_witness:
  "case limit_of (instance_of ListReportsQueryDto [(''limit'', VStr ''50'')]) of None \<Rightarrow> False | Some n \<Rightarrow> n = 50"
proof -
  have n: "js_number_of ''50'' = Some 50" by code_simp
  have i: "instance_of ListReportsQueryDto [(''limit'', VStr ''50'')] = [(''limit'', VNum (Some 50))]"
    by (simp add: instance_of_def ListReportsQueryDto_def ListQueryDto_def n)
  have "accepts ve ListReportsQueryDto [(''limit'', VStr ''50'')] = valid_instance ve ListReportsQueryDto [(''limit'', VNum (Some 50))]" for ve
    by (simp only: accepts_def i)
  then have "accepts \<lparr>ve_length = length, ve_url = (\<lambda>_. True), ve_iso8601 = (\<lambda>_. True)\<rparr> ListReportsQueryDto [(''limit'', VStr ''50'')]"
    by (simp add: valid_instance_def whitelisted_def prop_holds_def rule_holds_def value_of_def absent_def whole_def
        ListReportsQueryDto_def ListQueryDto_def)
  moreover have "ListReportsQueryDto \<in> set validated_queries" "query_values [(''limit'', VStr ''50'')]"
    by (simp_all add: validated_queries_def query_values_def)
  ultimately have "case limit_of (instance_of ListReportsQueryDto [(''limit'', VStr ''50'')]) of
      None \<Rightarrow> ListReportsQueryDto = ListCommentsQueryDto \<and> map_of [(''limit'', VStr ''50'')] ''limit'' = None
    | Some n \<Rightarrow> 1 \<le> n \<and> n \<le> 100 \<and> resolve_page_size (Some n) = nat n \<and>
        (map_of [(''limit'', VStr ''50'')] ''limit'' = None \<longrightarrow> n = 24) \<and>
        (\<forall>s. map_of [(''limit'', VStr ''50'')] ''limit'' = Some (VStr s) \<longrightarrow> js_number_of s = Some (of_int n))"
    using page_sizes_bounded by blast
  then show ?thesis by (simp add: n split: option.splits)
qed

end
