(* ===== verification/Gifs.thy ===== *)
theory Gifs
  imports Config Bodies "HOL-Library.Monad_Syntax"
begin

section \<open>The GIF search\<close>

text \<open>
  \<open>modules/gifs\<close>: the proxy that searches Tenor or Giphy with the keys of the server.  \<open>web\<close> is what a request to a URL
  answers, the status and the text of the body, \<open>None\<close> when it fails or takes too long; \<open>num_text\<close> is \<open>String\<close> on a
  number.  Reading the answer may throw, which the service turns into no results: \<open>None\<close> is a \<open>TypeError\<close>.
\<close>

subsection \<open>Reading an answer\<close>

definition member :: "jsval \<Rightarrow> string \<Rightarrow> jsval option" where
  "member v k =
     (case v of
        VUndef \<Rightarrow> None
      | VNull \<Rightarrow> None
      | VObj fs \<Rightarrow> Some (value_of fs k)
      | _ \<Rightarrow> Some VUndef)"

definition chain :: "jsval \<Rightarrow> string \<Rightarrow> jsval option" where
  "chain v k = (if absent v then Some VUndef else member v k)"

definition nullish :: "jsval \<Rightarrow> jsval \<Rightarrow> jsval" where
  "nullish v d = (if absent v then d else v)"

text \<open>\<open>v?.[n]\<close>; of a string, the character.\<close>

definition index_in :: "jsval \<Rightarrow> nat \<Rightarrow> jsval" where
  "index_in v n =
     (case v of
        VArr vs \<Rightarrow> if n < length vs then vs ! n else VUndef
      | VStr s \<Rightarrow> if n < length s then VStr [s ! n] else VUndef
      | VObj fs \<Rightarrow> value_of fs (show_nat n)
      | _ \<Rightarrow> VUndef)"

definition js_true :: "jsval \<Rightarrow> bool" where
  "js_true v =
     (case v of
        VUndef \<Rightarrow> False
      | VNull \<Rightarrow> False
      | VBool b \<Rightarrow> b
      | VNum q \<Rightarrow> q \<noteq> None \<and> q \<noteq> Some 0
      | VStr s \<Rightarrow> s \<noteq> []
      | _ \<Rightarrow> True)"

fun js_text_of :: "(rat \<Rightarrow> string) \<Rightarrow> jsval \<Rightarrow> string" where
  "js_text_of nt VUndef = []"
| "js_text_of nt VNull = []"
| "js_text_of nt (VBool b) = (if b then ''true'' else ''false'')"
| "js_text_of nt (VNum q) = (case q of None \<Rightarrow> ''NaN'' | Some x \<Rightarrow> nt x)"
| "js_text_of nt (VStr s) = s"
| "js_text_of nt (VArr vs) = join_with '','' (map (js_text_of nt) vs)"
| "js_text_of nt (VObj fs) = ''[object Object]''"

text \<open>\<open>Number(v)\<close>; an array is the number of its text, where \<open>null\<close> is empty.\<close>

definition js_to_number :: "(rat \<Rightarrow> string) \<Rightarrow> jsval \<Rightarrow> rat option" where
  "js_to_number nt v =
     (case v of
        VUndef \<Rightarrow> None
      | VNull \<Rightarrow> Some 0
      | VBool b \<Rightarrow> Some (if b then 1 else 0)
      | VNum q \<Rightarrow> q
      | VStr s \<Rightarrow> js_number_of s
      | VArr vs \<Rightarrow> js_number_of (js_text_of nt v)
      | VObj fs \<Rightarrow> None)"

definition number_or_zero :: "(rat \<Rightarrow> string) \<Rightarrow> jsval \<Rightarrow> rat" where
  "number_or_zero nt v = or_else (js_to_number nt v) 0"

text \<open>\<open>(v ?? []).flatMap(f)\<close>.\<close>

definition flat_map :: "(jsval \<Rightarrow> 'a list option) \<Rightarrow> jsval \<Rightarrow> 'a list option" where
  "flat_map f v =
     (if absent v then Some []
      else (case v of VArr vs \<Rightarrow> map_option concat (those (map f vs)) | _ \<Rightarrow> None))"

subsection \<open>The providers\<close>

datatype gif_provider = Tenor | Giphy

record gif_result =
  gf_id :: jsval
  gf_url :: jsval
  gf_preview :: jsval
  gf_width :: jsval
  gf_height :: jsval
  gf_title :: jsval

type_synonym gif_reply = "(int \<times> string) option"

text \<open>A parameter of a query string.\<close>

definition upper_hex :: "nat \<Rightarrow> char" where
  "upper_hex n = (if n < 10 then char_of (48 + n) else char_of (55 + n))"

definition form_char :: "char \<Rightarrow> string" where
  "form_char c =
     (let n = of_char c :: nat
      in if 48 \<le> n \<and> n \<le> 57 \<or> 65 \<le> n \<and> n \<le> 90 \<or> 97 \<le> n \<and> n \<le> 122 \<or> c = CHR ''*'' \<or> c = CHR ''-'' \<or> c = CHR ''.'' \<or> c = CHR ''_''
         then [c]
         else if c = CHR 0x20 then ''+''
         else [CHR 0x25, upper_hex (n div 16), upper_hex (n mod 16)])"

definition form_encode :: "string \<Rightarrow> string" where
  "form_encode s = concat (map form_char s)"

definition with_params :: "string \<Rightarrow> (string \<times> string) list \<Rightarrow> string" where
  "with_params url ps = url @ ''?'' @ join_with ''&'' (map (\<lambda>(k, v). form_encode k @ ''='' @ form_encode v) ps)"

definition tenor_item :: "jsval \<Rightarrow> gif_result list option" where
  "tenor_item r = do {
     formats \<leftarrow> member r ''media_formats'';
     gif \<leftarrow> chain formats ''gif'';
     tiny \<leftarrow> chain formats ''tinygif'';
     let full = nullish gif tiny;
     let preview = nullish tiny full;
     if \<not> js_true full \<or> \<not> js_true preview then Some []
     else do {
       i \<leftarrow> member r ''id'';
       url \<leftarrow> member full ''url'';
       preview_url \<leftarrow> member preview ''url'';
       dims \<leftarrow> member full ''dims'';
       title \<leftarrow> member r ''content_description'';
       Some [\<lparr>gf_id = i, gf_url = url, gf_preview = preview_url,
              gf_width = nullish (index_in dims 0) (VNum (Some 0)), gf_height = nullish (index_in dims 1) (VNum (Some 0)),
              gf_title = nullish title (VStr [])\<rparr>]
     }
   }"

definition giphy_item :: "(rat \<Rightarrow> string) \<Rightarrow> jsval \<Rightarrow> gif_result list option" where
  "giphy_item nt g = do {
     images \<leftarrow> member g ''images'';
     full \<leftarrow> chain images ''original'';
     fixed \<leftarrow> chain images ''fixed_width'';
     let preview = nullish fixed full;
     if \<not> js_true full \<or> \<not> js_true preview then Some []
     else do {
       i \<leftarrow> member g ''id'';
       url \<leftarrow> member full ''url'';
       preview_url \<leftarrow> member preview ''url'';
       width \<leftarrow> member full ''width'';
       height \<leftarrow> member full ''height'';
       title \<leftarrow> member g ''title'';
       Some [\<lparr>gf_id = i, gf_url = url, gf_preview = preview_url,
              gf_width = VNum (Some (number_or_zero nt width)), gf_height = VNum (Some (number_or_zero nt height)),
              gf_title = nullish title (VStr [])\<rparr>]
     }
   }"

text \<open>\<open>try\<close>: a failed request, a status outside 200 to 299, a body that is no JSON or of another shape give no results.\<close>

definition results_of :: "string \<Rightarrow> (jsval \<Rightarrow> gif_result list option) \<Rightarrow> gif_reply \<Rightarrow> gif_result list" where
  "results_of key item reply =
     or_else (do {
       (status, body) \<leftarrow> reply;
       v \<leftarrow> (if 200 \<le> status \<and> status \<le> 299 then json_parse body else None);
       items \<leftarrow> member (of_json v) key;
       flat_map item items
     }) []"

definition tenor_url :: "env \<Rightarrow> string \<Rightarrow> string \<Rightarrow> string" where
  "tenor_url env query limit =
     with_params ''https://tenor.googleapis.com/v2/search''
       [(''key'', env_text env ''TENOR_API_KEY''), (''q'', if query = [] then ''trending'' else query), (''limit'', limit),
        (''media_filter'', ''gif,tinygif''), (''client_key'', ''mgm-asset-library'')]"

definition giphy_url :: "env \<Rightarrow> string \<Rightarrow> string \<Rightarrow> string" where
  "giphy_url env query limit =
     with_params (if query = [] then ''https://api.giphy.com/v1/gifs/trending'' else ''https://api.giphy.com/v1/gifs/search'')
       ([(''api_key'', env_text env ''GIPHY_API_KEY'')] @ (if query = [] then [] else [(''q'', query)]) @
        [(''limit'', limit), (''rating'', ''pg-13'')])"

definition search_tenor :: "env \<Rightarrow> (string \<Rightarrow> gif_reply) \<Rightarrow> string \<Rightarrow> string \<Rightarrow> gif_result list" where
  "search_tenor env web query limit = results_of ''results'' tenor_item (web (tenor_url env query limit))"

definition search_giphy :: "(rat \<Rightarrow> string) \<Rightarrow> env \<Rightarrow> (string \<Rightarrow> gif_reply) \<Rightarrow> string \<Rightarrow> string \<Rightarrow> gif_result list" where
  "search_giphy nt env web query limit = results_of ''data'' (giphy_item nt) (web (giphy_url env query limit))"

subsection \<open>The service and the controller\<close>

record gif_response =
  gr_provider :: "gif_provider option"
  gr_results :: "gif_result list"
  gr_available :: "gif_provider list"

definition available :: "env \<Rightarrow> gif_provider list" where
  "available env =
     (if env_text env ''TENOR_API_KEY'' \<noteq> [] then [Tenor] else []) @
     (if env_text env ''GIPHY_API_KEY'' \<noteq> [] then [Giphy] else [])"

definition gif_search ::
  "(rat \<Rightarrow> string) \<Rightarrow> env \<Rightarrow> (string \<Rightarrow> gif_reply) \<Rightarrow> string \<Rightarrow> gif_provider option \<Rightarrow> string \<Rightarrow> gif_response" where
  "gif_search nt env web query provider limit =
     (if available env = [] then \<lparr>gr_provider = None, gr_results = [], gr_available = []\<rparr>
      else
        (let chosen = (case provider of
                         Some p \<Rightarrow> if p \<in> set (available env) then p else hd (available env)
                       | None \<Rightarrow> hd (available env))
         in \<lparr>gr_provider = Some chosen,
             gr_results = (if chosen = Tenor then search_tenor env web query limit else search_giphy nt env web query limit),
             gr_available = available env\<rparr>))"

text \<open>\<open>Math.min(Math.max(Number(limit ?? 24), 1), 50)\<close> as text; a limit that is no number stays \<open>NaN\<close>.\<close>

definition gif_limit :: "(rat \<Rightarrow> string) \<Rightarrow> string option \<Rightarrow> string" where
  "gif_limit nt limit =
     (case limit of
        None \<Rightarrow> ''24''
      | Some s \<Rightarrow>
          (case js_number_of s of
             Some q \<Rightarrow> nt (min (max q 1) 50)
           | None \<Rightarrow>
               if trim s = ''Infinity'' \<or> trim s = ''+Infinity'' then ''50''
               else if trim s = ''-Infinity'' then ''1''
               else ''NaN''))"

definition gifs_search ::
  "(rat \<Rightarrow> string) \<Rightarrow> env \<Rightarrow> (string \<Rightarrow> gif_reply) \<Rightarrow> backend \<Rightarrow> http_request \<Rightarrow> string option \<Rightarrow> gif_provider option \<Rightarrow> string option \<Rightarrow>
   gif_response handler" where
  "gifs_search nt env web b rq q provider limit =
     call b (guarded [FlexibleG] []) rq (\<lambda>_. ret (gif_search nt env web (trim (or_else q [])) provider (gif_limit nt limit)))"

text \<open>
  A search never fails and asks at most one URL, of a provider whose key is set: whatever is answered elsewhere, and however
  a provider answers, there is a response, which names that provider, and it has no results when the request failed.
\<close>

theorem gif_search_asks_one:
  "case gr_provider (gif_search nt env web query provider limit) of
     None \<Rightarrow> available env = [] \<and> gr_results (gif_search nt env web query provider limit) = []
   | Some p \<Rightarrow>
       p \<in> set (available env) \<and>
       (\<exists>url \<in> {tenor_url env query limit, giphy_url env query limit}.
          (\<forall>web'. web' url = web url \<longrightarrow>
             gif_search nt env web' query provider limit = gif_search nt env web query provider limit) \<and>
          (web url = None \<longrightarrow> gr_results (gif_search nt env web query provider limit) = []))"
proof (cases "available env")
  case (Cons q qs)
  define chosen where "chosen = (case provider of Some p \<Rightarrow> if p \<in> set (available env) then p else hd (available env)
      | None \<Rightarrow> hd (available env))"
  have "chosen \<in> set (available env)" by (simp add: chosen_def Cons split: option.splits)
  moreover have "gif_search nt env f query provider limit =
      \<lparr>gr_provider = Some chosen,
       gr_results = (if chosen = Tenor then search_tenor env f query limit else search_giphy nt env f query limit),
       gr_available = available env\<rparr>" for f
    by (simp add: gif_search_def chosen_def Cons)
  ultimately show ?thesis
    by (cases chosen) (auto simp: search_tenor_def search_giphy_def results_of_def or_else_def)
qed (simp add: gif_search_def)

end
