(* ===== verification/Compress.thy ===== *)
theory Compress
  imports Manifest Catalog
begin

section \<open>The backfill that compresses images\<close>

text \<open>
  \<open>scripts/compress-existing-images.ts\<close>, which an operator runs on the database and the buckets of thumbnails and editor
  media: thumbnails are replaced by a smaller WebP, images of galleries get a compressed variant beside the original.  An
  object is its body and content type.  \<open>sharp\<close>, which requests S3 answers and whether \<open>--dry\<close> was given are parameters.
  The columns of the assets are read once, at the start.  The counters of the log are left out.
\<close>

type_synonym stored = "string \<times> string option"

record media_state =
  ms_world :: world
  ms_thumbs :: "string \<Rightarrow> stored option"
  ms_editor :: "string \<Rightarrow> stored option"

record compress_env =
  ce_buckets :: bool
  ce_dry :: bool
  ce_head :: "string \<Rightarrow> bool"
  ce_get :: "string \<Rightarrow> bool"
  ce_sharp :: "nat \<Rightarrow> string \<Rightarrow> app_error + string"
  ce_put :: "string \<Rightarrow> app_error + unit"

type_synonym 'a script = "(app_error, media_state, 'a) act"

definition MAX_DIM :: nat where "MAX_DIM = 1600"
definition THUMB_MAX_DIM :: nat where "THUMB_MAX_DIM = 1280"
definition THUMB_SKIP_BYTES :: nat where "THUMB_SKIP_BYTES = 400 * 1024"

definition webp :: "string option" where "webp = Some ''image/webp''"

definition head_thumb :: "compress_env \<Rightarrow> string \<Rightarrow> media_state \<Rightarrow> (nat \<times> string option) option" where
  "head_thumb ce key s =
     (if ce_head ce key then map_option (\<lambda>(body, ty). (length body, ty)) (ms_thumbs s key) else None)"

definition get_object :: "compress_env \<Rightarrow> (media_state \<Rightarrow> string \<Rightarrow> stored option) \<Rightarrow> string \<Rightarrow> media_state \<Rightarrow> stored option" where
  "get_object ce bucket key s = (if ce_get ce key then bucket s key else None)"

definition put_webp ::
  "compress_env \<Rightarrow> (((string \<Rightarrow> stored option) \<Rightarrow> string \<Rightarrow> stored option) \<Rightarrow> media_state \<Rightarrow> media_state) \<Rightarrow> string \<Rightarrow> string \<Rightarrow>
   unit script" where
  "put_webp ce bucket_update key body =
     (if ce_dry ce then ret ()
      else bnd (from_sum (ce_put ce key)) (\<lambda>_. upd (bucket_update (\<lambda>m. m(key \<mapsto> (body, webp))))))"

subsection \<open>Thumbnails\<close>

definition processThumbnail :: "compress_env \<Rightarrow> string \<Rightarrow> unit script" where
  "processThumbnail ce key =
     bnd (gets (head_thumb ce key)) (\<lambda>meta.
     case meta of
       None \<Rightarrow> ret ()
     | Some (bytes, ty) \<Rightarrow>
         if ty = webp \<and> bytes \<le> THUMB_SKIP_BYTES then ret ()
         else
           bnd (gets (get_object ce ms_thumbs key)) (\<lambda>obj.
           case obj of
             None \<Rightarrow> ret ()
           | Some (body, _) \<Rightarrow>
               bnd (from_sum (ce_sharp ce THUMB_MAX_DIM body)) (\<lambda>out.
               if length body \<le> length out then ret () else put_webp ce ms_thumbs_update key out)))"

subsection \<open>Galleries\<close>

definition isImageItem :: "json \<Rightarrow> bool" where
  "isImageItem m =
     (case (get_prop m ''key'', get_prop m ''kind'') of
        (Some (JStr k), Some (JStr t)) \<Rightarrow> t = ''image''
      | _ \<Rightarrow> False)"

definition item_key :: "json \<Rightarrow> string" where
  "item_key m = (case get_prop m ''key'' of Some (JStr k) \<Rightarrow> k | _ \<Rightarrow> [])"

definition display_key :: "string \<Rightarrow> string" where
  "display_key key = key @ ''.display.webp''"

definition with_display :: "json \<Rightarrow> json" where
  "with_display m =
     json_merge m (JObj [(''displayKey'', JStr (display_key (item_key m))),
       (''visibility'', or_else (non_null (get_prop m ''visibility'')) (JStr ''visible''))])"

definition compress_item :: "compress_env \<Rightarrow> json \<Rightarrow> (json \<times> bool) script" where
  "compress_item ce m =
     (if \<not> isImageItem m then ret (m, False)
      else if (case get_prop m ''displayKey'' of Some v \<Rightarrow> truthy v | None \<Rightarrow> False) then ret (m, False)
      else
        bnd (gets (get_object ce ms_editor (item_key m))) (\<lambda>obj.
        case obj of
          None \<Rightarrow> ret (m, False)
        | Some (body, _) \<Rightarrow>
            bnd (from_sum (ce_sharp ce MAX_DIM body)) (\<lambda>out.
            bnd (put_webp ce ms_editor_update (display_key (item_key m)) out) (\<lambda>_.
            ret (with_display m, True)))))"

fun compress_items :: "compress_env \<Rightarrow> json list \<Rightarrow> (json \<times> bool) list script" where
  "compress_items ce [] = ret []"
| "compress_items ce (m # ms) =
     bnd (compress_item ce m) (\<lambda>r. bnd (compress_items ce ms) (\<lambda>rs. ret (r # rs)))"

text \<open>Prisma sets \<open>updatedAt\<close> with every update.\<close>

definition compress_asset :: "compress_env \<Rightarrow> int \<Rightarrow> asset_row \<Rightarrow> unit script" where
  "compress_asset ce now a =
     bnd (case truthy_opt (a_thumbnailKey a) of None \<Rightarrow> ret () | Some k \<Rightarrow> swallow (processThumbnail ce k)) (\<lambda>_.
     (let pm = (case a_previewMedia a of Some (JArr ms) \<Rightarrow> ms | _ \<Rightarrow> [])
      in if pm = [] then ret ()
         else
           bnd (compress_items ce pm) (\<lambda>rs.
           if list_ex snd rs \<and> \<not> ce_dry ce then
             upd (ms_world_update (set_asset (a_id a) (\<lambda>x. x\<lparr>a_previewMedia := Some (JArr (map fst rs)), a_updatedAt := now\<rparr>)))
           else ret ())))"

definition compress_images :: "compress_env \<Rightarrow> int \<Rightarrow> unit script" where
  "compress_images ce now =
     bnd (check (ce_buckets ce) (OtherError (RemoteFailure ''buckets''))) (\<lambda>_.
     bnd (gets (\<lambda>s. assets (ms_world s))) (\<lambda>as.
     each (compress_asset ce now) as))"

subsection \<open>What a run may change\<close>

text \<open>
  A step on the bucket of thumbnails replaces the object of one of the keys \<open>K\<close> by the smaller WebP that \<open>sharp\<close> makes of
  it; one that is a small WebP already stays.  A step on the editor bucket writes, beside the object of one of the keys, the
  WebP that \<open>sharp\<close> makes of it.
\<close>

type_synonym bucket = "string \<Rightarrow> stored option"

definition thumb_step :: "compress_env \<Rightarrow> string set \<Rightarrow> bucket \<Rightarrow> bucket \<Rightarrow> bool" where
  "thumb_step ce K m m' \<longleftrightarrow>
     (\<exists>k \<in> K. \<exists>body ty out. m k = Some (body, ty) \<and> \<not> (ty = Some ''image/webp'' \<and> length body \<le> 409600) \<and>
        ce_sharp ce 1280 body = Inr out \<and> length out < length body \<and> m' = m(k \<mapsto> (out, Some ''image/webp'')))"

definition display_step :: "compress_env \<Rightarrow> string set \<Rightarrow> bucket \<Rightarrow> bucket \<Rightarrow> bool" where
  "display_step ce K m m' \<longleftrightarrow>
     (\<exists>k \<in> K. \<exists>body ty out. m k = Some (body, ty) \<and> ce_sharp ce 1600 body = Inr out \<and>
        m' = m(k @ ''.display.webp'' \<mapsto> (out, Some ''image/webp'')))"

definition image_key :: "json \<Rightarrow> string \<Rightarrow> bool" where
  "image_key m k \<longleftrightarrow> get_prop m ''key'' = Some (JStr k) \<and> get_prop m ''kind'' = Some (JStr ''image'')"

definition thumb_keys :: "asset_row list \<Rightarrow> string set" where
  "thumb_keys as = {k. \<exists>a \<in> set as. a_thumbnailKey a = Some k}"

definition gallery_keys :: "asset_row list \<Rightarrow> string set" where
  "gallery_keys as = {k. \<exists>a \<in> set as. \<exists>ms m. a_previewMedia a = Some (JArr ms) \<and> m \<in> set ms \<and> image_key m k}"

text \<open>
  An item of a gallery is as it was, or it is an image that had no display variant: all its fields are as they were but the
  two, the new key is that of the variant, which is in the bucket, and a visibility is kept if there was one.
\<close>

definition item_kept :: "bucket \<Rightarrow> json \<Rightarrow> json \<Rightarrow> bool" where
  "item_kept editor m m' \<longleftrightarrow>
     m' = m \<or>
     (\<exists>key body. image_key m key \<and> \<not> bool_prop m ''displayKey'' \<and>
        (\<forall>f. f \<noteq> ''displayKey'' \<and> f \<noteq> ''visibility'' \<longrightarrow> get_prop m' f = get_prop m f) \<and>
        get_prop m' ''displayKey'' = Some (JStr (key @ ''.display.webp'')) \<and>
        editor (key @ ''.display.webp'') = Some (body, Some ''image/webp'') \<and>
        get_prop m' ''visibility'' =
          (if get_prop m ''visibility'' = None \<or> get_prop m ''visibility'' = Some JNull then Some (JStr ''visible'')
           else get_prop m ''visibility''))"

definition asset_kept :: "int \<Rightarrow> bucket \<Rightarrow> asset_row \<Rightarrow> asset_row \<Rightarrow> bool" where
  "asset_kept now editor a a' \<longleftrightarrow>
     a' = a \<or>
     (\<exists>ms ms'. a_previewMedia a = Some (JArr ms) \<and> list_all2 (item_kept editor) ms ms' \<and>
        a' = a\<lparr>a_previewMedia := Some (JArr ms'), a_updatedAt := now\<rparr>)"

definition spared :: "compress_env \<Rightarrow> int \<Rightarrow> media_state \<Rightarrow> media_state \<Rightarrow> bool" where
  "spared ce now s t \<longleftrightarrow>
     (let as = assets (ms_world s)
      in rtranclp (thumb_step ce (thumb_keys as)) (ms_thumbs s) (ms_thumbs t) \<and>
         rtranclp (display_step ce (gallery_keys as)) (ms_editor s) (ms_editor t) \<and>
         (\<exists>as'. ms_world t = (ms_world s)\<lparr>assets := as'\<rparr> \<and> list_all2 (asset_kept now (ms_editor t)) as as'))"

lemma thumb_steps_mono: "rtranclp (thumb_step ce K) m m' \<Longrightarrow> K \<subseteq> L \<Longrightarrow> rtranclp (thumb_step ce L) m m'"
  by (erule rtranclp_mono [THEN predicate2D, rotated]) (unfold thumb_step_def, blast)

lemma display_steps_mono: "rtranclp (display_step ce K) m m' \<Longrightarrow> K \<subseteq> L \<Longrightarrow> rtranclp (display_step ce L) m m'"
  by (erule rtranclp_mono [THEN predicate2D, rotated]) (unfold display_step_def, blast)

text \<open>What was written stays, or is written again.\<close>

lemma variant_stays:
  "rtranclp (display_step ce K) m m' \<Longrightarrow> m k = Some (b, Some ''image/webp'') \<Longrightarrow> \<exists>b'. m' k = Some (b', Some ''image/webp'')"
  by (induction rule: rtranclp_induct) (auto simp: display_step_def)

lemma item_kept_later:
  assumes "item_kept e m m'" and "rtranclp (display_step ce K) e e'"
  shows "item_kept e' m m'"
proof (cases "m' = m")
  case False
  with assms(1) obtain key body where k: "image_key m key" "\<not> bool_prop m ''displayKey''"
    "\<forall>f. f \<noteq> ''displayKey'' \<and> f \<noteq> ''visibility'' \<longrightarrow> get_prop m' f = get_prop m f"
    "get_prop m' ''displayKey'' = Some (JStr (key @ ''.display.webp''))"
    "get_prop m' ''visibility'' =
       (if get_prop m ''visibility'' = None \<or> get_prop m ''visibility'' = Some JNull then Some (JStr ''visible'')
        else get_prop m ''visibility'')"
    and e: "e (key @ ''.display.webp'') = Some (body, Some ''image/webp'')"
    unfolding item_kept_def by blast
  from variant_stays [OF assms(2) e] obtain body' where "e' (key @ ''.display.webp'') = Some (body', Some ''image/webp'')" by blast
  with k show ?thesis unfolding item_kept_def by (intro disjI2 exI [of _ key] exI [of _ body'] conjI)
qed (simp add: item_kept_def)

lemma items_kept_later:
  "list_all2 (item_kept e) ms ms' \<Longrightarrow> rtranclp (display_step ce K) e e' \<Longrightarrow> list_all2 (item_kept e') ms ms'"
  by (erule list_all2_mono) (rule item_kept_later)

lemma asset_kept_later: "asset_kept now e a a' \<Longrightarrow> rtranclp (display_step ce K) e e' \<Longrightarrow> asset_kept now e' a a'"
  unfolding asset_kept_def using items_kept_later by blast

lemma asset_kept_id: "asset_kept now e a a' \<Longrightarrow> a_id a' = a_id a"
  by (auto simp: asset_kept_def)

lemma kept_refl: "item_kept e m m" "asset_kept now e a a" "list_all2 (asset_kept now e) as as"
  by (simp_all add: item_kept_def asset_kept_def list_all2_refl)

lemma with_display_props:
  assumes "image_key m key"
  shows "get_prop (with_display m) f =
     (if f = ''displayKey'' then Some (JStr (key @ ''.display.webp''))
      else if f = ''visibility'' then Some (or_else (non_null (get_prop m ''visibility'')) (JStr ''visible''))
      else get_prop m f)"
proof -
  obtain fs where m: "m = JObj fs" using assms by (cases m) (simp_all add: image_key_def)
  have "item_key m = key" using assms by (simp add: item_key_def image_key_def)
  then show ?thesis
    by (simp add: m with_display_def json_merge_def display_key_def update_conv')
qed

lemma image_item: "isImageItem m \<Longrightarrow> image_key m (item_key m)"
  by (auto simp: isImageItem_def image_key_def item_key_def split: option.splits json.splits)

subsection \<open>What the parts of a run change\<close>

lemma thumbnail_run:
  assumes "processThumbnail ce key s = (r, t)"
  shows "rtranclp (thumb_step ce {key}) (ms_thumbs s) (ms_thumbs t) \<and> ms_editor t = ms_editor s \<and> ms_world t = ms_world s"
proof (cases "t = s")
  case False
  obtain n ty where h: "head_thumb ce key s = Some (n, ty)"
    using assms False by (cases "head_thumb ce key s") (auto simp: processThumbnail_def act_simps)
  obtain body ty' where o': "get_object ce ms_thumbs key s = Some (body, ty')" and big: "\<not> (ty = webp \<and> n \<le> THUMB_SKIP_BYTES)"
    using assms False h by (cases "get_object ce ms_thumbs key s") (auto simp: processThumbnail_def act_simps split: if_splits)
  from h o' have same: "ms_thumbs s key = Some (body, ty)" "n = length body"
    by (auto simp: head_thumb_def get_object_def split: if_splits)
  obtain out where sharp: "ce_sharp ce THUMB_MAX_DIM body = Inr out" and less: "length out < length body"
    and t: "t = ms_thumbs_update (\<lambda>m. m(key \<mapsto> (out, webp))) s"
    using assms False h o' big
    by (cases "ce_sharp ce THUMB_MAX_DIM body"; cases "ce_put ce key")
      (auto simp: processThumbnail_def act_simps put_webp_def split: if_splits)
  have "thumb_step ce {key} (ms_thumbs s) (ms_thumbs t)"
    using same sharp less big by (auto simp: thumb_step_def t webp_def THUMB_MAX_DIM_def THUMB_SKIP_BYTES_def)
  with t show ?thesis by auto
qed simp

lemma item_run:
  assumes "compress_item ce m s = (r, t)" and "\<not> ce_dry ce"
  shows "ms_thumbs t = ms_thumbs s \<and> ms_world t = ms_world s \<and>
     rtranclp (display_step ce {k. image_key m k}) (ms_editor s) (ms_editor t) \<and>
     (\<forall>p. r = Inr p \<longrightarrow> item_kept (ms_editor t) m (fst p) \<and> (\<not> snd p \<longrightarrow> fst p = m))"
proof (cases "isImageItem m \<and> \<not> bool_prop m ''displayKey''")
  case False
  with assms have "t = s \<and> r = Inr (m, False)" by (auto simp: compress_item_def bool_prop_def split: if_splits)
  then show ?thesis by (simp add: kept_refl)
next
  case True
  note key = image_item [OF conjunct1 [OF True]]
  have run: "compress_item ce m s = bnd (gets (get_object ce ms_editor (item_key m))) (\<lambda>obj.
        case obj of
          None \<Rightarrow> ret (m, False)
        | Some (body, _) \<Rightarrow>
            bnd (from_sum (ce_sharp ce MAX_DIM body)) (\<lambda>out.
            bnd (put_webp ce ms_editor_update (display_key (item_key m)) out) (\<lambda>_.
            ret (with_display m, True)))) s"
    using True unfolding compress_item_def bool_prop_def by (simp cong: option.case_cong)
  show ?thesis
  proof (cases "get_object ce ms_editor (item_key m) s")
    case None
    with assms run have "t = s \<and> r = Inr (m, False)" by (simp add: act_simps)
    then show ?thesis by (simp add: kept_refl)
  next
    case (Some obj)
    obtain body ty where obj: "obj = (body, ty)" by (cases obj)
    show ?thesis
    proof (cases "\<exists>e. ce_sharp ce MAX_DIM body = Inl e \<or> ce_put ce (display_key (item_key m)) = Inl e")
      case True
      with assms run Some have "t = s \<and> isl r"
        by (cases "ce_sharp ce MAX_DIM body") (auto simp: act_simps obj put_webp_def split: sum.splits)
      then show ?thesis by auto
    next
      case False
      then obtain out where out: "ce_sharp ce MAX_DIM body = Inr out" "ce_put ce (display_key (item_key m)) = Inr ()"
        by (cases "ce_sharp ce MAX_DIM body"; cases "ce_put ce (display_key (item_key m))") auto
      with assms run Some
      have t: "t = ms_editor_update (\<lambda>b. b(display_key (item_key m) \<mapsto> (out, webp))) s" and r: "r = Inr (with_display m, True)"
        by (simp_all add: act_simps obj put_webp_def)
      have "ms_editor s (item_key m) = Some (body, ty)" using Some by (auto simp: obj get_object_def split: if_splits)
      then have "display_step ce {k. image_key m k} (ms_editor s) (ms_editor t)"
        using key out(1) by (auto simp: display_step_def t display_key_def webp_def MAX_DIM_def)
      moreover have "item_kept (ms_editor t) m (with_display m)"
        unfolding item_kept_def using key True with_display_props [OF key]
        by (intro disjI2 exI [of _ "item_key m"] exI [of _ out])
          (auto simp: t display_key_def webp_def or_else_def non_null_def split: option.splits json.splits)
      ultimately show ?thesis by (auto simp: r t)
    qed
  qed
qed

lemma items_run:
  assumes "compress_items ce ms s = (r, t)" and "\<not> ce_dry ce"
  shows "ms_thumbs t = ms_thumbs s \<and> ms_world t = ms_world s \<and>
     rtranclp (display_step ce {k. \<exists>m \<in> set ms. image_key m k}) (ms_editor s) (ms_editor t) \<and>
     (\<forall>rs. r = Inr rs \<longrightarrow> list_all2 (item_kept (ms_editor t)) ms (map fst rs) \<and> (\<not> list_ex snd rs \<longrightarrow> map fst rs = ms))"
  using assms
proof (induction ms arbitrary: s r t)
  case (Cons m ms)
  let ?K = "{k. \<exists>x \<in> set (m # ms). image_key x k}"
  obtain q u where one: "compress_item ce m s = (q, u)" by fastforce
  note i = item_run [OF one Cons.prems(2)]
  then have su: "rtranclp (display_step ce ?K) (ms_editor s) (ms_editor u)"
    by (elim conjE display_steps_mono) auto
  show ?case
  proof (cases q)
    case (Inl e)
    with Cons.prems one i su show ?thesis by (auto simp: bnd_apply)
  next
    case (Inr p)
    obtain q' v where rest: "compress_items ce ms u = (q', v)" by fastforce
    note IH = Cons.IH [OF rest Cons.prems(2)]
    then have uv: "rtranclp (display_step ce ?K) (ms_editor u) (ms_editor v)"
      by (elim conjE display_steps_mono) auto
    have t: "t = v" and r: "r = (case q' of Inl e \<Rightarrow> Inl e | Inr rs \<Rightarrow> Inr (p # rs))"
      using Cons.prems(1) one rest Inr by (auto simp: bnd_apply split: sum.splits)
    have "item_kept (ms_editor v) m (fst p)" using i Inr item_kept_later uv by blast
    with i IH Inr rtranclp_trans [OF su uv] show ?thesis
      by (auto simp: t r split: sum.splits)
  qed
qed simp

lemma asset_run:
  assumes "compress_asset ce now a s = (r, t)" and "\<not> ce_dry ce"
  shows "rtranclp (thumb_step ce (thumb_keys [a])) (ms_thumbs s) (ms_thumbs t) \<and>
     rtranclp (display_step ce (gallery_keys [a])) (ms_editor s) (ms_editor t) \<and>
     (\<exists>f. ms_world t = set_asset (a_id a) f (ms_world s) \<and> asset_kept now (ms_editor t) a (f a))"
proof -
  define u where "u = snd ((case truthy_opt (a_thumbnailKey a) of None \<Rightarrow> ret () | Some k \<Rightarrow> swallow (processThumbnail ce k)) s)"
  have thumbs: "rtranclp (thumb_step ce (thumb_keys [a])) (ms_thumbs s) (ms_thumbs u) \<and> ms_editor u = ms_editor s \<and> ms_world u = ms_world s"
  proof (cases "truthy_opt (a_thumbnailKey a)")
    case (Some k)
    obtain q v where run: "processThumbnail ce k s = (q, v)" by fastforce
    from Some have "{k} \<subseteq> thumb_keys [a]" by (auto simp: thumb_keys_def truthy_opt_def split: if_splits)
    with thumbnail_run [OF run] Some run show ?thesis
      by (auto simp: u_def swallow_def intro: thumb_steps_mono)
  qed (simp add: u_def)
  let ?pm = "case a_previewMedia a of Some (JArr ms) \<Rightarrow> ms | _ \<Rightarrow> []"
  have same: "\<exists>f. w = set_asset (a_id a) f w \<and> asset_kept now e a (f a)" for w e
    by (intro exI [of _ "\<lambda>x. x"] conjI) (cases w, simp_all add: set_asset_def set_rows_def kept_refl)
  have rest: "(if ?pm = [] then ret ()
         else
           bnd (compress_items ce ?pm) (\<lambda>rs.
           if list_ex snd rs \<and> \<not> ce_dry ce then
             upd (ms_world_update (set_asset (a_id a) (\<lambda>x. x\<lparr>a_previewMedia := Some (JArr (map fst rs)), a_updatedAt := now\<rparr>)))
           else ret ())) u = (r, t)"
    using assms(1) unfolding compress_asset_def Let_def bnd_apply u_def
    by (auto simp: swallow_def split: option.splits sum.splits prod.splits)
  show ?thesis
  proof (cases "?pm = []")
    case True
    with rest have "t = u" by simp
    with thumbs same show ?thesis by auto
  next
    case False
    then obtain ms where pm: "a_previewMedia a = Some (JArr ms)" by (auto split: option.splits json.splits)
    obtain q v where items: "compress_items ce ms u = (q, v)" by fastforce
    note i = items_run [OF items assms(2)]
    have K: "{k. \<exists>m \<in> set ms. image_key m k} = gallery_keys [a]" by (auto simp: gallery_keys_def pm)
    have disp: "rtranclp (display_step ce (gallery_keys [a])) (ms_editor s) (ms_editor v)" using i thumbs K by simp
    show ?thesis
    proof (cases "\<exists>rs. q = Inr rs \<and> list_ex snd rs")
      case True
      then obtain rs where rs: "q = Inr rs" "list_ex snd rs" by blast
      let ?f = "\<lambda>x. x\<lparr>a_previewMedia := Some (JArr (map fst rs)), a_updatedAt := now\<rparr>"
      have t: "t = ms_world_update (set_asset (a_id a) ?f) v"
        using rest False items rs assms(2) by (simp add: pm bnd_apply)
      have "asset_kept now (ms_editor t) a (?f a)" using i rs by (auto simp: t asset_kept_def pm)
      moreover have "ms_world t = set_asset (a_id a) ?f (ms_world s)" using i thumbs by (simp add: t)
      ultimately show ?thesis using disp thumbs i by (auto simp: t)
    next
      case no: False
      then have "t = v" using rest False items by (auto simp: pm bnd_apply split: sum.splits if_splits)
      with disp thumbs i same show ?thesis by simp
    qed
  qed
qed

lemma set_rows_middle:
  assumes "distinct (map a_id (xs @ a # ys))"
  shows "set_rows (\<lambda>x. a_id x = a_id a) f (xs @ a # ys) = xs @ f a # ys"
proof -
  have "set_rows (\<lambda>x. a_id x = a_id a) f zs = zs" if "a_id a \<notin> a_id ` set zs" for zs
    using that by (induction zs) auto
  with assms show ?thesis by (auto simp: set_rows_def)
qed

lemma assets_run:
  assumes "each (compress_asset ce now) as s = (r, t)" and "\<not> ce_dry ce"
    and "assets (ms_world s) = xs @ as" and "distinct (map a_id (xs @ as))"
  shows "rtranclp (thumb_step ce (thumb_keys as)) (ms_thumbs s) (ms_thumbs t) \<and>
     rtranclp (display_step ce (gallery_keys as)) (ms_editor s) (ms_editor t) \<and>
     (\<exists>as'. ms_world t = (ms_world s)\<lparr>assets := xs @ as'\<rparr> \<and> list_all2 (asset_kept now (ms_editor t)) as as')"
  using assms
proof (induction as arbitrary: xs s)
  case Nil
  have "w = w\<lparr>assets := assets w\<rparr>" for w :: world by (cases w) simp
  from this [of "ms_world s"] Nil have "ms_world s = (ms_world s)\<lparr>assets := xs @ []\<rparr>" by simp
  with Nil show ?case by (intro conjI exI [of _ "[]"]) simp_all
next
  case (Cons a as)
  obtain q u where one: "compress_asset ce now a s = (q, u)" by fastforce
  from asset_run [OF one Cons.prems(2)] obtain f
    where th: "rtranclp (thumb_step ce (thumb_keys [a])) (ms_thumbs s) (ms_thumbs u)"
      and di: "rtranclp (display_step ce (gallery_keys [a])) (ms_editor s) (ms_editor u)"
      and w: "ms_world u = set_asset (a_id a) f (ms_world s)" and k: "asset_kept now (ms_editor u) a (f a)" by blast
  have "set_rows (\<lambda>x. a_id x = a_id a) f (assets (ms_world s)) = xs @ f a # as"
    unfolding Cons.prems(3) by (rule set_rows_middle [OF Cons.prems(4)])
  then have wu: "ms_world u = (ms_world s)\<lparr>assets := xs @ f a # as\<rparr>" by (cases "ms_world s") (simp add: w set_asset_def)
  have K: "thumb_keys [a] \<subseteq> thumb_keys (a # as)" "gallery_keys [a] \<subseteq> gallery_keys (a # as)"
    "thumb_keys as \<subseteq> thumb_keys (a # as)" "gallery_keys as \<subseteq> gallery_keys (a # as)"
    by (auto simp: thumb_keys_def gallery_keys_def)
  note th' = thumb_steps_mono [OF th K(1)] and di' = display_steps_mono [OF di K(2)]
  show ?case
  proof (cases q)
    case (Inl e)
    with Cons.prems(1) one have "t = u" by (simp add: bnd_apply)
    with th' di' wu k show ?thesis by (auto intro!: exI [of _ "f a # as"] simp: kept_refl)
  next
    case (Inr x)
    with Cons.prems(1) one have run: "each (compress_asset ce now) as u = (r, t)" by (simp add: bnd_apply)
    have "distinct (map a_id ((xs @ [f a]) @ as))" using Cons.prems(4) asset_kept_id [OF k] by simp
    from Cons.IH [OF run Cons.prems(2) _ this] wu obtain as'
      where th2: "rtranclp (thumb_step ce (thumb_keys as)) (ms_thumbs u) (ms_thumbs t)"
        and di2: "rtranclp (display_step ce (gallery_keys as)) (ms_editor u) (ms_editor t)"
        and wt: "ms_world t = (ms_world u)\<lparr>assets := (xs @ [f a]) @ as'\<rparr>" and kt: "list_all2 (asset_kept now (ms_editor t)) as as'"
      by auto
    have "ms_world t = (ms_world s)\<lparr>assets := xs @ f a # as'\<rparr>" using wt wu by simp
    moreover have "list_all2 (asset_kept now (ms_editor t)) (a # as) (f a # as')" using kt asset_kept_later [OF k di2] by simp
    ultimately show ?thesis
      using rtranclp_trans [OF th' thumb_steps_mono [OF th2 K(3)]] rtranclp_trans [OF di' display_steps_mono [OF di2 K(4)]]
      by blast
  qed
qed

lemma dry_run:
  assumes "ce_dry ce"
  shows "snd (compress_images ce now s) = s"
proof -
  let ?I = "\<lambda>t. t = s"
  have put: "put_webp ce u k b = ret ()" for u k b by (simp add: put_webp_def assms)
  have "keeps ?I (compress_item ce m)" for m
    unfolding compress_item_def put by (auto intro!: keeps_intro split: option.splits prod.splits)
  then have items: "keeps ?I (compress_items ce ms)" for ms by (induction ms) (auto intro!: keeps_intro)
  have thumbs: "keeps ?I (processThumbnail ce k)" for k
    unfolding processThumbnail_def put by (auto intro!: keeps_intro split: option.splits prod.splits)
  have "keeps ?I (compress_asset ce now a)" for a
    unfolding compress_asset_def Let_def by (intro keeps_intro thumbs items) (simp add: assms)
  then have "keeps ?I (compress_images ce now)" unfolding compress_images_def by (intro keeps_intro)
  then show ?thesis by (simp add: keeps_def)
qed

text \<open>
  C35: The backfill loses no image, however far it gets.  A thumbnail of an asset changes only by being replaced, step by step,
  by the smaller WebP that \<open>sharp\<close> makes of its own object, and no other object of that bucket changes; in the editor bucket
  nothing changes but that the variants of images of galleries, made of the objects themselves, are written under their
  keys with \<open>.display.webp\<close> added; of the database only galleries and dates of change differ: every item keeps all its
  fields, and an image without a display key may get that of its variant, which then is in the bucket.  A dry run changes
  nothing at all.
\<close>

theorem backfill_spares_originals:
  assumes "distinct (map a_id (assets (ms_world s)))"
  shows "spared ce now s (snd (compress_images ce now s)) \<and> (ce_dry ce \<longrightarrow> snd (compress_images ce now s) = s)"
proof (cases "ce_dry ce \<or> \<not> ce_buckets ce")
  case True
  have "snd (compress_images ce now s) = s"
  proof (cases "ce_dry ce")
    case False
    with True show ?thesis by (simp add: compress_images_def bnd_apply)
  qed (rule dry_run)
  moreover have "ms_world s = (ms_world s)\<lparr>assets := assets (ms_world s)\<rparr>" by (cases "ms_world s") simp
  ultimately show ?thesis unfolding spared_def Let_def by (metis kept_refl(3) rtranclp.rtrancl_refl)
next
  case False
  obtain r t where run: "each (compress_asset ce now) (assets (ms_world s)) s = (r, t)" by fastforce
  with False have t: "snd (compress_images ce now s) = t" by (simp add: compress_images_def bnd_apply)
  from assets_run [OF run _ append_Nil [symmetric]] False assms show ?thesis by (simp add: t spared_def)
qed

definition media_env0 :: compress_env where
  "media_env0 = \<lparr>ce_buckets = True, ce_dry = False, ce_head = (\<lambda>_. True), ce_get = (\<lambda>_. True), ce_sharp = (\<lambda>_ s. Inr (tl s)),
     ce_put = (\<lambda>_. Inr ())\<rparr>"

definition image0 :: json where
  "image0 = JObj [(''kind'', JStr ''image''), (''key'', JStr ''k''), (''caption'', JStr ''c'')]"

definition media_state0 :: media_state where
  "media_state0 = \<lparr>ms_world = empty_world\<lparr>assets := [asset0\<lparr>a_thumbnailKey := Some ''t'', a_previewMedia := Some (JArr [image0])\<rparr>]\<rparr>,
     ms_thumbs = [''t'' \<mapsto> (''abc'', None)], ms_editor = [''k'' \<mapsto> (''xyz'', None)]\<rparr>"

text \<open>The thumbnail is compressed in place, the image of the gallery beside itself.\<close>

theorem backfill_spares_originals_witness:
  "spared media_env0 5 media_state0 (snd (compress_images media_env0 5 media_state0)) \<and>
   ms_thumbs (snd (compress_images media_env0 5 media_state0)) ''t'' = Some (''bc'', Some ''image/webp'') \<and>
   ms_editor (snd (compress_images media_env0 5 media_state0)) ''k'' = Some (''xyz'', None) \<and>
   ms_editor (snd (compress_images media_env0 5 media_state0)) ''k.display.webp'' = Some (''yz'', Some ''image/webp'') \<and>
   map a_previewMedia (assets (ms_world (snd (compress_images media_env0 5 media_state0)))) =
     [Some (JArr [JObj [(''kind'', JStr ''image''), (''key'', JStr ''k''), (''caption'', JStr ''c''),
       (''displayKey'', JStr ''k.display.webp''), (''visibility'', JStr ''visible'')]])]"
proof (intro conjI)
  have "distinct (map a_id (assets (ms_world media_state0)))" by (simp add: media_state0_def)
  from backfill_spares_originals [OF this, of media_env0 5]
  show "spared media_env0 5 media_state0 (snd (compress_images media_env0 5 media_state0))" by blast
qed (code_simp+)

end
