(* ===== verification/Extract.thy ===== *)
theory Extract
  imports Analyze Gifs
begin

section \<open>The extractors that run other programs\<close>

text \<open>
  The rest of \<open>processors/analyze\<close>: \<open>subprocess.ts\<close>, \<open>scratch.ts\<close> and the extractors of images, sound, video, meshes and
  Blender files, which fill the environment of the analysis (\<open>analyzer_of\<close>).  What a program does is a parameter: it does not
  start, or it closes after some milliseconds with an exit code (\<open>None\<close> after a signal) and its output.  So are the metadata
  that \<open>sharp\<close> reads, the download and the readers of text and tar files.
\<close>

subsection \<open>Programs with a time limit\<close>

datatype program = NoStart app_error | Closes nat "int option" string

type_synonym spawner = "string \<Rightarrow> string list \<Rightarrow> program"

definition timed_out :: app_error where
  "timed_out = OtherError (RemoteFailure ''timed out'')"

text \<open>At the limit the program is killed; the promise is rejected once it has closed.\<close>

definition runSubprocess :: "spawner \<Rightarrow> string \<Rightarrow> string list \<Rightarrow> nat \<Rightarrow> app_error + string \<times> int" where
  "runSubprocess spawn bin args timeoutMs =
     (case spawn bin args of
        NoStart e \<Rightarrow> Inl e
      | Closes ms code stdout \<Rightarrow>
          if timeoutMs \<le> ms then Inl timed_out else Inr (stdout, or_else code (-1)))"

definition parsed_output :: "app_error + string \<times> int \<Rightarrow> json option" where
  "parsed_output r =
     (case r of
        Inl e \<Rightarrow> None
      | Inr (stdout, code) \<Rightarrow> if code \<noteq> 0 then None else json_parse stdout)"

subsection \<open>Sound and video\<close>

definition runFfprobe :: "spawner \<Rightarrow> string \<Rightarrow> string \<Rightarrow> nat \<Rightarrow> json option" where
  "runFfprobe spawn bin path timeoutMs =
     parsed_output (runSubprocess spawn bin
       [''-v'', ''error'', ''-print_format'', ''json'', ''-show_format'', ''-show_streams'', path] timeoutMs)"

text \<open>\<open>streams.find(s => s.codec_type === t)\<close>: \<open>None\<close> is a \<open>TypeError\<close>, \<open>Some VUndef\<close> no such stream.\<close>

fun find_in :: "string \<Rightarrow> jsval list \<Rightarrow> jsval option" where
  "find_in t [] = Some VUndef"
| "find_in t (s # ss) =
     (case member s ''codec_type'' of
        None \<Rightarrow> None
      | Some c \<Rightarrow> if c = VStr t then Some s else find_in t ss)"

definition find_stream :: "jsval \<Rightarrow> string \<Rightarrow> jsval option" where
  "find_stream probe t =
     (case member probe ''streams'' of
        Some (VArr ss) \<Rightarrow> find_in t ss
      | _ \<Rightarrow> None)"

definition num_field :: "(rat \<Rightarrow> string) \<Rightarrow> jsval \<Rightarrow> string \<Rightarrow> jsval option" where
  "num_field nt v k = map_option (\<lambda>x. VNum (js_to_number nt (nullish x (VNum (Some 0))))) (member v k)"

definition duration_of :: "(rat \<Rightarrow> string) \<Rightarrow> jsval \<Rightarrow> jsval \<Rightarrow> jsval option" where
  "duration_of nt probe stream = do {
     format \<leftarrow> member probe ''format'';
     d \<leftarrow> member format ''duration'';
     e \<leftarrow> member stream ''duration'';
     Some (VNum (js_to_number nt (nullish d (nullish e (VNum (Some 0))))))
   }"

definition bitrate_of :: "(rat \<Rightarrow> string) \<Rightarrow> jsval \<Rightarrow> jsval option" where
  "bitrate_of nt probe = do {
     format \<leftarrow> member probe ''format'';
     r \<leftarrow> member format ''bit_rate'';
     Some (if js_true r then VNum (map_option (\<lambda>q. of_int \<lfloor>q / 1000 + 1 / 2\<rfloor>) (js_to_number nt r)) else VUndef)
   }"

text \<open>What is stored of a result: undefined properties are left out.\<close>

definition stored_meta :: "fields \<Rightarrow> json" where
  "stored_meta fs = to_json (VObj (filter (\<lambda>(k, v). v \<noteq> VUndef) fs))"

text \<open>\<open>Some None\<close>: the extractor returns \<open>null\<close>; \<open>None\<close>: it throws.\<close>

definition audio_meta :: "(rat \<Rightarrow> string) \<Rightarrow> jsval \<Rightarrow> json option option" where
  "audio_meta nt probe = do {
     audio \<leftarrow> find_stream probe ''audio'';
     if absent audio then Some None
     else do {
       duration \<leftarrow> duration_of nt probe audio;
       rate \<leftarrow> num_field nt audio ''sample_rate'';
       channels \<leftarrow> num_field nt audio ''channels'';
       bitrate \<leftarrow> bitrate_of nt probe;
       Some (Some (stored_meta [(''durationSec'', duration), (''sampleRate'', rate), (''channels'', channels),
         (''bitrateKbps'', bitrate)]))
     }
   }"

definition video_meta :: "(rat \<Rightarrow> string) \<Rightarrow> jsval \<Rightarrow> json option option" where
  "video_meta nt probe = do {
     video \<leftarrow> find_stream probe ''video'';
     if absent video then Some None
     else do {
       audio \<leftarrow> find_stream probe ''audio'';
       duration \<leftarrow> duration_of nt probe video;
       width \<leftarrow> num_field nt video ''width'';
       height \<leftarrow> num_field nt video ''height'';
       codec \<leftarrow> member video ''codec_name'';
       bitrate \<leftarrow> bitrate_of nt probe;
       Some (Some (stored_meta [(''durationSec'', duration), (''width'', width), (''height'', height),
         (''codec'', VStr (js_text_of nt (nullish codec (VStr ''unknown'')))), (''bitrateKbps'', bitrate),
         (''hasAudio'', VBool (\<not> absent audio))]))
     }
   }"

definition extract_media :: "(jsval \<Rightarrow> json option option) \<Rightarrow> json option \<Rightarrow> app_error + json option" where
  "extract_media read probe =
     (case probe of
        None \<Rightarrow> Inr None
      | Some v \<Rightarrow>
          if \<not> truthy v then Inr None
          else (case read (of_json v) of None \<Rightarrow> Inl (OtherError TypeError) | Some m \<Rightarrow> Inr m))"

definition extractAudio :: "(rat \<Rightarrow> string) \<Rightarrow> spawner \<Rightarrow> string \<Rightarrow> nat \<Rightarrow> string \<Rightarrow> app_error + json option" where
  "extractAudio nt spawn ffprobeBin timeoutMs path = extract_media (audio_meta nt) (runFfprobe spawn ffprobeBin path timeoutMs)"

definition extractVideo :: "(rat \<Rightarrow> string) \<Rightarrow> spawner \<Rightarrow> string \<Rightarrow> nat \<Rightarrow> string \<Rightarrow> app_error + json option" where
  "extractVideo nt spawn ffprobeBin timeoutMs path = extract_media (video_meta nt) (runFfprobe spawn ffprobeBin path timeoutMs)"

subsection \<open>Meshes and images\<close>

definition extractMesh :: "spawner \<Rightarrow> string \<Rightarrow> string \<Rightarrow> nat \<Rightarrow> string \<Rightarrow> json option" where
  "extractMesh spawn cwd venvBin timeoutMs path =
     parsed_output (runSubprocess spawn (venvBin @ ''/python3'') [cwd @ ''/scripts/python/mesh_probe.py'', path] timeoutMs)"

definition json_line :: "string \<Rightarrow> string option" where
  "json_line out = List.find (\<lambda>l. starts_with ''{'' (trim l)) (split_on CHR 0x0A out)"

definition extractBlendViaBlender :: "spawner \<Rightarrow> string \<Rightarrow> string \<Rightarrow> nat \<Rightarrow> string \<Rightarrow> json option" where
  "extractBlendViaBlender spawn cwd blenderBin timeoutMs path =
     (case runSubprocess spawn blenderBin [''-b'', ''-P'', cwd @ ''/scripts/blender/blend_probe.py'', ''--'', path] timeoutMs of
        Inl e \<Rightarrow> None
      | Inr (stdout, code) \<Rightarrow>
          if code \<noteq> 0 then None
          else (case json_line stdout of None \<Rightarrow> None | Some l \<Rightarrow> json_parse l))"

record sharp_metadata =
  sm_width :: "int option"
  sm_height :: "int option"
  sm_hasAlpha :: "bool option"
  sm_channels :: "int option"
  sm_format :: "string option"

definition extractImage :: "(string \<Rightarrow> sharp_metadata option) \<Rightarrow> string \<Rightarrow> json option" where
  "extractImage sharp path =
     (case sharp path of
        None \<Rightarrow> None
      | Some m \<Rightarrow>
          if or_else (sm_width m) 0 = 0 \<or> or_else (sm_height m) 0 = 0 then None
          else Some (JObj [(''width'', JNum (or_else (sm_width m) 0)), (''height'', JNum (or_else (sm_height m) 0)),
            (''hasAlpha'', JBool (sm_hasAlpha m = Some True)), (''channels'', JNum (or_else (sm_channels m) 0)),
            (''format'', JStr (or_else (sm_format m) ''unknown''))]))"

subsection \<open>The scratch directory\<close>

definition basename :: "string \<Rightarrow> string" where
  "basename key = rev (takeWhile (\<lambda>c. c \<noteq> CHR ''/'') (rev key))"

definition scratch_path :: "string \<Rightarrow> string \<Rightarrow> string \<Rightarrow> string" where
  "scratch_path rootDir jobId key = rootDir @ ''/'' @ jobId @ ''/'' @ basename key"

lemma basename_flat: "CHR ''/'' \<notin> set (basename key)"
  by (auto simp: basename_def dest: set_takeWhileD)

text \<open>The environment of an analysis job.\<close>

record tool_paths =
  tp_scratch :: string
  tp_job :: string
  tp_cwd :: string
  tp_ffprobe :: string
  tp_venv :: string
  tp_blender :: string
  tp_timeout :: nat

definition tool_paths_of :: "env \<Rightarrow> string \<Rightarrow> string \<Rightarrow> tool_paths" where
  "tool_paths_of env cwd job =
     \<lparr>tp_scratch = env_text env ''WORKER_SCRATCH_DIR'', tp_job = job, tp_cwd = cwd, tp_ffprobe = env_text env ''FFPROBE_BIN'',
      tp_venv = env_text env ''PYANALYZE_VENV'' @ ''/bin'', tp_blender = env_text env ''BLENDER_BIN'',
      tp_timeout = nat (env_int env ''ANALYZE_TIMEOUT_SEC'' * 1000)\<rparr>"

text \<open>\<open>az\<close> supplies the download, the readers of text and tar files and the texts of errors.\<close>

definition analyzer_of ::
  "(rat \<Rightarrow> string) \<Rightarrow> spawner \<Rightarrow> (string \<Rightarrow> sharp_metadata option) \<Rightarrow> tool_paths \<Rightarrow> analyzer \<Rightarrow> analyzer" where
  "analyzer_of nt spawn sharp tp az =
     (let file = scratch_path (tp_scratch tp) (tp_job tp)
      in az\<lparr>az_image := (\<lambda>key. extractImage sharp (file key)),
            az_audio := (\<lambda>key. extractAudio nt spawn (tp_ffprobe tp) (tp_timeout tp) (file key)),
            az_video := (\<lambda>key. extractVideo nt spawn (tp_ffprobe tp) (tp_timeout tp) (file key)),
            az_mesh := (\<lambda>key. Option.bind (extractMesh spawn (tp_cwd tp) (tp_venv tp) (tp_timeout tp) (file key)) (\<lambda>v. non_null (Some v))),
            az_blend := (\<lambda>key. Option.bind (extractBlendViaBlender spawn (tp_cwd tp) (tp_blender tp) (tp_timeout tp) (file key))
              (\<lambda>v. non_null (Some v)))\<rparr>)"

subsection \<open>What fails an analysis\<close>

text \<open>A probe that has the shape ffprobe documents: objects as streams, and an object as format.\<close>

definition probe_shaped :: "json \<Rightarrow> bool" where
  "probe_shaped v \<longleftrightarrow>
     (case (get_prop v ''streams'', get_prop v ''format'') of
        (Some (JArr ss), Some (JObj f)) \<Rightarrow> list_all (\<lambda>s. case s of JObj fs \<Rightarrow> True | _ \<Rightarrow> False) ss
      | _ \<Rightarrow> False)"

lemma value_of_json: "value_of (map (\<lambda>p. (fst p, of_json (snd p))) fs) k = (case map_of fs k of None \<Rightarrow> VUndef | Some v \<Rightarrow> of_json v)"
  by (induction fs) (auto simp: value_of_def)

lemma member_object: "member (of_json (JObj fs)) k = Some (case map_of fs k of None \<Rightarrow> VUndef | Some v \<Rightarrow> of_json v)"
  by (simp add: member_def value_of_json)

lemma find_in_objects:
  assumes "list_all (\<lambda>s. case s of JObj fs \<Rightarrow> True | _ \<Rightarrow> False) ss"
  shows "\<exists>v. find_in t (map of_json ss) = Some v \<and> (absent v \<or> (\<exists>fs. v = of_json (JObj fs)))"
  using assms
proof (induction ss)
  case (Cons s ss)
  then obtain fs where s: "s = JObj fs" by (cases s) auto
  show ?case
  proof (cases "map_of fs ''codec_type''")
    case None
    with Cons s show ?thesis by (simp add: member_object del: of_json.simps)
  next
    case (Some c)
    with Cons s show ?thesis by (auto simp: member_object simp del: of_json.simps)
  qed
qed (simp add: absent_def)

lemma shaped_probe_read:
  assumes "probe_shaped v"
  shows "audio_meta nt (of_json v) \<noteq> None" and "video_meta nt (of_json v) \<noteq> None"
proof -
  obtain vs where v: "v = JObj vs" using assms by (cases v) (simp_all add: probe_shaped_def)
  obtain s g where sg: "map_of vs ''streams'' = Some s" "map_of vs ''format'' = Some g"
    using assms by (cases "map_of vs ''streams''"; cases "map_of vs ''format''") (simp_all add: probe_shaped_def v split: json.splits)
  obtain ss where "s = JArr ss" using assms sg by (cases s) (simp_all add: probe_shaped_def v)
  moreover from this obtain f where "g = JObj f" using assms sg by (cases g) (simp_all add: probe_shaped_def v)
  ultimately have ss: "map_of vs ''streams'' = Some (JArr ss)" and f: "map_of vs ''format'' = Some (JObj f)"
    and objects: "list_all (\<lambda>s. case s of JObj fs \<Rightarrow> True | _ \<Rightarrow> False) ss"
    using assms sg by (simp_all add: probe_shaped_def v)
  have stream: "find_stream (of_json v) t = find_in t (map of_json ss)" for t
    using ss by (simp add: v find_stream_def member_object del: of_json.simps) simp
  have format: "member (of_json v) ''format'' = Some (of_json (JObj f))"
    using f by (simp add: v member_object del: of_json.simps)
  have fields: "\<exists>d. duration_of nt (of_json v) (of_json (JObj fs)) = Some d" "\<exists>b. bitrate_of nt (of_json v) = Some b"
      "\<exists>x. num_field nt (of_json (JObj fs)) k = Some x" "\<exists>x. member (of_json (JObj fs)) k = Some x" for fs k
    by (simp_all add: duration_of_def bitrate_of_def num_field_def format member_object del: of_json.simps)
  have found: "\<exists>s. find_stream (of_json v) t = Some s \<and> (absent s \<or> (\<exists>fs. s = of_json (JObj fs)))" for t
    using find_in_objects [OF objects] by (simp add: stream del: of_json.simps)
  show "audio_meta nt (of_json v) \<noteq> None"
  proof -
    obtain s where s: "find_stream (of_json v) ''audio'' = Some s" "absent s \<or> (\<exists>fs. s = of_json (JObj fs))" using found by blast
    show ?thesis
    proof (cases "absent s")
      case True
      with s(1) show ?thesis by (simp add: audio_meta_def)
    next
      case False
      with s(2) obtain fs where fs: "s = of_json (JObj fs)" by blast
      obtain d b r c where "duration_of nt (of_json v) s = Some d" "bitrate_of nt (of_json v) = Some b"
          "num_field nt s ''sample_rate'' = Some r" "num_field nt s ''channels'' = Some c"
        using fields unfolding fs by metis
      with s(1) False show ?thesis by (simp add: audio_meta_def)
    qed
  qed
  show "video_meta nt (of_json v) \<noteq> None"
  proof -
    obtain s where s: "find_stream (of_json v) ''video'' = Some s" "absent s \<or> (\<exists>fs. s = of_json (JObj fs))" using found by blast
    obtain a where a: "find_stream (of_json v) ''audio'' = Some a" using found by blast
    show ?thesis
    proof (cases "absent s")
      case True
      with s(1) show ?thesis by (simp add: video_meta_def)
    next
      case False
      with s(2) obtain fs where fs: "s = of_json (JObj fs)" by blast
      obtain d b x y c where "duration_of nt (of_json v) s = Some d" "bitrate_of nt (of_json v) = Some b"
          "num_field nt s ''width'' = Some x" "num_field nt s ''height'' = Some y" "member s ''codec_name'' = Some c"
        using fields unfolding fs by metis
      with s(1) a False show ?thesis by (simp add: video_meta_def)
    qed
  qed
qed

lemma media_fails_unshaped:
  assumes "extract_media (audio_meta nt) probe = Inl e \<or> extract_media (video_meta nt) probe = Inl e"
  shows "\<exists>v. probe = Some v \<and> \<not> probe_shaped v"
proof -
  obtain v where "probe = Some v" and "audio_meta nt (of_json v) = None \<or> video_meta nt (of_json v) = None"
    using assms by (auto simp: extract_media_def split: option.splits if_splits)
  then show ?thesis using shaped_probe_read [of v nt] by blast
qed

lemma sum_bind_Inl: "sum_bind r f = Inl e \<longleftrightarrow> r = Inl e \<or> (\<exists>x. r = Inr x \<and> f x = Inl e)"
  by (cases r) auto

text \<open>
  C29: A tool that is missing, crashes, hangs or prints nonsense never fails the analysis of a file, which then only has no
  metadata: what fails it is the download, an archive that cannot be read, or an ffprobe that exits with success and JSON of
  another shape.
\<close>

theorem only_storage_fails_analysis:
  assumes "analyze_file (analyzer_of nt spawn sharp tp az) f = Inl e"
  shows "az_open az (f_s3Key f) = Inl e \<or>
    sum_bind (az_tar az (f_s3Key f)) (extract_unitypackage (az_overflow az) 50000000) = Inl e \<or>
    (\<exists>v. runFfprobe spawn (tp_ffprobe tp) (scratch_path (tp_scratch tp) (tp_job tp) (f_s3Key f)) (tp_timeout tp) = Some v \<and>
       \<not> probe_shaped v)"
proof (cases "az_open az (f_s3Key f)")
  case (Inl x)
  with assms show ?thesis by (simp add: analyze_file_def analyzer_of_def Let_def)
next
  case (Inr u)
  let ?probe = "runFfprobe spawn (tp_ffprobe tp) (scratch_path (tp_scratch tp) (tp_job tp) (f_s3Key f)) (tp_timeout tp)"
  obtain kind base where "dispatch (analyzer_of nt spawn sharp tp az) kind (f_s3Key f) base = Inl e"
    using assms Inr by (auto simp: analyze_file_def analyzer_of_def Let_def)
  then have "sum_bind (az_tar az (f_s3Key f)) (extract_unitypackage (az_overflow az) 50000000) = Inl e \<or>
      extract_media (audio_meta nt) ?probe = Inl e \<or> extract_media (video_meta nt) ?probe = Inl e"
    by (auto simp: dispatch_def analyzer_of_def Let_def extractAudio_def extractVideo_def sum_bind_Inl
        split: detected.splits if_splits)
  then show ?thesis using media_fails_unshaped by blast
qed

definition no_program :: spawner where
  "no_program = (\<lambda>_ _. NoStart timed_out)"

theorem only_storage_fails_analysis_witness:
  "analyze_file (analyzer_of (\<lambda>_. []) no_program (\<lambda>_. None) (tool_paths_of [] [] []) (analyzer0\<lparr>az_open := (\<lambda>_. Inl timed_out)\<rparr>)) file0 =
     Inl timed_out \<and>
   az_open (analyzer0\<lparr>az_open := (\<lambda>_. Inl timed_out)\<rparr>) (f_s3Key file0) = Inl timed_out"
proof -
  let ?az = "analyzer0\<lparr>az_open := (\<lambda>_. Inl timed_out)\<rparr>"
  have fails: "analyze_file (analyzer_of (\<lambda>_. []) no_program (\<lambda>_. None) (tool_paths_of [] [] []) ?az) file0 = Inl timed_out"
    by (simp add: analyze_file_def analyzer_of_def Let_def)
  from only_storage_fails_analysis [OF this] fails show ?thesis
    by (simp add: runFfprobe_def runSubprocess_def parsed_output_def no_program_def)
qed

end
