(* ===== verification/Producer.thy ===== *)
theory Producer
  imports Versions Derive
begin

section \<open>Queues, retained jobs and workers\<close>

text \<open>
  The rest of \<open>jobs.producer.ts\<close>, with \<open>worker-base.ts\<close> and \<open>queue-dashboard.controller.ts\<close>.  Elsewhere the jobs of the
  state are what the producer submits; here is what BullMQ makes of them, as documented: a job whose id is still known to
  its queue is ignored, be it waiting, active, completed or failed, and an id with a colon is refused.  The producer's options
  keep a completed job for a day, the newest thousand of them, and a failed one for a week.  Times are in milliseconds.
\<close>

subsection \<open>What a queue retains\<close>

datatype progress = Waiting | Finished bool int

record retained =
  rt_id :: string
  rt_job :: job_payload
  rt_progress :: progress

record keep_policy =
  kp_age :: int
  kp_count :: "nat option"

record job_options =
  jo_attempts :: nat
  jo_backoff :: int
  jo_completed :: keep_policy
  jo_failed :: keep_policy

definition defaultJobOptions :: job_options where
  "defaultJobOptions =
     \<lparr>jo_attempts = 5, jo_backoff = 5000, jo_completed = \<lparr>kp_age = 24 * 60 * 60, kp_count = Some 1000\<rparr>,
      jo_failed = \<lparr>kp_age = 7 * 24 * 60 * 60, kp_count = None\<rparr>\<rparr>"

text \<open>The jobs of the same outcome that finished later.\<close>

definition finished_after :: "bool \<Rightarrow> int \<Rightarrow> retained list \<Rightarrow> nat" where
  "finished_after ok t js = count_rows (\<lambda>j. case rt_progress j of Finished k u \<Rightarrow> k = ok \<and> t < u | Waiting \<Rightarrow> False) js"

definition retains :: "job_options \<Rightarrow> int \<Rightarrow> retained list \<Rightarrow> retained \<Rightarrow> bool" where
  "retains opts now js j =
     (case rt_progress j of
        Waiting \<Rightarrow> True
      | Finished ok t \<Rightarrow>
          (let p = (if ok then jo_completed opts else jo_failed opts)
           in now - t \<le> kp_age p * 1000 \<and> (case kp_count p of None \<Rightarrow> True | Some n \<Rightarrow> finished_after ok t js < n)))"

text \<open>Old jobs go when another one finishes.\<close>

definition finish_job :: "job_options \<Rightarrow> int \<Rightarrow> string \<Rightarrow> bool \<Rightarrow> retained list \<Rightarrow> retained list" where
  "finish_job opts now i ok js =
     (let js' = set_rows (\<lambda>j. rt_id j = i) (\<lambda>j. j\<lparr>rt_progress := Finished ok now\<rparr>) js
      in filter (retains opts now js') js')"

definition colon_error :: app_error where
  "colon_error = OtherError (RemoteFailure ''Custom Id cannot contain :'')"

text \<open>\<open>fresh\<close> is the id BullMQ gives a job that has none.\<close>

definition bull_add :: "string \<Rightarrow> job \<Rightarrow> retained list \<Rightarrow> app_error + retained list" where
  "bull_add fresh j js =
     (let i = or_else (jb_id j) fresh; known = some_row (\<lambda>r. rt_id r = i) js
      in if jb_id j \<noteq> None \<and> CHR '':'' \<in> set i then Inl colon_error
         else if known then Inr js
         else Inr (js @ [\<lparr>rt_id = i, rt_job = jb_payload j, rt_progress = Waiting\<rparr>]))"

fun bull_take :: "(nat \<Rightarrow> string) \<Rightarrow> job list \<Rightarrow> retained list \<Rightarrow> app_error + retained list" where
  "bull_take fresh [] js = Inr js"
| "bull_take fresh (j # rest) js = sum_bind (bull_add (fresh (length rest)) j js) (bull_take fresh rest)"

lemma bull_add_known: "jb_id j = Some i \<Longrightarrow> some_row (\<lambda>r. rt_id r = i) js \<Longrightarrow> CHR '':'' \<notin> set i \<Longrightarrow> bull_add f j js = Inr js"
  by (simp add: bull_add_def or_else_def)

lemma bull_take_known:
  "\<forall>j \<in> set submitted. \<exists>i. jb_id j = Some i \<and> some_row (\<lambda>r. rt_id r = i) js \<and> CHR '':'' \<notin> set i \<Longrightarrow> bull_take fresh submitted js = Inr js"
  by (induction submitted) (auto simp: bull_add_known)

text \<open>A completed job is known for a day, unless a thousand others complete after it.\<close>

lemma completed_stays_known:
  assumes "r \<in> set js" and "rt_progress r = Finished True t" and "rt_id r \<noteq> i" and "now - t \<le> 86400000"
    and "finished_after True t (set_rows (\<lambda>j. rt_id j = i) (\<lambda>j. j\<lparr>rt_progress := Finished ok now\<rparr>) js) < 1000"
  shows "r \<in> set (finish_job defaultJobOptions now i ok js)"
  using assms by (auto simp: finish_job_def Let_def retains_def defaultJobOptions_def set_set_rows image_iff)

subsection \<open>Reanalysis within a day\<close>

definition id_of_job :: "nat \<Rightarrow> string" where
  "id_of_job n = show_nat n"

definition analyze_id :: "string \<Rightarrow> string \<Rightarrow> string" where
  "analyze_id versionId fileId = versionId @ ''__'' @ fileId"

lemma each_enqueueAnalyzeFile:
  "each (\<lambda>f. enqueueAnalyzeFile vid (f_id f) None) fs w =
     (if queue_down w \<and> fs \<noteq> [] then (Inl queue_failed, w)
      else (Inr (), jobs_update (\<lambda>js. js @ map (\<lambda>f. \<lparr>jb_id = Some (analyze_id vid (f_id f)),
        jb_payload = AnalyzeFileJob vid (f_id f) None\<rparr>) fs) w))"
proof (induction fs arbitrary: w)
  case (Cons f fs)
  then show ?case by (simp add: act_simps enqueueAnalyzeFile_def analyze_id_def comp_def)
qed (simp add: act_simps)

text \<open>
  C26: An analysis asked for again while the jobs of the first one are retained, which completed ones are for a day, never runs:
  the version is marked as pending and its counter set to the number of its files, but BullMQ takes none of the jobs.
\<close>

theorem reanalysis_lost:
  assumes "reanalyze up vid u w = (Inr (), w')" and "asset_files vid w \<noteq> []"
    and "\<forall>f \<in> set (asset_files vid w). some_row (\<lambda>r. rt_id r = analyze_id vid (f_id f)) js \<and> CHR '':'' \<notin> set (analyze_id vid (f_id f))"
  shows "\<exists>added v. jobs w' = jobs w @ added \<and> added \<noteq> [] \<and> bull_take fresh added js = Inr js \<and>
    version_by vid w' = Some v \<and> v_status v = PENDING \<and> counter vid (redis w') = int (length (asset_files vid w))"
proof -
  obtain v where v: "version_by vid w = Some v" and run: "reanalyze_body up v w = (Inr (), w')"
    using with_owned_version_effect [of vid u "reanalyze_body up" w "Inr ()" w'] assms(1) by (auto simp: reanalyze_def)
  have vid: "v_id v = vid" using v by (auto simp: version_by_def dest: find_row_SomeD)
  let ?added = "map (\<lambda>f. \<lparr>jb_id = Some (analyze_id vid (f_id f)), jb_payload = AnalyzeFileJob vid (f_id f) None\<rparr>) (asset_files vid w)"
  have "\<forall>j \<in> set ?added. \<exists>i. jb_id j = Some i \<and> some_row (\<lambda>r. rt_id r = i) js \<and> CHR '':'' \<notin> set i"
    using assms(3) by auto
  then have "bull_take fresh ?added js = Inr js" by (rule bull_take_known)
  moreover have "jobs w' = jobs w @ ?added"
    using run assms(2) by (auto simp: reanalyze_body_def vid act_simps each_enqueueAnalyzeFile set_version_def split: if_splits)
  moreover have "\<exists>v'. version_by vid w' = Some v' \<and> v_status v' = PENDING"
    using run assms(2) v
    by (auto simp: reanalyze_body_def vid act_simps each_enqueueAnalyzeFile set_version_def version_by_def find_row_set_rows
        split: if_splits)
  moreover have "counter vid (redis w') = int (length (asset_files vid w))"
    using run assms(2) by (auto simp: reanalyze_body_def vid act_simps each_enqueueAnalyzeFile set_version_def counter_def split: if_splits)
  ultimately show ?thesis using assms(2) by blast
qed

theorem reanalysis_lost_witness:
  "\<exists>w' added v. reanalyze True ''v'' alice upload_world = (Inr (), w') \<and> jobs w' = added \<and> added \<noteq> [] \<and>
     bull_take id_of_job added
       [\<lparr>rt_id = ''v__f0'', rt_job = AnalyzeFileJob ''v'' ''f0'' None, rt_progress = Finished True 0\<rparr>] =
       Inr [\<lparr>rt_id = ''v__f0'', rt_job = AnalyzeFileJob ''v'' ''f0'' None, rt_progress = Finished True 0\<rparr>] \<and>
     version_by ''v'' w' = Some v \<and> v_status v = PENDING"
proof -
  let ?js = "[\<lparr>rt_id = ''v__f0'', rt_job = AnalyzeFileJob ''v'' ''f0'' None, rt_progress = Finished True 0\<rparr>]"
  have files: "asset_files ''v'' upload_world = [file0]" by (simp add: asset_files_def file0_def)
  have owned: "version_by ''v'' upload_world = Some version0" "owns_version alice version0 upload_world"
    by (simp_all add: version_by_def owns_version_def asset_by_def can_edit_def)
  obtain w' where run: "reanalyze True ''v'' alice upload_world = (Inr (), w')"
    by (simp add: reanalyze_def with_owned_version_run [OF owned] reanalyze_body_def files act_simps enqueueAnalyzeFile_def)
      (simp add: upload_world_def)
  have empty: "jobs upload_world = []" by (simp add: upload_world_def draft_world_def empty_world_def)
  have "\<exists>added v. jobs w' = jobs upload_world @ added \<and> added \<noteq> [] \<and> bull_take id_of_job added ?js = Inr ?js \<and>
      version_by ''v'' w' = Some v \<and> v_status v = PENDING \<and> counter ''v'' (redis w') = int (length (asset_files ''v'' upload_world))"
    by (rule reanalysis_lost [OF run]) (simp_all add: files file0_def analyze_id_def some_row_def)
  with run empty show ?thesis by auto
qed

text \<open>The same for the rollup of a second batch of uploads, and for a change of an asset that is to be indexed.\<close>

lemma known_jobs_lost:
  assumes "jobs w' = jobs w @ [\<lparr>jb_id = Some i, jb_payload = p\<rparr>]" and "some_row (\<lambda>r. rt_id r = i) js" and "CHR '':'' \<notin> set i"
  shows "bull_take fresh (drop (length (jobs w)) (jobs w')) js = Inr js"
  using assms by (simp add: bull_add_known)

text \<open>Only the job of the thumbnail variants is safe from the colons of a path.\<close>

lemma variants_id_accepted:
  "enqueueThumbnailVariants a key w = (Inr (), w') \<Longrightarrow> jobs w' = jobs w @ [j] \<Longrightarrow> bull_add fresh j js \<noteq> Inl e"
  by (auto simp: enqueueThumbnailVariants_def bull_add_def or_else_def Let_def sanitize_colons_clean split: if_splits)

lemma render_id_refused:
  assumes "CHR '':'' \<in> set glbKey" and "\<not> queue_down w"
  shows "\<exists>j. jobs (snd (enqueueThumbnailRender versionId glbKey w)) = jobs w @ [j] \<and> bull_add fresh j js = Inl colon_error"
  using assms by (simp add: enqueueThumbnailRender_def bull_add_def or_else_def)

subsection \<open>The rest of the producer\<close>

definition all_queues :: "queue list" where
  "all_queues =
     [ANALYZE_Q, ANALYZE_VERSION_Q, GLTF_CONVERT_Q, THUMBNAIL_VARIANTS_Q, THUMBNAIL_RENDER_Q, SEARCH_INDEX_Q, SEARCH_INDEX_BATCH_Q,
      NOTIFY_Q, WEBHOOK_Q, ARCHIVE_PURGE_Q, AUDIT_PURGE_Q, EDITOR_MEDIA_GC_Q, ANALYTICS_ROLLUP_Q, STORAGE_ROLLUP_Q]"

text \<open>The map of open queues, in the order of their opening; a queue is opened when it is first asked for.\<close>

definition open_queue :: "queue \<Rightarrow> queue list \<Rightarrow> queue list" where
  "open_queue q qs = (if q \<in> set qs then qs else qs @ [q])"

definition listQueues :: "queue list \<Rightarrow> queue list" where
  "listQueues qs = qs"

record repeated_job =
  rp_queue :: queue
  rp_every :: int
  rp_id :: string
  rp_keep_completed :: int
  rp_keep_failed :: int

definition scheduleSearchIndexBatch :: "queue list \<Rightarrow> queue list \<times> repeated_job list" where
  "scheduleSearchIndexBatch qs =
     (open_queue SEARCH_INDEX_BATCH_Q qs,
      [\<lparr>rp_queue = SEARCH_INDEX_BATCH_Q, rp_every = 5000, rp_id = ''search-index-batch'', rp_keep_completed = 60,
        rp_keep_failed = 60 * 60\<rparr>])"

definition producer_init :: "bool \<Rightarrow> queue list \<Rightarrow> queue list \<times> repeated_job list" where
  "producer_init openapi qs = (if openapi then (qs, []) else scheduleSearchIndexBatch (fold open_queue all_queues qs))"

lemma producer_init_opens: "set (fst (producer_init False qs)) = UNIV"
proof -
  have "set (fold open_queue ks qs) = set ks \<union> set qs" for ks qs
    by (induction ks arbitrary: qs) (auto simp: open_queue_def)
  moreover have "q \<in> set all_queues" for q by (cases q) (simp_all add: all_queues_def)
  ultimately show ?thesis by (auto simp: producer_init_def scheduleSearchIndexBatch_def open_queue_def)
qed

definition enqueueThumbProcess :: "string \<Rightarrow> string \<Rightarrow> unit handler" where
  "enqueueThumbProcess assetId thumbnailKey = enqueueThumbnailVariants assetId thumbnailKey"

definition enqueueArchivePurge :: "string \<Rightarrow> unit handler" where
  "enqueueArchivePurge triggeredAt = submit None (TriggeredJob ARCHIVE_PURGE_Q triggeredAt)"

definition enqueueAuditPurge :: "string \<Rightarrow> unit handler" where
  "enqueueAuditPurge triggeredAt = submit None (TriggeredJob AUDIT_PURGE_Q triggeredAt)"

definition enqueueEditorMediaGc :: "string \<Rightarrow> unit handler" where
  "enqueueEditorMediaGc triggeredAt = submit None (TriggeredJob EDITOR_MEDIA_GC_Q triggeredAt)"

definition enqueueAnalyticsRollup :: "string \<Rightarrow> unit handler" where
  "enqueueAnalyticsRollup triggeredAt = submit None (TriggeredJob ANALYTICS_ROLLUP_Q triggeredAt)"

definition enqueueStorageRollup :: "string \<Rightarrow> unit handler" where
  "enqueueStorageRollup triggeredAt = submit None (TriggeredJob STORAGE_ROLLUP_Q triggeredAt)"

subsection \<open>The dashboard\<close>

text \<open>
  The controller is built before the queues are opened.  \<open>router\<close> is the internal router of the adapter, if it has one; an
  answer is a status, or the router's.
\<close>

record dashboard =
  db_queues :: "queue list"

definition build_dashboard :: "bool \<Rightarrow> queue list \<Rightarrow> dashboard option" where
  "build_dashboard enabled qs = (if enabled then Some \<lparr>db_queues = listQueues qs\<rparr> else None)"

definition dashboard_answer :: "user_row \<Rightarrow> dashboard option \<Rightarrow> (dashboard \<Rightarrow> 'a) option \<Rightarrow> app_error + (nat + 'a)" where
  "dashboard_answer u db router =
     (if \<not> u_isAdmin u then Inl Forbidden
      else (case db of
              None \<Rightarrow> Inr (Inl 404)
            | Some d \<Rightarrow> (case router of Some r \<Rightarrow> Inr (Inr (r d)) | None \<Rightarrow> Inr (Inl 503))))"

text \<open>All controllers are built, on the empty map, before \<open>onModuleInit\<close> fills it: the dashboard never lists a queue.\<close>

lemma dashboard_lists_nothing: "build_dashboard enabled [] = Some d \<Longrightarrow> db_queues d = []"
  by (auto simp: build_dashboard_def listQueues_def split: if_splits)

subsection \<open>Workers\<close>

text \<open>
  A worker runs a job until it succeeds, at most as often as the options say, and reports every failed attempt to Sentry, with
  its number.  The result is what the job returned, or the last error.
\<close>

fun run_attempts :: "nat \<Rightarrow> nat \<Rightarrow> 'a handler \<Rightarrow> world \<Rightarrow> (app_error + 'a) \<times> (nat \<times> app_error) list \<times> world" where
  "run_attempts 0 n h w = (Inl (OtherError (RemoteFailure ''no attempts'')), [], w)"
| "run_attempts (Suc left) n h w =
     (case h w of
        (Inr x, w') \<Rightarrow> (Inr x, [], w')
      | (Inl e, w') \<Rightarrow>
          if left = 0 then (Inl e, [(n, e)], w')
          else (case run_attempts left (n + 1) h w' of (r, sent, w'') \<Rightarrow> (r, (n, e) # sent, w'')))"

definition run_job :: "'a handler \<Rightarrow> world \<Rightarrow> (app_error + 'a) \<times> (nat \<times> app_error) list \<times> world" where
  "run_job h = run_attempts (jo_attempts defaultJobOptions) 1 h"

lemma run_attempts_reports:
  "run_attempts k n h w = (r, sent, w') \<Longrightarrow> 0 < k \<Longrightarrow>
     map fst sent = [n ..< n + length sent] \<and> length sent \<le> k \<and> (isl r \<longleftrightarrow> length sent = k)"
proof (induction k arbitrary: n sent w r w')
  case (Suc k)
  show ?case
  proof (cases "fst (h w)")
    case (Inr x)
    with Suc.prems show ?thesis by (auto split: prod.splits)
  next
    case (Inl e)
    obtain w1 where h: "h w = (Inl e, w1)" using Inl by (cases "h w") auto
    show ?thesis
    proof (cases "k = 0")
      case True
      with Suc.prems h show ?thesis by auto
    next
      case False
      obtain r1 rs w2 where rest: "run_attempts k (n + 1) h w1 = (r1, rs, w2)" by (cases "run_attempts k (n + 1) h w1")
      with Suc.prems(1) h False have sent: "sent = (n, e) # rs" "r1 = r" by auto
      have "map fst rs = [n + 1 ..< n + 1 + length rs]" "length rs \<le> k" "isl r \<longleftrightarrow> length rs = k"
        using Suc.IH [OF rest] False sent(2) by auto
      moreover have "[n ..< n + length sent] = n # [n + 1 ..< n + 1 + length rs]"
        by (simp add: sent(1) upt_conv_Cons del: upt_Suc)
      ultimately show ?thesis by (simp add: sent(1) del: upt_Suc)
    qed
  qed
qed simp

text \<open>A worker keeps whatever one run of its job keeps, so the retries of a failing job are as safe as the job.\<close>

lemma run_attempts_keeps: "keeps I h \<Longrightarrow> I w \<Longrightarrow> I (snd (snd (run_attempts k n h w)))"
proof (induction k arbitrary: n w)
  case (Suc k)
  have "I (snd (h w))" using Suc.prems by (simp add: keeps_def)
  with Suc show ?case by (auto split: prod.splits sum.splits) (metis snd_conv)+
qed simp

end
